(* ===== verification/Prelude.thy ===== *)
theory Prelude
  imports Main "HOL-Library.Word"
begin

unbundle bit_operations_syntax

text \<open>
  Shared vocabulary of the development: the fixed-width integers, the result codes and the
  bit helpers of \<^verbatim>\<open>src/src/common/Types.h\<close>, the little-endian byte codec that
  \<^verbatim>\<open>memcpy\<close> of an integer amounts to on the target (arm64), and generic lemmas on
  words, lists and maps that the component theories use.

  The collection \<open>mask_simps\<close> holds the facts about masked and aligned words;
  \<open>le_simps\<close> the byte codec.
\<close>

named_theorems mask_simps "masks, alignment and bit fields of machine words"
named_theorems le_simps "the little-endian byte codec"

type_synonym u8 = "8 word"
type_synonym u16 = "16 word"
type_synonym u32 = "32 word"
type_synonym u64 = "64 word"

section \<open>Result codes\<close>

datatype Result =
    Success
  | NotImplemented | InvalidArgument | OutOfMemory | NotFound | PermissionDenied
  | InvalidHandle | TimedOut | ThreadTerminating
  | FsFileNotFound | FsInvalidNCA | FsIntegrityCheckFailed
  | GpuMethodNotFound | GpuShaderCompileFailed | GpuOutOfMemory

text \<open>The enumerators' values: what a cast of a \<open>Result\<close> to an integer yields.\<close>

fun result_code :: "Result \<Rightarrow> u32" where
  "result_code Success = 0"
| "result_code NotImplemented = 0x1001"
| "result_code InvalidArgument = 0x1002"
| "result_code OutOfMemory = 0x1003"
| "result_code NotFound = 0x1004"
| "result_code PermissionDenied = 0x1005"
| "result_code InvalidHandle = 0x2001"
| "result_code TimedOut = 0x2002"
| "result_code ThreadTerminating = 0x2003"
| "result_code FsFileNotFound = 0x3001"
| "result_code FsInvalidNCA = 0x3002"
| "result_code FsIntegrityCheckFailed = 0x3003"
| "result_code GpuMethodNotFound = 0x4001"
| "result_code GpuShaderCompileFailed = 0x4002"
| "result_code GpuOutOfMemory = 0x4003"

definition Failed :: "Result \<Rightarrow> bool" where
  "Failed r \<longleftrightarrow> result_code r \<noteq> 0"

lemma Failed_iff [simp]: "Failed r \<longleftrightarrow> r \<noteq> Success"
  by (cases r) (simp_all add: Failed_def)

section \<open>Alignment and bit fields\<close>

definition AlignUp :: "'a::len word \<Rightarrow> 'a word \<Rightarrow> 'a word" where
  "AlignUp value alignment = (value + alignment - 1) AND NOT (alignment - 1)"

definition AlignDown :: "'a::len word \<Rightarrow> 'a word \<Rightarrow> 'a word" where
  "AlignDown value alignment = value AND NOT (alignment - 1)"

definition IsAligned :: "'a::len word \<Rightarrow> 'a word \<Rightarrow> bool" where
  "IsAligned value alignment \<longleftrightarrow> value AND (alignment - 1) = 0"

text \<open>\<open>Bits(value, hi, lo)\<close> and \<open>Bit(value, b)\<close>: a bit field and a single bit.\<close>

definition Bits :: "'a::len word \<Rightarrow> nat \<Rightarrow> nat \<Rightarrow> 'a word" where
  "Bits value hi lo = drop_bit lo value AND (push_bit (hi - lo + 1) 1 - 1)"

definition Bit :: "'a::len word \<Rightarrow> nat \<Rightarrow> bool" where
  "Bit value b \<longleftrightarrow> drop_bit b value AND 1 \<noteq> 0"

lemma mask_as_minus [mask_simps]: "(2::'a::len word) ^ k - 1 = mask k"
  by (simp add: mask_eq_exp_minus_1)

lemma and_not_mask_slice: "(x::'a::len word) AND NOT (mask k) = push_bit k (drop_bit k x)"
  by (rule bit_word_eqI) (auto simp: bit_simps)

lemma unat_and_not_mask [mask_simps]:
  "unat ((x::'a::len word) AND NOT (mask k)) = unat x div 2 ^ k * 2 ^ k"
proof -
  have "unat x div 2 ^ k * 2 ^ k \<le> unat x"
    by simp
  also have "unat x < 2 ^ LENGTH('a)"
    by simp
  finally have "take_bit LENGTH('a) (unat x div 2 ^ k * 2 ^ k) = unat x div 2 ^ k * 2 ^ k"
    by (simp add: take_bit_nat_eq_self)
  then have "take_bit LENGTH('a) (push_bit k (drop_bit k (unat x))) = unat x div 2 ^ k * 2 ^ k"
    by (simp add: push_bit_eq_mult drop_bit_eq_div)
  then show ?thesis
    by (simp only: and_not_mask_slice unsigned_push_bit_eq unat_drop_bit_eq)
qed

lemma unat_and_mask [mask_simps]:
  "unat ((x::'a::len word) AND mask k) = unat x mod 2 ^ k"
  by (simp add: unsigned_take_bit_eq flip: take_bit_eq_mask take_bit_eq_mod)

lemma IsAligned_iff: "IsAligned (x::'a::len word) (2 ^ k) \<longleftrightarrow> 2 ^ k dvd unat x"
proof -
  have "IsAligned x (2 ^ k) \<longleftrightarrow> unat (x AND mask k) = 0"
    by (simp add: IsAligned_def mask_as_minus unat_eq_zero)
  then show ?thesis
    by (simp add: mask_simps dvd_eq_mod_eq_0)
qed

lemma AlignUp_mask: "AlignUp x (2 ^ k) = (x + mask k) AND NOT (mask k)"
  by (simp add: AlignUp_def mask_as_minus add_diff_eq [symmetric])

lemma IsAligned_and_not_mask: "IsAligned ((x::'a::len word) AND NOT (mask k)) (2 ^ k)"
  by (simp add: IsAligned_iff mask_simps)

lemma IsAligned_AlignUp: "IsAligned (AlignUp x (2 ^ k)) (2 ^ k)"
  by (simp add: AlignUp_mask IsAligned_and_not_mask)

lemma unat_mask_lt:
  assumes "k < LENGTH('a)"
  shows "unat (mask k :: 'a::len word) = 2 ^ k - 1"
proof -
  have "unat (mask k :: 'a word) = unat (of_nat (mask k) :: 'a word)"
    by (simp only: of_nat_mask_eq)
  also have "\<dots> = take_bit LENGTH('a) (mask k)"
    by (simp only: unsigned_of_nat of_nat_id)
  also have "\<dots> = 2 ^ k - 1"
    using assms by (simp add: min_def) (simp add: mask_eq_exp_minus_1)
  finally show ?thesis .
qed

lemma unat_AlignUp:
  assumes "k < LENGTH('a)" and "unat (x::'a::len word) + (2 ^ k - 1) < 2 ^ LENGTH('a)"
  shows "unat (AlignUp x (2 ^ k)) = (unat x + (2 ^ k - 1)) div 2 ^ k * 2 ^ k"
proof -
  have "unat (x + mask k) = unat x + (2 ^ k - 1)"
    using assms by (simp add: unat_word_ariths unat_mask_lt)
  then show ?thesis
    by (simp add: AlignUp_mask mask_simps)
qed

lemma round_up_nat_bounds:
  fixes n a :: nat
  assumes "0 < a"
  shows "n \<le> (n + (a - 1)) div a * a" and "(n + (a - 1)) div a * a < n + a"
proof -
  let ?q = "(n + (a - 1)) div a"
  have eq: "?q * a + (n + (a - 1)) mod a = n + (a - 1)"
    by simp
  have lt: "(n + (a - 1)) mod a < a"
    using assms by simp
  show "n \<le> ?q * a" and "?q * a < n + a"
    using eq lt assms by linarith+
qed

lemma AlignUp_bounds:
  assumes "k < LENGTH('a)" and "unat (x::'a::len word) + (2 ^ k - 1) < 2 ^ LENGTH('a)"
  shows "unat x \<le> unat (AlignUp x (2 ^ k))"
    and "unat (AlignUp x (2 ^ k)) < unat x + 2 ^ k"
  using round_up_nat_bounds [of "2 ^ k" "unat x"] by (simp_all add: unat_AlignUp [OF assms])

lemma unat_u32_less: "unat (w :: u32) < 2 ^ 32"
proof -
  have "unat w < 2 ^ LENGTH(32)"
    by (rule unsigned_less)
  then show ?thesis
    by simp
qed

section \<open>Little-endian integers in byte buffers\<close>

text \<open>
  \<open>le_bytes n w\<close> are the \<open>n\<close> bytes a \<^verbatim>\<open>memcpy\<close> of the integer \<open>w\<close> writes;
  \<open>of_le_bytes\<close> is the integer such a copy reads back.
\<close>

definition le_bytes :: "nat \<Rightarrow> 'a::len word \<Rightarrow> u8 list" where
  "le_bytes n w = map (\<lambda>i. ucast (drop_bit (8 * i) w)) [0..<n]"

primrec of_le_bytes :: "u8 list \<Rightarrow> 'a::len word" where
  "of_le_bytes [] = 0"
| "of_le_bytes (b # bs) = ucast b OR push_bit 8 (of_le_bytes bs)"

lemma length_le_bytes [simp]: "length (le_bytes n w) = n"
  by (simp add: le_bytes_def)

lemma nth_le_bytes [simp]: "i < n \<Longrightarrow> le_bytes n w ! i = ucast (drop_bit (8 * i) w)"
  by (simp add: le_bytes_def)

lemma le_bytes_Suc: "le_bytes (Suc n) w = ucast w # le_bytes n (drop_bit 8 w)"
proof -
  have "le_bytes (Suc n) w = map (\<lambda>i. ucast (drop_bit (8 * i) w)) (0 # map Suc [0..<n])"
    by (simp only: le_bytes_def upt_conv_Cons [OF zero_less_Suc] map_Suc_upt)
  then show ?thesis
    by (simp add: le_bytes_def add.commute del: upt_Suc)
qed

lemma of_le_bytes_le_bytes [le_simps]: "of_le_bytes (le_bytes n w) = take_bit (8 * n) w"
proof (induction n arbitrary: w)
  case 0
  then show ?case by (simp add: le_bytes_def)
next
  case (Suc n)
  have "of_le_bytes (le_bytes (Suc n) w) =
      ucast (ucast w :: u8) OR push_bit 8 (take_bit (8 * n) (drop_bit 8 w))"
    by (simp add: le_bytes_Suc Suc)
  also have "\<dots> = take_bit (8 * Suc n) w"
    by (rule bit_word_eqI) (auto simp: bit_simps)
  finally show ?case .
qed

lemma of_le_bytes_u32 [simp]: "of_le_bytes (le_bytes 4 (w::u32)) = w"
  by (simp add: le_simps take_bit_word_eq_self)

lemma of_le_bytes_u64 [simp]: "of_le_bytes (le_bytes 8 (w::u64)) = w"
  by (simp add: le_simps take_bit_word_eq_self)

lemma of_le_bytes_u8 [simp]: "of_le_bytes (le_bytes 1 (w::u8)) = w"
  by (simp add: le_simps take_bit_word_eq_self)

text \<open>\<open>IpcReadU32\<close> and \<open>IpcWriteU32\<close> of \<^verbatim>\<open>src/src/services/Ipc.h\<close>: the same codec at an offset.\<close>

definition put_bytes :: "u8 list \<Rightarrow> nat \<Rightarrow> u8 list \<Rightarrow> u8 list" where
  "put_bytes buf off bs = take off buf @ bs @ drop (off + length bs) buf"

definition get_bytes :: "u8 list \<Rightarrow> nat \<Rightarrow> nat \<Rightarrow> u8 list" where
  "get_bytes buf off n = take n (drop off buf)"

lemma length_put_bytes [simp]:
  "off + length bs \<le> length buf \<Longrightarrow> length (put_bytes buf off bs) = length buf"
  by (simp add: put_bytes_def)

lemma get_put_bytes_same [simp]:
  "off \<le> length buf \<Longrightarrow> n = length bs \<Longrightarrow> get_bytes (put_bytes buf off bs) off n = bs"
  by (simp add: get_bytes_def put_bytes_def)

lemma get_put_bytes_before [simp]:
  "j + n \<le> off \<Longrightarrow> off \<le> length buf \<Longrightarrow> get_bytes (put_bytes buf off bs) j n = get_bytes buf j n"
  by (simp add: get_bytes_def put_bytes_def take_drop)

lemma get_put_bytes_after [simp]:
  assumes "off + length bs \<le> j" and "off + length bs \<le> length buf"
  shows "get_bytes (put_bytes buf off bs) j n = get_bytes buf j n"
proof -
  have "drop j (put_bytes buf off bs) = drop j buf"
    using assms by (simp add: put_bytes_def min_def)
  then show ?thesis
    by (simp add: get_bytes_def)
qed

section \<open>The register file\<close>

text \<open>\<open>GuestThreadState\<close> of \<^verbatim>\<open>src/src/cpu/ExceptionHandler.h\<close>: \<open>x0\<close> to \<open>x30\<close>, stack pointer, program counter.\<close>

record GuestThreadState =
  gx :: "u64 list"
  gsp :: u64
  gpc :: u64

section \<open>Transition systems\<close>

inductive reach :: "'s \<Rightarrow> ('s \<Rightarrow> 's \<Rightarrow> bool) \<Rightarrow> 's \<Rightarrow> bool" for init step where
  reach_init: "reach init step init"
| reach_step: "reach init step s \<Longrightarrow> step s s' \<Longrightarrow> reach init step s'"

locale safe_system =
  fixes init :: "'s" and step :: "'s \<Rightarrow> 's \<Rightarrow> bool" and safe :: "'s \<Rightarrow> bool"
  assumes safe_init: "safe init"
    and safe_step: "safe s \<Longrightarrow> step s s' \<Longrightarrow> safe s'"
begin

lemma reach_safe: "reach init step s \<Longrightarrow> safe s"
  by (induction rule: reach.induct) (auto intro: safe_init safe_step)

end

end
