(* ===== verification/GuestMemory.thy ===== *)
theory GuestMemory
  imports Prelude
begin

unbundle bit_operations_syntax

text \<open>
  The guest address space: class \<open>Memory\<close> of \<^verbatim>\<open>src/src/memory/Memory.h\<close> and
  \<^verbatim>\<open>src/src/memory/Memory.cpp\<close>.

  The state is the record \<open>memory\<close>: the private fields of the class plus \<open>image\<close>, the
  bytes of the host process, indexed by host address (guest address \<open>a\<close> is host address
  \<open>base_addr + a\<close>). An access to a host page that the host has not mapped raises a host signal
  and is outside this model: \<open>image\<close> is total. The Mach calls are the parameter \<open>host_vm\<close>:
  each takes the image and says whether it succeeds and what the image is afterwards. What the
  code relies on of them is stated as hypotheses where a theorem needs it.

  \<open>pages_\<close> is a \<^verbatim>\<open>std::unordered_map\<close>: a map, whose iteration order is an argument of the
  one operation that iterates (\<open>QueryRegion\<close>). The mutex makes each operation atomic.
\<close>

section \<open>State\<close>

type_synonym Permission = u8

abbreviation Perm_None :: Permission where "Perm_None \<equiv> 0"
abbreviation Perm_R :: Permission where "Perm_R \<equiv> 1"
abbreviation Perm_W :: Permission where "Perm_W \<equiv> 2"
abbreviation Perm_RW :: Permission where "Perm_RW \<equiv> 3"
abbreviation Perm_X :: Permission where "Perm_X \<equiv> 4"
abbreviation Perm_RX :: Permission where "Perm_RX \<equiv> 5"
abbreviation Perm_RWX :: Permission where "Perm_RWX \<equiv> 7"

definition ADDR_SPACE_SIZE :: u64 where "ADDR_SPACE_SIZE = 0x100000000"
definition PAGE_SIZE :: u64 where "PAGE_SIZE = 0x1000"
definition HEAP_BASE :: u64 where "HEAP_BASE = 0x80000000"
definition STACK_BASE :: u64 where "STACK_BASE = 0xC0000000"
definition HOST_PAGE :: u64 where "HOST_PAGE = 0x4000"

lemmas mem_consts = ADDR_SPACE_SIZE_def PAGE_SIZE_def HEAP_BASE_def STACK_BASE_def HOST_PAGE_def

record page_info =
  pg_size :: u64
  pg_flags :: u32

type_synonym image = "u64 \<Rightarrow> u8"

record memory =
  base_addr :: u64
  heap_size :: u64
  heap_addr :: u64
  stack_size :: u64
  stack_top :: u64
  pages :: "u64 \<rightharpoonup> page_info"
  image :: image
  write_stamp :: u64
  write_callback :: bool
  callback_log :: "(u64 \<times> u64) list"

text \<open>
  \<open>vm_map\<close>: \<^verbatim>\<open>mach_vm_map\<close> of fresh anonymous memory at a fixed address (\<open>None\<close>: an error
  code); \<open>vm_deallocate\<close>: \<^verbatim>\<open>mach_vm_deallocate\<close> (success, image afterwards);
  \<open>vm_protect\<close>: \<^verbatim>\<open>mach_vm_protect\<close>, whether it succeeds.
\<close>

record host_vm =
  vm_map :: "image \<Rightarrow> u64 \<Rightarrow> u64 \<Rightarrow> image option"
  vm_deallocate :: "image \<Rightarrow> u64 \<Rightarrow> u64 \<Rightarrow> bool \<times> image"
  vm_protect :: "image \<Rightarrow> u64 \<Rightarrow> u64 \<Rightarrow> u32 \<Rightarrow> bool"

definition Memory_init :: "image \<Rightarrow> memory" where
  "Memory_init img =
     \<lparr>base_addr = 0x300000000, heap_size = 0, heap_addr = HEAP_BASE, stack_size = 0, stack_top = 0,
      pages = Map.empty, image = img, write_stamp = 0, write_callback = False, callback_log = []\<rparr>"

section \<open>Byte images\<close>

definition read_image :: "image \<Rightarrow> u64 \<Rightarrow> nat \<Rightarrow> u8 list" where
  "read_image img a n = map (\<lambda>i. img (a + of_nat i)) [0..<n]"

definition write_image :: "image \<Rightarrow> u64 \<Rightarrow> u8 list \<Rightarrow> image" where
  "write_image img a bs = (\<lambda>x. if unat (x - a) < length bs then bs ! unat (x - a) else img x)"

definition fill_image :: "image \<Rightarrow> u64 \<Rightarrow> u64 \<Rightarrow> u8 \<Rightarrow> image" where
  "fill_image img a n b = (\<lambda>x. if x - a < n then b else img x)"

lemma length_read_image [simp]: "length (read_image img a n) = n"
  by (simp add: read_image_def)

lemma read_write_image_same:
  assumes "length bs \<le> 2 ^ 64"
  shows "read_image (write_image img a bs) a (length bs) = bs"
proof (rule nth_equalityI)
  fix i
  assume "i < length (read_image (write_image img a bs) a (length bs))"
  then have i: "i < length bs" "i < 2 ^ 64"
    using assms by simp_all
  then have "unat (of_nat i :: u64) = i"
    by (simp add: unsigned_of_nat take_bit_nat_eq_self)
  with i show "read_image (write_image img a bs) a (length bs) ! i = bs ! i"
    by (simp add: read_image_def write_image_def)
qed simp

lemma read_write_image_other:
  assumes "\<And>i. i < n \<Longrightarrow> length bs \<le> unat (b + of_nat i - a)"
  shows "read_image (write_image img a bs) b n = read_image img b n"
  by (simp add: read_image_def write_image_def assms [THEN leD])

section \<open>Operations\<close>

definition mach_vm_prot_from_perm :: "Permission \<Rightarrow> u32" where
  "mach_vm_prot_from_perm perm =
     (if perm = Perm_R then 1
      else if perm = Perm_W then 2
      else if perm = Perm_RW then 1 OR 2
      else if perm = Perm_X then 4
      else if perm = Perm_RX then 1 OR 4
      else if perm = Perm_RWX then 1 OR 2 OR 4
      else 0)"

text \<open>
  \<open>MapPhysical\<close>. The final \<^verbatim>\<open>mach_vm_protect\<close> only changes host page protection, and its
  result is only logged, so it leaves no trace in the state.
\<close>

definition MapPhysical ::
    "host_vm \<Rightarrow> memory \<Rightarrow> u64 \<Rightarrow> u64 \<Rightarrow> Permission \<Rightarrow> u8 list option \<Rightarrow> Result \<times> memory" where
  "MapPhysical host m address sz perm data =
     (if \<not> IsAligned address PAGE_SIZE \<or> \<not> IsAligned sz PAGE_SIZE then (InvalidArgument, m)
      else if address + sz > ADDR_SPACE_SIZE then (InvalidArgument, m)
      else
        let abs_addr = base_addr m + address;
            page_off = abs_addr AND (HOST_PAGE - 1);
            map_addr = abs_addr AND NOT (HOST_PAGE - 1);
            map_size = ((sz + page_off + HOST_PAGE - 1) div HOST_PAGE) * HOST_PAGE;
            img1 = snd (vm_deallocate host (image m) map_addr map_size);
            img2 = snd (vm_deallocate host img1 map_addr map_size)
        in case vm_map host img2 map_addr map_size of
             None \<Rightarrow> (OutOfMemory, m\<lparr>image := img2\<rparr>)
           | Some img3 \<Rightarrow>
               let abs_addr' = map_addr + page_off;
                   img4 = (case data of None \<Rightarrow> img3
                           | Some bs \<Rightarrow> write_image img3 abs_addr' (take (unat sz) bs))
               in (Success,
                   m\<lparr>image := img4,
                     pages := (pages m)(address \<mapsto> \<lparr>pg_size = sz, pg_flags = ucast perm\<rparr>)\<rparr>))"

definition UnmapPhysical :: "host_vm \<Rightarrow> memory \<Rightarrow> u64 \<Rightarrow> u64 \<Rightarrow> Result \<times> memory" where
  "UnmapPhysical host m address sz =
     (if \<not> IsAligned address PAGE_SIZE then (InvalidArgument, m)
      else
        let abs_addr = base_addr m + address;
            (ok, img) = vm_deallocate host (image m) abs_addr sz
        in if \<not> ok then (InvalidArgument, m\<lparr>image := img\<rparr>)
           else (Success, m\<lparr>image := img, pages := (pages m)(address := None)\<rparr>))"

definition Protect :: "host_vm \<Rightarrow> memory \<Rightarrow> u64 \<Rightarrow> u64 \<Rightarrow> Permission \<Rightarrow> Result" where
  "Protect host m address sz perm =
     (if \<not> vm_protect host (image m) (base_addr m + address) sz (mach_vm_prot_from_perm perm)
      then InvalidArgument else Success)"

definition SetHeapSize :: "host_vm \<Rightarrow> memory \<Rightarrow> u64 \<Rightarrow> Result \<times> memory" where
  "SetHeapSize host m sz =
     (let aligned = AlignUp sz PAGE_SIZE in
      if aligned > 0x40000000 then (OutOfMemory, m)
      else if aligned = heap_size m then (Success, m)
      else if aligned > heap_size m then
        let m1 = (if heap_size m > 0 then snd (UnmapPhysical host m HEAP_BASE (heap_size m)) else m);
            (r, m2) = MapPhysical host m1 HEAP_BASE aligned Perm_RW None
        in if Failed r then
             (r, if heap_size m2 > 0
                 then snd (MapPhysical host m2 HEAP_BASE (heap_size m2) Perm_RW None) else m2)
           else (Success, m2\<lparr>heap_addr := HEAP_BASE, heap_size := aligned\<rparr>)
      else
        let m1 = snd (UnmapPhysical host m (HEAP_BASE + aligned) (heap_size m - aligned))
        in (Success, m1\<lparr>heap_addr := HEAP_BASE, heap_size := aligned\<rparr>))"

definition SetupStack :: "host_vm \<Rightarrow> memory \<Rightarrow> u64 \<Rightarrow> Result \<times> memory" where
  "SetupStack host m sz =
     (let aligned = min (AlignUp sz PAGE_SIZE) 0x100000;
          stack_addr = STACK_BASE - aligned;
          (r, m1) = MapPhysical host m stack_addr aligned Perm_RW None
      in if Failed r then (r, m1)
         else (Success, m1\<lparr>stack_size := aligned, stack_top := STACK_BASE\<rparr>))"

definition IsValid :: "u64 \<Rightarrow> bool" where
  "IsValid address \<longleftrightarrow> address < ADDR_SPACE_SIZE"

definition Pointer :: "memory \<Rightarrow> u64 \<Rightarrow> u64 option" where
  "Pointer m address = (if \<not> IsValid address then None else Some (base_addr m + address))"

text \<open>\<open>Read<T>\<close> and \<open>Write<T>\<close> for a type of \<open>n\<close> bytes.\<close>

definition Read :: "memory \<Rightarrow> u64 \<Rightarrow> nat \<Rightarrow> Result + u8 list" where
  "Read m address n =
     (if \<not> IsValid address \<or> address + of_nat n > ADDR_SPACE_SIZE then Inl InvalidArgument
      else Inr (read_image (image m) (base_addr m + address) n))"

definition Write :: "memory \<Rightarrow> u64 \<Rightarrow> u8 list \<Rightarrow> Result + memory" where
  "Write m address bs =
     (if \<not> IsValid address \<or> address + of_nat (length bs) > ADDR_SPACE_SIZE then Inl InvalidArgument
      else Inr (m\<lparr>image := write_image (image m) (base_addr m + address) bs,
                  write_stamp := write_stamp m + 1,
                  callback_log := callback_log m @
                    (if write_callback m then [(address, of_nat (length bs))] else [])\<rparr>))"

text \<open>A caller that initialises the target to \<open>d\<close> and ignores the result of \<open>Read\<close>.\<close>

definition read_u32_or :: "u32 \<Rightarrow> memory \<Rightarrow> u64 \<Rightarrow> u32" where
  "read_u32_or d m a = (case Read m a 4 of Inl _ \<Rightarrow> d | Inr bs \<Rightarrow> of_le_bytes bs)"

definition read_u64_or :: "u64 \<Rightarrow> memory \<Rightarrow> u64 \<Rightarrow> u64" where
  "read_u64_or d m a = (case Read m a 8 of Inl _ \<Rightarrow> d | Inr bs \<Rightarrow> of_le_bytes bs)"

text \<open>A caller that ignores the result of \<open>Write\<close>.\<close>

definition try_write :: "memory \<Rightarrow> u64 \<Rightarrow> u8 list \<Rightarrow> memory" where
  "try_write m a bs = (case Write m a bs of Inl _ \<Rightarrow> m | Inr m' \<Rightarrow> m')"

text \<open>\<^verbatim>\<open>std::memset\<close> through a pointer obtained from \<open>Pointer\<close>.\<close>

definition memset_guest :: "memory \<Rightarrow> u64 \<Rightarrow> u8 \<Rightarrow> u64 \<Rightarrow> memory" where
  "memset_guest m address b n =
     (case Pointer m address of None \<Rightarrow> m
      | Some p \<Rightarrow> m\<lparr>image := fill_image (image m) p n b\<rparr>)"

text \<open>\<open>QueryRegion\<close>: \<open>order\<close> lists the keys of \<open>pages_\<close> in iteration order.\<close>

fun find_region :: "(u64 \<rightharpoonup> page_info) \<Rightarrow> u64 \<Rightarrow> u64 list \<Rightarrow> (u64 \<times> page_info) option" where
  "find_region pgs address [] = None"
| "find_region pgs address (b # bs) =
     (case pgs b of
        None \<Rightarrow> find_region pgs address bs
      | Some p \<Rightarrow> if address \<ge> b \<and> address < b + pg_size p then Some (b, p)
                  else find_region pgs address bs)"

definition region_type :: "u64 \<Rightarrow> u32 \<Rightarrow> u32" where
  "region_type page_base flags =
     (let t = (if flags AND 4 \<noteq> 0 then 0 else if flags AND 2 \<noteq> 0 then 1
               else if flags AND 1 \<noteq> 0 then 2 else 3);
          t' = (if page_base \<ge> HEAP_BASE \<and> page_base < HEAP_BASE + 0x40000000 then 4 else t)
      in if page_base \<ge> STACK_BASE - 0x1000000 \<and> page_base < STACK_BASE then 5 else t')"

definition QueryRegion :: "memory \<Rightarrow> u64 list \<Rightarrow> u64 \<Rightarrow> u64 \<times> u64 \<times> u32" where
  "QueryRegion m order address =
     (case find_region (pages m) address order of
        None \<Rightarrow> (address, 0x1000, 3)
      | Some (page_base, p) \<Rightarrow> (page_base, pg_size p, region_type page_base (pg_flags p)))"

section \<open>Access checks\<close>

lemma IsValid_iff: "IsValid a \<longleftrightarrow> unat a < 2 ^ 32"
  by (simp add: IsValid_def mem_consts word_less_nat_alt)

lemma access_ok_iff:
  assumes "n < 2 ^ 32"
  shows "\<not> (\<not> IsValid a \<or> a + of_nat n > ADDR_SPACE_SIZE) \<longleftrightarrow> unat a < 2 ^ 32 \<and> unat a + n \<le> 2 ^ 32"
proof (cases "unat a < 2 ^ 32")
  case True
  have "unat (of_nat n :: u64) = n"
    using assms by (simp add: unsigned_of_nat take_bit_nat_eq_self)
  then have "unat (a + of_nat n) = unat a + n"
    using assms True by (simp add: unat_word_ariths)
  then show ?thesis
    using True by (simp add: IsValid_iff mem_consts not_less word_le_nat_alt)
qed (simp add: IsValid_iff)

lemma offset_beyond:
  fixes a b :: u64
  assumes "unat a + l \<le> 2 ^ 32" and "unat b + i < 2 ^ 32"
    and "unat a + l \<le> unat b + i \<or> unat b + i < unat a"
  shows "l \<le> unat (b + of_nat i - a)"
proof -
  have "unat (of_nat i :: u64) = i"
    using assms(2) by (simp add: unsigned_of_nat take_bit_nat_eq_self)
  then have *: "unat (b + of_nat i) = unat b + i"
    using assms(2) by (simp add: unat_word_ariths)
  show ?thesis
    using assms by (auto simp: unat_sub_if' word_le_nat_alt *)
qed

lemma Read_ok_iff:
  "n < 2 ^ 32 \<Longrightarrow>
   (\<exists>bs. Read m a n = Inr bs) \<longleftrightarrow> unat a < 2 ^ 32 \<and> unat a + n \<le> 2 ^ 32"
  using access_ok_iff [of n a] by (auto simp: Read_def)

lemma Write_ok_iff:
  "length bs < 2 ^ 32 \<Longrightarrow>
   (\<exists>m'. Write m a bs = Inr m') \<longleftrightarrow> unat a < 2 ^ 32 \<and> unat a + length bs \<le> 2 ^ 32"
  using access_ok_iff [of "length bs" a] by (auto simp: Write_def)

lemma Write_Inr:
  assumes "Write m a bs = Inr m'"
  shows "image m' = write_image (image m) (base_addr m + a) bs"
    and "base_addr m' = base_addr m" and "pages m' = pages m"
    and "write_stamp m' = write_stamp m + 1"
    and "heap_size m' = heap_size m" and "heap_addr m' = heap_addr m"
  using assms by (auto simp: Write_def split: if_splits)

lemma Read_Write_same:
  assumes "Write m a bs = Inr m'" and "length bs < 2 ^ 32"
  shows "Read m' a (length bs) = Inr bs"
  using assms read_write_image_same [of bs "image m" "base_addr m + a"]
  by (auto simp: Read_def Write_def split: if_splits)

lemma Read_Write_other:
  assumes w: "Write m a bs = Inr m'" and l: "length bs < 2 ^ 32" and n: "n < 2 ^ 32"
    and d: "unat a + length bs \<le> unat b \<or> unat b + n \<le> unat a"
  shows "Read m' b n = Read m b n"
proof (cases "unat b < 2 ^ 32 \<and> unat b + n \<le> 2 ^ 32")
  case True
  have a: "unat a + length bs \<le> 2 ^ 32"
    using w Write_ok_iff [OF l, of m a] by blast
  have "length bs \<le> unat ((base_addr m + b) + of_nat i - (base_addr m + a))" if "i < n" for i
    using offset_beyond [OF a, of b i] True d that by (auto simp: algebra_simps)
  then have "read_image (image m') (base_addr m + b) n = read_image (image m) (base_addr m + b) n"
    by (simp add: Write_Inr [OF w] read_write_image_other)
  then show ?thesis
    by (simp add: Read_def Write_Inr [OF w])
next
  case False
  then show ?thesis
    using access_ok_iff [OF n, of b] by (auto simp: Read_def)
qed

section \<open>The byte store the other components rely on\<close>

text \<open>
  The kernel, the services and the GPU submission path see guest memory through
  \<open>Read\<close> and \<open>Write\<close> only, often one byte at a time. The locale states the two laws they
  use; the loops below are theirs.
\<close>

fun store_loop :: "('m \<Rightarrow> u64 \<Rightarrow> u8 list \<Rightarrow> 'm) \<Rightarrow> 'm \<Rightarrow> u64 \<Rightarrow> u8 list \<Rightarrow> 'm" where
  "store_loop wr m a [] = m"
| "store_loop wr m a (b # bs) = store_loop wr (wr m a [b]) (a + 1) bs"

fun load_loop :: "('m \<Rightarrow> u64 \<Rightarrow> nat \<Rightarrow> Result + u8 list) \<Rightarrow> 'm \<Rightarrow> u64 \<Rightarrow> nat \<Rightarrow> u8 list" where
  "load_loop rd m a 0 = []"
| "load_loop rd m a (Suc n) =
     (case rd m a 1 of Inr [b] \<Rightarrow> b | _ \<Rightarrow> 0) # load_loop rd m (a + 1) n"

locale byte_store =
  fixes rd :: "'m \<Rightarrow> u64 \<Rightarrow> nat \<Rightarrow> Result + u8 list"
    and wr :: "'m \<Rightarrow> u64 \<Rightarrow> u8 list \<Rightarrow> 'm"
  assumes rd_wr_same: "unat a < 2 ^ 32 \<Longrightarrow> rd (wr m a [x]) a 1 = Inr [x]"
    and rd_wr_other: "unat a \<noteq> unat b \<Longrightarrow> rd (wr m a [x]) b 1 = rd m b 1"
begin

lemma rd_store_before:
  "unat b < unat a \<Longrightarrow> unat a + length bs \<le> 2 ^ 32 \<Longrightarrow> rd (store_loop wr m a bs) b 1 = rd m b 1"
proof (induction bs arbitrary: m a)
  case (Cons x bs)
  have "unat (a + 1) = unat a + 1"
    using Cons.prems by (simp add: unat_word_ariths)
  with Cons show ?case
    by (simp add: rd_wr_other [simplified])
qed simp

lemma load_store:
  "unat a + length bs \<le> 2 ^ 32 \<Longrightarrow> load_loop rd (store_loop wr m a bs) a (length bs) = bs"
proof (induction bs arbitrary: m a)
  case (Cons x bs)
  have step: "unat (a + 1) = unat a + 1"
    using Cons.prems by (simp add: unat_word_ariths)
  have "rd (store_loop wr (wr m a [x]) (a + 1) bs) a 1 = rd (wr m a [x]) a 1"
    using Cons.prems step by (intro rd_store_before) simp_all
  also have "\<dots> = Inr [x]"
    using Cons.prems by (intro rd_wr_same) simp
  finally show ?case
    using Cons step by simp
qed simp

end

lemma try_write_cases:
  "try_write m a [x] = m \<and> \<not> unat a < 2 ^ 32 \<or> Write m a [x] = Inr (try_write m a [x])"
  using Write_ok_iff [of "[x]" m a] by (auto simp: try_write_def split: sum.splits)

interpretation guest: byte_store Read try_write
proof unfold_locales
  fix a :: u64 and m :: memory and x :: u8
  assume "unat a < 2 ^ 32"
  then have "Write m a [x] = Inr (try_write m a [x])"
    using try_write_cases by blast
  from Read_Write_same [OF this] show "Read (try_write m a [x]) a 1 = Inr [x]"
    by simp
next
  fix a b :: u64 and m :: memory and x :: u8
  assume "unat a \<noteq> unat b"
  then have "unat a + length [x] \<le> unat b \<or> unat b + 1 \<le> unat a"
    by auto
  then show "Read (try_write m a [x]) b 1 = Read m b 1"
    using try_write_cases [of m a x] Read_Write_other [of m a "[x]" "try_write m a [x]" 1 b]
    by fastforce
qed

section \<open>The page table\<close>

definition page_ok :: "u64 \<Rightarrow> page_info \<Rightarrow> bool" where
  "page_ok a p \<longleftrightarrow> IsAligned a PAGE_SIZE \<and> IsAligned (pg_size p) PAGE_SIZE
     \<and> a + pg_size p \<le> ADDR_SPACE_SIZE"

definition pages_ok :: "memory \<Rightarrow> bool" where
  "pages_ok m \<longleftrightarrow> (\<forall>a p. pages m a = Some p \<longrightarrow> page_ok a p)"

definition heap_ok :: "memory \<Rightarrow> bool" where
  "heap_ok m \<longleftrightarrow> heap_addr m = HEAP_BASE \<and> IsAligned (heap_size m) PAGE_SIZE
     \<and> heap_size m \<le> 0x40000000"

lemma PAGE_SIZE_pow: "PAGE_SIZE = 2 ^ 12"
  by (simp add: PAGE_SIZE_def)

lemma MapPhysical_cases:
  obtains (reject) "MapPhysical host m a sz perm data = (InvalidArgument, m)"
      "\<not> (IsAligned a PAGE_SIZE \<and> IsAligned sz PAGE_SIZE \<and> a + sz \<le> ADDR_SPACE_SIZE)"
    | (nomem) img where "MapPhysical host m a sz perm data = (OutOfMemory, m\<lparr>image := img\<rparr>)"
      "IsAligned a PAGE_SIZE" "IsAligned sz PAGE_SIZE" "a + sz \<le> ADDR_SPACE_SIZE"
    | (ok) img where "MapPhysical host m a sz perm data =
        (Success, m\<lparr>image := img, pages := (pages m)(a \<mapsto> \<lparr>pg_size = sz, pg_flags = ucast perm\<rparr>)\<rparr>)"
      "IsAligned a PAGE_SIZE" "IsAligned sz PAGE_SIZE" "a + sz \<le> ADDR_SPACE_SIZE"
proof (cases "IsAligned a PAGE_SIZE \<and> IsAligned sz PAGE_SIZE \<and> a + sz \<le> ADDR_SPACE_SIZE")
  case False
  then have "MapPhysical host m a sz perm data = (InvalidArgument, m)"
    by (auto simp: MapPhysical_def not_le)
  with False show ?thesis using reject by blast
next
  case True
  then have "(\<exists>img. MapPhysical host m a sz perm data = (OutOfMemory, m\<lparr>image := img\<rparr>)) \<or>
    (\<exists>img. MapPhysical host m a sz perm data =
      (Success, m\<lparr>image := img, pages := (pages m)(a \<mapsto> \<lparr>pg_size = sz, pg_flags = ucast perm\<rparr>)\<rparr>))"
    by (auto simp: MapPhysical_def not_less Let_def split: option.split)
  with True show ?thesis using nomem ok by blast
qed

lemma UnmapPhysical_cases:
  obtains (fail) img where "UnmapPhysical host m a sz = (InvalidArgument, m\<lparr>image := img\<rparr>)"
    | (ok) img where
      "UnmapPhysical host m a sz = (Success, m\<lparr>image := img, pages := (pages m)(a := None)\<rparr>)"
proof -
  have "(\<exists>img. UnmapPhysical host m a sz = (InvalidArgument, m\<lparr>image := img\<rparr>)) \<or>
    (\<exists>img. UnmapPhysical host m a sz = (Success, m\<lparr>image := img, pages := (pages m)(a := None)\<rparr>))"
    by (auto simp: UnmapPhysical_def Let_def split: prod.split intro: exI [of _ "image m"])
  then show ?thesis using fail ok by blast
qed

lemma MapPhysical_frame [simp]:
  "heap_size (snd (MapPhysical host m a sz perm data)) = heap_size m"
  "heap_addr (snd (MapPhysical host m a sz perm data)) = heap_addr m"
  "base_addr (snd (MapPhysical host m a sz perm data)) = base_addr m"
  by (rule MapPhysical_cases [of host m a sz perm data]; simp)+

lemma MapPhysical_frameD:
  "MapPhysical host m a sz perm data = (r, m') \<Longrightarrow>
   heap_size m' = heap_size m \<and> heap_addr m' = heap_addr m \<and> base_addr m' = base_addr m"
  using MapPhysical_frame [of host m a sz perm data] by simp

lemma UnmapPhysical_frame [simp]:
  "heap_size (snd (UnmapPhysical host m a sz)) = heap_size m"
  "heap_addr (snd (UnmapPhysical host m a sz)) = heap_addr m"
  "base_addr (snd (UnmapPhysical host m a sz)) = base_addr m"
  by (rule UnmapPhysical_cases [of host m a sz]; simp)+

lemma MapPhysical_pages_ok [intro]:
  "pages_ok m \<Longrightarrow> pages_ok (snd (MapPhysical host m a sz perm data))"
  by (rule MapPhysical_cases [of host m a sz perm data]) (auto simp: pages_ok_def page_ok_def)

lemma UnmapPhysical_pages_ok [intro]: "pages_ok m \<Longrightarrow> pages_ok (snd (UnmapPhysical host m a sz))"
  by (rule UnmapPhysical_cases [of host m a sz]) (auto simp: pages_ok_def)

lemma pages_ok_update [simp]:
  "pages_ok (m\<lparr>heap_addr := h, heap_size := n\<rparr>) = pages_ok m"
  "pages_ok (m\<lparr>stack_size := n, stack_top := t\<rparr>) = pages_ok m"
  by (simp_all add: pages_ok_def)

lemma SetHeapSize_pages_ok [intro]: "pages_ok m \<Longrightarrow> pages_ok (snd (SetHeapSize host m sz))"
proof -
  assume ok: "pages_ok m"
  define m1 where "m1 = (if heap_size m > 0 then snd (UnmapPhysical host m HEAP_BASE (heap_size m)) else m)"
  have "pages_ok m1"
    using ok by (auto simp: m1_def)
  then show ?thesis
    using ok UnmapPhysical_pages_ok
    by (auto simp: SetHeapSize_def Let_def MapPhysical_pages_ok split_beta simp flip: m1_def)
qed

lemma SetupStack_pages_ok [intro]: "pages_ok m \<Longrightarrow> pages_ok (snd (SetupStack host m sz))"
  by (auto simp: SetupStack_def Let_def split_beta)

lemma try_write_pages_ok [intro]: "pages_ok m \<Longrightarrow> pages_ok (try_write m a bs)"
  using Write_Inr(3) [of m a bs] by (auto simp: try_write_def pages_ok_def split: sum.splits)

section \<open>Properties of guest memory\<close>

text \<open>A host that always succeeds and hands out zero-filled pages, for the witnesses.\<close>

definition zero_fill_host :: host_vm where
  "zero_fill_host =
     \<lparr>vm_map = (\<lambda>img a n. Some (fill_image img a n 0)),
      vm_deallocate = (\<lambda>img a n. (True, img)),
      vm_protect = (\<lambda>img a n prot. True)\<rparr>"

text \<open>
  A successful \<open>Memory::Write\<close> of an object is read back unchanged by
  \<open>Memory::Read\<close> at the same address, leaves every disjoint range as it was, bumps the write
  stamp by one and does not touch the page table; and \<open>Write\<close> succeeds exactly for
  ranges inside the 4 GiB guest space.
\<close>

theorem memory_write_read:
  assumes "length bs < 2 ^ 32"
  shows "((\<exists>m'. Write m a bs = Inr m') \<longleftrightarrow> unat a < 2 ^ 32 \<and> unat a + length bs \<le> 2 ^ 32)
    \<and> (\<forall>m'. Write m a bs = Inr m' \<longrightarrow>
           Read m' a (length bs) = Inr bs \<and> write_stamp m' = write_stamp m + 1 \<and> pages m' = pages m
           \<and> (\<forall>b n. n < 2 ^ 32 \<longrightarrow> unat a + length bs \<le> unat b \<or> unat b + n \<le> unat a \<longrightarrow>
                Read m' b n = Read m b n))"
proof (intro conjI allI impI)
  show "(\<exists>m'. Write m a bs = Inr m') \<longleftrightarrow> unat a < 2 ^ 32 \<and> unat a + length bs \<le> 2 ^ 32"
    by (rule Write_ok_iff [OF assms])
  fix m' assume w: "Write m a bs = Inr m'"
  show "Read m' a (length bs) = Inr bs"
    by (rule Read_Write_same [OF w assms])
  show "write_stamp m' = write_stamp m + 1" and "pages m' = pages m"
    by (simp_all only: Write_Inr [OF w])
  fix b :: u64 and n
  assume "n < 2 ^ 32" and "unat a + length bs \<le> unat b \<or> unat b + n \<le> unat a"
  then show "Read m' b n = Read m b n"
    by (rule Read_Write_other [OF w assms])
qed

theorem memory_write_read_witness:
  "\<exists>m'. Write (Memory_init (\<lambda>_. 0)) 0x80000000 [1, 2, 3, 4] = Inr m' \<and>
     Read m' 0x80000000 (length [1, 2, 3, 4 :: u8]) = Inr [1, 2, 3, 4]"
proof -
  let ?bs = "[1, 2, 3, 4] :: u8 list"
  have "length ?bs < 2 ^ 32" by simp
  from memory_write_read [OF this, of "Memory_init (\<lambda>_. 0)" "0x80000000"] show ?thesis
    by auto
qed

text \<open>
  The byte-at-a-time copy loops that the IPC layer and the user-buffer system call
  run over \<open>Memory::Write\<close> and \<open>Memory::Read\<close> are inverse: a buffer stored inside the guest
  space is loaded back byte for byte.
\<close>

theorem byte_loops_roundtrip:
  assumes "unat a + length bs \<le> 2 ^ 32"
  shows "load_loop Read (store_loop try_write m a bs) a (length bs) = bs"
  using assms by (rule guest.load_store)

theorem byte_loops_roundtrip_witness:
  "load_loop Read (store_loop try_write (Memory_init (\<lambda>_. 7)) 0xFFFFFFFE [10, 20]) 0xFFFFFFFE
     (length [10, 20 :: u8]) = [10, 20]"
  by (rule byte_loops_roundtrip) simp

text \<open>
  \<open>MapPhysical\<close>, \<open>UnmapPhysical\<close>, \<open>SetHeapSize\<close>, \<open>SetupStack\<close> and \<open>Write\<close>, with any
  host behaviour, keep every entry of the page table page-aligned, a whole number of pages long
  and accepted by the range check.
\<close>

theorem page_table_invariant:
  assumes "pages_ok m"
  shows "pages_ok (snd (MapPhysical host m a sz perm data))
    \<and> pages_ok (snd (UnmapPhysical host m a sz)) \<and> pages_ok (snd (SetHeapSize host m sz))
    \<and> pages_ok (snd (SetupStack host m sz)) \<and> pages_ok (try_write m a bs)"
  using assms by blast

theorem page_table_invariant_witness:
  "pages_ok (snd (SetHeapSize zero_fill_host (Memory_init (\<lambda>_. 0)) 0x5000))"
proof -
  have "pages_ok (Memory_init (\<lambda>_. 0))"
    by (simp add: pages_ok_def Memory_init_def)
  from page_table_invariant [OF this, of zero_fill_host 0 "0x5000"] show ?thesis
    by blast
qed

text \<open>
  \<open>SetHeapSize\<close> either succeeds and makes the heap exactly the requested size
  rounded up to a page (at most 1 GiB, based at \<open>HEAP_BASE\<close>), or fails and leaves the heap size
  unchanged; a rounded size above 1 GiB is always refused.
\<close>

theorem SetHeapSize_spec:
  assumes "heap_ok m" and "SetHeapSize host m sz = (r, m')"
  shows "heap_ok m'
    \<and> (r = Success \<longrightarrow> heap_size m' = AlignUp sz PAGE_SIZE)
    \<and> (r \<noteq> Success \<longrightarrow> heap_size m' = heap_size m)
    \<and> (AlignUp sz PAGE_SIZE > 0x40000000 \<longrightarrow> r = OutOfMemory \<and> m' = m)"
proof -
  have al: "IsAligned (AlignUp sz PAGE_SIZE) PAGE_SIZE"
    unfolding PAGE_SIZE_pow by (rule IsAligned_AlignUp)
  let ?m1 = "if heap_size m > 0 then snd (UnmapPhysical host m HEAP_BASE (heap_size m)) else m"
  have m1: "heap_size ?m1 = heap_size m" "heap_addr ?m1 = heap_addr m"
    by simp_all
  show ?thesis
    using assms al m1
    by (auto simp: SetHeapSize_def heap_ok_def Let_def split_beta not_less split: if_splits
        dest!: MapPhysical_frameD)
qed

theorem SetHeapSize_spec_witness:
  "heap_size (snd (SetHeapSize zero_fill_host (Memory_init (\<lambda>_. 0)) 0x4321)) = 0x5000"
proof -
  let ?m = "Memory_init (\<lambda>_. 0)"
  have h: "heap_ok ?m"
    by (simp add: heap_ok_def Memory_init_def IsAligned_def)
  have r: "SetHeapSize zero_fill_host ?m 0x4321
      = (Success, snd (SetHeapSize zero_fill_host ?m 0x4321))"
    by (simp add: SetHeapSize_def MapPhysical_def AlignUp_def IsAligned_def mem_consts Memory_init_def
        zero_fill_host_def Let_def)
  show ?thesis
    using SetHeapSize_spec [OF h r] by (simp add: AlignUp_def PAGE_SIZE_def)
qed

lemma AlignUp_page_wraps:
  assumes "2 ^ 64 - 2 ^ 12 < unat (sz::u64)"
  shows "AlignUp sz PAGE_SIZE = 0"
proof -
  have "unat sz < 2 ^ 64"
    using unsigned_less [of sz] by simp
  moreover have "unat (mask 12 :: u64) = 4095"
    by (simp add: mask_eq_exp_minus_1)
  ultimately have "unat (sz + mask 12) < 2 ^ 12"
    using assms by (simp add: unat_word_ariths mod_if) arith
  then have "unat ((sz + mask 12) AND NOT (mask 12)) = 0"
    by (simp add: unat_and_not_mask)
  then show ?thesis
    unfolding PAGE_SIZE_pow AlignUp_mask by (simp add: unat_eq_zero)
qed

text \<open>
  Rounding the requested heap size up wraps around at \<open>2^64\<close>, so a request within a
  page of \<open>2^64\<close> bytes is not refused: \<open>SetHeapSize\<close> reports success and shrinks the heap to
  nothing.
\<close>

theorem SetHeapSize_huge_request_succeeds:
  assumes "2 ^ 64 - 2 ^ 12 < unat sz"
  shows "fst (SetHeapSize host m sz) = Success \<and> heap_size (snd (SetHeapSize host m sz)) = 0"
  by (auto simp: SetHeapSize_def AlignUp_page_wraps [OF assms] Let_def)

theorem SetHeapSize_huge_request_succeeds_witness:
  "fst (SetHeapSize zero_fill_host (Memory_init (\<lambda>_. 0)) 0xFFFFFFFFFFFFFFFF) = Success"
  using SetHeapSize_huge_request_succeeds [of "0xFFFFFFFFFFFFFFFF" zero_fill_host "Memory_init (\<lambda>_. 0)"]
  by simp

text \<open>
  Shrinking the heap to a nonzero size leaves the page-table entry of the heap
  untouched, with its old size, because the erased key is the start of the released tail and not
  the start of the heap: the released addresses are still reported as heap memory.
\<close>

theorem heap_shrink_keeps_stale_entry:
  assumes "AlignUp sz PAGE_SIZE \<noteq> 0" and "AlignUp sz PAGE_SIZE < heap_size m"
    and "heap_size m \<le> 0x40000000"
  shows "fst (SetHeapSize host m sz) = Success
    \<and> pages (snd (SetHeapSize host m sz)) HEAP_BASE = pages m HEAP_BASE"
proof -
  let ?al = "AlignUp sz PAGE_SIZE"
  have "?al \<le> 0x40000000"
    using assms by (meson less_imp_le order_trans)
  then have "SetHeapSize host m sz =
    (Success, snd (UnmapPhysical host m (HEAP_BASE + ?al) (heap_size m - ?al))
       \<lparr>heap_addr := HEAP_BASE, heap_size := ?al\<rparr>)"
    using assms by (auto simp: SetHeapSize_def Let_def not_less)
  moreover have "HEAP_BASE + ?al \<noteq> HEAP_BASE"
    using assms(1) by simp
  ultimately show ?thesis
    by (cases rule: UnmapPhysical_cases [of host m "HEAP_BASE + ?al" "heap_size m - ?al"]) auto
qed

theorem heap_shrink_keeps_stale_entry_witness:
  "let m = snd (SetHeapSize zero_fill_host (Memory_init (\<lambda>_. 0)) 0x10000);
       m' = snd (SetHeapSize zero_fill_host m 0x4000)
   in heap_size m' = 0x4000 \<and> QueryRegion m' [HEAP_BASE] 0x80004000 = (HEAP_BASE, 0x10000, 4)"
proof -
  let ?m0 = "Memory_init (\<lambda>_. 0)"
  define m where "m = snd (SetHeapSize zero_fill_host ?m0 0x10000)"
  have m: "heap_size m = 0x10000" "pages m HEAP_BASE = Some \<lparr>pg_size = 0x10000, pg_flags = 3\<rparr>"
    by (simp_all add: m_def SetHeapSize_def MapPhysical_def AlignUp_def IsAligned_def mem_consts
        Memory_init_def zero_fill_host_def Let_def)
  have al: "AlignUp 0x4000 PAGE_SIZE = 0x4000"
    by (simp add: AlignUp_def PAGE_SIZE_def)
  have "pages (snd (SetHeapSize zero_fill_host m 0x4000)) HEAP_BASE = pages m HEAP_BASE"
    using heap_shrink_keeps_stale_entry [of "0x4000" m zero_fill_host] by (simp add: al m)
  moreover have "heap_size (snd (SetHeapSize zero_fill_host m 0x4000)) = 0x4000"
    by (simp add: SetHeapSize_def al m Let_def)
  ultimately show ?thesis
    using m by (simp add: m_def [symmetric] QueryRegion_def region_type_def mem_consts)
qed

text \<open>
  \<open>MapPhysical\<close> accepts exactly the page-aligned requests whose end, computed modulo
  \<open>2^64\<close>, is at most 4 GiB. A request whose end wraps around is therefore accepted although it
  lies outside the guest space: with a host that maps it, the page table gets an entry at an
  address that \<open>IsValid\<close> rejects.
\<close>

theorem MapPhysical_range_check:
  "(fst (MapPhysical host m a sz perm data) \<noteq> InvalidArgument \<longleftrightarrow>
      2 ^ 12 dvd unat a \<and> 2 ^ 12 dvd unat sz \<and> (unat a + unat sz) mod 2 ^ 64 \<le> 2 ^ 32)
   \<and> (let (r, m') = MapPhysical zero_fill_host (Memory_init (\<lambda>_. 0)) 0xFFFFFFFFFFFFF000 0x1000 Perm_RW None
      in r = Success \<and> pages m' 0xFFFFFFFFFFFFF000 \<noteq> None \<and> \<not> IsValid 0xFFFFFFFFFFFFF000)"
proof -
  have chk: "IsAligned a PAGE_SIZE \<and> IsAligned sz PAGE_SIZE \<and> a + sz \<le> ADDR_SPACE_SIZE \<longleftrightarrow>
      2 ^ 12 dvd unat a \<and> 2 ^ 12 dvd unat sz \<and> (unat a + unat sz) mod 2 ^ 64 \<le> 2 ^ 32"
    by (simp only: PAGE_SIZE_pow IsAligned_iff word_le_nat_alt unat_word_ariths ADDR_SPACE_SIZE_def) simp
  have "fst (MapPhysical host m a sz perm data) \<noteq> InvalidArgument \<longleftrightarrow>
      IsAligned a PAGE_SIZE \<and> IsAligned sz PAGE_SIZE \<and> a + sz \<le> ADDR_SPACE_SIZE"
    by (rule MapPhysical_cases [of host m a sz perm data]) auto
  moreover have "let (r, m') = MapPhysical zero_fill_host (Memory_init (\<lambda>_. 0)) 0xFFFFFFFFFFFFF000 0x1000 Perm_RW None
      in r = Success \<and> pages m' 0xFFFFFFFFFFFFF000 \<noteq> None \<and> \<not> IsValid 0xFFFFFFFFFFFFF000"
    by (simp add: MapPhysical_def IsAligned_def mem_consts Memory_init_def zero_fill_host_def Let_def
        IsValid_def)
  ultimately show ?thesis
    using chk by blast
qed

definition host_page_start :: "memory \<Rightarrow> u64 \<Rightarrow> u64" where
  "host_page_start m a = (base_addr m + a) AND NOT (HOST_PAGE - 1)"

definition host_map_size :: "memory \<Rightarrow> u64 \<Rightarrow> u64 \<Rightarrow> u64" where
  "host_map_size m a sz =
     ((sz + ((base_addr m + a) AND (HOST_PAGE - 1)) + HOST_PAGE - 1) div HOST_PAGE) * HOST_PAGE"

text \<open>
  On a host that hands out zero-filled pages, a successful \<open>MapPhysical\<close> without
  initial data zeroes every byte of the 16 KiB host pages it touches, not only the requested
  4 KiB pages: whatever another mapping held in the same host page is lost, although that
  mapping's page-table entry stays.
\<close>

theorem MapPhysical_zeroes_whole_host_pages:
  assumes zero_fill: "\<And>img x n img'. vm_map host img x n = Some img' \<Longrightarrow> \<forall>y. y - x < n \<longrightarrow> img' y = 0"
    and ok: "MapPhysical host m a sz perm None = (Success, m')"
    and inside: "x - host_page_start m a < host_map_size m a sz"
  shows "image m' x = 0 \<and> (\<forall>b. b \<noteq> a \<longrightarrow> pages m' b = pages m b)"
proof -
  obtain img0 img where
    img: "vm_map host img0 (host_page_start m a) (host_map_size m a sz) = Some img"
    and m': "m' = m\<lparr>image := img, pages := (pages m)(a \<mapsto> \<lparr>pg_size = sz, pg_flags = ucast perm\<rparr>)\<rparr>"
    using ok by (auto simp: MapPhysical_def host_page_start_def host_map_size_def Let_def
        split: if_splits option.splits)
  then show ?thesis
    using zero_fill [OF img] inside by simp
qed

theorem MapPhysical_zeroes_whole_host_pages_witness:
  "let m = try_write (snd (MapPhysical zero_fill_host (Memory_init (\<lambda>_. 0)) 0x40000000 0x1000 Perm_RW None))
             0x40000000 [42];
       m' = snd (MapPhysical zero_fill_host m 0x40001000 0x1000 Perm_RW None)
   in image m 0x340000000 = 42 \<and> image m' 0x340000000 = 0"
proof -
  define m where "m = try_write (snd (MapPhysical zero_fill_host (Memory_init (\<lambda>_. 0))
      0x40000000 0x1000 Perm_RW None)) 0x40000000 [42]"
  have m: "base_addr m = 0x300000000" "image m 0x340000000 = 42"
    by (simp_all add: m_def try_write_def Write_def IsValid_def MapPhysical_def IsAligned_def
        mem_consts Memory_init_def zero_fill_host_def Let_def write_image_def)
  have zf: "\<And>img x n img'. vm_map zero_fill_host img x n = Some img' \<Longrightarrow> \<forall>y. y - x < n \<longrightarrow> img' y = 0"
    by (auto simp: zero_fill_host_def fill_image_def)
  have ok: "MapPhysical zero_fill_host m 0x40001000 0x1000 Perm_RW None =
      (Success, snd (MapPhysical zero_fill_host m 0x40001000 0x1000 Perm_RW None))"
    by (simp add: MapPhysical_def IsAligned_def mem_consts zero_fill_host_def Let_def)
  have "image (snd (MapPhysical zero_fill_host m 0x40001000 0x1000 Perm_RW None)) 0x340000000 = 0"
    using MapPhysical_zeroes_whole_host_pages [OF zf ok, where x = "0x340000000"]
    by (simp add: m host_page_start_def host_map_size_def HOST_PAGE_def)
  with m show ?thesis
    by (simp add: m_def [symmetric])
qed

definition region_at :: "memory \<Rightarrow> u64 \<Rightarrow> u64 \<Rightarrow> page_info \<Rightarrow> bool" where
  "region_at m a b p \<longleftrightarrow> pages m b = Some p \<and> b \<le> a \<and> a < b + pg_size p"

lemma find_region_Some: "find_region (pages m) a bs = Some (b, p) \<Longrightarrow> region_at m a b p \<and> b \<in> set bs"
  by (induction bs) (auto simp: region_at_def split: option.splits if_splits)

lemma find_region_None: "find_region (pages m) a bs = None \<Longrightarrow> b \<in> set bs \<Longrightarrow> \<not> region_at m a b p"
  by (induction bs) (auto simp: region_at_def split: option.splits if_splits)

text \<open>
  \<open>QueryRegion\<close> answers with a page-table region that contains the queried
  address when there is one, and with the 4 KiB unmapped answer otherwise; when the regions do
  not overlap the answer does not depend on the iteration order of the hash table.
\<close>

theorem QueryRegion_correct:
  assumes "set order = dom (pages m)"
  shows "((\<nexists>b p. region_at m a b p) \<longrightarrow> QueryRegion m order a = (a, 0x1000, 3))
    \<and> ((\<exists>b p. region_at m a b p) \<longrightarrow> (\<exists>b p. region_at m a b p \<and>
          QueryRegion m order a = (b, pg_size p, region_type b (pg_flags p))))
    \<and> ((\<forall>b c p q. region_at m a b p \<and> region_at m a c q \<longrightarrow> b = c) \<longrightarrow> set order' = set order \<longrightarrow>
          QueryRegion m order a = QueryRegion m order' a)"
proof -
  have dom: "b \<in> set order" if "region_at m a b p" for b p
    using that assms by (auto simp: region_at_def)
  show ?thesis
  proof (cases "find_region (pages m) a order")
    case None
    then have "\<nexists>b p. region_at m a b p"
      using dom find_region_None by blast
    then show ?thesis
      using None find_region_Some [of m a order']
      by (auto simp: QueryRegion_def split: option.split)
  next
    case (Some bp)
    obtain b p where bp: "bp = (b, p)" by (cases bp)
    then have r: "region_at m a b p"
      using Some find_region_Some by blast
    have "find_region (pages m) a order' = Some (b, p)"
      if "\<forall>b c p q. region_at m a b p \<and> region_at m a c q \<longrightarrow> b = c" "set order' = set order"
    proof (cases "find_region (pages m) a order'")
      case None
      with that(2) r dom find_region_None show ?thesis by metis
    next
      case (Some cq)
      obtain c q where cq: "cq = (c, q)" by (cases cq)
      with Some have c: "region_at m a c q" using find_region_Some by blast
      then have "b = c" using r that(1) by blast
      with r c Some cq show ?thesis by (simp add: region_at_def)
    qed
    with Some bp r show ?thesis
      by (auto simp: QueryRegion_def)
  qed
qed

theorem QueryRegion_correct_witness:
  "let m = snd (SetHeapSize zero_fill_host (Memory_init (\<lambda>_. 0)) 0x10000)
   in QueryRegion m [HEAP_BASE] 0x40000000 = (0x40000000, 0x1000, 3)"
proof -
  define m where "m = snd (SetHeapSize zero_fill_host (Memory_init (\<lambda>_. 0)) 0x10000)"
  have pg: "pages m = [HEAP_BASE \<mapsto> \<lparr>pg_size = 0x10000, pg_flags = 3\<rparr>]"
    by (simp add: m_def SetHeapSize_def MapPhysical_def AlignUp_def IsAligned_def mem_consts
        Memory_init_def zero_fill_host_def Let_def)
  then have "set [HEAP_BASE] = dom (pages m)" and "\<nexists>b p. region_at m 0x40000000 b p"
    by (auto simp: region_at_def HEAP_BASE_def split: if_splits)
  with QueryRegion_correct [of "[HEAP_BASE]" m "0x40000000" "[]"] show ?thesis
    by (simp add: m_def [symmetric])
qed

end
