(* ===== verification/KernelObjects.thy ===== *)
theory KernelObjects
  imports GuestMemory
begin

unbundle bit_operations_syntax

text \<open>
  Kernel objects and the handle table: \<^verbatim>\<open>src/src/kernel/Kernel.h\<close>.

  Objects are values of the datatype \<open>kobject\<close>, one constructor per class; a handle is the only
  way the kernel code names an object, so the table maps handles to object values and
  \<open>dynamic_cast\<close> is a case distinction. The \<^verbatim>\<open>KEvent*\<close> a started thread owns is the field
  \<open>wake_event\<close>. Here every operation runs alone; the interleaved behaviour of waiting and
  signalling is the subject of the theory \<open>WaitProtocol\<close>.
\<close>

section \<open>Objects\<close>

record kthread =
  entry_point :: u64
  kt_stack_top :: u64
  tls_base :: u64
  kt_arg :: u64
  priority :: "32 word"
  ideal_core :: u32
  thread_id :: u64
  kernel_stack :: bool
  running :: bool
  started :: bool
  finished :: bool
  wake_event :: "bool option"

definition KThread_new :: kthread where
  "KThread_new = \<lparr>entry_point = 0, kt_stack_top = 0, tls_base = 0, kt_arg = 0, priority = 0x10,
     ideal_core = 0, thread_id = 0, kernel_stack = False, running = False, started = False,
     finished = False, wake_event = None\<rparr>"

datatype kobject =
    KThread kthread
  | KEvent bool
  | KTransferMemory u64 u64 Permission
  | KSharedMemory (shm_address: u64) (shm_size: u64) (shm_perm: Permission) (shm_phys: u64)
  | KInterruptEvent bool
  | KDeviceAddressSpace
  | KResourceLimit "int list" "int list"
  | KCodeMemory u64 u64
  | KSession u32 u32
  | KPort u32 u32

text \<open>Virtual \<open>IsSignaled\<close>: overridden by \<open>KEvent\<close> and \<open>KThread\<close> only.\<close>

fun IsSignaled :: "kobject \<Rightarrow> bool" where
  "IsSignaled (KThread t) = finished t"
| "IsSignaled (KEvent s) = s"
| "IsSignaled _ = False"

fun KEvent_Signal :: "kobject \<Rightarrow> kobject" where
  "KEvent_Signal (KEvent _) = KEvent True"
| "KEvent_Signal ob = ob"

fun KEvent_Clear :: "kobject \<Rightarrow> kobject" where
  "KEvent_Clear (KEvent _) = KEvent False"
| "KEvent_Clear ob = ob"

definition MarkFinished :: "kthread \<Rightarrow> kthread" where
  "MarkFinished t = t\<lparr>finished := True, wake_event := map_option (\<lambda>_. True) (wake_event t)\<rparr>"

text \<open>\<open>KEvent::Wait\<close> on an event that nobody signals meanwhile (\<open>None\<close>: it blocks for ever).\<close>

definition KEvent_Wait_quiet :: "bool \<Rightarrow> 64 word \<Rightarrow> Result option" where
  "KEvent_Wait_quiet signaled timeout_ns =
     (if signaled then Some Success
      else if timeout_ns = 0 then Some TimedOut
      else if sint timeout_ns < 0 then None
      else Some TimedOut)"

section \<open>The handle table\<close>

definition HANDLE_BASE :: u32 where "HANDLE_BASE = 0xD000"

record handle_table =
  objects :: "u32 \<rightharpoonup> kobject"
  next_index :: u32

definition handle_table_init :: handle_table where
  "handle_table_init = \<lparr>objects = Map.empty, next_index = 1\<rparr>"

definition ht_Create :: "handle_table \<Rightarrow> kobject \<Rightarrow> u32 \<times> handle_table" where
  "ht_Create t ob =
     (let h = HANDLE_BASE + next_index t
      in (h, t\<lparr>next_index := next_index t + 1, objects := (objects t)(h \<mapsto> ob)\<rparr>))"

definition ht_Get :: "handle_table \<Rightarrow> u32 \<Rightarrow> kobject option" where
  "ht_Get t h = objects t h"

definition ht_Close :: "handle_table \<Rightarrow> u32 \<Rightarrow> handle_table" where
  "ht_Close t h = (case objects t h of None \<Rightarrow> t | Some _ \<Rightarrow> t\<lparr>objects := (objects t)(h := None)\<rparr>)"

definition ht_CloseAll :: "handle_table \<Rightarrow> handle_table" where
  "ht_CloseAll t = t\<lparr>objects := Map.empty\<rparr>"

definition ht_IsValid :: "handle_table \<Rightarrow> u32 \<Rightarrow> bool" where
  "ht_IsValid t h \<longleftrightarrow> objects t h \<noteq> None"

text \<open>\<open>Get<KThread>\<close> and \<open>Get<KEvent>\<close>, and writing through the pointer they return.\<close>

definition get_thread :: "handle_table \<Rightarrow> u32 \<Rightarrow> kthread option" where
  "get_thread t h = (case ht_Get t h of Some (KThread k) \<Rightarrow> Some k | _ \<Rightarrow> None)"

definition get_event :: "handle_table \<Rightarrow> u32 \<Rightarrow> bool option" where
  "get_event t h = (case ht_Get t h of Some (KEvent s) \<Rightarrow> Some s | _ \<Rightarrow> None)"

definition ht_put :: "handle_table \<Rightarrow> u32 \<Rightarrow> kobject \<Rightarrow> handle_table" where
  "ht_put t h ob = t\<lparr>objects := (objects t)(h \<mapsto> ob)\<rparr>"

lemma ht_Get_put [simp]: "ht_Get (ht_put t h ob) h' = (if h' = h then Some ob else ht_Get t h')"
  by (simp add: ht_Get_def ht_put_def)

lemma ht_Get_Close [simp]: "ht_Get (ht_Close t h) h' = (if h' = h then None else ht_Get t h')"
  by (auto simp: ht_Get_def ht_Close_def split: option.splits)

lemma ht_IsValid_iff [simp]: "ht_IsValid t h \<longleftrightarrow> ht_Get t h \<noteq> None"
  by (simp add: ht_IsValid_def ht_Get_def)

subsection \<open>Invariant and contract\<close>

text \<open>Every live handle was handed out: its index is below \<open>next_index_\<close> and not zero.\<close>

definition ht_inv :: "handle_table \<Rightarrow> bool" where
  "ht_inv t \<longleftrightarrow> 0 < unat (next_index t) \<and>
     (\<forall>h. objects t h \<noteq> None \<longrightarrow> 0 < unat (h - HANDLE_BASE) \<and> unat (h - HANDLE_BASE) < unat (next_index t))"

text \<open>There is room for \<open>n\<close> more handles before the index runs into the reserved handles.\<close>

definition ht_room :: "nat \<Rightarrow> handle_table \<Rightarrow> bool" where
  "ht_room n t \<longleftrightarrow> unat (next_index t) + n < 0xDFFF3000"

lemma ht_inv_init: "ht_inv handle_table_init"
  by (simp add: ht_inv_def handle_table_init_def)

lemma ht_Create_fresh:
  assumes "ht_inv t"
  shows "ht_Get t (fst (ht_Create t ob)) = None"
proof (rule ccontr)
  assume "ht_Get t (fst (ht_Create t ob)) \<noteq> None"
  then have "unat (HANDLE_BASE + next_index t - HANDLE_BASE) < unat (next_index t)"
    using assms by (auto simp: ht_inv_def ht_Get_def ht_Create_def Let_def)
  then show False by simp
qed

lemma ht_Create_inv:
  assumes "ht_inv t" and "ht_room n t"
  shows "ht_inv (snd (ht_Create t ob))"
proof -
  have nxt: "unat (next_index t + 1) = unat (next_index t) + 1"
    using assms by (simp add: ht_room_def unat_word_ariths)
  have "0 < unat (h - HANDLE_BASE) \<and> unat (h - HANDLE_BASE) < unat (next_index t) + 1"
    if "objects (snd (ht_Create t ob)) h \<noteq> None" for h
    using that assms(1) by (auto simp: ht_Create_def ht_inv_def Let_def less_Suc_eq split: if_splits)
  then show ?thesis
    unfolding ht_inv_def using nxt by (simp add: ht_Create_def Let_def)
qed

lemma ht_Create_room: "ht_room (Suc n) t \<Longrightarrow> ht_room n (snd (ht_Create t ob))"
  by (simp add: ht_room_def ht_Create_def Let_def unat_word_ariths)

lemma ht_Create_not_reserved:
  assumes "ht_room n t"
  shows "fst (ht_Create t ob) \<noteq> 0 \<and> fst (ht_Create t ob) < 0xE0000000"
proof -
  have "unat (HANDLE_BASE + next_index t) = 0xD000 + unat (next_index t)"
    using assms by (simp add: ht_room_def HANDLE_BASE_def unat_word_ariths)
  then show ?thesis
    using assms by (simp add: ht_Create_def ht_room_def Let_def unat_eq_zero [symmetric] word_less_nat_alt)
qed

lemma ht_Close_inv: "ht_inv t \<Longrightarrow> ht_inv (ht_Close t h)"
  by (auto simp: ht_inv_def ht_Close_def split: option.splits)

lemma ht_put_inv: "ht_inv t \<Longrightarrow> ht_Get t h \<noteq> None \<Longrightarrow> ht_inv (ht_put t h ob)"
  by (auto simp: ht_inv_def ht_put_def ht_Get_def)

text \<open>
  The contract the system calls rely on: handles are fresh, resolve to what was stored under
  them, never collide with the reserved values, and closing one leaves the others alone.
\<close>

locale handle_store =
  fixes create :: "'t \<Rightarrow> 'o \<Rightarrow> u32 \<times> 't"
    and get :: "'t \<Rightarrow> u32 \<Rightarrow> 'o option"
    and close :: "'t \<Rightarrow> u32 \<Rightarrow> 't"
    and inv :: "'t \<Rightarrow> bool"
    and room :: "nat \<Rightarrow> 't \<Rightarrow> bool"
  assumes fresh: "inv t \<Longrightarrow> get t (fst (create t ob)) = None"
    and get_create: "inv t \<Longrightarrow> get (snd (create t ob)) h = (if h = fst (create t ob) then Some ob else get t h)"
    and get_close: "inv t \<Longrightarrow> get (close t h) h' = (if h' = h then None else get t h')"
    and inv_create: "inv t \<Longrightarrow> room n t \<Longrightarrow> inv (snd (create t ob))"
    and inv_close: "inv t \<Longrightarrow> inv (close t h)"
    and room_create: "room (Suc n) t \<Longrightarrow> room n (snd (create t ob))"
    and not_reserved: "inv t \<Longrightarrow> room n t \<Longrightarrow> fst (create t ob) \<noteq> 0 \<and> fst (create t ob) < 0xE0000000"
begin

lemma two_handles:
  assumes "inv t" and "room 1 t" and "create t a = (h1, t1)" and "create t1 b = (h2, t2)"
  shows "h1 \<noteq> h2 \<and> get t2 h1 = Some a \<and> get t2 h2 = Some b
    \<and> (\<forall>h. h \<noteq> h1 \<longrightarrow> h \<noteq> h2 \<longrightarrow> get t2 h = get t h)"
proof -
  have g1: "get t1 h = (if h = h1 then Some a else get t h)" for h
    using get_create [OF assms(1), of a h] assms(3) by simp
  have i1: "inv t1"
    using inv_create [OF assms(1,2), of a] assms(3) by simp
  have "get t1 h2 = None"
    using fresh [OF inv_create [OF assms(1,2)], of a b] assms(3,4) by simp
  then have "h1 \<noteq> h2"
    using g1 by auto
  moreover have "get t2 h = (if h = h2 then Some b else get t1 h)" for h
    using get_create [OF i1, of b h] assms(4) by simp
  ultimately show ?thesis
    using g1 by auto
qed

lemma close_create:
  assumes "inv t" and "room n t" and "create t a = (h, t1)"
  shows "get (close t1 h) h' = get t h'"
  using get_create [OF assms(1), of a h'] fresh [OF assms(1), of a] inv_create [OF assms(1,2), of a] assms(3)
  by (auto simp: get_close)

end

interpretation htab: handle_store ht_Create ht_Get ht_Close ht_inv ht_room
  by unfold_locales
    (use ht_Create_fresh ht_Create_inv ht_Create_room ht_Create_not_reserved in
      \<open>auto simp: ht_Close_inv, auto simp: ht_Get_def ht_Create_def Let_def\<close>)

section \<open>Properties\<close>

text \<open>
  As long as the table has room, two successive \<open>Create\<close> calls return different
  non-reserved handles, both resolve to their own object, and every older handle resolves as before.
\<close>

theorem handles_are_distinct:
  assumes "ht_inv t" and "ht_room 1 t" and "ht_Create t a = (h1, t1)" and "ht_Create t1 b = (h2, t2)"
  shows "h1 \<noteq> h2 \<and> ht_Get t2 h1 = Some a \<and> ht_Get t2 h2 = Some b \<and> h1 \<noteq> 0 \<and> h1 < 0xE0000000
    \<and> (\<forall>h. h \<noteq> h1 \<longrightarrow> h \<noteq> h2 \<longrightarrow> ht_Get t2 h = ht_Get t h)"
  using htab.two_handles [OF assms] htab.not_reserved [OF assms(1,2), of a] assms(3) by simp

theorem handles_are_distinct_witness:
  "\<exists>h1 h2 t2. h1 \<noteq> h2 \<and> ht_Get t2 h1 = Some (KEvent False) \<and> ht_Get t2 h2 = Some KDeviceAddressSpace"
proof -
  obtain h1 t1 where c1: "ht_Create handle_table_init (KEvent False) = (h1, t1)"
    by (cases "ht_Create handle_table_init (KEvent False)")
  obtain h2 t2 where c2: "ht_Create t1 KDeviceAddressSpace = (h2, t2)"
    by (cases "ht_Create t1 KDeviceAddressSpace")
  have "ht_room 1 handle_table_init"
    by (simp add: ht_room_def handle_table_init_def)
  from handles_are_distinct [OF ht_inv_init this c1 c2] show ?thesis
    by blast
qed

text \<open>
  Closing a handle that was just created gives back exactly the table contents from
  before, the invariant survives both operations, and the handle is never resolved again.
\<close>

theorem create_close_restores:
  assumes "ht_inv t" and "ht_room n t" and "ht_Create t a = (h, t1)"
  shows "ht_Get (ht_Close t1 h) = ht_Get t \<and> ht_inv (ht_Close t1 h) \<and> \<not> ht_IsValid (ht_Close t1 h) h"
proof -
  have "ht_inv t1"
    using htab.inv_create [OF assms(1,2), of a] assms(3) by simp
  then show ?thesis
    using htab.close_create [OF assms] htab.inv_close by (auto simp: fun_eq_iff)
qed

theorem create_close_restores_witness:
  "ht_Get (ht_Close (snd (ht_Create handle_table_init (KEvent True))) 0xD001) 0xD001 = None"
proof -
  have "ht_room 1 handle_table_init"
    by (simp add: ht_room_def handle_table_init_def)
  moreover have "ht_Create handle_table_init (KEvent True) =
      (0xD001, snd (ht_Create handle_table_init (KEvent True)))"
    by (simp add: ht_Create_def handle_table_init_def HANDLE_BASE_def Let_def)
  ultimately show ?thesis
    using create_close_restores [OF ht_inv_init] by fastforce
qed

end
