(* ===== verification/WaitProtocol.thy ===== *)
theory WaitProtocol
  imports KernelObjects
begin

text \<open>
  Waiting and signalling between host threads: \<open>KEvent::Wait\<close>, \<open>KEvent::Signal\<close> and
  \<open>KObject::NotifyWaiters\<close> of \<^verbatim>\<open>src/src/kernel/Kernel.h\<close>, and the blocking part of
  \<open>SvcWaitSynchronization\<close> of \<^verbatim>\<open>src/src/kernel/SvcHandlers.cpp\<close>.

  A step is one action that the code performs atomically: a flag read or written under its mutex,
  the registration of a waiter, the atomic release-and-block of a condition variable, the delivery
  of a notification. Any number of threads may be inside \<open>Signal\<close>: \<open>pending\<close> counts those that
  have set the flag and not yet notified. Spurious wake-ups of condition variables are left out:
  they are permitted by the language and never guaranteed, so no thread may rely on one.
\<close>

section \<open>KEvent::Wait against KEvent::Signal\<close>

text \<open>
  \<open>K_Check\<close>: the waiter holds \<open>mtx\<close> and is about to read \<open>signaled\<close> (the early test or the
  predicate of \<open>cv.wait\<close>); \<open>K_Sleep\<close>: it read False, still holds \<open>mtx\<close>, and is about to release it
  and block in one step; \<open>K_Woken\<close>: notified, has to take \<open>mtx\<close> again.
\<close>

datatype kwait_pc = K_Enter | K_Check | K_Sleep | K_Blocked | K_Woken | K_Done

record kwait =
  k_pc :: kwait_pc
  k_signaled :: bool
  k_pending :: nat

definition kwait_init :: kwait where
  "kwait_init = \<lparr>k_pc = K_Enter, k_signaled = False, k_pending = 0\<rparr>"

definition k_mtx_free :: "kwait \<Rightarrow> bool" where
  "k_mtx_free s \<longleftrightarrow> k_pc s \<noteq> K_Check \<and> k_pc s \<noteq> K_Sleep"

inductive kwait_step :: "kwait \<Rightarrow> kwait \<Rightarrow> bool" where
  k_lock: "k_pc s = K_Enter \<or> k_pc s = K_Woken \<Longrightarrow> kwait_step s (s\<lparr>k_pc := K_Check\<rparr>)"
| k_true: "k_pc s = K_Check \<Longrightarrow> k_signaled s \<Longrightarrow> kwait_step s (s\<lparr>k_pc := K_Done\<rparr>)"
| k_false: "k_pc s = K_Check \<Longrightarrow> \<not> k_signaled s \<Longrightarrow> kwait_step s (s\<lparr>k_pc := K_Sleep\<rparr>)"
| k_block: "k_pc s = K_Sleep \<Longrightarrow> kwait_step s (s\<lparr>k_pc := K_Blocked\<rparr>)"
| k_set: "k_mtx_free s \<Longrightarrow> kwait_step s (s\<lparr>k_signaled := True, k_pending := Suc (k_pending s)\<rparr>)"
| k_notify: "k_pending s = Suc n \<Longrightarrow>
    kwait_step s (s\<lparr>k_pending := n, k_pc := (if k_pc s = K_Blocked then K_Woken else k_pc s)\<rparr>)"
| k_clear: "k_mtx_free s \<Longrightarrow> kwait_step s (s\<lparr>k_signaled := False\<rparr>)"

inductive_cases kwait_stepE: "kwait_step s s'"

definition no_lost_wakeup :: "kwait \<Rightarrow> bool" where
  "no_lost_wakeup s \<longleftrightarrow>
     (k_pc s = K_Blocked \<and> k_signaled s \<longrightarrow> 0 < k_pending s) \<and> (k_pc s = K_Sleep \<longrightarrow> \<not> k_signaled s)"

interpretation kevent: safe_system kwait_init kwait_step no_lost_wakeup
proof unfold_locales
  show "no_lost_wakeup kwait_init"
    by (simp add: no_lost_wakeup_def kwait_init_def)
next
  fix s s' assume "no_lost_wakeup s" and "kwait_step s s'"
  then show "no_lost_wakeup s'"
    by (auto elim!: kwait_stepE simp: no_lost_wakeup_def k_mtx_free_def split: if_splits)
qed

section \<open>SvcWaitSynchronization against Signal and NotifyWaiters\<close>

text \<open>
  The object array: \<open>None\<close> is a null pointer (an invalid handle), \<open>Some b\<close> an object whose
  \<open>IsSignaled\<close> is \<open>b\<close>. A scan of the array is not atomic: it reads one object per step. The phases:
  \<open>M_First\<close> (lines 410 to 416), \<open>M_Reg\<close> (427 to 429), \<open>M_Second\<close> (441), \<open>M_Pred\<close> (the predicate inside
  \<open>wait\<close> and \<open>wait_for\<close>), \<open>M_Sleep\<close> (the predicate was false), \<open>M_Timeout\<close> (the predicate evaluated
  once more after a timeout), \<open>M_Final\<close> (455 and 461), \<open>M_Unreg\<close> (464 to 466 and 443 to 445).
  The result of the call is \<open>Some i\<close> for success with index \<open>i\<close> and \<open>None\<close> for \<open>TimedOut\<close>.
  The local \<open>wait_mtx\<close> is taken by no other thread, so it never delays a step.
\<close>

datatype mwait_pc =
    M_First nat | M_Reg nat | M_Second nat | M_Pred nat | M_Sleep | M_Blocked | M_Woken
  | M_Timeout nat | M_Final nat | M_Unreg nat "nat option" | M_Done "nat option"

record mwait =
  m_pc :: mwait_pc
  m_objs :: "bool option list"
  m_reg :: "nat set"
  m_pending :: "nat \<Rightarrow> nat"
  m_ever :: "nat set"

text \<open>\<open>m_ever\<close> records which objects have been signaled so far; no step reads it.\<close>

definition mwait_init :: "bool option list \<Rightarrow> mwait" where
  "mwait_init objs = \<lparr>m_pc = M_First 0, m_objs = objs, m_reg = {}, m_pending = (\<lambda>_. 0),
     m_ever = {i. i < length objs \<and> objs ! i = Some True}\<rparr>"

abbreviation m_hit :: "mwait \<Rightarrow> nat \<Rightarrow> bool" where
  "m_hit s i \<equiv> i < length (m_objs s) \<and> m_objs s ! i = Some True"

abbreviation m_miss :: "mwait \<Rightarrow> nat \<Rightarrow> bool" where
  "m_miss s i \<equiv> i < length (m_objs s) \<and> m_objs s ! i \<noteq> Some True"

inductive mwait_step :: "int \<Rightarrow> mwait \<Rightarrow> mwait \<Rightarrow> bool" for timeout :: int where
  first_hit: "m_pc s = M_First i \<Longrightarrow> m_hit s i \<Longrightarrow> mwait_step timeout s (s\<lparr>m_pc := M_Done (Some i)\<rparr>)"
| first_miss: "m_pc s = M_First i \<Longrightarrow> m_miss s i \<Longrightarrow> mwait_step timeout s (s\<lparr>m_pc := M_First (Suc i)\<rparr>)"
| first_end: "m_pc s = M_First (length (m_objs s)) \<Longrightarrow>
    mwait_step timeout s (s\<lparr>m_pc := (if timeout = 0 then M_Done None else M_Reg 0)\<rparr>)"
| reg_one: "m_pc s = M_Reg i \<Longrightarrow> i < length (m_objs s) \<Longrightarrow>
    mwait_step timeout s (s\<lparr>m_pc := M_Reg (Suc i),
      m_reg := (if m_objs s ! i = None then m_reg s else insert i (m_reg s))\<rparr>)"
| reg_end: "m_pc s = M_Reg (length (m_objs s)) \<Longrightarrow> mwait_step timeout s (s\<lparr>m_pc := M_Second 0\<rparr>)"
| second_hit: "m_pc s = M_Second i \<Longrightarrow> m_hit s i \<Longrightarrow>
    mwait_step timeout s (s\<lparr>m_pc := M_Unreg 0 (Some i)\<rparr>)"
| second_miss: "m_pc s = M_Second i \<Longrightarrow> m_miss s i \<Longrightarrow>
    mwait_step timeout s (s\<lparr>m_pc := M_Second (Suc i)\<rparr>)"
| second_end: "m_pc s = M_Second (length (m_objs s)) \<Longrightarrow> mwait_step timeout s (s\<lparr>m_pc := M_Pred 0\<rparr>)"
| pred_hit: "m_pc s = M_Pred i \<Longrightarrow> m_hit s i \<Longrightarrow> mwait_step timeout s (s\<lparr>m_pc := M_Final 0\<rparr>)"
| pred_miss: "m_pc s = M_Pred i \<Longrightarrow> m_miss s i \<Longrightarrow> mwait_step timeout s (s\<lparr>m_pc := M_Pred (Suc i)\<rparr>)"
| pred_end: "m_pc s = M_Pred (length (m_objs s)) \<Longrightarrow> mwait_step timeout s (s\<lparr>m_pc := M_Sleep\<rparr>)"
| block: "m_pc s = M_Sleep \<Longrightarrow> mwait_step timeout s (s\<lparr>m_pc := M_Blocked\<rparr>)"
| resume: "m_pc s = M_Woken \<Longrightarrow> mwait_step timeout s (s\<lparr>m_pc := M_Pred 0\<rparr>)"
| expire: "m_pc s = M_Blocked \<Longrightarrow> 0 < timeout \<Longrightarrow> mwait_step timeout s (s\<lparr>m_pc := M_Timeout 0\<rparr>)"
| timeout_next: "m_pc s = M_Timeout i \<Longrightarrow> m_miss s i \<Longrightarrow>
    mwait_step timeout s (s\<lparr>m_pc := M_Timeout (Suc i)\<rparr>)"
| timeout_end: "m_pc s = M_Timeout i \<Longrightarrow> m_hit s i \<or> i = length (m_objs s) \<Longrightarrow>
    mwait_step timeout s (s\<lparr>m_pc := M_Final 0\<rparr>)"
| final_hit: "m_pc s = M_Final i \<Longrightarrow> m_hit s i \<Longrightarrow>
    mwait_step timeout s (s\<lparr>m_pc := M_Unreg 0 (Some i)\<rparr>)"
| final_miss: "m_pc s = M_Final i \<Longrightarrow> m_miss s i \<Longrightarrow> mwait_step timeout s (s\<lparr>m_pc := M_Final (Suc i)\<rparr>)"
| final_end: "m_pc s = M_Final (length (m_objs s)) \<Longrightarrow>
    mwait_step timeout s (s\<lparr>m_pc := M_Unreg 0 None\<rparr>)"
| unreg_one: "m_pc s = M_Unreg i r \<Longrightarrow> i < length (m_objs s) \<Longrightarrow>
    mwait_step timeout s (s\<lparr>m_pc := M_Unreg (Suc i) r, m_reg := m_reg s - {i}\<rparr>)"
| unreg_end: "m_pc s = M_Unreg (length (m_objs s)) r \<Longrightarrow> mwait_step timeout s (s\<lparr>m_pc := M_Done r\<rparr>)"
| signal_set: "i < length (m_objs s) \<Longrightarrow> m_objs s ! i \<noteq> None \<Longrightarrow>
    mwait_step timeout s (s\<lparr>m_objs := (m_objs s)[i := Some True],
      m_pending := (m_pending s)(i := Suc (m_pending s i)), m_ever := insert i (m_ever s)\<rparr>)"
| signal_notify: "m_pending s i = Suc n \<Longrightarrow>
    mwait_step timeout s (s\<lparr>m_pending := (m_pending s)(i := n),
      m_pc := (if m_pc s = M_Blocked \<and> i \<in> m_reg s then M_Woken else m_pc s)\<rparr>)"
| clear: "i < length (m_objs s) \<Longrightarrow> m_objs s ! i \<noteq> None \<Longrightarrow>
    mwait_step timeout s (s\<lparr>m_objs := (m_objs s)[i := Some False]\<rparr>)"

inductive_cases mwait_stepE: "mwait_step timeout s s'"

subsection \<open>Invariant\<close>

definition m_present :: "mwait \<Rightarrow> nat set" where
  "m_present s = {i. i < length (m_objs s) \<and> m_objs s ! i \<noteq> None}"

text \<open>Which objects hold a registration of the waiter at each point of the call.\<close>

fun reg_at :: "nat set \<Rightarrow> mwait_pc \<Rightarrow> nat set" where
  "reg_at P (M_First i) = {}"
| "reg_at P (M_Reg i) = {j \<in> P. j < i}"
| "reg_at P (M_Unreg i r) = {j \<in> P. i \<le> j}"
| "reg_at P (M_Done r) = {}"
| "reg_at P _ = P"

text \<open>The position of a scan, and the result that a state has already decided on.\<close>

fun pc_index :: "mwait_pc \<Rightarrow> nat" where
  "pc_index (M_First i) = i"
| "pc_index (M_Reg i) = i"
| "pc_index (M_Second i) = i"
| "pc_index (M_Pred i) = i"
| "pc_index (M_Timeout i) = i"
| "pc_index (M_Final i) = i"
| "pc_index (M_Unreg i r) = i"
| "pc_index _ = 0"

fun pc_result :: "mwait_pc \<Rightarrow> nat option" where
  "pc_result (M_Unreg i r) = r"
| "pc_result (M_Done r) = r"
| "pc_result _ = None"

definition mwait_inv :: "mwait \<Rightarrow> bool" where
  "mwait_inv s \<longleftrightarrow>
     m_reg s = reg_at (m_present s) (m_pc s) \<and> pc_index (m_pc s) \<le> length (m_objs s) \<and>
     (\<forall>i. m_hit s i \<longrightarrow> i \<in> m_ever s) \<and> m_ever s \<subseteq> {..<length (m_objs s)} \<and>
     (\<forall>i. pc_result (m_pc s) = Some i \<longrightarrow> i \<in> m_ever s)"

lemma m_present_simps [simp]:
  "m_present (s\<lparr>m_pc := p\<rparr>) = m_present s" "m_present (s\<lparr>m_reg := R\<rparr>) = m_present s"
  "m_present (s\<lparr>m_pending := q\<rparr>) = m_present s" "m_present (s\<lparr>m_ever := e\<rparr>) = m_present s"
  by (simp_all add: m_present_def)

lemma m_present_set [simp]:
  "i < length (m_objs s) \<Longrightarrow> m_objs s ! i \<noteq> None \<Longrightarrow>
    m_present (s\<lparr>m_objs := (m_objs s)[i := Some b]\<rparr>) = m_present s"
  by (auto simp: m_present_def nth_list_update)

lemma reg_at_Reg_Suc:
  "reg_at P (M_Reg (Suc i)) = (if i \<in> P then insert i (reg_at P (M_Reg i)) else reg_at P (M_Reg i))"
  by (auto simp: less_Suc_eq)

lemma reg_at_Unreg_Suc: "reg_at P (M_Unreg (Suc i) r) = reg_at P (M_Unreg i r) - {i}"
  by auto

lemma mwait_inv_init: "mwait_inv (mwait_init objs)"
  by (auto simp: mwait_inv_def mwait_init_def)

lemma mwait_inv_step: "mwait_inv s \<Longrightarrow> mwait_step t s s' \<Longrightarrow> mwait_inv s'"
  by (erule mwait_stepE; simp add: mwait_inv_def;
      auto simp: nth_list_update m_present_def elim!: less_SucE split: if_splits)

interpretation waitsync: safe_system "mwait_init objs" "mwait_step t" mwait_inv for objs t
  by unfold_locales (auto intro: mwait_inv_init mwait_inv_step)

text \<open>Executions are built by chaining steps; \<open>length\<close> facts decide the ends of the scans.\<close>

lemma mwait_path: "reach i (mwait_step t) s \<Longrightarrow> mwait_step t s s' \<Longrightarrow> s' = s'' \<Longrightarrow> reach i (mwait_step t) s''"
  by (auto intro: reach_step)

section \<open>Properties\<close>

text \<open>
  Property C4: \<open>KEvent::Wait\<close> loses no wake-up. Whatever the interleaving with any number of
  \<open>Signal\<close> and \<open>Clear\<close> calls, a waiter blocked on a signaled event has a notification on its way.
\<close>

theorem KEvent_Wait_no_lost_wakeup:
  "\<forall>s. reach kwait_init kwait_step s \<and> k_pc s = K_Blocked \<and> k_signaled s \<longrightarrow>
     0 < k_pending s \<and> (\<exists>s'. kwait_step s s' \<and> k_pc s' = K_Woken)"
proof (intro allI impI)
  fix s assume s: "reach kwait_init kwait_step s \<and> k_pc s = K_Blocked \<and> k_signaled s"
  then have pos: "0 < k_pending s"
    using kevent.reach_safe by (auto simp: no_lost_wakeup_def)
  then obtain n where n: "k_pending s = Suc n"
    by (cases "k_pending s") auto
  have "kwait_step s (s\<lparr>k_pending := n, k_pc := K_Woken\<rparr>)"
    using k_notify [OF n] s by simp
  with pos show "0 < k_pending s \<and> (\<exists>s'. kwait_step s s' \<and> k_pc s' = K_Woken)"
    by force
qed

theorem KEvent_Wait_no_lost_wakeup_witness:
  "\<exists>s. reach kwait_init kwait_step s \<and> k_pc s = K_Blocked \<and> k_signaled s \<and> 0 < k_pending s"
proof -
  let ?s = "\<lambda>p b n. \<lparr>k_pc = p, k_signaled = b, k_pending = n\<rparr>"
  have "reach kwait_init kwait_step (?s K_Enter False 0)"
    using reach_init [of kwait_init kwait_step] by (simp add: kwait_init_def)
  from reach_step [OF this k_lock] have "reach kwait_init kwait_step (?s K_Check False 0)" by simp
  from reach_step [OF this k_false] have "reach kwait_init kwait_step (?s K_Sleep False 0)" by simp
  from reach_step [OF this k_block] have "reach kwait_init kwait_step (?s K_Blocked False 0)" by simp
  from reach_step [OF this k_set] have r: "reach kwait_init kwait_step (?s K_Blocked True 1)"
    by (simp add: k_mtx_free_def)
  then have "0 < k_pending (?s K_Blocked True 1)"
    using KEvent_Wait_no_lost_wakeup by (metis kwait.select_convs(1,2))
  with r show ?thesis
    by (metis kwait.select_convs(1,2))
qed

text \<open>The states of a wait on one event, for the executions below.\<close>

definition one_event :: "mwait_pc \<Rightarrow> bool \<Rightarrow> nat set \<Rightarrow> nat \<Rightarrow> nat set \<Rightarrow> mwait" where
  "one_event p b R n E = \<lparr>m_pc = p, m_objs = [Some b], m_reg = R, m_pending = (\<lambda>_. 0)(0 := n), m_ever = E\<rparr>"

abbreviation one_reach :: "mwait \<Rightarrow> bool" where
  "one_reach \<equiv> reach (mwait_init [Some False]) (mwait_step (-1))"

lemma one_event_start: "one_reach (one_event (M_First 0) False {} 0 {})"
proof -
  have "mwait_init [Some False] = one_event (M_First 0) False {} 0 {}"
    by (auto simp: mwait_init_def one_event_def)
  then show ?thesis
    using reach_init by metis
qed

lemma one_event_about_to_block: "one_reach (one_event M_Sleep False {0} 0 {})"
proof -
  note p = mwait_path and [simp] = one_event_def
  have "one_reach (one_event (M_First 1) False {} 0 {})"
    by (rule p [OF one_event_start first_miss]) simp+
  then have "one_reach (one_event (M_Reg 0) False {} 0 {})"
    by (rule p [OF _ first_end]) simp+
  then have "one_reach (one_event (M_Reg 1) False {0} 0 {})"
    by (rule p [OF _ reg_one]) simp+
  then have "one_reach (one_event (M_Second 0) False {0} 0 {})"
    by (rule p [OF _ reg_end]) simp+
  then have "one_reach (one_event (M_Second 1) False {0} 0 {})"
    by (rule p [OF _ second_miss]) simp+
  then have "one_reach (one_event (M_Pred 0) False {0} 0 {})"
    by (rule p [OF _ second_end]) simp+
  then have "one_reach (one_event (M_Pred 1) False {0} 0 {})"
    by (rule p [OF _ pred_miss]) simp+
  then show ?thesis
    by (rule p [OF _ pred_end]) simp+
qed

text \<open>
  Property C37: the multi-object wait does lose wake-ups. \<open>NotifyWaiters\<close> does not take the waiter's
  mutex, so a complete \<open>Signal\<close> can run between the predicate that read False and the blocking of the
  thread: the thread then sleeps without a timeout on an event that is signaled, and no notification
  is left that could wake it.
\<close>

theorem WaitSynchronization_lost_wakeup:
  "\<exists>s. reach (mwait_init [Some False]) (mwait_step (-1)) s \<and> m_pc s = M_Blocked \<and>
     m_objs s = [Some True] \<and> (\<forall>i. m_pending s i = 0)"
proof -
  note p = mwait_path and [simp] = one_event_def
  have "one_reach (one_event M_Sleep True {0} 1 {0})"
    by (rule p [OF one_event_about_to_block signal_set [of 0]]) simp+
  then have "one_reach (one_event M_Sleep True {0} 0 {0})"
    by (rule p [OF _ signal_notify [of _ 0 0]]) simp+
  then have "one_reach (one_event M_Blocked True {0} 0 {0})"
    by (rule p [OF _ block]) simp+
  then show ?thesis
    by (rule exI [of _ "one_event M_Blocked True {0} 0 {0}", OF conjI]) simp
qed

text \<open>
  What \<open>SvcWaitSynchronization\<close> guarantees on every interleaving. When it returns an
  index, that index is in range and that object was signaled; whenever it has returned, none of the
  objects keeps a pointer to its stack-allocated mutex and condition variable; while it is blocked,
  every object of the array holds its registration, so the next notification of any of them wakes it.
\<close>

theorem WaitSynchronization_safe:
  assumes "reach (mwait_init objs) (mwait_step t) s"
  shows "(\<forall>i. m_pc s = M_Done (Some i) \<longrightarrow> i < length (m_objs s) \<and> i \<in> m_ever s) \<and>
    (\<forall>r. m_pc s = M_Done r \<longrightarrow> m_reg s = {}) \<and>
    (m_pc s = M_Blocked \<longrightarrow> m_reg s = m_present s)"
  using waitsync.reach_safe [OF assms] by (auto simp: mwait_inv_def)

theorem WaitSynchronization_safe_witness:
  "m_reg (one_event M_Blocked False {0} 0 {}) = m_present (one_event M_Blocked False {0} 0 {})"
proof -
  have "one_reach (one_event M_Blocked False {0} 0 {})"
    by (rule mwait_path [OF one_event_about_to_block block]) (simp_all add: one_event_def)
  from WaitSynchronization_safe [OF this] show ?thesis
    by (simp add: one_event_def)
qed

text \<open>
  A wait with a negative timeout, which the interface defines as waiting for ever, can
  return \<open>TimedOut\<close>: the event is signaled, the predicate of \<open>wait\<close> sees it, another thread clears
  it, and the second evaluation on line 455 finds nothing.
\<close>

theorem WaitSynchronization_forever_times_out:
  "\<exists>s. reach (mwait_init [Some False]) (mwait_step (-1)) s \<and> m_pc s = M_Done None"
proof -
  note p = mwait_path and [simp] = one_event_def
  have "one_reach (one_event M_Blocked False {0} 0 {})"
    by (rule p [OF one_event_about_to_block block]) simp+
  then have "one_reach (one_event M_Blocked True {0} 1 {0})"
    by (rule p [OF _ signal_set [of 0]]) simp+
  then have "one_reach (one_event M_Woken True {0} 0 {0})"
    by (rule p [OF _ signal_notify [of _ 0 0]]) simp+
  then have "one_reach (one_event (M_Pred 0) True {0} 0 {0})"
    by (rule p [OF _ resume]) simp+
  then have "one_reach (one_event (M_Final 0) True {0} 0 {0})"
    by (rule p [OF _ pred_hit]) simp+
  then have "one_reach (one_event (M_Final 0) False {0} 0 {0})"
    by (rule p [OF _ clear [of 0]]) simp+
  then have "one_reach (one_event (M_Final 1) False {0} 0 {0})"
    by (rule p [OF _ final_miss]) simp+
  then have "one_reach (one_event (M_Unreg 0 None) False {0} 0 {0})"
    by (rule p [OF _ final_end]) simp+
  then have "one_reach (one_event (M_Unreg 1 None) False {} 0 {0})"
    by (rule p [OF _ unreg_one]) simp+
  then have "one_reach (one_event (M_Done None) False {} 0 {0})"
    by (rule p [OF _ unreg_end]) simp+
  then show ?thesis
    by (rule exI [of _ "one_event (M_Done None) False {} 0 {0}", OF conjI]) simp
qed

text \<open>The waiter itself is stuck only while it is blocked without a timeout.\<close>

lemma mwait_progress:
  assumes "mwait_inv s" and stuck: "\<And>s'. mwait_step t s s' \<Longrightarrow> m_pc s' = m_pc s"
  shows "(\<exists>r. m_pc s = M_Done r) \<or> (m_pc s = M_Blocked \<and> t \<le> 0)"
proof -
  have scan: "pc_index (m_pc s) = length (m_objs s) \<or> m_hit s (pc_index (m_pc s)) \<or> m_miss s (pc_index (m_pc s))"
    using assms(1) by (auto simp: mwait_inv_def)
  show ?thesis
  proof (cases "m_pc s")
    case (M_First i)
    then show ?thesis
      using scan stuck [OF first_hit] stuck [OF first_miss] stuck [OF first_end] by (auto split: if_splits)
  next
    case (M_Reg i)
    then show ?thesis
      using scan stuck [OF reg_one] stuck [OF reg_end] by auto
  next
    case (M_Second i)
    then show ?thesis
      using scan stuck [OF second_hit] stuck [OF second_miss] stuck [OF second_end] by auto
  next
    case (M_Pred i)
    then show ?thesis
      using scan stuck [OF pred_hit] stuck [OF pred_miss] stuck [OF pred_end] by auto
  next
    case M_Sleep
    then show ?thesis
      using stuck [OF block] by auto
  next
    case M_Blocked
    then show ?thesis
      using stuck [OF expire] by force
  next
    case M_Woken
    then show ?thesis
      using stuck [OF resume] by auto
  next
    case (M_Timeout i)
    then show ?thesis
      using scan stuck [OF timeout_next] stuck [OF timeout_end] by auto
  next
    case (M_Final i)
    then show ?thesis
      using scan stuck [OF final_hit] stuck [OF final_miss] stuck [OF final_end] by auto
  next
    case (M_Unreg i r)
    then show ?thesis
      using scan stuck [OF unreg_one] stuck [OF unreg_end] by auto
  next
    case (M_Done r)
    then show ?thesis by blast
  qed
qed

text \<open>
  A wait with a positive timeout cannot hang. In every reachable state that is not a
  return, the waiting thread itself has a step (the expiry of the timer counts as one).
\<close>

theorem WaitSynchronization_timed_progress:
  assumes "reach (mwait_init objs) (mwait_step t) s" and "0 < t" and "\<And>r. m_pc s \<noteq> M_Done r"
  shows "\<exists>s'. mwait_step t s s' \<and> m_pc s' \<noteq> m_pc s"
  using mwait_progress [OF waitsync.reach_safe [OF assms(1)], of t] assms(2,3) by force

theorem WaitSynchronization_timed_progress_witness:
  "\<exists>s'. mwait_step 5 (mwait_init [None, Some False]) s' \<and> m_pc s' \<noteq> m_pc (mwait_init [None, Some False])"
  by (rule WaitSynchronization_timed_progress [OF reach_init]) (simp_all add: mwait_init_def)

end
