(* ===== verification/Ipc.thy ===== *)
theory Ipc
  imports KernelObjects
begin

unbundle bit_operations_syntax

text \<open>
  The IPC manager: \<^verbatim>\<open>src/src/services/Ipc.h\<close> and \<^verbatim>\<open>src/src/services/Ipc.cpp\<close>.

  A service object is a pointer, modelled by a number of type \<open>svc\<close>; its virtual methods \<open>Name\<close> and
  \<open>HandleCommand\<close> are the fields of a \<open>vtable\<close>, which every operation that calls them takes as an
  argument. \<open>HandleCommand\<close> may change the manager itself (services open and close sessions), the guest
  memory, the kernel's handle table and whatever else the services own, so it works on the whole state \<open>sys\<close>.

  Message buffers are byte lists whose length is the size of the C++ buffer. The code reads and writes
  them at offsets computed from the message; an access outside the buffer, a call through a deleted
  service, and \<open>back()\<close> on an empty string are undefined behaviour in C++ and are values of \<open>ipc_error\<close>
  here. Trace and log output is left out.
\<close>

section \<open>State\<close>

type_synonym svc = nat

record session =
  sess_id :: u32
  service_name :: string
  service :: "svc option"
  is_domain :: bool
  owns_service :: bool
  next_object_id :: u32
  domain_objects :: "u32 \<rightharpoonup> svc"

record ipc =
  services :: "string \<rightharpoonup> svc option"
  sessions :: "session list"
  next_session :: u32
  deleted :: "svc list"

definition ipc_init :: ipc where
  "ipc_init = \<lparr>services = Map.empty, sessions = [], next_session = 0x1000, deleted = []\<rparr>"

record 'w sys =
  s_ipc :: ipc
  s_mem :: "memory option"
  s_handles :: handle_table
  s_ext :: 'w

datatype ipc_error = OobRead | OobWrite | UseAfterFree | DoubleFree | EmptyName

text \<open>
  \<open>handle_command p cmd in in_size out s\<close>: \<open>in\<close> are the bytes from the input pointer to the end of the
  request buffer, \<open>in_size\<close> the size the callee is told, \<open>out\<close> the output buffer (its length is the
  initial \<^verbatim>\<open>*out_size\<close>). The result: handled, the output buffer, \<^verbatim>\<open>*out_size\<close>, the state.
\<close>

record 'w vtable =
  svc_name :: "svc \<Rightarrow> string"
  handle_command :: "svc \<Rightarrow> u32 \<Rightarrow> u8 list \<Rightarrow> nat \<Rightarrow> u8 list \<Rightarrow> 'w sys \<Rightarrow>
      ipc_error + (bool \<times> u8 list \<times> nat \<times> 'w sys)"

section \<open>Sessions\<close>

definition RegisterService :: "string \<Rightarrow> svc option \<Rightarrow> ipc \<Rightarrow> ipc" where
  "RegisterService name p st = st\<lparr>services := (services st)(name \<mapsto> p)\<rparr>"

definition lookup_service :: "string \<Rightarrow> ipc \<Rightarrow> svc option" where
  "lookup_service name st =
     (case services st name of
        Some p \<Rightarrow> p
      | None \<Rightarrow> (case services st (name @ '':'') of Some p \<Rightarrow> p | None \<Rightarrow> None))"

definition new_session :: "u32 \<Rightarrow> string \<Rightarrow> svc option \<Rightarrow> bool \<Rightarrow> session" where
  "new_session sid name p owns = \<lparr>sess_id = sid, service_name = name, service = p, is_domain = False,
     owns_service = owns, next_object_id = 1, domain_objects = Map.empty\<rparr>"

definition Connect :: "string \<Rightarrow> ipc \<Rightarrow> u32 \<times> ipc" where
  "Connect name st =
     (let sid = next_session st
      in (sid, st\<lparr>next_session := sid + 1,
                  sessions := sessions st @ [new_session sid name (lookup_service name st) False]\<rparr>))"

definition find_session :: "u32 \<Rightarrow> ipc \<Rightarrow> session option" where
  "find_session sid st = find (\<lambda>s. sess_id s = sid) (sessions st)"

definition GetServiceBySession :: "u32 \<Rightarrow> ipc \<Rightarrow> svc option" where
  "GetServiceBySession sid st = (case find_session sid st of Some s \<Rightarrow> service s | None \<Rightarrow> None)"

definition CreateSession :: "svc option \<Rightarrow> ipc \<Rightarrow> u32 \<times> ipc" where
  "CreateSession p st =
     (let sid = next_session st
      in (sid, st\<lparr>next_session := sid + 1, sessions := sessions st @ [new_session sid ''(anonymous)'' p True]\<rparr>))"

text \<open>Erasing the first session with the given id.\<close>

fun erase_session :: "u32 \<Rightarrow> session list \<Rightarrow> session list" where
  "erase_session sid [] = []"
| "erase_session sid (s # ss) = (if sess_id s = sid then ss else s # erase_session sid ss)"

definition CloseSession :: "u32 \<Rightarrow> ipc \<Rightarrow> ipc_error + ipc" where
  "CloseSession sid st =
     (case find_session sid st of
        None \<Rightarrow> Inr st
      | Some s \<Rightarrow>
          let st' = st\<lparr>sessions := erase_session sid (sessions st)\<rparr>
          in case (owns_service s, service s) of
               (True, Some p) \<Rightarrow>
                 if p \<in> set (deleted st) then Inl DoubleFree else Inr (st'\<lparr>deleted := p # deleted st\<rparr>)
             | _ \<Rightarrow> Inr st')"

definition OpenSessionFor :: "string \<Rightarrow> ipc \<Rightarrow> u32 \<times> ipc" where
  "OpenSessionFor name st =
     (case services st name of
        Some (Some p) \<Rightarrow> CreateSession (Some p) st
      | _ \<Rightarrow> (0, st))"

text \<open>Writing through the pointer that \<open>find_session\<close> returns.\<close>

fun upd_session :: "u32 \<Rightarrow> (session \<Rightarrow> session) \<Rightarrow> session list \<Rightarrow> session list" where
  "upd_session sid f [] = []"
| "upd_session sid f (s # ss) = (if sess_id s = sid then f s # ss else s # upd_session sid f ss)"

section \<open>Message headers\<close>

record hipc_header =
  h_type :: u32
  num_send_statics :: u32
  num_send_buffers :: u32
  num_recv_buffers :: u32
  num_exch_buffers :: u32
  num_data_words :: u32
  recv_static_mode :: u32
  recv_list_offset :: u32
  has_special_header :: bool

definition zero_header :: hipc_header where
  "zero_header = \<lparr>h_type = 0, num_send_statics = 0, num_send_buffers = 0, num_recv_buffers = 0,
     num_exch_buffers = 0, num_data_words = 0, recv_static_mode = 0, recv_list_offset = 0,
     has_special_header = False\<rparr>"

definition word_at :: "u8 list \<Rightarrow> nat \<Rightarrow> u32" where
  "word_at data off = of_le_bytes (get_bytes data off 4)"

definition parse_header :: "u8 list \<Rightarrow> hipc_header" where
  "parse_header data =
     (let w0 = word_at data 0; w1 = word_at data 4
      in \<lparr>h_type = Bits w0 15 0, num_send_statics = Bits w0 19 16, num_send_buffers = Bits w0 23 20,
          num_recv_buffers = Bits w0 27 24, num_exch_buffers = Bits w0 31 28,
          num_data_words = Bits w1 9 0, recv_static_mode = Bits w1 13 10,
          recv_list_offset = Bits w1 30 20, has_special_header = Bit w1 31\<rparr>)"

text \<open>
  The response header: only the data word count and the special header flag are ever set. Storing
  into the 10-bit field keeps the low 10 bits.
\<close>

definition response_header :: "nat \<Rightarrow> bool \<Rightarrow> u8 list" where
  "response_header ndw special =
     le_bytes 4 (0 :: u32) @
     le_bytes 4 ((of_nat ndw AND 0x3FF) OR (if special then push_bit 31 1 else 0) :: u32)"

definition special_header :: "nat \<Rightarrow> nat \<Rightarrow> u8 list" where
  "special_header ncopy nmove =
     le_bytes 4 (push_bit 1 (of_nat ncopy AND 0xF) OR push_bit 5 (of_nat nmove AND 0xF) :: u32)"

definition CalcDataWordsOffset :: "u8 list \<Rightarrow> nat" where
  "CalcDataWordsOffset data =
     (let sz = length data in
      if sz < 8 then 0
      else
        let hdr = parse_header data;
            finish = (\<lambda>off.
              let off' = off + unat (num_send_statics hdr) * 8 +
                    (unat (num_send_buffers hdr) + unat (num_recv_buffers hdr) + unat (num_exch_buffers hdr)) * 16
              in if off' < sz then off' else 0)
        in if has_special_header hdr then
             if 8 + 4 > sz then 0
             else let sh = word_at data 8
                  in finish (8 + 4 + (if Bit sh 0 then 8 else 0) + unat (Bits sh 4 1) * 4 + unat (Bits sh 8 5) * 4)
           else finish 8)"

definition rd :: "u8 list \<Rightarrow> nat \<Rightarrow> nat \<Rightarrow> ipc_error + u8 list" where
  "rd buf off n = (if off + n \<le> length buf then Inr (get_bytes buf off n) else Inl OobRead)"

definition wr :: "u8 list \<Rightarrow> nat \<Rightarrow> u8 list \<Rightarrow> ipc_error + u8 list" where
  "wr buf off bs = (if off + length bs \<le> length buf then Inr (put_bytes buf off bs) else Inl OobWrite)"

definition bind_sum :: "'e + 'a \<Rightarrow> ('a \<Rightarrow> 'e + 'b) \<Rightarrow> 'e + 'b" where
  "bind_sum r f = (case r of Inl e \<Rightarrow> Inl e | Inr x \<Rightarrow> f x)"

lemma bind_sum_simps [simp]: "bind_sum (Inl e) f = Inl e" "bind_sum (Inr x) f = f x"
  by (simp_all add: bind_sum_def)

lemma bind_sum_Inr: "bind_sum r f = Inr y \<longleftrightarrow> (\<exists>x. r = Inr x \<and> f x = Inr y)"
  by (cases r) auto

text \<open>The receive list: (guest address, size) of the entries with a nonzero size.\<close>

fun recv_entries :: "u8 list \<Rightarrow> nat \<Rightarrow> nat \<Rightarrow> ipc_error + (u64 \<times> u32) list" where
  "recv_entries data off 0 = Inr []"
| "recv_entries data off (Suc n) =
     bind_sum (rd data off 8) (\<lambda>bs.
       let low = word_at bs 0; hi = word_at bs 4;
           addr = ucast low OR push_bit 32 (ucast (Bits hi 15 0) :: u64);
           sz = Bits hi 31 16
       in bind_sum (recv_entries data (off + 8) n) (\<lambda>es. Inr (if sz > 0 then (addr, sz) # es else es)))"

definition ParseRecvList :: "u8 list \<Rightarrow> hipc_header \<Rightarrow> nat \<Rightarrow> ipc_error + (u64 \<times> u32) list" where
  "ParseRecvList data hdr dw_off =
     (let mode = recv_static_mode hdr;
          num_entries = (if mode = 2 then 8 else if mode > 2 then unat mode - 2 else 0);
          rl_off = (if recv_list_offset hdr > 0 then unat (recv_list_offset hdr) * 4
                    else dw_off + unat (num_data_words hdr) * 4)
      in if mode = 0 \<or> num_entries = 0 then Inr [] else recv_entries data rl_off (min num_entries 8))"

definition CMIF_IN_MAGIC :: u32 where "CMIF_IN_MAGIC = 0x49434653"
definition CMIF_OUT_MAGIC :: u32 where "CMIF_OUT_MAGIC = 0x4F434653"

definition CalcCmifAlign :: "nat \<Rightarrow> nat" where
  "CalcCmifAlign dw_off = (dw_off + 15) div 16 * 16"

section \<open>Requests\<close>

text \<open>
  What the first half of \<open>HandleRequest\<close> extracts from the message: the command, the token to echo,
  the input for the service (pointer and size) and the domain object addressed.
\<close>

record request =
  rq_cmd :: u32
  rq_token :: u32
  rq_in :: "u8 list"
  rq_in_size :: nat
  rq_object :: u32

text \<open>Lines 266 to 291: the header and the data offset, reset when the buffer still holds a response.\<close>

definition request_header :: "u8 list \<Rightarrow> hipc_header \<times> nat" where
  "request_header data =
     (let hdr = parse_header data;
          dw_off = CalcDataWordsOffset data;
          check_off = CalcCmifAlign dw_off;
          recycled = (num_data_words hdr > 0 \<and> check_off + 4 \<le> length data
                      \<and> word_at data check_off = CMIF_OUT_MAGIC)
      in if recycled then (zero_header, 8) else (hdr, dw_off))"

text \<open>Lines 307 to 350.\<close>

definition parse_request :: "u8 list \<Rightarrow> hipc_header \<Rightarrow> nat \<Rightarrow> bool \<Rightarrow> ipc_error + request" where
  "parse_request data hdr dw_off domn =
     (let cmif_off = CalcCmifAlign dw_off;
          skip = (if domn then 16 else 0);
          dw_end = dw_off + unat (num_data_words hdr) * 4;
          empty = \<lparr>rq_cmd = 0, rq_token = 0, rq_in = [], rq_in_size = 0, rq_object = 0\<rparr>
      in if num_data_words hdr = 0 then Inr empty
         else
           bind_sum (if domn then bind_sum (rd data cmif_off 16) (\<lambda>bs. Inr (word_at bs 4)) else Inr 0) (\<lambda>obj.
           bind_sum (rd data (cmif_off + skip) 16) (\<lambda>bs.
             if word_at bs 0 = CMIF_IN_MAGIC then
               let cmif_end = cmif_off + 16;
                   has_in = cmif_end < dw_end
               in Inr \<lparr>rq_cmd = word_at bs 8, rq_token = word_at bs 12,
                       rq_in = (if has_in then drop cmif_end data else []),
                       rq_in_size = (if has_in then dw_end - cmif_end else 0), rq_object = obj\<rparr>
             else if dw_off > 0 then
               bind_sum (rd data dw_off 4) (\<lambda>w. Inr (empty\<lparr>rq_cmd := word_at w 0, rq_object := obj\<rparr>))
             else Inr (empty\<lparr>rq_object := obj\<rparr>))))"

text \<open>Lines 389 to 417: whether the service's output starts with a handle that goes into the header.\<close>

definition strip_colon :: "string \<Rightarrow> string" where
  "strip_colon n = (if last n = CHR '':'' then butlast n else n)"

definition handle_policy :: "'w vtable \<Rightarrow> string \<Rightarrow> u32 \<Rightarrow> svc option \<Rightarrow> svc list \<Rightarrow> ipc_error + (bool \<times> bool)" where
  "handle_policy vt sname cmd p dead =
     (if sname = ''sm'' \<and> cmd = 1 then Inr (True, False)
      else if (sname = ''apm'' \<or> sname = ''apm:sys'') \<and> cmd = 0 then Inr (True, False)
      else if (sname = ''appletOE'' \<or> sname = ''appletAE'') \<and> cmd = 0 then Inr (True, False)
      else if (sname = ''hid'' \<or> sname = ''hid:'') \<and> (cmd = 0 \<or> cmd = 1) then Inr (True, False)
      else if cmd \<le> 1000 then
        (case p of
           None \<Rightarrow> Inr (False, False)
         | Some q \<Rightarrow>
             if q \<in> set dead then Inl UseAfterFree
             else Inr (svc_name vt q = ''appletProxy'' \<or> svc_name vt q = ''HidAppletResource'',
                       svc_name vt q = ''HidAppletResource''))
      else Inr (False, False))"

text \<open>The layout of the response before the data words: positions are offsets into the response.\<close>

record layout =
  l_resp :: "u8 list"
  l_pos :: nat
  l_shdr :: "nat option"
  l_handle :: "nat option"
  l_ncopy :: nat
  l_nmove :: nat
  l_special :: bool

text \<open>Lines 419 to 458: space for the special header and a handle; \<open>sm\<close> command 0 returns the session.\<close>

definition reserve_handles :: "u32 \<Rightarrow> string \<Rightarrow> u32 \<Rightarrow> bool \<Rightarrow> bool \<Rightarrow> bool \<Rightarrow> bool \<Rightarrow> u8 list \<Rightarrow> layout" where
  "reserve_handles sid sname cmd needs_move needs_copy control domn resp =
     (let l0 = \<lparr>l_resp = resp, l_pos = 8, l_shdr = None, l_handle = None, l_ncopy = 0, l_nmove = 0, l_special = False\<rparr>;
          l1 = (if sname = ''sm'' \<and> cmd = 0 \<and> length resp \<ge> 16
                then l0\<lparr>l_resp := put_bytes resp 12 (le_bytes 4 sid), l_pos := 16, l_shdr := Some 8,
                        l_handle := Some 12, l_ncopy := 1, l_special := True\<rparr>
                else l0)
      in if needs_move \<and> \<not> control \<and> \<not> domn \<and> length resp - l_pos l1 \<ge> 8
         then l1\<lparr>l_pos := l_pos l1 + 8, l_shdr := Some (l_pos l1), l_handle := Some (l_pos l1 + 4),
                 l_ncopy := (if needs_copy then 1 else l_ncopy l1),
                 l_nmove := (if needs_copy then l_nmove l1 else 1), l_special := True\<rparr>
         else l1)"

text \<open>Lines 492 to 525: control commands; the result is the response and the output size.\<close>

definition control_command :: "u32 \<Rightarrow> u32 \<Rightarrow> u8 list \<Rightarrow> nat \<Rightarrow> ipc \<Rightarrow> u8 list \<times> nat \<times> ipc" where
  "control_command sid cmd resp raw_off st =
     (let room = length resp - raw_off in
      if cmd = 0 then
        (let st' = st\<lparr>sessions := upd_session sid (\<lambda>s. s\<lparr>is_domain := True\<rparr>) (sessions st)\<rparr>
         in if room \<ge> 4 then (put_bytes resp raw_off (le_bytes 4 (1 :: u32)), 4, st') else (resp, room, st'))
      else if cmd = 3 then
        (if room \<ge> 2 then (put_bytes resp raw_off (le_bytes 2 (0 :: u16)), 2, st) else (resp, 0, st))
      else (resp, 0, st))"

text \<open>Lines 529 to 548: the service that gets an ordinary command.\<close>

definition target_service :: "u32 \<Rightarrow> u32 \<Rightarrow> ipc \<Rightarrow> svc option" where
  "target_service sid obj st =
     (case find_session sid st of
        None \<Rightarrow> None
      | Some s \<Rightarrow>
          if is_domain s \<and> obj > 0
          then (case domain_objects s obj of Some p \<Rightarrow> Some p | None \<Rightarrow> service s)
          else service s)"

definition session_is_domain :: "u32 \<Rightarrow> ipc \<Rightarrow> bool" where
  "session_is_domain sid st \<longleftrightarrow> (case find_session sid st of Some s \<Rightarrow> is_domain s | None \<Rightarrow> False)"

text \<open>
  Lines 554 to 592: a handle in the first output word moves into the header, or becomes a domain
  object. The result: response, output size, domain objects returned, manager state.
\<close>

definition extract_handle ::
    "u32 \<Rightarrow> layout \<Rightarrow> u8 list \<Rightarrow> nat \<Rightarrow> ipc \<Rightarrow> ipc_error + (u8 list \<times> nat \<times> u32 list \<times> ipc)" where
  "extract_handle sid l resp out_max st =
     (let domn = session_is_domain sid st in
      if out_max \<ge> 4 \<and> (l_handle l \<noteq> None \<or> domn) then
        bind_sum (rd resp (l_pos l) 4) (\<lambda>bs.
          let h = of_le_bytes bs :: u32
          in if h = 0 then Inr (resp, out_max, [], st)
             else if h \<ge> 0xE0000000 then Inr (resp, 0, [], st)
             else if domn then
               (case (GetServiceBySession h st, find_session sid st) of
                  (Some p, Some ds) \<Rightarrow>
                    let obj = next_object_id ds
                    in Inr (resp, 0, [obj],
                        st\<lparr>sessions := upd_session sid (\<lambda>s. s\<lparr>next_object_id := obj + 1,
                             domain_objects := (domain_objects s)(obj \<mapsto> p)\<rparr>) (sessions st)\<rparr>)
                | _ \<Rightarrow> Inr (resp, out_max, [], st))
             else
               (case l_handle l of
                  None \<Rightarrow> Inr (resp, out_max, [], st)
                | Some hp \<Rightarrow> bind_sum (wr resp hp (le_bytes 4 h)) (\<lambda>r. Inr (r, 0, [], st))))
      else Inr (resp, out_max, [], st))"

text \<open>Lines 597 to 618: output data goes into the first receive-list buffer when there is one.\<close>

definition to_guest :: "memory \<Rightarrow> u64 \<Rightarrow> u64" where
  "to_guest m a = (if a \<ge> base_addr m \<and> a < base_addr m + ADDR_SPACE_SIZE then a - base_addr m else a)"

definition write_recv_list ::
    "(u64 \<times> u32) list \<Rightarrow> u8 list \<Rightarrow> nat \<Rightarrow> nat \<Rightarrow> memory option \<Rightarrow> ipc_error + (nat \<times> memory option)" where
  "write_recv_list entries resp raw_off out_max mem =
     (case (entries, mem) of
        ((addr, sz) # _, Some m) \<Rightarrow>
          if out_max > 0 then
            let n = min (unat (of_nat out_max :: u32)) (unat sz)
            in bind_sum (rd resp raw_off n) (\<lambda>bs. Inr (0, Some (store_loop try_write m (to_guest m addr) bs)))
          else Inr (out_max, mem)
      | _ \<Rightarrow> Inr (out_max, mem))"

definition cmif_out_header :: "u32 \<Rightarrow> u8 list" where
  "cmif_out_header token =
     le_bytes 4 CMIF_OUT_MAGIC @ le_bytes 4 (0 :: u32) @ le_bytes 4 (0 :: u32) @ le_bytes 4 token"

text \<open>
  Lines 620 to 677 and 683: the data moves behind the output header, domain header and objects are
  added, the headers are filled in. The result is the response and its size.
\<close>

definition build_response ::
    "layout \<Rightarrow> bool \<Rightarrow> u32 list \<Rightarrow> u32 \<Rightarrow> nat \<Rightarrow> u8 list \<Rightarrow> ipc_error + (u8 list \<times> nat)" where
  "build_response l dom_resp objs token out_max resp =
     (let raw_off = l_pos l;
          cmif_out_off = CalcCmifAlign raw_off;
          cmif_hdr_off = cmif_out_off + (if dom_resp then 16 else 0);
          cmif_out_end = cmif_hdr_off + 16;
          total_data_end = cmif_out_end + out_max + (if dom_resp then 4 * length objs else 0);
          ndw = (total_data_end - raw_off + 3) div 4
      in bind_sum (if out_max > 0 then bind_sum (rd resp raw_off out_max) (wr resp cmif_out_end) else Inr resp) (\<lambda>r1.
         bind_sum (if dom_resp then
                     bind_sum (wr r1 cmif_out_off (le_bytes 4 (of_nat (length objs) :: u32) @ replicate 12 0))
                       (\<lambda>r. wr r (cmif_out_end + out_max) (concat (map (le_bytes 4) objs)))
                   else Inr r1) (\<lambda>r2.
         bind_sum (wr r2 cmif_hdr_off (cmif_out_header token)) (\<lambda>r3.
         bind_sum (case l_shdr l of None \<Rightarrow> Inr r3 | Some p \<Rightarrow> wr r3 p (special_header (l_ncopy l) (l_nmove l))) (\<lambda>r4.
         bind_sum (wr r4 0 (response_header ndw (l_special l))) (\<lambda>r5.
           Inr (r5, raw_off + (total_data_end - raw_off))))))))"

text \<open>Lines 492 to 549: control commands are answered here, everything else goes to a service.\<close>

definition run_command ::
    "'w vtable \<Rightarrow> u32 \<Rightarrow> bool \<Rightarrow> request \<Rightarrow> layout \<Rightarrow> 'w sys \<Rightarrow> ipc_error + (bool \<times> u8 list \<times> nat \<times> 'w sys)" where
  "run_command vt sid control rq l s =
     (if control then
        (let (resp, n, st) = control_command sid (rq_cmd rq) (l_resp l) (l_pos l) (s_ipc s)
         in Inr (True, resp, n, s\<lparr>s_ipc := st\<rparr>))
      else
        case target_service sid (rq_object rq) (s_ipc s) of
          None \<Rightarrow> Inr (True, l_resp l, 0, s)
        | Some p \<Rightarrow>
            if p \<in> set (deleted (s_ipc s)) then Inl UseAfterFree
            else
              let out = drop (l_pos l) (l_resp l)
              in bind_sum (handle_command vt p (rq_cmd rq) (rq_in rq) (rq_in_size rq) out s)
                   (\<lambda>(ok, out', n, s'). Inr (ok, take (l_pos l) (l_resp l) @ take (length out) out', n, s')))"

text \<open>Lines 554 to 716: everything after the command has run.\<close>

definition finish_request ::
    "u32 \<Rightarrow> bool \<Rightarrow> request \<Rightarrow> (u64 \<times> u32) list \<Rightarrow> layout \<Rightarrow> bool \<times> u8 list \<times> nat \<times> 'w sys \<Rightarrow>
      ipc_error + (u32 \<times> u8 list \<times> nat \<times> 'w sys)" where
  "finish_request sid control rq recv l res =
     (case res of (ok, resp, n, s) \<Rightarrow>
        if ok then
          bind_sum (if control then Inr (resp, n, [], s_ipc s) else extract_handle sid l resp n (s_ipc s))
            (\<lambda>(r1, n1, objs, st).
          bind_sum (write_recv_list recv r1 (l_pos l) n1 (s_mem s)) (\<lambda>(n2, mem).
          bind_sum (build_response l (session_is_domain sid st \<and> \<not> control) objs (rq_token rq) n2 r1) (\<lambda>(r2, sz).
            Inr (0, r2, sz, s\<lparr>s_ipc := st, s_mem := mem\<rparr>))))
        else
          bind_sum (wr resp 0 (response_header 0 (l_special l))) (\<lambda>r. Inr (0, r, l_pos l, s)))"

definition HandleRequest ::
    "'w vtable \<Rightarrow> u32 \<Rightarrow> u8 list \<Rightarrow> u8 list \<Rightarrow> 'w sys \<Rightarrow> ipc_error + (u32 \<times> u8 list \<times> nat \<times> 'w sys)" where
  "HandleRequest vt sid data resp s =
     (case find_session sid (s_ipc s) of
        None \<Rightarrow> Inr (0xFFFF, resp, length resp, s)
      | Some ses \<Rightarrow>
          if length data < 8 then Inr (0xFFFF, resp, length resp, s)
          else
            let (hdr, dw_off) = request_header data in
            if h_type hdr = 2 then
              bind_sum (CloseSession sid (s_ipc s)) (\<lambda>st.
              bind_sum (wr resp 0 (replicate 8 0)) (\<lambda>r. Inr (0, r, 8, s\<lparr>s_ipc := st\<rparr>)))
            else
              bind_sum (ParseRecvList data hdr dw_off) (\<lambda>recv.
              bind_sum (parse_request data hdr dw_off (is_domain ses)) (\<lambda>rq.
                if length resp < 8 then Inr (0, resp, 0, s)
                else if service_name ses = [] then Inl EmptyName
                else
                  let sname = strip_colon (service_name ses); control = (h_type hdr = 5) in
                  bind_sum (handle_policy vt sname (rq_cmd rq) (service ses) (deleted (s_ipc s))) (\<lambda>(needs_move, needs_copy).
                    let l = reserve_handles sid sname (rq_cmd rq) needs_move needs_copy control (is_domain ses) resp
                    in if service ses = None then Inr (0, l_resp l, l_pos l, s)
                       else bind_sum (run_command vt sid control rq l s) (finish_request sid control rq recv l)))))"

section \<open>Session table\<close>

definition ipc_inv :: "ipc \<Rightarrow> bool" where
  "ipc_inv st \<longleftrightarrow> distinct (map sess_id (sessions st)) \<and> (\<forall>s \<in> set (sessions st). sess_id s < next_session st)
     \<and> 0x1000 \<le> next_session st"

text \<open>Room for \<open>n\<close> more sessions before the ids reach the reserved handle values.\<close>

definition ipc_room :: "nat \<Rightarrow> ipc \<Rightarrow> bool" where
  "ipc_room n st \<longleftrightarrow> unat (next_session st) + n < 0xE0000000"

lemma ipc_inv_init: "ipc_inv ipc_init"
  by (simp add: ipc_inv_def ipc_init_def)

lemma find_append: "find P (xs @ ys) = (case find P xs of Some x \<Rightarrow> Some x | None \<Rightarrow> find P ys)"
  by (induction xs) auto

lemma find_session_fresh: "ipc_inv st \<Longrightarrow> find_session (next_session st) st = None"
  by (auto simp: find_session_def find_None_iff ipc_inv_def)

lemma find_erase:
  "distinct (map sess_id ss) \<Longrightarrow>
    find (\<lambda>s. sess_id s = sid') (erase_session sid ss) =
      (if sid' = sid then None else find (\<lambda>s. sess_id s = sid') ss)"
  by (induction ss) (auto simp: find_None_iff image_iff)

lemma set_erase: "set (erase_session sid ss) \<subseteq> set ss"
  by (induction ss) auto

lemma distinct_erase: "distinct (map sess_id ss) \<Longrightarrow> distinct (map sess_id (erase_session sid ss))"
proof (induction ss)
  case (Cons a ss)
  then show ?case
    using set_erase [of sid ss] by auto
qed simp

lemma ids_upd_session [simp]:
  "(\<And>s. sess_id (f s) = sess_id s) \<Longrightarrow> map sess_id (upd_session sid f ss) = map sess_id ss"
  by (induction ss) auto

lemma ipc_inv_ids:
  "ipc_inv st \<longleftrightarrow> distinct (map sess_id (sessions st)) \<and> (\<forall>i \<in> set (map sess_id (sessions st)). i < next_session st)
     \<and> 0x1000 \<le> next_session st"
  by (simp add: ipc_inv_def)

lemma ipc_inv_erase: "ipc_inv st \<Longrightarrow> ipc_inv (st\<lparr>sessions := erase_session sid (sessions st)\<rparr>)"
  using set_erase [of sid "sessions st"] by (auto simp: ipc_inv_def distinct_erase)

lemma ipc_inv_deleted [simp]: "ipc_inv (st\<lparr>deleted := d\<rparr>) = ipc_inv st"
  by (simp add: ipc_inv_def)

lemma ipc_inv_push:
  assumes "ipc_inv st" and "next_session st \<le> next_session st + 1" and "sess_id s = next_session st"
  shows "ipc_inv (st\<lparr>next_session := next_session st + 1, sessions := sessions st @ [s]\<rparr>)"
proof -
  have "next_session st < next_session st + 1"
    using assms(2) by (simp add: order_le_less)
  then show ?thesis
    using assms by (auto simp: ipc_inv_def intro: less_trans order_trans)
qed

lemma CloseSession_inv: "ipc_inv st \<Longrightarrow> CloseSession sid st = Inr st' \<Longrightarrow> ipc_inv st'"
  by (auto simp: CloseSession_def ipc_inv_erase Let_def split: option.splits bool.splits if_splits)

text \<open>Sessions obey the same contract as kernel handles.\<close>

lemma next_session_Suc: "ipc_room n st \<Longrightarrow> unat (next_session st + 1) = unat (next_session st) + 1"
  by (simp add: ipc_room_def unat_word_ariths)

interpretation sess: handle_store "\<lambda>st p. CreateSession p st"
    "\<lambda>st sid. map_option service (find_session sid st)"
    "\<lambda>st sid. st\<lparr>sessions := erase_session sid (sessions st)\<rparr>" ipc_inv ipc_room
proof unfold_locales
  fix st p n
  show "map_option service (find_session (fst (CreateSession p st)) st) = None" if "ipc_inv st"
    using find_session_fresh [OF that] by (simp add: CreateSession_def Let_def)
  show "map_option service (find_session h (snd (CreateSession p st))) =
      (if h = fst (CreateSession p st) then Some p else map_option service (find_session h st))" if "ipc_inv st" for h
    using find_session_fresh [OF that]
    by (auto simp: CreateSession_def Let_def find_session_def find_append new_session_def split: option.splits)
  show "ipc_inv (snd (CreateSession p st))" if "ipc_inv st" "ipc_room n st"
    using that next_session_Suc [OF that(2)]
    by (auto simp: CreateSession_def Let_def new_session_def word_le_nat_alt intro!: ipc_inv_push)
  show "ipc_room n (snd (CreateSession p st))" if "ipc_room (Suc n) st"
    using that next_session_Suc [OF that] by (simp add: CreateSession_def Let_def ipc_room_def)
  show "fst (CreateSession p st) \<noteq> 0 \<and> fst (CreateSession p st) < 0xE0000000" if "ipc_inv st" "ipc_room n st"
    using that by (auto simp: CreateSession_def Let_def ipc_inv_def ipc_room_def word_less_nat_alt word_le_nat_alt)
  show "map_option service (find_session h' (st\<lparr>sessions := erase_session h (sessions st)\<rparr>)) =
      (if h' = h then None else map_option service (find_session h' st))" if "ipc_inv st" for h h'
    using that by (simp add: find_session_def ipc_inv_def find_erase)
qed (rule ipc_inv_erase)

section \<open>Buffers\<close>

lemma rd_ok [simp]: "off + n \<le> length buf \<Longrightarrow> rd buf off n = Inr (get_bytes buf off n)"
  by (simp add: rd_def)

lemma wr_ok [simp]: "off + length bs \<le> length buf \<Longrightarrow> wr buf off bs = Inr (put_bytes buf off bs)"
  by (simp add: wr_def)

lemma length_response_header [simp]: "length (response_header n b) = 8"
  by (simp add: response_header_def)

lemma length_special_header [simp]: "length (special_header c m) = 4"
  by (simp add: special_header_def)

lemma length_cmif_out_header [simp]: "length (cmif_out_header t) = 16"
  by (simp add: cmif_out_header_def)

lemma length_get_bytes [simp]: "off + n \<le> length buf \<Longrightarrow> length (get_bytes buf off n) = n"
  by (simp add: get_bytes_def)

lemma CalcCmifAlign_bounds: "n \<le> CalcCmifAlign n" "CalcCmifAlign n < n + 16" "16 dvd CalcCmifAlign n"
  using round_up_nat_bounds [of 16 n] by (simp_all add: CalcCmifAlign_def)

text \<open>How many bytes the receive list reads, and that it reads nothing else.\<close>

lemma recv_entries_ok: "(\<exists>es. recv_entries data off n = Inr es) \<longleftrightarrow> n = 0 \<or> off + 8 * n \<le> length data"
proof (induction n arbitrary: off)
  case (Suc n)
  show ?case
  proof (cases "off + 8 \<le> length data")
    case True
    have "(\<exists>es. recv_entries data off (Suc n) = Inr es) \<longleftrightarrow> (\<exists>es. recv_entries data (off + 8) n = Inr es)"
      using True by (cases "recv_entries data (off + 8) n") (auto simp: Let_def)
    then show ?thesis
      using Suc.IH [of "off + 8"] True by auto
  next
    case False
    then show ?thesis by (simp add: rd_def)
  qed
qed simp

section \<open>The response as the client reads it\<close>

lemma get_bytes_append [simp]:
  "get_bytes (xs @ ys) 0 n = (if n \<le> length xs then take n xs else xs @ take (n - length xs) ys)"
  by (simp add: get_bytes_def)

lemma get_put_within:
  assumes "off \<le> j" and "j + n \<le> off + length bs" and "off + length bs \<le> length buf"
  shows "get_bytes (put_bytes buf off bs) j n = get_bytes bs (j - off) n"
  using assms by (auto simp: get_bytes_def put_bytes_def take_drop drop_append)

lemma Bit_iff: "Bit (w::'a::len word) b \<longleftrightarrow> bit w b"
  by (simp add: Bit_def and_one_eq odd_iff_mod_2_eq_one bit_iff_odd_drop_bit)

lemma word_at_put:
  assumes "off + 4 \<le> length buf"
  shows "word_at (put_bytes buf off (le_bytes 4 w)) off = w"
  using assms by (simp add: word_at_def)

text \<open>The two layouts that occur: no handle, or a special header with one handle at offset 12.\<close>

definition layout_ok :: "layout \<Rightarrow> bool" where
  "layout_ok l \<longleftrightarrow>
     (l_pos l = 8 \<and> l_shdr l = None \<and> \<not> l_special l) \<or>
     (l_pos l = 16 \<and> l_shdr l = Some 8 \<and> l_special l \<and>
       (l_ncopy l = 0 \<and> l_nmove l = 1 \<or> l_ncopy l = 1 \<and> l_nmove l = 0))"

lemma reserve_handles_layout:
  assumes "\<not> (sname = ''sm'' \<and> cmd = 0 \<and> needs_move)"
  shows "layout_ok (reserve_handles sid sname cmd needs_move needs_copy control domn resp)"
  using assms by (auto simp: reserve_handles_def layout_ok_def Let_def)

lemma align_layout: "layout_ok l \<Longrightarrow> CalcCmifAlign (l_pos l) = 16"
  by (auto simp: layout_ok_def CalcCmifAlign_def)

text \<open>The final buffer, written as the sequence of stores that produced it.\<close>

definition response_bytes :: "layout \<Rightarrow> u32 \<Rightarrow> nat \<Rightarrow> u8 list \<Rightarrow> u8 list" where
  "response_bytes l token n resp =
     (let r1 = (if n > 0 then put_bytes resp 32 (get_bytes resp (l_pos l) n) else resp);
          r3 = put_bytes r1 16 (cmif_out_header token);
          r4 = (if l_shdr l = None then r3 else put_bytes r3 8 (special_header (l_ncopy l) (l_nmove l)))
      in put_bytes r4 0 (response_header ((32 + n - l_pos l + 3) div 4) (l_special l)))"

lemma build_response_plain:
  assumes "layout_ok l" and "32 + n \<le> length resp"
  shows "build_response l False objs token n resp = Inr (response_bytes l token n resp, 32 + n)"
  using assms
  by (auto simp: build_response_def response_bytes_def align_layout Let_def layout_ok_def)

lemma response_bytes_length:
  assumes "layout_ok l" and "32 + n \<le> length resp"
  shows "length (response_bytes l token n resp) = length resp"
  using assms by (auto simp: response_bytes_def Let_def layout_ok_def)

lemma get_bytes_0 [simp]: "get_bytes buf off 0 = []"
  by (simp add: get_bytes_def)

lemma response_bytes_header:
  "get_bytes (response_bytes l token n resp) 0 8 =
    response_header ((32 + n - l_pos l + 3) div 4) (l_special l)"
  unfolding response_bytes_def Let_def by (rule get_put_bytes_same) simp_all

lemma response_bytes_cmif:
  assumes "layout_ok l" and "32 + n \<le> length resp"
  shows "get_bytes (response_bytes l token n resp) 16 16 = cmif_out_header token"
  using assms by (auto simp: response_bytes_def Let_def layout_ok_def)

lemma response_bytes_data:
  assumes "layout_ok l" and "32 + n \<le> length resp"
  shows "get_bytes (response_bytes l token n resp) 32 n = get_bytes resp (l_pos l) n"
  using assms by (auto simp: response_bytes_def Let_def layout_ok_def)

lemma response_bytes_handle:
  assumes "layout_ok l" and "32 + n \<le> length resp" and "l_special l"
  shows "get_bytes (response_bytes l token n resp) 8 4 = special_header (l_ncopy l) (l_nmove l)"
    and "get_bytes (response_bytes l token n resp) 12 4 = get_bytes resp 12 4"
  using assms by (auto simp: response_bytes_def Let_def layout_ok_def)

text \<open>Reading a word of a sub-range.\<close>

lemma word_at_sub:
  assumes "get_bytes buf off k = bs" and "off \<le> j" and "j + 4 \<le> off + k"
  shows "word_at buf j = word_at bs (j - off)"
  using assms by (auto simp: word_at_def get_bytes_def drop_take min_def)

lemma word_at_append:
  "word_at (le_bytes 4 w @ bs) 0 = w"
  "4 \<le> j \<Longrightarrow> word_at (le_bytes 4 (v::u32) @ bs) j = word_at bs (j - 4)"
  by (simp_all add: word_at_def get_bytes_def)

lemma word_at_last: "word_at (le_bytes 4 w) 0 = w"
  by (simp add: word_at_def get_bytes_def)

lemma response_header_words:
  "word_at (response_header n b) 0 = 0"
  "word_at (response_header n b) 4 = (of_nat n AND 0x3FF) OR (if b then push_bit 31 1 else 0)"
  by (simp_all add: response_header_def word_at_append word_at_last)

lemma response_words:
  fixes token :: u32
  assumes "layout_ok l" and "32 + n \<le> length resp"
  defines "r \<equiv> response_bytes l token n resp"
  shows "word_at r 0 = 0" and "has_special_header (parse_header r) = l_special l"
    and "word_at r 16 = CMIF_OUT_MAGIC" and "word_at r 24 = 0" and "word_at r 28 = token"
proof -
  note h = word_at_sub [OF response_bytes_header [of l token n resp], folded r_def]
  show "word_at r 0 = 0"
    using h [of 0] by (simp add: response_header_words)
  show "has_special_header (parse_header r) = l_special l"
    using h [of 4] by (simp add: parse_header_def Let_def response_header_words Bit_iff bit_simps)
  note c = word_at_sub [OF response_bytes_cmif [OF assms(1,2), of token], folded r_def]
  show "word_at r 16 = CMIF_OUT_MAGIC" "word_at r 24 = 0" "word_at r 28 = token"
    using c [of 16] c [of 24] c [of 28] by (simp_all add: cmif_out_header_def word_at_append word_at_last)
qed

lemma parse_header_zero_word:
  "word_at r 0 = 0 \<Longrightarrow> num_send_statics (parse_header r) = 0 \<and> num_send_buffers (parse_header r) = 0 \<and>
    num_recv_buffers (parse_header r) = 0 \<and> num_exch_buffers (parse_header r) = 0"
  by (simp add: parse_header_def Bits_def Let_def)

lemma response_data_offset:
  assumes "layout_ok l" and "32 + n \<le> length resp"
  shows "CalcDataWordsOffset (response_bytes l token n resp) = l_pos l"
proof -
  let ?r = "response_bytes l token n resp"
  have len: "length ?r = length resp"
    by (rule response_bytes_length [OF assms])
  have special: "has_special_header (parse_header ?r) = l_special l"
    by (rule response_words(2) [OF assms])
  note z = parse_header_zero_word [OF response_words(1) [OF assms, of token]]
  show ?thesis
  proof (cases "l_special l")
    case False
    then show ?thesis
      using assms len special z by (auto simp: CalcDataWordsOffset_def Let_def layout_ok_def)
  next
    case True
    have sh: "word_at ?r 8 = word_at (special_header (l_ncopy l) (l_nmove l)) 0"
      using word_at_sub [OF response_bytes_handle(1) [OF assms True], of 8] by simp
    show ?thesis
      using assms len special z True sh
      by (auto simp: CalcDataWordsOffset_def Let_def layout_ok_def special_header_def word_at_last
          Bit_def Bits_def)
  qed
qed

section \<open>The contract with the services\<close>

text \<open>Steps of the manager itself: session ids and the id counter do not change.\<close>

definition same_ids :: "ipc \<Rightarrow> ipc \<Rightarrow> bool" where
  "same_ids st st' \<longleftrightarrow> map sess_id (sessions st') = map sess_id (sessions st) \<and> next_session st' = next_session st"

lemma same_ids_inv: "same_ids st st' \<Longrightarrow> ipc_inv st \<Longrightarrow> ipc_inv st'"
  by (simp add: same_ids_def ipc_inv_ids)

lemma control_command_ids: "control_command sid cmd resp off st = (r, n, st') \<Longrightarrow> same_ids st st'"
  by (auto simp: control_command_def same_ids_def Let_def split: if_splits)

lemma control_command_inv: "control_command sid cmd resp off st = (r, n, st') \<Longrightarrow> ipc_inv st \<Longrightarrow> ipc_inv st'"
  using same_ids_inv control_command_ids by blast

lemma extract_handle_ids: "extract_handle sid l resp n st = Inr (r, m, objs, st') \<Longrightarrow> same_ids st st'"
  by (auto simp: extract_handle_def same_ids_def Let_def bind_sum_Inr split: if_splits option.splits)

lemma extract_handle_length: "extract_handle sid l resp n st = Inr (r, m, objs, st') \<Longrightarrow> length r = length resp"
  by (auto simp: extract_handle_def Let_def bind_sum_Inr wr_def split: if_splits option.splits)

lemma CloseSession_next: "CloseSession sid st = Inr st' \<Longrightarrow> next_session st' = next_session st"
  by (auto simp: CloseSession_def Let_def split: option.splits bool.splits if_splits)

text \<open>
  The joint invariant of the manager and the handle table, and the condition that neither of the two
  32-bit counters wrapped around between two states.
\<close>

definition sys_inv :: "'w sys \<Rightarrow> bool" where
  "sys_inv s \<longleftrightarrow> ipc_inv (s_ipc s) \<and> ht_inv (s_handles s)"

definition no_wrap :: "'w sys \<Rightarrow> 'w sys \<Rightarrow> bool" where
  "no_wrap s s' \<longleftrightarrow> next_session (s_ipc s) \<le> next_session (s_ipc s')
     \<and> next_index (s_handles s) \<le> next_index (s_handles s')"

locale service_contract =
  fixes vt :: "'w vtable"
  assumes keeps_inv: "sys_inv s \<Longrightarrow> handle_command vt p cmd inp isz out s = Inr (ok, out', n, s') \<Longrightarrow>
      no_wrap s s' \<Longrightarrow> sys_inv s'"
    and keeps_size: "handle_command vt p cmd inp isz out s = Inr (ok, out', n, s') \<Longrightarrow> length out' = length out"
begin

lemma run_command_inv:
  assumes "sys_inv s" and "run_command vt sid control rq l s = Inr (ok, r, n, s')" and "no_wrap s s'"
  shows "sys_inv s'"
proof (cases control)
  case True
  then show ?thesis
    using assms(1,2)
    by (auto simp: run_command_def sys_inv_def split: prod.splits dest: control_command_inv)
next
  case False
  then show ?thesis
    using assms keeps_inv [of s]
    by (auto simp: run_command_def Let_def bind_sum_Inr split: option.splits if_splits prod.splits)
qed

lemma finish_request_ids:
  assumes "finish_request sid control rq recv l (ok, r, n, s) = Inr (res, r', m, s')"
  shows "same_ids (s_ipc s) (s_ipc s') \<and> s_handles s' = s_handles s"
  using assms extract_handle_ids
  by (cases control)
    (auto simp: finish_request_def bind_sum_Inr same_ids_def split: if_splits)

lemma HandleRequest_inv:
  assumes "sys_inv s" and "HandleRequest vt sid data resp s = Inr (res, r, n, s')" and "no_wrap s s'"
  shows "sys_inv s'"
proof (cases "s' = s \<or> (\<exists>st. CloseSession sid (s_ipc s) = Inr st \<and> s' = s\<lparr>s_ipc := st\<rparr>)")
  case True
  then show ?thesis
    using assms(1) CloseSession_inv by (auto simp: sys_inv_def)
next
  case False
  then obtain control rq l ok r1 n1 s1 recv where
    run: "run_command vt sid control rq l s = Inr (ok, r1, n1, s1)"
    and fin: "finish_request sid control rq recv l (ok, r1, n1, s1) = Inr (res, r, n, s')"
    using assms(2)
    by (auto simp: HandleRequest_def Let_def bind_sum_Inr split_beta split: option.splits if_splits)
  note ids = finish_request_ids [OF fin]
  then have "no_wrap s s1"
    using assms(3) by (simp add: no_wrap_def same_ids_def)
  then have "sys_inv s1"
    by (rule run_command_inv [OF assms(1) run])
  then show ?thesis
    using ids same_ids_inv by (auto simp: sys_inv_def)
qed

end

section \<open>Properties\<close>

text \<open>
  Property C3: a response to an ordinary request in a buffer that is large enough is what the client
  side of the protocol expects: applying the same header parser to it finds the data words right
  behind the header (and the handle), the output header at the 16-byte aligned position carries the
  magic, result 0 and the token of the request, and behind it stand exactly the bytes the service
  produced, at their full length; the handle word is untouched.
\<close>

theorem response_readable:
  assumes "layout_ok l" and "32 + n \<le> length resp"
  shows "\<exists>r. build_response l False objs token n resp = Inr (r, 32 + n)
    \<and> length r = length resp \<and> CalcDataWordsOffset r = l_pos l
    \<and> (let c = CalcCmifAlign (CalcDataWordsOffset r)
       in word_at r c = CMIF_OUT_MAGIC \<and> word_at r (c + 8) = 0 \<and> word_at r (c + 12) = token
          \<and> get_bytes r (c + 16) n = get_bytes resp (l_pos l) n)
    \<and> (l_special l \<longrightarrow> get_bytes r 12 4 = get_bytes resp 12 4)"
proof (intro exI conjI)
  let ?r = "response_bytes l token n resp"
  show "build_response l False objs token n resp = Inr (?r, 32 + n)"
    by (rule build_response_plain [OF assms])
  show "length ?r = length resp"
    by (rule response_bytes_length [OF assms])
  show off: "CalcDataWordsOffset ?r = l_pos l"
    by (rule response_data_offset [OF assms])
  show "let c = CalcCmifAlign (CalcDataWordsOffset ?r)
       in word_at ?r c = CMIF_OUT_MAGIC \<and> word_at ?r (c + 8) = 0 \<and> word_at ?r (c + 12) = token
          \<and> get_bytes ?r (c + 16) n = get_bytes resp (l_pos l) n"
    using response_words(3-5) [OF assms, of token] response_bytes_data [OF assms, of token]
    by (simp add: off align_layout [OF assms(1)] Let_def)
  show "l_special l \<longrightarrow> get_bytes ?r 12 4 = get_bytes resp 12 4"
    using response_bytes_handle(2) [OF assms] by blast
qed

theorem response_readable_witness:
  "\<exists>r. build_response (reserve_handles 0x1000 ''time'' 1 False False False False (replicate 256 7)) False [] 99 8
     (replicate 256 7) = Inr (r, 40)"
proof -
  have "layout_ok (reserve_handles 0x1000 ''time'' 1 False False False False (replicate 256 7))"
    by (rule reserve_handles_layout) simp
  from response_readable [OF this, of 8 "replicate 256 7" "[]" 99] show ?thesis
    by auto
qed

text \<open>
  The response builder has no bounds check. A service may use the whole output buffer
  it is given (its size is passed in), but the output header is inserted in front of the data: in the
  256-byte buffer of the system call, any plain answer of more than 224 bytes is written past the end.
\<close>

theorem response_overflow:
  assumes "l_pos l = 8" and "l_handle l = None" and "length resp = 256"
    and "\<not> session_is_domain sid (s_ipc s)" and "224 < n" and "n \<le> 248"
  shows "finish_request sid False rq [] l (True, resp, n, s) = Inl OobWrite"
proof -
  have "extract_handle sid l resp n (s_ipc s) = Inr (resp, n, [], s_ipc s)"
    using assms by (simp add: extract_handle_def Let_def)
  moreover have "CalcCmifAlign 8 = 16"
    by (simp add: CalcCmifAlign_def)
  ultimately show ?thesis
    using assms by (simp add: finish_request_def write_recv_list_def build_response_def Let_def wr_def)
qed

theorem response_overflow_witness:
  "finish_request 0x1000 False \<lparr>rq_cmd = 0, rq_token = 0, rq_in = [], rq_in_size = 0, rq_object = 0\<rparr> []
     (reserve_handles 0x1000 ''fsp-srv'' 0 False False False False (replicate 256 0))
     (True, replicate 256 0, 248, \<lparr>s_ipc = ipc_init, s_mem = None, s_handles = handle_table_init, s_ext = ()\<rparr>) = Inl OobWrite"
  by (rule response_overflow)
    (simp_all add: reserve_handles_def session_is_domain_def find_session_def ipc_init_def Let_def)

text \<open>
  The receive list is read inside the request buffer exactly when the whole list, at the
  offset the client chose, fits into it. Nothing else is checked: the offset field reaches 8188 bytes,
  the buffer of the system call has 256.
\<close>

theorem recv_list_bounds:
  "(\<exists>es. ParseRecvList data hdr dw_off = Inr es) \<longleftrightarrow>
    recv_static_mode hdr = 0 \<or> recv_static_mode hdr = 1 \<or>
    (if recv_list_offset hdr > 0 then unat (recv_list_offset hdr) * 4 else dw_off + unat (num_data_words hdr) * 4)
      + 8 * min (if recv_static_mode hdr = 2 then 8 else unat (recv_static_mode hdr) - 2) 8 \<le> length data"
proof -
  have small: "recv_static_mode hdr = 0 \<or> recv_static_mode hdr = 1 \<or> recv_static_mode hdr = 2 \<or> recv_static_mode hdr > 2"
  proof -
    have "unat w = 0 \<or> unat w = 1 \<or> unat w = 2 \<or> unat w > 2" for w :: u32
      by linarith
    then show ?thesis
      by (auto simp: word_less_nat_alt word_unat_eq_iff)
  qed
  have big: "unat w - 2 \<noteq> 0" if "w > 2" for w :: u32
    using that by (simp add: word_less_nat_alt)
  show ?thesis
    using small big [of "recv_static_mode hdr"] recv_entries_ok
    by (auto simp: ParseRecvList_def Let_def)
qed

text \<open>
  In domain mode the input handed to the service is not the payload. The input pointer
  is computed without skipping the 16-byte domain header, so the service receives the command header
  itself (its first word is the magic) in front of the payload; outside domain mode the input starts
  behind the command header.
\<close>

theorem domain_input_starts_at_header:
  assumes "parse_request data hdr dw_off True = Inr rq" and "0 < rq_in_size rq"
  shows "word_at (rq_in rq) 0 = CMIF_IN_MAGIC \<and> rq_in rq = drop (CalcCmifAlign dw_off + 16) data"
proof -
  let ?c = "CalcCmifAlign dw_off + 16"
  obtain bs where bs: "rd data ?c 16 = Inr bs" and magic: "word_at bs 0 = CMIF_IN_MAGIC"
    and inp: "rq_in rq = drop ?c data"
    using assms by (auto simp: parse_request_def Let_def bind_sum_Inr split: if_splits)
  have "bs = get_bytes data ?c 16"
    using bs by (simp add: rd_def split: if_splits)
  then have "word_at (drop ?c data) 0 = word_at bs 0"
    by (simp add: word_at_def get_bytes_def)
  with magic inp show ?thesis by simp
qed

theorem domain_input_starts_at_header_witness:
  "let data = replicate 16 0 @ (replicate 16 0 @ le_bytes 4 CMIF_IN_MAGIC @ replicate 60 0);
       hdr = zero_header\<lparr>num_data_words := 20\<rparr>
   in \<exists>rq. parse_request data hdr 16 True = Inr rq \<and> word_at (rq_in rq) 0 = CMIF_IN_MAGIC"
proof -
  let ?data = "replicate 16 0 @ (replicate 16 0 @ le_bytes 4 CMIF_IN_MAGIC @ replicate 60 0)"
  let ?hdr = "zero_header\<lparr>num_data_words := 20\<rparr>"
  have "word_at (get_bytes ?data 32 16) 0 = CMIF_IN_MAGIC"
    by (simp add: word_at_def get_bytes_def)
  then obtain rq where rq: "parse_request ?data ?hdr 16 True = Inr rq" "0 < rq_in_size rq"
    by (simp add: parse_request_def CalcCmifAlign_def Let_def)
  from domain_input_starts_at_header [OF this] rq(1) show ?thesis
    by (auto simp: Let_def)
qed

end
