(* ===== verification/Services.thy ===== *)
theory Services
  imports Ipc
begin

text \<open>
  Concrete services on top of the IPC manager: the service manager
  (\<^verbatim>\<open>src/src/services/Sm.cpp\<close>) and the settings, performance and time services
  (\<^verbatim>\<open>src/src/services/Set.cpp\<close>).

  Each static service object has a number; \<open>builtin\<close> is the virtual method table of these objects and
  falls back to a table \<open>others\<close> for every other object. The \<open>Service*_Init\<close> functions of other files
  that \<open>EnsureService\<close> runs on first use are the argument \<open>init\<close>; those of
  \<^verbatim>\<open>Set.cpp\<close> are modelled. The static flags of \<open>EnsureService\<close> and the host clock are part of the
  services' own state.
\<close>

section \<open>Objects and state\<close>

definition g_sm_service :: svc where "g_sm_service = 0"
definition g_set_service :: svc where "g_set_service = 1"
definition g_setsys_service :: svc where "g_setsys_service = 2"
definition g_apm_service :: svc where "g_apm_service = 3"
definition g_apm_sub :: svc where "g_apm_sub = 4"
definition g_time_service :: svc where "g_time_service = 5"

lemmas service_ids = g_sm_service_def g_set_service_def g_setsys_service_def g_apm_service_def
  g_apm_sub_def g_time_service_def

datatype init_group = GVi | GNv | GFs | GHid | GSet | GApm | GTime | GAudio | GAm | GNs | GLdr | GSpl | GAcc | GPcv

record 'x svc_world =
  inited :: "init_group list"
  clock_seconds :: u64
  other :: 'x

text \<open>What the static constructors register (\<open>apm:\<close> is not among it).\<close>

definition static_init :: ipc where
  "static_init =
     RegisterService ''time:u'' (Some g_time_service) (RegisterService ''time:a'' (Some g_time_service)
     (RegisterService ''time:'' (Some g_time_service) (RegisterService ''set:sys'' (Some g_setsys_service)
     (RegisterService ''set:'' (Some g_set_service) (RegisterService ''sm:m:'' (Some g_sm_service)
     (RegisterService ''sm:'' (Some g_sm_service) ipc_init))))))"

section \<open>The service manager\<close>

definition init_group_of :: "string \<Rightarrow> init_group option" where
  "init_group_of n =
     (if n \<in> {''vi:'', ''vi:m'', ''vi:u''} then Some GVi
      else if n \<in> {''nvdrv:'', ''nvdrv#'', ''nvmap:'', ''nvhost-ctrl:''} then Some GNv
      else if n \<in> {''fsp-srv:'', ''fs:''} then Some GFs
      else if n = ''hid:'' then Some GHid
      else if n \<in> {''set:'', ''set:sys''} then Some GSet
      else if n \<in> {''apm:'', ''apm:sys''} then Some GApm
      else if n \<in> {''time:'', ''time:a'', ''time:u''} then Some GTime
      else if n \<in> {''audout:'', ''audren:''} then Some GAudio
      else if n \<in> {''appletOE:'', ''appletAE:'', ''applet''} then Some GAm
      else if n \<in> {''ns:'', ''ns:dev'', ''ns:am2''} then Some GNs
      else if n \<in> {''ldr:'', ''ldr:pm''} then Some GLdr
      else if n \<in> {''spl:'', ''spl:mig'', ''spl:fs''} then Some GSpl
      else if n \<in> {''acc:u0'', ''acc:u1'', ''acc:su''} then Some GAcc
      else if n = ''pcv:'' then Some GPcv
      else None)"

text \<open>The initialisers: \<open>ServiceSet_Init\<close> registers \<open>apm:\<close>; the ones for APM and time only log.\<close>

definition run_init :: "(init_group \<Rightarrow> 'x svc_world sys \<Rightarrow> 'x svc_world sys) \<Rightarrow> init_group \<Rightarrow>
    'x svc_world sys \<Rightarrow> 'x svc_world sys" where
  "run_init init g s =
     (if g = GSet then s\<lparr>s_ipc := RegisterService ''apm:'' (Some g_apm_service) (s_ipc s)\<rparr>
      else if g = GApm \<or> g = GTime then s
      else init g s)"

definition EnsureService :: "(init_group \<Rightarrow> 'x svc_world sys \<Rightarrow> 'x svc_world sys) \<Rightarrow> string \<Rightarrow>
    'x svc_world sys \<Rightarrow> 'x svc_world sys" where
  "EnsureService init name s =
     (case init_group_of name of
        None \<Rightarrow> s
      | Some g \<Rightarrow>
          if g \<in> set (inited (s_ext s)) then s
          else run_init init g (s\<lparr>s_ext := (s_ext s)\<lparr>inited := g # inited (s_ext s)\<rparr>\<rparr>))"

definition unprintable :: "u8 \<Rightarrow> bool" where
  "unprintable b \<longleftrightarrow> b < 0x20 \<or> b > 0x7E"

definition to_string :: "u8 list \<Rightarrow> string" where
  "to_string bs = map (\<lambda>b. char_of (unat b)) bs"

text \<open>The bytes up to the first zero, without trailing unprintable ones.\<close>

definition clean_name :: "u8 list \<Rightarrow> u8 list" where
  "clean_name bs = rev (dropWhile unprintable (rev (takeWhile (\<lambda>b. b \<noteq> 0) bs)))"

definition HandleGetService where
  "HandleGetService init inp in_sz out s =
     (if in_sz < 1 then Inr (False, out, length out, s)
      else if length inp < in_sz \<and> 0 \<notin> set inp then Inl OobRead
      else
        let name = to_string (clean_name (take in_sz inp));
            s1 = EnsureService init name s;
            (session, st) = Connect name (s_ipc s1);
            s2 = s1\<lparr>s_ipc := st\<rparr>
        in if length out \<ge> 8
           then Inr (True, put_bytes out 0 (le_bytes 4 session @ replicate 4 0), 8, s2)
           else Inr (True, out, length out, s2))"

definition sm_HandleCommand where
  "sm_HandleCommand init cmd inp in_sz out s =
     (if cmd = (0 :: u32) then Inr (True, out, 0, s)
      else if cmd = 1 then HandleGetService init inp in_sz out s
      else if cmd = 3 then Inr (True, out, 0, s)
      else Inr (False, out, length out, s))"

section \<open>Settings, performance, time\<close>

text \<open>The common answer: \<open>bs\<close> if it fits, the buffer untouched (and its full size reported) if not.\<close>

definition answer where
  "answer bs out s =
     (if length out \<ge> length bs then Inr (True, put_bytes out 0 bs, length bs, s)
      else Inr (True, out, length out, s))"

definition GetLangCodeEnUs :: u64 where "GetLangCodeEnUs = 0x00000053552D6E65"

definition set_HandleStd where
  "set_HandleStd cmd out s =
     (if cmd = (0 :: u32) then answer (le_bytes 8 GetLangCodeEnUs) out s
      else if cmd = 4 then answer (le_bytes 4 (1 :: u32)) out s
      else Inr (True, out, 0, s))"

definition chars :: "nat \<Rightarrow> string \<Rightarrow> u8 list" where
  "chars n str = take n (map (\<lambda>c. of_nat (of_char c)) str @ replicate n 0)"

definition firmware_version :: "u8 list" where
  "firmware_version =
     [15, 0, 0, 0, 0, 0, 0, 0] @ chars 0x10 ''NX'' @ replicate 0x10 0 @ chars 0x18 ''15.0.0''
     @ chars 0x40 ''NintendoSDK Firmware for NX 15.0.0''"

definition set_HandleSys where
  "set_HandleSys cmd out s =
     (if cmd = (3 :: u32) \<or> cmd = 4 then answer firmware_version out s else Inr (True, out, 0, s))"

definition apm_HandleMainSession where
  "apm_HandleMainSession cmd out s =
     (if cmd = (0 :: u32) then
        (if length out \<ge> 4 then
           let (sub, st) = CreateSession (Some g_apm_sub) (s_ipc s)
           in Inr (True, put_bytes out 0 (le_bytes 4 sub), 4, s\<lparr>s_ipc := st\<rparr>)
         else Inr (True, out, length out, s))
      else Inr (True, out, 0, s))"

definition apm_HandleSubSession where
  "apm_HandleSubSession cmd out s =
     (if cmd = (0 :: u32) then answer (le_bytes 4 (0 :: u32)) out s else Inr (True, out, 0, s))"

definition time_HandleCommand where
  "time_HandleCommand cmd out s =
     (if cmd = (1 :: u32) \<or> cmd = 2 then answer (le_bytes 8 (clock_seconds (s_ext s) * 1000000000)) out s
      else Inr (True, out, 0, s))"

definition builtin :: "'x svc_world vtable \<Rightarrow> (init_group \<Rightarrow> 'x svc_world sys \<Rightarrow> 'x svc_world sys) \<Rightarrow>
    'x svc_world vtable" where
  "builtin others init =
     \<lparr>svc_name = (\<lambda>p. if p = g_sm_service then ''sm:'' else if p = g_set_service then ''set:''
         else if p = g_setsys_service then ''set:sys'' else if p = g_apm_service \<or> p = g_apm_sub then ''apm:''
         else if p = g_time_service then ''time:'' else svc_name others p),
      handle_command = (\<lambda>p cmd inp in_sz out s.
         if p = g_sm_service then sm_HandleCommand init cmd inp in_sz out s
         else if p = g_set_service then set_HandleStd cmd out s
         else if p = g_setsys_service then set_HandleSys cmd out s
         else if p = g_apm_service then apm_HandleMainSession cmd out s
         else if p = g_apm_sub then apm_HandleSubSession cmd out s
         else if p = g_time_service then time_HandleCommand cmd out s
         else handle_command others p cmd inp in_sz out s)\<rparr>"

section \<open>The services keep the contract of the manager\<close>

lemma answer_cases:
  "answer bs out s = Inr (ok, out', n, s') \<Longrightarrow> s' = s \<and> ok \<and> length out' = length out \<and> n \<le> length out"
  by (auto simp: answer_def split: if_splits)

lemma simple_services:
  "set_HandleStd cmd out s = Inr (ok, out', n, s') \<Longrightarrow> s' = s \<and> length out' = length out"
  "set_HandleSys cmd out s = Inr (ok, out', n, s') \<Longrightarrow> s' = s \<and> length out' = length out"
  "apm_HandleSubSession cmd out s = Inr (ok, out', n, s') \<Longrightarrow> s' = s \<and> length out' = length out"
  "time_HandleCommand cmd out s = Inr (ok, out', n, s') \<Longrightarrow> s' = s \<and> length out' = length out"
  by (auto simp: set_HandleStd_def set_HandleSys_def apm_HandleSubSession_def time_HandleCommand_def
      split: if_splits dest: answer_cases)

lemma Connect_inv:
  "ipc_inv st \<Longrightarrow> next_session st \<le> next_session st + 1 \<Longrightarrow> ipc_inv (snd (Connect name st))"
  by (auto simp: Connect_def Let_def new_session_def intro: ipc_inv_push)

lemma CreateSession_inv:
  "ipc_inv st \<Longrightarrow> next_session st \<le> next_session st + 1 \<Longrightarrow> ipc_inv (snd (CreateSession p st))"
  by (auto simp: CreateSession_def Let_def new_session_def intro: ipc_inv_push)

lemma RegisterService_inv [simp]: "ipc_inv (RegisterService n p st) = ipc_inv st"
  by (simp add: RegisterService_def ipc_inv_def)

lemma apm_main_contract:
  assumes "apm_HandleMainSession cmd out s = Inr (ok, out', n, s')"
  shows "length out' = length out"
    and "sys_inv s \<Longrightarrow> no_wrap s s' \<Longrightarrow> sys_inv s'"
  using assms CreateSession_inv [of "s_ipc s" "Some g_apm_sub"]
  by (auto simp: apm_HandleMainSession_def CreateSession_def sys_inv_def no_wrap_def Let_def split: if_splits)

text \<open>What an initialiser may do: register services, but not touch the session table.\<close>

definition init_ok :: "(init_group \<Rightarrow> 'x svc_world sys \<Rightarrow> 'x svc_world sys) \<Rightarrow> bool" where
  "init_ok init \<longleftrightarrow> (\<forall>g s. sessions (s_ipc (init g s)) = sessions (s_ipc s)
     \<and> next_session (s_ipc (init g s)) = next_session (s_ipc s) \<and> s_handles (init g s) = s_handles s)"

lemma EnsureService_sessions:
  assumes "init_ok init"
  shows "sessions (s_ipc (EnsureService init n s)) = sessions (s_ipc s)
    \<and> next_session (s_ipc (EnsureService init n s)) = next_session (s_ipc s)
    \<and> s_handles (EnsureService init n s) = s_handles s"
  using assms by (auto simp: EnsureService_def run_init_def init_ok_def RegisterService_def split: option.splits)

lemma sm_contract:
  assumes "init_ok init" and "sm_HandleCommand init cmd inp in_sz out s = Inr (ok, out', n, s')"
  shows "length out' = length out" and "sys_inv s \<Longrightarrow> no_wrap s s' \<Longrightarrow> sys_inv s'"
proof -
  have *: "length out' = length out \<and> (s' = s \<or> (\<exists>name.
      s' = (EnsureService init name s)\<lparr>s_ipc := snd (Connect name (s_ipc (EnsureService init name s)))\<rparr>))"
    using assms(2)
    by (fastforce simp: sm_HandleCommand_def HandleGetService_def Let_def split_beta split: if_splits)
  then show "length out' = length out" by blast
  assume inv: "sys_inv s" and le: "no_wrap s s'"
  show "sys_inv s'"
  proof (cases "s' = s")
    case False
    then obtain name where
      s': "s' = (EnsureService init name s)\<lparr>s_ipc := snd (Connect name (s_ipc (EnsureService init name s)))\<rparr>"
      using * by blast
    note e = EnsureService_sessions [OF assms(1), of name s]
    have "ipc_inv (s_ipc (EnsureService init name s))"
      using e inv by (simp add: ipc_inv_def sys_inv_def)
    moreover have "next_session (s_ipc s') = next_session (s_ipc s) + 1"
      using s' e by (simp add: Connect_def Let_def)
    ultimately show ?thesis
      using Connect_inv [of "s_ipc (EnsureService init name s)" name] s' le e inv
      by (simp add: sys_inv_def no_wrap_def)
  qed (use inv in simp)
qed

lemma builtin_contract:
  assumes "service_contract others" and "init_ok init"
  shows "service_contract (builtin others init)"
proof -
  have oth: "length out' = length out" "sys_inv s \<Longrightarrow> no_wrap s s' \<Longrightarrow> sys_inv s'"
    if "handle_command others p cmd inp in_sz out s = Inr (ok, out', n, s')"
    for p cmd inp in_sz out s ok out' n s'
    using service_contract.keeps_size [OF assms(1) that] service_contract.keeps_inv [OF assms(1) _ that]
    by blast+
  show ?thesis
    by unfold_locales
      (auto simp: builtin_def split: if_splits
        dest: simple_services apm_main_contract sm_contract [OF assms(2)] oth)
qed

text \<open>The table of a build with no further services: unknown objects handle nothing.\<close>

definition no_others :: "'x svc_world vtable" where
  "no_others = \<lparr>svc_name = (\<lambda>_. []), handle_command = (\<lambda>p cmd inp in_sz out s. Inr (False, out, length out, s))\<rparr>"

lemma no_others_contract: "service_contract no_others"
  by unfold_locales (auto simp: no_others_def)

interpretation std: service_contract "builtin no_others (\<lambda>_ s. s)"
  by (rule builtin_contract [OF no_others_contract]) (simp add: init_ok_def)

section \<open>Properties\<close>

text \<open>
  Whatever a client sends, session ids stay unique and below the counter, and so do kernel
  handles. For any table of other services that keeps this contract, every request that is served by
  the built-in services (or by those others) preserves the invariant, as long as the 32-bit counters
  do not wrap.
\<close>

theorem HandleRequest_keeps_sessions:
  assumes "service_contract others" and "init_ok init" and "sys_inv s"
    and "HandleRequest (builtin others init) sid data resp s = Inr (res, r, n, s')" and "no_wrap s s'"
  shows "sys_inv s'"
  by (rule service_contract.HandleRequest_inv [OF builtin_contract [OF assms(1,2)] assms(3-5)])

text \<open>A close request (message type 2), as a client sends it.\<close>

definition close_message :: "u8 list" where
  "close_message = le_bytes 4 (2 :: u32) @ replicate 12 0"

lemma close_message_header: "request_header close_message = (zero_header\<lparr>h_type := 2\<rparr>, 8)"
proof -
  have "word_at close_message 0 = 2" "word_at close_message 4 = 0"
    by (simp_all add: close_message_def word_at_append) (simp_all add: word_at_def get_bytes_def eval_nat_numeral)
  moreover have "length close_message = 16"
    by (simp add: close_message_def)
  ultimately show ?thesis
    by (simp add: request_header_def parse_header_def CalcDataWordsOffset_def Bits_def Bit_def Let_def zero_header_def)
qed

theorem HandleRequest_keeps_sessions_witness:
  "let s = \<lparr>s_ipc = snd (Connect ''sm:'' static_init), s_mem = None, s_handles = handle_table_init,
            s_ext = \<lparr>inited = [], clock_seconds = 0, other = ()\<rparr>\<rparr>;
       st = s_ipc s\<lparr>sessions := []\<rparr>
   in HandleRequest (builtin no_others (\<lambda>_ s. s)) 0x1000 close_message (replicate 16 0) s =
        Inr (0, replicate 16 0, 8, s\<lparr>s_ipc := st\<rparr>) \<and> ipc_inv st"
proof -
  define s :: "unit svc_world sys" where "s = \<lparr>s_ipc = snd (Connect ''sm:'' static_init), s_mem = None, s_handles = handle_table_init,
            s_ext = \<lparr>inited = [], clock_seconds = 0, other = ()\<rparr>\<rparr>"
  have inv: "sys_inv s"
    by (simp add: s_def sys_inv_def ht_inv_init Connect_inv static_init_def ipc_inv_init RegisterService_def ipc_init_def Connect_def
        ipc_inv_def new_session_def Let_def)
  have "CloseSession 0x1000 (s_ipc s) = Inr (s_ipc s\<lparr>sessions := []\<rparr>)"
    by (simp add: s_def CloseSession_def find_session_def Connect_def static_init_def RegisterService_def
        ipc_init_def new_session_def Let_def)
  moreover have "find_session 0x1000 (s_ipc s) \<noteq> None"
    by (simp add: s_def find_session_def Connect_def static_init_def RegisterService_def ipc_init_def
        new_session_def Let_def)
  moreover have "put_bytes (replicate 16 0) 0 (replicate 8 0) = replicate 16 (0::u8)"
    by (simp add: put_bytes_def replicate_add [symmetric])
  ultimately have run: "HandleRequest (builtin no_others (\<lambda>_ s. s)) 0x1000 close_message (replicate 16 0) s =
      Inr (0, replicate 16 0, 8, s\<lparr>s_ipc := s_ipc s\<lparr>sessions := []\<rparr>\<rparr>)"
    by (auto simp: HandleRequest_def close_message_header)
      (simp add: close_message_def)
  have "init_ok (\<lambda>_ s. s)"
    by (simp add: init_ok_def)
  from HandleRequest_keeps_sessions [OF no_others_contract this inv run] run show ?thesis
    by (simp add: s_def [symmetric] no_wrap_def sys_inv_def Let_def)
qed

text \<open>
  Two anonymous sessions for one object both own it. Closing the first deletes the object; the second then
  uses the deleted object, or deletes it again when it is closed.
\<close>

lemma owned_twice:
  assumes "ipc_inv st" and "ipc_room 1 st" and "p \<notin> set (deleted st)"
    and "CreateSession (Some p) st = (a, st1)" and "CreateSession (Some p) st1 = (b, st2)"
  shows "a \<noteq> b \<and> (\<exists>st3. CloseSession a st2 = Inr st3 \<and> CloseSession b st3 = Inl DoubleFree
    \<and> target_service b 0 st3 = Some p \<and> p \<in> set (deleted st3))"
proof -
  let ?a = "next_session st"
  let ?x = "new_session ?a ''(anonymous)'' (Some p) True" and ?y = "new_session (?a + 1) ''(anonymous)'' (Some p) True"
  have ab: "a = ?a" "b = ?a + 1" and ses: "sessions st2 = sessions st @ [?x, ?y]" and del: "deleted st2 = deleted st"
    using assms(4,5) by (auto simp: CreateSession_def Let_def)
  have lt: "?a < ?a + 1"
    using next_session_Suc [OF assms(2)] by (simp add: word_less_nat_alt)
  have old: "\<forall>x \<in> set (sessions st). sess_id x \<noteq> ?a \<and> sess_id x \<noteq> ?a + 1"
    using assms(1) lt by (fastforce simp: ipc_inv_def)
  then have none: "find (\<lambda>x. sess_id x = i) (sessions st) = None" if "i = ?a \<or> i = ?a + 1" for i
    using that by (auto simp: find_None_iff)
  have dist: "distinct (map sess_id (sessions st2))"
    using assms(1) old lt by (auto simp: ses ipc_inv_def new_session_def)
  let ?st = "st2\<lparr>sessions := erase_session ?a (sessions st2), deleted := p # deleted st\<rparr>"
  have fa: "find_session ?a st2 = Some ?x"
    using none by (simp add: find_session_def ses find_append new_session_def)
  have fb: "find_session (?a + 1) ?st = Some ?y"
    using none lt find_erase [OF dist, of "?a + 1" ?a]
    by (simp add: find_session_def ses find_append new_session_def)
  have "CloseSession ?a st2 = Inr ?st"
    using assms(3) fa by (simp add: CloseSession_def del new_session_def Let_def)
  moreover have "CloseSession (?a + 1) ?st = Inl DoubleFree" "target_service (?a + 1) 0 ?st = Some p"
    using fb by (simp_all add: CloseSession_def target_service_def new_session_def Let_def)
  ultimately show ?thesis
    using lt ab by auto
qed

lemma run_command_deleted:
  assumes "target_service sid (rq_object rq) (s_ipc s) = Some p" and "p \<in> set (deleted (s_ipc s))"
  shows "run_command vt sid False rq l s = Inl UseAfterFree"
  using assms by (simp add: run_command_def)

text \<open>
  \<open>OpenSession\<close> of the performance service hands the same static object to every caller.
\<close>

theorem apm_subsessions_share_static:
  assumes "ipc_inv (s_ipc s)" and "ipc_room 1 (s_ipc s)" and "g_apm_sub \<notin> set (deleted (s_ipc s))"
    and "4 \<le> length out"
    and "apm_HandleMainSession 0 out s = Inr (ok1, out1, n1, s1)"
    and "apm_HandleMainSession 0 out s1 = Inr (ok2, out2, n2, s2)"
  shows "let a = next_session (s_ipc s); b = a + 1
    in a \<noteq> b \<and> (\<exists>st. CloseSession a (s_ipc s2) = Inr st \<and> CloseSession b st = Inl DoubleFree)"
proof -
  have "CreateSession (Some g_apm_sub) (s_ipc s) = (next_session (s_ipc s), s_ipc s1)"
    "CreateSession (Some g_apm_sub) (s_ipc s1) = (next_session (s_ipc s) + 1, s_ipc s2)"
    using assms(4-6) by (auto simp: apm_HandleMainSession_def CreateSession_def Let_def)
  from owned_twice [OF assms(1-3) this] show ?thesis
    by (auto simp: Let_def)
qed

definition empty_sys :: "unit svc_world sys" where
  "empty_sys = \<lparr>s_ipc = static_init, s_mem = None, s_handles = handle_table_init, s_ext = \<lparr>inited = [], clock_seconds = 0, other = ()\<rparr>\<rparr>"

lemma empty_sys_inv: "ipc_inv (s_ipc empty_sys)" "ipc_room 1 (s_ipc empty_sys)" "deleted (s_ipc empty_sys) = []"
  by (simp_all add: empty_sys_def static_init_def ipc_inv_init ipc_room_def RegisterService_def ipc_init_def
      ipc_inv_def)

theorem apm_subsessions_share_static_witness:
  "\<exists>(s2 :: unit svc_world sys) st. CloseSession 0x1000 (s_ipc s2) = Inr st \<and> CloseSession 0x1001 st = Inl DoubleFree"
proof -
  let ?out = "replicate 4 (0::u8)"
  obtain o1 n1 s1 where a1: "apm_HandleMainSession 0 ?out empty_sys = Inr (True, o1, n1, s1)"
    by (simp add: apm_HandleMainSession_def split_beta)
  obtain o2 n2 s2 where a2: "apm_HandleMainSession 0 ?out s1 = Inr (True, o2, n2, s2)"
    by (simp add: apm_HandleMainSession_def split_beta)
  have "next_session (s_ipc empty_sys) = 0x1000"
    by (simp add: empty_sys_def static_init_def RegisterService_def ipc_init_def)
  with apm_subsessions_share_static [OF empty_sys_inv(1,2) _ _ a1 a2]
  show ?thesis
    by (auto simp: empty_sys_inv Let_def)
qed

text \<open>
  \<open>GetService\<close> connects to the named service and returns the new session id in the first
  output word; names are cut at the first zero byte and lose trailing unprintable bytes, and a name
  without its colon still finds the service registered with it.
\<close>

theorem GetService_connects:
  assumes "init_ok init" and "ipc_inv (s_ipc s)" and "0 < in_sz" and "in_sz \<le> length inp" and "8 \<le> length out"
  shows "\<exists>out' s'. sm_HandleCommand init 1 inp in_sz out s = Inr (True, out', 8, s')
    \<and> of_le_bytes (take 4 out') = next_session (s_ipc s)
    \<and> GetServiceBySession (next_session (s_ipc s)) (s_ipc s') =
        lookup_service (to_string (clean_name (take in_sz inp)))
          (s_ipc (EnsureService init (to_string (clean_name (take in_sz inp))) s))"
proof -
  let ?n = "to_string (clean_name (take in_sz inp))"
  let ?e = "EnsureService init ?n s"
  note e = EnsureService_sessions [OF assms(1), of ?n s]
  have fresh: "find (\<lambda>x. sess_id x = next_session (s_ipc s)) (sessions (s_ipc ?e)) = None"
    using find_session_fresh [OF assms(2)] e by (simp add: find_session_def)
  have "of_le_bytes (take 4 (put_bytes out 0 (le_bytes 4 sid @ replicate 4 0))) = sid" for sid :: u32
    using assms(5) by (simp add: put_bytes_def)
  with assms e fresh show ?thesis
    by (simp add: sm_HandleCommand_def HandleGetService_def Connect_def GetServiceBySession_def find_session_def
        find_append new_session_def Let_def)
qed

theorem GetService_connects_witness:
  "\<exists>out' s'. sm_HandleCommand (\<lambda>_ s. s) 1 [0x73, 0x65, 0x74, 0x3A, 0, 0, 0, 0] 8 (replicate 8 0) empty_sys =
      Inr (True, out', 8, s') \<and> GetServiceBySession 0x1000 (s_ipc s') = Some g_set_service"
proof -
  have n: "to_string (clean_name [0x73, 0x65, 0x74, 0x3A, 0, 0, 0, 0]) = ''set:''"
    by (simp add: clean_name_def to_string_def unprintable_def char_of_def bit_Suc_0_iff)
  have "next_session (s_ipc empty_sys) = 0x1000"
    by (simp add: empty_sys_def static_init_def RegisterService_def ipc_init_def)
  moreover have "lookup_service ''set:'' (s_ipc (EnsureService (\<lambda>_ s. s) ''set:'' empty_sys)) = Some g_set_service"
    by (simp add: lookup_service_def EnsureService_def init_group_of_def run_init_def empty_sys_def
        static_init_def RegisterService_def)
  ultimately show ?thesis
    using GetService_connects [of "\<lambda>_ s. s" empty_sys 8 "[0x73, 0x65, 0x74, 0x3A, 0, 0, 0, 0]" "replicate 8 0"]
    by (auto simp: init_ok_def empty_sys_inv n)
qed

text \<open>
  The performance service is unreachable until somebody asks for a settings service. Its
  constructor does not register it and \<open>ServiceApm_Init\<close> does nothing; only \<open>ServiceSet_Init\<close> registers
  \<open>apm:\<close>. A client that asks for \<open>apm:\<close> first gets a session without a service.
\<close>

theorem apm_needs_set:
  "GetServiceBySession 0x1000 (snd (Connect ''apm:'' (s_ipc (EnsureService (\<lambda>_ s. s) ''apm:'' empty_sys)))) = None
   \<and> GetServiceBySession 0x1000 (snd (Connect ''apm:'' (s_ipc (EnsureService (\<lambda>_ s. s) ''apm:''
        (EnsureService (\<lambda>_ s. s) ''set:'' empty_sys))))) = Some g_apm_service"
  by (simp add: GetServiceBySession_def find_session_def Connect_def new_session_def lookup_service_def
      EnsureService_def init_group_of_def run_init_def empty_sys_def static_init_def RegisterService_def
      ipc_init_def Let_def)

end
