(* ===== verification/SvcHandlers.thy ===== *)
theory SvcHandlers
  imports Services
begin

unbundle bit_operations_syntax

text \<open>
  System calls: \<^verbatim>\<open>src/src/kernel/SvcHandlers.cpp\<close>, the dispatch table of
  \<^verbatim>\<open>src/src/kernel/SvcTable.cpp\<close> working on the register file \<open>GuestThreadState\<close>.

  The record \<open>kernel\<close> holds the globals that the handlers use, the thread-local variables of the calling
  thread, and (inside \<open>k_sys\<close>) the IPC manager, the handle table and the guest memory (\<open>g_mem\<close>, which may
  be null). A handler maps kernel and registers to their new values and says how it ended: it returned
  to the guest, the thread exits, it blocks for ever, or it threw an exception or ran into undefined
  behaviour. Host threads that are started and sleeps are recorded in logs. The handlers are described
  as they run without interference; what other threads can do during a wait is the subject of the theory
  \<open>WaitProtocol\<close>. Log output and trace records are left out.
\<close>

section \<open>State\<close>

definition Arg :: "GuestThreadState \<Rightarrow> nat \<Rightarrow> u64" where "Arg st n = gx st ! n"
definition setx :: "nat \<Rightarrow> u64 \<Rightarrow> GuestThreadState \<Rightarrow> GuestThreadState" where
  "setx i v st = st\<lparr>gx := (gx st)[i := v]\<rparr>"
definition Ret :: "u64 \<Rightarrow> GuestThreadState \<Rightarrow> GuestThreadState" where "Ret v st = setx 0 v st"

definition ret_code :: "Result \<Rightarrow> u64" where "ret_code r = ucast (result_code r)"

record 'w kernel =
  k_sys :: "'w sys"
  k_cur_thread :: u32
  k_tls_next_slot :: u32
  k_stack_next_slot :: u32
  k_next_thread_id :: u64
  k_exited :: bool
  k_crashed :: bool
  k_dump_once :: bool
  k_svc_call_count :: u64
  k_started :: "(u32 \<times> kthread) list"
  k_slept :: "int list"
  k_fixed_tls :: u64
  k_ticks :: u64
  k_page_order :: "u64 list"

datatype svc_end = Returns | ThreadExits | Blocks | HostException | Undefined ipc_error

type_synonym 'w svc_outcome = "svc_end \<times> 'w kernel \<times> GuestThreadState"

text \<open>What a handler may call: the services and the host.\<close>

record 'w env =
  e_vt :: "'w vtable"
  e_host :: host_vm

type_synonym 'w svc_handler = "'w env \<Rightarrow> 'w kernel \<Rightarrow> GuestThreadState \<Rightarrow> 'w svc_outcome"

abbreviation k_handles :: "'w kernel \<Rightarrow> handle_table" where "k_handles k \<equiv> s_handles (k_sys k)"

abbreviation k_mem :: "'w kernel \<Rightarrow> memory option" where "k_mem k \<equiv> s_mem (k_sys k)"

definition set_mem :: "memory \<Rightarrow> 'w kernel \<Rightarrow> 'w kernel" where
  "set_mem m k = k\<lparr>k_sys := (k_sys k)\<lparr>s_mem := Some m\<rparr>\<rparr>"

definition set_handles :: "handle_table \<Rightarrow> 'w kernel \<Rightarrow> 'w kernel" where
  "set_handles ht k = k\<lparr>k_sys := (k_sys k)\<lparr>s_handles := ht\<rparr>\<rparr>"

definition low32 :: "u64 \<Rightarrow> u32" where "low32 v = ucast v"

definition ToGuestAddress :: "'w kernel \<Rightarrow> u64 \<Rightarrow> u64" where
  "ToGuestAddress k ptr = (case k_mem k of None \<Rightarrow> ptr | Some m \<Rightarrow> to_guest m ptr)"

text \<open>A handler that only returns a constant.\<close>

definition ret_only :: "u64 \<Rightarrow> 'w svc_handler" where
  "ret_only v = (\<lambda>e k st. (Returns, k, Ret v st))"

section \<open>Memory\<close>

definition SvcSetHeapSize :: "'w svc_handler" where
  "SvcSetHeapSize e k st =
     (let sz = Arg st 0 in
      case k_mem k of
        Some m \<Rightarrow>
          if sz > 0 then
            let (r, m') = SetHeapSize (e_host e) m sz
            in (Returns, set_mem m' k, Ret 0 (setx 1 (base_addr m' + heap_addr m') st))
          else (Returns, k, Ret 0 st)
      | None \<Rightarrow> (Returns, k, Ret 0 st))"

definition SvcQueryMemory :: "'w svc_handler" where
  "SvcQueryMemory e k st =
     (let addr = Arg st 1 in
      case k_mem k of
        Some m \<Rightarrow>
          let (base, sz, ty) = QueryRegion m (k_page_order k) addr
          in (Returns, k, Ret 0 (setx 3 (ucast ty) (setx 2 sz (setx 1 base st))))
      | None \<Rightarrow> (Returns, k, Ret 0 (setx 3 3 (setx 2 0x1000 (setx 1 (addr AND NOT 0xFFF) st)))))"

section \<open>Threads\<close>

definition TLS_PER_THREAD :: u64 where "TLS_PER_THREAD = 0x200"
definition TLS_SLOTS_BASE :: u64 where "TLS_SLOTS_BASE = 0xFD000000"
definition STACK_PER_THREAD :: u64 where "STACK_PER_THREAD = 0x100000"
definition STACK_SLOTS_BASE :: u64 where "STACK_SLOTS_BASE = 0xFB000000"

lemmas thread_consts = TLS_PER_THREAD_def TLS_SLOTS_BASE_def STACK_PER_THREAD_def STACK_SLOTS_BASE_def

definition SvcExitProcess :: "'w svc_handler" where
  "SvcExitProcess e k st = (Returns, k\<lparr>k_exited := True\<rparr>, st)"

text \<open>\<open>MapPhysical\<close> followed by \<open>memset\<close> through \<open>Pointer\<close>, as both thread areas are set up.\<close>

definition map_and_clear :: "host_vm \<Rightarrow> u64 \<Rightarrow> u64 \<Rightarrow> memory \<Rightarrow> memory" where
  "map_and_clear host a sz m = memset_guest (snd (MapPhysical host m a sz Perm_RW None)) a 0 sz"

definition stack_slot_addr :: "u32 \<Rightarrow> u64" where
  "stack_slot_addr slot = STACK_SLOTS_BASE + ucast slot * STACK_PER_THREAD"

definition tls_slot_addr :: "u32 \<Rightarrow> u64" where
  "tls_slot_addr slot = TLS_SLOTS_BASE + ucast slot * TLS_PER_THREAD"

definition SvcCreateThread :: "'w svc_handler" where
  "SvcCreateThread e k st =
     (let entry = Arg st 1; arg = Arg st 2; sp = Arg st 3; prio = low32 (Arg st 4); core = low32 (Arg st 5);
          host_base = (case k_mem k of Some m \<Rightarrow> base_addr m | None \<Rightarrow> 0);
          t0 = KThread_new\<lparr>entry_point := host_base + entry, kt_arg := arg, priority := prio,
                 ideal_core := (if sint core < 0 then 0 else core), thread_id := k_next_thread_id k\<rparr>;
          k0 = k\<lparr>k_next_thread_id := k_next_thread_id k + 1\<rparr>;
          slot = k_stack_next_slot k;
          (t1, k1) =
            (if sp = 0 then
               (t0\<lparr>kt_stack_top := host_base + (stack_slot_addr slot + STACK_PER_THREAD), kernel_stack := True\<rparr>,
                (let k' = k0\<lparr>k_stack_next_slot := slot + 1\<rparr>
                 in case k_mem k' of
                      Some m \<Rightarrow> set_mem (map_and_clear (e_host e) (stack_slot_addr slot) STACK_PER_THREAD m) k'
                    | None \<Rightarrow> k'))
             else (t0\<lparr>kt_stack_top := host_base + sp\<rparr>, k0));
          tslot = k_tls_next_slot k1;
          t2 = t1\<lparr>tls_base := tls_slot_addr tslot\<rparr>;
          k2 = k1\<lparr>k_tls_next_slot := tslot + 1\<rparr>;
          k3 = (case k_mem k2 of
                  Some m \<Rightarrow> set_mem (map_and_clear (e_host e) (tls_base t2) TLS_PER_THREAD m) k2
                | None \<Rightarrow> k2);
          (handle, ht) = ht_Create (k_handles k3) (KThread t2)
      in (Returns, set_handles ht k3, Ret 0 (setx 1 (ucast handle) st)))"

definition SvcStartThread :: "'w svc_handler" where
  "SvcStartThread e k st =
     (let handle = low32 (Arg st 0) in
      case get_thread (k_handles k) handle of
        None \<Rightarrow> (Returns, k, Ret (ret_code InvalidHandle) st)
      | Some t \<Rightarrow>
          if started t then (Returns, k, Ret 0 st)
          else
            let t' = t\<lparr>started := True, running := True, wake_event := Some False\<rparr>
            in (Returns, (set_handles (ht_put (k_handles k) handle (KThread t')) k)
                 \<lparr>k_started := k_started k @ [(handle, t')]\<rparr>, Ret 0 st))"

text \<open>The tail of the host thread function, after \<open>RunGuest\<close> returned.\<close>

definition host_thread_end :: "u32 \<Rightarrow> handle_table \<Rightarrow> handle_table" where
  "host_thread_end handle ht =
     (case get_thread ht handle of
        None \<Rightarrow> ht
      | Some t \<Rightarrow> ht_put ht handle (KThread (MarkFinished (t\<lparr>running := False\<rparr>))))"

definition SvcExitThread :: "'w svc_handler" where
  "SvcExitThread e k st =
     (let k' = (if k_cur_thread k \<noteq> 0 then set_handles (host_thread_end (k_cur_thread k) (k_handles k)) k else k)
      in (ThreadExits, k'\<lparr>k_cur_thread := 0\<rparr>, st))"

definition SvcGetThreadPriority :: "'w svc_handler" where
  "SvcGetThreadPriority e k st =
     (case get_thread (k_handles k) (low32 (Arg st 0)) of
        Some t \<Rightarrow> (Returns, k, Ret (scast (priority t)) st)
      | None \<Rightarrow> (Returns, k, Ret 0x10 st))"

definition SvcSetThreadPriority :: "'w svc_handler" where
  "SvcSetThreadPriority e k st =
     (let handle = low32 (Arg st 0); prio = low32 (Arg st 1) in
      case get_thread (k_handles k) handle of
        Some t \<Rightarrow> (Returns, set_handles (ht_put (k_handles k) handle (KThread (t\<lparr>priority := prio\<rparr>))) k, Ret 0 st)
      | None \<Rightarrow> (Returns, k, Ret 0 st))"

definition SvcGetThreadCoreMask :: "'w svc_handler" where
  "SvcGetThreadCoreMask e k st =
     (let core = (case get_thread (k_handles k) (low32 (Arg st 0)) of Some t \<Rightarrow> ucast (ideal_core t) | None \<Rightarrow> 0)
      in (Returns, k, Ret 0xF (setx 1 core st)))"

definition SvcGetThreadId :: "'w svc_handler" where
  "SvcGetThreadId e k st =
     (Returns, k, Ret (case get_thread (k_handles k) (low32 (Arg st 0)) of Some t \<Rightarrow> thread_id t | None \<Rightarrow> 1) st)"

section \<open>Synchronization\<close>

definition SvcSignalEvent :: "'w svc_handler" where
  "SvcSignalEvent e k st =
     (let handle = low32 (Arg st 0) in
      case get_event (k_handles k) handle of
        Some b \<Rightarrow> (Returns, set_handles (ht_put (k_handles k) handle (KEvent_Signal (KEvent b))) k, Ret 0 st)
      | None \<Rightarrow> (Returns, k, Ret (ret_code InvalidHandle) st))"

definition SvcClearEvent :: "'w svc_handler" where
  "SvcClearEvent e k st =
     (let handle = low32 (Arg st 0) in
      case get_event (k_handles k) handle of
        Some b \<Rightarrow> (Returns, set_handles (ht_put (k_handles k) handle (KEvent_Clear (KEvent b))) k, Ret 0 st)
      | None \<Rightarrow> (Returns, k, Ret 0 st))"

definition SvcResetSignal :: "'w svc_handler" where
  "SvcResetSignal = SvcClearEvent"

text \<open>Creating an object and returning its handle in \<open>x1\<close>.\<close>

definition create_handler :: "kobject \<Rightarrow> 'w svc_handler" where
  "create_handler ob e k st =
     (let (handle, ht) = ht_Create (k_handles k) ob
      in (Returns, set_handles ht k, setx 1 (ucast handle) (Ret 0 st)))"

definition SvcCreateEvent :: "'w svc_handler" where
  "SvcCreateEvent = create_handler (KEvent False)"

definition SvcCreateTransferMemory :: "'w svc_handler" where
  "SvcCreateTransferMemory e k st =
     create_handler (KTransferMemory (Arg st 0) (Arg st 1) (ucast (low32 (Arg st 2) AND 7))) e k st"

definition SvcCloseHandle :: "'w svc_handler" where
  "SvcCloseHandle e k st = (Returns, set_handles (ht_Close (k_handles k) (low32 (Arg st 0))) k, Ret 0 st)"

text \<open>The first index that satisfies a test; lines 395 to 403 and 410 to 416.\<close>

fun first_index :: "('a \<Rightarrow> bool) \<Rightarrow> nat \<Rightarrow> 'a list \<Rightarrow> nat option" where
  "first_index P i [] = None"
| "first_index P i (y # ys) = (if P y then Some i else first_index P (Suc i) ys)"

definition read_handles :: "memory \<Rightarrow> u64 \<Rightarrow> nat \<Rightarrow> u32 list" where
  "read_handles m a n = map (\<lambda>i. read_u32_or 0 m (a + ucast (of_nat (i * 4) :: u32))) [0..<n]"

definition auto_signaled :: "u32 \<Rightarrow> bool" where
  "auto_signaled h \<longleftrightarrow> h = 0xE0000001 \<or> h = 0"

definition handle_signaled :: "handle_table \<Rightarrow> u32 \<Rightarrow> bool" where
  "handle_signaled ht h = (case ht_Get ht h of Some ob \<Rightarrow> IsSignaled ob | None \<Rightarrow> False)"

definition SvcWaitSynchronization :: "'w svc_handler" where
  "SvcWaitSynchronization e k st =
     (let handles_ptr = Arg st 1; num = sint (low32 (Arg st 2)); timeout = sint (Arg st 3) in
      case k_mem k of
        None \<Rightarrow> (Returns, k\<lparr>k_slept := k_slept k @ (if timeout > 0 then [timeout] else [])\<rparr>, setx 1 0 (Ret 0 st))
      | Some m \<Rightarrow>
          if num = 0 then
            (Returns, k\<lparr>k_slept := k_slept k @ (if timeout > 0 then [timeout] else [])\<rparr>, setx 1 0 (Ret 0 st))
          else if num < 0 then (HostException, k, st)
          else
            let handles = read_handles m (to_guest m handles_ptr) (nat num) in
            case first_index auto_signaled 0 handles of
              Some i \<Rightarrow> (Returns, k, setx 1 (of_nat i) (Ret 0 st))
            | None \<Rightarrow>
                (case first_index (handle_signaled (k_handles k)) 0 handles of
                   Some i \<Rightarrow> (Returns, k, setx 1 (of_nat i) (Ret 0 st))
                 | None \<Rightarrow>
                     if timeout < 0 then (Blocks, k, st)
                     else (Returns, k\<lparr>k_slept := k_slept k @ (if timeout > 0 then [timeout] else [])\<rparr>,
                           setx 1 0 (Ret (ret_code TimedOut) st))))"

section \<open>IPC\<close>

text \<open>The name loop of \<open>SvcConnectToNamedPort\<close>: at most 255 bytes, up to a zero or a failed read.\<close>

fun read_name :: "memory \<Rightarrow> u64 \<Rightarrow> nat \<Rightarrow> nat \<Rightarrow> u8 list" where
  "read_name m a i 0 = []"
| "read_name m a i (Suc n) =
     (case Read m (a + of_nat i) 1 of
        Inl _ \<Rightarrow> []
      | Inr bs \<Rightarrow> (let c = of_le_bytes bs in if c = 0 then [] else c # read_name m a (Suc i) n))"

definition SvcConnectToNamedPort :: "'w svc_handler" where
  "SvcConnectToNamedPort e k st =
     (let name_ptr = ToGuestAddress k (Arg st 1); out_ptr = Arg st 0;
          name = (case k_mem k of
                    Some m \<Rightarrow> if name_ptr > 0 \<and> name_ptr < ADDR_SPACE_SIZE then read_name m name_ptr 0 255 else []
                  | None \<Rightarrow> []);
          (session, ipc') = Connect (to_string name) (s_ipc (k_sys k));
          k1 = k\<lparr>k_sys := (k_sys k)\<lparr>s_ipc := ipc'\<rparr>\<rparr>;
          k2 = (case k_mem k1 of
                  Some m \<Rightarrow> if out_ptr \<noteq> 0 then set_mem (try_write m (to_guest m out_ptr) (le_bytes 4 session)) k1 else k1
                | None \<Rightarrow> k1)
      in (Returns, k2, Ret 0 (setx 1 (ucast session) st)))"

definition TLS_IPC_SIZE :: nat where "TLS_IPC_SIZE = 0x100"

definition SvcSendSyncRequest :: "'w svc_handler" where
  "SvcSendSyncRequest e k st =
     (let session = low32 (Arg st 0); fixed_ipc = k_fixed_tls k in
      case k_mem k of
        None \<Rightarrow> (Returns, k, Ret 0 st)
      | Some m \<Rightarrow>
          if k_fixed_tls k = 0 then (Returns, k, Ret 0 st)
          else
            (case HandleRequest (e_vt e) session (read_image (image m) fixed_ipc TLS_IPC_SIZE)
                    (replicate TLS_IPC_SIZE 0) (k_sys k) of
               Inl err \<Rightarrow> (Undefined err, k, st)
             | Inr (result, resp, resp_size, s') \<Rightarrow>
                 let write_size = min resp_size TLS_IPC_SIZE;
                     s'' = s'\<lparr>s_mem := map_option (\<lambda>m'. m'\<lparr>image :=
                              write_image (image m') fixed_ipc (take write_size resp)\<rparr>) (s_mem s')\<rparr>
                 in (Returns, k\<lparr>k_sys := s''\<rparr>, Ret (ucast result) st)))"

definition SvcSendSyncRequestWithUserBuffer :: "'w svc_handler" where
  "SvcSendSyncRequestWithUserBuffer e k st =
     (let buf_addr = Arg st 0; buf_size = Arg st 1; session = low32 (Arg st 2) in
      case k_mem k of
        None \<Rightarrow> (Returns, k, Ret 0 st)
      | Some m \<Rightarrow>
          if buf_addr = 0 \<or> buf_size < 0x10 then (Returns, k, Ret 0 st)
          else
            let safe_size = unat (if buf_size < 0x10000 then buf_size else 0x10000) in
            case HandleRequest (e_vt e) session (load_loop Read m buf_addr safe_size)
                   (replicate safe_size 0) (k_sys k) of
              Inl err \<Rightarrow> (Undefined err, k, st)
            | Inr (result, resp, resp_size, s') \<Rightarrow>
                let s'' = s'\<lparr>s_mem := map_option (\<lambda>m'. store_loop try_write m' buf_addr
                             (take (min resp_size safe_size) resp)) (s_mem s')\<rparr>
                in (Returns, k\<lparr>k_sys := s''\<rparr>, Ret (ucast result) st))"

section \<open>Time, information, debugging\<close>

definition SvcSleepThread :: "'w svc_handler" where
  "SvcSleepThread e k st =
     (let ns = sint (Arg st 0)
      in (Returns, k\<lparr>k_slept := k_slept k @ (if ns > 0 then [ns] else [])\<rparr>, Ret 0 st))"

definition SvcGetSystemTick :: "'w svc_handler" where
  "SvcGetSystemTick e k st = (Returns, k, Ret (k_ticks k) st)"

text \<open>
  The payload and the diagnostic dump of the first \<open>Break\<close> are only read and logged; of the dump the
  static flag remains.
\<close>

definition SvcBreak :: "'w svc_handler" where
  "SvcBreak e k st = (Returns, k\<lparr>k_dump_once := True, k_crashed := True, k_exited := True\<rparr>, Ret 0 st)"

definition info_value :: "u32 \<Rightarrow> u64" where
  "info_value id0 =
     (if id0 = 0 then 0xF else if id0 = 1 then 0x3F else if id0 = 2 then 0x80000000
      else if id0 = 3 then 0x40000000 else if id0 = 4 then 0x80000000 else if id0 = 5 then 0x40000000
      else if id0 = 6 then 0xC0000000 else if id0 = 7 then 0x1000000 else if id0 = 14 then 0
      else if id0 = 15 then 0 else if id0 = 16 then 0x40000000 else 0)"

definition SvcGetInfo :: "'w svc_handler" where
  "SvcGetInfo e k st = (Returns, k, Ret 0 (setx 1 (info_value (low32 (Arg st 0))) st))"

definition SvcQueryPhysicalAddress :: "'w svc_handler" where
  "SvcQueryPhysicalAddress e k st = (Returns, k, Ret 0x1000 (setx 2 0x1000 (setx 1 (Arg st 0) st)))"

section \<open>Other objects\<close>

definition SvcCreateInterruptEvent :: "'w svc_handler" where
  "SvcCreateInterruptEvent = create_handler (KInterruptEvent False)"

definition SvcCreateDeviceAddressSpace :: "'w svc_handler" where
  "SvcCreateDeviceAddressSpace = create_handler KDeviceAddressSpace"

definition SvcCreateResourceLimit :: "'w svc_handler" where
  "SvcCreateResourceLimit = create_handler (KResourceLimit (replicate 4 0x7FFFFFFF) (replicate 4 0))"

definition SvcCreateSharedMemory :: "'w svc_handler" where
  "SvcCreateSharedMemory e k st =
     create_handler (KSharedMemory 0 (Arg st 1) (ucast (low32 (Arg st 2) AND 7)) 0) e k st"

text \<open>The address that \<open>SvcMapSharedMemory\<close> settles on (lines 856 to 869).\<close>

definition shared_map_addr :: "memory \<Rightarrow> u64 \<Rightarrow> u64 \<Rightarrow> u64 \<Rightarrow> u64" where
  "shared_map_addr m addr_ptr sm_addr sm_phys =
     (if sm_phys \<noteq> 0 then sm_phys
      else if addr_ptr \<noteq> 0 then (let a = read_u64_or 0 m addr_ptr in if a = 0 then sm_addr else a)
      else sm_addr)"

definition SvcMapSharedMemory :: "'w svc_handler" where
  "SvcMapSharedMemory e k st =
     (let handle = low32 (Arg st 0); addr_ptr = Arg st 1; sz = Arg st 2; perm = low32 (Arg st 3) in
      case ht_Get (k_handles k) handle of
        Some (KSharedMemory sm_addr sm_size sm_perm sm_phys) \<Rightarrow>
          (case k_mem k of
             None \<Rightarrow> (Returns, k, Ret 0 st)
           | Some m \<Rightarrow>
               let map_addr = shared_map_addr m addr_ptr sm_addr sm_phys;
                   map_size = (if sm_size > 0 then sm_size else if sz > 0 then sz else 0x40000);
                   m1 = (if map_addr \<noteq> 0 \<and> map_size > 0 \<and> Pointer m map_addr = None
                         then snd (MapPhysical (e_host e) m map_addr map_size (ucast (perm AND 7)) None) else m);
                   m2 = (if addr_ptr \<noteq> 0 \<and> map_addr \<noteq> 0 then try_write m1 addr_ptr (le_bytes 8 map_addr) else m1)
               in (Returns, set_handles (ht_put (k_handles k) handle
                     (KSharedMemory map_addr sm_size sm_perm sm_phys)) (set_mem m2 k), Ret 0 st))
      | _ \<Rightarrow> (Returns, k, Ret (ret_code InvalidHandle) st))"

text \<open>Two objects that know each other's handles: sessions and ports.\<close>

definition create_pair :: "(u32 \<Rightarrow> u32 \<Rightarrow> kobject) \<Rightarrow> 'w svc_handler" where
  "create_pair obj e k st =
     (let (client, ht1) = ht_Create (k_handles k) (obj 0 0);
          (server, ht2) = ht_Create ht1 (obj 0 0);
          ht3 = ht_put (ht_put ht2 client (obj client server)) server (obj client server)
      in (Returns, set_handles ht3 k, Ret 0 (setx 2 (ucast server) (setx 1 (ucast client) st))))"

definition SvcCreateSession :: "'w svc_handler" where
  "SvcCreateSession = create_pair KSession"

definition SvcCreatePort :: "'w svc_handler" where
  "SvcCreatePort = create_pair KPort"

definition SvcReplyAndReceive :: "'w svc_handler" where
  "SvcReplyAndReceive e k st = (Returns, k, Ret 0 (setx 1 (ucast (low32 (Arg st 1))) st))"

definition SvcReplyAndReceiveWithUserBuffer :: "'w svc_handler" where
  "SvcReplyAndReceiveWithUserBuffer e k st = (Returns, k, Ret 0 (setx 1 (ucast (low32 (Arg st 2))) st))"

definition SvcManageNamedPort :: "'w svc_handler" where
  "SvcManageNamedPort e k st = (Returns, k, Ret 0x600 (setx 1 0 st))"

section \<open>Stubs\<close>

text \<open>Handlers that only log and put a constant into \<open>x0\<close>.\<close>

definition SvcSetMemoryAttribute :: "'w svc_handler" where "SvcSetMemoryAttribute = ret_only 0"
definition SvcMapMemory :: "'w svc_handler" where "SvcMapMemory = ret_only 0"
definition SvcUnmapMemory :: "'w svc_handler" where "SvcUnmapMemory = ret_only 0"
definition SvcMapPhysicalMemory :: "'w svc_handler" where "SvcMapPhysicalMemory = ret_only 0"
definition SvcUnmapPhysicalMemory :: "'w svc_handler" where "SvcUnmapPhysicalMemory = ret_only 0"
definition SvcSetThreadCoreMask :: "'w svc_handler" where "SvcSetThreadCoreMask = ret_only 0"
definition SvcGetCurrentProcessorNumber :: "'w svc_handler" where "SvcGetCurrentProcessorNumber = ret_only 0"
definition SvcMapTransferMemory :: "'w svc_handler" where "SvcMapTransferMemory = ret_only 0"
definition SvcUnmapTransferMemory :: "'w svc_handler" where "SvcUnmapTransferMemory = ret_only 0"
definition SvcCancelSynchronization :: "'w svc_handler" where "SvcCancelSynchronization = ret_only 0"
definition SvcArbitrateLock :: "'w svc_handler" where "SvcArbitrateLock = ret_only 0"
definition SvcArbitrateUnlock :: "'w svc_handler" where "SvcArbitrateUnlock = ret_only 0"
definition SvcWaitProcessWideKeyAtomic :: "'w svc_handler" where "SvcWaitProcessWideKeyAtomic = ret_only 0"
definition SvcSignalProcessWideKey :: "'w svc_handler" where "SvcSignalProcessWideKey = ret_only 0"
definition SvcSendAsyncRequest :: "'w svc_handler" where "SvcSendAsyncRequest = ret_only 0"
definition SvcGetProcessId :: "'w svc_handler" where "SvcGetProcessId = ret_only 1"
definition SvcOutputDebugString :: "'w svc_handler" where "SvcOutputDebugString = ret_only 0"
definition SvcReturnFromException :: "'w svc_handler" where "SvcReturnFromException = ret_only 0"
definition SvcFlushEntireDataCache :: "'w svc_handler" where "SvcFlushEntireDataCache = ret_only 0"
definition SvcFlushDataCache :: "'w svc_handler" where "SvcFlushDataCache = ret_only 0"
definition SvcGetThreadContext3 :: "'w svc_handler" where "SvcGetThreadContext3 = ret_only 0"
definition SvcGetResourceLimitLimitValue :: "'w svc_handler" where "SvcGetResourceLimitLimitValue = ret_only 0x7FFFFFFF"
definition SvcGetResourceLimitCurrentValue :: "'w svc_handler" where "SvcGetResourceLimitCurrentValue = ret_only 0x100000"
definition SvcSetThreadActivity :: "'w svc_handler" where "SvcSetThreadActivity = ret_only 0"
definition SvcSetUserResourceLimit :: "'w svc_handler" where "SvcSetUserResourceLimit = ret_only 0"
definition SvcAcceptSession :: "'w svc_handler" where "SvcAcceptSession = ret_only 0"
definition SvcConnectToPort :: "'w svc_handler" where "SvcConnectToPort = ret_only 0xCAFE1000"
definition SvcGetProcessInfo :: "'w svc_handler" where "SvcGetProcessInfo = ret_only 0"
definition SvcSetResourceLimitLimitValue :: "'w svc_handler" where "SvcSetResourceLimitLimitValue = ret_only 0"
definition SvcMapPhysicalMemoryUnsafe :: "'w svc_handler" where "SvcMapPhysicalMemoryUnsafe = ret_only 0"
definition SvcUnmapPhysicalMemoryUnsafe :: "'w svc_handler" where "SvcUnmapPhysicalMemoryUnsafe = ret_only 0"
definition SvcGetSystemInfo :: "'w svc_handler" where "SvcGetSystemInfo = ret_only 0"
definition SvcCreateAddressServiceSpecInfo :: "'w svc_handler" where "SvcCreateAddressServiceSpecInfo = ret_only 0"
definition SvcCreateCodeMemory :: "'w svc_handler" where "SvcCreateCodeMemory = ret_only 0"
definition SvcControlCodeMemory :: "'w svc_handler" where "SvcControlCodeMemory = ret_only 0"
definition SvcSleepSystem :: "'w svc_handler" where "SvcSleepSystem = ret_only 0"
definition SvcReadWriteRegister :: "'w svc_handler" where "SvcReadWriteRegister = ret_only 0"
definition SvcSetProcessActivity :: "'w svc_handler" where "SvcSetProcessActivity = ret_only 0"
definition SvcUnmapSharedMemory :: "'w svc_handler" where "SvcUnmapSharedMemory = ret_only 0"

text \<open>Stubs that no number is registered for.\<close>

definition SvcQueryIoMapping :: "'w svc_handler" where "SvcQueryIoMapping = ret_only 0"
definition SvcAttachDeviceAddressSpace :: "'w svc_handler" where "SvcAttachDeviceAddressSpace = ret_only 0"
definition SvcDetachDeviceAddressSpace :: "'w svc_handler" where "SvcDetachDeviceAddressSpace = ret_only 0"
definition SvcMapDeviceAddressSpaceAligned :: "'w svc_handler" where "SvcMapDeviceAddressSpaceAligned = ret_only 0"
definition SvcMapDeviceAddressSpaceByForce :: "'w svc_handler" where "SvcMapDeviceAddressSpaceByForce = ret_only 0"
definition SvcSetKernelMemoryPermission :: "'w svc_handler" where "SvcSetKernelMemoryPermission = ret_only 0"
definition SvcUnknown3C :: "'w svc_handler" where "SvcUnknown3C = ret_only 0"

lemmas stub_defs = SvcSetMemoryAttribute_def SvcMapMemory_def SvcUnmapMemory_def SvcMapPhysicalMemory_def SvcUnmapPhysicalMemory_def SvcSetThreadCoreMask_def SvcGetCurrentProcessorNumber_def SvcMapTransferMemory_def SvcUnmapTransferMemory_def SvcCancelSynchronization_def SvcArbitrateLock_def SvcArbitrateUnlock_def SvcWaitProcessWideKeyAtomic_def SvcSignalProcessWideKey_def SvcSendAsyncRequest_def SvcGetProcessId_def SvcOutputDebugString_def SvcReturnFromException_def SvcFlushEntireDataCache_def SvcFlushDataCache_def SvcGetThreadContext3_def SvcGetResourceLimitLimitValue_def SvcGetResourceLimitCurrentValue_def SvcSetThreadActivity_def SvcSetUserResourceLimit_def SvcAcceptSession_def SvcConnectToPort_def SvcGetProcessInfo_def SvcSetResourceLimitLimitValue_def SvcMapPhysicalMemoryUnsafe_def SvcUnmapPhysicalMemoryUnsafe_def SvcGetSystemInfo_def SvcCreateAddressServiceSpecInfo_def SvcCreateCodeMemory_def SvcControlCodeMemory_def SvcSleepSystem_def SvcReadWriteRegister_def SvcSetProcessActivity_def SvcUnmapSharedMemory_def

section \<open>The table\<close>

text \<open>The registrations in order.\<close>

definition registrations :: "(u32 \<times> 'w svc_handler) list" where
  "registrations =
    [(0x00, SvcSetHeapSize), (0x01, SvcSetMemoryAttribute), (0x02, SvcMapMemory), (0x03, SvcUnmapMemory),
     (0x04, SvcQueryMemory), (0x05, SvcMapPhysicalMemory), (0x06, SvcUnmapPhysicalMemory),
     (0x07, SvcExitProcess), (0x08, SvcCreateThread), (0x09, SvcStartThread), (0x0A, SvcExitThread),
     (0x0B, SvcGetThreadPriority), (0x0C, SvcSetThreadPriority), (0x0D, SvcGetThreadCoreMask),
     (0x0E, SvcSetThreadCoreMask), (0x0F, SvcGetCurrentProcessorNumber),
     (0x10, SvcSignalEvent), (0x11, SvcClearEvent), (0x12, SvcMapTransferMemory), (0x13, SvcUnmapTransferMemory),
     (0x14, SvcCreateEvent), (0x15, SvcCreateTransferMemory), (0x16, SvcCloseHandle), (0x17, SvcResetSignal),
     (0x18, SvcWaitSynchronization), (0x19, SvcCancelSynchronization), (0x1A, SvcArbitrateLock), (0x1B, SvcArbitrateUnlock),
     (0x1C, SvcWaitProcessWideKeyAtomic), (0x1D, SvcSignalProcessWideKey),
     (0x1E, SvcGetSystemTick), (0x1F, SvcConnectToNamedPort), (0x20, SvcSendSyncRequest),
     (0x21, SvcSendSyncRequest), (0x22, SvcSendSyncRequestWithUserBuffer), (0x23, SvcSendAsyncRequest),
     (0x24, SvcGetProcessId), (0x25, SvcGetThreadId), (0x26, SvcBreak), (0x27, SvcOutputDebugString), (0x28, SvcReturnFromException),
     (0x29, SvcGetInfo), (0x2A, SvcFlushEntireDataCache), (0x2B, SvcFlushDataCache), (0x2C, SvcMapPhysicalMemory), (0x2D, SvcUnmapPhysicalMemory),
     (0x2E, SvcGetThreadContext3), (0x2F, SvcGetThreadContext3), (0x30, SvcGetResourceLimitLimitValue), (0x31, SvcGetResourceLimitCurrentValue),
     (0x32, SvcSetThreadActivity), (0x33, SvcGetThreadContext3), (0x34, SvcWaitSynchronization), (0x35, SvcSignalEvent),
     (0x36, SvcFlushEntireDataCache), (0x37, SvcGetResourceLimitCurrentValue), (0x38, SvcSetUserResourceLimit),
     (0x39, SvcCreateSession), (0x3A, SvcAcceptSession), (0x3B, SvcReplyAndReceive),
     (0x3C, SvcReplyAndReceiveWithUserBuffer), (0x3D, SvcCreatePort), (0x3E, SvcManageNamedPort),
     (0x3F, SvcConnectToPort), (0x40, SvcGetProcessInfo), (0x41, SvcCreateResourceLimit), (0x42, SvcSetResourceLimitLimitValue),
     (0x43, SvcMapPhysicalMemoryUnsafe), (0x44, SvcUnmapPhysicalMemoryUnsafe), (0x45, SvcGetSystemInfo), (0x46, SvcCreateAddressServiceSpecInfo), (0x47, SvcCreateCodeMemory),
     (0x48, SvcControlCodeMemory), (0x49, SvcSleepSystem), (0x4A, SvcReadWriteRegister), (0x4B, SvcSetProcessActivity),
     (0x4C, SvcCreateSharedMemory), (0x4D, SvcMapSharedMemory), (0x4E, SvcUnmapSharedMemory)]"

definition MAX_SVC :: u32 where "MAX_SVC = 0x100"

type_synonym 'w svc_table = "u32 \<rightharpoonup> 'w svc_handler"

definition SvcTable_Register :: "u32 \<Rightarrow> 'w svc_handler \<Rightarrow> 'w svc_table \<Rightarrow> 'w svc_table" where
  "SvcTable_Register num h tab = (if num \<ge> MAX_SVC then tab else tab(num \<mapsto> h))"

definition svc_table :: "'w svc_table" where
  "svc_table = fold (\<lambda>(n, h). SvcTable_Register n h) registrations Map.empty"

text \<open>The trace records and the snapshot hook around the call only observe it and are left out.\<close>

definition SvcHandler_Dispatch :: "'w env \<Rightarrow> u32 \<Rightarrow> 'w kernel \<Rightarrow> GuestThreadState \<Rightarrow> 'w svc_outcome" where
  "SvcHandler_Dispatch e num k0 st =
     (let k = k0\<lparr>k_svc_call_count := k_svc_call_count k0 + 1\<rparr> in
      if num \<ge> MAX_SVC then (Returns, k, Ret (0xFFFF8000DEAD0000 OR ucast num) st)
      else case svc_table num of
             None \<Rightarrow> (Returns, k, Ret (0xFFFF8000DEAD0000 OR ucast num) st)
           | Some h \<Rightarrow> h e k st)"

section \<open>The contract of a handler\<close>

text \<open>
  A system call changes at most \<open>x0\<close> to \<open>x3\<close>; it never touches the stack pointer, the program
  counter or the other registers.
\<close>

definition abi_ok :: "GuestThreadState \<Rightarrow> GuestThreadState \<Rightarrow> bool" where
  "abi_ok st st' \<longleftrightarrow> length (gx st') = length (gx st) \<and> (\<forall>i \<ge> 4. gx st' ! i = gx st ! i)
     \<and> gsp st' = gsp st \<and> gpc st' = gpc st"

lemma abi_ok_refl [simp]: "abi_ok st st"
  by (simp add: abi_ok_def)

lemma abi_ok_setx [simp]: "i < 4 \<Longrightarrow> abi_ok st (setx i v st') = abi_ok st st'"
  by (auto simp: abi_ok_def setx_def)

lemma abi_ok_Ret [simp]: "abi_ok st (Ret v st') = abi_ok st st'"
  by (simp add: Ret_def)

definition handler_ok :: "'w svc_handler \<Rightarrow> bool" where
  "handler_ok h \<longleftrightarrow> (\<forall>e k st r k' st'. service_contract (e_vt e) \<longrightarrow> h e k st = (r, k', st') \<longrightarrow>
     abi_ok st st' \<and> (sys_inv (k_sys k) \<and> no_wrap (k_sys k) (k_sys k') \<longrightarrow> sys_inv (k_sys k')))"

lemma handler_okI:
  assumes "\<And>e k st r k' st'. service_contract (e_vt e) \<Longrightarrow> h e k st = (r, k', st') \<Longrightarrow>
    abi_ok st st' \<and> (sys_inv (k_sys k) \<longrightarrow> no_wrap (k_sys k) (k_sys k') \<longrightarrow> sys_inv (k_sys k'))"
  shows "handler_ok h"
  using assms by (auto simp: handler_ok_def)

lemma word_no_wrap:
  fixes w :: "'a::len word"
  assumes "w \<le> w + 1"
  shows "unat (w + 1) = unat w + 1"
proof -
  have "1 + w \<noteq> 0"
    using assms by (auto simp: add.commute)
  then show ?thesis
    by (simp add: unatSuc add.commute)
qed

lemma word_no_wrap_2:
  fixes w :: u32
  assumes "w \<le> w + 2"
  shows "w \<le> w + 1" and "w + 1 \<le> w + 1 + 1"
proof -
  have two: "w + 2 = w + 1 + 1" by simp
  have "unat (w + 2) = (unat w + 2) mod 2 ^ 32"
    by (simp add: unat_word_ariths)
  with assms have "unat w + 2 < 2 ^ 32"
    using unsigned_less [of w, where 'a = nat] by (cases "unat w + 2 < 2 ^ 32") (auto simp: word_le_nat_alt mod_if split: if_splits)
  then show "w \<le> w + 1" and "w + 1 \<le> w + 1 + 1"
    by (simp_all add: word_le_nat_alt unat_word_ariths)
qed

lemma ht_Create_no_wrap:
  assumes "ht_inv t" and "next_index t \<le> next_index t + 1"
  shows "ht_inv (snd (ht_Create t ob))"
proof -
  have "0 < unat (h - HANDLE_BASE) \<and> unat (h - HANDLE_BASE) < unat (next_index t) + 1"
    if "objects (snd (ht_Create t ob)) h \<noteq> None" for h
    using that assms(1) by (auto simp: ht_Create_def ht_inv_def Let_def less_Suc_eq split: if_splits)
  then show ?thesis
    unfolding ht_inv_def using word_no_wrap [OF assms(2)] by (simp add: ht_Create_def Let_def)
qed

lemma next_index_Create [simp]: "next_index (snd (ht_Create t ob)) = next_index t + 1"
  by (simp add: ht_Create_def Let_def)

lemma next_index_put [simp]: "next_index (ht_put t h ob) = next_index t"
  by (simp add: ht_put_def)

lemma next_index_Close [simp]: "next_index (ht_Close t h) = next_index t"
  by (simp add: ht_Close_def split: option.splits)

lemma k_sys_updates [simp]:
  "k_sys (set_mem m k) = (k_sys k)\<lparr>s_mem := Some m\<rparr>" "k_sys (set_handles ht k) = (k_sys k)\<lparr>s_handles := ht\<rparr>"
  by (simp_all add: set_mem_def set_handles_def)

lemma sys_inv_mem [simp]: "sys_inv (s\<lparr>s_mem := m\<rparr>) = sys_inv s"
  by (simp add: sys_inv_def)

lemma no_wrap_mem [simp]: "no_wrap s (s'\<lparr>s_mem := m\<rparr>) = no_wrap s s'"
  by (simp add: no_wrap_def)

lemma sys_inv_handles: "sys_inv (s\<lparr>s_handles := ht\<rparr>) \<longleftrightarrow> ipc_inv (s_ipc s) \<and> ht_inv ht"
  by (simp add: sys_inv_def)

lemma get_thread_Get: "get_thread ht h = Some t \<Longrightarrow> ht_Get ht h \<noteq> None"
  by (auto simp: get_thread_def split: option.splits)

lemma get_event_Get: "get_event ht h = Some b \<Longrightarrow> ht_Get ht h \<noteq> None"
  by (auto simp: get_event_def split: option.splits)

lemma put_keeps_inv: "sys_inv s \<Longrightarrow> ht_Get (s_handles s) h \<noteq> None \<Longrightarrow> sys_inv (s\<lparr>s_handles := ht_put (s_handles s) h ob\<rparr>)"
  by (simp add: sys_inv_def ht_put_inv)

lemmas handle_simps = get_thread_Get get_event_Get put_keeps_inv ht_Close_inv

lemma stubs_ok: "handler_ok (ret_only v)"
  by (rule handler_okI) (auto simp: ret_only_def)

lemma create_handler_ok: "handler_ok (create_handler ob)"
  by (rule handler_okI)
    (auto simp: create_handler_def split_beta sys_inv_def no_wrap_def intro: ht_Create_no_wrap)

lemma create_handler_arg_ok: "handler_ok (\<lambda>e k st. create_handler (f st) e k st)"
  by (rule handler_okI)
    (auto simp: create_handler_def split_beta sys_inv_def no_wrap_def intro: ht_Create_no_wrap)

lemma memory_handlers_ok: "handler_ok SvcSetHeapSize" "handler_ok SvcQueryMemory"
  by (rule handler_okI, auto simp: SvcSetHeapSize_def SvcQueryMemory_def split_beta Let_def split: option.splits if_splits)+

lemma thread_handlers_ok: "handler_ok SvcExitProcess" "handler_ok SvcStartThread" "handler_ok SvcExitThread"
    "handler_ok SvcGetThreadPriority" "handler_ok SvcSetThreadPriority" "handler_ok SvcGetThreadCoreMask"
    "handler_ok SvcGetThreadId"
  by (rule handler_okI,
      auto simp: SvcExitProcess_def SvcStartThread_def SvcExitThread_def SvcGetThreadPriority_def
        SvcSetThreadPriority_def SvcGetThreadCoreMask_def SvcGetThreadId_def host_thread_end_def Let_def
        split: option.splits if_splits dest: get_thread_Get intro: put_keeps_inv)+

lemma event_handlers_ok: "handler_ok SvcSignalEvent" "handler_ok SvcClearEvent" "handler_ok SvcResetSignal"
    "handler_ok SvcCloseHandle" "handler_ok SvcWaitSynchronization"
  by (rule handler_okI,
      auto simp: SvcSignalEvent_def SvcClearEvent_def SvcResetSignal_def SvcCloseHandle_def
        SvcWaitSynchronization_def sys_inv_handles ht_Close_inv sys_inv_def Let_def
        split: option.splits if_splits dest: get_event_Get intro: put_keeps_inv ht_put_inv)+

lemma k_sys_counters [simp]:
  "k_sys (k\<lparr>k_next_thread_id := i\<rparr>) = k_sys k" "k_sys (k\<lparr>k_stack_next_slot := j\<rparr>) = k_sys k"
  "k_sys (k\<lparr>k_tls_next_slot := l\<rparr>) = k_sys k"
  by simp_all

lemma CreateThread_ok: "handler_ok SvcCreateThread"
  by (rule handler_okI)
    (auto simp: SvcCreateThread_def split_beta Let_def sys_inv_def no_wrap_def
      split: option.splits if_splits intro: ht_Create_no_wrap)

lemma info_handlers_ok: "handler_ok SvcGetSystemTick" "handler_ok SvcBreak" "handler_ok SvcGetInfo"
    "handler_ok SvcReplyAndReceive" "handler_ok SvcReplyAndReceiveWithUserBuffer" "handler_ok SvcManageNamedPort"
  by (rule handler_okI,
      auto simp: SvcGetSystemTick_def SvcBreak_def SvcGetInfo_def SvcReplyAndReceive_def
        SvcReplyAndReceiveWithUserBuffer_def SvcManageNamedPort_def)+

lemma create_pair_ok: "handler_ok (create_pair f)"
proof (rule handler_okI)
  fix e k st r k' st'
  assume h: "create_pair f e k st = (r, k', st')"
  let ?t1 = "snd (ht_Create (k_handles k) (f 0 0))"
  let ?t2 = "snd (ht_Create ?t1 (f 0 0))"
  have abi: "abi_ok st st'"
    using h by (auto simp: create_pair_def split_beta Let_def)
  have k': "k_sys k' = (k_sys k)\<lparr>s_handles := ht_put (ht_put ?t2 (fst (ht_Create (k_handles k) (f 0 0)))
        (f (fst (ht_Create (k_handles k) (f 0 0))) (fst (ht_Create ?t1 (f 0 0)))))
      (fst (ht_Create ?t1 (f 0 0))) (f (fst (ht_Create (k_handles k) (f 0 0))) (fst (ht_Create ?t1 (f 0 0))))\<rparr>"
    using h by (auto simp: create_pair_def split_beta Let_def)
  have inv: "sys_inv (k_sys k')" if i: "sys_inv (k_sys k)" and w: "no_wrap (k_sys k) (k_sys k')"
  proof -
    have "next_index (k_handles k) \<le> next_index (k_handles k) + 2"
      using w by (simp add: k' no_wrap_def add.commute)
    note w2 = word_no_wrap_2 [OF this]
    have "ht_inv (k_handles k)"
      using i by (simp add: sys_inv_def)
    then have t1: "ht_inv ?t1"
      by (rule ht_Create_no_wrap [OF _ w2(1)])
    then have t2: "ht_inv ?t2"
      by (rule ht_Create_no_wrap) (simp only: next_index_Create, rule w2(2))
    have "ht_Get ?t2 (fst (ht_Create (k_handles k) (f 0 0))) \<noteq> None" "ht_Get ?t2 (fst (ht_Create ?t1 (f 0 0))) \<noteq> None"
      by (auto simp: ht_Get_def ht_Create_def Let_def)
    then show ?thesis
      using i t2 by (simp add: k' sys_inv_def ht_put_inv)
  qed
  show "abi_ok st st' \<and> (sys_inv (k_sys k) \<longrightarrow> no_wrap (k_sys k) (k_sys k') \<longrightarrow> sys_inv (k_sys k'))"
    using abi inv by blast
qed

lemma SvcMapSharedMemory_ok: "handler_ok SvcMapSharedMemory"
  by (rule handler_okI)
    (auto simp: SvcMapSharedMemory_def Let_def sys_inv_def intro: ht_put_inv
      split: option.splits kobject.splits if_splits)

lemma SvcConnectToNamedPort_ok: "handler_ok SvcConnectToNamedPort"
  by (rule handler_okI)
    (auto simp: SvcConnectToNamedPort_def split_beta Let_def sys_inv_def no_wrap_def Connect_def new_session_def
      split: option.splits if_splits intro: ipc_inv_push)

lemma SvcSendSyncRequest_ok: "handler_ok SvcSendSyncRequest"
proof (rule handler_okI)
  fix e :: "'w env" and k st r k' st'
  assume c: "service_contract (e_vt e)" and h: "SvcSendSyncRequest e k st = (r, k', st')"
  show "abi_ok st st' \<and> (sys_inv (k_sys k) \<longrightarrow> no_wrap (k_sys k) (k_sys k') \<longrightarrow> sys_inv (k_sys k'))"
    using h service_contract.HandleRequest_inv [OF c, of "k_sys k"]
    by (auto simp: SvcSendSyncRequest_def Let_def split: option.splits if_splits sum.splits prod.splits)
qed

lemma SvcSendSyncRequestWithUserBuffer_ok: "handler_ok SvcSendSyncRequestWithUserBuffer"
proof (rule handler_okI)
  fix e :: "'w env" and k st r k' st'
  assume c: "service_contract (e_vt e)" and h: "SvcSendSyncRequestWithUserBuffer e k st = (r, k', st')"
  show "abi_ok st st' \<and> (sys_inv (k_sys k) \<longrightarrow> no_wrap (k_sys k) (k_sys k') \<longrightarrow> sys_inv (k_sys k'))"
    using h service_contract.HandleRequest_inv [OF c, of "k_sys k"]
    by (auto simp: SvcSendSyncRequestWithUserBuffer_def Let_def split: option.splits if_splits sum.splits prod.splits)
qed

lemmas create_handlers_ok = create_handler_ok [of "KEvent False", folded SvcCreateEvent_def]
  create_handler_ok [of "KResourceLimit (replicate 4 0x7FFFFFFF) (replicate 4 0)", folded SvcCreateResourceLimit_def]
  create_pair_ok [of KSession, folded SvcCreateSession_def] create_pair_ok [of KPort, folded SvcCreatePort_def]

lemma SvcCreateTransferMemory_ok: "handler_ok SvcCreateTransferMemory"
  using create_handler_arg_ok [of "\<lambda>st. KTransferMemory (Arg st 0) (Arg st 1) (ucast (low32 (Arg st 2) AND 7))"]
  by (simp add: handler_ok_def SvcCreateTransferMemory_def)

lemma SvcCreateSharedMemory_ok: "handler_ok SvcCreateSharedMemory"
  using create_handler_arg_ok [of "\<lambda>st. KSharedMemory 0 (Arg st 1) (ucast (low32 (Arg st 2) AND 7)) 0"]
  by (simp add: handler_ok_def SvcCreateSharedMemory_def)

lemma registrations_ok: "list_all (\<lambda>(n, h). n < MAX_SVC \<and> handler_ok h) registrations"
  unfolding registrations_def list.pred_inject prod.case stub_defs
  by (intro conjI TrueI stubs_ok create_handlers_ok memory_handlers_ok thread_handlers_ok event_handlers_ok
      info_handlers_ok CreateThread_ok SvcMapSharedMemory_ok SvcConnectToNamedPort_ok SvcSendSyncRequest_ok
      SvcSendSyncRequestWithUserBuffer_ok SvcCreateTransferMemory_ok SvcCreateSharedMemory_ok)
    (simp_all add: MAX_SVC_def)

lemma svc_table_registered:
  assumes "svc_table num = Some h"
  shows "\<exists>n. (n, h) \<in> set registrations"
proof -
  have "tab num = Some h \<or> (\<exists>n. (n, h) \<in> set rs)"
    if "fold (\<lambda>(n, h). SvcTable_Register n h) rs tab num = Some h" for rs tab
    using that
  proof (induction rs arbitrary: tab)
    case (Cons r rs)
    obtain n g where r: "r = (n, g)" by (cases r)
    with Cons have "SvcTable_Register n g tab num = Some h \<or> (\<exists>n. (n, h) \<in> set rs)"
      by simp
    then show ?case
      by (auto simp: r SvcTable_Register_def split: if_splits)
  qed simp
  from this [of registrations Map.empty] show ?thesis
    using assms by (simp add: svc_table_def)
qed

lemma handler_okD:
  assumes "handler_ok h" and "service_contract (e_vt e)" and "h e k st = (r, k', st')"
  shows "abi_ok st st'" and "sys_inv (k_sys k) \<Longrightarrow> no_wrap (k_sys k) (k_sys k') \<Longrightarrow> sys_inv (k_sys k')"
  using assms by (auto simp: handler_ok_def)

lemma dispatch_ok: "handler_ok (\<lambda>e k st. SvcHandler_Dispatch e num k (st :: GuestThreadState) :: 'w svc_outcome)"
proof (cases "num \<ge> MAX_SVC \<or> (svc_table num :: 'w svc_handler option) = None")
  case True
  then show ?thesis
    by (intro handler_okI) (auto simp: SvcHandler_Dispatch_def Let_def split: if_splits)
next
  case False
  then obtain h where h: "svc_table num = Some (h :: 'w svc_handler)"
    by auto
  obtain n where "(n, h) \<in> set registrations"
    using svc_table_registered [OF h] by blast
  then have "handler_ok h"
    using registrations_ok by (auto simp: list_all_iff)
  then show ?thesis
    using False h by (intro handler_okI) (auto simp: SvcHandler_Dispatch_def Let_def dest: handler_okD split: if_splits)
qed

section \<open>Properties\<close>

text \<open>
  Property C6: every system call, registered or not, keeps the calling convention (only \<open>x0\<close> to \<open>x3\<close>
  may change) and, as long as no 32-bit counter wraps, the invariants of the handle table and the
  session table, whatever the arguments, the memory contents and the host's answers are.
\<close>

theorem dispatch_keeps_contract:
  fixes e :: "'w env"
  assumes "service_contract (e_vt e)" and "SvcHandler_Dispatch e num k st = (r, k', st')"
    and "sys_inv (k_sys k)" and "no_wrap (k_sys k) (k_sys k')"
  shows "abi_ok st st' \<and> sys_inv (k_sys k')"
  using handler_okD [OF dispatch_ok assms(1,2)] assms(3,4) by blast

definition boot_kernel :: "memory option \<Rightarrow> unit svc_world kernel" where
  "boot_kernel mem = \<lparr>k_sys = empty_sys\<lparr>s_mem := mem\<rparr>, k_cur_thread = 0, k_tls_next_slot = 1,
     k_stack_next_slot = 1, k_next_thread_id = 2, k_exited = False, k_crashed = False, k_dump_once = False, k_svc_call_count = 0, k_started = [],
     k_slept = [], k_fixed_tls = 0, k_ticks = 0, k_page_order = []\<rparr>"

definition std_env :: "unit svc_world env" where
  "std_env = \<lparr>e_vt = builtin no_others (\<lambda>_ s. s), e_host = zero_fill_host\<rparr>"

definition zero_regs :: GuestThreadState where
  "zero_regs = \<lparr>gx = replicate 31 0, gsp = 0, gpc = 0\<rparr>"

lemma boot_kernel_inv: "sys_inv (k_sys (boot_kernel mem))"
  using empty_sys_inv(1) by (simp add: boot_kernel_def sys_inv_def empty_sys_def ht_inv_init)

lemma svc_table_events: "svc_table 0x14 = Some SvcCreateEvent"
  by (simp add: svc_table_def registrations_def SvcTable_Register_def MAX_SVC_def)

theorem dispatch_keeps_contract_witness:
  "\<exists>k' st'. SvcHandler_Dispatch std_env 0x14 (boot_kernel None) zero_regs = (Returns, k', st')
     \<and> gx st' ! 1 = 0xD001 \<and> abi_ok zero_regs st' \<and> sys_inv (k_sys k')"
proof -
  obtain k' st' where run: "SvcHandler_Dispatch std_env 0x14 (boot_kernel None) zero_regs = (Returns, k', st')"
      and x1: "gx st' ! 1 = 0xD001" and k': "next_index (k_handles k') = 2" "s_ipc (k_sys k') = static_init"
    by (simp add: SvcHandler_Dispatch_def Let_def MAX_SVC_def svc_table_events SvcCreateEvent_def create_handler_def
        split_beta boot_kernel_def empty_sys_def)
      (simp add: ht_Create_def handle_table_init_def HANDLE_BASE_def setx_def Ret_def zero_regs_def Let_def)
  have "no_wrap (k_sys (boot_kernel None)) (k_sys k')"
    using k' by (simp add: no_wrap_def boot_kernel_def empty_sys_def handle_table_init_def)
  moreover have "service_contract (e_vt std_env)"
    by (simp add: std_env_def std.service_contract_axioms)
  ultimately show ?thesis
    using dispatch_keeps_contract [OF _ run boot_kernel_inv] run x1 by blast
qed

text \<open>The scan returns the first index that satisfies the test.\<close>

lemma first_index_Some:
  "first_index P b xs = Some i \<Longrightarrow> b \<le> i \<and> i < b + length xs \<and> P (xs ! (i - b)) \<and> (\<forall>j < i - b. \<not> P (xs ! j))"
proof (induction xs arbitrary: b)
  case (Cons y ys)
  show ?case
  proof (cases "P y")
    case False
    then have "first_index P (Suc b) ys = Some i"
      using Cons.prems by simp
    from Cons.IH [OF this] have *: "Suc b \<le> i" "i < Suc b + length ys" "P (ys ! (i - Suc b))"
        "\<forall>j < i - Suc b. \<not> P (ys ! j)"
      by auto
    have "\<not> P ((y # ys) ! j)" if "j < i - b" for j
      using that * False by (cases j) auto
    moreover have "(y # ys) ! (i - b) = ys ! (i - Suc b)"
      using * by (simp add: Suc_diff_le nth_Cons')
    ultimately show ?thesis
      using * by auto
  qed (use Cons.prems in auto)
qed simp

lemma first_index_None: "first_index P b xs = None \<longleftrightarrow> (\<forall>x \<in> set xs. \<not> P x)"
  by (induction xs arbitrary: b) auto

lemma ret_code_distinct: "ret_code TimedOut \<noteq> 0" "ret_code InvalidHandle \<noteq> 0"
  by (simp_all add: ret_code_def)

lemma Arg_setx [simp]: "i < length (gx st) \<Longrightarrow> Arg (setx j v st) i = (if i = j then v else Arg st i)"
  by (auto simp: Arg_def setx_def nth_list_update)

lemma Arg_Ret [simp]: "i < length (gx st) \<Longrightarrow> Arg (Ret v st) i = (if i = 0 then v else Arg st i)"
  by (simp add: Ret_def)

lemma length_gx [simp]: "length (gx (setx i v st)) = length (gx st)" "length (gx (Ret v st)) = length (gx st)"
  by (simp_all add: setx_def Ret_def)

text \<open>
  What an undisturbed \<open>WaitSynchronization\<close> answers. Success comes with the index of a
  handle of the guest's array that is signaled (or one of the two values that count as always
  signaled), and no handle of the same kind stands before it; \<open>TimedOut\<close> and blocking happen only when
  no handle of the array is signaled, blocking only for a negative timeout. Objects do not change.
\<close>

theorem wait_answer_sound:
  assumes "k_mem k = Some m" and "0 < sint (low32 (Arg st 2))" and "length (gx st) = 31"
    and "SvcWaitSynchronization e k st = (r, k', st')"
    and "hs = read_handles m (to_guest m (Arg st 1)) (nat (sint (low32 (Arg st 2))))"
  shows "k_handles k' = k_handles k
    \<and> (if r = Returns \<and> Arg st' 0 = 0
       then \<exists>i < length hs. Arg st' 1 = of_nat i \<and>
          (auto_signaled (hs ! i) \<and> (\<forall>j < i. \<not> auto_signaled (hs ! j))
           \<or> handle_signaled (k_handles k) (hs ! i) \<and> (\<forall>j < i. \<not> handle_signaled (k_handles k) (hs ! j)))
       else (\<forall>h \<in> set hs. \<not> auto_signaled h \<and> \<not> handle_signaled (k_handles k) h)
          \<and> (r = Blocks \<longleftrightarrow> sint (Arg st 3) < 0))"
proof -
  let ?a = "first_index auto_signaled 0 hs" and ?s = "first_index (handle_signaled (k_handles k)) 0 hs"
  have run: "SvcWaitSynchronization e k st =
      (case ?a of
         Some i \<Rightarrow> (Returns, k, setx 1 (of_nat i) (Ret 0 st))
       | None \<Rightarrow> (case ?s of
           Some i \<Rightarrow> (Returns, k, setx 1 (of_nat i) (Ret 0 st))
         | None \<Rightarrow> if sint (Arg st 3) < 0 then (Blocks, k, st)
             else (Returns, k\<lparr>k_slept := k_slept k @ (if sint (Arg st 3) > 0 then [sint (Arg st 3)] else [])\<rparr>,
                   setx 1 0 (Ret (ret_code TimedOut) st))))"
    unfolding SvcWaitSynchronization_def Let_def assms(5) using assms(2) by (simp add: assms(1))
  show ?thesis
  proof (cases ?a)
    case (Some i)
    then show ?thesis
      using run assms(3,4) first_index_Some [OF Some] by auto
  next
    case a: None
    show ?thesis
    proof (cases ?s)
      case (Some i)
      then show ?thesis
        using run a assms(3,4) first_index_Some [OF Some] by auto
    next
      case None
      have "\<forall>h \<in> set hs. \<not> auto_signaled h \<and> \<not> handle_signaled (k_handles k) h"
        using a None by (auto simp: first_index_None)
      then show ?thesis
        using run a None assms(3,4) by (auto simp: ret_code_distinct split: if_splits)
    qed
  qed
qed

text \<open>A guest memory with one handle at address \<open>0x1000\<close>.\<close>

definition one_handle_mem :: memory where
  "one_handle_mem = try_write (Memory_init (\<lambda>_. 0)) 0x1000 (le_bytes 4 (0xD001 :: u32))"

theorem wait_answer_sound_witness:
  "\<exists>k' st'. SvcWaitSynchronization std_env (boot_kernel (Some one_handle_mem))
       (setx 2 1 (setx 1 0x1000 zero_regs)) = (Returns, k', st') \<and> k_handles k' = handle_table_init"
proof -
  let ?k = "boot_kernel (Some one_handle_mem)" and ?st = "setx 2 1 (setx 1 0x1000 zero_regs)"
  have regs: "Arg ?st 1 = 0x1000" "Arg ?st 2 = 1" "Arg ?st 3 = 0" "length (gx ?st) = 31"
    by (simp_all add: zero_regs_def setx_def Arg_def)
  obtain r k' st' where run: "SvcWaitSynchronization std_env ?k ?st = (r, k', st')"
    by (cases "SvcWaitSynchronization std_env ?k ?st")
  have k: "low32 1 = 1" "k_mem ?k = Some one_handle_mem" "k_handles ?k = handle_table_init"
    by (simp_all add: low32_def boot_kernel_def empty_sys_def)
  have *: "k_handles k' = handle_table_init \<and> (r \<noteq> Returns \<longrightarrow> (r = Blocks \<longleftrightarrow> False))"
    using wait_answer_sound [OF k(2) _ regs(4) run refl] regs k by (auto split: if_splits)
  have "r = Returns \<or> r = Blocks"
    using run regs k by (auto simp: SvcWaitSynchronization_def Let_def split: option.splits if_splits)
  with * run show ?thesis by blast
qed

text \<open>
  Events through their handles: signaling a live event makes it, and only it, signaled
  for later waits; clearing undoes that; both report success. Signaling anything that is not an event
  reports \<open>InvalidHandle\<close> and changes nothing, clearing it silently does nothing.
\<close>

theorem event_svc_spec:
  assumes "length (gx st) = 31"
  defines "h \<equiv> low32 (Arg st 0)"
  shows "case get_event (k_handles k) h of
      Some b \<Rightarrow>
        (\<exists>k' st'. SvcSignalEvent e k st = (Returns, k', st') \<and> Arg st' 0 = 0
           \<and> (\<forall>g. handle_signaled (k_handles k') g = (g = h \<or> handle_signaled (k_handles k) g)))
        \<and> (\<exists>k' st'. SvcClearEvent e k st = (Returns, k', st') \<and> Arg st' 0 = 0
           \<and> (\<forall>g. handle_signaled (k_handles k') g = (g \<noteq> h \<and> handle_signaled (k_handles k) g)))
    | None \<Rightarrow>
        (\<exists>st'. SvcSignalEvent e k st = (Returns, k, st') \<and> Arg st' 0 = ret_code InvalidHandle)
        \<and> (\<exists>st'. SvcClearEvent e k st = (Returns, k, st') \<and> Arg st' 0 = 0)"
  using assms by (auto simp: SvcSignalEvent_def SvcClearEvent_def handle_signaled_def Let_def split: option.splits)

theorem event_svc_spec_witness:
  "\<exists>st'. SvcSignalEvent std_env (boot_kernel None) zero_regs = (Returns, boot_kernel None, st')
     \<and> Arg st' 0 = 0x2001"
  using event_svc_spec [where st = zero_regs and k = "boot_kernel None" and e = std_env]
  by (simp add: zero_regs_def boot_kernel_def empty_sys_def get_event_def ht_Get_def handle_table_init_def
      ret_code_def)
text \<open>Helpers for the thread and memory calls.\<close>

lemma map_and_clear_image:
  assumes "a < ADDR_SPACE_SIZE" and "x - (base_addr m + a) < n"
  shows "image (map_and_clear host a n m) x = 0"
  using assms by (simp add: map_and_clear_def memset_guest_def Pointer_def IsValid_def fill_image_def)

lemma memset_guest_pages [simp]: "pages (memset_guest m a b n) = pages m" "base_addr (memset_guest m a b n) = base_addr m"
  by (simp_all add: memset_guest_def split: option.splits)

lemma map_and_clear_base [simp]: "base_addr (map_and_clear host a n m) = base_addr m"
  by (simp add: map_and_clear_def)

lemma tls_not_a_page: "snd (MapPhysical host m a TLS_PER_THREAD perm data) = m"
  by (simp add: MapPhysical_def IsAligned_def TLS_PER_THREAD_def PAGE_SIZE_def)

lemma map_and_clear_tls_pages: "pages (map_and_clear host a TLS_PER_THREAD m) = pages m"
  by (simp add: map_and_clear_def tls_not_a_page)

lemma set_access [simp]:
  "k_mem (set_mem m k) = Some m" "k_handles (set_mem m k) = k_handles k"
  "k_mem (set_handles ht k) = k_mem k" "k_handles (set_handles ht k) = ht"
  "k_tls_next_slot (set_mem m k) = k_tls_next_slot k" "k_tls_next_slot (set_handles ht k) = k_tls_next_slot k"
  by (simp_all add: set_mem_def set_handles_def)

lemma get_thread_Create:
  "get_thread (snd (ht_Create t (KThread th))) (fst (ht_Create t (KThread th))) = Some th"
  by (simp add: get_thread_def ht_Get_def ht_Create_def Let_def)

text \<open>
  Creating a thread with a caller-supplied stack succeeds, returns a handle of an
  unstarted thread whose entry, argument, stack and thread-local storage are as the arguments and the
  slot counter say, and clears its thread-local block; the block is never entered into the page table,
  because its size is not a multiple of the page size and \<open>MapPhysical\<close> rejects it.
\<close>

theorem CreateThread_spec:
  assumes "k_mem k = Some m" and "length (gx st) = 31" and "Arg st 3 \<noteq> 0"
    and "tls_slot_addr (k_tls_next_slot k) < ADDR_SPACE_SIZE"
    and "SvcCreateThread e k st = (r, k', st')"
  defines "tls \<equiv> tls_slot_addr (k_tls_next_slot k)"
  shows "r = Returns \<and> Arg st' 0 = 0
    \<and> (\<exists>t. get_thread (k_handles k') (low32 (Arg st' 1)) = Some t
         \<and> entry_point t = base_addr m + Arg st 1 \<and> kt_arg t = Arg st 2
         \<and> kt_stack_top t = base_addr m + Arg st 3 \<and> tls_base t = tls \<and> \<not> started t \<and> \<not> finished t)
    \<and> (\<exists>m'. k_mem k' = Some m' \<and> pages m' = pages m
         \<and> (\<forall>i < TLS_PER_THREAD. image m' (base_addr m + tls + i) = 0))
    \<and> k_tls_next_slot k' = k_tls_next_slot k + 1"
proof -
  let ?t = "KThread_new\<lparr>entry_point := base_addr m + Arg st 1, kt_arg := Arg st 2, priority := low32 (Arg st 4),
      ideal_core := (if sint (low32 (Arg st 5)) < 0 then 0 else low32 (Arg st 5)), thread_id := k_next_thread_id k,
      kt_stack_top := base_addr m + Arg st 3, tls_base := tls\<rparr>"
  let ?m = "map_and_clear (e_host e) tls TLS_PER_THREAD m"
  let ?k = "set_mem ?m (k\<lparr>k_next_thread_id := k_next_thread_id k + 1, k_tls_next_slot := k_tls_next_slot k + 1\<rparr>)"
  have run: "SvcCreateThread e k st = (Returns, set_handles (snd (ht_Create (k_handles k) (KThread ?t))) ?k,
      Ret 0 (setx 1 (ucast (fst (ht_Create (k_handles k) (KThread ?t)))) st))"
    using assms(1,3) by (simp add: SvcCreateThread_def Let_def split_beta tls_def)
  have "low32 (ucast h) = h" for h :: u32
    unfolding low32_def by (rule ucast_up_ucast_id) (simp add: is_up)
  moreover have "image ?m (base_addr m + tls + i) = 0" if "i < TLS_PER_THREAD" for i
    using that assms(4) by (intro map_and_clear_image) (simp_all add: tls_def)
  ultimately show ?thesis
    using run assms(2,5) by (auto simp: get_thread_Create KThread_new_def map_and_clear_tls_pages)
qed
text \<open>Threads that \<open>CreateThread\<close> makes start in a guest memory that is all zero.\<close>

theorem CreateThread_spec_witness:
  "\<exists>k' st' t. SvcCreateThread std_env (boot_kernel (Some (Memory_init (\<lambda>_. 0))))
      (setx 3 0x8000 (setx 1 0x4000 zero_regs)) = (Returns, k', st')
    \<and> get_thread (k_handles k') (low32 (Arg st' 1)) = Some t \<and> tls_base t = 0xFD000200"
proof -
  let ?k = "boot_kernel (Some (Memory_init (\<lambda>_. 0)))" and ?st = "setx 3 0x8000 (setx 1 0x4000 zero_regs)"
  obtain r k' st' where run: "SvcCreateThread std_env ?k ?st = (r, k', st')"
    by (cases "SvcCreateThread std_env ?k ?st")
  have st: "length (gx ?st) = 31" "Arg ?st 3 \<noteq> 0"
    by (simp_all add: zero_regs_def setx_def Arg_def)
  have k: "k_mem ?k = Some (Memory_init (\<lambda>_. 0))" "tls_slot_addr (k_tls_next_slot ?k) = 0xFD000200"
    by (simp_all add: boot_kernel_def empty_sys_def tls_slot_addr_def thread_consts)
  then have "tls_slot_addr (k_tls_next_slot ?k) < ADDR_SPACE_SIZE"
    by (simp add: ADDR_SPACE_SIZE_def)
  from CreateThread_spec [OF k(1) st this run]
  obtain t where "get_thread (k_handles k') (low32 (Arg st' 1)) = Some t" "tls_base t = 0xFD000200" and "r = Returns"
    unfolding k(2) by blast
  then show ?thesis
    using run by blast
qed

lemma tls_slot_in_stack_32:
  assumes "slot < 2048"
  shows "tls_slot_addr slot - stack_slot_addr 32 = ucast slot * TLS_PER_THREAD"
    and "i < TLS_PER_THREAD \<Longrightarrow> tls_slot_addr slot - stack_slot_addr 32 + i < STACK_PER_THREAD"
    and "tls_slot_addr slot < ADDR_SPACE_SIZE"
proof -
  have s: "unat slot < 2048"
    using assms by (simp add: word_less_nat_alt)
  show d: "tls_slot_addr slot - stack_slot_addr 32 = ucast slot * TLS_PER_THREAD"
    by (simp add: tls_slot_addr_def stack_slot_addr_def thread_consts)
  have m: "unat (ucast slot * TLS_PER_THREAD :: u64) = unat slot * 0x200"
    using s by (simp add: unat_word_ariths TLS_PER_THREAD_def unsigned_ucast_eq take_bit_nat_eq_self)
  show "tls_slot_addr slot - stack_slot_addr 32 + i < STACK_PER_THREAD" if "i < TLS_PER_THREAD"
    using s m that unfolding d word_less_nat_alt by (simp add: unat_word_ariths thread_consts)
  show "tls_slot_addr slot < ADDR_SPACE_SIZE"
    using s m unfolding tls_slot_addr_def word_less_nat_alt by (simp add: unat_word_ariths thread_consts ADDR_SPACE_SIZE_def)
qed

text \<open>
  The thread that receives the stack slot 32 is given the memory that holds the
  thread-local blocks of the first 2048 threads as its stack, and creating it overwrites the blocks of
  all threads that already run with zeros.
\<close>

theorem stack_slot_32_erases_tls:
  assumes "k_mem k = Some m" and "Arg st 3 = 0" and "k_stack_next_slot k = 32"
    and "SvcCreateThread e k st = (r, k', st')" and "slot < 2048" and "i < TLS_PER_THREAD"
  shows "\<exists>m'. k_mem k' = Some m' \<and> image m' (base_addr m + tls_slot_addr slot + i) = 0"
proof -
  let ?m = "map_and_clear (e_host e) (stack_slot_addr 32) STACK_PER_THREAD m"
  let ?tls = "tls_slot_addr (k_tls_next_slot k)"
  let ?x = "base_addr m + tls_slot_addr slot + i"
  have "k_mem k' = Some (map_and_clear (e_host e) ?tls TLS_PER_THREAD ?m)"
    using assms(1-4) by (auto simp: SvcCreateThread_def Let_def split_beta)
  moreover have "stack_slot_addr 32 < ADDR_SPACE_SIZE"
    by (simp add: stack_slot_addr_def thread_consts ADDR_SPACE_SIZE_def)
  then have "image ?m ?x = 0"
    using tls_slot_in_stack_32(2) [OF assms(5,6)] by (intro map_and_clear_image) (simp_all add: algebra_simps)
  moreover have "image (map_and_clear (e_host e) ?tls TLS_PER_THREAD ?m) ?x = 0" if "image ?m ?x = 0"
    using that unfolding map_and_clear_def [of _ ?tls] tls_not_a_page
    by (simp add: memset_guest_def fill_image_def split: option.splits)
  ultimately show ?thesis
    by simp
qed

theorem stack_slot_32_erases_tls_witness:
  "\<exists>k' st' m'. SvcCreateThread std_env
       (boot_kernel (Some (try_write (Memory_init (\<lambda>_. 0)) 0xFD000200 [7]))\<lparr>k_stack_next_slot := 32\<rparr>) zero_regs
     = (Returns, k', st') \<and> k_mem k' = Some m' \<and> image m' 0x3FD000200 = 0"
proof -
  let ?m = "try_write (Memory_init (\<lambda>_. 0)) 0xFD000200 [7]"
  let ?k = "boot_kernel (Some ?m)\<lparr>k_stack_next_slot := 32\<rparr>"
  obtain k' st' where run: "SvcCreateThread std_env ?k zero_regs = (Returns, k', st')"
    by (simp add: SvcCreateThread_def Let_def split_beta)
  have "base_addr ?m + tls_slot_addr 1 + 0 = 0x3FD000200"
    by (simp add: try_write_def Write_def Memory_init_def tls_slot_addr_def thread_consts split: sum.splits)
  then show ?thesis
    using stack_slot_32_erases_tls [OF _ _ _ run, of ?m 1 0] run
    by (auto simp: boot_kernel_def empty_sys_def Arg_def zero_regs_def TLS_PER_THREAD_def)
qed
text \<open>
  The life of a thread as its handle shows it. Starting a thread that was never started
  launches exactly one host thread with its entry point and leaves the handle unsignaled; starting it
  again changes nothing; when the thread calls \<open>ExitThread\<close>, its handle, and no other, becomes signaled,
  so that waiters are released.
\<close>

theorem thread_lifecycle:
  assumes "get_thread (k_handles k) h = Some t" and "\<not> started t" and "\<not> finished t" and "h \<noteq> 0"
    and "low32 (Arg st 0) = h" and "low32 (Arg st2 0) = h" and "length (gx st) = 31"
    and "SvcStartThread e k st = (r1, k1, st1)" and "k_cur_thread k1' = h" and "k_handles k1' = k_handles k1"
    and "SvcExitThread e k1' st3 = (r3, k3, st4)"
  shows "r1 = Returns \<and> Arg st1 0 = 0 \<and> (\<exists>t'. k_started k1 = k_started k @ [(h, t')] \<and> entry_point t' = entry_point t)
    \<and> (\<forall>g. handle_signaled (k_handles k1) g = handle_signaled (k_handles k) g) \<and> \<not> handle_signaled (k_handles k1) h
    \<and> SvcStartThread e k1 st2 = (Returns, k1, Ret 0 st2)
    \<and> r3 = ThreadExits \<and> k_cur_thread k3 = 0
    \<and> (\<forall>g. handle_signaled (k_handles k3) g = (g = h \<or> handle_signaled (k_handles k1) g))"
proof -
  let ?t = "t\<lparr>started := True, running := True, wake_event := Some False\<rparr>"
  have k1: "k1 = (set_handles (ht_put (k_handles k) h (KThread ?t)) k)\<lparr>k_started := k_started k @ [(h, ?t)]\<rparr>"
      and r1: "r1 = Returns" "st1 = Ret 0 st"
    using assms(1,2,5,8) by (auto simp: SvcStartThread_def Let_def)
  have ob: "ht_Get (k_handles k) h = Some (KThread t)"
    using assms(1) by (auto simp: get_thread_def split: option.splits kobject.splits)
  have t1: "get_thread (k_handles k1) h = Some ?t"
    by (simp add: k1 get_thread_def)
  have again: "SvcStartThread e k1 st2 = (Returns, k1, Ret 0 st2)"
    using t1 assms(6) by (simp add: SvcStartThread_def Let_def)
  have same: "handle_signaled (k_handles k1) g = handle_signaled (k_handles k) g" for g
    using ob by (auto simp: k1 handle_signaled_def)
  have exit: "r3 = ThreadExits" "k_cur_thread k3 = 0" "k_handles k3 = host_thread_end h (k_handles k1)"
    using assms(4,9,10,11) by (auto simp: SvcExitThread_def Let_def set_handles_def)
  have "handle_signaled (k_handles k3) g = (g = h \<or> handle_signaled (k_handles k1) g)" for g
    unfolding exit(3) host_thread_end_def t1 by (simp add: handle_signaled_def MarkFinished_def)
  moreover have "\<not> handle_signaled (k_handles k1) h"
    using ob assms(3) by (simp add: same) (simp add: handle_signaled_def)
  ultimately show ?thesis
    using again same exit r1 assms(7) by (auto simp: k1)
qed

definition one_thread_kernel :: "unit svc_world kernel" where
  "one_thread_kernel = set_handles (snd (ht_Create handle_table_init (KThread (KThread_new\<lparr>entry_point := 0x4000\<rparr>))))
     (boot_kernel None)"

theorem thread_lifecycle_witness:
  "\<exists>k1 k3. SvcStartThread std_env one_thread_kernel (setx 0 0xD001 zero_regs) = (Returns, k1, Ret 0 (setx 0 0xD001 zero_regs))
     \<and> SvcExitThread std_env (k1\<lparr>k_cur_thread := 0xD001\<rparr>) zero_regs = (ThreadExits, k3, zero_regs)
     \<and> \<not> handle_signaled (k_handles k1) 0xD001 \<and> handle_signaled (k_handles k3) 0xD001"
proof -
  let ?st = "setx 0 0xD001 zero_regs" and ?t = "KThread_new\<lparr>entry_point := 0x4000\<rparr>"
  have k: "get_thread (k_handles one_thread_kernel) 0xD001 = Some ?t"
    by (simp add: one_thread_kernel_def get_thread_def ht_Get_def ht_Create_def handle_table_init_def HANDLE_BASE_def Let_def)
  have t: "\<not> started ?t" "\<not> finished ?t"
    by (simp_all add: KThread_new_def)
  have st: "low32 (Arg ?st 0) = 0xD001" "length (gx ?st) = 31"
    by (simp_all add: low32_def Arg_def setx_def zero_regs_def)
  obtain k1 where run: "SvcStartThread std_env one_thread_kernel ?st = (Returns, k1, Ret 0 ?st)"
    using k t st by (simp add: SvcStartThread_def Let_def)
  obtain k3 where ex: "SvcExitThread std_env (k1\<lparr>k_cur_thread := 0xD001\<rparr>) zero_regs = (ThreadExits, k3, zero_regs)"
    by (simp add: SvcExitThread_def Let_def)
  show ?thesis
    using thread_lifecycle [OF k t _ st(1,1,2) run _ _ ex] run ex by auto
qed

text \<open>
  \<open>SetHeapSize\<close> as a system call reports success whatever the memory manager answered: for
  every request above 1 GiB (that does not wrap) the heap keeps its size, yet \<open>x0\<close> is zero and \<open>x1\<close> is
  the heap address.
\<close>

theorem SetHeapSize_svc_hides_failure:
  assumes "k_mem k = Some m" and "length (gx st) = 31"
    and "0x40000000 < Arg st 0" and "Arg st 0 \<le> 0xFFFFFFFFFFFFF000"
  shows "fst (SetHeapSize (e_host e) m (Arg st 0)) = OutOfMemory
    \<and> (\<exists>k' st' m'. SvcSetHeapSize e k st = (Returns, k', st') \<and> Arg st' 0 = 0 \<and> Arg st' 1 = base_addr m + heap_addr m
         \<and> k_mem k' = Some m' \<and> heap_size m' = heap_size m)"
proof -
  have "unat (AlignUp (Arg st 0) PAGE_SIZE) \<ge> unat (Arg st 0)"
    unfolding PAGE_SIZE_pow using assms(4) by (intro AlignUp_bounds(1)) (simp_all add: word_le_nat_alt)
  then have "SetHeapSize (e_host e) m (Arg st 0) = (OutOfMemory, m)"
    using assms(3) by (simp add: SetHeapSize_def word_less_nat_alt)
  moreover have "Arg st 0 > 0"
    using assms(3) by (simp add: word_less_nat_alt)
  ultimately show ?thesis
    using assms(1,2) by (auto simp: SvcSetHeapSize_def Let_def)
qed
theorem SetHeapSize_svc_hides_failure_witness:
  "\<exists>k' st'. SvcSetHeapSize std_env (boot_kernel (Some (Memory_init (\<lambda>_. 0)))) (setx 0 0x80000000 zero_regs)
       = (Returns, k', st') \<and> Arg st' 0 = 0 \<and> Arg st' 1 = 0x380000000"
proof -
  let ?k = "boot_kernel (Some (Memory_init (\<lambda>_. 0)))" and ?st = "setx 0 0x80000000 zero_regs"
  have k: "k_mem ?k = Some (Memory_init (\<lambda>_. 0))" and st: "Arg ?st 0 = 0x80000000" "length (gx ?st) = 31"
    by (simp_all add: boot_kernel_def empty_sys_def Arg_def setx_def zero_regs_def)
  have heap: "base_addr (Memory_init (\<lambda>_. 0)) + heap_addr (Memory_init (\<lambda>_. 0)) = 0x380000000"
    by (simp add: Memory_init_def HEAP_BASE_def)
  show ?thesis
    using SetHeapSize_svc_hides_failure [OF k st(2), of std_env] unfolding st(1) heap by auto
qed

text \<open>
  For every address below 4 GiB, \<open>MapSharedMemory\<close> takes the memory for mapped without
  looking at the page table, so it never maps anything: it reports success and records the address in
  the object, but the page table stays as it was.
\<close>

theorem MapSharedMemory_never_maps:
  assumes "k_mem k = Some m" and "ht_Get (k_handles k) (low32 (Arg st 0)) = Some (KSharedMemory ad sz pm ph)"
    and "length (gx st) = 31" and "shared_map_addr m (Arg st 1) ad ph < ADDR_SPACE_SIZE"
  shows "\<exists>k' st' m'. SvcMapSharedMemory e k st = (Returns, k', st') \<and> Arg st' 0 = 0
    \<and> k_mem k' = Some m' \<and> pages m' = pages m
    \<and> ht_Get (k_handles k') (low32 (Arg st 0)) = Some (KSharedMemory (shared_map_addr m (Arg st 1) ad ph) sz pm ph)"
proof -
  define a where "a = shared_map_addr m (Arg st 1) ad ph"
  have "Pointer m a = Some (base_addr m + a)"
    using assms(4) by (simp add: a_def Pointer_def IsValid_def)
  moreover have "pages (try_write m a bs) = pages m" for a bs
    by (simp add: try_write_def Write_def split: sum.splits)
  ultimately show ?thesis
    using assms(1-3) by (simp add: SvcMapSharedMemory_def Let_def del: One_nat_def flip: a_def)
qed

theorem MapSharedMemory_never_maps_witness:
  "\<exists>k' st' m'. SvcMapSharedMemory std_env
       (set_handles (snd (ht_Create handle_table_init (KSharedMemory 0x10000 0x1000 3 0)))
          (boot_kernel (Some (Memory_init (\<lambda>_. 0))))) (setx 0 0xD001 zero_regs) = (Returns, k', st')
     \<and> Arg st' 0 = 0 \<and> k_mem k' = Some m' \<and> pages m' 0x10000 = None"
proof -
  let ?k = "set_handles (snd (ht_Create handle_table_init (KSharedMemory 0x10000 0x1000 3 0)))
    (boot_kernel (Some (Memory_init (\<lambda>_. 0))))"
  let ?st = "setx 0 0xD001 zero_regs" and ?m = "Memory_init (\<lambda>_. 0)"
  have k: "k_mem ?k = Some ?m"
    by (simp add: boot_kernel_def)
  have st: "Arg ?st 0 = 0xD001" "Arg ?st 1 = 0" "length (gx ?st) = 31" "low32 0xD001 = 0xD001"
    by (simp_all add: Arg_def setx_def zero_regs_def low32_def)
  have ob: "ht_Get (k_handles ?k) (low32 (Arg ?st 0)) = Some (KSharedMemory 0x10000 0x1000 3 0)"
    by (simp add: st) (simp add: ht_Get_def ht_Create_def handle_table_init_def HANDLE_BASE_def Let_def)
  have "shared_map_addr ?m (Arg ?st 1) 0x10000 0 < ADDR_SPACE_SIZE"
    by (simp add: st shared_map_addr_def ADDR_SPACE_SIZE_def del: One_nat_def)
  from MapSharedMemory_never_maps [OF k ob st(3) this, of std_env] show ?thesis
    by (auto simp: Memory_init_def)
qed

end
