(* ===== verification/CodePatch.thy ===== *)
theory CodePatch
  imports GuestMemory
begin

unbundle bit_operations_syntax

text \<open>
  Patching guest code before it runs natively: \<^verbatim>\<open>src/src/cpu/NativeExec.cpp\<close> and the address cache of
  \<^verbatim>\<open>src/src/cpu/ExceptionHandler.cpp\<close>.

  Code lives in the byte image of the guest memory, which is indexed by host addresses. Instructions
  are 32-bit words; the two rewrites are functions on words. The host's answers (whether \<^verbatim>\<open>mmap\<close>
  succeeds, the address of the host's thread-local block) are parameters. Cache maintenance and logging
  are left out.
\<close>

section \<open>Patching\<close>

definition get32 :: "image \<Rightarrow> u64 \<Rightarrow> u32" where
  "get32 img a = of_le_bytes (read_image img a 4)"

definition put32 :: "u64 \<Rightarrow> u32 \<Rightarrow> image \<Rightarrow> image" where
  "put32 a w img = write_image img a (le_bytes 4 w)"

definition SVC_MASK :: u32 where "SVC_MASK = 0xFFE0001E"
definition SVC_PATTERN :: u32 where "SVC_PATTERN = 0xD4000000"
definition BRK_BASE :: u32 where "BRK_BASE = 0xD4200000"
definition MAX_SVC_ID :: u32 where "MAX_SVC_ID = 0x100"
definition BRK_TAG_BASE :: u32 where "BRK_TAG_BASE = 0x1000"
definition BRK_TAG_DEBUG :: u32 where "BRK_TAG_DEBUG = 0x6000"
definition MRS_TPIDRRO_MASK :: u32 where "MRS_TPIDRRO_MASK = 0xFFFFFFE0"
definition MRS_TPIDRRO_PATTERN :: u32 where "MRS_TPIDRRO_PATTERN = 0xD53BD060"
definition FIXED_TLS_SIZE :: nat where "FIXED_TLS_SIZE = 0x2000"

lemmas patch_consts = SVC_MASK_def SVC_PATTERN_def BRK_BASE_def MAX_SVC_ID_def BRK_TAG_BASE_def
  BRK_TAG_DEBUG_def MRS_TPIDRRO_MASK_def MRS_TPIDRRO_PATTERN_def

definition tls_candidates :: "u64 list" where
  "tls_candidates = map (\<lambda>k. 0x100000000 * of_nat k) [1..<16]"

definition EnsureFixedTls :: "(u64 \<Rightarrow> bool) \<Rightarrow> u64 \<Rightarrow> u64 \<Rightarrow> image \<Rightarrow> bool \<times> u64 \<times> image" where
  "EnsureFixedTls mmap_ok host_tls tls img =
     (if tls \<noteq> 0 then (True, tls, img)
      else case find mmap_ok tls_candidates of
             Some a \<Rightarrow> (True, a, write_image img a (read_image img host_tls FIXED_TLS_SIZE))
           | None \<Rightarrow> (False, tls, img))"

definition MakeFixedTlsLoad :: "u64 \<Rightarrow> u32 \<Rightarrow> u32" where
  "MakeFixedTlsLoad tls r = 0xD2800000 OR push_bit 21 2 OR push_bit 5 (ucast (drop_bit 32 tls)) OR r"

text \<open>The tests and the replacement words of the loop body.\<close>

definition is_svc :: "u32 \<Rightarrow> bool" where
  "is_svc inst \<longleftrightarrow> inst AND SVC_MASK = SVC_PATTERN"

definition svc_num :: "u32 \<Rightarrow> u32" where
  "svc_num inst = drop_bit 5 inst AND 0xFFFF"

definition svc_brk :: "u32 \<Rightarrow> u32" where
  "svc_brk n = BRK_BASE OR push_bit 5 ((BRK_TAG_BASE + n) AND 0xFFFF)"

definition is_mrs_tls :: "u32 \<Rightarrow> bool" where
  "is_mrs_tls inst \<longleftrightarrow> inst AND MRS_TPIDRRO_MASK = MRS_TPIDRRO_PATTERN"

definition BrkCache_Add :: "u64 \<Rightarrow> u32 \<Rightarrow> (u64 \<rightharpoonup> u32) \<Rightarrow> (u64 \<rightharpoonup> u32)" where
  "BrkCache_Add host_addr num cache = cache(host_addr \<mapsto> BRK_TAG_BASE + num)"

definition BrkCache_Clear :: "(u64 \<rightharpoonup> u32) \<Rightarrow> (u64 \<rightharpoonup> u32)" where
  "BrkCache_Clear cache = Map.empty"

record patcher =
  p_img :: image
  p_map :: "(u32 \<times> u32) list"
  p_cache :: "u64 \<rightharpoonup> u32"

text \<open>One iteration; \<open>tls\<close> is \<open>None\<close> when there is no fixed block.\<close>

definition patch_word :: "u64 option \<Rightarrow> u64 \<Rightarrow> patcher \<Rightarrow> patcher" where
  "patch_word tls a p =
     (let inst = get32 (p_img p) a; n = svc_num inst in
      if is_svc inst \<and> n \<ge> MAX_SVC_ID then p
      else
        let p1 = (if is_svc inst
                  then p\<lparr>p_img := put32 a (svc_brk n) (p_img p), p_map := p_map p @ [(BRK_TAG_BASE + n, n)],
                         p_cache := BrkCache_Add a n (p_cache p)\<rparr>
                  else p)
        in case tls of
             Some t \<Rightarrow> if is_mrs_tls inst then p1\<lparr>p_img := put32 a (MakeFixedTlsLoad t (inst AND 0x1F)) (p_img p1)\<rparr> else p1
           | None \<Rightarrow> p1)"

text \<open>The address of instruction \<open>i\<close> of a buffer.\<close>

definition insn_addr :: "u64 \<Rightarrow> nat \<Rightarrow> u64" where
  "insn_addr code i = code + of_nat (4 * i)"

text \<open>
  The loop: \<open>i\<close> counts instructions. The source counts bytes in 64 bits, which makes no difference for
  buffers shorter than \<open>2^64 - 4\<close> bytes.
\<close>

fun patch_loop :: "u64 option \<Rightarrow> u64 \<Rightarrow> nat \<Rightarrow> nat \<Rightarrow> patcher \<Rightarrow> patcher" where
  "patch_loop tls code i 0 p = p"
| "patch_loop tls code i (Suc k) p = patch_loop tls code (Suc i) k (patch_word tls (insn_addr code i) p)"

definition PatchSVCs ::
    "(u64 \<Rightarrow> bool) \<Rightarrow> u64 \<Rightarrow> u64 \<Rightarrow> u64 \<Rightarrow> u64 \<Rightarrow> patcher \<Rightarrow> Result \<times> u64 \<times> patcher" where
  "PatchSVCs mmap_ok host_tls tls code sz p =
     (if code = 0 \<or> sz < 4 \<or> sz mod 4 \<noteq> 0 then (InvalidArgument, tls, p)
      else
        let (has_tls, tls', img) = EnsureFixedTls mmap_ok host_tls tls (p_img p);
            p0 = p\<lparr>p_img := img, p_map := []\<rparr>
        in (Success, tls', patch_loop (if has_tls then Some tls' else None) code 0 (unat sz div 4) p0))"

section \<open>Words of code\<close>

lemma get_put32_same [simp]: "get32 (put32 a w img) a = w"
  using read_write_image_same [of "le_bytes 4 w" img a] by (simp add: get32_def put32_def)

lemma get_put32_other:
  assumes "\<And>i. i < 4 \<Longrightarrow> 4 \<le> unat (b + of_nat i - a)"
  shows "get32 (put32 a w img) b = get32 img b"
  using assms by (simp add: get32_def put32_def read_write_image_other)

text \<open>Different words of one buffer do not overlap.\<close>

lemma word_offset_diff:
  fixes code :: u64
  assumes "i < n" and "j < n" and "i \<noteq> j" and "k < 4" and "4 * n < 2 ^ 64"
  shows "4 \<le> unat (insn_addr code i + of_nat k - insn_addr code j)"
proof -
  have u: "unat (of_nat m :: u64) = m" if "m < 2 ^ 64" for m
    using that by (simp add: unsigned_of_nat take_bit_nat_eq_self)
  have eq: "insn_addr code i + of_nat k - insn_addr code j = (of_nat (4 * i + k) - of_nat (4 * j) :: u64)"
    by (simp add: insn_addr_def)
  have "unat (of_nat (4 * i + k) :: u64) = 4 * i + k" "unat (of_nat (4 * j) :: u64) = 4 * j"
    using assms by (intro u; simp)+
  then have "4 \<le> unat (of_nat (4 * i + k) - of_nat (4 * j) :: u64)"
    unfolding unat_sub_if' word_le_nat_alt using assms by auto
  then show ?thesis
    unfolding eq .
qed

lemma get_put32_word:
  assumes "i < n" and "j < n" and "4 * n < 2 ^ 64"
  shows "get32 (put32 (insn_addr code j) w img) (insn_addr code i) =
    (if i = j then w else get32 img (insn_addr code i))"
  using get_put32_other [OF word_offset_diff [OF assms(1,2) _ _ assms(3)], of code w img] by (cases "i = j") auto

lemma code_addr_inj:
  assumes "i < n" and "j < n" and "4 * n < 2 ^ 64" and "insn_addr code i = insn_addr code j"
  shows "i = j"
  using word_offset_diff [OF assms(1,2) _ _ assms(3), of 0 code] assms(4) by (cases "i = j") auto
section \<open>What the loop does\<close>

definition svc_site :: "u32 \<Rightarrow> bool" where
  "svc_site inst \<longleftrightarrow> is_svc inst \<and> svc_num inst < MAX_SVC_ID"

definition patched_inst :: "u64 option \<Rightarrow> u32 \<Rightarrow> u32" where
  "patched_inst tls inst =
     (if svc_site inst then svc_brk (svc_num inst)
      else case tls of Some t \<Rightarrow> if is_mrs_tls inst then MakeFixedTlsLoad t (inst AND 0x1F) else inst | None \<Rightarrow> inst)"

text \<open>No word is both a system call and a read of the thread pointer.\<close>

lemma svc_not_mrs: "is_svc inst \<Longrightarrow> \<not> is_mrs_tls inst"
proof
  assume "is_svc inst" and "is_mrs_tls inst"
  then have "(inst AND 0xFFE0001E) AND 0xFFE00000 = 0xD4000000" "(inst AND 0xFFFFFFE0) AND 0xFFE00000 = 0xD5200000"
    by (simp_all add: is_svc_def is_mrs_tls_def patch_consts)
  then show False
    by (simp add: and.assoc)
qed

lemma patch_word_img:
  "p_img (patch_word tls a p) = put32 a (patched_inst tls (get32 (p_img p) a)) (p_img p)
   \<or> p_img (patch_word tls a p) = p_img p \<and> patched_inst tls (get32 (p_img p) a) = get32 (p_img p) a"
  using svc_not_mrs [of "get32 (p_img p) a"]
  by (auto simp: patch_word_def patched_inst_def svc_site_def Let_def split: option.splits)

lemma patch_word_rest:
  "p_map (patch_word tls a p) = p_map p @ (let inst = get32 (p_img p) a in
     if svc_site inst then [(BRK_TAG_BASE + svc_num inst, svc_num inst)] else [])"
  "p_cache (patch_word tls a p) = (let inst = get32 (p_img p) a in
     if svc_site inst then (p_cache p)(a \<mapsto> BRK_TAG_BASE + svc_num inst) else p_cache p)"
  by (auto simp: patch_word_def svc_site_def BrkCache_Add_def Let_def split: option.splits)

lemma patch_word_get:
  assumes "i < n" and "j < n" and "4 * n < 2 ^ 64"
  shows "get32 (p_img (patch_word tls (insn_addr code j) p)) (insn_addr code i) =
    (if i = j then patched_inst tls (get32 (p_img p) (insn_addr code i)) else get32 (p_img p) (insn_addr code i))"
  using patch_word_img [of tls "insn_addr code j" p] get_put32_word [OF assms, of code] by auto

abbreviation inst_at :: "image \<Rightarrow> u64 \<Rightarrow> nat \<Rightarrow> u32" where
  "inst_at img code j \<equiv> get32 img (insn_addr code j)"

lemma patch_loop_get:
  assumes "i + k \<le> n" and "j < n" and "4 * n < 2 ^ 64"
  shows "inst_at (p_img (patch_loop tls code i k p)) code j =
    (if i \<le> j \<and> j < i + k then patched_inst tls (inst_at (p_img p) code j) else inst_at (p_img p) code j)"
  using assms(1)
proof (induction k arbitrary: i p)
  case (Suc k)
  have "inst_at (p_img (patch_word tls (insn_addr code i) p)) code j =
      (if j = i then patched_inst tls (inst_at (p_img p) code j) else inst_at (p_img p) code j)"
    using Suc.prems by (intro patch_word_get [OF assms(2) _ assms(3)]) simp
  then show ?case
    using Suc.IH [of "Suc i" "patch_word tls (insn_addr code i) p"] Suc.prems by auto
qed auto

lemma patch_loop_map:
  assumes "i + k \<le> n" and "4 * n < 2 ^ 64"
  shows "p_map (patch_loop tls code i k p) = p_map p @
    map (\<lambda>j. (BRK_TAG_BASE + svc_num (inst_at (p_img p) code j), svc_num (inst_at (p_img p) code j)))
      (filter (\<lambda>j. svc_site (inst_at (p_img p) code j)) [i..<i + k])"
  using assms(1)
proof (induction k arbitrary: i p)
  case (Suc k)
  let ?p = "patch_word tls (insn_addr code i) p"
  have same: "inst_at (p_img ?p) code j = inst_at (p_img p) code j" if "j \<in> set [Suc i..<Suc i + k]" for j
    using that Suc.prems assms(2) by (subst patch_word_get [of j n]) auto
  have "[i..<i + Suc k] = i # [Suc i..<Suc i + k]"
    by (simp add: upt_conv_Cons)
  moreover have "filter (\<lambda>j. svc_site (inst_at (p_img ?p) code j)) [Suc i..<Suc i + k] =
      filter (\<lambda>j. svc_site (inst_at (p_img p) code j)) [Suc i..<Suc i + k]"
    using same by (intro filter_cong) simp_all
  ultimately show ?case
    using Suc.IH [of "Suc i" ?p] Suc.prems same by (auto simp: patch_word_rest(1) Let_def del: upt_Suc)
qed simp

lemma patch_loop_cache:
  assumes "i + k \<le> n" and "4 * n < 2 ^ 64"
  shows "j < n \<Longrightarrow> p_cache (patch_loop tls code i k p) (insn_addr code j) =
      (if i \<le> j \<and> j < i + k \<and> svc_site (inst_at (p_img p) code j)
       then Some (BRK_TAG_BASE + svc_num (inst_at (p_img p) code j)) else p_cache p (insn_addr code j))"
    and "(\<And>j. j < n \<Longrightarrow> x \<noteq> insn_addr code j) \<Longrightarrow> p_cache (patch_loop tls code i k p) x = p_cache p x"
  using assms(1)
proof (induction k arbitrary: i p)
  case (Suc k)
  { case (1 i p)
    let ?p = "patch_word tls (insn_addr code i) p"
    have "insn_addr code j = insn_addr code i \<longleftrightarrow> j = i"
      using code_addr_inj [of j n i code] 1 assms(2) by auto
    moreover have "inst_at (p_img ?p) code j = inst_at (p_img p) code j" if "j \<noteq> i"
      using that 1 assms(2) by (subst patch_word_get [of j n]) auto
    ultimately show ?case
      using Suc(1) [of "Suc i" ?p] 1 by (auto simp: patch_word_rest(2) Let_def) }
  { case (2 i p)
    let ?p = "patch_word tls (insn_addr code i) p"
    show ?case
      using Suc(2) [of "Suc i" ?p] 2 by (auto simp: patch_word_rest(2) Let_def) }
qed auto

lemma patch_loop_outside:
  assumes "i + k \<le> n" and "4 * n < 2 ^ 64" and "4 * n \<le> unat (x - code)"
  shows "p_img (patch_loop tls code i k p) x = p_img p x"
  using assms(1)
proof (induction k arbitrary: i p)
  case (Suc k)
  let ?a = "insn_addr code i"
  have u: "unat (of_nat (4 * i) :: u64) = 4 * i"
    using Suc.prems assms(2) by (simp add: unsigned_of_nat take_bit_nat_eq_self del: of_nat_mult)
  have "x - ?a = (x - code) - of_nat (4 * i)"
    by (simp add: insn_addr_def)
  then have "4 \<le> unat (x - ?a)"
    using Suc.prems assms(3) u by (simp only: unat_sub_if' word_le_nat_alt) auto
  then have "put32 ?a w (p_img p) x = p_img p x" for w
    by (simp add: put32_def write_image_def)
  then have "p_img (patch_word tls ?a p) x = p_img p x"
    using patch_word_img [of tls ?a p] by auto
  then show ?case
    using Suc.IH [of "Suc i" "patch_word tls ?a p"] Suc.prems by simp
qed simp
section \<open>What the machine does with a patched word\<close>

text \<open>
  The two target instructions of the architecture: the immediate of \<open>BRK\<close> and the value and register
  of \<open>MOVZ\<close> (64-bit form).
\<close>

definition brk_imm :: "u32 \<Rightarrow> u32 option" where
  "brk_imm inst = (if inst AND 0xFFE0001F = 0xD4200000 then Some (drop_bit 5 inst AND 0xFFFF) else None)"

definition movz_effect :: "u32 \<Rightarrow> (u32 \<times> u64) option" where
  "movz_effect inst =
     (if inst AND 0xFF800000 = 0xD2800000
      then Some (inst AND 0x1F, push_bit (16 * unat (drop_bit 21 inst AND 3)) (ucast (drop_bit 5 inst AND 0xFFFF)))
      else None)"

lemma svc_num_bound: "svc_site inst \<Longrightarrow> unat (svc_num inst) < 256"
  by (simp add: svc_site_def MAX_SVC_ID_def word_less_nat_alt)

lemma and_FFFF: "w AND 0xFFFF = take_bit 16 (w :: u32)"
  by (simp add: take_bit_eq_mask mask_eq_exp_minus_1)

lemma tag_fits:
  assumes "unat n < 256"
  shows "take_bit 16 (BRK_TAG_BASE + n) = BRK_TAG_BASE + n"
proof (rule word_unat_eq_iff [THEN iffD2])
  have "unat (BRK_TAG_BASE + n) < 2 ^ 16"
    using assms by (simp add: BRK_TAG_BASE_def unat_word_ariths)
  then show "unat (take_bit 16 (BRK_TAG_BASE + n)) = unat (BRK_TAG_BASE + n)"
    by (simp add: unsigned_take_bit_eq take_bit_nat_eq_self)
qed

lemma low_bits: "take_bit n w = w \<Longrightarrow> bit (w :: u32) k \<Longrightarrow> k < n"
  by (metis bit_take_bit_iff)

lemma drop_push_5: "take_bit 16 w = w \<Longrightarrow> drop_bit 5 (push_bit 5 w) = (w :: u32)"
  by (rule bit_word_eqI) (auto simp: bit_simps dest: low_bits)

lemma brk_opcode_bits: "(0xFFE0001F :: u32) = mask 5 OR push_bit 21 (mask 11)"
  by (simp add: mask_eq_exp_minus_1)

lemma push_outside_opcode: "take_bit 16 w = w \<Longrightarrow> push_bit 5 w AND 0xFFE0001F = (0 :: u32)"
  unfolding brk_opcode_bits by (rule bit_word_eqI) (auto simp: bit_simps dest: low_bits)

text \<open>A system call number comes back as the immediate of the inserted breakpoint, shifted by the tag base.\<close>

lemma brk_imm_svc_brk:
  assumes "unat n < 256"
  shows "brk_imm (svc_brk n) = Some (BRK_TAG_BASE + n)"
proof -
  let ?w = "BRK_TAG_BASE + n"
  have "svc_brk n = 0xD4200000 OR push_bit 5 ?w"
    using tag_fits [OF assms] by (simp add: svc_brk_def and_FFFF BRK_BASE_def)
  moreover have "(0xD4200000 OR push_bit 5 ?w) AND 0xFFE0001F = 0xD4200000"
    using push_outside_opcode [OF tag_fits [OF assms]] by (simp add: bit.conj_disj_distrib2)
  moreover have "drop_bit 5 (0xD4200000 OR push_bit 5 ?w) AND 0xFFFF = ?w"
    using drop_push_5 [OF tag_fits [OF assms]] tag_fits [OF assms]
    by (simp add: and_FFFF take_bit_or)
  ultimately show ?thesis
    by (simp add: brk_imm_def)
qed

lemma reg_bits:
  assumes "take_bit 5 r = (r :: u32)"
  shows "r AND 0xFF800000 = 0" "r AND 0x1F = r" "drop_bit 5 r = 0" "drop_bit 21 r = 0"
proof -
  have opc: "(0xFF800000 :: u32) = push_bit 23 (mask 9)" and reg: "(0x1F :: u32) = mask 5"
    by (simp_all add: mask_eq_exp_minus_1)
  show "r AND 0xFF800000 = 0" "drop_bit 5 r = 0" "drop_bit 21 r = 0"
    unfolding opc by (auto intro!: bit_word_eqI simp: bit_simps dest!: low_bits [OF assms])
  show "r AND 0x1F = r"
    unfolding reg using assms by (simp add: take_bit_eq_mask)
qed

lemma and_1F: "take_bit 5 (w AND 0x1F) = (w AND 0x1F :: u32)"
  by (simp add: take_bit_eq_mask mask_eq_exp_minus_1 and.assoc)

lemma movz_effect_tls:
  assumes "tls \<in> set tls_candidates" and "take_bit 5 r = r"
  shows "movz_effect (MakeFixedTlsLoad tls r) = Some (r, tls)"
proof -
  have "tls = 0x100000000 \<or> tls = 0x200000000 \<or> tls = 0x300000000 \<or> tls = 0x400000000 \<or> tls = 0x500000000
      \<or> tls = 0x600000000 \<or> tls = 0x700000000 \<or> tls = 0x800000000 \<or> tls = 0x900000000 \<or> tls = 0xA00000000
      \<or> tls = 0xB00000000 \<or> tls = 0xC00000000 \<or> tls = 0xD00000000 \<or> tls = 0xE00000000 \<or> tls = 0xF00000000"
    using assms(1) by (simp add: tls_candidates_def upt_rec)
  then show ?thesis
    by (elim disjE) (simp_all add: MakeFixedTlsLoad_def movz_effect_def reg_bits [OF assms(2)] bit.conj_disj_distrib2)
qed
section \<open>Properties\<close>

lemma unat_numeral_4: "unat (4 :: u64) = 4"
  by simp

lemma PatchSVCs_runs:
  assumes "PatchSVCs mmap_ok host_tls tls code sz p = (Success, tls', p')"
  obtains has img where "EnsureFixedTls mmap_ok host_tls tls (p_img p) = (has, tls', img)"
    and "p' = patch_loop (if has then Some tls' else None) code 0 (unat sz div 4) (p\<lparr>p_img := img, p_map := []\<rparr>)"
    and "code \<noteq> 0" and "4 * (unat sz div 4) = unat sz" and "4 * (unat sz div 4) < 2 ^ 64"
proof -
  obtain has tls1 img where e: "EnsureFixedTls mmap_ok host_tls tls (p_img p) = (has, tls1, img)"
    by (metis prod_cases3)
  have c: "code \<noteq> 0" "sz mod 4 = 0" and r: "tls1 = tls'"
      "p' = patch_loop (if has then Some tls1 else None) code 0 (unat sz div 4) (p\<lparr>p_img := img, p_map := []\<rparr>)"
    using assms e by (auto simp: PatchSVCs_def Let_def split: if_splits)
  have "unat sz mod 4 = 0"
    using c(2) by (metis unat_0 unat_mod_distrib unat_numeral_4)
  then have "4 * (unat sz div 4) = unat sz"
    by auto
  then show ?thesis
    using that [of has img] e r c(1) unsigned_less [of sz, where 'a = nat] by simp
qed

text \<open>
  Property C7: a successful \<open>PatchSVCs\<close> rewrites every instruction of the buffer independently: system
  calls with a number below 256 become breakpoints tagged with the number, reads of the thread pointer
  become loads of the fixed block's address (if there is one), everything else stays. Apart from setting
  up the fixed block nothing outside the buffer changes, the returned list names the replaced calls in
  order, and the address cache gains exactly the replaced instructions, each with the immediate of the
  breakpoint that now stands there.
\<close>

theorem PatchSVCs_correct:
  assumes "PatchSVCs mmap_ok host_tls tls code sz p = (Success, tls', p')"
    and "EnsureFixedTls mmap_ok host_tls tls (p_img p) = (has, tls', img)"
  defines "n \<equiv> unat sz div 4" and "fixed \<equiv> (if has then Some tls' else None)"
  shows "(\<forall>j < n. inst_at (p_img p') code j = patched_inst fixed (inst_at img code j))
    \<and> (\<forall>x. unat sz \<le> unat (x - code) \<longrightarrow> p_img p' x = img x)
    \<and> map snd (p_map p') = map (\<lambda>j. svc_num (inst_at img code j)) (filter (\<lambda>j. svc_site (inst_at img code j)) [0..<n])
    \<and> (\<forall>j < n. p_cache p' (insn_addr code j) =
        (if svc_site (inst_at img code j) then brk_imm (inst_at (p_img p') code j) else p_cache p (insn_addr code j)))"
proof -
  obtain has1 img1 where e: "EnsureFixedTls mmap_ok host_tls tls (p_img p) = (has1, tls', img1)"
    and p1: "p' = patch_loop (if has1 then Some tls' else None) code 0 n (p\<lparr>p_img := img1, p_map := []\<rparr>)"
    and n: "4 * n = unat sz" "4 * n < 2 ^ 64"
    using PatchSVCs_runs [OF assms(1)] unfolding n_def by blast
  have p': "p' = patch_loop fixed code 0 n (p\<lparr>p_img := img, p_map := []\<rparr>)"
    using e p1 assms(2) by (simp add: fixed_def)
  have get: "inst_at (p_img p') code j = patched_inst fixed (inst_at img code j)" if "j < n" for j
    using patch_loop_get [of 0 n n j] that n by (simp add: p')
  moreover have "p_img p' x = img x" if "unat sz \<le> unat (x - code)" for x
    using patch_loop_outside [of 0 n n x code] that n by (simp add: p')
  moreover have "map snd (p_map p') = map (\<lambda>j. svc_num (inst_at img code j))
      (filter (\<lambda>j. svc_site (inst_at img code j)) [0..<n])"
    using patch_loop_map [of 0 n n] n by (simp add: p' o_def)
  moreover have "p_cache p' (insn_addr code j) = (if svc_site (inst_at img code j)
      then brk_imm (inst_at (p_img p') code j) else p_cache p (insn_addr code j))" if "j < n" for j
    using patch_loop_cache(1) [of 0 n n j] that n get [OF that]
    by (simp add: p' patched_inst_def brk_imm_svc_brk svc_num_bound)
  ultimately show ?thesis
    by blast
qed

text \<open>Two instructions: \<open>svc 0x7\<close> and \<open>mrs x3, tpidrro_el0\<close>.\<close>

definition two_insns :: patcher where
  "two_insns = \<lparr>p_img = put32 0x1004 0xD53BD063 (put32 0x1000 0xD40000E1 (\<lambda>_. 0)), p_map = [], p_cache = Map.empty\<rparr>"

lemma two_insns_at: "inst_at (p_img two_insns) 0x1000 0 = 0xD40000E1" "inst_at (p_img two_insns) 0x1000 1 = 0xD53BD063"
proof -
  have "insn_addr 0x1000 0 = 0x1000" "insn_addr 0x1000 1 = 0x1004"
    by (simp_all add: insn_addr_def)
  then show "inst_at (p_img two_insns) 0x1000 0 = 0xD40000E1" "inst_at (p_img two_insns) 0x1000 1 = 0xD53BD063"
    using get_put32_word [of 0 2 1 "0x1000" "0xD53BD063" "put32 0x1000 0xD40000E1 (\<lambda>_. 0)"]
    by (simp_all add: two_insns_def)
qed

theorem PatchSVCs_correct_witness:
  "\<exists>p'. PatchSVCs (\<lambda>_. True) 0 0x100000000 0x1000 8 two_insns = (Success, 0x100000000, p')
     \<and> inst_at (p_img p') 0x1000 0 = 0xD42200E0 \<and> inst_at (p_img p') 0x1000 1 = 0xD2C00023
     \<and> p_cache p' (insn_addr 0x1000 0) = Some 0x1007"
proof -
  have e: "EnsureFixedTls (\<lambda>_. True) 0 0x100000000 (p_img two_insns) = (True, 0x100000000, p_img two_insns)"
    by (simp add: EnsureFixedTls_def)
  obtain p' where run: "PatchSVCs (\<lambda>_. True) 0 0x100000000 0x1000 8 two_insns = (Success, 0x100000000, p')"
    by (simp add: PatchSVCs_def e)
  have p: "patched_inst (Some 0x100000000) 0xD40000E1 = 0xD42200E0" "patched_inst (Some 0x100000000) 0xD53BD063 = 0xD2C00023"
      "svc_site 0xD40000E1" "brk_imm 0xD42200E0 = Some 0x1007"
    by (simp_all add: patched_inst_def svc_site_def is_svc_def is_mrs_tls_def svc_num_def svc_brk_def
        MakeFixedTlsLoad_def brk_imm_def patch_consts)
  note c = PatchSVCs_correct [OF run e]
  have "\<forall>j < 2. inst_at (p_img p') 0x1000 j = patched_inst (Some 0x100000000) (inst_at (p_img two_insns) 0x1000 j)"
    using c by simp
  moreover have "\<forall>j < 2. p_cache p' (insn_addr 0x1000 j) = (if svc_site (inst_at (p_img two_insns) 0x1000 j)
      then brk_imm (inst_at (p_img p') 0x1000 j) else p_cache two_insns (insn_addr 0x1000 j))"
    using c by simp
  ultimately show ?thesis
    using run p two_insns_at by (metis one_less_numeral_iff semiring_norm(76) zero_less_numeral)
qed

text \<open>
  The instruction that replaces a read of the thread pointer puts the address of the fixed
  block into the same register, whichever of the fifteen candidate addresses the host granted.
\<close>

theorem fixed_tls_load:
  assumes "EnsureFixedTls mmap_ok host_tls 0 img = (True, tls, img')" and "is_mrs_tls inst"
  shows "movz_effect (patched_inst (Some tls) inst) = Some (inst AND 0x1F, tls)"
proof -
  have "tls \<in> set tls_candidates"
    using assms(1) by (auto simp: EnsureFixedTls_def find_Some_iff split: option.splits)
  moreover have "\<not> svc_site inst"
    using assms(2) svc_not_mrs by (auto simp: svc_site_def)
  ultimately show ?thesis
    using assms(2) movz_effect_tls [OF _ and_1F] by (simp add: patched_inst_def)
qed

theorem fixed_tls_load_witness: "movz_effect (patched_inst (Some 0x200000000) 0xD53BD063) = Some (3, 0x200000000)"
proof -
  have "EnsureFixedTls (\<lambda>a. a = 0x200000000) 0 0 img =
      (True, 0x200000000, write_image img 0x200000000 (read_image img 0 FIXED_TLS_SIZE))" for img
    by (simp add: EnsureFixedTls_def tls_candidates_def upt_rec)
  from fixed_tls_load [OF this, of "0xD53BD063"] show ?thesis
    by (simp add: is_mrs_tls_def patch_consts)
qed

end
