(* ===== verification/Debugger.thy ===== *)
theory Debugger
  imports CodePatch
begin

unbundle bit_operations_syntax

text \<open>
  The debugger: \<^verbatim>\<open>src/src/cpu/Debugger.cpp\<close> and \<^verbatim>\<open>Debugger.h\<close>.

  Breakpoints are keyed by host address. The guest memory the debugger was given is \<open>d_memory\<close> (\<open>None\<close>:
  the pointer is null). The order in which the hash map is walked is a parameter. The registered
  callback is represented by the log of its calls. Locks, page protection and instruction cache
  maintenance are left out.
\<close>

section \<open>State\<close>

record Breakpoint =
  bp_enabled :: bool
  hit_count :: u32
  temporary :: bool
  original_inst :: u32
  patched :: bool

definition Breakpoint_new :: Breakpoint where
  "Breakpoint_new = \<lparr>bp_enabled = True, hit_count = 0, temporary = False, original_inst = 0, patched = False\<rparr>"

record CpuRegisterSnapshot =
  snap_x :: "u64 list"
  snap_sp :: u64
  snap_pc :: u64
  snap_pstate :: u64
  snap_tpidrro_el0 :: u64

record EmuDebugger =
  breakpoints :: "u64 \<rightharpoonup> Breakpoint"
  last_regs :: CpuRegisterSnapshot
  paused :: bool
  stepping :: bool
  step_addr :: u64
  bp_callback :: bool
  bp_log :: "(u64 \<times> CpuRegisterSnapshot) list"
  d_memory :: "memory option"

definition EmuDebugger_init :: EmuDebugger where
  "EmuDebugger_init = \<lparr>breakpoints = Map.empty,
     last_regs = \<lparr>snap_x = replicate 31 0, snap_sp = 0, snap_pc = 0, snap_pstate = 0, snap_tpidrro_el0 = 0\<rparr>,
     paused = False, stepping = False, step_addr = 0, bp_callback = False, bp_log = [], d_memory = None\<rparr>"

section \<open>Patching\<close>

definition MakeBrkDebug :: "u64 \<Rightarrow> u32" where
  "MakeBrkDebug addr = 0xD4200000 OR push_bit 5 (BRK_TAG_DEBUG OR (ucast addr AND 0xFFF))"

definition ToGuestRel :: "memory option \<Rightarrow> u64 \<Rightarrow> u64" where
  "ToGuestRel mem host_addr = (case mem of Some m \<Rightarrow> host_addr - base_addr m | None \<Rightarrow> host_addr)"

text \<open>\<open>memory_ ? memory_->Pointer(ToGuestRel(memory_, addr)) : nullptr\<close> and the two copies through it.\<close>

definition code_ptr :: "EmuDebugger \<Rightarrow> u64 \<Rightarrow> u64 option" where
  "code_ptr d addr = (case d_memory d of Some m \<Rightarrow> Pointer m (ToGuestRel (d_memory d) addr) | None \<Rightarrow> None)"

definition load_inst :: "EmuDebugger \<Rightarrow> u64 \<Rightarrow> u32" where
  "load_inst d p = (case d_memory d of Some m \<Rightarrow> get32 (image m) p | None \<Rightarrow> 0)"

definition store_inst :: "u64 \<Rightarrow> u32 \<Rightarrow> EmuDebugger \<Rightarrow> EmuDebugger" where
  "store_inst p w d = d\<lparr>d_memory := map_option (\<lambda>m. m\<lparr>image := put32 p w (image m)\<rparr>) (d_memory d)\<rparr>"

definition set_bp :: "u64 \<Rightarrow> Breakpoint option \<Rightarrow> EmuDebugger \<Rightarrow> EmuDebugger" where
  "set_bp addr b d = d\<lparr>breakpoints := (breakpoints d)(addr := b)\<rparr>"

definition PatchBreakpoint :: "u64 \<Rightarrow> bool \<Rightarrow> EmuDebugger \<Rightarrow> Result \<times> EmuDebugger" where
  "PatchBreakpoint addr st d =
     (if d_memory d = None then (InvalidArgument, d)
      else case code_ptr d addr of
             None \<Rightarrow> (InvalidArgument, d)
           | Some p \<Rightarrow> (Success, if st then store_inst p (MakeBrkDebug addr) d else d))"

text \<open>Saving the instruction and putting the breakpoint over it, as \<open>ApplyBreakpoints\<close> and \<open>SetBreakpoint\<close> do.\<close>

definition insert_brk :: "u64 \<Rightarrow> Breakpoint \<Rightarrow> EmuDebugger \<Rightarrow> EmuDebugger" where
  "insert_brk addr bp d =
     (case code_ptr d addr of
        Some p \<Rightarrow> store_inst p (MakeBrkDebug addr)
                   (set_bp addr (Some (bp\<lparr>original_inst := load_inst d p, patched := True\<rparr>)) d)
      | None \<Rightarrow> set_bp addr (Some bp) d)"

definition apply_one :: "u64 \<Rightarrow> EmuDebugger \<Rightarrow> EmuDebugger" where
  "apply_one addr d =
     (case breakpoints d addr of
        Some bp \<Rightarrow> if bp_enabled bp \<and> \<not> patched bp then insert_brk addr bp d else d
      | None \<Rightarrow> d)"

definition ApplyBreakpoints :: "u64 list \<Rightarrow> EmuDebugger \<Rightarrow> EmuDebugger" where
  "ApplyBreakpoints order d = fold apply_one order d"

definition restore_one :: "u64 \<Rightarrow> EmuDebugger \<Rightarrow> EmuDebugger" where
  "restore_one addr d =
     (case breakpoints d addr of
        Some bp \<Rightarrow>
          if patched bp \<and> original_inst bp \<noteq> 0
          then (case code_ptr d addr of
                  Some p \<Rightarrow> set_bp addr (Some (bp\<lparr>patched := False\<rparr>)) (store_inst p (original_inst bp) d)
                | None \<Rightarrow> d)
          else d
      | None \<Rightarrow> d)"

definition RestoreBreakpoints :: "u64 list \<Rightarrow> EmuDebugger \<Rightarrow> EmuDebugger" where
  "RestoreBreakpoints order d = fold restore_one order d"

section \<open>Breakpoints\<close>

definition SetBreakpoint :: "u64 \<Rightarrow> EmuDebugger \<Rightarrow> EmuDebugger" where
  "SetBreakpoint host_addr d =
     (if host_addr = 0 then d
      else case breakpoints d host_addr of
             Some bp \<Rightarrow> set_bp host_addr (Some (bp\<lparr>bp_enabled := True\<rparr>)) d
           | None \<Rightarrow> insert_brk host_addr Breakpoint_new d)"

definition RemoveBreakpoint :: "u64 \<Rightarrow> EmuDebugger \<Rightarrow> EmuDebugger" where
  "RemoveBreakpoint host_addr d =
     (case breakpoints d host_addr of
        None \<Rightarrow> d
      | Some bp \<Rightarrow>
          set_bp host_addr None
            (if patched bp then
               (case code_ptr d host_addr of
                  Some p \<Rightarrow> if original_inst bp \<noteq> 0 then store_inst p (original_inst bp) d else d
                | None \<Rightarrow> d)
             else d))"

definition ClearAllBreakpoints :: "EmuDebugger \<Rightarrow> EmuDebugger" where
  "ClearAllBreakpoints d = d\<lparr>breakpoints := Map.empty\<rparr>"

definition HasBreakpoint :: "u64 \<Rightarrow> EmuDebugger \<Rightarrow> bool" where
  "HasBreakpoint addr d = (case breakpoints d addr of Some bp \<Rightarrow> bp_enabled bp | None \<Rightarrow> False)"

definition GetBreakpoints :: "u64 list \<Rightarrow> EmuDebugger \<Rightarrow> (u64 \<times> bool \<times> u32 \<times> bool) list" where
  "GetBreakpoints order d =
     List.map_filter (\<lambda>a. map_option (\<lambda>bp. (a, bp_enabled bp, hit_count bp, temporary bp)) (breakpoints d a)) order"

section \<open>Registers and execution control\<close>

definition CaptureRegisters :: "GuestThreadState \<Rightarrow> EmuDebugger \<Rightarrow> EmuDebugger" where
  "CaptureRegisters gs d =
     d\<lparr>last_regs := \<lparr>snap_x = take 31 (gx gs), snap_sp = gsp gs, snap_pc = gpc gs, snap_pstate = 0, snap_tpidrro_el0 = 0\<rparr>\<rparr>"

definition SetRegister :: "int \<Rightarrow> u64 \<Rightarrow> EmuDebugger \<Rightarrow> EmuDebugger" where
  "SetRegister i v d =
     (if i < 0 \<or> i \<ge> 31 then d
      else d\<lparr>last_regs := (last_regs d)\<lparr>snap_x := (snap_x (last_regs d))[nat i := v]\<rparr>\<rparr>)"

definition Pause :: "EmuDebugger \<Rightarrow> EmuDebugger" where
  "Pause d = d\<lparr>paused := True\<rparr>"

definition Continue :: "u64 list \<Rightarrow> EmuDebugger \<Rightarrow> EmuDebugger" where
  "Continue order d = (ApplyBreakpoints order d)\<lparr>paused := False, stepping := False\<rparr>"

definition StepOver :: "u64 list \<Rightarrow> EmuDebugger \<Rightarrow> EmuDebugger" where
  "StepOver order d =
     (let d1 = ApplyBreakpoints order d
      in d1\<lparr>paused := False, stepping := True, step_addr := snap_pc (last_regs d1) + 4\<rparr>)"

text \<open>The part of \<open>OnBreakpoint\<close> under the lock (lines 231 to 258), for an enabled breakpoint.\<close>

definition hit_breakpoint :: "u64 \<Rightarrow> Breakpoint \<Rightarrow> EmuDebugger \<Rightarrow> EmuDebugger" where
  "hit_breakpoint host_addr bp d =
     (let bp1 = bp\<lparr>hit_count := hit_count bp + 1\<rparr>;
          (bp2, d1) =
            (if patched bp1
             then (case code_ptr d host_addr of
                     Some p \<Rightarrow> if original_inst bp1 \<noteq> 0
                                then (bp1\<lparr>patched := False\<rparr>, store_inst p (original_inst bp1) d) else (bp1, d)
                   | None \<Rightarrow> (bp1, d))
             else (bp1, d))
      in set_bp host_addr (if temporary bp then None else Some bp2) d1)"

definition OnBreakpoint :: "u64 \<Rightarrow> GuestThreadState \<Rightarrow> EmuDebugger \<Rightarrow> bool \<times> EmuDebugger" where
  "OnBreakpoint host_addr gs d0 =
     (let d = CaptureRegisters gs d0;
          is_bp = HasBreakpoint host_addr d;
          d1 = (if is_bp
                then (let d' = hit_breakpoint host_addr (the (breakpoints d host_addr)) d
                      in d'\<lparr>paused := True,
                            bp_log := (if bp_callback d' then bp_log d' @ [(host_addr, last_regs d')] else bp_log d')\<rparr>)
                else d)
      in if stepping d1 \<and> host_addr = step_addr d1
         then (True, d1\<lparr>paused := True, stepping := False\<rparr>)
         else (is_bp, d1))"

section \<open>Memory access\<close>

definition ReadMemory :: "u64 \<Rightarrow> nat \<Rightarrow> EmuDebugger \<Rightarrow> u8 list" where
  "ReadMemory host_addr n d =
     (case d_memory d of None \<Rightarrow> [] | Some m \<Rightarrow> load_loop Read m (ToGuestRel (Some m) host_addr) n)"

text \<open>The write loop stops at the first failure; what was written before stays.\<close>

fun write_bytes :: "memory \<Rightarrow> u64 \<Rightarrow> u8 list \<Rightarrow> bool \<times> memory" where
  "write_bytes m a [] = (True, m)"
| "write_bytes m a (b # bs) = (case Write m a [b] of Inl _ \<Rightarrow> (False, m) | Inr m' \<Rightarrow> write_bytes m' (a + 1) bs)"

definition WriteMemory :: "u64 \<Rightarrow> u8 list \<Rightarrow> EmuDebugger \<Rightarrow> bool \<times> EmuDebugger" where
  "WriteMemory host_addr data d =
     (case d_memory d of
        None \<Rightarrow> (False, d)
      | Some m \<Rightarrow> (let (ok, m') = write_bytes m (ToGuestRel (Some m) host_addr) data in (ok, d\<lparr>d_memory := Some m'\<rparr>)))"
section \<open>The code under the breakpoints\<close>

text \<open>
  What the guest's code is when the breakpoints are thought away: the saved instruction under a patched
  breakpoint, the memory itself elsewhere.
\<close>

definition abs_code :: "EmuDebugger \<Rightarrow> u64 \<Rightarrow> u32" where
  "abs_code d a = (case breakpoints d a of Some bp \<Rightarrow> if patched bp then original_inst bp else load_inst d a
                   | None \<Rightarrow> load_inst d a)"

definition word_aligned :: "u64 \<Rightarrow> bool" where
  "word_aligned a \<longleftrightarrow> unat a mod 4 = 0"

lemma aligned_apart:
  assumes "word_aligned a" and "word_aligned b" and "a \<noteq> b" and "i < 4"
  shows "4 \<le> unat (b + of_nat i - a)"
proof -
  obtain x y where x: "unat a = 4 * x" and y: "unat b = 4 * y"
    using assms(1,2) by (auto simp: word_aligned_def elim!: dvdE simp flip: dvd_eq_mod_eq_0)
  have b: "4 * y < 2 ^ 64" and a: "4 * x < 2 ^ 64"
    using unsigned_less [of b, where 'a = nat] unsigned_less [of a, where 'a = nat] x y by simp_all
  have "unat (of_nat i :: u64) = i"
    using assms(4) by (simp add: unsigned_of_nat take_bit_nat_eq_self)
  then have bi: "unat (b + of_nat i) = 4 * y + i"
    using assms(4) b y by (simp add: unat_word_ariths)
  have "x \<noteq> y"
    using assms(3) x y by (metis word_unat_eq_iff)
  then show ?thesis
    unfolding unat_sub_if' word_le_nat_alt bi x using a b assms(4) by auto
qed

lemma load_store_inst:
  assumes "word_aligned a" and "word_aligned b" and "d_memory d \<noteq> None"
  shows "load_inst (store_inst a w d) b = (if b = a then w else load_inst d b)"
  using assms get_put32_other [OF aligned_apart [OF assms(1,2)]]
  by (auto simp: load_inst_def store_inst_def)

lemma code_ptr_here: "code_ptr d a = Some p \<Longrightarrow> p = a \<and> d_memory d \<noteq> None"
  by (auto simp: code_ptr_def ToGuestRel_def Pointer_def split: option.splits if_splits)

lemma debugger_access [simp]:
  "breakpoints (set_bp a b d) = (breakpoints d)(a := b)" "breakpoints (store_inst p w d) = breakpoints d"
  "load_inst (set_bp a b d) = load_inst d" "code_ptr (set_bp a b d) = code_ptr d"
  "d_memory (set_bp a b d) = d_memory d" "d_memory (store_inst p w d) = None \<longleftrightarrow> d_memory d = None"
  by (auto simp: fun_eq_iff set_bp_def store_inst_def load_inst_def code_ptr_def split: option.splits)

lemma code_ptr_store [simp]: "code_ptr (store_inst p w d) = code_ptr d"
  by (auto simp: fun_eq_iff code_ptr_def store_inst_def ToGuestRel_def Pointer_def split: option.splits)

text \<open>
  The relation to the code \<open>c\<close> that is being debugged: breakpoints stand on whole, nonzero
  instructions, a patched one covers memory the debugger can write, and the code seen through the
  breakpoints is \<open>c\<close>.
\<close>

definition shows_code :: "(u64 \<Rightarrow> u32) \<Rightarrow> EmuDebugger \<Rightarrow> bool" where
  "shows_code c d \<longleftrightarrow> (\<forall>a bp. breakpoints d a = Some bp \<longrightarrow> word_aligned a \<and> c a \<noteq> 0 \<and> (patched bp \<longrightarrow> code_ptr d a = Some a))
     \<and> (\<forall>a. word_aligned a \<longrightarrow> abs_code d a = c a)"

lemma abs_code_cong:
  assumes "breakpoints d' b = breakpoints d b" and "load_inst d' b = load_inst d b"
  shows "abs_code d' b = abs_code d b"
  unfolding abs_code_def assms by (rule refl)

lemma shows_codeD:
  assumes "shows_code c d"
  shows "breakpoints d a = Some bp \<Longrightarrow> word_aligned a" "breakpoints d a = Some bp \<Longrightarrow> c a \<noteq> 0"
    "breakpoints d a = Some bp \<Longrightarrow> patched bp \<Longrightarrow> code_ptr d a = Some a"
    "word_aligned a \<Longrightarrow> abs_code d a = c a"
  using assms by (auto simp: shows_code_def)

lemma shows_code_original:
  assumes "shows_code c d" and "breakpoints d a = Some bp" and "patched bp"
  shows "original_inst bp = c a" "original_inst bp \<noteq> 0"
  using shows_codeD [OF assms(1)] assms(2,3) by (fastforce simp: abs_code_def)+

text \<open>An operation that works on one address keeps the relation if that address still shows its code.\<close>

lemma shows_code_update:
  assumes "shows_code c d" and "word_aligned a" and "code_ptr d' = code_ptr d"
    and "\<And>b. b \<noteq> a \<Longrightarrow> breakpoints d' b = breakpoints d b"
    and "\<And>b. b \<noteq> a \<Longrightarrow> word_aligned b \<Longrightarrow> load_inst d' b = load_inst d b"
    and "\<And>bp. breakpoints d' a = Some bp \<Longrightarrow> c a \<noteq> 0 \<and> (patched bp \<longrightarrow> code_ptr d a = Some a)"
    and "abs_code d' a = c a"
  shows "shows_code c d'"
proof -
  have "abs_code d' b = c b" if "word_aligned b" for b
  proof (cases "b = a")
    case False
    have "breakpoints d' b = breakpoints d b" "load_inst d' b = load_inst d b"
      using False that assms(4,5) by blast+
    from abs_code_cong [OF this] show ?thesis
      using shows_codeD(4) [OF assms(1) that] by simp
  qed (use assms(7) in simp)
  moreover have "word_aligned b \<and> c b \<noteq> 0 \<and> (patched bp \<longrightarrow> code_ptr d' b = Some b)" if "breakpoints d' b = Some bp" for b bp
    using that assms(2,3,4,6) shows_codeD(1-3) [OF assms(1)] by (cases "b = a") auto
  ultimately show ?thesis
    by (auto simp: shows_code_def)
qed

lemma load_store_other:
  "word_aligned a \<Longrightarrow> word_aligned b \<Longrightarrow> b \<noteq> a \<Longrightarrow> load_inst (store_inst a w d) b = load_inst d b"
  using load_store_inst [of a b d w] by (cases "d_memory d") (auto simp: load_inst_def store_inst_def)

lemma insert_brk_shows:
  assumes "shows_code c d" and "word_aligned a" and "c a \<noteq> 0"
    and "\<And>b. breakpoints d a = Some b \<Longrightarrow> \<not> patched b" and "\<not> patched bp"
  shows "shows_code c (insert_brk a bp d)"
proof (rule shows_code_update [OF assms(1,2)])
  have here: "load_inst d a = c a"
    using shows_codeD(4) [OF assms(1,2)] assms(4) by (auto simp: abs_code_def split: option.splits if_splits)
  show "abs_code (insert_brk a bp d) a = c a"
    using here assms(5) code_ptr_here [of d a]
    by (cases "code_ptr d a") (auto simp: insert_brk_def abs_code_def)
  fix bp' assume "breakpoints (insert_brk a bp d) a = Some bp'"
  then show "c a \<noteq> 0 \<and> (patched bp' \<longrightarrow> code_ptr d a = Some a)"
    using assms(3,5) code_ptr_here [of d a] by (cases "code_ptr d a") (auto simp: insert_brk_def)
next
  fix b assume "b \<noteq> a" "word_aligned b"
  then show "load_inst (insert_brk a bp d) b = load_inst d b"
    using load_store_other [OF assms(2)] code_ptr_here [of d a] by (cases "code_ptr d a") (auto simp: insert_brk_def)
qed (auto simp: insert_brk_def split: option.splits)

text \<open>Putting the saved instruction back, with any new entry for the address.\<close>

lemma put_back_shows:
  assumes "shows_code c d" and "breakpoints d a = Some bp" and "patched bp" and "\<And>b. e = Some b \<Longrightarrow> \<not> patched b"
  shows "shows_code c (set_bp a e (store_inst a (original_inst bp) d))"
proof (rule shows_code_update [OF assms(1)])
  show al: "word_aligned a"
    using shows_codeD(1) [OF assms(1,2)] .
  have "d_memory d \<noteq> None"
    using shows_codeD(3) [OF assms(1-3)] code_ptr_here by blast
  then show "abs_code (set_bp a e (store_inst a (original_inst bp) d)) a = c a"
    using load_store_inst [OF al al] shows_code_original(1) [OF assms(1-3)] assms(4)
    by (auto simp: abs_code_def split: option.splits)
  show "load_inst (set_bp a e (store_inst a (original_inst bp) d)) b = load_inst d b" if "b \<noteq> a" "word_aligned b" for b
    using load_store_other [OF al that(2,1)] by simp
qed (use assms(4) shows_codeD(2) [OF assms(1,2)] in auto)

text \<open>Changing an entry of an unpatched address.\<close>

lemma set_unpatched_shows:
  assumes "shows_code c d" and "breakpoints d a = Some bp" and "\<not> patched bp" and "\<And>b. e = Some b \<Longrightarrow> \<not> patched b"
  shows "shows_code c (set_bp a e d)"
proof (rule shows_code_update [OF assms(1)])
  show al: "word_aligned a"
    using shows_codeD(1) [OF assms(1,2)] .
  show "abs_code (set_bp a e d) a = c a"
    using shows_codeD(4) [OF assms(1) al] assms(2-4) by (auto simp: abs_code_def split: option.splits)
qed (use assms(4) shows_codeD(2) [OF assms(1,2)] in auto)
section \<open>Sessions\<close>

text \<open>
  What a debugging session does, one operation per step: setting a breakpoint (on a whole, nonzero
  instruction), removing one, applying and restoring all, being hit, pausing, continuing and stepping.
\<close>

inductive dbg_step :: "EmuDebugger \<Rightarrow> EmuDebugger \<Rightarrow> bool" where
  set: "word_aligned a \<Longrightarrow> abs_code d a \<noteq> 0 \<Longrightarrow> dbg_step d (SetBreakpoint a d)"
| remove: "dbg_step d (RemoveBreakpoint a d)"
| apply_all: "dbg_step d (ApplyBreakpoints order d)"
| restore_all: "dbg_step d (RestoreBreakpoints order d)"
| hit: "dbg_step d (snd (OnBreakpoint a gs d))"
| pause: "dbg_step d (Pause d)"
| cont: "dbg_step d (Continue order d)"
| step_over: "dbg_step d (StepOver order d)"
| clear_all: "(\<And>a bp. breakpoints d a = Some bp \<Longrightarrow> \<not> patched bp) \<Longrightarrow> dbg_step d (ClearAllBreakpoints d)"

inductive_cases dbg_stepE: "dbg_step d d'"

lemma shows_code_frame:
  assumes "breakpoints d' = breakpoints d" and "d_memory d' = d_memory d"
  shows "shows_code c d' = shows_code c d"
proof -
  have "code_ptr d' = code_ptr d" "load_inst d' = load_inst d"
    using assms(2) by (auto simp: fun_eq_iff code_ptr_def load_inst_def split: option.splits)
  moreover from this have "abs_code d' = abs_code d"
    using assms(1) by (intro ext abs_code_cong) simp_all
  ultimately show ?thesis
    using assms(1) by (simp add: shows_code_def)
qed

lemma shows_code_flags [simp]:
  "shows_code c (d\<lparr>last_regs := r\<rparr>) = shows_code c d" "shows_code c (d\<lparr>paused := p\<rparr>) = shows_code c d"
  "shows_code c (d\<lparr>paused := p, stepping := q\<rparr>) = shows_code c d"
  "shows_code c (d\<lparr>paused := p, stepping := q, step_addr := x\<rparr>) = shows_code c d"
  "shows_code c (d\<lparr>paused := p, bp_log := l\<rparr>) = shows_code c d"
  "shows_code c (d\<lparr>paused := p, bp_log := l, stepping := q\<rparr>) = shows_code c d"
  by (rule shows_code_frame; simp)+

lemma SetBreakpoint_shows:
  assumes "shows_code c d" and "word_aligned a" and "abs_code d a \<noteq> 0"
  shows "shows_code c (SetBreakpoint a d)"
proof (cases "breakpoints d a")
  case None
  then show ?thesis
    using insert_brk_shows [OF assms(1,2), of Breakpoint_new] assms shows_codeD(4) [OF assms(1,2)]
    by (simp add: SetBreakpoint_def Breakpoint_new_def)
next
  case (Some bp)
  have "abs_code (set_bp a (Some (bp\<lparr>bp_enabled := True\<rparr>)) d) a = c a"
    using Some shows_codeD(4) [OF assms(1,2)] by (auto simp: abs_code_def split: if_splits)
  then have "shows_code c (set_bp a (Some (bp\<lparr>bp_enabled := True\<rparr>)) d)"
    using Some shows_codeD(2,3) [OF assms(1) Some] by (intro shows_code_update [OF assms(1,2)]) auto
  then show ?thesis
    using Some assms(1) by (simp add: SetBreakpoint_def)
qed

lemma put_back_ptr:
  assumes "shows_code c d" and "breakpoints d a = Some bp" and "patched bp"
  shows "code_ptr d a = Some a \<and> original_inst bp \<noteq> 0"
  using shows_codeD(3) [OF assms] shows_code_original(2) [OF assms] by blast

lemma RemoveBreakpoint_shows:
  assumes "shows_code c d"
  shows "shows_code c (RemoveBreakpoint a d)"
proof (cases "breakpoints d a")
  case (Some bp)
  show ?thesis
  proof (cases "patched bp")
    case True
    then show ?thesis
      using put_back_shows [OF assms Some True, of None] put_back_ptr [OF assms Some True] Some
      by (simp add: RemoveBreakpoint_def)
  next
    case False
    then show ?thesis
      using set_unpatched_shows [OF assms Some False, of None] Some by (simp add: RemoveBreakpoint_def)
  qed
qed (use assms in \<open>simp add: RemoveBreakpoint_def\<close>)

lemma apply_one_shows: "shows_code c d \<Longrightarrow> shows_code c (apply_one a d)"
  using insert_brk_shows [of c d a] shows_codeD(1,2) [of c d a]
  by (fastforce simp: apply_one_def split: option.splits)

lemma restore_one_shows: "shows_code c d \<Longrightarrow> shows_code c (restore_one a d)"
  using put_back_shows [of c d a] put_back_ptr [of c d a]
  by (fastforce simp: restore_one_def split: option.splits)

lemma fold_shows:
  assumes "\<And>a d. shows_code c d \<Longrightarrow> shows_code c (f a d)" and "shows_code c d"
  shows "shows_code c (fold f as d)"
  using assms(2) by (induction as arbitrary: d) (simp_all add: assms(1))

lemma ApplyBreakpoints_shows: "shows_code c d \<Longrightarrow> shows_code c (ApplyBreakpoints order d)"
  unfolding ApplyBreakpoints_def by (rule fold_shows [OF apply_one_shows])

lemma RestoreBreakpoints_shows: "shows_code c d \<Longrightarrow> shows_code c (RestoreBreakpoints order d)"
  unfolding RestoreBreakpoints_def by (rule fold_shows [OF restore_one_shows])

lemma hit_breakpoint_shows:
  assumes "shows_code c d" and "breakpoints d a = Some bp"
  shows "shows_code c (hit_breakpoint a bp d)"
proof (cases "patched bp")
  case True
  let ?bp = "bp\<lparr>hit_count := hit_count bp + 1, patched := False\<rparr>"
  have "hit_breakpoint a bp d = set_bp a (if temporary bp then None else Some ?bp) (store_inst a (original_inst bp) d)"
    using put_back_ptr [OF assms True] True by (simp add: hit_breakpoint_def Let_def)
  then show ?thesis
    using put_back_shows [OF assms True, of "if temporary bp then None else Some ?bp"] by (auto split: if_splits)
next
  case False
  let ?bp = "bp\<lparr>hit_count := hit_count bp + 1\<rparr>"
  have "hit_breakpoint a bp d = set_bp a (if temporary bp then None else Some ?bp) d"
    using False by (simp add: hit_breakpoint_def Let_def)
  then show ?thesis
    using set_unpatched_shows [OF assms False, of "if temporary bp then None else Some ?bp"] False by (auto split: if_splits)
qed

lemma OnBreakpoint_shows:
  assumes "shows_code c d"
  shows "shows_code c (snd (OnBreakpoint a gs d))"
proof -
  let ?d = "CaptureRegisters gs d"
  have d: "shows_code c ?d"
    using assms by (simp add: CaptureRegisters_def)
  have "shows_code c (hit_breakpoint a (the (breakpoints ?d a)) ?d)" if "HasBreakpoint a ?d"
    using that hit_breakpoint_shows [OF d, of a] by (auto simp: HasBreakpoint_def split: option.splits)
  with d show ?thesis
    by (simp add: OnBreakpoint_def Let_def)
qed

lemma ClearAllBreakpoints_shows:
  assumes "shows_code c d" and "\<And>a bp. breakpoints d a = Some bp \<Longrightarrow> \<not> patched bp"
  shows "shows_code c (ClearAllBreakpoints d)"
proof -
  have "abs_code (ClearAllBreakpoints d) a = abs_code d a" for a
    using assms(2) by (auto simp: abs_code_def ClearAllBreakpoints_def load_inst_def split: option.splits)
  with assms(1) show ?thesis
    by (simp add: shows_code_def) (simp add: ClearAllBreakpoints_def)
qed

lemma dbg_step_shows: "dbg_step d d' \<Longrightarrow> shows_code c d \<Longrightarrow> shows_code c d'"
  by (erule dbg_stepE)
    (auto simp: Pause_def Continue_def StepOver_def Let_def
      intro: SetBreakpoint_shows RemoveBreakpoint_shows ApplyBreakpoints_shows RestoreBreakpoints_shows OnBreakpoint_shows ClearAllBreakpoints_shows)

section \<open>Properties\<close>

text \<open>A debugger that has just been given the guest memory, and the code in it.\<close>

definition fresh_debugger :: "memory \<Rightarrow> EmuDebugger" where
  "fresh_debugger m = EmuDebugger_init\<lparr>d_memory := Some m\<rparr>"

lemma fresh_shows: "shows_code (get32 (image m)) (fresh_debugger m)"
  by (simp add: shows_code_def fresh_debugger_def EmuDebugger_init_def abs_code_def load_inst_def)

interpretation dbg: safe_system "fresh_debugger m" dbg_step "shows_code (get32 (image m))" for m
  by unfold_locales (auto intro: fresh_shows dbg_step_shows)

lemma restore_one_clears:
  assumes "shows_code c d"
  shows "breakpoints (restore_one a d) a = Some bp \<Longrightarrow> \<not> patched bp"
    and "b \<noteq> a \<Longrightarrow> breakpoints (restore_one a d) b = breakpoints d b"
  using put_back_ptr [OF assms] by (auto simp: restore_one_def split: option.splits if_splits)

lemma RestoreBreakpoints_unpatched:
  assumes "shows_code c d" and "a \<in> set order \<or> (\<forall>bp. breakpoints d a = Some bp \<longrightarrow> \<not> patched bp)"
  shows "\<forall>bp. breakpoints (RestoreBreakpoints order d) a = Some bp \<longrightarrow> \<not> patched bp"
  using assms unfolding RestoreBreakpoints_def
proof (induction order arbitrary: d)
  case (Cons x order)
  have "a \<in> set order \<or> (\<forall>bp. breakpoints (restore_one x d) a = Some bp \<longrightarrow> \<not> patched bp)"
    using Cons.prems restore_one_clears [OF Cons.prems(1)] by (cases "x = a") auto
  then show ?case
    using Cons.IH [OF restore_one_shows [OF Cons.prems(1)]] by simp
qed simp

text \<open>
  Property C13: the debugger is transparent. Whatever breakpoints are set (each on a whole, nonzero instruction), hit, removed,
  applied, restored, continued and stepped over, and cleared while none is patched into the code, the code seen through the
  breakpoints is the guest's original code; and restoring all breakpoints puts that code, word by word, back into memory. Writing
  guest memory through the debugger changes the code and is left out, and so is clearing patched breakpoints, which loses the
  instructions under them (\<open>ClearAll_leaves_brk\<close> below).
\<close>

theorem debugger_transparent:
  assumes "reach (fresh_debugger m) dbg_step d" and "word_aligned a"
  shows "abs_code d a = get32 (image m) a
    \<and> (\<forall>order. set order = dom (breakpoints d) \<longrightarrow> load_inst (RestoreBreakpoints order d) a = get32 (image m) a)"
proof -
  have d: "shows_code (get32 (image m)) d"
    using dbg.reach_safe [OF assms(1)] .
  have "load_inst (RestoreBreakpoints order d) a = get32 (image m) a" if "set order = dom (breakpoints d)" for order
  proof -
    have "abs_code (RestoreBreakpoints order d) a = get32 (image m) a"
      using shows_codeD(4) [OF RestoreBreakpoints_shows [OF d] assms(2)] .
    moreover have "\<forall>bp. breakpoints (RestoreBreakpoints order d) a = Some bp \<longrightarrow> \<not> patched bp"
      using RestoreBreakpoints_unpatched [OF d] that by blast
    ultimately show ?thesis
      by (auto simp: abs_code_def split: option.splits)
  qed
  then show ?thesis
    using shows_codeD(4) [OF d assms(2)] by blast
qed

definition nop_memory :: memory where
  "nop_memory = (Memory_init (\<lambda>_. 0))\<lparr>image := put32 0x300001000 0xD503201F (\<lambda>_. 0)\<rparr>"

theorem debugger_transparent_witness:
  "load_inst (SetBreakpoint 0x300001000 (fresh_debugger nop_memory)) 0x300001000 = 0xD42C0000
   \<and> load_inst (RestoreBreakpoints [0x300001000] (SetBreakpoint 0x300001000 (fresh_debugger nop_memory))) 0x300001000 = 0xD503201F"
proof -
  let ?a = "0x300001000 :: u64" and ?d = "fresh_debugger nop_memory"
  have al: "word_aligned ?a"
    by (simp add: word_aligned_def)
  have code: "get32 (image nop_memory) ?a = 0xD503201F"
    by (simp add: nop_memory_def)
  have "code_ptr ?d ?a = Some ?a"
    by (simp add: code_ptr_def fresh_debugger_def ToGuestRel_def Pointer_def IsValid_def nop_memory_def
        Memory_init_def ADDR_SPACE_SIZE_def)
  moreover have bp: "breakpoints ?d = Map.empty" "d_memory ?d = Some nop_memory"
    by (simp_all add: fresh_debugger_def EmuDebugger_init_def)
  ultimately have s: "SetBreakpoint ?a ?d = store_inst ?a (MakeBrkDebug ?a)
      (set_bp ?a (Some (Breakpoint_new\<lparr>original_inst := load_inst ?d ?a, patched := True\<rparr>)) ?d)"
    by (simp add: SetBreakpoint_def insert_brk_def)
  have "dbg_step ?d (SetBreakpoint ?a ?d)"
    using al code bp by (intro set) (simp_all add: abs_code_def load_inst_def)
  then have r: "reach ?d dbg_step (SetBreakpoint ?a ?d)"
    by (rule reach_step [OF reach_init])
  have "set [?a] = dom (breakpoints (SetBreakpoint ?a ?d))"
    by (simp add: s bp)
  with conjunct2 [OF debugger_transparent [OF r al], rule_format, of "[?a]"]
  have "load_inst (RestoreBreakpoints [?a] (SetBreakpoint ?a ?d)) ?a = 0xD503201F"
    unfolding code by blast
  moreover have "load_inst (SetBreakpoint ?a ?d) ?a = MakeBrkDebug ?a"
    using load_store_inst [OF al al] bp(2) by (simp add: s)
  ultimately show ?thesis
    by (simp add: MakeBrkDebug_def BRK_TAG_DEBUG_def)
qed

text \<open>
  Clearing all breakpoints forgets them without restoring the code: the breakpoint instruction stays in
  the guest's code and the saved instruction is lost.
\<close>

lemma ClearAll_leaves_brk:
  assumes "breakpoints d a = None" and "code_ptr d a = Some p" and "a \<noteq> 0"
  shows "load_inst (ClearAllBreakpoints (SetBreakpoint a d)) a = MakeBrkDebug a
    \<and> breakpoints (ClearAllBreakpoints (SetBreakpoint a d)) = Map.empty"
proof -
  have "p = a" "d_memory d \<noteq> None"
    using code_ptr_here [OF assms(2)] by simp_all
  then show ?thesis
    using assms by (auto simp: SetBreakpoint_def insert_brk_def ClearAllBreakpoints_def load_inst_def store_inst_def set_bp_def)
qed

end
