(* ===== verification/TrapHandler.thy ===== *)
theory TrapHandler
  imports SvcHandlers Debugger
begin

unbundle bit_operations_syntax

text \<open>
  The signal handler of \<^verbatim>\<open>src/src/cpu/ExceptionHandler.cpp\<close>: how a trap in patched guest code
  becomes a system call.

  The handler works on the saved machine context \<open>mcontext\<close> of the interrupted thread. The record \<open>cpu\<close>
  joins the kernel, the address cache, the debugger (which shares the guest memory with the kernel when
  it is attached) and the thread-local and global variables of the handler. The end of a handler is
  returning to the context, a jump to the exit buffer, the exit of the thread, or an end that the system
  call itself reached (\<open>In_svc\<close>). Logging, the signal stacks and the installation of the handler are
  left out.
\<close>

record mcontext =
  mc_x :: "u64 list"
  mc_fp :: u64
  mc_lr :: u64
  mc_sp :: u64
  mc_pc :: u64

record 'w cpu =
  c_kernel :: "'w kernel"
  c_cache :: "u64 \<rightharpoonup> u32"
  c_dbg :: EmuDebugger
  c_dbg_attached :: bool
  c_jit_start :: u64
  c_jit_end :: u64
  c_jit_toggle :: bool
  c_jit_exec :: bool
  c_jmp_valid :: bool

datatype trap_end = Resume | LongJump | PthreadExit | In_svc svc_end

definition to_guest_state :: "mcontext \<Rightarrow> GuestThreadState" where
  "to_guest_state ss = \<lparr>gx = take 29 (mc_x ss) @ [mc_fp ss, mc_lr ss], gsp = mc_sp ss, gpc = mc_pc ss\<rparr>"

definition from_guest_state :: "GuestThreadState \<Rightarrow> mcontext \<Rightarrow> mcontext" where
  "from_guest_state gs ss =
     ss\<lparr>mc_x := take 29 (gx gs), mc_fp := gx gs ! 29, mc_lr := gx gs ! 30, mc_sp := gsp gs\<rparr>"

text \<open>The debugger with the memory it shares with the kernel.\<close>

definition call_debugger :: "u64 \<Rightarrow> GuestThreadState \<Rightarrow> 'w cpu \<Rightarrow> bool \<times> 'w cpu" where
  "call_debugger pc gs c =
     (let (handled, d) = OnBreakpoint pc gs ((c_dbg c)\<lparr>d_memory := (if c_dbg_attached c then k_mem (c_kernel c) else None)\<rparr>);
          k = (case d_memory d of Some m \<Rightarrow> set_mem m (c_kernel c) | None \<Rightarrow> c_kernel c)
      in (handled, c\<lparr>c_dbg := d, c_kernel := k\<rparr>))"

definition guest_exit :: "'w cpu \<Rightarrow> trap_end" where
  "guest_exit c = (if c_jmp_valid c then LongJump else PthreadExit)"

text \<open>Signals other than \<open>SIGTRAP\<close> (lines 53 to 94).\<close>

definition fault_handler :: "u64 option \<Rightarrow> mcontext \<Rightarrow> 'w cpu \<Rightarrow> trap_end \<times> mcontext \<times> 'w cpu" where
  "fault_handler si_addr ss c =
     (let pc = mc_pc ss; fault_addr = (case si_addr of Some a \<Rightarrow> a | None \<Rightarrow> 0);
          in_region = (\<lambda>a. a \<ge> c_jit_start c \<and> a < c_jit_end c)
      in if c_jit_start c \<noteq> 0 \<and> c_jit_end c \<noteq> 0 \<and> (in_region fault_addr \<or> in_region pc)
         then let t = (\<not> c_jit_toggle c) in (Resume, ss, c\<lparr>c_jit_toggle := t, c_jit_exec := t\<rparr>)
         else (guest_exit c, ss, c\<lparr>c_kernel := (c_kernel c)\<lparr>k_crashed := True, k_exited := True\<rparr>\<rparr>))"

definition TrapHandler :: "'w env \<Rightarrow> bool \<Rightarrow> u64 option \<Rightarrow> mcontext \<Rightarrow> 'w cpu \<Rightarrow> trap_end \<times> mcontext \<times> 'w cpu" where
  "TrapHandler e is_sigtrap si_addr ss c =
     (let pc = mc_pc ss in
      if \<not> is_sigtrap then fault_handler si_addr ss c
      else case c_cache c pc of
             None \<Rightarrow> (Resume, ss\<lparr>mc_pc := pc + 4\<rparr>, c)
           | Some tag \<Rightarrow>
               if tag AND 0xF000 = BRK_TAG_DEBUG then
                 (let gs = to_guest_state ss; (handled, c1) = call_debugger pc gs c
                  in if handled then (Resume, from_guest_state gs ss, c1)
                     else (Resume, ss\<lparr>mc_pc := pc + 4\<rparr>, c1))
               else
                 (case SvcHandler_Dispatch e (tag - BRK_TAG_BASE) (c_kernel c) (to_guest_state ss) of
                    (Returns, k, gs) \<Rightarrow>
                      let c1 = c\<lparr>c_kernel := k\<rparr>; ss1 = from_guest_state gs ss
                      in if k_exited k then (guest_exit c1, ss1, c1) else (Resume, ss1\<lparr>mc_pc := pc + 4\<rparr>, c1)
                  | (r, k, gs) \<Rightarrow> (In_svc r, ss, c\<lparr>c_kernel := k\<rparr>)))"

section \<open>Tags\<close>

definition svc_tag :: "u32 \<Rightarrow> bool" where
  "svc_tag tag \<longleftrightarrow> (\<exists>n. unat n < 256 \<and> tag = BRK_TAG_BASE + n)"

lemma svc_tag_page:
  assumes "unat n < 256"
  shows "(BRK_TAG_BASE + n) AND 0xF000 = 0x1000"
proof -
  let ?t = "BRK_TAG_BASE + n"
  have page: "(0xF000 :: u32) = push_bit 12 (mask 4)"
    by (simp add: mask_eq_exp_minus_1)
  have "?t AND 0xF000 = push_bit 12 (take_bit 4 (drop_bit 12 ?t))"
    unfolding page by (rule bit_word_eqI) (auto simp: bit_simps)
  moreover have "unat (drop_bit 12 ?t) = unat ?t div 2 ^ 12"
    by (subst unat_drop_bit_eq) (rule drop_bit_eq_div)
  then have "unat (drop_bit 12 ?t) = 1"
    using assms by (simp add: BRK_TAG_BASE_def unat_word_ariths)
  then have "drop_bit 12 ?t = 1"
    by (metis unat_1 word_unat_eq_iff)
  ultimately show ?thesis
    by simp
qed

lemma svc_tag_not_debug: "svc_tag tag \<Longrightarrow> tag AND 0xF000 \<noteq> BRK_TAG_DEBUG"
  using svc_tag_page by (auto simp: svc_tag_def BRK_TAG_DEBUG_def)

text \<open>Patching is the only thing that fills the cache, so it holds tags of system calls only.\<close>

definition svc_cache :: "(u64 \<rightharpoonup> u32) \<Rightarrow> bool" where
  "svc_cache cache \<longleftrightarrow> (\<forall>a tag. cache a = Some tag \<longrightarrow> svc_tag tag)"

lemma svc_cache_empty: "svc_cache Map.empty"
  by (simp add: svc_cache_def)

lemma patch_word_cache: "svc_cache (p_cache p) \<Longrightarrow> svc_cache (p_cache (patch_word tls a p))"
  using svc_num_bound by (auto simp: svc_cache_def patch_word_rest(2) Let_def svc_tag_def)

lemma patch_loop_svc_cache: "svc_cache (p_cache p) \<Longrightarrow> svc_cache (p_cache (patch_loop tls code i k p))"
  by (induction k arbitrary: i p) (simp_all add: patch_word_cache)

lemma PatchSVCs_svc_cache:
  assumes "svc_cache (p_cache p)" and "PatchSVCs mmap_ok host_tls tls code sz p = (r, tls', p')"
  shows "svc_cache (p_cache p')"
  using assms patch_loop_svc_cache [of "p\<lparr>p_img := img, p_map := []\<rparr>" for img]
  by (auto simp: PatchSVCs_def Let_def split_beta split: if_splits)
section \<open>Properties\<close>

lemma abi_guest_state:
  assumes "abi_ok (to_guest_state ss) gs" and "length (mc_x ss) = 29"
  shows "length (gx gs) = 31" "mc_sp (from_guest_state gs ss) = mc_sp ss" "mc_fp (from_guest_state gs ss) = mc_fp ss"
    "mc_lr (from_guest_state gs ss) = mc_lr ss"
    "4 \<le> i \<Longrightarrow> i < 29 \<Longrightarrow> mc_x (from_guest_state gs ss) ! i = mc_x ss ! i"
  using assms by (auto simp: abi_ok_def to_guest_state_def from_guest_state_def nth_append)

text \<open>
  Property C8: a patched system call instruction behaves like the call it replaces. When the breakpoint
  that \<open>PatchSVCs\<close> put in place of \<open>svc n\<close> traps, the handler dispatches exactly call \<open>n\<close> with the
  thread's registers, and if that returns and the process goes on, the thread continues behind the
  instruction with the kernel state and \<open>x0\<close> to \<open>x3\<close> the call left; all other registers, the frame and
  the stack are unchanged.
\<close>

theorem svc_trap_dispatches:
  fixes e :: "'w env"
  assumes "PatchSVCs mmap_ok host_tls tls code sz p = (Success, tls', p')"
    and "EnsureFixedTls mmap_ok host_tls tls (p_img p) = (has, tls', img)"
    and "j < unat sz div 4" and "svc_site (inst_at img code j)" and "svc_cache (p_cache p)"
    and "c_cache c = p_cache p'" and "mc_pc ss = insn_addr code j" and "length (mc_x ss) = 29"
    and "service_contract (e_vt e)"
    and "SvcHandler_Dispatch e (svc_num (inst_at img code j)) (c_kernel c) (to_guest_state ss) = (Returns, k', gs')"
    and "\<not> k_exited k'"
  shows "\<exists>ss'. TrapHandler e True si ss c = (Resume, ss', c\<lparr>c_kernel := k'\<rparr>)
    \<and> mc_pc ss' = insn_addr code (Suc j) \<and> mc_sp ss' = mc_sp ss \<and> mc_fp ss' = mc_fp ss \<and> mc_lr ss' = mc_lr ss
    \<and> (\<forall>i < 29. mc_x ss' ! i = (if i < 4 then gx gs' ! i else mc_x ss ! i))"
proof -
  let ?n = "svc_num (inst_at img code j)"
  obtain img1 has1 where "EnsureFixedTls mmap_ok host_tls tls (p_img p) = (has1, tls', img1)"
    and p': "p' = patch_loop (if has1 then Some tls' else None) code 0 (unat sz div 4) (p\<lparr>p_img := img1, p_map := []\<rparr>)"
    and n: "4 * (unat sz div 4) < 2 ^ 64"
    using PatchSVCs_runs [OF assms(1)] by blast
  then have "img1 = img"
    using assms(2) by simp
  then have tag: "c_cache c (mc_pc ss) = Some (BRK_TAG_BASE + ?n)"
    using patch_loop_cache(1) [of 0 "unat sz div 4" "unat sz div 4" j] assms(3,4,6,7) n by (simp add: p')
  have "BRK_TAG_BASE + ?n - BRK_TAG_BASE = ?n" "(BRK_TAG_BASE + ?n) AND 0xF000 \<noteq> BRK_TAG_DEBUG"
    using svc_tag_not_debug svc_num_bound [OF assms(4)] by (auto simp: svc_tag_def)
  then have run: "TrapHandler e True si ss c = (Resume, (from_guest_state gs' ss)\<lparr>mc_pc := mc_pc ss + 4\<rparr>, c\<lparr>c_kernel := k'\<rparr>)"
    using tag assms(10,11) by (simp add: TrapHandler_def Let_def)
  have "abi_ok (to_guest_state ss) gs'"
    using handler_okD(1) [OF dispatch_ok assms(9,10)] .
  note abi = abi_guest_state [OF this assms(8)]
  have "insn_addr code j + 4 = insn_addr code (Suc j)"
    by (simp add: insn_addr_def algebra_simps)
  moreover have "mc_x (from_guest_state gs' ss) ! i = (if i < 4 then gx gs' ! i else mc_x ss ! i)" if "i < 29" for i
    using abi(5) [of i] that by (auto simp: from_guest_state_def)
  ultimately show ?thesis
    using run abi assms(7) by simp
qed

definition tick_code :: patcher where
  "tick_code = \<lparr>p_img = put32 0x1000 0xD40003C1 (\<lambda>_. 0), p_map = [], p_cache = Map.empty\<rparr>"

definition boot_cpu :: "(u64 \<rightharpoonup> u32) \<Rightarrow> unit svc_world cpu" where
  "boot_cpu cache = \<lparr>c_kernel = (boot_kernel None)\<lparr>k_ticks := 77\<rparr>, c_cache = cache, c_dbg = EmuDebugger_init,
     c_dbg_attached = False, c_jit_start = 0, c_jit_end = 0, c_jit_toggle = False, c_jit_exec = False, c_jmp_valid = False\<rparr>"

definition start_context :: mcontext where
  "start_context = \<lparr>mc_x = replicate 29 5, mc_fp = 0, mc_lr = 0, mc_sp = 0x8000, mc_pc = 0x1000\<rparr>"

lemma svc_table_tick: "svc_table 0x1E = Some SvcGetSystemTick"
  by (simp add: svc_table_def registrations_def SvcTable_Register_def MAX_SVC_def)

theorem svc_trap_dispatches_witness:
  "\<exists>p' ss' c'. PatchSVCs (\<lambda>_. True) 0 0x100000000 0x1000 4 tick_code = (Success, 0x100000000, p')
     \<and> TrapHandler std_env True None start_context (boot_cpu (p_cache p')) = (Resume, ss', c')
     \<and> mc_pc ss' = 0x1004 \<and> mc_x ss' ! 0 = 77 \<and> mc_x ss' ! 7 = 5"
proof -
  have e: "EnsureFixedTls (\<lambda>_. True) 0 0x100000000 (p_img tick_code) = (True, 0x100000000, p_img tick_code)"
    by (simp add: EnsureFixedTls_def)
  obtain p' where run: "PatchSVCs (\<lambda>_. True) 0 0x100000000 0x1000 4 tick_code = (Success, 0x100000000, p')"
    by (simp add: PatchSVCs_def e)
  have a: "insn_addr 0x1000 0 = 0x1000" "insn_addr 0x1000 (Suc 0) = 0x1004"
    by (simp_all add: insn_addr_def)
  have i: "inst_at (p_img tick_code) 0x1000 0 = 0xD40003C1"
    by (simp add: a tick_code_def)
  have n: "svc_num 0xD40003C1 = 0x1E" and s: "svc_site (inst_at (p_img tick_code) 0x1000 0)"
    unfolding i by (simp_all add: svc_site_def is_svc_def svc_num_def patch_consts)
  let ?k = "(boot_kernel None)\<lparr>k_ticks := 77, k_svc_call_count := 1\<rparr>"
  have d: "SvcHandler_Dispatch std_env (svc_num (inst_at (p_img tick_code) 0x1000 0))
      (c_kernel (boot_cpu (p_cache p'))) (to_guest_state start_context) = (Returns, ?k, Ret 77 (to_guest_state start_context))"
    unfolding i n by (simp add: SvcHandler_Dispatch_def MAX_SVC_def svc_table_tick SvcGetSystemTick_def boot_cpu_def boot_kernel_def)
  have c: "c_cache (boot_cpu (p_cache p')) = p_cache p'" "service_contract (e_vt std_env)" "svc_cache (p_cache tick_code)"
      "mc_pc start_context = insn_addr 0x1000 0" "length (mc_x start_context) = 29" "\<not> k_exited ?k"
    by (simp_all add: boot_cpu_def std_env_def std.service_contract_axioms tick_code_def svc_cache_empty start_context_def a boot_kernel_def)
  obtain ss' where "TrapHandler std_env True None start_context (boot_cpu (p_cache p')) = (Resume, ss', (boot_cpu (p_cache p'))\<lparr>c_kernel := ?k\<rparr>)"
      "mc_pc ss' = 0x1004"
      "\<forall>i < 29. mc_x ss' ! i = (if i < 4 then gx (Ret 77 (to_guest_state start_context)) ! i else mc_x start_context ! i)"
    using svc_trap_dispatches [OF run e _ s c(3,1,4,5,2) d c(6), of None] unfolding a by auto
  then show ?thesis
    using run by (auto simp: Ret_def setx_def to_guest_state_def start_context_def)
qed

text \<open>
  The debugger is never told about a breakpoint. Only system calls enter the address
  cache, so with every trap the debugger's state stays as it was; a trap on one of its breakpoints just
  skips the instruction word, and the instruction that the breakpoint replaced is not executed.
\<close>

theorem breakpoints_never_reported:
  fixes e :: "'w env"
  assumes "svc_cache (c_cache c)" and "TrapHandler e is_sigtrap si ss c = (r, ss', c')"
  shows "c_dbg c' = c_dbg c \<and> c_cache c' = c_cache c
    \<and> (is_sigtrap \<and> c_cache c (mc_pc ss) = None \<longrightarrow> r = Resume \<and> ss' = ss\<lparr>mc_pc := mc_pc ss + 4\<rparr> \<and> c' = c)"
proof -
  have "tag AND 0xF000 \<noteq> BRK_TAG_DEBUG" if "c_cache c (mc_pc ss) = Some tag" for tag
    using that assms(1) svc_tag_not_debug by (auto simp: svc_cache_def)
  then show ?thesis
    using assms(2) by (auto simp: TrapHandler_def fault_handler_def Let_def split: if_splits option.splits svc_end.splits prod.splits)
qed

theorem breakpoints_never_reported_witness:
  "TrapHandler std_env True None start_context ((boot_cpu Map.empty)\<lparr>c_dbg := SetBreakpoint 0x1000 EmuDebugger_init\<rparr>)
     = (Resume, start_context\<lparr>mc_pc := 0x1004\<rparr>, (boot_cpu Map.empty)\<lparr>c_dbg := SetBreakpoint 0x1000 EmuDebugger_init\<rparr>)"
proof -
  let ?c = "(boot_cpu Map.empty)\<lparr>c_dbg := SetBreakpoint 0x1000 EmuDebugger_init\<rparr>"
  have "svc_cache (c_cache ?c)" "c_cache ?c (mc_pc start_context) = None" "mc_pc start_context = 0x1000"
    by (simp_all add: boot_cpu_def svc_cache_empty start_context_def)
  moreover obtain r ss' c' where "TrapHandler std_env True None start_context ?c = (r, ss', c')"
    by (metis prod_cases3)
  ultimately show ?thesis
    using breakpoints_never_reported [of ?c std_env True None start_context r ss' c'] by auto
qed

end
