(* ===== verification/TraceEngine.thy ===== *)
theory TraceEngine
  imports Prelude
begin

text \<open>
  The trace engine: \<^verbatim>\<open>src/src/debug/TraceEngine.cpp\<close> and \<^verbatim>\<open>TraceEngine.h\<close>.

  A slot of the ring buffer is a list of 56 bytes, because slots hold events as well as raw extra data;
  \<open>encode_event\<close> is the memory layout of an event and \<open>decode_event\<close> what reading a slot through a
  \<^verbatim>\<open>TraceEvent&\<close> yields. The ring is a function from indices to slots (\<open>None\<close>: \<^verbatim>\<open>mmap\<close> failed). The two
  positions are natural numbers: the 64-bit counters would need \<open>2^64\<close> records to wrap. The output file
  is the list of bytes written to it, the clock an argument. Operations run one at a time.
  \<^verbatim>\<open>std::sort\<close> by time stamp is \<open>sort_key\<close>, which is one of the results the library permits for equal
  stamps.
\<close>

section \<open>Events\<close>

type_synonym TraceChannel = u8

definition CHANNEL_COUNT :: nat where "CHANNEL_COUNT = 6"

record TraceEvent =
  timestamp :: u64
  guest_pc :: u64
  arg0 :: u64
  arg1 :: u64
  ev_result :: u64
  event_id :: u32
  ev_thread :: u32
  channel :: TraceChannel
  extra_size :: u8
  reserved :: u16

definition EVENT_SIZE :: nat where "EVENT_SIZE = 56"

definition encode_event :: "TraceEvent \<Rightarrow> u8 list" where
  "encode_event ev = le_bytes 8 (timestamp ev) @ le_bytes 8 (guest_pc ev) @ le_bytes 8 (arg0 ev)
     @ le_bytes 8 (arg1 ev) @ le_bytes 8 (ev_result ev) @ le_bytes 4 (event_id ev) @ le_bytes 4 (ev_thread ev)
     @ [channel ev, extra_size ev] @ le_bytes 2 (reserved ev) @ replicate 4 0"

definition decode_event :: "u8 list \<Rightarrow> TraceEvent" where
  "decode_event b = \<lparr>timestamp = of_le_bytes (get_bytes b 0 8), guest_pc = of_le_bytes (get_bytes b 8 8),
     arg0 = of_le_bytes (get_bytes b 16 8), arg1 = of_le_bytes (get_bytes b 24 8),
     ev_result = of_le_bytes (get_bytes b 32 8), event_id = of_le_bytes (get_bytes b 40 4),
     ev_thread = of_le_bytes (get_bytes b 44 4), channel = b ! 48, extra_size = b ! 49,
     reserved = of_le_bytes (get_bytes b 50 2)\<rparr>"

definition clear_event :: TraceEvent where
  "clear_event = \<lparr>timestamp = 0, guest_pc = 0, arg0 = 0, arg1 = 0, ev_result = 0, event_id = 0, ev_thread = 0,
     channel = 0, extra_size = 0, reserved = 0\<rparr>"

lemma length_encode_event [simp]: "length (encode_event ev) = EVENT_SIZE"
  by (simp add: encode_event_def EVENT_SIZE_def)

lemma of_le_bytes_u16 [simp]: "of_le_bytes (le_bytes 2 (w :: u16)) = w"
  by (simp add: le_simps take_bit_word_eq_self)

lemma decode_encode_event [simp]: "decode_event (encode_event ev) = ev"
  by (simp add: decode_event_def encode_event_def get_bytes_def nth_append)

section \<open>State\<close>

definition RING_BUFFER_SIZE :: nat where "RING_BUFFER_SIZE = 2 ^ 20"

record TraceEngine =
  ring_buffer :: "(nat \<Rightarrow> u8 list) option"
  write_pos :: nat
  read_pos :: nat
  channel_enabled :: "bool list"
  filters :: "(TraceEvent \<Rightarrow> bool) option list"
  channel_event_count :: "u64 list"
  tl_guest_pc :: u64
  tl_thread_id :: u32
  enabled :: bool
  out_file :: "u8 list option"
  file_output_enabled :: bool
  total_events :: u64
  dropped_events :: u64

definition TraceEngine_init :: "bool \<Rightarrow> TraceEngine" where
  "TraceEngine_init mapped = \<lparr>ring_buffer = (if mapped then Some (\<lambda>_. replicate EVENT_SIZE 0) else None),
     write_pos = 0, read_pos = 0, channel_enabled = [True, True, False, False, False, False],
     filters = replicate 6 None, channel_event_count = replicate 6 0, tl_guest_pc = 0, tl_thread_id = 0,
     enabled = True, out_file = None, file_output_enabled = False, total_events = 0, dropped_events = 0\<rparr>"

section \<open>Channels and filters\<close>

abbreviation ch_idx :: "TraceChannel \<Rightarrow> nat" where "ch_idx ch \<equiv> unat ch"

definition EnableChannel :: "TraceChannel \<Rightarrow> bool \<Rightarrow> TraceEngine \<Rightarrow> TraceEngine" where
  "EnableChannel ch en t =
     (if ch_idx ch < CHANNEL_COUNT then t\<lparr>channel_enabled := (channel_enabled t)[ch_idx ch := en]\<rparr> else t)"

definition DisableChannel :: "TraceChannel \<Rightarrow> TraceEngine \<Rightarrow> TraceEngine" where
  "DisableChannel ch = EnableChannel ch False"

definition EnableAll :: "TraceEngine \<Rightarrow> TraceEngine" where
  "EnableAll t = t\<lparr>channel_enabled := replicate CHANNEL_COUNT True\<rparr>"

definition DisableAll :: "TraceEngine \<Rightarrow> TraceEngine" where
  "DisableAll t = t\<lparr>channel_enabled := replicate CHANNEL_COUNT False\<rparr>"

definition IsChannelEnabled :: "TraceChannel \<Rightarrow> TraceEngine \<Rightarrow> bool" where
  "IsChannelEnabled ch t \<longleftrightarrow> ch_idx ch < CHANNEL_COUNT \<and> channel_enabled t ! ch_idx ch"

definition SetFilter :: "TraceChannel \<Rightarrow> (TraceEvent \<Rightarrow> bool) option \<Rightarrow> TraceEngine \<Rightarrow> TraceEngine" where
  "SetFilter ch f t = (if ch_idx ch < CHANNEL_COUNT then t\<lparr>filters := (filters t)[ch_idx ch := f]\<rparr> else t)"

definition ClearFilter :: "TraceChannel \<Rightarrow> TraceEngine \<Rightarrow> TraceEngine" where
  "ClearFilter ch = SetFilter ch None"

definition SetEnabled :: "bool \<Rightarrow> TraceEngine \<Rightarrow> TraceEngine" where
  "SetEnabled en t = t\<lparr>enabled := en\<rparr>"

definition SetCurrentGuestPc :: "u64 \<Rightarrow> TraceEngine \<Rightarrow> TraceEngine" where
  "SetCurrentGuestPc pc t = t\<lparr>tl_guest_pc := pc\<rparr>"

definition SetCurrentThreadId :: "u32 \<Rightarrow> TraceEngine \<Rightarrow> TraceEngine" where
  "SetCurrentThreadId tid t = t\<lparr>tl_thread_id := tid\<rparr>"

section \<open>Recording\<close>

definition slots_for :: "u8 \<Rightarrow> nat" where
  "slots_for extra = (unat extra + EVENT_SIZE - 1) div EVENT_SIZE"

definition AllocateSlot :: "u8 \<Rightarrow> TraceEngine \<Rightarrow> nat option \<times> TraceEngine" where
  "AllocateSlot extra t =
     (let slots_needed = 1 + (if extra > 0 then slots_for extra else 0);
          pos = write_pos t;
          t1 = t\<lparr>write_pos := pos + slots_needed\<rparr>
      in case ring_buffer t of
           None \<Rightarrow> (None, t1\<lparr>dropped_events := dropped_events t + 1\<rparr>)
         | Some _ \<Rightarrow>
             if pos - read_pos t > RING_BUFFER_SIZE - slots_needed
             then (Some pos, t1\<lparr>dropped_events := dropped_events t + 1,
                               read_pos := pos + slots_needed - RING_BUFFER_SIZE\<rparr>)
             else (Some pos, t1))"

definition new_event :: "u64 \<Rightarrow> TraceChannel \<Rightarrow> u32 \<Rightarrow> u64 \<Rightarrow> u64 \<Rightarrow> u64 \<Rightarrow> u8 \<Rightarrow> TraceEngine \<Rightarrow> TraceEvent" where
  "new_event now ch eid a0 a1 res extra t =
     clear_event\<lparr>timestamp := now, guest_pc := tl_guest_pc t, ev_thread := tl_thread_id t, channel := ch,
       event_id := eid, arg0 := a0, arg1 := a1, ev_result := res, extra_size := extra\<rparr>"

definition put_slot :: "nat \<Rightarrow> u8 list \<Rightarrow> TraceEngine \<Rightarrow> TraceEngine" where
  "put_slot i b t = t\<lparr>ring_buffer := map_option (\<lambda>r. r(i := b)) (ring_buffer t)\<rparr>"

definition count_event :: "TraceChannel \<Rightarrow> TraceEngine \<Rightarrow> TraceEngine" where
  "count_event ch t = t\<lparr>channel_event_count := (channel_event_count t)[ch_idx ch := channel_event_count t ! ch_idx ch + 1],
     total_events := total_events t + 1\<rparr>"

definition file_write :: "u8 list \<Rightarrow> TraceEngine \<Rightarrow> TraceEngine" where
  "file_write bs t = (if file_output_enabled t then t\<lparr>out_file := map_option (\<lambda>f. f @ bs) (out_file t)\<rparr> else t)"

definition filter_passes :: "TraceChannel \<Rightarrow> u32 \<Rightarrow> u64 \<Rightarrow> u64 \<Rightarrow> u64 \<Rightarrow> TraceEngine \<Rightarrow> bool" where
  "filter_passes ch eid a0 a1 res t =
     (case filters t ! ch_idx ch of
        None \<Rightarrow> True
      | Some f \<Rightarrow> f (clear_event\<lparr>channel := ch, event_id := eid, arg0 := a0, arg1 := a1, ev_result := res\<rparr>))"

definition Record :: "u64 \<Rightarrow> TraceChannel \<Rightarrow> u32 \<Rightarrow> u64 \<Rightarrow> u64 \<Rightarrow> u64 \<Rightarrow> TraceEngine \<Rightarrow> TraceEngine" where
  "Record now ch eid a0 a1 res t =
     (if \<not> enabled t then t
      else if \<not> IsChannelEnabled ch t then t
      else if \<not> filter_passes ch eid a0 a1 res t then t
      else case AllocateSlot 0 t of
             (None, t1) \<Rightarrow> t1
           | (Some pos, t1) \<Rightarrow>
               let ev = new_event now ch eid a0 a1 res 0 t
               in file_write (encode_event ev) (count_event ch (put_slot (pos mod RING_BUFFER_SIZE) (encode_event ev) t1)))"

text \<open>The copy loop into the following slots; bytes of the last slot beyond the data keep their old value.\<close>

fun copy_extra :: "u8 list \<Rightarrow> nat \<Rightarrow> nat \<Rightarrow> nat \<Rightarrow> TraceEngine \<Rightarrow> TraceEngine" where
  "copy_extra data ring_idx i 0 t = t"
| "copy_extra data ring_idx i (Suc k) t =
     (let data_idx = (ring_idx + 1 + i) mod RING_BUFFER_SIZE;
          chunk = take EVENT_SIZE (drop (i * EVENT_SIZE) data);
          old = (case ring_buffer t of Some r \<Rightarrow> r data_idx | None \<Rightarrow> [])
      in copy_extra data ring_idx (Suc i) k (put_slot data_idx (chunk @ drop (length chunk) old) t))"

definition RecordWithExtra ::
    "u64 \<Rightarrow> TraceChannel \<Rightarrow> u32 \<Rightarrow> u8 list option \<Rightarrow> u8 \<Rightarrow> u64 \<Rightarrow> u64 \<Rightarrow> u64 \<Rightarrow> TraceEngine \<Rightarrow> TraceEngine" where
  "RecordWithExtra now ch eid data extra a0 a1 res t =
     (if \<not> enabled t then t
      else if \<not> IsChannelEnabled ch t then t
      else case AllocateSlot extra t of
             (None, t1) \<Rightarrow> t1
           | (Some pos, t1) \<Rightarrow>
               let ev = new_event now ch eid a0 a1 res extra t;
                   ring_idx = pos mod RING_BUFFER_SIZE;
                   t2 = put_slot ring_idx (encode_event ev) t1;
                   bytes = (if extra > 0 then (case data of Some d \<Rightarrow> take (unat extra) d | None \<Rightarrow> []) else []);
                   t3 = (if extra > 0 \<and> data \<noteq> None then copy_extra bytes ring_idx 0 (slots_for extra) t2 else t2)
               in file_write (encode_event ev @ bytes) (count_event ch t3))"

section \<open>Output file\<close>

text \<open>Opening either succeeds (appending: \<open>old\<close> is what the file already holds) or leaves no file open.\<close>

definition SetOutputFile :: "u8 list option \<Rightarrow> TraceEngine \<Rightarrow> TraceEngine" where
  "SetOutputFile old t = t\<lparr>out_file := old\<rparr>"

definition EnableFileOutput :: "bool \<Rightarrow> TraceEngine \<Rightarrow> TraceEngine" where
  "EnableFileOutput en t = t\<lparr>file_output_enabled := en\<rparr>"

section \<open>Queries\<close>

definition GetEventCount :: "TraceChannel \<Rightarrow> TraceEngine \<Rightarrow> u64" where
  "GetEventCount ch t = (if ch_idx ch \<ge> CHANNEL_COUNT then 0 else channel_event_count t ! ch_idx ch)"

fun query_loop :: "(nat \<Rightarrow> u8 list) \<Rightarrow> (TraceEvent \<Rightarrow> bool) \<Rightarrow> nat \<Rightarrow> nat \<Rightarrow> nat \<Rightarrow> TraceEvent list \<Rightarrow> TraceEvent list" where
  "query_loop ring P max_count lo 0 acc = acc"
| "query_loop ring P max_count lo (Suc i) acc =
     (if Suc i > lo \<and> length acc < max_count
      then let ev = decode_event (ring (i mod RING_BUFFER_SIZE))
           in query_loop ring P max_count lo i (if P ev then acc @ [ev] else acc)
      else acc)"

definition query_match :: "TraceChannel \<Rightarrow> u64 \<Rightarrow> u64 \<Rightarrow> TraceEvent \<Rightarrow> bool" where
  "query_match ch from_ts to_ts ev \<longleftrightarrow> channel ev = ch \<and> \<not> (timestamp ev < from_ts \<or> timestamp ev > to_ts)"

definition Query :: "TraceChannel \<Rightarrow> u64 \<Rightarrow> u64 \<Rightarrow> u32 \<Rightarrow> TraceEngine \<Rightarrow> TraceEvent list" where
  "Query ch from_ts to_ts max_count t =
     (case ring_buffer t of
        None \<Rightarrow> []
      | Some r \<Rightarrow> sort_key timestamp
          (query_loop r (query_match ch from_ts to_ts) (unat max_count) (read_pos t) (write_pos t) []))"

record Stats =
  events_per_channel :: "u64 list"
  st_total_events :: u64
  st_dropped_events :: u64
  ring_buffer_capacity :: u64

definition GetStats :: "TraceEngine \<Rightarrow> Stats" where
  "GetStats t = \<lparr>events_per_channel = channel_event_count t, st_total_events = total_events t,
     st_dropped_events = dropped_events t, ring_buffer_capacity = of_nat RING_BUFFER_SIZE\<rparr>"

definition ClearTrace :: "TraceEngine \<Rightarrow> TraceEngine" where
  "ClearTrace t = t\<lparr>write_pos := 0, read_pos := 0, total_events := 0, dropped_events := 0,
     channel_event_count := replicate CHANNEL_COUNT 0\<rparr>"
section \<open>The log behind the ring\<close>

text \<open>
  A component that keeps the tail of a log: every request appends at most one entry, and the window is
  the last \<open>cap\<close> entries.
\<close>

primrec accepted :: "('r \<Rightarrow> 't \<Rightarrow> 't) \<Rightarrow> ('r \<Rightarrow> 't \<Rightarrow> 'e list) \<Rightarrow> 'r list \<Rightarrow> 't \<Rightarrow> 'e list" where
  "accepted put new [] t = []"
| "accepted put new (r # rs) t = new r t @ accepted put new rs (put r t)"

locale event_log =
  fixes holds :: "'e list \<Rightarrow> 't \<Rightarrow> bool" and put :: "'r \<Rightarrow> 't \<Rightarrow> 't" and new :: "'r \<Rightarrow> 't \<Rightarrow> 'e list"
    and window :: "'t \<Rightarrow> 'e list" and cap :: nat
  assumes holds_put: "holds log t \<Longrightarrow> holds (log @ new r t) (put r t)"
    and window_holds: "holds log t \<Longrightarrow> window t = drop (length log - cap) log"
begin

lemma holds_fold: "holds log t \<Longrightarrow> holds (log @ accepted put new rs t) (fold put rs t)"
proof (induction rs arbitrary: log t)
  case (Cons r rs)
  from Cons.IH [OF holds_put [OF Cons.prems]] show ?case
    by simp
qed simp

lemma window_fold:
  "holds log t \<Longrightarrow> window (fold put rs t) =
     (let all = log @ accepted put new rs t in drop (length all - cap) all)"
  using window_holds [OF holds_fold] by (simp add: Let_def)

end

text \<open>Requests to the engine, and what each adds to the log.\<close>

datatype trace_op =
    Op_Record u64 TraceChannel u32 u64 u64 u64
  | Op_Enable TraceChannel bool
  | Op_All bool
  | Op_Filter TraceChannel "(TraceEvent \<Rightarrow> bool) option"
  | Op_Switch bool
  | Op_Pc u64
  | Op_Tid u32
  | Op_File bool
  | Op_Output "u8 list option"

fun do_op :: "trace_op \<Rightarrow> TraceEngine \<Rightarrow> TraceEngine" where
  "do_op (Op_Record now ch eid a0 a1 res) t = Record now ch eid a0 a1 res t"
| "do_op (Op_Enable ch en) t = EnableChannel ch en t"
| "do_op (Op_All en) t = (if en then EnableAll t else DisableAll t)"
| "do_op (Op_Filter ch f) t = SetFilter ch f t"
| "do_op (Op_Switch en) t = SetEnabled en t"
| "do_op (Op_Pc pc) t = SetCurrentGuestPc pc t"
| "do_op (Op_Tid tid) t = SetCurrentThreadId tid t"
| "do_op (Op_File en) t = EnableFileOutput en t"
| "do_op (Op_Output old) t = SetOutputFile old t"

fun op_events :: "trace_op \<Rightarrow> TraceEngine \<Rightarrow> TraceEvent list" where
  "op_events (Op_Record now ch eid a0 a1 res) t =
     (if enabled t \<and> IsChannelEnabled ch t \<and> filter_passes ch eid a0 a1 res t
      then [new_event now ch eid a0 a1 res 0 t] else [])"
| "op_events _ t = []"

definition holds_log :: "TraceEvent list \<Rightarrow> TraceEngine \<Rightarrow> bool" where
  "holds_log log t \<longleftrightarrow> write_pos t = length log \<and> read_pos t = length log - RING_BUFFER_SIZE
     \<and> (case ring_buffer t of None \<Rightarrow> False
        | Some r \<Rightarrow> (\<forall>i. length log - RING_BUFFER_SIZE \<le> i \<and> i < length log
            \<longrightarrow> r (i mod RING_BUFFER_SIZE) = encode_event (log ! i)))"

definition trace_window :: "TraceEngine \<Rightarrow> TraceEvent list" where
  "trace_window t = (case ring_buffer t of None \<Rightarrow> []
     | Some r \<Rightarrow> map (\<lambda>i. decode_event (r (i mod RING_BUFFER_SIZE))) [read_pos t..<write_pos t])"

lemma ring_positive [simp]: "0 < RING_BUFFER_SIZE"
  by (simp add: RING_BUFFER_SIZE_def)

lemma holds_log_frame:
  assumes "write_pos t' = write_pos t" and "read_pos t' = read_pos t" and "ring_buffer t' = ring_buffer t"
  shows "holds_log log t' = holds_log log t"
  unfolding holds_log_def assms by (rule refl)

lemma window_index_neq:
  assumes "i < n" and "n < i + (c :: nat)"
  shows "i mod c \<noteq> n mod c"
proof
  assume "i mod c = n mod c"
  then have "c dvd n - i"
    using assms(1) by (metis less_imp_le mod_eq_dvd_iff_nat)
  then have "c \<le> n - i"
    using assms(1) by (simp add: dvd_imp_le)
  then show False
    using assms by linarith
qed

lemma Record_holds:
  assumes "holds_log log t"
  shows "holds_log (log @ op_events (Op_Record now ch eid a0 a1 res) t) (Record now ch eid a0 a1 res t)"
proof (cases "enabled t \<and> IsChannelEnabled ch t \<and> filter_passes ch eid a0 a1 res t")
  case True
  let ?C = RING_BUFFER_SIZE and ?n = "length log" and ?ev = "new_event now ch eid a0 a1 res 0 t"
  obtain r where r: "ring_buffer t = Some r"
      and log: "\<And>i. ?n - ?C \<le> i \<Longrightarrow> i < ?n \<Longrightarrow> r (i mod ?C) = encode_event (log ! i)"
      and pos: "write_pos t = ?n" "read_pos t = ?n - ?C"
    using assms by (auto simp: holds_log_def split: option.splits)
  define t' where "t' = Record now ch eid a0 a1 res t"
  have alloc: "\<exists>t1. AllocateSlot 0 t = (Some ?n, t1) \<and> write_pos t1 = Suc ?n \<and> read_pos t1 = Suc ?n - ?C
      \<and> ring_buffer t1 = Some r"
  proof -
    have "\<not> ?C - 1 < ?n - (?n - ?C) \<Longrightarrow> ?n - ?C = Suc ?n - ?C"
      using ring_positive by linarith
    then show ?thesis
      using r pos by (auto simp: AllocateSlot_def Let_def)
  qed
  then obtain t1 where t1: "AllocateSlot 0 t = (Some ?n, t1)" "write_pos t1 = Suc ?n" "read_pos t1 = Suc ?n - ?C"
      "ring_buffer t1 = Some r"
    by blast
  have eq: "write_pos t' = Suc ?n" "read_pos t' = Suc ?n - ?C"
      "ring_buffer t' = Some (r(?n mod ?C := encode_event ?ev))"
    using True t1 by (simp_all add: t'_def Record_def Let_def file_write_def count_event_def put_slot_def)
  have "(r(?n mod ?C := encode_event ?ev)) (i mod ?C) = encode_event ((log @ [?ev]) ! i)"
    if "Suc ?n - ?C \<le> i" "i < Suc ?n" for i
  proof (cases "i = ?n")
    case False
    then have "i < ?n" "?n - ?C \<le> i" "?n < i + ?C"
      using that by auto
    then show ?thesis
      using log [of i] window_index_neq [of i ?n ?C] by (simp add: nth_append)
  qed (simp add: nth_append)
  then show ?thesis
    using True eq by (simp add: holds_log_def flip: t'_def)
next
  case False
  then show ?thesis
    using assms by (auto simp: Record_def)
qed

interpretation ring: event_log holds_log do_op op_events trace_window RING_BUFFER_SIZE
proof unfold_locales
  fix log t r
  assume h: "holds_log log t"
  then show "holds_log (log @ op_events r t) (do_op r t)"
  proof (cases r)
    case (Op_Record now ch eid a0 a1 res)
    with h Record_holds show ?thesis
      by (simp del: op_events.simps)
  qed (auto simp: EnableChannel_def SetFilter_def SetEnabled_def SetCurrentGuestPc_def SetCurrentThreadId_def
      EnableFileOutput_def EnableAll_def DisableAll_def SetOutputFile_def holds_log_def)
next
  fix log t
  assume h: "holds_log log t"
  then obtain r where r: "ring_buffer t = Some r"
    by (auto simp: holds_log_def split: option.splits)
  show "trace_window t = drop (length log - RING_BUFFER_SIZE) log"
    using h r by (intro nth_equalityI) (auto simp: trace_window_def holds_log_def)
qed

lemma holds_cleared: "ring_buffer t \<noteq> None \<Longrightarrow> holds_log [] (ClearTrace t)"
  by (auto simp: holds_log_def ClearTrace_def)

text \<open>A new engine is a cleared one.\<close>

lemma ClearTrace_init: "ClearTrace (TraceEngine_init m) = TraceEngine_init m"
  by (simp add: ClearTrace_def TraceEngine_init_def CHANNEL_COUNT_def)

section \<open>Properties\<close>

lemma query_loop_window:
  assumes "lo \<le> n"
  shows "query_loop r P k lo n acc =
    acc @ take (k - length acc) (filter P (rev (map (\<lambda>i. decode_event (r (i mod RING_BUFFER_SIZE))) [lo..<n])))"
  using assms
proof (induction n arbitrary: acc)
  case (Suc n)
  show ?case
  proof (cases "lo \<le> n \<and> length acc < k")
    case True
    then show ?thesis
      using Suc.IH by (auto simp: Let_def take_Cons' Suc_diff_le)
  next
    case False
    then show ?thesis
      using Suc.prems by (auto simp: le_Suc_eq)
  qed
qed simp

text \<open>
  Property C12: since the last \<open>Clear\<close> the ring buffer is a faithful window on the log of what was traced. Whatever the engine
  did before (a new engine is a cleared one), after a clear and then any sequence of records without extra data and of
  changes to channels, filters, the switch, the output file and the thread information, a query
  returns the most recent matching events, at most the requested number, among the last \<open>2^20\<close> recorded
  ones, in the order of their time stamps. Records with extra data are left out: their payload slots are
  reported as events (\<open>extra_data_reported_as_event\<close> below).
\<close>

theorem Query_refines_log:
  fixes ops :: "trace_op list"
  assumes mapped: "ring_buffer t \<noteq> None"
  defines "log \<equiv> accepted do_op op_events ops (ClearTrace t)"
  shows "Query ch from_ts to_ts max_count (fold do_op ops (ClearTrace t)) =
    sort_key timestamp (take (unat max_count)
      (filter (query_match ch from_ts to_ts) (rev (drop (length log - RING_BUFFER_SIZE) log))))"
proof -
  let ?t = "fold do_op ops (ClearTrace t)"
  have h: "holds_log log ?t"
    using ring.holds_fold [OF holds_cleared [OF mapped]] by (simp add: log_def)
  then obtain r where r: "ring_buffer ?t = Some r" and pos: "read_pos ?t \<le> write_pos ?t"
    by (auto simp: holds_log_def split: option.splits)
  have "map (\<lambda>i. decode_event (r (i mod RING_BUFFER_SIZE))) [read_pos ?t..<write_pos ?t] =
      drop (length log - RING_BUFFER_SIZE) log"
    using ring.window_holds [OF h] r by (simp add: trace_window_def)
  then show ?thesis
    using r query_loop_window [OF pos, of r _ _ "[]"] by (simp add: Query_def)
qed

text \<open>A new engine records two system calls, of which the query asks for the last.\<close>

theorem Query_refines_log_witness:
  "Query 0 0 100 1 (fold do_op [Op_Pc 0x4000, Op_Record 5 0 1 0 0 0, Op_Record 6 0 2 0 0 0] (TraceEngine_init True)) =
    [clear_event\<lparr>timestamp := 6, guest_pc := 0x4000, event_id := 2\<rparr>]"
proof -
  have "ring_buffer (TraceEngine_init True) \<noteq> None"
    by (simp add: TraceEngine_init_def)
  moreover have "accepted do_op op_events [Op_Pc 0x4000, Op_Record 5 0 1 0 0 0, Op_Record 6 0 2 0 0 0] (TraceEngine_init True) =
      [clear_event\<lparr>timestamp := 5, guest_pc := 0x4000, event_id := 1\<rparr>, clear_event\<lparr>timestamp := 6, guest_pc := 0x4000, event_id := 2\<rparr>]"
    by (simp add: TraceEngine_init_def SetCurrentGuestPc_def IsChannelEnabled_def filter_passes_def CHANNEL_COUNT_def Record_def
        AllocateSlot_def RING_BUFFER_SIZE_def new_event_def clear_event_def Let_def put_slot_def count_event_def file_write_def)
  ultimately show ?thesis
    using Query_refines_log [of "TraceEngine_init True" 0 0 100 1 "[Op_Pc 0x4000, Op_Record 5 0 1 0 0 0, Op_Record 6 0 2 0 0 0]"]
    by (simp add: ClearTrace_init query_match_def clear_event_def RING_BUFFER_SIZE_def del: fold.simps do_op.simps)
qed

text \<open>
  Whatever is recorded, also with extra data, at most \<open>2^20\<close> slots lie between the two positions, so no
  slot of the window has been overwritten, and a full ring always drops its oldest slots.
\<close>

definition window_ok :: "TraceEngine \<Rightarrow> bool" where
  "window_ok t \<longleftrightarrow> read_pos t \<le> write_pos t \<and> write_pos t - read_pos t \<le> RING_BUFFER_SIZE"

lemma slots_bound: "1 + slots_for extra \<le> 6"
  using unsigned_less [of extra, where 'a = nat] by (simp add: slots_for_def EVENT_SIZE_def)

lemma AllocateSlot_window:
  assumes "window_ok t" and "ring_buffer t \<noteq> None" and "AllocateSlot extra t = (p, t')"
  shows "window_ok t' \<and> p = Some (write_pos t)"
proof -
  have "1 + (if extra > 0 then slots_for extra else 0) \<le> RING_BUFFER_SIZE"
    using slots_bound [of extra] by (simp add: RING_BUFFER_SIZE_def)
  then show ?thesis
    using assms by (auto simp: AllocateSlot_def window_ok_def Let_def split: if_splits)
qed

lemma copy_extra_positions [simp]:
  "write_pos (copy_extra d r i k t) = write_pos t" "read_pos (copy_extra d r i k t) = read_pos t"
  by (induction k arbitrary: i t) (simp_all add: put_slot_def Let_def)

lemma record_positions [simp]:
  "write_pos (put_slot i b t) = write_pos t" "read_pos (put_slot i b t) = read_pos t"
  "write_pos (count_event ch t) = write_pos t" "read_pos (count_event ch t) = read_pos t"
  "write_pos (file_write bs t) = write_pos t" "read_pos (file_write bs t) = read_pos t"
  by (simp_all add: put_slot_def count_event_def file_write_def)

lemma window_ok_records:
  assumes "window_ok t" and "ring_buffer t \<noteq> None"
  shows "window_ok (Record now ch eid a0 a1 res t)" "window_ok (RecordWithExtra now ch eid data extra a0 a1 res t)"
proof -
  obtain p0 t0 p1 t1 where a: "AllocateSlot 0 t = (p0, t0)" "AllocateSlot extra t = (p1, t1)"
    by fastforce
  then have "window_ok t0" "window_ok t1"
    using AllocateSlot_window [OF assms] by blast+
  then show "window_ok (Record now ch eid a0 a1 res t)" "window_ok (RecordWithExtra now ch eid data extra a0 a1 res t)"
    using assms(1) a
    by (simp_all add: Record_def RecordWithExtra_def Let_def window_ok_def split: option.splits)
qed

text \<open>
  Slots with extra data are indistinguishable from events: recording one system call with 56 zero bytes of
  extra data makes a query report two events.
\<close>

lemma extra_data_reported_as_event:
  "length (Query 0 0 0xFFFFFFFFFFFFFFFF 1000
     (RecordWithExtra 5 0 1 (Some (replicate 56 0)) 56 0 0 0 (TraceEngine_init True))) = 2"
proof -
  have ev: "channel (decode_event (replicate 56 0)) = 0" "timestamp (decode_event (replicate 56 0)) = 0"
    by (simp_all add: decode_event_def get_bytes_def numeral_eq_Suc)
  define t where "t = RecordWithExtra 5 0 1 (Some (replicate 56 0)) 56 0 0 0 (TraceEngine_init True)"
  let ?ev = "new_event 5 0 1 0 0 0 56 (TraceEngine_init True)"
  have slots: "slots_for 56 = Suc 0" "EVENT_SIZE = 56"
    by (simp_all add: slots_for_def EVENT_SIZE_def)
  obtain r where r: "ring_buffer t = Some r" "r 0 = encode_event ?ev" "r 1 = replicate 56 0"
      and pos: "read_pos t = 0" "write_pos t = 2"
    by (simp add: t_def RecordWithExtra_def TraceEngine_init_def IsChannelEnabled_def CHANNEL_COUNT_def
        AllocateSlot_def slots RING_BUFFER_SIZE_def Let_def put_slot_def count_event_def file_write_def)
  have "channel ?ev = 0" "timestamp ?ev = 5"
    by (simp_all add: new_event_def)
  then have "filter (query_match 0 0 0xFFFFFFFFFFFFFFFF) (rev (map (\<lambda>i. decode_event (r (i mod RING_BUFFER_SIZE))) [0..<2]))
      = [decode_event (replicate 56 0), ?ev]"
    using r ev by (simp add: upt_rec RING_BUFFER_SIZE_def query_match_def)
  then show ?thesis
    using r pos query_loop_window [of 0 2 r _ _ "[]"] by (simp add: Query_def flip: t_def)
qed

end
