(* ===== verification/ShaderIr.thy ===== *)
theory ShaderIr
  imports Prelude
begin

unbundle bit_operations_syntax

text \<open>
  The intermediate representation of shaders: \<^verbatim>\<open>src/src/gpu/shader/ShaderIr.h\<close> and the program hash of
  \<^verbatim>\<open>ShaderIr.cpp\<close>. An operand's union is the datatype \<open>operand_val\<close>, whose constructor is the operand
  type; floating-point immediates are kept as their 32 bits. Sub-operations of \<open>MUFU\<close> and special
  registers are kept as the numbers the decoder casts, which may be outside the enumerations. Debug
  printing is left out.
\<close>

datatype ShaderStage = VertexA | VertexB | TessControl | TessEval | Geometry | Fragment | Compute

fun stage_code :: "ShaderStage \<Rightarrow> u8" where
  "stage_code VertexA = 0"
| "stage_code VertexB = 1"
| "stage_code TessControl = 2"
| "stage_code TessEval = 3"
| "stage_code Geometry = 4"
| "stage_code Fragment = 5"
| "stage_code Compute = 6"

text \<open>
  The opcodes come in categories, the high byte of the enumerator; the constructors of each category are
  in the order of the low byte.
\<close>

datatype ctl_op = NOP | EXIT | BRA | SSY | SYNC | CALL | RET | KIL | CONT | BREAK

datatype float_op = FMAD | FADD | FMUL | FMAX | FMIN | FSAT | FNEG | FABS | FRCP | FRSQ
  | FSQRT | FEX2 | FLG2 | FSIN | FCOS | MUFU

datatype int_op = IADD | IMUL | IMAD | ISUB | IABS | INEG | ISETP | I2F | I2I | IADD3
  | IMNMX | LEA | POPC | FLO | SHL | SHR

datatype conv_op = F2F | F2I | F2F_C

datatype compare_op = FSETP | FSET

datatype load_op = LD | LDC | LDS | LL | LG | LEA_LOAD

datatype store_op = ST | STS | STG | STL

datatype texture_op = TEX | TEXS | TLDS | TLD4 | TXQ

datatype special_op = S2R | R2P | P2R | PRMT | BFE | BFI | ATOM | BAR | DEPBAR | VOTE
  | YIELD | MEMBAR

datatype ShaderOpcode =
    Ctl ctl_op
  | FAlu float_op
  | IAlu int_op
  | Conv conv_op
  | Cmp compare_op
  | Load load_op
  | Store store_op
  | Tex texture_op
  | Spec special_op

fun ctl_op_code :: "ctl_op \<Rightarrow> u16" where
  "ctl_op_code NOP = 0"
| "ctl_op_code EXIT = 1"
| "ctl_op_code BRA = 2"
| "ctl_op_code SSY = 3"
| "ctl_op_code SYNC = 4"
| "ctl_op_code CALL = 5"
| "ctl_op_code RET = 6"
| "ctl_op_code KIL = 7"
| "ctl_op_code CONT = 8"
| "ctl_op_code BREAK = 9"

fun ctl_op_name :: "ctl_op \<Rightarrow> string" where
  "ctl_op_name NOP = ''NOP''"
| "ctl_op_name EXIT = ''EXIT''"
| "ctl_op_name BRA = ''BRA''"
| "ctl_op_name SSY = ''SSY''"
| "ctl_op_name SYNC = ''SYNC''"
| "ctl_op_name CALL = ''CALL''"
| "ctl_op_name RET = ''RET''"
| "ctl_op_name KIL = ''KIL''"
| "ctl_op_name CONT = ''CONT''"
| "ctl_op_name BREAK = ''BREAK''"

fun float_op_code :: "float_op \<Rightarrow> u16" where
  "float_op_code FMAD = 0"
| "float_op_code FADD = 1"
| "float_op_code FMUL = 2"
| "float_op_code FMAX = 3"
| "float_op_code FMIN = 4"
| "float_op_code FSAT = 5"
| "float_op_code FNEG = 6"
| "float_op_code FABS = 7"
| "float_op_code FRCP = 8"
| "float_op_code FRSQ = 9"
| "float_op_code FSQRT = 10"
| "float_op_code FEX2 = 11"
| "float_op_code FLG2 = 12"
| "float_op_code FSIN = 13"
| "float_op_code FCOS = 14"
| "float_op_code MUFU = 15"

fun float_op_name :: "float_op \<Rightarrow> string" where
  "float_op_name FMAD = ''FMAD''"
| "float_op_name FADD = ''FADD''"
| "float_op_name FMUL = ''FMUL''"
| "float_op_name FMAX = ''FMAX''"
| "float_op_name FMIN = ''FMIN''"
| "float_op_name FSAT = ''FSAT''"
| "float_op_name FNEG = ''FNEG''"
| "float_op_name FABS = ''FABS''"
| "float_op_name FRCP = ''FRCP''"
| "float_op_name FRSQ = ''FRSQ''"
| "float_op_name FSQRT = ''FSQRT''"
| "float_op_name FEX2 = ''FEX2''"
| "float_op_name FLG2 = ''FLG2''"
| "float_op_name FSIN = ''FSIN''"
| "float_op_name FCOS = ''FCOS''"
| "float_op_name MUFU = ''MUFU''"

fun int_op_code :: "int_op \<Rightarrow> u16" where
  "int_op_code IADD = 0"
| "int_op_code IMUL = 1"
| "int_op_code IMAD = 2"
| "int_op_code ISUB = 3"
| "int_op_code IABS = 4"
| "int_op_code INEG = 5"
| "int_op_code ISETP = 6"
| "int_op_code I2F = 7"
| "int_op_code I2I = 8"
| "int_op_code IADD3 = 9"
| "int_op_code IMNMX = 10"
| "int_op_code LEA = 11"
| "int_op_code POPC = 12"
| "int_op_code FLO = 13"
| "int_op_code SHL = 14"
| "int_op_code SHR = 15"

fun int_op_name :: "int_op \<Rightarrow> string" where
  "int_op_name IADD = ''IADD''"
| "int_op_name IMUL = ''IMUL''"
| "int_op_name IMAD = ''IMAD''"
| "int_op_name ISUB = ''ISUB''"
| "int_op_name IABS = ''IABS''"
| "int_op_name INEG = ''INEG''"
| "int_op_name ISETP = ''ISETP''"
| "int_op_name I2F = ''I2F''"
| "int_op_name I2I = ''I2I''"
| "int_op_name IADD3 = ''IADD3''"
| "int_op_name IMNMX = ''IMNMX''"
| "int_op_name LEA = ''LEA''"
| "int_op_name POPC = ''POPC''"
| "int_op_name FLO = ''FLO''"
| "int_op_name SHL = ''SHL''"
| "int_op_name SHR = ''SHR''"

fun conv_op_code :: "conv_op \<Rightarrow> u16" where
  "conv_op_code F2F = 0"
| "conv_op_code F2I = 1"
| "conv_op_code F2F_C = 2"

fun conv_op_name :: "conv_op \<Rightarrow> string" where
  "conv_op_name F2F = ''F2F''"
| "conv_op_name F2I = ''F2I''"
| "conv_op_name F2F_C = ''F2F_C''"

fun compare_op_code :: "compare_op \<Rightarrow> u16" where
  "compare_op_code FSETP = 0"
| "compare_op_code FSET = 1"

fun compare_op_name :: "compare_op \<Rightarrow> string" where
  "compare_op_name FSETP = ''FSETP''"
| "compare_op_name FSET = ''FSET''"

fun load_op_code :: "load_op \<Rightarrow> u16" where
  "load_op_code LD = 0"
| "load_op_code LDC = 1"
| "load_op_code LDS = 2"
| "load_op_code LL = 3"
| "load_op_code LG = 4"
| "load_op_code LEA_LOAD = 5"

fun load_op_name :: "load_op \<Rightarrow> string" where
  "load_op_name LD = ''LD''"
| "load_op_name LDC = ''LDC''"
| "load_op_name LDS = ''LDS''"
| "load_op_name LL = ''LL''"
| "load_op_name LG = ''LG''"
| "load_op_name LEA_LOAD = ''LEA_LOAD''"

fun store_op_code :: "store_op \<Rightarrow> u16" where
  "store_op_code ST = 0"
| "store_op_code STS = 1"
| "store_op_code STG = 2"
| "store_op_code STL = 3"

fun store_op_name :: "store_op \<Rightarrow> string" where
  "store_op_name ST = ''ST''"
| "store_op_name STS = ''STS''"
| "store_op_name STG = ''STG''"
| "store_op_name STL = ''STL''"

fun texture_op_code :: "texture_op \<Rightarrow> u16" where
  "texture_op_code TEX = 0"
| "texture_op_code TEXS = 1"
| "texture_op_code TLDS = 2"
| "texture_op_code TLD4 = 3"
| "texture_op_code TXQ = 4"

fun texture_op_name :: "texture_op \<Rightarrow> string" where
  "texture_op_name TEX = ''TEX''"
| "texture_op_name TEXS = ''TEXS''"
| "texture_op_name TLDS = ''TLDS''"
| "texture_op_name TLD4 = ''TLD4''"
| "texture_op_name TXQ = ''TXQ''"

fun special_op_code :: "special_op \<Rightarrow> u16" where
  "special_op_code S2R = 0"
| "special_op_code R2P = 1"
| "special_op_code P2R = 2"
| "special_op_code PRMT = 3"
| "special_op_code BFE = 4"
| "special_op_code BFI = 5"
| "special_op_code ATOM = 6"
| "special_op_code BAR = 7"
| "special_op_code DEPBAR = 8"
| "special_op_code VOTE = 9"
| "special_op_code YIELD = 10"
| "special_op_code MEMBAR = 11"

fun special_op_name :: "special_op \<Rightarrow> string" where
  "special_op_name S2R = ''S2R''"
| "special_op_name R2P = ''R2P''"
| "special_op_name P2R = ''P2R''"
| "special_op_name PRMT = ''PRMT''"
| "special_op_name BFE = ''BFE''"
| "special_op_name BFI = ''BFI''"
| "special_op_name ATOM = ''ATOM''"
| "special_op_name BAR = ''BAR''"
| "special_op_name DEPBAR = ''DEPBAR''"
| "special_op_name VOTE = ''VOTE''"
| "special_op_name YIELD = ''YIELD''"
| "special_op_name MEMBAR = ''MEMBAR''"

text \<open>The enumerators' values and names.\<close>

fun opcode_code :: "ShaderOpcode \<Rightarrow> u16" where
  "opcode_code (Ctl op) = 0x0000 + ctl_op_code op"
| "opcode_code (FAlu op) = 0x0100 + float_op_code op"
| "opcode_code (IAlu op) = 0x0200 + int_op_code op"
| "opcode_code (Conv op) = 0x0300 + conv_op_code op"
| "opcode_code (Cmp op) = 0x0400 + compare_op_code op"
| "opcode_code (Load op) = 0x0500 + load_op_code op"
| "opcode_code (Store op) = 0x0600 + store_op_code op"
| "opcode_code (Tex op) = 0x0700 + texture_op_code op"
| "opcode_code (Spec op) = 0x0800 + special_op_code op"

fun ShaderOpcodeName :: "ShaderOpcode \<Rightarrow> string" where
  "ShaderOpcodeName (Ctl op) = ctl_op_name op"
| "ShaderOpcodeName (FAlu op) = float_op_name op"
| "ShaderOpcodeName (IAlu op) = int_op_name op"
| "ShaderOpcodeName (Conv op) = conv_op_name op"
| "ShaderOpcodeName (Cmp op) = compare_op_name op"
| "ShaderOpcodeName (Load op) = load_op_name op"
| "ShaderOpcodeName (Store op) = store_op_name op"
| "ShaderOpcodeName (Tex op) = texture_op_name op"
| "ShaderOpcodeName (Spec op) = special_op_name op"

datatype DataType = F32 | F64 | F16 | U32 | S32 | U16 | S16 | U8 | S8 | B32 | B64 | B128

datatype MemorySpace = Mem_Generic | Mem_Global | Mem_Shared | Mem_Local | Mem_Constant | Mem_Uniform

datatype operand_val =
    Op_None
  | Op_Gpr u8
  | Op_Pred u8 bool
  | Op_FloatImm u32
  | Op_IntImm u32
  | Op_Cbuf u32 u32
  | Op_Attr u32 u8
  | Op_Varying u32 u8
  | Op_Special u8
  | Op_Texture u32 u32
  | Op_Label u32

record ShaderOperand =
  op_val :: operand_val
  op_data_type :: DataType
  op_negate :: bool
  op_absolute :: bool
  op_saturate :: bool
  op_mufu :: u8

definition no_operand :: ShaderOperand where
  "no_operand = \<lparr>op_val = Op_None, op_data_type = F32, op_negate = False, op_absolute = False, op_saturate = False, op_mufu = 1\<rparr>"

definition operand :: "operand_val \<Rightarrow> ShaderOperand" where
  "operand v = no_operand\<lparr>op_val := v\<rparr>"

text \<open>The factory methods; the immediates also set the data type.\<close>

definition Gpr :: "u8 \<Rightarrow> ShaderOperand" where "Gpr i = operand (Op_Gpr i)"
definition Pred :: "u8 \<Rightarrow> bool \<Rightarrow> ShaderOperand" where "Pred i n = operand (Op_Pred i n)"
definition ImmF32 :: "u32 \<Rightarrow> ShaderOperand" where "ImmF32 v = operand (Op_FloatImm v)"
definition ImmS32 :: "u32 \<Rightarrow> ShaderOperand" where "ImmS32 v = (operand (Op_IntImm v))\<lparr>op_data_type := S32\<rparr>"
definition ImmU32 :: "u32 \<Rightarrow> ShaderOperand" where "ImmU32 v = (operand (Op_IntImm v))\<lparr>op_data_type := U32\<rparr>"
definition Cbuf :: "u32 \<Rightarrow> u32 \<Rightarrow> ShaderOperand" where "Cbuf i off = operand (Op_Cbuf i off)"
definition Attr :: "u32 \<Rightarrow> u8 \<Rightarrow> ShaderOperand" where "Attr i c = operand (Op_Attr i c)"
definition Varying :: "u32 \<Rightarrow> u8 \<Rightarrow> ShaderOperand" where "Varying i c = operand (Op_Varying i c)"
definition Special :: "u8 \<Rightarrow> ShaderOperand" where "Special r = operand (Op_Special r)"
definition Texture :: "u32 \<Rightarrow> u32 \<Rightarrow> ShaderOperand" where "Texture t s = operand (Op_Texture t s)"
definition Label :: "u32 \<Rightarrow> ShaderOperand" where "Label l = operand (Op_Label l)"

lemmas operand_defs = Gpr_def Pred_def ImmF32_def ImmS32_def ImmU32_def Cbuf_def Attr_def Varying_def Special_def
  Texture_def Label_def operand_def no_operand_def

record ShaderInstruction =
  si_opcode :: ShaderOpcode
  si_dest :: ShaderOperand
  si_src :: "ShaderOperand list"
  si_src_count :: u16
  si_pc :: u32
  si_pred_guard :: bool
  si_pred_guard_index :: u8
  si_pred_guard_negate :: bool
  si_sets_cc :: bool
  si_is_delayed :: bool
  si_mem_space :: MemorySpace
  si_mem_offset :: u32

definition new_instruction :: ShaderInstruction where
  "new_instruction = \<lparr>si_opcode = Ctl NOP, si_dest = no_operand, si_src = replicate 3 no_operand, si_src_count = 0,
     si_pc = 0, si_pred_guard = False, si_pred_guard_index = 0, si_pred_guard_negate = False, si_sets_cc = False,
     si_is_delayed = False, si_mem_space = Mem_Generic, si_mem_offset = 0\<rparr>"

record ShaderProgram =
  sp_stage :: ShaderStage
  sp_instructions :: "ShaderInstruction list"
  sp_program_offset :: u32
  sp_program_size :: u32
  sp_hash :: u64
  sp_num_gprs_used :: u32
  sp_num_preds_used :: u32
  sp_uses_varyings :: bool
  sp_uses_textures :: bool

definition AddInst :: "ShaderInstruction \<Rightarrow> ShaderProgram \<Rightarrow> ShaderProgram" where
  "AddInst i p = p\<lparr>sp_instructions := sp_instructions p @ [i]\<rparr>"

text \<open>The 64-bit FNV-1a hash.\<close>

definition hash_step :: "u8 \<Rightarrow> u64 \<Rightarrow> u64" where
  "hash_step b h = (h XOR ucast b) * 0x100000001B3"

definition CalculateHash :: "u8 list \<Rightarrow> u64" where
  "CalculateHash data = fold hash_step data 0xCBF29CE484222325"

end
