(* ===== verification/MaxwellDecoder.thy ===== *)
theory MaxwellDecoder
  imports ShaderIr
begin

unbundle bit_operations_syntax

text \<open>
  The shader decoder: \<^verbatim>\<open>src/src/gpu/shader/MaxwellDecoder.cpp\<close> and \<^verbatim>\<open>MaxwellDecoder.h\<close>.

  The binary is a list of bytes and \<open>size\<close> its length as a 32-bit number. Offsets are 32-bit words and
  wrap as in the source; the decode loop is therefore a partial function, and that it ends is a theorem
  with a bound on the length. Reads past the end (possible only when an offset wraps) yield the bytes
  that are there. Fields of the instruction that no decoder sets (immediates, constant buffer and
  attribute indices) are left out, error texts are the data they are made of.
\<close>

section \<open>Bit fields\<close>

definition FieldBits :: "u64 \<Rightarrow> nat \<Rightarrow> nat \<Rightarrow> u32" where
  "FieldBits v hi lo = ucast (Bits v hi lo)"

definition SignExtend :: "u32 \<Rightarrow> nat \<Rightarrow> u32" where
  "SignExtend v n = (if v AND push_bit (n - 1) 1 \<noteq> 0 then v OR NOT (push_bit n 1 - 1) else v)"

definition opcode_bits :: "u64 \<Rightarrow> u32" where
  "opcode_bits raw = FieldBits raw 12 5"

section \<open>Formats\<close>

datatype MaxwellFormat =
    Fmt_Unknown | Fmt_Alu3In | Fmt_Alu2In | Fmt_Alu1In | Fmt_ISetp | Fmt_FSetp | Fmt_MemoryLoad | Fmt_MemoryStore
  | Fmt_Texture | Fmt_S2R | Fmt_PredicateReg | Fmt_Branch | Fmt_Sync | Fmt_Exit | Fmt_Header

definition DetectFormat :: "u32 \<Rightarrow> MaxwellFormat" where
  "DetectFormat opc =
     (if opc = 0x00 then Fmt_Alu3In
      else if opc \<in> {0x01, 0x02, 0x03, 0x04, 0x05} then Fmt_Alu2In
      else if opc \<in> {0x06, 0x07, 0x08, 0x09, 0x0A, 0x0B, 0x0C, 0x0D} then Fmt_Alu1In
      else if opc \<in> {0x10, 0x11} then Fmt_Alu3In
      else if opc \<in> {0x12, 0x13, 0x14, 0x15, 0x16} then Fmt_Alu2In
      else if opc = 0x17 then Fmt_ISetp
      else if opc \<in> {0x18, 0x19, 0x1A} then Fmt_Alu2In
      else if opc = 0x1B then Fmt_Alu2In
      else if opc \<in> {0x1C, 0x1D, 0x1E, 0x1F} then Fmt_Alu1In
      else if opc \<in> {0x20, 0x21, 0x22} then Fmt_Alu2In
      else if opc = 0x30 then Fmt_FSetp
      else if opc = 0x31 then Fmt_Alu2In
      else if opc \<in> {0x40, 0x41, 0x42, 0x43, 0x44} then Fmt_MemoryLoad
      else if opc \<in> {0x50, 0x51, 0x52, 0x53} then Fmt_MemoryStore
      else if opc \<in> {0x60, 0x61, 0x62, 0x63, 0x64} then Fmt_Texture
      else if opc = 0x70 then Fmt_S2R
      else if opc \<in> {0x71, 0x72} then Fmt_PredicateReg
      else if opc = 0x73 then Fmt_Alu3In
      else if opc \<in> {0x74, 0x75} then Fmt_Alu3In
      else if opc = 0x80 then Fmt_Exit
      else if opc \<in> {0x81, 0x82} then Fmt_Branch
      else if opc \<in> {0x83, 0x84} then Fmt_Sync
      else if opc = 0x85 then Fmt_Exit
      else if opc \<in> {0x86, 0x87, 0x88} then Fmt_Exit
      else Fmt_Unknown)"

definition opcode_alu3 :: "u32 \<Rightarrow> ShaderOpcode" where
  "opcode_alu3 opc = (if opc = 0x00 then FAlu FMAD else if opc = 0x10 then IAlu IADD3 else if opc = 0x11 then IAlu IMAD
     else if opc = 0x73 then Spec PRMT else if opc = 0x74 then Spec BFE else if opc = 0x75 then Spec BFI else FAlu FMAD)"

definition opcode_alu2 :: "u32 \<Rightarrow> ShaderOpcode" where
  "opcode_alu2 opc = (if opc = 0x01 then FAlu FADD else if opc = 0x02 then FAlu FMUL else if opc = 0x03 then FAlu FMAX
     else if opc = 0x04 then FAlu FMIN else if opc = 0x05 then FAlu FSAT else if opc = 0x12 then IAlu IADD
     else if opc = 0x13 then IAlu ISUB else if opc = 0x14 then IAlu IMUL else if opc = 0x15 then IAlu IABS
     else if opc = 0x16 then IAlu INEG else if opc = 0x18 then IAlu I2F else if opc = 0x19 then IAlu I2I
     else if opc = 0x1A then IAlu IMNMX else if opc = 0x1B then IAlu LEA else if opc = 0x20 then Conv F2F
     else if opc = 0x21 then Conv F2I else if opc = 0x22 then Conv F2F_C else if opc = 0x31 then Cmp FSET
     else FAlu FADD)"

definition opcode_alu1 :: "u32 \<Rightarrow> ShaderOpcode" where
  "opcode_alu1 opc = (if opc = 0x06 then FAlu MUFU else if opc = 0x07 then FAlu FRCP else if opc = 0x08 then FAlu FRSQ
     else if opc = 0x09 then FAlu FSQRT else if opc = 0x0A then FAlu FEX2 else if opc = 0x0B then FAlu FLG2
     else if opc = 0x0C then FAlu FSIN else if opc = 0x0D then FAlu FCOS else if opc = 0x1C then IAlu POPC
     else if opc = 0x1D then IAlu FLO else if opc = 0x1E then IAlu SHL else if opc = 0x1F then IAlu SHR
     else FAlu MUFU)"

fun DecodeOpcode :: "u32 \<Rightarrow> MaxwellFormat \<Rightarrow> ShaderOpcode" where
  "DecodeOpcode opc Fmt_Alu3In = opcode_alu3 opc"
| "DecodeOpcode opc Fmt_Alu2In = opcode_alu2 opc"
| "DecodeOpcode opc Fmt_Alu1In = opcode_alu1 opc"
| "DecodeOpcode opc Fmt_ISetp = IAlu ISETP"
| "DecodeOpcode opc Fmt_FSetp = Cmp FSETP"
| "DecodeOpcode opc Fmt_MemoryLoad =
     (if opc = 0x40 then Load LD else if opc = 0x41 then Load LG else if opc = 0x42 then Load LL
      else if opc = 0x43 then Load LDS else if opc = 0x44 then Load LDC else Load LD)"
| "DecodeOpcode opc Fmt_MemoryStore =
     (if opc = 0x50 then Store ST else if opc = 0x51 then Store STG else if opc = 0x52 then Store STL
      else if opc = 0x53 then Store STS else Store ST)"
| "DecodeOpcode opc Fmt_Texture =
     (if opc = 0x60 then Tex TEX else if opc = 0x61 then Tex TEXS else if opc = 0x62 then Tex TLDS
      else if opc = 0x63 then Tex TLD4 else if opc = 0x64 then Tex TXQ else Tex TEX)"
| "DecodeOpcode opc Fmt_S2R = Spec S2R"
| "DecodeOpcode opc Fmt_PredicateReg = (if opc = 0x71 then Spec R2P else if opc = 0x72 then Spec P2R else Spec R2P)"
| "DecodeOpcode opc Fmt_Branch = (if opc = 0x81 then Ctl BRA else if opc = 0x82 then Ctl CALL else Ctl BRA)"
| "DecodeOpcode opc Fmt_Sync = (if opc = 0x83 then Ctl SSY else if opc = 0x84 then Ctl SYNC else Ctl SSY)"
| "DecodeOpcode opc Fmt_Exit =
     (if opc = 0x85 then Ctl RET else if opc = 0x86 then Ctl KIL else if opc = 0x87 then Ctl CONT
      else if opc = 0x88 then Ctl BREAK else Ctl EXIT)"
| "DecodeOpcode opc Fmt_Unknown = Ctl NOP"
| "DecodeOpcode opc Fmt_Header = Ctl NOP"

section \<open>Instructions\<close>

record Field =
  gpr_dest :: u8
  gpr_src0 :: u8
  gpr_src1 :: u8
  gpr_src2 :: u8
  pred_src :: u8
  pred_dest :: u8
  tex_index :: u8
  sampler_idx :: u8
  mem_offset :: u32
  branch_target :: u32
  src_count :: u8
  neg_src0 :: bool
  neg_src1 :: bool
  abs_src0 :: bool
  abs_src1 :: bool
  saturate :: bool
  sets_cc :: bool
  is_float :: bool
  mufu_op :: u8
  mem_space :: MemorySpace

definition no_field :: Field where
  "no_field = \<lparr>gpr_dest = 0, gpr_src0 = 0, gpr_src1 = 0, gpr_src2 = 0, pred_src = 0, pred_dest = 0, tex_index = 0,
     sampler_idx = 0, mem_offset = 0, branch_target = 0, src_count = 0, neg_src0 = False, neg_src1 = False,
     abs_src0 = False, abs_src1 = False, saturate = False, sets_cc = False, is_float = False, mufu_op = 0,
     mem_space = Mem_Generic\<rparr>"

record DecodedInst =
  raw0 :: u64
  raw1 :: u64
  di_pc :: u32
  di_size :: u32
  di_fmt :: MaxwellFormat
  di_opcode :: ShaderOpcode
  field :: Field

definition new_decoded :: "u64 \<Rightarrow> u64 \<Rightarrow> u32 \<Rightarrow> DecodedInst" where
  "new_decoded r0 r1 pc = \<lparr>raw0 = r0, raw1 = r1, di_pc = pc, di_size = 8, di_fmt = Fmt_Unknown, di_opcode = Ctl NOP, field = no_field\<rparr>"

definition bits8 :: "u64 \<Rightarrow> nat \<Rightarrow> nat \<Rightarrow> u8" where
  "bits8 v hi lo = ucast (FieldBits v hi lo)"

definition DecodeAluFormat :: "u64 \<Rightarrow> u64 \<Rightarrow> u32 \<Rightarrow> MaxwellFormat \<Rightarrow> DecodedInst" where
  "DecodeAluFormat r0 r1 pc fmt =
     (let opc = DecodeOpcode (opcode_bits r0) fmt;
          f0 = no_field;
          f = (case fmt of
                 Fmt_Alu3In \<Rightarrow> f0\<lparr>gpr_src0 := bits8 r0 19 13, gpr_src1 := bits8 r0 26 20, gpr_src2 := bits8 r0 33 27,
                   gpr_dest := bits8 r0 44 39, neg_src0 := Bit r0 45, neg_src1 := Bit r0 46, abs_src0 := Bit r0 47,
                   abs_src1 := Bit r0 48, saturate := Bit r0 49, src_count := 3\<rparr>
               | Fmt_Alu2In \<Rightarrow> f0\<lparr>gpr_src0 := bits8 r0 19 13, gpr_src1 := bits8 r0 26 20, gpr_dest := bits8 r0 44 39,
                   neg_src0 := Bit r0 45, neg_src1 := Bit r0 46, abs_src0 := Bit r0 47, saturate := Bit r0 49, src_count := 2\<rparr>
               | Fmt_Alu1In \<Rightarrow>
                   (let f1 = f0\<lparr>gpr_src0 := bits8 r0 19 13, gpr_dest := bits8 r0 44 39, src_count := 1\<rparr>
                    in if opc = FAlu MUFU then f1\<lparr>mufu_op := bits8 r0 54 51\<rparr> else f1)
               | Fmt_ISetp \<Rightarrow> f0\<lparr>gpr_src0 := bits8 r0 19 13, gpr_src1 := bits8 r0 26 20, pred_dest := bits8 r0 42 40,
                   pred_src := bits8 r0 35 33, neg_src0 := Bit r0 45, neg_src1 := Bit r0 46, src_count := 2, sets_cc := True\<rparr>
               | Fmt_FSetp \<Rightarrow> f0\<lparr>gpr_src0 := bits8 r0 19 13, gpr_src1 := bits8 r0 26 20, pred_dest := bits8 r0 42 40,
                   pred_src := bits8 r0 35 33, neg_src0 := Bit r0 45, neg_src1 := Bit r0 46, src_count := 2, sets_cc := True\<rparr>
               | _ \<Rightarrow> f0)
      in (new_decoded r0 r1 pc)\<lparr>di_fmt := fmt, di_opcode := opc,
           field := f\<lparr>is_float := fmt = Fmt_Alu2In \<or> fmt = Fmt_Alu3In \<or> fmt = Fmt_Alu1In \<or> fmt = Fmt_FSetp\<rparr>\<rparr>)"

definition mem_space_of :: "u32 \<Rightarrow> MemorySpace" where
  "mem_space_of t = (if t = 0 then Mem_Global else if t = 1 then Mem_Shared else if t = 2 then Mem_Local
     else if t = 3 then Mem_Constant else Mem_Generic)"

definition DecodeMemoryFormat :: "u64 \<Rightarrow> u64 \<Rightarrow> u32 \<Rightarrow> DecodedInst" where
  "DecodeMemoryFormat r0 r1 pc =
     (let opc = opcode_bits r0; fmt = (if opc \<ge> 0x50 then Fmt_MemoryStore else Fmt_MemoryLoad)
      in (new_decoded r0 r1 pc)\<lparr>di_size := 16, di_fmt := fmt, di_opcode := DecodeOpcode opc fmt,
           field := no_field\<lparr>gpr_dest := bits8 r0 19 13, mem_offset := FieldBits r0 34 27, gpr_src0 := bits8 r0 44 39,
             mem_space := mem_space_of (FieldBits r1 47 45), src_count := 1\<rparr>\<rparr>)"

definition DecodeTextureFormat :: "u64 \<Rightarrow> u64 \<Rightarrow> u32 \<Rightarrow> DecodedInst" where
  "DecodeTextureFormat r0 r1 pc =
     (new_decoded r0 r1 pc)\<lparr>di_size := 16, di_fmt := Fmt_Texture, di_opcode := DecodeOpcode (opcode_bits r0) Fmt_Texture,
       field := no_field\<lparr>gpr_dest := bits8 r0 19 13, tex_index := bits8 r0 44 39, sampler_idx := bits8 r1 49 44,
         gpr_src0 := bits8 r0 33 27, src_count := 1\<rparr>\<rparr>"

definition DecodeBranchFormat :: "u64 \<Rightarrow> u64 \<Rightarrow> u32 \<Rightarrow> MaxwellFormat \<Rightarrow> DecodedInst" where
  "DecodeBranchFormat r0 r1 pc fmt =
     (new_decoded r0 r1 pc)\<lparr>di_fmt := fmt, di_opcode := DecodeOpcode (opcode_bits r0) fmt,
       field := no_field\<lparr>branch_target := pc + 8 + SignExtend (FieldBits r0 26 13) 14 * 8, pred_src := bits8 r0 35 33\<rparr>\<rparr>"

definition DecodeS2RFormat :: "u64 \<Rightarrow> u32 \<Rightarrow> DecodedInst" where
  "DecodeS2RFormat r0 pc =
     (new_decoded r0 0 pc)\<lparr>di_fmt := Fmt_S2R, di_opcode := Spec S2R,
       field := no_field\<lparr>gpr_dest := bits8 r0 19 13, gpr_src0 := bits8 r0 44 39\<rparr>\<rparr>"

definition DecodeExitFormat :: "u64 \<Rightarrow> u32 \<Rightarrow> DecodedInst" where
  "DecodeExitFormat r0 pc =
     (new_decoded r0 0 pc)\<lparr>di_fmt := Fmt_Exit, di_opcode := DecodeOpcode (opcode_bits r0) Fmt_Exit\<rparr>"

section \<open>Decoding one instruction\<close>

datatype dec_error = Truncated u32 | UnknownInst u32 u64

record DecoderContext =
  dc_offset :: u32
  gpr_used :: "u8 set"
  pred_used :: "u8 set"
  dec_errors :: "dec_error list"
  dc_out :: "ShaderInstruction list"

definition dec_init :: DecoderContext where
  "dec_init = \<lparr>dc_offset = 0, gpr_used = {}, pred_used = {}, dec_errors = [], dc_out = []\<rparr>"

definition read64 :: "u8 list \<Rightarrow> u32 \<Rightarrow> u64" where
  "read64 data off = of_le_bytes (get_bytes data (unat off) 8)"

definition use_registers :: "DecodedInst \<Rightarrow> DecoderContext \<Rightarrow> DecoderContext" where
  "use_registers di c = c\<lparr>gpr_used := {gpr_dest (field di), gpr_src0 (field di), gpr_src1 (field di), gpr_src2 (field di)} \<union> gpr_used c,
     pred_used := {pred_src (field di), pred_dest (field di)} \<union> pred_used c\<rparr>"

definition log_error :: "dec_error \<Rightarrow> DecoderContext \<Rightarrow> DecoderContext" where
  "log_error e c = c\<lparr>dec_errors := dec_errors c @ [e]\<rparr>"

definition decode_format :: "u64 \<Rightarrow> u64 \<Rightarrow> u32 \<Rightarrow> MaxwellFormat \<Rightarrow> DecodedInst" where
  "decode_format r0 r1 pc fmt =
     (case fmt of
        Fmt_Alu3In \<Rightarrow> DecodeAluFormat r0 r1 pc fmt
      | Fmt_Alu2In \<Rightarrow> DecodeAluFormat r0 r1 pc fmt
      | Fmt_Alu1In \<Rightarrow> DecodeAluFormat r0 r1 pc fmt
      | Fmt_ISetp \<Rightarrow> DecodeAluFormat r0 r1 pc fmt
      | Fmt_FSetp \<Rightarrow> DecodeAluFormat r0 r1 pc fmt
      | Fmt_MemoryLoad \<Rightarrow> DecodeMemoryFormat r0 r1 pc
      | Fmt_MemoryStore \<Rightarrow> DecodeMemoryFormat r0 r1 pc
      | Fmt_Texture \<Rightarrow> DecodeTextureFormat r0 r1 pc
      | Fmt_Branch \<Rightarrow> DecodeBranchFormat r0 r1 pc fmt
      | Fmt_Sync \<Rightarrow> DecodeBranchFormat r0 r1 pc fmt
      | Fmt_S2R \<Rightarrow> DecodeS2RFormat r0 pc
      | Fmt_Exit \<Rightarrow> DecodeExitFormat r0 pc
      | Fmt_PredicateReg \<Rightarrow> (DecodeS2RFormat r0 pc)\<lparr>di_fmt := Fmt_PredicateReg, di_opcode := DecodeOpcode (opcode_bits r0) Fmt_PredicateReg\<rparr>
      | _ \<Rightarrow> new_decoded 0 0 pc)"

definition DecodeOne :: "u8 list \<Rightarrow> u32 \<Rightarrow> u32 \<Rightarrow> DecoderContext \<Rightarrow> DecodedInst \<times> DecoderContext" where
  "DecodeOne data sz pc c =
     (if pc + 8 > sz then (new_decoded 0 0 pc, log_error (Truncated pc) c)
      else
        let r0 = read64 data pc;
            fmt = DetectFormat (opcode_bits r0);
            r1 = (if pc + 16 \<le> sz \<and> (fmt = Fmt_MemoryLoad \<or> fmt = Fmt_MemoryStore \<or> fmt = Fmt_Texture)
                  then read64 data (pc + 8) else 0);
            di = decode_format r0 r1 pc fmt
        in (di, use_registers di (if di_fmt di = Fmt_Unknown then log_error (UnknownInst pc r0) c else c)))"

section \<open>Conversion to the intermediate representation\<close>

definition reg_operand :: "u8 \<Rightarrow> bool \<Rightarrow> bool \<Rightarrow> bool \<Rightarrow> ShaderOperand" where
  "reg_operand r neg ab fl = (Gpr r)\<lparr>op_negate := neg, op_absolute := ab, op_data_type := (if fl then F32 else U32)\<rparr>"

definition is_branch_op :: "ShaderOpcode \<Rightarrow> bool" where
  "is_branch_op op \<longleftrightarrow> op = Ctl BRA \<or> op = Ctl CALL \<or> op = Ctl SSY \<or> op = Ctl SYNC"

definition is_sample_op :: "ShaderOpcode \<Rightarrow> bool" where
  "is_sample_op op \<longleftrightarrow> op = Tex TEX \<or> op = Tex TEXS \<or> op = Tex TLDS \<or> op = Tex TLD4"

definition ToIr :: "DecodedInst \<Rightarrow> ShaderInstruction" where
  "ToIr di =
     (let f = field di; op = di_opcode di; n = src_count f;
          ir0 = new_instruction\<lparr>si_opcode := op, si_pc := di_pc di, si_src_count := ucast n\<rparr>;
          ir1 = (if op = Ctl EXIT \<or> n > 0 \<or> gpr_dest f \<noteq> 0
                 then ir0\<lparr>si_dest := (Gpr (gpr_dest f))\<lparr>op_saturate := saturate f, op_data_type := (if is_float f then F32 else U32)\<rparr>\<rparr>
                 else ir0);
          s0 = (if n \<ge> 1 then reg_operand (gpr_src0 f) (neg_src0 f) (abs_src0 f) (is_float f) else no_operand);
          s1 = (if n \<ge> 2 then reg_operand (gpr_src1 f) (neg_src1 f) (abs_src1 f) (is_float f) else no_operand);
          s2 = (if n \<ge> 3 then reg_operand (gpr_src2 f) False False (is_float f) else no_operand);
          s0' = (if op = FAlu MUFU \<and> n \<ge> 1 then s0\<lparr>op_mufu := mufu_op f\<rparr> else s0);
          ir2 = ir1\<lparr>si_src := [s0', s1, s2], si_mem_space := mem_space f\<rparr>;
          ir3 = (if pred_src f \<noteq> 0 then ir2\<lparr>si_pred_guard := True, si_pred_guard_index := pred_src f\<rparr> else ir2);
          ir4 = (if is_branch_op op
                 then ir3\<lparr>si_src := [Label (branch_target f div 8), s1, s2], si_src_count := 1\<rparr> else ir3);
          ir5 = (if is_sample_op op
                 then ir4\<lparr>si_dest := Gpr (gpr_dest f),
                          si_src := [Gpr (gpr_src0 f), Texture (ucast (tex_index f)) (ucast (sampler_idx f)), s2], si_src_count := 2\<rparr>
                 else ir4)
      in if op = Spec S2R
         then ir5\<lparr>si_dest := Gpr (gpr_dest f), si_src := [Special (gpr_src0 f), s1, s2], si_src_count := 1\<rparr>
         else ir5)"

section \<open>Decoding a program\<close>

partial_function (option) decode_loop :: "u8 list \<Rightarrow> u32 \<Rightarrow> DecoderContext \<Rightarrow> DecoderContext option" where
  "decode_loop data sz c =
     (if dc_offset c < sz then
        let (di, c1) = DecodeOne data sz (dc_offset c) c
        in if di_fmt di = Fmt_Unknown then decode_loop data sz (c1\<lparr>dc_offset := dc_offset c1 + 8\<rparr>)
           else
             let c2 = c1\<lparr>dc_out := dc_out c1 @ [ToIr di], dc_offset := dc_offset c1 + di_size di\<rparr>
             in if di_opcode di = Ctl EXIT then Some c2 else decode_loop data sz c2
      else Some c)"

definition uses_texture_op :: "ShaderInstruction \<Rightarrow> bool" where
  "uses_texture_op i \<longleftrightarrow> si_opcode i = Tex TEX \<or> si_opcode i = Tex TEXS \<or> si_opcode i = Tex TLDS"

definition uses_memory_op :: "ShaderInstruction \<Rightarrow> bool" where
  "uses_memory_op i \<longleftrightarrow> si_opcode i \<in> {Load LD, Load LG, Load LL, Load LDS, Store ST, Store STG, Store STL, Store STS}"

text \<open>
  The result and the decoder's error list after the call: the last statement replaces the list that
  \<open>LogError\<close> filled by the context's own, which nothing ever fills.
\<close>

definition Decode :: "u8 list \<Rightarrow> ShaderStage \<Rightarrow> (ShaderProgram \<times> dec_error list) option" where
  "Decode data stage =
     (let sz = of_nat (length data) in
      case decode_loop data sz dec_init of
        None \<Rightarrow> None
      | Some c \<Rightarrow>
          Some (\<lparr>sp_stage = stage, sp_instructions = dc_out c, sp_program_offset = 0, sp_program_size = sz,
                 sp_hash = CalculateHash data, sp_num_gprs_used = of_nat (card (gpr_used c)),
                 sp_num_preds_used = of_nat (card (pred_used c)), sp_uses_varyings = list_ex uses_memory_op (dc_out c),
                 sp_uses_textures = list_ex uses_texture_op (dc_out c)\<rparr>, []))"

section \<open>Extraction from the program region\<close>

fun scan_exit :: "u8 list \<Rightarrow> nat \<Rightarrow> nat \<Rightarrow> nat option" where
  "scan_exit bytes i 0 = None"
| "scan_exit bytes i (Suc k) =
     (if opcode_bits (of_le_bytes (get_bytes bytes i 8)) = 0x80 then Some (i + 8) else scan_exit bytes (i + 8) k)"

definition ExtractShader :: "u8 list option \<Rightarrow> u64 \<Rightarrow> u32 \<Rightarrow> u8 list" where
  "ExtractShader region shader_offset max_size =
     (case region of
        None \<Rightarrow> []
      | Some r \<Rightarrow>
          if r = [] then []
          else if unat shader_offset \<ge> length r then []
          else
            let available = min (length r - unat shader_offset) (unat max_size);
                code = drop (unat shader_offset) r;
                end_offset = (case scan_exit code 0 (available div 8) of Some e \<Rightarrow> e | None \<Rightarrow> available)
            in take end_offset code)"

section \<open>One decoding step\<close>

definition decode_at :: "u8 list \<Rightarrow> u32 \<Rightarrow> DecodedInst" where
  "decode_at data pc = fst (DecodeOne data (of_nat (length data)) pc dec_init)"

lemma DecodeOne_fst: "fst (DecodeOne data (of_nat (length data)) pc c) = decode_at data pc"
  by (simp add: decode_at_def DecodeOne_def Let_def)

lemma DecodeOne_frame [simp]:
  "dc_offset (snd (DecodeOne data sz pc c)) = dc_offset c"
  "dc_out (snd (DecodeOne data sz pc c)) = dc_out c"
  by (simp_all add: DecodeOne_def Let_def use_registers_def log_error_def)

lemma decode_format_shape:
  "di_pc (decode_format r0 r1 pc fmt) = pc"
  "di_size (decode_format r0 r1 pc fmt) = 8 \<or> di_size (decode_format r0 r1 pc fmt) = 16"
  by (simp_all add: decode_format_def DecodeAluFormat_def DecodeMemoryFormat_def DecodeTextureFormat_def
      DecodeBranchFormat_def DecodeS2RFormat_def DecodeExitFormat_def new_decoded_def Let_def split: MaxwellFormat.split)

lemma decode_at_cases:
  obtains "di_fmt (decode_at data pc) = Fmt_Unknown"
  | r0 r1 where "decode_at data pc = decode_format r0 r1 pc (DetectFormat (opcode_bits r0))"
      "\<not> pc + 8 > of_nat (length data)"
  by (cases "pc + 8 > of_nat (length data)") (auto simp: decode_at_def DecodeOne_def new_decoded_def Let_def)

lemma decode_at_pc: "di_fmt (decode_at data pc) \<noteq> Fmt_Unknown \<Longrightarrow> di_pc (decode_at data pc) = pc"
  by (cases rule: decode_at_cases [of data pc]) (auto simp: decode_format_shape)

lemma decode_at_fits:
  assumes "di_fmt (decode_at data pc) \<noteq> Fmt_Unknown" and "length data \<le> 0xFFFFFFF0" and "unat pc < length data"
  shows "unat pc + 8 \<le> length data"
proof -
  have "\<not> pc + 8 > of_nat (length data)"
    using assms(1) by (cases rule: decode_at_cases [of data pc]) auto
  moreover have "unat (pc + 8) = unat pc + 8"
    using assms(2,3) by (simp add: unat_word_ariths)
  moreover have "unat (of_nat (length data) :: u32) = length data"
    using assms(2) by (simp add: unat_of_nat)
  ultimately show ?thesis
    by (simp add: word_less_nat_alt)
qed

lemma decode_at_size: "di_fmt (decode_at data pc) \<noteq> Fmt_Unknown \<Longrightarrow> di_size (decode_at data pc) \<in> {8, 16}"
  by (cases rule: decode_at_cases [of data pc]) (use decode_format_shape(2) in auto)

lemma ToIr_opcode [simp]: "si_opcode (ToIr di) = di_opcode di"
  and ToIr_pc [simp]: "si_pc (ToIr di) = di_pc di"
  by (simp_all add: ToIr_def Let_def)

section \<open>The decode loop\<close>

text \<open>
  \<open>stream_ok\<close> holds of the instructions emitted so far: their addresses increase, each is the translation
  of the instruction at its address, which lies in the binary.
\<close>

definition stream_ok :: "u8 list \<Rightarrow> ShaderInstruction list \<Rightarrow> bool" where
  "stream_ok data is \<longleftrightarrow> sorted_wrt (<) (map si_pc is) \<and>
     (\<forall>i\<in>set is. unat (si_pc i) + 8 \<le> length data \<and> di_fmt (decode_at data (si_pc i)) \<noteq> Fmt_Unknown \<and>
        i = ToIr (decode_at data (si_pc i)))"

definition no_exit :: "ShaderInstruction list \<Rightarrow> bool" where
  "no_exit is \<longleftrightarrow> (\<forall>i\<in>set is. si_opcode i \<noteq> Ctl EXIT)"

lemma stream_ok_snoc:
  assumes "stream_ok data is" and "\<forall>i\<in>set is. si_pc i < pc" and "di_fmt (decode_at data pc) \<noteq> Fmt_Unknown"
    and "length data \<le> 0xFFFFFFF0" and "unat pc < length data"
  shows "stream_ok data (is @ [ToIr (decode_at data pc)])"
  using assms decode_at_pc [OF assms(3)] decode_at_fits [OF assms(3-5)]
  by (auto simp: stream_ok_def sorted_wrt_append)

lemma unat_next_offset:
  assumes "length data \<le> 0xFFFFFFF0" and "unat (pc :: u32) < length data" and "s \<in> {8, 16 :: u32}"
  shows "unat (pc + s) = unat pc + unat s"
  using assms by (auto simp: unat_word_ariths)

lemma decode_loop_ok:
  assumes len: "length data \<le> 0xFFFFFFF0"
    and "stream_ok data (dc_out c)" and "no_exit (dc_out c)" and "\<forall>i\<in>set (dc_out c). si_pc i < dc_offset c"
  shows "\<exists>c'. decode_loop data (of_nat (length data)) c = Some c' \<and> stream_ok data (dc_out c') \<and> no_exit (butlast (dc_out c'))"
  using assms(2-)
proof (induction "length data - unat (dc_offset c)" arbitrary: c rule: less_induct)
  case less
  let ?pc = "dc_offset c" and ?sz = "of_nat (length data) :: u32"
  have sz: "unat ?sz = length data"
    using len by (simp add: unat_of_nat)
  show ?case
  proof (cases "?pc < ?sz")
    case False
    then show ?thesis
      using less.prems by (auto simp: decode_loop.simps [of data ?sz c] no_exit_def dest: in_set_butlastD)
  next
    case True
    then have pc: "unat ?pc < length data"
      by (simp add: word_less_nat_alt sz)
    obtain di c1 where one: "DecodeOne data ?sz ?pc c = (di, c1)"
      by (cases "DecodeOne data ?sz ?pc c")
    have di: "di = decode_at data ?pc" and fr: "dc_offset c1 = ?pc" "dc_out c1 = dc_out c"
      using DecodeOne_fst [of data ?pc c] DecodeOne_frame [of data ?sz ?pc c] by (simp_all add: one)
    note nxt = unat_next_offset [OF len pc]
    have later: "\<forall>i\<in>set (dc_out c). si_pc i < ?pc + s" if "s \<in> {8, 16}" for s
      using less.prems(3) nxt [OF that] by (fastforce simp: word_less_nat_alt)
    show ?thesis
    proof (cases "di_fmt di = Fmt_Unknown")
      case unk: True
      let ?c2 = "c1\<lparr>dc_offset := ?pc + 8\<rparr>"
      have "\<exists>c'. decode_loop data ?sz ?c2 = Some c' \<and> stream_ok data (dc_out c') \<and> no_exit (butlast (dc_out c'))"
        using less.hyps [of ?c2] less.prems later [of 8] nxt [of 8] pc by (simp add: fr)
      then show ?thesis
        using True unk by (simp add: decode_loop.simps [of data ?sz c] one fr)
    next
      case known: False
      let ?c2 = "c1\<lparr>dc_out := dc_out c @ [ToIr di], dc_offset := ?pc + di_size di\<rparr>"
      have s: "di_size di \<in> {8, 16}"
        using decode_at_size known di by blast
      have ok2: "stream_ok data (dc_out c @ [ToIr di])"
        using stream_ok_snoc [OF less.prems(1,3) _ len pc] known di by simp
      show ?thesis
      proof (cases "di_opcode di = Ctl EXIT")
        case True
        then show ?thesis
          using \<open>?pc < ?sz\<close> known ok2 less.prems(2)
          by (simp add: decode_loop.simps [of data ?sz c] one fr Let_def)
      next
        case False
        have "no_exit (dc_out c @ [ToIr di])"
          using less.prems(2) False by (simp add: no_exit_def)
        moreover have "di_pc di = ?pc"
          using known di by (simp add: decode_at_pc)
        moreover have "unat ?pc < unat (?pc + di_size di)"
          using nxt [OF s] s by auto
        ultimately have "\<exists>c'. decode_loop data ?sz ?c2 = Some c' \<and> stream_ok data (dc_out c') \<and> no_exit (butlast (dc_out c'))"
          using less.hyps [of ?c2] ok2 later [OF s] pc
          by (simp add: fr word_less_nat_alt)
        then show ?thesis
          using \<open>?pc < ?sz\<close> known False by (simp add: decode_loop.simps [of data ?sz c] one fr Let_def)
      qed
    qed
  qed
qed

lemma Decode_returns:
  assumes "length data \<le> 0xFFFFFFF0"
  obtains p where "Decode data stage = Some (p, [])" "stream_ok data (sp_instructions p)"
    "no_exit (butlast (sp_instructions p))"
  using decode_loop_ok [OF assms, of dec_init]
  by (auto simp: Decode_def Let_def dec_init_def stream_ok_def no_exit_def)

text \<open>
  Property C19. Decoding always ends: for every binary of at most \<open>0xFFFFFFF0\<close> bytes the loop of
  \<open>Decode\<close> terminates, whatever the bytes are. The instructions it returns are in strictly increasing
  address order, each one lies inside the binary and is the translation of the word at its address, and
  an \<open>EXIT\<close> can only be the last.
\<close>

theorem Decode_terminates:
  assumes "length data \<le> 0xFFFFFFF0"
  shows "\<exists>p errs. Decode data stage = Some (p, errs) \<and>
    sorted_wrt (<) (map si_pc (sp_instructions p)) \<and>
    (\<forall>i\<in>set (sp_instructions p). unat (si_pc i) + 8 \<le> length data \<and>
       i = ToIr (fst (DecodeOne data (of_nat (length data)) (si_pc i) dec_init))) \<and>
    (\<forall>i\<in>set (butlast (sp_instructions p)). si_opcode i \<noteq> Ctl EXIT)"
  by (rule Decode_returns [OF assms, of stage]) (auto simp: stream_ok_def no_exit_def decode_at_def)

theorem Decode_terminates_witness:
  "\<exists>p errs. Decode (le_bytes 8 (0x20 :: u64) @ le_bytes 8 (0x1000 :: u64)) Fragment = Some (p, errs) \<and>
    sorted_wrt (<) (map si_pc (sp_instructions p))"
  using Decode_terminates [of "le_bytes 8 (0x20 :: u64) @ le_bytes 8 (0x1000 :: u64)" Fragment] by auto

section \<open>The typing of the intermediate representation\<close>

datatype kind = KNone | KGpr | KLabel | KTexture | KSpecial | KOther

fun kind_of :: "operand_val \<Rightarrow> kind" where
  "kind_of Op_None = KNone"
| "kind_of (Op_Gpr r) = KGpr"
| "kind_of (Op_Label l) = KLabel"
| "kind_of (Op_Texture t s) = KTexture"
| "kind_of (Op_Special r) = KSpecial"
| "kind_of _ = KOther"

definition ternary_op :: "ShaderOpcode \<Rightarrow> bool" where
  "ternary_op op \<longleftrightarrow> op \<in> {FAlu FMAD, IAlu IADD3, IAlu IMAD, Spec PRMT, Spec BFE, Spec BFI}"

definition unary_op :: "ShaderOpcode \<Rightarrow> bool" where
  "unary_op op \<longleftrightarrow> op \<in> {FAlu MUFU, FAlu FRCP, FAlu FRSQ, FAlu FSQRT, FAlu FEX2, FAlu FLG2, FAlu FSIN, FAlu FCOS,
     IAlu POPC, IAlu FLO, IAlu SHL, IAlu SHR}"

text \<open>
  The operands that the decoder gives an instruction of every opcode, as kinds. Shifts come with one source, although the emitter expects
  two (\<^verbatim>\<open>SpirvEmitter.cpp\<close>, line 1326).
\<close>

definition signature :: "ShaderOpcode \<Rightarrow> kind list" where
  "signature op =
     (if ternary_op op then [KGpr, KGpr, KGpr]
      else if unary_op op then [KGpr]
      else case op of
        FAlu _ \<Rightarrow> [KGpr, KGpr]
      | IAlu _ \<Rightarrow> [KGpr, KGpr]
      | Conv _ \<Rightarrow> [KGpr, KGpr]
      | Cmp _ \<Rightarrow> [KGpr, KGpr]
      | Load _ \<Rightarrow> [KGpr]
      | Store _ \<Rightarrow> [KGpr]
      | Tex t \<Rightarrow> if t = TXQ then [KGpr] else [KGpr, KTexture]
      | Spec s \<Rightarrow> if s = S2R then [KSpecial] else []
      | Ctl c \<Rightarrow> if is_branch_op op then [KLabel] else [])"

definition well_typed :: "ShaderInstruction \<Rightarrow> bool" where
  "well_typed i \<longleftrightarrow>
     map (\<lambda>s. kind_of (op_val s)) (si_src i) = signature (si_opcode i) @ replicate (3 - length (signature (si_opcode i))) KNone \<and>
     unat (si_src_count i) = length (signature (si_opcode i))"

lemma opcode_alu3_ternary: "ternary_op (opcode_alu3 opc)"
  by (simp add: opcode_alu3_def ternary_op_def)

lemma opcode_alu1_unary: "unary_op (opcode_alu1 opc)"
  by (simp add: opcode_alu1_def unary_op_def)

lemma ops_disjoint:
  "ternary_op op \<Longrightarrow> \<not> is_branch_op op \<and> \<not> is_sample_op op \<and> op \<noteq> Spec S2R"
  "unary_op op \<Longrightarrow> \<not> ternary_op op \<and> \<not> is_branch_op op \<and> \<not> is_sample_op op \<and> op \<noteq> Spec S2R"
  by (auto simp: ternary_op_def unary_op_def is_branch_op_def is_sample_op_def)

lemma opcode_alu2_binary:
  "\<not> is_branch_op (opcode_alu2 opc) \<and> \<not> is_sample_op (opcode_alu2 opc) \<and> opcode_alu2 opc \<noteq> Spec S2R \<and>
   signature (opcode_alu2 opc) = [KGpr, KGpr]"
  by (simp add: opcode_alu2_def is_branch_op_def is_sample_op_def signature_def ternary_op_def unary_op_def)

lemma replicate_small: "replicate 2 x = [x, x]" "replicate 3 x = [x, x, x]"
  by (simp_all add: numeral_2_eq_2 numeral_3_eq_3)

text \<open>A register instruction: \<open>n\<close> register sources and no special case of \<open>ToIr\<close>.\<close>

lemma ToIr_registers:
  assumes "\<not> is_branch_op (di_opcode di) \<and> \<not> is_sample_op (di_opcode di) \<and> di_opcode di \<noteq> Spec S2R"
    and "src_count (field di) = of_nat n" and "n \<le> 3" and "signature (di_opcode di) = replicate n KGpr"
  shows "well_typed (ToIr di)"
proof -
  consider "n = 0" | "n = 1" | "n = 2" | "n = 3"
    using assms(3) by linarith
  then show ?thesis
    using assms(1,2,4) by cases (simp_all add: well_typed_def ToIr_def Let_def reg_operand_def operand_defs replicate_small word_le_nat_alt)
qed

lemma branch_facts:
  assumes "is_branch_op op"
  shows "\<not> is_sample_op op \<and> op \<noteq> Spec S2R \<and> op \<noteq> FAlu MUFU \<and> signature op = [KLabel]"
proof -
  consider "op = Ctl BRA" | "op = Ctl CALL" | "op = Ctl SSY" | "op = Ctl SYNC"
    using assms by (auto simp: is_branch_op_def)
  then show ?thesis
    by cases (simp_all add: is_branch_op_def is_sample_op_def signature_def ternary_op_def unary_op_def)
qed

lemma sample_facts:
  assumes "is_sample_op op"
  shows "\<not> is_branch_op op \<and> op \<noteq> Spec S2R \<and> op \<noteq> FAlu MUFU \<and> signature op = [KGpr, KTexture]"
proof -
  consider "op = Tex TEX" | "op = Tex TEXS" | "op = Tex TLDS" | "op = Tex TLD4"
    using assms by (auto simp: is_sample_op_def)
  then show ?thesis
    by cases (simp_all add: is_branch_op_def is_sample_op_def signature_def ternary_op_def unary_op_def)
qed

lemma ToIr_label: "is_branch_op (di_opcode di) \<Longrightarrow> src_count (field di) = 0 \<Longrightarrow> well_typed (ToIr di)"
  by (frule branch_facts) (simp add: well_typed_def ToIr_def Let_def operand_defs replicate_small)

lemma ToIr_texture: "is_sample_op (di_opcode di) \<Longrightarrow> src_count (field di) = 1 \<Longrightarrow> well_typed (ToIr di)"
  by (frule sample_facts) (simp add: well_typed_def ToIr_def Let_def operand_defs word_le_nat_alt)

lemma ToIr_special:
  assumes "di_opcode di = Spec S2R" and "src_count (field di) = 0"
  shows "well_typed (ToIr di)"
proof -
  have "signature (Spec S2R) = [KSpecial]" "\<not> is_branch_op (Spec S2R)" "\<not> is_sample_op (Spec S2R)"
    by (simp_all add: signature_def ternary_op_def unary_op_def is_branch_op_def is_sample_op_def)
  then show ?thesis
    using assms by (simp add: well_typed_def ToIr_def Let_def operand_defs replicate_small)
qed

lemmas decoder_defs = DecodeAluFormat_def DecodeMemoryFormat_def DecodeTextureFormat_def DecodeBranchFormat_def
  DecodeS2RFormat_def DecodeExitFormat_def new_decoded_def no_field_def

lemma alu_well_typed:
  assumes "fmt \<in> {Fmt_Alu3In, Fmt_Alu2In, Fmt_Alu1In, Fmt_ISetp, Fmt_FSetp}"
  shows "well_typed (ToIr (DecodeAluFormat r0 r1 pc fmt))"
proof -
  let ?opc = "opcode_bits r0"
  have three: "signature (opcode_alu3 ?opc) = replicate 3 KGpr" and one: "signature (opcode_alu1 ?opc) = replicate 1 KGpr"
    using opcode_alu3_ternary [of ?opc] opcode_alu1_unary [of ?opc] ops_disjoint(2)
    by (auto simp: signature_def replicate_small)
  consider "fmt = Fmt_Alu3In" | "fmt = Fmt_Alu2In" | "fmt = Fmt_Alu1In" | "fmt = Fmt_ISetp" | "fmt = Fmt_FSetp"
    using assms by auto
  then show ?thesis
  proof cases
    case 1
    then show ?thesis
      using three ops_disjoint(1) [OF opcode_alu3_ternary, of ?opc]
      by (intro ToIr_registers [of _ 3]) (simp_all add: decoder_defs Let_def)
  next
    case 2
    then show ?thesis
      using opcode_alu2_binary [of ?opc]
      by (intro ToIr_registers [of _ 2]) (simp_all add: decoder_defs Let_def replicate_small)
  next
    case 3
    then show ?thesis
      using one ops_disjoint(2) [OF opcode_alu1_unary, of ?opc]
      by (intro ToIr_registers [of _ 1]) (simp_all add: decoder_defs Let_def)
  qed (intro ToIr_registers [of _ 2]; simp add: decoder_defs Let_def replicate_small is_branch_op_def is_sample_op_def
      signature_def ternary_op_def unary_op_def)+
qed

lemma memory_well_typed: "well_typed (ToIr (DecodeMemoryFormat r0 r1 pc))"
  by (intro ToIr_registers [of _ 1])
    (simp_all add: decoder_defs Let_def is_branch_op_def is_sample_op_def signature_def ternary_op_def unary_op_def)

lemma texture_well_typed: "well_typed (ToIr (DecodeTextureFormat r0 r1 pc))"
proof (cases "opcode_bits r0 = 0x64")
  case True
  then show ?thesis
    by (intro ToIr_registers [of _ 1])
      (simp_all add: decoder_defs is_branch_op_def is_sample_op_def signature_def ternary_op_def unary_op_def)
next
  case False
  then show ?thesis
    by (intro ToIr_texture) (simp_all add: decoder_defs is_sample_op_def)
qed

lemma exit_well_typed: "well_typed (ToIr (DecodeExitFormat r0 pc))"
  by (intro ToIr_registers [of _ 0])
    (simp_all add: decoder_defs is_branch_op_def is_sample_op_def signature_def ternary_op_def unary_op_def)

lemma decode_format_well_typed:
  assumes "di_fmt (decode_format r0 r1 pc fmt) \<noteq> Fmt_Unknown"
  shows "well_typed (ToIr (decode_format r0 r1 pc fmt))"
proof (cases fmt)
  case Fmt_PredicateReg
  then show ?thesis
    by (intro ToIr_registers [of _ 0])
      (simp_all add: decode_format_def decoder_defs is_branch_op_def is_sample_op_def signature_def ternary_op_def unary_op_def)
qed (use assms in \<open>simp_all add: decode_format_def alu_well_typed memory_well_typed texture_well_typed exit_well_typed\<close>,
     simp_all add: decoder_defs ToIr_label ToIr_special is_branch_op_def)

text \<open>A program of two instructions: an addition and the end of the program.\<close>

definition sample_binary :: "u8 list" where
  "sample_binary = le_bytes 8 (0x0020000000006020 :: u64) @ le_bytes 8 (0x1000 :: u64)"

declare decode_loop.simps [code]

lemma sample_binary_decodes:
  "map_option (\<lambda>(p, errs). map si_opcode (sp_instructions p)) (Decode sample_binary Fragment) = Some [FAlu FADD, Ctl EXIT]"
  by code_simp

section \<open>What the translation drops\<close>

definition offset_mask :: u64 where
  "offset_mask = push_bit 27 (mask 8)"

lemma bit_FieldBits:
  "bit (FieldBits v hi lo) k \<longleftrightarrow> k < 32 \<and> k < hi - lo + 1 \<and> bit v (lo + k)"
proof -
  have "FieldBits v hi lo = ucast (drop_bit lo v AND mask (hi - lo + 1))"
    by (simp only: FieldBits_def Bits_def push_bit_of_1 mask_eq_exp_minus_1)
  then show ?thesis
    by (auto simp: bit_simps dest: bit_imp_le_length)
qed

lemma FieldBits_outside:
  assumes "v AND NOT (push_bit a (mask n)) = w AND NOT (push_bit a (mask n))" and "hi < a \<or> a + n \<le> lo" and "lo \<le> hi"
  shows "FieldBits v hi lo = FieldBits w hi lo"
proof (rule bit_word_eqI)
  fix k
  have *: "bit v j = bit w j" if "j < a \<or> a + n \<le> j" "j < 64" for j
    using assms(1) that by (auto simp: bit_eq_iff bit_simps)
  have "bit v (lo + k) = bit w (lo + k)" if "k < hi - lo + 1"
  proof (cases "lo + k < 64")
    case True
    with that assms(2,3) show ?thesis
      by (intro *) auto
  next
    case False
    then show ?thesis
      using bit_imp_le_length [of v] bit_imp_le_length [of w] by auto
  qed
  then show "bit (FieldBits v hi lo) k = bit (FieldBits w hi lo) k"
    by (auto simp: bit_FieldBits)
qed

lemma ToIr_ignores: "ToIr (di\<lparr>raw0 := r, field := (field di)\<lparr>mem_offset := off\<rparr>\<rparr>) = ToIr di"
  by (simp add: ToIr_def Let_def)

text \<open>
  The address offset of a load or store is lost: two instruction words that differ only in
  the offset field (bits 34 to 27) are translated to the same intermediate instruction, because
  \<open>ToIr\<close> never copies \<open>field.mem_offset\<close>.
\<close>

theorem memory_offset_lost:
  assumes "r0 AND NOT offset_mask = r0' AND NOT offset_mask"
  shows "ToIr (DecodeMemoryFormat r0 r1 pc) = ToIr (DecodeMemoryFormat r0' r1 pc)"
proof -
  note out = FieldBits_outside [OF assms [unfolded offset_mask_def]]
  have "opcode_bits r0 = opcode_bits r0'" "bits8 r0 19 13 = bits8 r0' 19 13" "bits8 r0 44 39 = bits8 r0' 44 39"
    by (simp_all add: opcode_bits_def bits8_def out [of 12 5] out [of 19 13] out [of 44 39])
  then have "DecodeMemoryFormat r0' r1 pc =
      (DecodeMemoryFormat r0 r1 pc)\<lparr>raw0 := r0', field := (field (DecodeMemoryFormat r0 r1 pc))\<lparr>mem_offset := FieldBits r0' 34 27\<rparr>\<rparr>"
    by (simp add: DecodeMemoryFormat_def Let_def new_decoded_def no_field_def)
  then show ?thesis
    by (simp only: ToIr_ignores)
qed

theorem memory_offset_lost_witness:
  "ToIr (DecodeMemoryFormat 0x0000008008000820 0 0) = ToIr (DecodeMemoryFormat 0x0000008010000820 0 0) \<and>
   mem_offset (field (DecodeMemoryFormat 0x0000008008000820 0 0)) \<noteq> mem_offset (field (DecodeMemoryFormat 0x0000008010000820 0 0))"
  using memory_offset_lost [of "0x0000008008000820" "0x0000008010000820" 0 0]
  by (simp add: offset_mask_def mask_numeral DecodeMemoryFormat_def new_decoded_def no_field_def FieldBits_def Bits_def Let_def)

section \<open>Branch targets\<close>

text \<open>An instruction word with a branch displacement of \<open>k\<close> instructions.\<close>

definition encode_branch :: "u64 \<Rightarrow> int \<Rightarrow> u64" where
  "encode_branch opc k = push_bit 5 (opc AND 0xFF) OR push_bit 13 (take_bit 14 (of_int k))"

lemma encode_branch_fields:
  "opcode_bits (encode_branch opc k) = ucast (opc AND 0xFF)"
  "FieldBits (encode_branch opc k) 26 13 = take_bit 14 (of_int k)"
proof -
  have m: "(0xFF :: u64) = mask 8"
    by (simp add: mask_numeral)
  show "opcode_bits (encode_branch opc k) = ucast (opc AND 0xFF)"
    unfolding opcode_bits_def encode_branch_def m
    by (rule bit_word_eqI) (auto simp: bit_FieldBits bit_simps)
  show "FieldBits (encode_branch opc k) 26 13 = take_bit 14 (of_int k)"
    unfolding encode_branch_def m
    by (rule bit_word_eqI) (auto simp: bit_FieldBits bit_simps)
qed

lemma SignExtend_take_bit: "SignExtend (take_bit 14 w) 14 = signed_take_bit 13 w"
proof (rule bit_word_eqI)
  fix n assume n: "n < LENGTH(32)"
  have b: "(take_bit 14 w AND push_bit (14 - 1) 1 \<noteq> 0) = bit w 13"
    by (simp only: bit_iff_and_push_bit_not_eq_0 [of "take_bit 14 w" "14 - 1", symmetric] bit_take_bit_iff) simp
  have m: "push_bit 14 1 - 1 = (mask 14 :: u32)"
    by (simp only: push_bit_of_1 mask_eq_exp_minus_1)
  have "bit w n = bit w 13" if "13 \<le> n" "\<not> 14 \<le> n"
  proof -
    have "n = 13"
      using that by linarith
    then show ?thesis
      by simp
  qed
  then show "bit (SignExtend (take_bit 14 w) 14) n = bit (signed_take_bit 13 w) n"
    unfolding SignExtend_def b m using n by (auto simp: bit_simps min_def not_less)
qed

lemma branch_target_int:
  assumes "- 8192 \<le> k" and "k < 8192"
  shows "branch_target (field (DecodeBranchFormat (encode_branch opc k) r1 pc fmt)) = of_int (uint pc + 8 + k * 8)"
proof -
  have "SignExtend (FieldBits (encode_branch opc k) 26 13) 14 = (of_int (signed_take_bit 13 k) :: u32)"
    by (simp only: encode_branch_fields SignExtend_take_bit of_int_signed_take_bit)
  also have "signed_take_bit 13 k = k"
    using assms by (intro signed_take_bit_int_eq_self) simp_all
  finally show ?thesis
    by (simp add: DecodeBranchFormat_def new_decoded_def no_field_def)
qed

lemma of_int_div_8: "0 \<le> a \<Longrightarrow> a < 2 ^ 32 \<Longrightarrow> (of_int a :: u32) div 8 = of_int (a div 8)"
  by (rule word_uint_eqI) (simp add: uint_div uint_word_of_int_eq take_bit_int_eq_self)

lemma branch_opcodes:
  assumes "c \<in> {0x81, 0x82, 0x83, 0x84}"
  shows "decode_format r0 r1 pc (DetectFormat c) = DecodeBranchFormat r0 r1 pc (DetectFormat c)"
    and "is_branch_op (DecodeOpcode c (DetectFormat c))"
proof -
  have f: "DetectFormat 0x81 = Fmt_Branch" "DetectFormat 0x82 = Fmt_Branch" "DetectFormat 0x83 = Fmt_Sync" "DetectFormat 0x84 = Fmt_Sync"
    by (simp_all add: DetectFormat_def)
  consider "c = 0x81" | "c = 0x82" | "c = 0x83" | "c = 0x84"
    using assms by blast
  then show "decode_format r0 r1 pc (DetectFormat c) = DecodeBranchFormat r0 r1 pc (DetectFormat c)"
    and "is_branch_op (DecodeOpcode c (DetectFormat c))"
    by (cases; simp add: f decode_format_def is_branch_op_def)+
qed

text \<open>
  Branch displacements are decoded as signed numbers: an instruction whose 14-bit field holds the
  displacement \<open>k\<close> (counted in instructions, negative for a jump back) yields the label of the
  instruction \<open>k\<close> places after its successor, whenever that address exists.
\<close>

theorem branch_label_roundtrip:
  assumes "opc \<in> {0x81, 0x82, 0x83, 0x84}" and "- 8192 \<le> k" and "k < 8192"
    and "0 \<le> uint pc + 8 + k * 8" and "uint pc + 8 + k * 8 < 2 ^ 32"
  shows "let fmt = DetectFormat (opcode_bits (encode_branch opc k));
             ir = ToIr (decode_format (encode_branch opc k) 0 pc fmt)
         in is_branch_op (si_opcode ir) \<and> hd (si_src ir) = Label (of_int (uint pc div 8 + 1 + k)) \<and> si_src_count ir = 1"
proof -
  let ?w = "encode_branch opc k"
  let ?fmt = "DetectFormat (opcode_bits ?w)"
  let ?di = "DecodeBranchFormat ?w 0 pc ?fmt"
  have opc: "opcode_bits ?w \<in> {0x81, 0x82, 0x83, 0x84 :: u32}"
    using assms(1) by (auto simp: encode_branch_fields(1))
  note fmt = branch_opcodes(1) [OF opc, of ?w 0 pc]
  have br: "is_branch_op (di_opcode ?di)"
    using branch_opcodes(2) [OF opc] by (simp add: DecodeBranchFormat_def)
  have "(uint pc + 8 + k * 8) div 8 = uint pc div 8 + 1 + k"
    by (simp add: div_add1_eq)
  then have "branch_target (field ?di) div 8 = of_int (uint pc div 8 + 1 + k)"
    using assms by (simp only: branch_target_int of_int_div_8)
  then show ?thesis
    using br branch_facts [OF br] by (simp only: fmt Let_def) (simp add: ToIr_def Let_def)
qed

theorem branch_label_roundtrip_witness:
  "hd (si_src (ToIr (decode_format (encode_branch 0x81 (- 3)) 0 64 (DetectFormat (opcode_bits (encode_branch 0x81 (- 3))))))) = Label 6"
  using branch_label_roundtrip [of "0x81" "- 3" 64] by (simp add: Let_def)

section \<open>Extraction\<close>

definition exit_word :: "u8 list \<Rightarrow> nat \<Rightarrow> bool" where
  "exit_word code i \<longleftrightarrow> opcode_bits (of_le_bytes (get_bytes code (8 * i) 8)) = 0x80"

lemma scan_exit_Some:
  "scan_exit code (8 * i) k = Some e \<Longrightarrow> \<exists>m<k. e = 8 * (i + m) + 8 \<and> exit_word code (i + m) \<and> (\<forall>j<m. \<not> exit_word code (i + j))"
proof (induction k arbitrary: i)
  case (Suc k)
  show ?case
  proof (cases "exit_word code i")
    case True
    then show ?thesis
      using Suc.prems by (intro exI [of _ 0]) (simp add: exit_word_def)
  next
    case False
    then have "scan_exit code (8 * Suc i) k = Some e"
      using Suc.prems by (simp add: exit_word_def algebra_simps)
    from Suc.IH [OF this] obtain m where m: "m < k" "e = 8 * (Suc i + m) + 8" "exit_word code (Suc i + m)"
      "\<forall>j<m. \<not> exit_word code (Suc i + j)"
      by blast
    with False show ?thesis
      by (intro exI [of _ "Suc m"]) (auto simp: less_Suc_eq_0_disj)
  qed
qed simp

lemma scan_exit_None: "scan_exit code (8 * i) k = None \<Longrightarrow> j < k \<Longrightarrow> \<not> exit_word code (i + j)"
proof (induction k arbitrary: i j)
  case (Suc k)
  then have "\<not> exit_word code i" and "scan_exit code (8 * Suc i) k = None"
    by (auto simp: exit_word_def algebra_simps split: if_splits)
  then show ?case
    using Suc.IH [of "Suc i" "j - 1"] Suc.prems(2) by (cases j) auto
qed simp

text \<open>
  \<open>ExtractShader\<close> never reads outside the region and never returns more than \<open>max_size\<close>
  bytes: its result is a prefix of the region from the offset on. It ends after the first 8-byte word whose
  opcode field is that of \<open>EXIT\<close> or, if there is none within the limit, at the limit.
\<close>

theorem ExtractShader_prefix:
  assumes "unat off < length r"
  shows "let code = drop (unat off) r; avail = min (length r - unat off) (unat max_size); res = ExtractShader (Some r) off max_size
    in res = take (length res) code \<and> length res \<le> avail \<and>
       ((\<exists>i. length res = 8 * i + 8 \<and> exit_word code i \<and> (\<forall>j<i. \<not> exit_word code j)) \<or>
        length res = avail \<and> (\<forall>j. 8 * j + 8 \<le> avail \<longrightarrow> \<not> exit_word code j))"
proof -
  let ?code = "drop (unat off) r" and ?avail = "min (length r - unat off) (unat max_size)"
  have "r \<noteq> []"
    using assms by auto
  show ?thesis
  proof (cases "scan_exit ?code 0 (?avail div 8)")
    case None
    have "\<not> exit_word ?code j" if "8 * j + 8 \<le> ?avail" for j
    proof -
      have "j < ?avail div 8"
        using that by linarith
      then show ?thesis
        using scan_exit_None [of ?code 0 "?avail div 8" j] None by simp
    qed
    then show ?thesis
      using None assms \<open>r \<noteq> []\<close> by (simp add: ExtractShader_def Let_def min.assoc)
  next
    case (Some e)
    then obtain m where m: "m < ?avail div 8" "e = 8 * m + 8" "exit_word ?code m" "\<forall>j<m. \<not> exit_word ?code j"
      using scan_exit_Some [of ?code 0 "?avail div 8" e] by auto
    then have e: "e \<le> ?avail"
      by linarith
    then have "ExtractShader (Some r) off max_size = take e ?code" "length (take e ?code) = e"
      using Some assms \<open>r \<noteq> []\<close> by (simp_all add: ExtractShader_def Let_def)
    then show ?thesis
      using m e by (simp only: Let_def) auto
  qed
qed

theorem ExtractShader_prefix_witness:
  "let res = ExtractShader (Some (replicate 8 0 @ sample_binary)) 8 4096 in length res \<le> 16 \<and> res = take (length res) sample_binary"
  using ExtractShader_prefix [of 8 "replicate 8 0 @ sample_binary" 4096]
  by (simp add: Let_def sample_binary_def)

text \<open>
  The scan looks at every 8-byte word, the second halves of 16-byte instructions included: a texture
  instruction whose second word happens to carry the pattern ends the extracted shader, and the real
  \<open>EXIT\<close> after it is cut off.
\<close>

definition sample_texture_program :: "u8 list" where
  "sample_texture_program = le_bytes 8 (0x0C00 :: u64) @ le_bytes 8 (0x1000 :: u64) @ le_bytes 8 (0x20 :: u64) @ le_bytes 8 (0x1000 :: u64)"

lemma extraction_truncates:
  "map_option (\<lambda>(p, e). map si_opcode (sp_instructions p)) (Decode sample_texture_program Fragment) =
     Some [Tex TEX, FAlu FADD, Ctl EXIT]"
  "map_option (\<lambda>(p, e). map si_opcode (sp_instructions p)) (Decode (ExtractShader (Some sample_texture_program) 0 4096) Fragment) =
     Some [Tex TEX]"
  by code_simp+

end
