(* ===== verification/Lz4.thy ===== *)
theory Lz4
  imports Prelude
begin

unbundle bit_operations_syntax

text \<open>
  Segment decompression of the NSO loader: the functions of the anonymous namespace of
  \<^verbatim>\<open>src/src/loader/NsoLoader.cpp\<close>.

  The input position is the suffix still to be read; the output position is the length of the bytes
  produced so far. The code reads its input and its own output without checking every index: a read past
  the end of the input or before the start of the output is the error \<open>SrcOverrun\<close> or \<open>DstUnderrun\<close>.
  Lengths are 32-bit words and wrap as in the source.
\<close>

section \<open>The decoder\<close>

datatype lz4_error = SrcOverrun | DstUnderrun

definition LZ4_MAGIC :: u32 where "LZ4_MAGIC = 0x184D2204"

definition IsLZ4Compressed :: "u8 list \<Rightarrow> bool" where
  "IsLZ4Compressed data = (if length data < 4 then False else of_le_bytes (take 4 data) = LZ4_MAGIC)"

text \<open>The two loops that extend a length: the first byte is read unconditionally.\<close>

fun ext_len :: "u8 list \<Rightarrow> u32 \<Rightarrow> (u32 \<times> u8 list) option" where
  "ext_len [] len = None"
| "ext_len (b # bs) len = (if b = 255 \<and> bs \<noteq> [] then ext_len bs (len + ucast b) else Some (len + ucast b, bs))"

definition lit_length :: "u8 \<Rightarrow> u8 list \<Rightarrow> (u32 \<times> u8 list) option" where
  "lit_length token inp =
     (let len = ucast (drop_bit 4 token AND 0xF) in if len = 15 then ext_len inp len else Some (len, inp))"

definition match_length :: "u8 \<Rightarrow> u8 list \<Rightarrow> (u32 \<times> u8 list) option" where
  "match_length token inp =
     (let len = ucast (token AND 0xF) + 4 in if len = 19 then ext_len inp len else Some (len, inp))"

fun copy_match :: "nat \<Rightarrow> nat \<Rightarrow> nat \<Rightarrow> u8 list \<Rightarrow> u8 list option" where
  "copy_match offset dst_size 0 out = Some out"
| "copy_match offset dst_size (Suc k) out =
     (if length out < dst_size
      then if offset \<le> length out then copy_match offset dst_size k (out @ [out ! (length out - offset)]) else None
      else Some out)"

datatype lz4_next = Stop "u8 list" | Fault lz4_error | Next "u8 list" "u8 list"

definition lz4_seq :: "nat \<Rightarrow> u8 \<Rightarrow> u8 list \<Rightarrow> u8 list \<Rightarrow> lz4_next" where
  "lz4_seq dst_size token inp out =
     (case lit_length token inp of
        None \<Rightarrow> Fault SrcOverrun
      | Some (lit_len, in1) \<Rightarrow>
          let to_copy = min (unat lit_len) (dst_size - length out) in
          if lit_len > 0 \<and> to_copy > length in1 then Stop out
          else
            let out1 = out @ take to_copy in1; in2 = drop (unat lit_len) in1 in
            if in2 = [] then Stop out1
            else if length in2 < 2 then Fault SrcOverrun
            else
              let offset = (of_le_bytes (take 2 in2) :: u16); in3 = drop 2 in2 in
              if offset = 0 then Stop out1
              else case match_length token in3 of
                     None \<Rightarrow> Fault SrcOverrun
                   | Some (match_len, in4) \<Rightarrow>
                       (case copy_match (unat offset) dst_size (unat match_len) out1 of
                          None \<Rightarrow> Fault DstUnderrun
                        | Some out2 \<Rightarrow> Next in4 out2))"

lemma ext_len_shorter: "ext_len inp len = Some (n, rest) \<Longrightarrow> length rest < length inp"
  by (induction inp len rule: ext_len.induct) (auto split: if_splits)

lemma lit_length_le: "lit_length token inp = Some (n, rest) \<Longrightarrow> length rest \<le> length inp"
  by (auto simp: lit_length_def Let_def split: if_splits dest: ext_len_shorter)

lemma match_length_le: "match_length token inp = Some (n, rest) \<Longrightarrow> length rest \<le> length inp"
  by (auto simp: match_length_def Let_def split: if_splits dest: ext_len_shorter)

lemma lz4_seq_shorter:
  assumes "lz4_seq dst_size token inp out = Next rest out'"
  shows "length rest \<le> length inp"
proof -
  obtain n in1 k in4 where "lit_length token inp = Some (n, in1)"
    and m: "match_length token (drop 2 (drop (unat n) in1)) = Some (k, in4)" and "rest = in4"
    using assms by (auto simp: lz4_seq_def Let_def split: option.splits if_splits prod.splits)
  then show ?thesis
    using lit_length_le [of token inp n in1] match_length_le [OF m] by simp
qed

function lz4_loop :: "nat \<Rightarrow> u8 list \<Rightarrow> u8 list \<Rightarrow> lz4_error + u8 list" where
  "lz4_loop dst_size [] out = Inr out"
| "lz4_loop dst_size (token # inp) out =
     (if length out < dst_size
      then case lz4_seq dst_size token inp out of
             Stop out' \<Rightarrow> Inr out'
           | Fault e \<Rightarrow> Inl e
           | Next inp' out' \<Rightarrow> lz4_loop dst_size inp' out'
      else Inr out)"
  by pat_completeness auto
termination
  by (relation "measure (\<lambda>(_, inp, _). length inp)") (auto simp: less_Suc_eq_le dest: lz4_seq_shorter)

definition DecompressLZ4 :: "u8 list \<Rightarrow> nat \<Rightarrow> lz4_error + u8 list" where
  "DecompressLZ4 src dst_size =
     (if \<not> IsLZ4Compressed src then Inr (take (min (length src) dst_size) src)
      else lz4_loop dst_size (drop 4 src) [])"

section \<open>Bounds\<close>

lemma copy_match_bound:
  "copy_match offset dst_size k out = Some out' \<Longrightarrow> length out \<le> dst_size \<Longrightarrow> length out' \<le> dst_size"
  by (induction offset dst_size k out rule: copy_match.induct) (auto split: if_splits)

lemma lz4_seq_bound:
  assumes "length out \<le> dst_size" and "lz4_seq dst_size token inp out = Stop out' \<or> lz4_seq dst_size token inp out = Next rest out'"
  shows "length out' \<le> dst_size"
proof -
  have lit: "length (out @ take (min n (dst_size - length out)) xs) \<le> dst_size" for n and xs :: "u8 list"
    using assms(1) by simp
  show ?thesis
    using assms lit copy_match_bound [OF _ lit]
    by (auto simp: lz4_seq_def Let_def split: option.splits if_splits prod.splits)
qed

lemma lz4_output_bound:
  assumes "DecompressLZ4 src dst_size = Inr out"
  shows "length out \<le> dst_size"
proof -
  have "lz4_loop dst_size inp acc = Inr out \<Longrightarrow> length acc \<le> dst_size \<Longrightarrow> length out \<le> dst_size" for inp acc
    by (induction dst_size inp acc rule: lz4_loop.induct)
      (auto split: if_splits lz4_next.splits dest: lz4_seq_bound [OF less_imp_le])
  then show ?thesis
    using assms by (auto simp: DecompressLZ4_def split: if_splits)
qed

text \<open>
  Decompression never writes outside its destination: the output has at most
  \<open>dst_size\<close> bytes, whatever the input is.
\<close>

theorem DecompressLZ4_bound:
  assumes "DecompressLZ4 src dst_size = Inr out"
  shows "length out \<le> dst_size"
  using assms by (rule lz4_output_bound)

section \<open>The format\<close>

text \<open>
  A block is a list of sequences (literals, then a copy of \<open>n\<close> bytes from \<open>off\<close> bytes back) followed by
  literals. \<open>expand\<close> is what it stands for, \<open>encode\<close> its byte representation.
\<close>

datatype lz4_sequence = Sequence "u8 list" nat nat

primrec lz_copy :: "nat \<Rightarrow> nat \<Rightarrow> u8 list \<Rightarrow> u8 list" where
  "lz_copy off 0 out = out"
| "lz_copy off (Suc n) out = lz_copy off n (out @ [out ! (length out - off)])"

fun expand :: "lz4_sequence list \<Rightarrow> u8 list \<Rightarrow> u8 list \<Rightarrow> u8 list" where
  "expand [] lits out = out @ lits"
| "expand (Sequence l off n # ss) lits out = expand ss lits (lz_copy off n (out @ l))"

fun well_formed :: "lz4_sequence list \<Rightarrow> u8 list \<Rightarrow> bool" where
  "well_formed [] out \<longleftrightarrow> True"
| "well_formed (Sequence l off n # ss) out \<longleftrightarrow>
     1 \<le> off \<and> off < 2 ^ 16 \<and> off \<le> length (out @ l) \<and> 4 \<le> n \<and> n < 2 ^ 32 \<and> length l < 2 ^ 32 \<and>
     well_formed ss (lz_copy off n (out @ l))"

definition encode_ext :: "nat \<Rightarrow> u8 list" where
  "encode_ext n = replicate (n div 255) 255 @ [of_nat (n mod 255)]"

definition encode_rest :: "nat \<Rightarrow> u8 list" where
  "encode_rest n = (if n < 15 then [] else encode_ext (n - 15))"

definition lz4_token :: "nat \<Rightarrow> nat \<Rightarrow> u8" where
  "lz4_token a b = of_nat (16 * min a 15 + min b 15)"

fun encode_sequence :: "lz4_sequence \<Rightarrow> u8 list" where
  "encode_sequence (Sequence l off n) =
     lz4_token (length l) (n - 4) # encode_rest (length l) @ l @ le_bytes 2 (of_nat off :: u16) @ encode_rest (n - 4)"

definition encode :: "lz4_sequence list \<Rightarrow> u8 list \<Rightarrow> u8 list" where
  "encode ss lits = concat (map encode_sequence ss) @ lz4_token (length lits) 0 # encode_rest (length lits) @ lits"

lemma of_nat_eq_small:
  "a < 2 ^ LENGTH('a) \<Longrightarrow> b < 2 ^ LENGTH('a) \<Longrightarrow> (of_nat a = (of_nat b :: 'a::len word)) = (a = b)"
  by (simp add: word_of_nat_eq_iff take_bit_nat_eq_self)

lemma ext_len_run:
  assumes "m < 255"
  shows "ext_len (replicate k 255 @ of_nat m # rest) len = Some (len + of_nat (255 * k + m), rest)"
proof (induction k arbitrary: len)
  case 0
  have "(of_nat m :: u8) \<noteq> of_nat 255"
    using assms by (subst of_nat_eq_small) simp_all
  moreover have "ucast (of_nat m :: u8) = (of_nat m :: u32)"
    using assms by (simp add: unsigned_of_nat take_bit_nat_eq_self)
  ultimately show ?case
    by simp
next
  case (Suc k)
  have "ext_len (replicate (Suc k) 255 @ of_nat m # rest) len = ext_len (replicate k 255 @ of_nat m # rest) (len + 255)"
    by simp
  also have "\<dots> = Some (len + 255 + of_nat (255 * k + m), rest)"
    by (rule Suc.IH)
  also have "len + 255 + of_nat (255 * k + m) = len + of_nat (255 * Suc k + m)"
    by simp
  finally show ?case .
qed

lemma ext_len_encode: "ext_len (encode_ext n @ rest) len = Some (len + of_nat n, rest)"
proof -
  have "255 * (n div 255) + n mod 255 = n"
    by simp
  then show ?thesis
    using ext_len_run [of "n mod 255" "n div 255" rest len] by (simp add: encode_ext_def)
qed

lemma token_fields:
  "ucast (drop_bit 4 (lz4_token a b) AND 0xF) = (of_nat (min a 15) :: u32)"
  "ucast (lz4_token a b AND 0xF) = (of_nat (min b 15) :: u32)"
proof -
  have t: "unat (lz4_token a b) = 16 * min a 15 + min b 15"
    unfolding lz4_token_def unat_of_nat by (rule mod_less) simp
  have m: "(0xF :: u8) = mask 4"
    by (simp add: mask_numeral)
  have d: "(16 * x + y) div 16 = x" if "y < 16" for x y :: nat
    using that by simp
  have u: "ucast w = (of_nat (unat w) :: u32)" for w :: u8
    by simp
  have "unat (drop_bit 4 (lz4_token a b) AND 0xF) = min a 15"
    unfolding m unat_and_mask unat_drop_bit_eq t using d [of "min b 15" "min a 15"] by (simp add: drop_bit_eq_div)
  then show "ucast (drop_bit 4 (lz4_token a b) AND 0xF) = (of_nat (min a 15) :: u32)"
    by (metis u)
  have "unat (lz4_token a b AND 0xF) = min b 15"
    unfolding m unat_and_mask t by simp
  then show "ucast (lz4_token a b AND 0xF) = (of_nat (min b 15) :: u32)"
    by (metis u)
qed

lemma nibble_full: "(of_nat (min n 15) :: u32) = 15 \<longleftrightarrow> 15 \<le> n"
  using of_nat_eq_small [of "min n 15" 15, where 'a = 32] by (simp add: min_def)

lemma lit_length_encode: "lit_length (lz4_token n b) (encode_rest n @ rest) = Some (of_nat n, rest)"
proof (cases "n < 15")
  case True
  then show ?thesis
    using nibble_full [of n] by (simp add: lit_length_def token_fields encode_rest_def Let_def)
next
  case False
  then have "15 + of_nat (n - 15) = (of_nat n :: u32)"
    by (simp add: of_nat_diff)
  then show ?thesis
    using False by (simp add: lit_length_def token_fields encode_rest_def ext_len_encode Let_def)
qed

lemma match_length_encode:
  assumes "4 \<le> n"
  shows "match_length (lz4_token a (n - 4)) (encode_rest (n - 4) @ rest) = Some (of_nat n, rest)"
proof (cases "n - 4 < 15")
  case True
  have "(of_nat (min (n - 4) 15) :: u32) + 4 = of_nat n"
    using assms True by (simp add: of_nat_diff)
  moreover have "(of_nat n :: u32) \<noteq> of_nat 19"
    using True by (subst of_nat_eq_small) simp_all
  ultimately show ?thesis
    using True by (simp add: match_length_def token_fields encode_rest_def Let_def)
next
  case False
  then have "19 + of_nat (n - 4 - 15) = (of_nat n :: u32)"
    by (simp add: of_nat_diff)
  then show ?thesis
    using False by (simp add: match_length_def token_fields encode_rest_def ext_len_encode Let_def)
qed

lemma length_lz_copy [simp]: "length (lz_copy off n out) = length out + n"
  by (induction n arbitrary: out) simp_all

lemma length_expand: "length out \<le> length (expand ss lits out)"
proof (induction ss lits out rule: expand.induct)
  case (2 l off n ss lits out)
  then show ?case
    by simp
qed simp

lemma copy_match_lz_copy:
  "off \<le> length out \<Longrightarrow> length out + n \<le> dst_size \<Longrightarrow> copy_match off dst_size n out = Some (lz_copy off n out)"
  by (induction n arbitrary: out) simp_all

lemma lz4_seq_encode:
  assumes "1 \<le> off" "off < 2 ^ 16" "off \<le> length (out @ l)" "4 \<le> n" "n < 2 ^ 32" "length l < 2 ^ 32"
    and "length (out @ l) + n \<le> dst_size" and "rest \<noteq> []"
  shows "lz4_seq dst_size (lz4_token (length l) (n - 4))
           (encode_rest (length l) @ l @ le_bytes 2 (of_nat off :: u16) @ encode_rest (n - 4) @ rest) out =
         Next rest (lz_copy off n (out @ l))"
proof -
  have l: "unat (of_nat (length l) :: u32) = length l" and n: "unat (of_nat n :: u32) = n" and o: "unat (of_nat off :: u16) = off"
    using assms by (simp_all add: unat_of_nat)
  have "(of_nat off :: u16) \<noteq> 0"
    using o assms(1) by (metis not_one_le_zero unat_0)
  moreover have "take 2 (le_bytes 2 w @ xs) = le_bytes 2 w" "drop 2 (le_bytes 2 w @ xs) = xs" for w :: u16 and xs
    by simp_all
  moreover have "of_le_bytes (le_bytes 2 w) = w" for w :: u16
    by (simp add: le_simps take_bit_word_eq_self)
  moreover have "min (length l) (dst_size - length out) = length l"
    using assms(7) by simp
  moreover have "copy_match off dst_size n (out @ l) = Some (lz_copy off n (out @ l))"
    using assms(3,7) by (rule copy_match_lz_copy)
  ultimately show ?thesis
    using match_length_encode [OF assms(4)] assms(8) by (simp add: lz4_seq_def lit_length_encode Let_def l n o)
qed

lemma lz4_seq_last:
  assumes "length lits < 2 ^ 32" and "length (out @ lits) \<le> dst_size"
  shows "lz4_seq dst_size (lz4_token (length lits) b) (encode_rest (length lits) @ lits) out = Stop (out @ lits)"
proof -
  have l: "unat (of_nat (length lits) :: u32) = length lits"
    using assms(1) by (simp add: unat_of_nat)
  then show ?thesis
    using assms(2) by (simp add: lz4_seq_def lit_length_encode Let_def)
qed

lemma lz4_loop_encode:
  assumes "well_formed ss out" and "length lits < 2 ^ 32" and "length (expand ss lits out) \<le> dst_size"
  shows "lz4_loop dst_size (encode ss lits) out = Inr (expand ss lits out)"
  using assms
proof (induction ss arbitrary: out)
  case Nil
  moreover from Nil have "lits = []" if "\<not> length out < dst_size"
    using that by (cases lits) simp_all
  ultimately show ?case
    using lz4_seq_last [of lits out dst_size 0] by (auto simp: encode_def)
next
  case (Cons s ss)
  obtain l off n where s: "s = Sequence l off n"
    by (cases s)
  let ?out = "lz_copy off n (out @ l)"
  have wf: "1 \<le> off" "off < 2 ^ 16" "off \<le> length (out @ l)" "4 \<le> n" "n < 2 ^ 32" "length l < 2 ^ 32" "well_formed ss ?out"
    using Cons.prems(1) by (simp_all add: s)
  have fits: "length (out @ l) + n \<le> dst_size"
    using length_expand [of ?out ss lits] Cons.prems(3) by (simp add: s)
  have "lz4_seq dst_size (lz4_token (length l) (n - 4))
      (encode_rest (length l) @ l @ le_bytes 2 (of_nat off :: u16) @ encode_rest (n - 4) @ encode ss lits) out = Next (encode ss lits) ?out"
    by (rule lz4_seq_encode [OF wf(1-6) fits]) (simp add: encode_def)
  moreover have "encode (s # ss) lits = lz4_token (length l) (n - 4) #
      encode_rest (length l) @ l @ le_bytes 2 (of_nat off :: u16) @ encode_rest (n - 4) @ encode ss lits"
    by (simp add: encode_def s)
  moreover have "length out < dst_size"
    using fits wf(4) by simp
  ultimately show ?case
    using Cons.IH [OF wf(7) assms(2)] Cons.prems(3) by (simp add: s)
qed

text \<open>
  Property C25. The decoder inverts the block format: for every well-formed list of sequences and final literals,
  decompressing the marker followed by the encoded block yields exactly the bytes the block stands for,
  overlapping copies and extended lengths included.
\<close>

theorem DecompressLZ4_roundtrip:
  assumes "well_formed ss []" and "length lits < 2 ^ 32" and "length (expand ss lits []) \<le> dst_size"
  shows "DecompressLZ4 (le_bytes 4 LZ4_MAGIC @ encode ss lits) dst_size = Inr (expand ss lits [])"
  using lz4_loop_encode [OF assms] by (simp add: DecompressLZ4_def IsLZ4Compressed_def)

theorem DecompressLZ4_roundtrip_witness:
  "DecompressLZ4 (le_bytes 4 LZ4_MAGIC @ encode [Sequence [1, 2, 3] 2 20] [9]) 24 = Inr ([1, 2, 3] @ concat (replicate 10 [2, 3]) @ [9])"
proof -
  have e: "expand [Sequence [1, 2, 3] 2 20] [9] [] = [1, 2, 3] @ concat (replicate 10 [2, 3]) @ [9]"
    by code_simp
  have "length (expand [Sequence [1, 2, 3] 2 20] [9] []) \<le> 24"
    by code_simp
  then show ?thesis
    using DecompressLZ4_roundtrip [of "[Sequence [1, 2, 3] 2 20]" "[9]" 24] by (simp only: e [symmetric]) simp
qed

text \<open>
  A match offset is not compared with the amount of output: a block that starts with a copy reads the byte
  before the destination.
\<close>

lemma match_before_start: "DecompressLZ4 (le_bytes 4 LZ4_MAGIC @ [0, 1, 0, 0]) 16 = Inl DstUnderrun"
  by code_simp

text \<open>
  The marker is that of the LZ4 frame format. A block without it, which is what the executable format
  contains, is taken for uncompressed data and copied as it is.
\<close>

lemma unmarked_block_copied:
  "\<not> IsLZ4Compressed (encode ss lits) \<Longrightarrow> DecompressLZ4 (encode ss lits) dst_size = Inr (take dst_size (encode ss lits))"
  by (simp add: DecompressLZ4_def min_def)

theorem DecompressLZ4_bound_witness: "length (projr (DecompressLZ4 (le_bytes 4 LZ4_MAGIC @ encode [] [7, 8, 9]) 2)) \<le> 2"
proof -
  have "DecompressLZ4 (le_bytes 4 LZ4_MAGIC @ encode [] [7, 8, 9]) 2 = Inr [7, 8]"
    by code_simp
  from DecompressLZ4_bound [OF this] this show ?thesis
    by simp
qed

end
