(* ===== verification/NsoLoader.thy ===== *)
theory NsoLoader
  imports Lz4 CodePatch
begin

unbundle bit_operations_syntax

text \<open>
  The NSO loader: \<^verbatim>\<open>src/src/loader/NsoLoader.cpp\<close> and \<^verbatim>\<open>NsoLoader.h\<close>.

  The loader works on the guest memory and, through the instruction patcher, on the address of the fixed
  thread-local block and the cache of patched addresses; the three are the record \<open>native\<close>. The host's part
  is \<open>native_host\<close>. A fault of the decompressor ends the load with \<open>Overrun\<close>. Page protection, which leaves no trace in
  the state, and logging are left out; opening the file is the caller's part.
\<close>

section \<open>State\<close>

record native =
  n_mem :: memory
  n_tls :: u64
  n_cache :: "u64 \<rightharpoonup> u32"

record native_host =
  nh_vm :: host_vm
  nh_mmap :: "u64 \<Rightarrow> bool"
  nh_tls :: u64

text \<open>A call of \<open>PatchSVCs\<close> whose result and list of patches are only logged.\<close>

definition patch_code :: "native_host \<Rightarrow> u64 \<Rightarrow> u64 \<Rightarrow> native \<Rightarrow> native" where
  "patch_code h code sz n =
     (let (r, tls, p) = PatchSVCs (nh_mmap h) (nh_tls h) (n_tls n) code sz
            \<lparr>p_img = image (n_mem n), p_map = [], p_cache = n_cache n\<rparr>
      in n\<lparr>n_mem := (n_mem n)\<lparr>image := p_img p\<rparr>, n_tls := tls, n_cache := p_cache p\<rparr>)"

record NsoSegment =
  ns_guest_address :: u64
  ns_size :: u64
  ns_compressed_size :: u64
  ns_perm :: Permission
  ns_file_offset :: u64

record NsoLoadInfo =
  nso_segments :: "NsoSegment list"
  nso_entry_point :: u64
  nso_base_address :: u64
  nso_bss_address :: u64
  nso_bss_size :: u64
  nso_build_id :: string
  nso_mod_offset :: u32

definition NsoLoadInfo_init :: NsoLoadInfo where
  "NsoLoadInfo_init = \<lparr>nso_segments = [], nso_entry_point = 0, nso_base_address = 0, nso_bss_address = 0,
     nso_bss_size = 0, nso_build_id = [], nso_mod_offset = 0\<rparr>"

record SegDesc =
  sd_file_off :: u64
  sd_mem_off :: u64
  sd_decomp_size :: u64
  sd_comp_size :: u32
  sd_perm :: Permission

record NsoHeader =
  nh_version :: u32
  nh_flags :: u32
  nh_segs :: "SegDesc list"
  nh_bss_size :: u32
  nh_mod_offset :: u32
  nh_build_id :: "u8 list"

section \<open>Header\<close>

definition le32 :: "u8 list \<Rightarrow> nat \<Rightarrow> u32" where
  "le32 buf off = of_le_bytes (get_bytes buf off 4)"

definition le64 :: "u8 list \<Rightarrow> nat \<Rightarrow> u64" where
  "le64 buf off = of_le_bytes (get_bytes buf off 8)"

definition NSO0_MAGIC :: u32 where "NSO0_MAGIC = 0x304F534E"

text \<open>
  The three groups of segment fields of the header are kept as the array of segment descriptors that
  \<open>DecompressAndMap\<close> builds from them.
\<close>

definition nso_segs :: "u8 list \<Rightarrow> SegDesc list" where
  "nso_segs buf =
     [\<lparr>sd_file_off = le64 buf 0x10, sd_mem_off = le64 buf 0x18, sd_decomp_size = le64 buf 0x20,
       sd_comp_size = le32 buf 0x64, sd_perm = Perm_RX\<rparr>,
      \<lparr>sd_file_off = le64 buf 0x28, sd_mem_off = le64 buf 0x30, sd_decomp_size = le64 buf 0x38,
       sd_comp_size = le32 buf 0x68, sd_perm = Perm_R\<rparr>,
      \<lparr>sd_file_off = le64 buf 0x40, sd_mem_off = le64 buf 0x48, sd_decomp_size = le64 buf 0x50,
       sd_comp_size = le32 buf 0x6C, sd_perm = Perm_RW\<rparr>]"

definition nso_ParseHeader :: "u8 list \<Rightarrow> NsoHeader option" where
  "nso_ParseHeader buf =
     (if length buf < 0x100 then None
      else if le32 buf 0 \<noteq> NSO0_MAGIC then None
      else Some \<lparr>nh_version = le32 buf 0x04, nh_flags = le32 buf 0x0C, nh_segs = nso_segs buf,
                 nh_bss_size = le32 buf 0x58, nh_mod_offset = le32 buf 0x5C, nh_build_id = get_bytes buf 0x80 0x20\<rparr>)"

section \<open>Mapping\<close>

datatype load_end = Done Result | Overrun lz4_error

definition source_size :: "u8 list \<Rightarrow> SegDesc \<Rightarrow> nat" where
  "source_size buf seg =
     (let comp_data_size = (if sd_comp_size seg > 0 \<and> ucast (sd_comp_size seg) < sd_decomp_size seg
                            then ucast (sd_comp_size seg) else sd_decomp_size seg)
      in min (unat comp_data_size) (length buf - unat (sd_file_off seg)))"

text \<open>One iteration of the segment loop; \<open>None\<close>: the loop goes on.\<close>

definition map_segment ::
    "native_host \<Rightarrow> u8 list \<Rightarrow> u64 \<Rightarrow> bool \<Rightarrow> SegDesc \<Rightarrow> native \<times> NsoLoadInfo \<Rightarrow> load_end option \<times> native \<times> NsoLoadInfo" where
  "map_segment h buf base is_text seg = (\<lambda>(n, info).
     if sd_decomp_size seg = 0 then (None, n, info)
     else
       let guest_addr = base + sd_mem_off seg; map_size = AlignUp (sd_decomp_size seg) 0x1000 in
       if unat (sd_file_off seg) \<ge> length buf then (None, n, info)
       else
         let (r, m1) = MapPhysical (nh_vm h) (n_mem n) guest_addr map_size Perm_RW None; n1 = n\<lparr>n_mem := m1\<rparr> in
         if Failed r then (Some (Done r), n1, info)
         else case Pointer m1 guest_addr of
                None \<Rightarrow> (Some (Done OutOfMemory), n1, info)
              | Some dst \<Rightarrow>
                  (case DecompressLZ4 (get_bytes buf (unat (sd_file_off seg)) (source_size buf seg)) (unat (sd_decomp_size seg)) of
                     Inl e \<Rightarrow> (Some (Overrun e), n1, info)
                   | Inr out \<Rightarrow>
                       let n2 = n1\<lparr>n_mem := m1\<lparr>image := write_image (image m1) dst out\<rparr>\<rparr>;
                           n3 = (if is_text \<and> length out > 0
                                 then patch_code h dst (ucast (of_nat (min (length out) (unat (sd_decomp_size seg))) :: u32)) n2
                                 else n2)
                       in (None, n3, info\<lparr>nso_segments := nso_segments info @
                             [\<lparr>ns_guest_address = guest_addr, ns_size = sd_decomp_size seg, ns_compressed_size = 0,
                               ns_perm = sd_perm seg, ns_file_offset = sd_file_off seg\<rparr>]\<rparr>)))"

fun map_segments ::
    "native_host \<Rightarrow> u8 list \<Rightarrow> u64 \<Rightarrow> (bool \<times> SegDesc) list \<Rightarrow> native \<times> NsoLoadInfo \<Rightarrow> load_end option \<times> native \<times> NsoLoadInfo" where
  "map_segments h buf base [] s = (None, s)"
| "map_segments h buf base ((t, seg) # segs) s =
     (case map_segment h buf base t seg s of
        (Some e, s') \<Rightarrow> (Some e, s')
      | (None, s') \<Rightarrow> map_segments h buf base segs s')"

definition total_end :: "SegDesc list \<Rightarrow> u64" where
  "total_end segs = fold (\<lambda>seg e. max e (sd_mem_off seg + sd_decomp_size seg)) segs 0"

definition map_bss :: "native_host \<Rightarrow> NsoHeader \<Rightarrow> u64 \<Rightarrow> native \<times> NsoLoadInfo \<Rightarrow> load_end option \<times> native \<times> NsoLoadInfo" where
  "map_bss h hdr base = (\<lambda>(n, info).
     if nh_bss_size hdr > 0 then
       let bss_addr = base + total_end (nh_segs hdr);
           bss_map_size = AlignUp (ucast (nh_bss_size hdr)) 0x1000;
           (r, m1) = MapPhysical (nh_vm h) (n_mem n) bss_addr bss_map_size Perm_RW None
       in if Failed r then (Some (Done r), n\<lparr>n_mem := m1\<rparr>, info)
          else (None, n\<lparr>n_mem := memset_guest m1 bss_addr 0 bss_map_size\<rparr>,
                info\<lparr>nso_bss_address := bss_addr, nso_bss_size := ucast (nh_bss_size hdr)\<rparr>)
     else (None, n, info))"

definition hex_digit :: "u8 \<Rightarrow> char" where
  "hex_digit d = (''0123456789abcdef'') ! unat d"

definition hex_string :: "u8 list \<Rightarrow> string" where
  "hex_string bs = concat (map (\<lambda>b. [hex_digit (drop_bit 4 b), hex_digit (b AND 0xF)]) bs)"

definition DecompressAndMap ::
    "native_host \<Rightarrow> u8 list \<Rightarrow> NsoHeader \<Rightarrow> u64 \<Rightarrow> native \<times> NsoLoadInfo \<Rightarrow> load_end \<times> native \<times> NsoLoadInfo" where
  "DecompressAndMap h buf hdr base s =
     (case map_segments h buf base (zip [True, False, False] (nh_segs hdr)) s of
        (Some e, s1) \<Rightarrow> (e, s1)
      | (None, s1) \<Rightarrow>
          (case map_bss h hdr base s1 of
             (Some e, s2) \<Rightarrow> (e, s2)
           | (None, n, info) \<Rightarrow>
               (Done Success, n, info\<lparr>nso_entry_point := base, nso_base_address := base,
                  nso_mod_offset := nh_mod_offset hdr, nso_build_id := hex_string (nh_build_id hdr)\<rparr>)))"

definition nso_LoadFromBuffer ::
    "native_host \<Rightarrow> u8 list \<Rightarrow> u64 \<Rightarrow> native \<Rightarrow> load_end \<times> native \<times> NsoLoadInfo" where
  "nso_LoadFromBuffer h buf base n =
     (case nso_ParseHeader buf of
        None \<Rightarrow> (Done InvalidArgument, n, NsoLoadInfo_init)
      | Some hdr \<Rightarrow> DecompressAndMap h buf hdr base (n, NsoLoadInfo_init))"

section \<open>What mapping does to memory\<close>

text \<open>
  The host's contract: releasing a range and mapping fresh anonymous memory there zeroes the range and
  changes nothing else.
\<close>

definition page_host :: "host_vm \<Rightarrow> bool" where
  "page_host host \<longleftrightarrow> (\<forall>img a n img'.
     vm_map host (snd (vm_deallocate host (snd (vm_deallocate host img a n)) a n)) a n = Some img' \<longrightarrow> img' = fill_image img a n 0)"

lemma page_host_zero_fill: "page_host zero_fill_host"
  by (simp add: page_host_def zero_fill_host_def)

text \<open>The bytes of the host pages that a mapping of \<open>sz\<close> bytes at guest address \<open>a\<close> touches.\<close>

definition touches :: "memory \<Rightarrow> u64 \<Rightarrow> u64 \<Rightarrow> u64 \<Rightarrow> bool" where
  "touches m a sz x \<longleftrightarrow> x - host_page_start m a < host_map_size m a sz"

lemma touches_cong: "base_addr m = base_addr m' \<Longrightarrow> touches m = touches m'"
  by (intro ext) (simp add: touches_def host_page_start_def host_map_size_def)

lemma MapPhysical_image:
  assumes "page_host host" and "MapPhysical host m a sz perm None = (Success, m')"
  shows "image m' = (\<lambda>x. if touches m a sz x then 0 else image m x)" and "base_addr m' = base_addr m"
proof -
  let ?d = "\<lambda>img. snd (vm_deallocate host img (host_page_start m a) (host_map_size m a sz))"
  obtain img where img: "vm_map host (?d (?d (image m))) (host_page_start m a) (host_map_size m a sz) = Some img"
    and m': "image m' = img" "base_addr m' = base_addr m"
    using assms(2) by (auto simp: MapPhysical_def host_page_start_def host_map_size_def Let_def split: if_splits option.splits)
  have "img = fill_image (image m) (host_page_start m a) (host_map_size m a sz) 0"
    using assms(1) img by (simp add: page_host_def)
  then show "image m' = (\<lambda>x. if touches m a sz x then 0 else image m x)" and "base_addr m' = base_addr m"
    by (simp_all add: m' fill_image_def touches_def)
qed

lemma split_mask: "(p :: u64) = (p AND NOT (mask k)) + (p AND mask k)"
proof -
  have "(p AND NOT (mask k)) AND (p AND mask k) = 0" and "(p AND NOT (mask k)) OR (p AND mask k) = p"
    by (rule bit_word_eqI, auto simp: bit_simps)+
  then show ?thesis
    using word_plus_and_or [of "p AND NOT (mask k)" "p AND mask k"] by simp
qed

lemma touches_range:
  assumes "unat sz \<le> 2 ^ 33" and "x - (base_addr m + a) < sz"
  shows "touches m a sz x"
proof -
  let ?p = "base_addr m + a"
  let ?off = "?p AND mask 14"
  have off: "unat ?off < 2 ^ 14"
    unfolding unat_and_mask by simp
  have hp: "HOST_PAGE - 1 = mask 14"
    by (simp add: HOST_PAGE_def mask_numeral)
  have "?p = (?p AND NOT (mask 14)) + ?off"
    by (rule split_mask)
  then have start: "x - host_page_start m a = (x - ?p) + ?off"
    by (simp add: host_page_start_def hp algebra_simps)
  have s: "unat (x - ?p) + unat ?off < unat sz + unat ?off"
    using assms(2) by (simp add: word_less_nat_alt)
  have u: "unat (sz + ?off + mask 14) = unat sz + unat ?off + (2 ^ 14 - 1)"
    using assms(1) off by (simp add: unat_word_ariths unat_mask_lt)
  have "host_map_size m a sz = ((sz + ?off + mask 14) div HOST_PAGE) * HOST_PAGE"
    by (simp add: host_map_size_def hp [symmetric] add_diff_eq)
  moreover have "unat (((sz + ?off + mask 14) div HOST_PAGE) * HOST_PAGE) = (unat sz + unat ?off + (2 ^ 14 - 1)) div 2 ^ 14 * 2 ^ 14"
    using assms(1) off u by (simp add: unat_word_ariths unat_div HOST_PAGE_def)
  moreover have "unat sz + unat ?off \<le> (unat sz + unat ?off + (2 ^ 14 - 1)) div 2 ^ 14 * 2 ^ 14"
    using round_up_nat_bounds(1) [of "2 ^ 14" "unat sz + unat ?off"] by simp
  moreover have "unat (x - host_page_start m a) = unat (x - ?p) + unat ?off"
    using s assms(1) off unfolding start by (simp add: unat_word_ariths)
  ultimately show ?thesis
    using s by (simp add: touches_def word_less_nat_alt)
qed

section \<open>Segments in memory\<close>

definition segment_bytes :: "u8 list \<Rightarrow> SegDesc \<Rightarrow> lz4_error + u8 list" where
  "segment_bytes buf seg =
     DecompressLZ4 (get_bytes buf (unat (sd_file_off seg)) (source_size buf seg)) (unat (sd_decomp_size seg))"

definition seg_pages :: "memory \<Rightarrow> u64 \<Rightarrow> SegDesc \<Rightarrow> u64 \<Rightarrow> bool" where
  "seg_pages m base seg x \<longleftrightarrow> sd_decomp_size seg \<noteq> 0 \<and> touches m (base + sd_mem_off seg) (AlignUp (sd_decomp_size seg) 0x1000) x"

definition bss_pages :: "memory \<Rightarrow> u64 \<Rightarrow> NsoHeader \<Rightarrow> u64 \<Rightarrow> bool" where
  "bss_pages m base hdr x \<longleftrightarrow>
     nh_bss_size hdr > 0 \<and> touches m (base + total_end (nh_segs hdr)) (AlignUp (ucast (nh_bss_size hdr)) 0x1000) x"

lemma patch_code_base [simp]: "base_addr (n_mem (patch_code h code sz n)) = base_addr (n_mem n)"
  by (simp add: patch_code_def split: prod.split)

lemma map_segment_base:
  assumes "page_host (nh_vm h)" and "map_segment h buf base t seg (n, info) = (None, n', info')"
  shows "base_addr (n_mem n') = base_addr (n_mem n)"
  using assms(2) MapPhysical_image(2) [OF assms(1)]
  by (auto simp: map_segment_def Let_def split: if_splits prod.splits option.splits sum.splits)

lemma map_segment_image:
  assumes "page_host (nh_vm h)" and "map_segment h buf base False seg (n, info) = (None, n', info')"
    and "sd_decomp_size seg \<noteq> 0" and "unat (sd_file_off seg) < length buf"
  obtains out where "segment_bytes buf seg = Inr out"
    and "image (n_mem n') = write_image (\<lambda>x. if seg_pages (n_mem n) base seg x then 0 else image (n_mem n) x)
           (base_addr (n_mem n) + (base + sd_mem_off seg)) out"
proof -
  let ?a = "base + sd_mem_off seg" and ?sz = "AlignUp (sd_decomp_size seg) 0x1000"
  obtain m1 out where map: "MapPhysical (nh_vm h) (n_mem n) ?a ?sz Perm_RW None = (Success, m1)"
    and out: "segment_bytes buf seg = Inr out"
    and n': "image (n_mem n') = write_image (image m1) (base_addr m1 + ?a) out"
    using assms(2-) by (auto simp: map_segment_def segment_bytes_def Pointer_def Let_def split: if_splits prod.splits option.splits sum.splits)
  show thesis
    using that [OF out] n' MapPhysical_image [OF assms(1) map] assms(3) by (simp add: seg_pages_def)
qed

lemma AlignUp_page: "unat v \<le> 2 ^ 32 \<Longrightarrow> unat (v :: u64) \<le> unat (AlignUp v 0x1000) \<and> unat (AlignUp v 0x1000) \<le> 2 ^ 33"
  using AlignUp_bounds [of 12 v] by simp

lemma map_segment_frame:
  assumes "page_host (nh_vm h)" and "map_segment h buf base False seg (n, info) = (None, n', info')"
    and "\<not> seg_pages (n_mem n) base seg x" and "unat (sd_decomp_size seg) \<le> 2 ^ 32"
  shows "image (n_mem n') x = image (n_mem n) x"
proof (cases "sd_decomp_size seg \<noteq> 0 \<and> unat (sd_file_off seg) < length buf")
  case True
  then obtain out where out: "segment_bytes buf seg = Inr out"
    and img: "image (n_mem n') = write_image (\<lambda>x. if seg_pages (n_mem n) base seg x then 0 else image (n_mem n) x)
           (base_addr (n_mem n) + (base + sd_mem_off seg)) out"
    using True by (rule_tac map_segment_image [OF assms(1,2)]) simp_all
  have "length out \<le> unat (sd_decomp_size seg)"
    using out by (auto simp: segment_bytes_def intro: lz4_output_bound)
  then have "\<not> unat (x - (base_addr (n_mem n) + (base + sd_mem_off seg))) < length out"
    using touches_range [of "AlignUp (sd_decomp_size seg) 0x1000" x "n_mem n" "base + sd_mem_off seg"] AlignUp_page [OF assms(4)]
      assms(3) True by (fastforce simp: seg_pages_def word_less_nat_alt)
  then show ?thesis
    using assms(3) by (simp add: img write_image_def)
next
  case False
  then show ?thesis
    using assms(2) by (auto simp: map_segment_def Let_def not_less split: if_splits)
qed

lemma map_bss_frame:
  assumes "page_host (nh_vm h)" and "map_bss h hdr base (n, info) = (None, n', info')" and "\<not> bss_pages (n_mem n) base hdr x"
  shows "image (n_mem n') x = image (n_mem n) x"
proof (cases "nh_bss_size hdr > 0")
  case True
  let ?a = "base + total_end (nh_segs hdr)" and ?sz = "AlignUp (ucast (nh_bss_size hdr) :: u64) 0x1000"
  obtain m1 where map: "MapPhysical (nh_vm h) (n_mem n) ?a ?sz Perm_RW None = (Success, m1)"
    and n': "n_mem n' = memset_guest m1 ?a 0 ?sz"
    using assms(2) True by (auto simp: map_bss_def Let_def split: if_splits prod.splits)
  have "unat (nh_bss_size hdr) < 2 ^ LENGTH(32)"
    by (rule unsigned_less)
  then have "unat ?sz \<le> 2 ^ 33"
    using AlignUp_page [of "ucast (nh_bss_size hdr)"] by (simp add: unsigned_ucast_eq take_bit_nat_eq_self)
  then have "\<not> x - (base_addr (n_mem n) + ?a) < ?sz"
    using touches_range assms(3) True by (auto simp: bss_pages_def)
  then show ?thesis
    using MapPhysical_image [OF assms(1) map] assms(3) True n'
    by (auto simp: memset_guest_def Pointer_def fill_image_def bss_pages_def)
next
  case False
  then show ?thesis
    using assms(2) by (simp add: map_bss_def)
qed

lemma segment_not_success: "map_segment h buf base t seg s \<noteq> (Some (Done Success), s')"
  by (auto simp: map_segment_def Let_def split: if_splits prod.splits option.splits sum.splits)

lemma bss_not_success: "map_bss h hdr base s \<noteq> (Some (Done Success), s')"
  by (auto simp: map_bss_def Let_def split: if_splits prod.splits)

lemma DecompressAndMap_steps:
  assumes "page_host (nh_vm h)" and "DecompressAndMap h buf hdr base (n, info) = (Done Success, n', info')" and "nh_segs hdr = [t, r, d]"
  obtains n1 i1 n2 i2 n3 i3 i4 where "map_segment h buf base True t (n, info) = (None, n1, i1)"
    and "map_segment h buf base False r (n1, i1) = (None, n2, i2)" and "map_segment h buf base False d (n2, i2) = (None, n3, i3)"
    and "map_bss h hdr base (n3, i3) = (None, n', i4)"
    and "base_addr (n_mem n1) = base_addr (n_mem n)" "base_addr (n_mem n2) = base_addr (n_mem n)" "base_addr (n_mem n3) = base_addr (n_mem n)"
proof -
  obtain n1 i1 n2 i2 n3 i3 i4 where s: "map_segment h buf base True t (n, info) = (None, n1, i1)"
    "map_segment h buf base False r (n1, i1) = (None, n2, i2)" "map_segment h buf base False d (n2, i2) = (None, n3, i3)"
    "map_bss h hdr base (n3, i3) = (None, n', i4)"
    using assms(2,3) by (auto simp: DecompressAndMap_def segment_not_success bss_not_success split: prod.splits option.splits)
  then show thesis
    using that [OF s] map_segment_base [OF assms(1) s(1)] map_segment_base [OF assms(1) s(2)] map_segment_base [OF assms(1) s(3)]
    by simp
qed

text \<open>
  Property C27. Where the read-only segment ends up: after a successful load, the host pages of the segment hold its decompressed
  bytes at its address, as far as the data segment and the zeroed memory after it do not use the same pages,
  and zero everywhere else. In particular the end of the code segment is lost when it shares a 16 KiB host page
  with the read-only data, although the two are in different 4 KiB pages of the guest.
\<close>

theorem nso_rodata_image:
  assumes "page_host (nh_vm h)" and "nso_ParseHeader buf = Some hdr" and "nh_segs hdr = [t, r, d]"
    and "nso_LoadFromBuffer h buf base n = (Done Success, n', info)"
    and "sd_decomp_size r \<noteq> 0" and "unat (sd_file_off r) < length buf" and "unat (sd_decomp_size d) \<le> 2 ^ 32"
  shows "\<exists>out. segment_bytes buf r = Inr out \<and>
    (\<forall>x. seg_pages (n_mem n) base r x \<longrightarrow> \<not> seg_pages (n_mem n) base d x \<longrightarrow> \<not> bss_pages (n_mem n) base hdr x \<longrightarrow>
       image (n_mem n') x = (let k = unat (x - (base_addr (n_mem n) + (base + sd_mem_off r))) in if k < length out then out ! k else 0))"
proof -
  have "DecompressAndMap h buf hdr base (n, NsoLoadInfo_init) = (Done Success, n', info)"
    using assms(2,4) by (simp add: nso_LoadFromBuffer_def)
  then obtain n1 i1 n2 i2 n3 i3 i4 where r: "map_segment h buf base False r (n1, i1) = (None, n2, i2)"
    and d: "map_segment h buf base False d (n2, i2) = (None, n3, i3)" and b: "map_bss h hdr base (n3, i3) = (None, n', i4)"
    and base: "base_addr (n_mem n1) = base_addr (n_mem n)" "base_addr (n_mem n2) = base_addr (n_mem n)" "base_addr (n_mem n3) = base_addr (n_mem n)"
    by (rule DecompressAndMap_steps [OF assms(1) _ assms(3)])
  obtain out where out: "segment_bytes buf r = Inr out"
    and img: "image (n_mem n2) = write_image (\<lambda>x. if seg_pages (n_mem n1) base r x then 0 else image (n_mem n1) x)
           (base_addr (n_mem n1) + (base + sd_mem_off r)) out"
    by (rule map_segment_image [OF assms(1) r assms(5,6)])
  have pages: "seg_pages (n_mem n1) = seg_pages (n_mem n)" "seg_pages (n_mem n2) = seg_pages (n_mem n)" "bss_pages (n_mem n3) = bss_pages (n_mem n)"
    using touches_cong [OF base(1)] touches_cong [OF base(2)] touches_cong [OF base(3)]
    by (auto intro!: ext simp: seg_pages_def bss_pages_def)
  have "image (n_mem n') x = image (n_mem n2) x" if "\<not> seg_pages (n_mem n) base d x" "\<not> bss_pages (n_mem n) base hdr x" for x
    using map_segment_frame [OF assms(1) d _ assms(7), of x] map_bss_frame [OF assms(1) b, of x] that by (simp add: pages)
  then show ?thesis
    using out by (auto simp: img write_image_def base(1) pages Let_def)
qed

text \<open>
  A program whose last segment does not end on a page boundary and that needs zeroed memory can never be loaded: the
  loader maps that memory directly behind the segment, and \<open>MapPhysical\<close> refuses unaligned addresses.
\<close>

theorem nso_unaligned_bss_fails:
  assumes "nso_ParseHeader buf = Some hdr" and "nh_bss_size hdr > 0" and "\<not> IsAligned (base + total_end (nh_segs hdr)) PAGE_SIZE"
  shows "fst (nso_LoadFromBuffer h buf base n) \<noteq> Done Success"
proof -
  have bss: "\<exists>s. map_bss h hdr base s1 = (Some (Done InvalidArgument), s)" for s1
    using assms(2,3) by (cases s1) (auto simp: map_bss_def MapPhysical_def Let_def)
  have seg: "map_segments h buf base segs s \<noteq> (Some (Done Success), s')" for segs s s'
    by (induction h buf base segs s rule: map_segments.induct) (auto simp: segment_not_success split: prod.splits option.splits)
  obtain e s1 where s1: "map_segments h buf base (zip [True, False, False] (nh_segs hdr)) (n, NsoLoadInfo_init) = (e, s1)"
    by (rule prod.exhaust)
  show ?thesis
  proof (cases e)
    case None
    then show ?thesis
      using bss [of s1] s1 assms(1) by (auto simp: nso_LoadFromBuffer_def DecompressAndMap_def)
  next
    case (Some e')
    then have "e' \<noteq> Done Success"
      using seg s1 by blast
    then show ?thesis
      using Some s1 assms(1) by (simp add: nso_LoadFromBuffer_def DecompressAndMap_def)
  qed
qed

text \<open>A file with a read-only segment of four bytes, for the witnesses.\<close>

definition nso_file :: "SegDesc list \<Rightarrow> u32 \<Rightarrow> u8 list \<Rightarrow> u8 list" where
  "nso_file segs bss body =
     le_bytes 4 NSO0_MAGIC @ replicate 12 0 @
     concat (map (\<lambda>s. le_bytes 8 (sd_file_off s) @ le_bytes 8 (sd_mem_off s) @ le_bytes 8 (sd_decomp_size s)) segs) @
     le_bytes 4 bss @ replicate 8 0 @ concat (map (\<lambda>s. le_bytes 4 (sd_comp_size s)) segs) @ replicate 0x90 0 @ body"

definition plain_seg :: "u64 \<Rightarrow> u64 \<Rightarrow> u64 \<Rightarrow> Permission \<Rightarrow> SegDesc" where
  "plain_seg off addr sz perm = \<lparr>sd_file_off = off, sd_mem_off = addr, sd_decomp_size = sz, sd_comp_size = 0, sd_perm = perm\<rparr>"

definition small_segs :: "SegDesc list" where
  "small_segs = [plain_seg 0 0 0 Perm_RX, plain_seg 0x100 0 4 Perm_R, plain_seg 0 0 0 Perm_RW]"

definition sample_host :: native_host where
  "sample_host = \<lparr>nh_vm = zero_fill_host, nh_mmap = (\<lambda>_. True), nh_tls = 0\<rparr>"

definition sample_native :: native where
  "sample_native = \<lparr>n_mem = Memory_init (\<lambda>_. 7), n_tls = 0, n_cache = Map.empty\<rparr>"

lemma nso_file_parses:
  "map_option (\<lambda>h. (nh_segs h, nh_bss_size h)) (nso_ParseHeader (nso_file small_segs 0 [1, 2, 3, 4])) = Some (small_segs, 0)"
  "map_option (\<lambda>h. (nh_segs h, nh_bss_size h)) (nso_ParseHeader (nso_file small_segs 1 [1, 2, 3, 4])) = Some (small_segs, 1)"
  by code_simp+

lemma nso_file_loads: "fst (nso_LoadFromBuffer sample_host (nso_file small_segs 0 [1, 2, 3, 4]) 0x8000000 sample_native) = Done Success"
  by code_simp

theorem nso_unaligned_bss_fails_witness:
  "fst (nso_LoadFromBuffer sample_host (nso_file small_segs 1 [1, 2, 3, 4]) 0x8000000 sample_native) \<noteq> Done Success"
proof -
  obtain hdr where hdr: "nso_ParseHeader (nso_file small_segs 1 [1, 2, 3, 4]) = Some hdr" and "nh_segs hdr = small_segs" "nh_bss_size hdr = 1"
    using nso_file_parses(2) by auto
  moreover have "\<not> IsAligned (0x8000000 + total_end small_segs) PAGE_SIZE"
    by code_simp
  ultimately show ?thesis
    using nso_unaligned_bss_fails [OF hdr] by simp
qed

theorem nso_rodata_image_witness:
  "\<exists>n' info. nso_LoadFromBuffer sample_host (nso_file small_segs 0 [1, 2, 3, 4]) 0x8000000 sample_native = (Done Success, n', info) \<and>
     image (n_mem n') 0x308000002 = 3 \<and> image (n_mem n') 0x308000004 = 0"
proof -
  let ?f = "nso_file small_segs 0 [1, 2, 3, 4]"
  let ?r = "plain_seg 0x100 0 4 Perm_R" and ?d = "plain_seg 0 0 0 Perm_RW"
  obtain hdr where hdr: "nso_ParseHeader ?f = Some hdr" and segs: "nh_segs hdr = [plain_seg 0 0 0 Perm_RX, ?r, ?d]" and bss: "nh_bss_size hdr = 0"
    using nso_file_parses(1) by (auto simp: small_segs_def)
  obtain n' info where load: "nso_LoadFromBuffer sample_host ?f 0x8000000 sample_native = (Done Success, n', info)"
    using nso_file_loads by (cases "nso_LoadFromBuffer sample_host ?f 0x8000000 sample_native") auto
  have len: "length ?f = 0x104" and bytes: "segment_bytes ?f ?r = Inr [1, 2, 3, 4]"
    by code_simp+
  have p: "seg_pages (n_mem sample_native) 0x8000000 ?r 0x308000002" "seg_pages (n_mem sample_native) 0x8000000 ?r 0x308000004"
    by code_simp+
  have q: "base_addr (n_mem sample_native) = 0x300000000"
    by (simp add: sample_native_def Memory_init_def)
  have no: "\<not> seg_pages m b ?d x" "\<not> bss_pages m b hdr x" for m b x
    by (simp_all add: seg_pages_def bss_pages_def bss plain_seg_def)
  have "page_host (nh_vm sample_host)" "sd_decomp_size ?r \<noteq> 0" "unat (sd_file_off ?r) < length ?f" "unat (sd_decomp_size ?d) \<le> 2 ^ 32"
    by (simp_all add: sample_host_def page_host_zero_fill plain_seg_def len)
  from nso_rodata_image [OF this(1) hdr segs load this(2-4)] obtain out where out: "segment_bytes ?f ?r = Inr out"
    and img: "\<And>x. seg_pages (n_mem sample_native) 0x8000000 ?r x \<Longrightarrow> image (n_mem n') x =
      (let k = unat (x - (base_addr (n_mem sample_native) + (0x8000000 + sd_mem_off ?r))) in if k < length out then out ! k else 0)"
    using no by blast
  have "out = [1, 2, 3, 4]"
    using bytes out by simp
  then have "image (n_mem n') 0x308000002 = 3" "image (n_mem n') 0x308000004 = 0"
    using img [OF p(1)] img [OF p(2)] by (simp_all add: q plain_seg_def Let_def)
  then show ?thesis
    using load by blast
qed

end
