(* ===== verification/NroLoader.thy ===== *)
theory NroLoader
  imports NsoLoader
begin

unbundle bit_operations_syntax

text \<open>
  The NRO loader: \<^verbatim>\<open>src/src/loader/NroLoader.cpp\<close> and \<^verbatim>\<open>NroLoader.h\<close>.

  The file is a byte list. The loader does not check the segment fields of the header against the size of
  the file: \<open>wild\<close> is what lies in host memory around it, indexed by the distance from its first byte, so that a read
  outside the file has a value that the theorems know nothing about. A write outside the file is the outcome \<open>None\<close> of
  the patching functions. Two scans (for the module header and for the end of the dynamic section) use 32-bit
  positions that can wrap; they are partial functions, and that they end is proved for files below 4 GiB.
\<close>

section \<open>Constants and data\<close>

definition NRO0_MAGIC :: u32 where "NRO0_MAGIC = 0x304F524E"
definition MOD0_MAGIC :: u32 where "MOD0_MAGIC = 0x30444F4D"
definition NRO_TEXT_BASE :: u64 where "NRO_TEXT_BASE = 0x40000000"
definition R_AARCH64_ABS64 :: u64 where "R_AARCH64_ABS64 = 257"
definition R_AARCH64_GLOB_DAT :: u64 where "R_AARCH64_GLOB_DAT = 1025"
definition R_AARCH64_RELATIVE :: u64 where "R_AARCH64_RELATIVE = 1027"

record NroPackedHeader =
  text_start :: u32
  text_size :: u32
  rodata_start :: u32
  rodata_size :: u32
  data_start :: u32
  data_size :: u32
  nro_bss_size :: u32
  build_id :: "u8 list"

record NroSegment =
  seg_file_offset :: u64
  seg_size :: u64
  seg_guest_address :: u64
  seg_perm :: Permission

record NroLoadInfo =
  nro_segments :: "NroSegment list"
  nro_entry_point :: u64
  nro_info_bss_address :: u64
  nro_info_bss_size :: u64
  nro_build_id :: string

definition NroLoadInfo_init :: NroLoadInfo where
  "NroLoadInfo_init = \<lparr>nro_segments = [], nro_entry_point = 0, nro_info_bss_address = 0, nro_info_bss_size = 0, nro_build_id = []\<rparr>"

section \<open>Reading and writing the file\<close>

type_synonym wild = "u64 \<Rightarrow> u8"

definition file_bytes :: "wild \<Rightarrow> u8 list \<Rightarrow> u64 \<Rightarrow> nat \<Rightarrow> u8 list" where
  "file_bytes wild buf off n =
     map (\<lambda>i. let x = off + of_nat i in if unat x < length buf then buf ! unat x else wild x) [0..<n]"

definition Read32 :: "wild \<Rightarrow> u8 list \<Rightarrow> u64 \<Rightarrow> u32" where
  "Read32 wild buf off = (if off + 4 > of_nat (length buf) then 0 else of_le_bytes (file_bytes wild buf off 4))"

definition Read64 :: "wild \<Rightarrow> u8 list \<Rightarrow> u64 \<Rightarrow> u64" where
  "Read64 wild buf off = (if off + 8 > of_nat (length buf) then 0 else of_le_bytes (file_bytes wild buf off 8))"

definition write_file :: "u8 list \<Rightarrow> u64 \<Rightarrow> u8 list \<Rightarrow> u8 list option" where
  "write_file buf off bs = (if unat off + length bs \<le> length buf then Some (put_bytes buf (unat off) bs) else None)"

definition Write32 :: "u8 list \<Rightarrow> u64 \<Rightarrow> u32 \<Rightarrow> u8 list option" where
  "Write32 buf off v = (if off + 4 > of_nat (length buf) then Some buf else write_file buf off (le_bytes 4 v))"

definition Write64 :: "u8 list \<Rightarrow> u64 \<Rightarrow> u64 \<Rightarrow> u8 list option" where
  "Write64 buf off v = (if off + 8 > of_nat (length buf) then Some buf else write_file buf off (le_bytes 8 v))"

definition nro_ParseHeader :: "wild \<Rightarrow> u8 list \<Rightarrow> NroPackedHeader option" where
  "nro_ParseHeader wild buf =
     (if length buf < 0x100 then None
      else if length buf < 0x10 + 0x100 then None
      else
        let rd = (\<lambda>k. Read32 wild buf (0x10 + k)) in
        if rd 0 \<noteq> NRO0_MAGIC then None
        else Some \<lparr>text_start = rd 16, text_size = rd 20, rodata_start = rd 24, rodata_size = rd 28, data_start = rd 32,
                   data_size = rd 36, nro_bss_size = rd 40, build_id = file_bytes wild buf (0x10 + 0x30) 32\<rparr>)"

section \<open>Module header and dynamic section\<close>

partial_function (option) find_mod0 :: "wild \<Rightarrow> u8 list \<Rightarrow> u32 \<Rightarrow> u32 \<Rightarrow> u32 option" where
  "find_mod0 wild buf limit i =
     (if i + 0x20 \<le> limit \<and> unat (i + 0x20) \<le> length buf
      then if Read32 wild buf (ucast i) = MOD0_MAGIC then Some i else find_mod0 wild buf limit (i + 4)
      else Some 0)"

partial_function (option) count_dyns :: "wild \<Rightarrow> u8 list \<Rightarrow> u32 \<Rightarrow> nat \<Rightarrow> nat option" where
  "count_dyns wild buf dyn_abs k =
     (if unat (dyn_abs + of_nat (Suc k) * 16) \<le> length buf
      then if Read64 wild buf (ucast (dyn_abs + of_nat k * 16)) = 0 then Some k else count_dyns wild buf dyn_abs (Suc k)
      else Some k)"

record DynInfo =
  rela_off :: u64
  rela_sz :: u64
  rela_ent :: u64
  relr_off :: u64
  relr_sz :: u64
  relr_ent :: u64
  symtab_off :: u64
  strtab_off :: u64

definition DynInfo_init :: DynInfo where
  "DynInfo_init = \<lparr>rela_off = 0, rela_sz = 0, rela_ent = 0, relr_off = 0, relr_sz = 0, relr_ent = 0, symtab_off = 0, strtab_off = 0\<rparr>"

text \<open>The initialiser and the string table size are only logged and left out.\<close>

definition dyn_entry :: "u64 \<Rightarrow> u64 \<Rightarrow> DynInfo \<Rightarrow> DynInfo" where
  "dyn_entry tag val d =
     (if tag = 7 then d\<lparr>rela_off := val\<rparr>
      else if tag = 8 then d\<lparr>rela_sz := val\<rparr>
      else if tag = 9 then d\<lparr>rela_ent := val\<rparr>
      else if tag = 6 then d\<lparr>symtab_off := val\<rparr>
      else if tag = 5 then d\<lparr>strtab_off := val\<rparr>
      else if tag = 0x24 then d\<lparr>relr_off := val\<rparr>
      else if tag = 0x23 then d\<lparr>relr_sz := val\<rparr>
      else if tag = 0x25 then d\<lparr>relr_ent := val\<rparr>
      else d)"

definition parse_dynamic :: "wild \<Rightarrow> u8 list \<Rightarrow> u32 \<Rightarrow> u32 \<Rightarrow> DynInfo option" where
  "parse_dynamic wild buf mod0_off dyn_off =
     (let dyn_abs = mod0_off + dyn_off in
      if dyn_off > 0 \<and> unat (dyn_abs + 16) \<le> length buf
      then case count_dyns wild buf dyn_abs 0 of
             None \<Rightarrow> None
           | Some n \<Rightarrow>
               Some (fold (\<lambda>i. let e = dyn_abs + of_nat i * 16
                               in dyn_entry (Read64 wild buf (ucast e)) (Read64 wild buf (ucast (e + 8)))) [0..<n] DynInfo_init)
      else Some DynInfo_init)"

section \<open>Moving the data segment\<close>

record nro_addresses =
  l_text_addr :: u64
  l_text_page_sz :: u64
  l_rodata_addr :: u64
  l_rodata_page_sz :: u64
  l_data_orig_addr :: u64
  l_data_addr :: u64
  l_bss_addr :: u64
  l_bss_page_sz :: u64
  l_overlapping :: bool

definition nro_layout :: "NroPackedHeader \<Rightarrow> nro_addresses" where
  "nro_layout h =
     (let text_addr = NRO_TEXT_BASE;
          text_page_sz = AlignUp (ucast (text_size h)) HOST_PAGE;
          data_orig_addr = NRO_TEXT_BASE + ucast (data_start h);
          data_page_sz = AlignUp (ucast (data_size h)) HOST_PAGE;
          overlapping = (text_start h = 0 \<and> data_orig_addr < text_addr + text_page_sz \<and> data_orig_addr + ucast (data_size h) > text_addr);
          data_addr = (if overlapping then AlignUp text_addr HOST_PAGE + HOST_PAGE else data_orig_addr)
      in \<lparr>l_text_addr = text_addr, l_text_page_sz = text_page_sz, l_rodata_addr = NRO_TEXT_BASE + ucast (rodata_start h),
          l_rodata_page_sz = AlignUp (ucast (rodata_size h)) HOST_PAGE, l_data_orig_addr = data_orig_addr, l_data_addr = data_addr,
          l_bss_addr = AlignUp (data_addr + data_page_sz) HOST_PAGE, l_bss_page_sz = AlignUp (ucast (nro_bss_size h)) HOST_PAGE,
          l_overlapping = overlapping\<rparr>)"

definition add32_at :: "wild \<Rightarrow> u8 list \<Rightarrow> u32 \<Rightarrow> u64 \<Rightarrow> u8 list option" where
  "add32_at wild buf off shift = Write32 buf (ucast off) (Read32 wild buf (ucast off) + ucast shift)"

definition patch_mod0 :: "wild \<Rightarrow> u32 \<Rightarrow> u64 \<Rightarrow> u8 list \<Rightarrow> u8 list option" where
  "patch_mod0 wild mod0_off shift buf =
     (if mod0_off > 0 \<and> unat (mod0_off + 0x20) \<le> length buf
      then Option.bind (add32_at wild buf (mod0_off + 4) shift) (\<lambda>b1.
           Option.bind (add32_at wild b1 (mod0_off + 8) shift) (\<lambda>b2.
           add32_at wild b2 (mod0_off + 12) shift))
      else Some buf)"

definition moved_tag :: "u64 \<Rightarrow> bool" where
  "moved_tag tag \<longleftrightarrow> tag = 25 \<or> tag = 26 \<or> tag = 32 \<or> tag = 12 \<or> tag = 13"

fun patch_dynamic :: "wild \<Rightarrow> u32 \<Rightarrow> u64 \<Rightarrow> nat \<Rightarrow> u32 \<Rightarrow> u8 list \<Rightarrow> u8 list option" where
  "patch_dynamic wild dyn_abs shift 0 di buf = Some buf"
| "patch_dynamic wild dyn_abs shift (Suc k) di buf =
     (let entry_off = ucast (dyn_abs + di * 16) in
      if entry_off + 16 > of_nat (length buf) then Some buf
      else
        let tag = Read64 wild buf entry_off; val = Read64 wild buf (entry_off + 8) in
        if tag = 0 then Some buf
        else Option.bind (if moved_tag tag then Write64 buf (entry_off + 8) (val + shift) else Some buf)
               (patch_dynamic wild dyn_abs shift k (di + 1)))"

text \<open>One instruction of the scan over the code: the decoded page distance, the test and the new word.\<close>

definition is_adrp :: "u32 \<Rightarrow> bool" where
  "is_adrp inst \<longleftrightarrow> inst AND 0x9F000000 = 0x90000000"

definition adrp_imm :: "u32 \<Rightarrow> u64" where
  "adrp_imm inst =
     (let immlo = drop_bit 29 inst AND 3; immhi = drop_bit 5 inst AND 0x7FFFF; page_imm = (ucast (push_bit 2 immhi OR immlo) :: u64)
      in if page_imm AND 0x80000 \<noteq> 0 then page_imm OR NOT 0xFFFFF else page_imm)"

definition adrp_target :: "u64 \<Rightarrow> u32 \<Rightarrow> u64" where
  "adrp_target off inst = (off AND NOT 0xFFF) + adrp_imm inst * 0x1000"

definition adrp_encode :: "u32 \<Rightarrow> u64 \<Rightarrow> u32" where
  "adrp_encode inst page_imm =
     (let new_imm = page_imm AND 0x1FFFFF
      in (inst AND 0x9F00001F) OR push_bit 5 (ucast (drop_bit 2 new_imm AND 0x7FFFF)) OR push_bit 29 (ucast (new_imm AND 3)))"

definition adrp_patch :: "NroPackedHeader \<Rightarrow> u64 \<Rightarrow> u64 \<Rightarrow> u32 \<Rightarrow> u32" where
  "adrp_patch h shift off inst =
     (let data_vaddr_start = ucast (data_start h);
          data_vaddr_end = data_vaddr_start + ucast (data_size h) + ucast (nro_bss_size h) + HOST_PAGE;
          target_page = adrp_target off inst
      in if is_adrp inst \<and> target_page \<ge> data_vaddr_start \<and> target_page < data_vaddr_end
         then adrp_encode inst (adrp_imm inst + shift div 0x1000) else inst)"

text \<open>The scan over the code; the bound \<open>2 ^ 33\<close> holds of every offset it reaches and only serves termination.\<close>

function patch_adrps :: "wild \<Rightarrow> NroPackedHeader \<Rightarrow> u64 \<Rightarrow> u64 \<Rightarrow> u8 list \<Rightarrow> u8 list option" where
  "patch_adrps wild h shift off buf =
     (if off + 4 \<le> ucast (text_start h + text_size h) \<and> off < 2 ^ 33
      then let inst = Read32 wild buf off; new = adrp_patch h shift off inst
           in Option.bind (if new = inst then Some buf else Write32 buf off new) (patch_adrps wild h shift (off + 4))
      else Some buf)"
  by pat_completeness auto
termination
proof (relation "measure (\<lambda>(wild, h, shift, off, buf). 2 ^ 34 - unat off)")
  fix h :: NroPackedHeader and off :: u64
  assume "off + 4 \<le> ucast (text_start h + text_size h) \<and> off < 2 ^ 33"
  then have "unat off < 2 ^ 33"
    by (simp add: word_less_nat_alt)
  then show "((wild, h, shift, off + 4, b), wild, h, shift, off, buf) \<in> measure (\<lambda>(wild, h, shift, off, buf). 2 ^ 34 - unat off)"
    for wild shift b buf
    by (simp add: unat_word_ariths)
qed simp

fun patch_relr :: "wild \<Rightarrow> NroPackedHeader \<Rightarrow> DynInfo \<Rightarrow> u64 \<Rightarrow> nat \<Rightarrow> u64 \<Rightarrow> u8 list \<Rightarrow> u8 list option" where
  "patch_relr wild h d shift 0 ri buf = Some buf"
| "patch_relr wild h d shift (Suc k) ri buf =
     (let off = ucast (text_start h) + relr_off d + ri in
      if \<not> (ri < relr_sz d \<and> ri < 4096) then Some buf
      else if off + 8 > of_nat (length buf) then Some buf
      else
        let entry = Read64 wild buf off; page_addr = entry AND NOT 1;
            inside = (entry AND 1 = 0 \<and> page_addr \<ge> ucast (data_start h) \<and>
                      page_addr < ucast (data_start h) + ucast (data_size h) + 0x10000)
        in Option.bind (if inside then Write64 buf off (entry + shift) else Some buf)
             (patch_relr wild h d shift k (ri + (if relr_ent d = 0 then 8 else relr_ent d))))"

definition move_data :: "wild \<Rightarrow> NroPackedHeader \<Rightarrow> u32 \<Rightarrow> u32 \<Rightarrow> DynInfo \<Rightarrow> u8 list \<Rightarrow> u8 list option" where
  "move_data wild h mod0_off dyn_off d buf =
     (let l = nro_layout h; shift = l_data_addr l - l_data_orig_addr l in
      if l_overlapping l
      then Option.bind (patch_mod0 wild mod0_off shift buf) (\<lambda>b1.
           Option.bind (if dyn_off > 0 then patch_dynamic wild (mod0_off + dyn_off) shift 256 0 b1 else Some b1) (\<lambda>b2.
           Option.bind (patch_adrps wild h shift (ucast (text_start h)) b2) (\<lambda>b3.
           if relr_off d > 0 \<and> relr_sz d > 0 then patch_relr wild h d shift 4096 0 b3 else Some b3)))
      else Some buf)"

section \<open>Mapping\<close>

text \<open>\<^verbatim>\<open>std::memcpy\<close> from the file to host memory.\<close>

definition copy_file :: "wild \<Rightarrow> u8 list \<Rightarrow> u64 \<Rightarrow> u32 \<Rightarrow> u32 \<Rightarrow> image \<Rightarrow> image" where
  "copy_file wild buf dst off sz img = (if sz > 0 then write_image img dst (file_bytes wild buf (ucast off) (unat sz)) else img)"

definition at_least_page :: "u64 \<Rightarrow> u64" where
  "at_least_page sz = (if sz < HOST_PAGE then HOST_PAGE else sz)"

definition map_split :: "host_vm \<Rightarrow> wild \<Rightarrow> u8 list \<Rightarrow> NroPackedHeader \<Rightarrow> memory \<Rightarrow> Result \<times> memory" where
  "map_split host wild buf h m =
     (let l = nro_layout h;
          text_region_sz = at_least_page (AlignUp (ucast (text_size h + rodata_size h)) HOST_PAGE);
          (r, m1) = MapPhysical host m (l_text_addr l) text_region_sz Perm_RW None
      in if Failed r then (r, m1)
         else
           let p = base_addr m1 + l_text_addr l;
               m2 = m1\<lparr>image := copy_file wild buf (p + (l_rodata_addr l - l_text_addr l)) (rodata_start h) (rodata_size h)
                       (copy_file wild buf p (text_start h) (text_size h) (fill_image (image m1) p text_region_sz 0))\<rparr>;
               data_region_sz = at_least_page (AlignUp (ucast (data_size h + nro_bss_size h)) HOST_PAGE);
               (r2, m3) = MapPhysical host m2 (l_data_addr l) data_region_sz Perm_RW None
           in if Failed r2 then (r2, m3)
              else case Pointer m3 (l_data_addr l) of
                     None \<Rightarrow> (Success, m3)
                   | Some q \<Rightarrow> (Success, m3\<lparr>image := copy_file wild buf q (data_start h) (data_size h)
                                              (fill_image (image m3) q data_region_sz 0)\<rparr>))"

definition map_whole :: "host_vm \<Rightarrow> wild \<Rightarrow> u8 list \<Rightarrow> NroPackedHeader \<Rightarrow> memory \<Rightarrow> Result \<times> memory" where
  "map_whole host wild buf h m =
     (let l = nro_layout h;
          whole_sz = AlignUp (l_bss_addr l + l_bss_page_sz l) HOST_PAGE - l_text_addr l;
          (r, m1) = MapPhysical host m (l_text_addr l) whole_sz Perm_RW None
      in if Failed r then (r, m1)
         else
           let p = base_addr m1 + l_text_addr l
           in (Success, m1\<lparr>image := copy_file wild buf (p + (l_data_addr l - l_text_addr l)) (data_start h) (data_size h)
                 (copy_file wild buf (p + (l_rodata_addr l - l_text_addr l)) (rodata_start h) (rodata_size h)
                 (copy_file wild buf p (text_start h) (text_size h) (fill_image (image m1) p whole_sz 0)))\<rparr>))"

section \<open>Relocation\<close>

definition relocate_one :: "wild \<Rightarrow> u8 list \<Rightarrow> NroPackedHeader \<Rightarrow> DynInfo \<Rightarrow> u64 \<Rightarrow> memory \<Rightarrow> memory" where
  "relocate_one wild buf h d ro m =
     (let r_off = Read64 wild buf ro; r_info = Read64 wild buf (ro + 8); r_add = Read64 wild buf (ro + 16);
          type = r_info AND 0xFFFFFFFF; sym = drop_bit 32 r_info;
          sym_file_off = (if symtab_off d \<noteq> 0 then ucast (text_start h) + symtab_off d else 0);
          str_file_off = (if strtab_off d \<noteq> 0 then ucast (text_start h) + strtab_off d else 0);
          nsyms = (if sym_file_off \<noteq> 0 then (str_file_off - sym_file_off) div 24 else 0);
          patch_addr = NRO_TEXT_BASE + r_off
      in if type = R_AARCH64_RELATIVE then try_write m patch_addr (le_bytes 8 (base_addr m + NRO_TEXT_BASE + r_add))
         else if type = R_AARCH64_ABS64 \<or> type = R_AARCH64_GLOB_DAT then
           if sym_file_off \<noteq> 0 \<and> sym < nsyms then
             let s_val = base_addr m + NRO_TEXT_BASE + Read64 wild buf (sym_file_off + sym * 24 + 8)
             in try_write m patch_addr (le_bytes 8 (if type = R_AARCH64_ABS64 then s_val + r_add else s_val))
           else m
         else m)"

fun relocate_loop :: "wild \<Rightarrow> u8 list \<Rightarrow> NroPackedHeader \<Rightarrow> DynInfo \<Rightarrow> nat \<Rightarrow> u64 \<Rightarrow> memory \<Rightarrow> memory" where
  "relocate_loop wild buf h d 0 ro m = m"
| "relocate_loop wild buf h d (Suc k) ro m =
     (if ro + 24 > of_nat (length buf) then m
      else relocate_loop wild buf h d k (ro + rela_ent d) (relocate_one wild buf h d ro m))"

definition relocate :: "wild \<Rightarrow> u8 list \<Rightarrow> NroPackedHeader \<Rightarrow> DynInfo \<Rightarrow> memory \<Rightarrow> memory" where
  "relocate wild buf h d m =
     (if rela_off d > 0 \<and> rela_sz d > 0 \<and> rela_ent d \<ge> 24
      then relocate_loop wild buf h d (min (unat (rela_sz d div rela_ent d)) 100000) (ucast (text_start h) + rela_off d) m
      else m)"

section \<open>Patches of known programs\<close>

definition NOP_INST :: u32 where "NOP_INST = 0xD503201F"

definition patch_crt0 :: "NroPackedHeader \<Rightarrow> memory \<Rightarrow> memory" where
  "patch_crt0 h m =
     (let a = base_addr m + NRO_TEXT_BASE + 0xD8 in
      if text_start h = 0 \<and> get32 (image m) a AND 0xFC000000 = 0x94000000
      then m\<lparr>image := put32 a NOP_INST (image m)\<rparr> else m)"

definition patch_hello :: "NroPackedHeader \<Rightarrow> memory \<Rightarrow> memory" where
  "patch_hello h m =
     (if text_size h > 0x400000 then
        let tp = base_addr m + NRO_TEXT_BASE;
            p_ret = tp + ucast (0x44bb28 - text_start h); pa = tp + ucast (0x44b5a8 - text_start h); pb = tp + ucast (0x44b5ac - text_start h);
            i1 = (if get32 (image m) p_ret = 0x52800020 then put32 p_ret 0x52800000 (image m) else image m);
            i2 = (if get32 i1 pb AND 0xFC000000 = 0x14000000 then put32 pb 0xD65F03C0 (put32 pa 0x52800000 i1) else i1);
            m2 = m\<lparr>image := i2\<rparr>;
            nop_addr = NRO_TEXT_BASE + 0x45655c; nop_val = read_u32_or 0 m2 nop_addr;
            m3 = (if nop_val AND 0xFE000000 = 0x34000000 \<or> nop_val AND 0xFE000000 = 0x35000000
                  then try_write m2 nop_addr (le_bytes 4 NOP_INST) else m2)
        in if data_size h > 0x4000 then
             let ptr_loc = tp + ucast (data_start h - text_start h) + 0x7BD0;
                 bss_rel = (NRO_TEXT_BASE + ucast (text_size h) + ucast (rodata_size h) + ucast (data_size h) + 0xFFF) AND NOT 0xFFF;
                 struct_addr = bss_rel + 0x100
             in m3\<lparr>image := write_image (put32 (tp + (struct_addr - NRO_TEXT_BASE)) 8 (image m3)) ptr_loc (le_bytes 8 struct_addr)\<rparr>
           else m3
      else m)"

section \<open>Loading\<close>

definition nro_segment_list :: "NroPackedHeader \<Rightarrow> NroSegment list" where
  "nro_segment_list h =
     (let l = nro_layout h;
          seg = (\<lambda>off sz a p. if sz > (0 :: u32) then [\<lparr>seg_file_offset = ucast (off :: u32), seg_size = ucast sz, seg_guest_address = a, seg_perm = p\<rparr>] else [])
      in seg (text_start h) (text_size h) (l_text_addr l) Perm_RX @ seg (rodata_start h) (rodata_size h) (l_rodata_addr l) Perm_R @
         seg (data_start h) (data_size h) (l_data_addr l) Perm_RW)"

datatype nro_end = NroDone Result | FileOverrun

definition nro_map :: "native_host \<Rightarrow> wild \<Rightarrow> u8 list \<Rightarrow> NroPackedHeader \<Rightarrow> DynInfo \<Rightarrow> native \<Rightarrow> NroLoadInfo \<Rightarrow> Result \<times> native \<times> NroLoadInfo" where
  "nro_map nh wild buf h d n info =
     (let l = nro_layout h;
          (r, m1) = (if l_overlapping l \<and> l_data_addr l \<noteq> l_data_orig_addr l then map_split (nh_vm nh) wild buf h (n_mem n)
                     else map_whole (nh_vm nh) wild buf h (n_mem n))
      in if Failed r then (r, n\<lparr>n_mem := m1\<rparr>, info)
         else
           let n2 = patch_code nh (base_addr m1 + l_text_addr l) (ucast (text_size h)) (n\<lparr>n_mem := m1\<rparr>);
               m3 = patch_hello h (patch_crt0 h (relocate wild buf h d (n_mem n2)))
           in (Success, n2\<lparr>n_mem := m3\<rparr>,
               info\<lparr>nro_info_bss_address := l_bss_addr l, nro_info_bss_size := ucast (nro_bss_size h),
                    nro_segments := nro_segment_list h, nro_entry_point := l_text_addr l\<rparr>))"

definition nro_LoadFromBuffer ::
    "native_host \<Rightarrow> wild \<Rightarrow> u8 list \<Rightarrow> native \<Rightarrow> (nro_end \<times> native \<times> NroLoadInfo) option" where
  "nro_LoadFromBuffer nh wild buf n =
     (case nro_ParseHeader wild buf of
        None \<Rightarrow> Some (NroDone InvalidArgument, n, NroLoadInfo_init)
      | Some h \<Rightarrow>
          let info = NroLoadInfo_init\<lparr>nro_build_id := hex_string (build_id h)\<rparr> in
          Option.bind (find_mod0 wild buf (text_start h + text_size h) (text_start h)) (\<lambda>mod0_off.
            let dyn_off = (if mod0_off > 0 then Read32 wild buf (ucast (mod0_off + 4)) else 0) in
            Option.bind (parse_dynamic wild buf mod0_off dyn_off) (\<lambda>d.
              case move_data wild h mod0_off dyn_off d buf of
                None \<Rightarrow> Some (FileOverrun, n, info)
              | Some buf' \<Rightarrow>
                  let (r, n', info') = nro_map nh wild buf' h d n info in Some (NroDone r, n', info'))))"

section \<open>The scans end\<close>

lemma find_mod0_ends:
  assumes "length buf \<le> 0xFFFFFFC0"
  shows "\<exists>i'. find_mod0 wild buf limit i = Some i'"
proof (induction "if unat i + 0x20 < 2 ^ 32 then 2 ^ 32 - unat i else 2 ^ 34 - unat i" arbitrary: i rule: less_induct)
  case less
  show ?case
  proof (cases "i + 0x20 \<le> limit \<and> unat (i + 0x20) \<le> length buf \<and> Read32 wild buf (ucast i) \<noteq> MOD0_MAGIC")
    case True
    have i: "unat i < 2 ^ 32"
      by (rule unat_u32_less)
    have "(if unat (i + 4) + 0x20 < 2 ^ 32 then 2 ^ 32 - unat (i + 4) else 2 ^ 34 - unat (i + 4)) <
        (if unat i + 0x20 < 2 ^ 32 then 2 ^ 32 - unat i else 2 ^ 34 - unat (i :: u32) :: nat)"
    proof (cases "unat i + 0x20 < 2 ^ 32")
      case small: True
      then have "unat (i + 0x20) = unat i + 0x20" "unat (i + 4) = unat i + 4"
        by (simp_all add: unat_word_ariths)
      with True assms small show ?thesis
        by auto
    next
      case False
      then have "unat (i + 4) = unat i + 4 \<or> unat (i + 4) < 4"
        using i by (auto simp: unat_word_ariths mod_if)
      with False i show ?thesis
        by auto
    qed
    from less [OF this] show ?thesis
      using True by (simp add: find_mod0.simps [of wild buf limit i])
  next
    case False
    then show ?thesis
      by (auto simp: find_mod0.simps [of wild buf limit i])
  qed
qed

lemma Read64_beyond: "length buf \<le> 0xFFFFFFC0 \<Longrightarrow> 0xFFFFFFF0 \<le> unat (e :: u32) \<Longrightarrow> Read64 wild buf (ucast e) = 0"
proof -
  assume a: "length buf \<le> 0xFFFFFFC0" "0xFFFFFFF0 \<le> unat e"
  have "unat e < 2 ^ 32"
    by (rule unat_u32_less)
  then have "unat ((ucast e :: u64) + 8) = unat e + 8"
    by (simp add: unat_word_ariths unsigned_ucast_eq take_bit_nat_eq_self)
  moreover have "unat (of_nat (length buf) :: u64) = length buf"
    using a by (simp add: unat_of_nat)
  ultimately have "(of_nat (length buf) :: u64) < ucast e + 8"
    using a by (simp add: word_less_nat_alt)
  then show ?thesis
    by (simp add: Read64_def)
qed

lemma count_dyns_ends:
  assumes "length buf \<le> 0xFFFFFFC0"
  shows "\<exists>n. count_dyns wild buf dyn_abs k = Some n"
proof (induction "2 ^ 32 - unat (dyn_abs + of_nat k * 16)" arbitrary: k rule: less_induct)
  case less
  let ?e = "dyn_abs + of_nat k * 16"
  have e: "dyn_abs + of_nat (Suc k) * 16 = ?e + 16"
    by (simp add: algebra_simps)
  show ?case
  proof (cases "unat (?e + 16) \<le> length buf \<and> Read64 wild buf (ucast ?e) \<noteq> 0")
    case True
    then have "unat ?e < 0xFFFFFFF0"
      using Read64_beyond [OF assms, of ?e wild] by (metis not_le)
    then have "unat (?e + 16) = unat ?e + 16"
      by (simp add: unat_word_ariths)
    with True assms have "2 ^ 32 - unat (dyn_abs + of_nat (Suc k) * 16) < 2 ^ 32 - unat ?e"
      unfolding e by (intro diff_less_mono2) auto
    from less [OF this] show ?thesis
      using True by (simp add: count_dyns.simps [of wild buf dyn_abs k] e del: of_nat_Suc)
  next
    case False
    then show ?thesis
      by (auto simp: count_dyns.simps [of wild buf dyn_abs k] e simp del: of_nat_Suc)
  qed
qed

lemma parse_dynamic_ends:
  assumes "length buf \<le> 0xFFFFFFC0"
  shows "\<exists>d. parse_dynamic wild buf mod0_off dyn_off = Some d"
  using count_dyns_ends [OF assms, of wild "mod0_off + dyn_off" 0] by (auto simp: parse_dynamic_def Let_def)


section \<open>Moving page-relative addresses\<close>

text \<open>The architecture's reading of \<open>ADRP\<close>: the 21-bit field is a signed number of pages.\<close>

definition adrp_field :: "u32 \<Rightarrow> u64" where
  "adrp_field inst = ucast (push_bit 2 (drop_bit 5 inst AND 0x7FFFF) OR (drop_bit 29 inst AND 3))"

definition arch_adrp :: "u64 \<Rightarrow> u32 \<Rightarrow> u64" where
  "arch_adrp off inst = (off AND NOT 0xFFF) + signed_take_bit 20 (adrp_field inst) * 0x1000"

lemma and_consts:
  "x AND 0x7FFFF = take_bit 19 (x :: u32)" "x AND 3 = take_bit 2 (x :: u32)" "y AND 0x1FFFFF = take_bit 21 (y :: u64)"
  "y AND 3 = take_bit 2 (y :: u64)" "y AND 0x7FFFF = take_bit 19 (y :: u64)" "(0xFFFFF :: u64) = mask 20"
  by (simp_all add: take_bit_eq_mask mask_numeral)

lemma bit_adrp_field: "bit (adrp_field inst) n \<longleftrightarrow> n < 21 \<and> (if n < 2 then bit inst (n + 29) else bit inst (n + 3))"
proof -
  have "Suc (Suc (n - 2)) = n" "3 + n = n + 3" if "2 \<le> n"
    using that by linarith+
  moreover have "5 + (n - 2) = n + 3" if "2 \<le> n"
    using that by linarith
  ultimately show ?thesis
    unfolding adrp_field_def and_consts by (auto simp: bit_simps not_less add.commute)
qed

lemma adrp_imm_near:
  assumes "bit (adrp_field inst) 19 = bit (adrp_field inst) 20"
  shows "adrp_imm inst = signed_take_bit 20 (adrp_field inst)"
proof -
  let ?f = "adrp_field inst"
  have b: "?f AND 0x80000 \<noteq> 0 \<longleftrightarrow> bit ?f 19"
    using bit_iff_and_push_bit_not_eq_0 [of ?f 19] by simp
  have "adrp_imm inst = (if bit ?f 19 then ?f OR NOT 0xFFFFF else ?f)"
    unfolding b [symmetric] by (simp add: adrp_imm_def adrp_field_def Let_def)
  also have "\<dots> = signed_take_bit 20 ?f"
  proof (rule bit_word_eqI)
    fix n assume "n < LENGTH(64)"
    moreover have "bit ?f n \<Longrightarrow> n < 21"
      by (simp add: bit_adrp_field)
    moreover have "bit ?f n = bit ?f 20" if "20 \<le> n" "n < 21"
    proof -
      have "n = 20"
        using that by linarith
      then show ?thesis
        by simp
    qed
    ultimately show "bit (if bit ?f 19 then ?f OR NOT 0xFFFFF else ?f) n = bit (signed_take_bit 20 ?f) n"
      unfolding and_consts using assms by (auto simp: bit_simps min_def)
  qed
  finally show ?thesis .
qed

lemma adrp_consts:
  "(0x9F00001F :: u32) = NOT (mask 31) OR push_bit 24 (mask 5) OR mask 5"
  "(0x9F000000 :: u32) = NOT (mask 31) OR push_bit 24 (mask 5)" "(0x1F :: u32) = mask 5"
  by (simp_all add: mask_numeral)

lemma adrp_encode_keeps:
  "adrp_encode inst imm AND 0x9F000000 = inst AND 0x9F000000" "adrp_encode inst imm AND 0x1F = inst AND 0x1F"
  unfolding adrp_encode_def and_consts adrp_consts Let_def by (rule bit_word_eqI, auto simp: bit_simps)+

lemma adrp_field_encode: "adrp_field (adrp_encode inst imm) = take_bit 21 imm"
proof (rule bit_word_eqI)
  fix n assume "n < LENGTH(64)"
  have "Suc (Suc (n - 2)) = n" "n + 3 - 5 = n - 2" if "2 \<le> n"
    using that by linarith+
  then show "bit (adrp_field (adrp_encode inst imm)) n = bit (take_bit 21 imm) n"
    unfolding bit_adrp_field adrp_encode_def and_consts adrp_consts Let_def by (auto simp: bit_simps)
qed

lemma pages_of_shift: "s * 0x1000 div 0x1000 = take_bit 52 (s :: u64)"
proof -
  have "s * 0x1000 div 0x1000 = drop_bit 12 (push_bit 12 s)"
    by (simp add: push_bit_eq_mult drop_bit_eq_div)
  also have "\<dots> = take_bit 52 s"
    by (rule bit_word_eqI) (auto simp: bit_simps)
  finally show ?thesis .
qed

lemma add_low_bits: "take_bit 21 (a + take_bit 52 b) = take_bit 21 (a + b :: u64)"
proof -
  have "take_bit 21 (uint a + take_bit 52 (uint b)) = take_bit 21 (uint a + uint b)"
    using take_bit_add [of 21 "uint a" "take_bit 52 (uint b)"] take_bit_add [of 21 "uint a" "uint b"] by simp
  then show ?thesis
    by (simp only: word_uint_eq_iff unsigned_take_bit_eq uint_word_ariths flip: take_bit_eq_mod)
      (simp add: take_bit_eq_mod mod_mod_cancel)
qed

lemma ucast_as_int: "ucast (w :: u32) = (word_of_int (uint w) :: u64)"
  by simp

lemma text_below: "ucast (w :: u32) < (0x100000000 :: u64)"
  using unsigned_less [of w, where 'a = nat] by (simp add: word_less_nat_alt unsigned_ucast_eq take_bit_nat_eq_self)

lemma uint_of_int: "0 \<le> k \<Longrightarrow> k < 2 ^ 64 \<Longrightarrow> uint (word_of_int k :: u64) = k"
  by (simp only: uint_word_of_int_eq) (simp add: take_bit_int_eq_self)

lemma page_number:
  "off < 0x100000000 \<Longrightarrow> \<exists>p. off AND NOT 0xFFF = (word_of_int (p * 0x1000) :: u64) \<and> 0 \<le> p \<and> p < (2 ^ 20 :: int)"
proof -
  assume "off < 0x100000000"
  then have "uint off < 0x100000000"
    by (simp add: word_less_def)
  moreover have "off AND NOT 0xFFF = word_of_int (uint off div 0x1000 * 0x1000)"
  proof -
    have m: "(0xFFF :: u64) = mask 12"
      by (simp add: mask_numeral)
    have "off AND NOT 0xFFF = push_bit 12 (drop_bit 12 off)"
      unfolding m by (rule bit_word_eqI) (auto simp: bit_simps)
    also have "\<dots> = word_of_int (push_bit 12 (drop_bit 12 (uint off)))"
      by (rule bit_word_eqI) (auto simp: bit_simps)
    finally show ?thesis
      by (simp add: push_bit_eq_mult drop_bit_eq_div)
  qed
  ultimately show ?thesis
    by (intro exI [of _ "uint off div 0x1000"]) (auto simp: pos_imp_zdiv_nonneg_iff)
qed

lemma moved_shift:
  "l_overlapping (nro_layout h) \<Longrightarrow> l_data_addr (nro_layout h) - l_data_orig_addr (nro_layout h) = 0x4000 - ucast (data_start h)"
  by (simp add: nro_layout_def Let_def AlignUp_def NRO_TEXT_BASE_def HOST_PAGE_def)

lemma adrp_patch_moves:
  assumes "is_adrp inst" and near: "bit (adrp_field inst) 19 = bit (adrp_field inst) 20"
    and "ucast (data_start h) \<le> arch_adrp off inst"
    and "arch_adrp off inst < ucast (data_start h) + ucast (data_size h) + ucast (nro_bss_size h) + HOST_PAGE"
    and shift: "shift = s * 0x1000"
    and fit: "signed_take_bit 20 (signed_take_bit 20 (adrp_field inst) + s) = signed_take_bit 20 (adrp_field inst) + s"
  shows "is_adrp (adrp_patch h shift off inst) \<and> adrp_patch h shift off inst AND 0x1F = inst AND 0x1F \<and>
    arch_adrp off (adrp_patch h shift off inst) = arch_adrp off inst + shift"
proof (intro conjI)
  have imm: "adrp_imm inst = signed_take_bit 20 (adrp_field inst)"
    by (rule adrp_imm_near [OF near])
  then have "adrp_target off inst = arch_adrp off inst"
    by (simp add: adrp_target_def arch_adrp_def)
  then have p: "adrp_patch h shift off inst = adrp_encode inst (adrp_imm inst + shift div 0x1000)"
    using assms(1,3,4) by (simp add: adrp_patch_def Let_def)
  show "is_adrp (adrp_patch h shift off inst)" and "adrp_patch h shift off inst AND 0x1F = inst AND 0x1F"
    using assms(1) by (simp_all add: p is_adrp_def adrp_encode_keeps)
  have low: "signed_take_bit 20 (take_bit 21 x) = signed_take_bit 20 x" for x :: u64
    by (rule bit_word_eqI) (auto simp: bit_simps min_def)
  have "shift div 0x1000 = take_bit 52 s"
    unfolding shift by (rule pages_of_shift)
  then have "take_bit 21 (adrp_imm inst + shift div 0x1000) = take_bit 21 (adrp_imm inst + s)"
    by (simp add: add_low_bits)
  then have "signed_take_bit 20 (adrp_field (adrp_patch h shift off inst)) = signed_take_bit 20 (adrp_field inst) + s"
    using fit by (metis p adrp_field_encode imm low)
  then show "arch_adrp off (adrp_patch h shift off inst) = arch_adrp off inst + shift"
    by (simp add: arch_adrp_def shift algebra_simps)
qed

text \<open>Pages as integers: a distance between two pages below 4 GiB fits the signed 21-bit field.\<close>

lemma signed_take_bit_of_int: "signed_take_bit 20 (word_of_int k :: u64) = word_of_int (signed_take_bit 20 k)"
  by (rule bit_word_eqI) (auto simp: bit_simps min_def)

lemma field_of_int: "\<exists>x. signed_take_bit 20 (w :: u64) = word_of_int x \<and> - (2 ^ 20) \<le> x \<and> x < (2 ^ 20 :: int)"
  using signed_take_bit_of_int [of "uint w"] signed_take_bit_int_greater_eq_minus_exp [of 20 "uint w"]
    signed_take_bit_int_less_exp [of 20 "uint w"] by (intro exI [of _ "signed_take_bit 20 (uint w)"]) simp

lemma shifted_in_range: "(0 :: int) \<le> p \<Longrightarrow> - (2 ^ 20) \<le> x \<Longrightarrow> \<not> 0 \<le> p + x \<Longrightarrow>
    0 \<le> (p + x) * 0x1000 + 2 ^ 64 \<and> (p + x) * 0x1000 + 2 ^ 64 < 2 ^ 64"
  by simp

lemma moved_distance_fits:
  fixes p x d n :: int
  assumes "0 \<le> p" "p < 2 ^ 20" and "0 \<le> d" "d < 2 ^ 20" and "- (2 ^ 20) \<le> x" "x < 2 ^ 20" and "0 \<le> n" "n + 0x4000 \<le> 2 ^ 32"
    and lo: "word_of_int (d * 0x1000) \<le> (word_of_int ((p + x) * 0x1000) :: u64)"
    and hi: "word_of_int ((p + x) * 0x1000) < (word_of_int (d * 0x1000 + n) :: u64)"
  shows "- (2 ^ 20) \<le> x + (4 - d) \<and> x + (4 - d) < 2 ^ 20"
proof -
  have ud: "uint (word_of_int (d * 0x1000) :: u64) = d * 0x1000" "uint (word_of_int (d * 0x1000 + n) :: u64) = d * 0x1000 + n"
    using assms by (intro uint_of_int; simp)+
  have "0 \<le> p + x"
  proof (rule ccontr)
    assume "\<not> 0 \<le> p + x"
    moreover have "(word_of_int ((p + x) * 0x1000) :: u64) = word_of_int ((p + x) * 0x1000 + 2 ^ 64)"
      by (simp add: word_of_int_eq_iff take_bit_eq_mod)
    ultimately have "uint (word_of_int ((p + x) * 0x1000) :: u64) = (p + x) * 0x1000 + 2 ^ 64"
      using assms(1,5) uint_of_int [of "(p + x) * 0x1000 + 2 ^ 64"] by (metis shifted_in_range)
    then show False
      using hi assms unfolding word_less_def ud by simp
  qed
  then have "uint (word_of_int ((p + x) * 0x1000) :: u64) = (p + x) * 0x1000"
    using assms by (intro uint_of_int) simp_all
  then have "d \<le> p + x" "(p + x) * 0x1000 < d * 0x1000 + n"
    using lo hi unfolding word_less_def word_le_def ud by simp_all
  then show ?thesis
    using assms by simp
qed

text \<open>
  Property C28. Moving the data segment keeps the code's references to it. When an NRO's data shares a host page with its code and
  begins on a page boundary, the loader moves it to the second host page of the image, upwards or downwards. Every \<open>ADRP\<close> of
  the code that points into the old data range (at a distance below 2 GiB: bits 19 and 20 of its field agree) becomes the same instruction,
  with the same register, for the page at the same place of the moved segment. The moved segment has to end below 4 GiB.
\<close>

theorem adrp_patch_correct:
  fixes h :: NroPackedHeader and off :: u64
  defines "l \<equiv> nro_layout h"
  assumes "is_adrp inst" and "bit (adrp_field inst) 19 = bit (adrp_field inst) 20"
    and "ucast (data_start h) \<le> arch_adrp off inst"
    and "arch_adrp off inst < ucast (data_start h) + ucast (data_size h) + ucast (nro_bss_size h) + HOST_PAGE"
    and "off < ucast (text_size h)" and "l_overlapping l" and "0x1000 dvd unat (data_start h)"
    and "unat (data_size h) + unat (nro_bss_size h) + 0x8000 \<le> 2 ^ 32"
  defines "new \<equiv> adrp_patch h (l_data_addr l - l_data_orig_addr l) off inst"
  shows "is_adrp new \<and> new AND 0x1F = inst AND 0x1F \<and>
    NRO_TEXT_BASE + arch_adrp off new - l_data_addr l = NRO_TEXT_BASE + arch_adrp off inst - l_data_orig_addr l"
proof -
  obtain d where d: "unat (data_start h) = d * 0x1000" "d < 2 ^ 20"
    using assms(8) unsigned_less [of "data_start h", where 'a = nat] by (auto elim!: dvdE)
  obtain x where x: "signed_take_bit 20 (adrp_field inst) = word_of_int x" "- (2 ^ 20) \<le> x" "x < 2 ^ 20"
    using field_of_int [of "adrp_field inst"] by blast
  obtain p where p: "off AND NOT 0xFFF = word_of_int (p * 0x1000)" "0 \<le> p" "p < 2 ^ 20"
    using page_number [OF order_less_trans [OF assms(6) text_below]] by blast
  let ?n = "uint (data_size h) + uint (nro_bss_size h) + 0x4000"
  have "uint (data_start h) = int d * 0x1000"
    using d(1) by (simp add: uint_nat)
  then have ds: "ucast (data_start h) = (word_of_int (int d * 0x1000) :: u64)"
    by (simp only: ucast_as_int)
  have target: "arch_adrp off inst = word_of_int ((p + x) * 0x1000)"
    unfolding arch_adrp_def p(1) x(1) by (simp add: algebra_simps)
  have limit: "ucast (data_start h) + ucast (data_size h) + ucast (nro_bss_size h) + HOST_PAGE = (word_of_int (int d * 0x1000 + ?n) :: u64)"
    unfolding ds HOST_PAGE_def by (simp add: add.assoc)
  note lo = assms(4) [unfolded ds target] and hi = assms(5) [unfolded limit target]
  have "int (unat (data_size h) + unat (nro_bss_size h) + 0x8000) \<le> int (2 ^ 32)"
    using assms(9) by (simp only: of_nat_le_iff)
  then have "?n + 0x4000 \<le> 2 ^ 32"
    by (simp only: of_nat_add uint_nat [symmetric] of_nat_power of_nat_numeral)
  then have "- (2 ^ 20) \<le> x + (4 - int d) \<and> x + (4 - int d) < 2 ^ 20"
    using moved_distance_fits [OF p(2,3) _ _ x(2,3) _ _ lo hi] d(2) by simp
  then have fit: "signed_take_bit 20 (x + (4 - int d)) = x + (4 - int d)"
    by (simp add: signed_take_bit_int_eq_self)
  have shift: "l_data_addr l - l_data_orig_addr l = word_of_int (4 - int d) * 0x1000"
    using assms(7) by (simp add: moved_shift l_def ds algebra_simps)
  have "is_adrp new \<and> new AND 0x1F = inst AND 0x1F \<and> arch_adrp off new = arch_adrp off inst + (l_data_addr l - l_data_orig_addr l)"
    unfolding new_def by (rule adrp_patch_moves [OF assms(2-5) shift]) (simp only: x(1) wi_hom_add signed_take_bit_of_int fit)
  then show ?thesis
    by simp
qed

definition small_header :: NroPackedHeader where
  "small_header = \<lparr>text_start = 0, text_size = 0x9000, rodata_start = 0, rodata_size = 0, data_start = 0x8000, data_size = 0x800,
     nro_bss_size = 0, build_id = []\<rparr>"

text \<open>The data of this file moves down from \<open>0x8000\<close> to \<open>0x4000\<close>.\<close>

theorem adrp_patch_correct_witness:
  "NRO_TEXT_BASE + arch_adrp 0x2000 (adrp_patch small_header (l_data_addr (nro_layout small_header) - l_data_orig_addr (nro_layout small_header))
      0x2000 0xD0000021) = l_data_addr (nro_layout small_header)
   \<and> l_data_addr (nro_layout small_header) < l_data_orig_addr (nro_layout small_header)"
proof -
  have a: "is_adrp 0xD0000021" "bit (adrp_field 0xD0000021) 19 = bit (adrp_field 0xD0000021) 20"
    "ucast (data_start small_header) \<le> arch_adrp 0x2000 0xD0000021"
    "arch_adrp 0x2000 0xD0000021 < ucast (data_start small_header) + ucast (data_size small_header) + ucast (nro_bss_size small_header) + HOST_PAGE"
    "0x2000 < (ucast (text_size small_header) :: u64)" "l_overlapping (nro_layout small_header)"
    by code_simp+
  have b: "0x1000 dvd unat (data_start small_header)"
    "unat (data_size small_header) + unat (nro_bss_size small_header) + 0x8000 \<le> 2 ^ 32"
    by (simp_all add: small_header_def)
  have "NRO_TEXT_BASE + arch_adrp 0x2000 0xD0000021 = l_data_orig_addr (nro_layout small_header)"
    "l_data_addr (nro_layout small_header) < l_data_orig_addr (nro_layout small_header)"
    by code_simp+
  then show ?thesis
    using adrp_patch_correct [OF a b] by simp
qed

text \<open>
  The loader takes bit 19 of the 21-bit field for its sign. A reference to data 2 GiB to 4 GiB ahead is read as one to lower addresses, and
  one far behind as one ahead.
\<close>

lemma adrp_far_misread:
  "adrp_target 0 0x90400000 = arch_adrp 0 0x90400000 - 0x100000000" "arch_adrp 0 0x90400000 = 0x80000000"
  by code_simp+

section \<open>Relocation\<close>

text \<open>A relocation table as the list of the 64-bit writes it stands for.\<close>

definition apart :: "u64 \<Rightarrow> nat \<Rightarrow> u64 \<Rightarrow> nat \<Rightarrow> bool" where
  "apart a n b k \<longleftrightarrow> unat a + n \<le> unat b \<or> unat b + k \<le> unat a"

definition write64 :: "u64 \<times> u64 \<Rightarrow> memory \<Rightarrow> memory" where
  "write64 w m = try_write m (fst w) (le_bytes 8 (snd w))"

lemma write64_ok: "unat (fst w) + 8 \<le> 2 ^ 32 \<Longrightarrow> Write m (fst w) (le_bytes 8 (snd w)) = Inr (write64 w m)"
  using Write_ok_iff [of "le_bytes 8 (snd w)" m "fst w"] by (auto simp: write64_def try_write_def)

lemma write64_base [simp]: "base_addr (write64 w m) = base_addr m"
  by (auto simp: write64_def try_write_def dest: Write_Inr split: sum.split)

lemma writes_frame:
  assumes "\<forall>w\<in>set ws. unat (fst w) + 8 \<le> 2 ^ 32 \<and> apart (fst w) 8 b k" and "k < 2 ^ 32"
  shows "Read (fold write64 ws m) b k = Read m b k"
  using assms(1)
proof (induction ws arbitrary: m)
  case (Cons w ws)
  then have "Read (write64 w m) b k = Read m b k"
    using Read_Write_other [OF write64_ok _ assms(2), of w b m] by (simp add: apart_def)
  with Cons show ?case
    by simp
qed simp

lemma writes_applied:
  assumes "\<forall>w\<in>set ws. unat (fst w) + 8 \<le> 2 ^ 32" and "sorted_wrt (\<lambda>v w. apart (fst v) 8 (fst w) 8) ws" and "w \<in> set ws"
  shows "Read (fold write64 ws m) (fst w) 8 = Inr (le_bytes 8 (snd w))"
  using assms
proof (induction ws arbitrary: m)
  case (Cons v ws)
  show ?case
  proof (cases "w \<in> set ws")
    case True
    with Cons show ?thesis
      by simp
  next
    case False
    with Cons.prems have v: "w = v"
      by simp
    have "Read (write64 v m) (fst v) 8 = Inr (le_bytes 8 (snd v))"
      using Read_Write_same [OF write64_ok, of v m] Cons.prems(1) by simp
    then show ?thesis
      using writes_frame [of ws "fst v" 8 "write64 v m"] Cons.prems v by (auto simp: apart_def)
  qed
qed simp

definition rela_at :: "DynInfo \<Rightarrow> u64 \<Rightarrow> nat \<Rightarrow> u64" where
  "rela_at d ro i = ro + of_nat i * rela_ent d"

definition rela_write :: "wild \<Rightarrow> u8 list \<Rightarrow> u64 \<Rightarrow> u64 \<Rightarrow> u64 \<times> u64" where
  "rela_write wild buf base ro = (NRO_TEXT_BASE + Read64 wild buf ro, base + NRO_TEXT_BASE + Read64 wild buf (ro + 16))"

definition is_relative :: "wild \<Rightarrow> u8 list \<Rightarrow> u64 \<Rightarrow> bool" where
  "is_relative wild buf ro \<longleftrightarrow> \<not> ro + 24 > of_nat (length buf) \<and> Read64 wild buf (ro + 8) AND 0xFFFFFFFF = R_AARCH64_RELATIVE"

lemma relocate_loop_relative:
  assumes "\<forall>i<n. is_relative wild buf (rela_at d ro i)"
  shows "relocate_loop wild buf h d n ro m = fold write64 (map (\<lambda>i. rela_write wild buf (base_addr m) (rela_at d ro i)) [0..<n]) m"
  using assms
proof (induction n arbitrary: ro m)
  case (Suc n)
  have next_at: "rela_at d (ro + rela_ent d) i = rela_at d ro (Suc i)" for i
    by (simp add: rela_at_def algebra_simps)
  have "is_relative wild buf (rela_at d ro 0)" and rest: "\<forall>i<n. is_relative wild buf (rela_at d (ro + rela_ent d) i)"
    using Suc.prems by (auto simp: next_at)
  then have here: "is_relative wild buf ro"
    by (simp add: rela_at_def)
  then have one: "relocate_one wild buf h d ro m = write64 (rela_write wild buf (base_addr m) ro) m"
    by (simp add: relocate_one_def is_relative_def write64_def rela_write_def Let_def)
  have "relocate_loop wild buf h d (Suc n) ro m = relocate_loop wild buf h d n (ro + rela_ent d) (write64 (rela_write wild buf (base_addr m) ro) m)"
    using here by (simp add: one is_relative_def)
  also have "\<dots> = fold write64 (map (\<lambda>i. rela_write wild buf (base_addr m) (rela_at d ro (Suc i))) [0..<n]) (write64 (rela_write wild buf (base_addr m) ro) m)"
    by (simp add: Suc.IH [OF rest] next_at)
  also have "\<dots> = fold write64 (map (\<lambda>i. rela_write wild buf (base_addr m) (rela_at d ro i)) (0 # map Suc [0..<n])) m"
    by (simp add: rela_at_def comp_def)
  finally show ?case
    by (simp only: map_Suc_upt upt_conv_Cons [OF zero_less_Suc])
qed simp

text \<open>
  Property C26. Relocation: when every entry of the table is a relative relocation inside the file and their targets are eight-byte ranges of
  the guest space that do not overlap, then after loading each target holds the host address of the module base plus the
  addend, and memory outside the targets is unchanged.
\<close>

theorem relocations_applied:
  assumes "rela_off d > 0" and "rela_sz d > 0" and "rela_ent d \<ge> 24" and "n = min (unat (rela_sz d div rela_ent d)) 100000"
    and "ro = ucast (text_start h) + rela_off d"
    and "\<forall>i<n. is_relative wild buf (rela_at d ro i) \<and> unat (NRO_TEXT_BASE + Read64 wild buf (rela_at d ro i)) + 8 \<le> 2 ^ 32"
    and "\<forall>i<n. \<forall>j<i. apart (NRO_TEXT_BASE + Read64 wild buf (rela_at d ro j)) 8 (NRO_TEXT_BASE + Read64 wild buf (rela_at d ro i)) 8"
  shows "(\<forall>i<n. Read (relocate wild buf h d m) (NRO_TEXT_BASE + Read64 wild buf (rela_at d ro i)) 8 =
            Inr (le_bytes 8 (base_addr m + NRO_TEXT_BASE + Read64 wild buf (rela_at d ro i + 16)))) \<and>
    (\<forall>b k. k < 2 ^ 32 \<longrightarrow> (\<forall>i<n. apart (NRO_TEXT_BASE + Read64 wild buf (rela_at d ro i)) 8 b k) \<longrightarrow>
       Read (relocate wild buf h d m) b k = Read m b k)"
proof -
  let ?ws = "map (\<lambda>i. rela_write wild buf (base_addr m) (rela_at d ro i)) [0..<n]"
  have "relocate wild buf h d m = relocate_loop wild buf h d n ro m"
    using assms(1-5) by (simp add: relocate_def)
  then have eq: "relocate wild buf h d m = fold write64 ?ws m"
    using assms(6) by (simp add: relocate_loop_relative)
  have rng: "\<forall>w\<in>set ?ws. unat (fst w) + 8 \<le> 2 ^ 32"
    using assms(6) by (auto simp: rela_write_def)
  have sep: "sorted_wrt (\<lambda>v w. apart (fst v) 8 (fst w) 8) ?ws"
    using assms(7) by (auto simp: sorted_wrt_iff_nth_less rela_write_def)
  have "Read (fold write64 ?ws m) (fst w) 8 = Inr (le_bytes 8 (snd w))" if "w \<in> set ?ws" for w
    by (rule writes_applied [OF rng sep that])
  moreover have "Read (fold write64 ?ws m) b k = Read m b k"
    if "k < 2 ^ 32" "\<forall>i<n. apart (NRO_TEXT_BASE + Read64 wild buf (rela_at d ro i)) 8 b k" for b k
    using that rng by (intro writes_frame) (auto simp: rela_write_def)
  ultimately show ?thesis
    unfolding eq by (auto simp: rela_write_def)
qed

definition one_reloc :: "u8 list" where
  "one_reloc = replicate 8 0 @ le_bytes 8 (0x100 :: u64) @ le_bytes 8 (1027 :: u64) @ le_bytes 8 (0x40 :: u64)"

definition one_reloc_info :: DynInfo where
  "one_reloc_info = DynInfo_init\<lparr>rela_off := 8, rela_sz := 24, rela_ent := 24\<rparr>"

theorem relocations_applied_witness:
  "Read (relocate (\<lambda>_. 0) one_reloc small_header one_reloc_info (Memory_init (\<lambda>_. 0))) 0x40000100 8 = Inr (le_bytes 8 (0x340000040 :: u64))"
proof -
  have d: "rela_off one_reloc_info = 8" "rela_sz one_reloc_info = 24" "rela_ent one_reloc_info = 24" "text_start small_header = 0"
    by (simp_all add: one_reloc_info_def small_header_def)
  have e: "is_relative (\<lambda>_. 0) one_reloc 8" "Read64 (\<lambda>_. 0) one_reloc 8 = 0x100" "Read64 (\<lambda>_. 0) one_reloc 24 = 0x40"
    by code_simp+
  have at: "rela_at one_reloc_info 8 0 = 8" and base: "base_addr (Memory_init (\<lambda>_. 0)) = 0x300000000"
    by (simp_all add: rela_at_def Memory_init_def)
  have n: "1 = min (unat (rela_sz one_reloc_info div rela_ent one_reloc_info)) 100000" and ro: "8 = ucast (text_start small_header) + rela_off one_reloc_info"
    by (simp_all add: d)
  have entries: "\<forall>i<1. is_relative (\<lambda>_. 0) one_reloc (rela_at one_reloc_info 8 i) \<and>
      unat (NRO_TEXT_BASE + Read64 (\<lambda>_. 0) one_reloc (rela_at one_reloc_info 8 i)) + 8 \<le> 2 ^ 32"
    using e by (simp add: at NRO_TEXT_BASE_def)
  have "Read (relocate (\<lambda>_. 0) one_reloc small_header one_reloc_info (Memory_init (\<lambda>_. 0)))
      (NRO_TEXT_BASE + Read64 (\<lambda>_. 0) one_reloc (rela_at one_reloc_info 8 0)) 8 =
      Inr (le_bytes 8 (base_addr (Memory_init (\<lambda>_. 0)) + NRO_TEXT_BASE + Read64 (\<lambda>_. 0) one_reloc (rela_at one_reloc_info 8 0 + 16)))"
    using relocations_applied [OF _ _ _ n ro entries, of "Memory_init (\<lambda>_. 0)"] d by simp
  then show ?thesis
    by (simp only: at base e NRO_TEXT_BASE_def) (simp add: e)
qed

section \<open>The moved data segment\<close>

lemma nro_layout_addrs:
  "l_text_addr (nro_layout h) = 0x40000000"
  "l_overlapping (nro_layout h) \<Longrightarrow> l_data_addr (nro_layout h) = 0x40004000"
  by (simp_all add: nro_layout_def Let_def AlignUp_def NRO_TEXT_BASE_def HOST_PAGE_def)

text \<open>
  The moved data segment always goes to the second host page of the image, however long the code is: when the code is longer than
  one host page, the data segment is placed over it, and after a successful mapping the rest of that page,
  where the program's code should be, is zero.
\<close>

theorem nro_data_over_code:
  assumes "l_overlapping (nro_layout h)" and "text_size h > 0x4000" and "map_split host wild buf h m = (Success, m')"
  shows "l_text_addr (nro_layout h) < l_data_addr (nro_layout h) \<and>
    l_data_addr (nro_layout h) < l_text_addr (nro_layout h) + ucast (text_size h) \<and>
    (\<forall>k. unat (data_size h) \<le> k \<longrightarrow> k < 0x4000 \<longrightarrow> image m' (base_addr m' + l_data_addr (nro_layout h) + of_nat k) = 0)"
proof (intro conjI allI impI)
  let ?l = "nro_layout h"
  note addr = nro_layout_addrs [of h, simplified assms(1)]
  show "l_text_addr ?l < l_data_addr ?l"
    by (simp add: addr)
  have "unat (text_size h) > 0x4000"
    using assms(2) by (simp add: word_less_nat_alt)
  then have "unat (0x40000000 + ucast (text_size h) :: u64) = 0x40000000 + unat (text_size h)"
    using unat_u32_less [of "text_size h"] by (simp add: unat_word_ariths unsigned_ucast_eq take_bit_nat_eq_self)
  then show "l_data_addr ?l < l_text_addr ?l + ucast (text_size h)"
    using \<open>unat (text_size h) > 0x4000\<close> by (simp add: addr word_less_nat_alt)
  fix k assume k: "unat (data_size h) \<le> k" "k < 0x4000"
  define sz where "sz = at_least_page (AlignUp (ucast (data_size h + nro_bss_size h)) HOST_PAGE)"
  have "\<exists>m3. m' = m3\<lparr>image := copy_file wild buf (base_addr m3 + 0x40004000) (data_start h) (data_size h)
        (fill_image (image m3) (base_addr m3 + 0x40004000) sz 0)\<rparr>"
    using assms(3) by (auto simp: map_split_def sz_def addr Pointer_def IsValid_def ADDR_SPACE_SIZE_def Let_def split: prod.splits if_splits)
  then obtain m3 where m3: "m' = m3\<lparr>image := copy_file wild buf (base_addr m3 + 0x40004000) (data_start h) (data_size h)
        (fill_image (image m3) (base_addr m3 + 0x40004000) sz 0)\<rparr>"
    by blast
  have u: "unat (of_nat k :: u64) = k"
    using k by (simp add: unat_of_nat)
  have "0x4000 \<le> unat sz"
    by (simp add: sz_def at_least_page_def HOST_PAGE_def word_less_nat_alt not_less)
  then have "(of_nat k :: u64) < sz"
    using k u by (simp add: word_less_nat_alt)
  then show "image m' (base_addr m' + l_data_addr ?l + of_nat k) = 0"
    using k u by (simp add: m3 addr copy_file_def write_image_def fill_image_def file_bytes_def)
qed

definition long_code_header :: NroPackedHeader where
  "long_code_header = small_header\<lparr>text_size := 0x5000, data_start := 0x6000, data_size := 0x10\<rparr>"

theorem nro_data_over_code_witness:
  "image (snd (map_split zero_fill_host (\<lambda>_. 1) [] long_code_header (Memory_init (\<lambda>_. 0)))) 0x340004010 = 0 \<and> unat (text_size long_code_header) > 0x4010"
proof -
  let ?r = "map_split zero_fill_host (\<lambda>_. 1) [] long_code_header (Memory_init (\<lambda>_. 0))"
  have l: "l_overlapping (nro_layout long_code_header)"
    by code_simp
  have f: "text_size long_code_header = 0x5000" "rodata_size long_code_header = 0" "data_size long_code_header = 0x10" "nro_bss_size long_code_header = 0"
    by (simp_all add: long_code_header_def small_header_def)
  have ok: "fst ?r = Success" and b: "base_addr (snd ?r) = 0x300000000"
    by (simp_all add: map_split_def nro_layout_addrs(1) nro_layout_addrs(2) [OF l] f AlignUp_def
        at_least_page_def MapPhysical_def zero_fill_host_def IsAligned_def mem_consts Memory_init_def Pointer_def IsValid_def Let_def)
  have "?r = (Success, snd ?r)"
    using ok by (cases ?r) simp
  then show ?thesis
    using nro_data_over_code [of long_code_header zero_fill_host "\<lambda>_. 1" "[]" "Memory_init (\<lambda>_. 0)" "snd ?r"] l b
      nro_layout_addrs(2) [OF l] by (auto simp: f)
qed


end
