(* ===== verification/ServiceIo.thy ===== *)
theory ServiceIo
  imports Services
begin

text \<open>
  What the service handlers have in common: reading an argument that the client may have left out,
  writing an answer when the output buffer is large enough, and copying through a guest pointer
  (\<^verbatim>\<open>src/src/services/Ipc.h\<close> and the first lines of every handler).

  A handler that touches only its own object has the type \<open>'m handler\<close> for the state \<open>'m\<close> of that object;
  \<open>on_part\<close> lifts it to a larger state. The locale \<open>handler_contract\<close> is what the IPC manager relies on:
  the output buffer keeps its size and the reported size never exceeds it.
\<close>

type_synonym 'm outcome = "ipc_error + (bool \<times> u8 list \<times> nat \<times> 'm)"
type_synonym 'm handler = "u32 \<Rightarrow> u8 list \<Rightarrow> nat \<Rightarrow> u8 list \<Rightarrow> 'm \<Rightarrow> 'm outcome"

section \<open>Arguments\<close>

text \<open>\<^verbatim>\<open>if (in_sz >= need) x = IpcReadU32(in, off);\<close> for a variable initialised to \<open>d\<close>.\<close>

definition arg_u32 :: "nat \<Rightarrow> nat \<Rightarrow> u32 \<Rightarrow> u8 list \<Rightarrow> nat \<Rightarrow> ipc_error + u32" where
  "arg_u32 need off d inp in_sz =
     (if in_sz \<ge> need then bind_sum (rd inp off 4) (\<lambda>bs. Inr (of_le_bytes bs)) else Inr d)"

definition arg_u64 :: "nat \<Rightarrow> nat \<Rightarrow> u64 \<Rightarrow> u8 list \<Rightarrow> nat \<Rightarrow> ipc_error + u64" where
  "arg_u64 need off d inp in_sz =
     (if in_sz \<ge> need then bind_sum (rd inp off 8) (\<lambda>bs. Inr (of_le_bytes bs)) else Inr d)"

lemma arg_u32_short [simp]: "in_sz < need \<Longrightarrow> arg_u32 need off d inp in_sz = Inr d"
  by (simp add: arg_u32_def)

lemma arg_u32_given [simp]:
  "need \<le> in_sz \<Longrightarrow> off + 4 \<le> length inp \<Longrightarrow>
    arg_u32 need off d inp in_sz = Inr (of_le_bytes (get_bytes inp off 4))"
  by (simp add: arg_u32_def)

lemma arg_u64_given [simp]:
  "need \<le> in_sz \<Longrightarrow> off + 8 \<le> length inp \<Longrightarrow>
    arg_u64 need off d inp in_sz = Inr (of_le_bytes (get_bytes inp off 8))"
  by (simp add: arg_u64_def)

section \<open>Answers\<close>

text \<open>\<^verbatim>\<open>*out_sz = 0; return true;\<close>\<close>

definition no_answer :: "u8 list \<Rightarrow> 'm \<Rightarrow> 'm outcome" where
  "no_answer out m = Inr (True, out, 0, m)"

text \<open>
  \<^verbatim>\<open>if (*out_sz >= n) { ...; *out_sz = n; }\<close>, where the body writes the byte strings \<open>ws\<close> at their
  offsets and may leave gaps.
\<close>

definition put_all :: "(nat \<times> u8 list) list \<Rightarrow> u8 list \<Rightarrow> u8 list" where
  "put_all ws out = fold (\<lambda>(off, bs) o'. put_bytes o' off bs) ws out"

definition answer_at :: "(nat \<times> u8 list) list \<Rightarrow> nat \<Rightarrow> u8 list \<Rightarrow> 'm \<Rightarrow> 'm outcome" where
  "answer_at ws n out m =
     (if length out \<ge> n then Inr (True, put_all ws out, n, m) else Inr (True, out, length out, m))"

lemma put_all_simps [simp]:
  "put_all [] out = out"
  "put_all ((off, bs) # ws) out = put_all ws (put_bytes out off bs)"
  by (simp_all add: put_all_def)

lemma length_put_all:
  "\<forall>(off, bs) \<in> set ws. off + length bs \<le> length out \<Longrightarrow> length (put_all ws out) = length out"
  by (induction ws arbitrary: out) auto

section \<open>Guest pointers\<close>

text \<open>\<^verbatim>\<open>std::memcpy\<close> to a pointer that \<open>Pointer\<close> returned (nothing happens when it is null).\<close>

definition memcpy_guest :: "memory \<Rightarrow> u64 \<Rightarrow> u8 list \<Rightarrow> memory" where
  "memcpy_guest m address bs =
     (case Pointer m address of None \<Rightarrow> m
      | Some p \<Rightarrow> m\<lparr>image := write_image (image m) p bs\<rparr>)"

section \<open>The contract of a handler\<close>

definition fits :: "u8 list \<Rightarrow> 'm outcome \<Rightarrow> bool" where
  "fits out r \<longleftrightarrow> (\<forall>ok out' n m'. r = Inr (ok, out', n, m') \<longrightarrow> length out' = length out \<and> n \<le> length out)"

named_theorems fits_intros "introduction rules for the handler contract"

lemma fits_Inl [fits_intros]: "fits out (Inl e)"
  by (simp add: fits_def)

lemma fits_Inr [fits_intros]: "n \<le> length out \<Longrightarrow> fits out (Inr (ok, out, n, m))"
  by (simp add: fits_def)

lemma fits_no_answer [fits_intros]: "fits out (no_answer out m)"
  by (simp add: fits_def no_answer_def)

lemma fits_answer [fits_intros]: "fits out (answer bs out m)"
  by (simp add: fits_def answer_def)

lemma fits_answer_at [fits_intros]:
  assumes "\<forall>(off, bs) \<in> set ws. off + length bs \<le> n"
  shows "fits out (answer_at ws n out m)"
proof (cases "n \<le> length out")
  case True
  then have "\<forall>(off, bs) \<in> set ws. off + length bs \<le> length out"
    using assms by fastforce
  with True show ?thesis
    by (simp add: fits_def answer_at_def length_put_all)
qed (simp add: fits_def answer_at_def)

lemma fits_bind [fits_intros]:
  "(\<And>x. r = Inr x \<Longrightarrow> fits out (f x)) \<Longrightarrow> fits out (bind_sum r f)"
  by (cases r) (simp_all add: fits_def)

lemma fits_if [fits_intros]: "(c \<Longrightarrow> fits out a) \<Longrightarrow> (\<not> c \<Longrightarrow> fits out b) \<Longrightarrow> fits out (if c then a else b)"
  by simp

lemma fits_Let [fits_intros]: "fits out (f x) \<Longrightarrow> fits out (Let x f)"
  by simp

lemma fits_option [fits_intros]:
  "fits out a \<Longrightarrow> (\<And>x. fits out (f x)) \<Longrightarrow> fits out (case x of None \<Rightarrow> a | Some y \<Rightarrow> f y)"
  by (simp split: option.split)

lemma fits_prod [fits_intros]: "(\<And>a b. fits out (f a b)) \<Longrightarrow> fits out (case p of (a, b) \<Rightarrow> f a b)"
  by (simp split: prod.split)

locale handler_contract =
  fixes h :: "'m handler"
  assumes handler_fits: "fits out (h cmd inp in_sz out m)"
begin

lemma keeps_length: "h cmd inp in_sz out m = Inr (ok, out', n, m') \<Longrightarrow> length out' = length out"
  using handler_fits [of out cmd inp in_sz m] by (simp add: fits_def)

lemma reported_size: "h cmd inp in_sz out m = Inr (ok, out', n, m') \<Longrightarrow> n \<le> length out"
  using handler_fits [of out cmd inp in_sz m] by (simp add: fits_def)

end

text \<open>A handler of one object inside a larger state.\<close>

definition on_part :: "('s \<Rightarrow> 'm) \<Rightarrow> ('m \<Rightarrow> 's \<Rightarrow> 's) \<Rightarrow> 'm handler \<Rightarrow> 's handler" where
  "on_part get put h cmd inp in_sz out s =
     bind_sum (h cmd inp in_sz out (get s)) (\<lambda>(ok, out', n, m). Inr (ok, out', n, put m s))"

lemma on_part_contract:
  assumes "handler_contract h"
  shows "handler_contract (on_part get put h)"
proof
  show "fits out (on_part get put h cmd inp in_sz out m)" for out cmd inp in_sz m
    using handler_contract.handler_fits [OF assms, of out cmd inp in_sz "get m"]
    by (cases "h cmd inp in_sz out (get m)") (auto simp: on_part_def fits_def)
qed

section \<open>Reasoning about handlers\<close>

text \<open>\<open>post Q r\<close>: if the handler returns, the state it returns satisfies \<open>Q\<close>.\<close>

definition post :: "('m \<Rightarrow> bool) \<Rightarrow> 'm outcome \<Rightarrow> bool" where
  "post Q r \<longleftrightarrow> (\<forall>ok out' n m'. r = Inr (ok, out', n, m') \<longrightarrow> Q m')"

named_theorems post_intros "rules for the states a handler returns"

lemma post_simple [post_intros]:
  "Q m \<Longrightarrow> post Q (answer bs out m)" "Q m \<Longrightarrow> post Q (no_answer out m)" "Q m \<Longrightarrow> post Q (Inr (ok, out, n, m))"
  "Q m \<Longrightarrow> post Q (answer_at ws k out m)"
  by (auto simp: post_def answer_def no_answer_def answer_at_def split: if_splits)

lemma post_bind [post_intros]: "(\<And>x. r = Inr x \<Longrightarrow> post Q (f x)) \<Longrightarrow> post Q (bind_sum r f)"
  by (cases r) (simp_all add: post_def)

lemma post_if [post_intros]: "(c \<Longrightarrow> post Q a) \<Longrightarrow> (\<not> c \<Longrightarrow> post Q b) \<Longrightarrow> post Q (if c then a else b)"
  by simp

lemma post_Let [post_intros]: "post Q (f x) \<Longrightarrow> post Q (Let x f)"
  by simp

lemma post_option [post_intros]:
  "(x = None \<Longrightarrow> post Q a) \<Longrightarrow> (\<And>y. x = Some y \<Longrightarrow> post Q (f y)) \<Longrightarrow> post Q (case x of None \<Rightarrow> a | Some y \<Rightarrow> f y)"
  by (cases x) simp_all

lemma post_prod [post_intros]: "(\<And>a b. p = (a, b) \<Longrightarrow> post Q (f a b)) \<Longrightarrow> post Q (case p of (a, b) \<Rightarrow> f a b)"
  by (cases p) simp

lemma answer_state: "answer bs out s = Inr (ok, out', n, s') \<Longrightarrow> s' = s"
  by (auto simp: answer_def split: if_splits)

lemma no_answer_state: "no_answer out s = Inr (ok, out', n, s') \<Longrightarrow> s' = s"
  by (simp add: no_answer_def)

lemma answer_at_state: "answer_at ws k out s = Inr (ok, out', n, s') \<Longrightarrow> s' = s"
  by (auto simp: answer_at_def split: if_splits)

lemmas answer_states = answer_state no_answer_state answer_at_state

lemma find_SomeD: "find P xs = Some x \<Longrightarrow> x \<in> set xs" "find P xs = Some x \<Longrightarrow> P x"
  by (auto simp: find_Some_iff)

lemma put_prefix: "length bs \<le> length out \<Longrightarrow> n \<le> length bs \<Longrightarrow> take n (put_bytes out 0 bs) = take n bs"
  by (simp add: put_bytes_def)

lemma get_put_prefix:
  "length bs \<le> length out \<Longrightarrow> off + n \<le> length bs \<Longrightarrow> get_bytes (put_bytes out 0 bs) off n = get_bytes bs off n"
  by (simp add: put_bytes_def get_bytes_def)

lemma arg_le_bytes [simp]: "arg_u32 4 0 d (le_bytes 4 w) 4 = Inr w"
  by (simp add: arg_u32_def rd_def get_bytes_def)

end
