(* ===== verification/Vi.thy ===== *)
theory Vi
  imports ServiceIo
begin

text \<open>
  The display service and its buffer queue: \<^verbatim>\<open>src/src/services/Vi.cpp\<close>.

  \<open>vi\<close> is the file's static state: the buffer queue, the layer flag and the new-frame flag. The mutex
  makes each operation on the queue atomic, so an operation is a function on \<open>vi\<close>. \<open>FREE\<close>, \<open>DEQUEUED\<close>,
  \<open>QUEUED\<close> and \<open>ACQUIRED\<close> are the \<open>SLOT_*\<close> constants; the C++ field \<open>state\<close> is \<open>slot_state\<close>. The floating point
  field \<open>scaling_mode\<close>, which no operation reads or writes, is left out.
\<close>

section \<open>State\<close>

definition FB_ADDR :: u64 where "FB_ADDR = 0xE0000000"
definition FB_SIZE :: u64 where "FB_SIZE = 0x800000"
definition FB_ADDR_DUAL :: u64 where "FB_ADDR_DUAL = 0xE0800000"
definition FB_WIDTH :: u32 where "FB_WIDTH = 1280"
definition FB_HEIGHT :: u32 where "FB_HEIGHT = 720"
definition FB_STRIDE :: u32 where "FB_STRIDE = FB_WIDTH * 4"

lemmas fb_consts = FB_ADDR_def FB_SIZE_def FB_ADDR_DUAL_def FB_WIDTH_def FB_HEIGHT_def FB_STRIDE_def

definition NUM_SLOTS :: nat where "NUM_SLOTS = 3"

abbreviation FREE :: u32 where "FREE \<equiv> 0"
abbreviation DEQUEUED :: u32 where "DEQUEUED \<equiv> 1"
abbreviation QUEUED :: u32 where "QUEUED \<equiv> 2"
abbreviation ACQUIRED :: u32 where "ACQUIRED \<equiv> 3"

record bq_slot =
  gpu_address :: u64
  slot_state :: u32
  acquire_fence :: u32
  release_fence :: u32
  crop :: "u32 list"
  transform :: u32

record BufferQueue =
  slots :: "bq_slot list"
  next_dequeue_slot :: u32
  connected :: bool

record vi =
  buffer_queue :: BufferQueue
  layer_created :: bool
  vi_new_frame :: bool

definition empty_slot :: bq_slot where
  "empty_slot = \<lparr>gpu_address = 0, slot_state = FREE, acquire_fence = 0, release_fence = 0,
     crop = replicate 4 0, transform = 0\<rparr>"

definition vi_init :: vi where
  "vi_init = \<lparr>buffer_queue = \<lparr>slots = replicate NUM_SLOTS empty_slot, next_dequeue_slot = 0, connected = False\<rparr>,
     layer_created = False, vi_new_frame = False\<rparr>"

definition g_display_id :: u32 where "g_display_id = 1"
definition g_layer_id :: u64 where "g_layer_id = 0x0100000000000000"

text \<open>Assignments through \<open>g_buffer_queue.slots[i]\<close>.\<close>

definition upd_slot :: "nat \<Rightarrow> (bq_slot \<Rightarrow> bq_slot) \<Rightarrow> vi \<Rightarrow> vi" where
  "upd_slot i f v =
     v\<lparr>buffer_queue := (buffer_queue v)\<lparr>slots := (slots (buffer_queue v))[i := f (slots (buffer_queue v) ! i)]\<rparr>\<rparr>"

definition slot_at :: "vi \<Rightarrow> nat \<Rightarrow> bq_slot" where
  "slot_at v i = slots (buffer_queue v) ! i"

definition state_of :: "vi \<Rightarrow> nat \<Rightarrow> u32" where
  "state_of v i = slot_state (slot_at v i)"

section \<open>The parcel\<close>

definition iface_name :: string where "iface_name = ''android.gui.BufferQueue''"

definition bq_parcel :: "BufferQueue \<Rightarrow> u8 list" where
  "bq_parcel q =
     le_bytes 4 (of_nat (length iface_name) :: u32) @ chars (length iface_name) iface_name
     @ le_bytes 4 (if connected q then 1 else 0 :: u32) @ le_bytes 4 (of_nat NUM_SLOTS :: u32)
     @ concat (map (\<lambda>i. le_bytes 8 (gpu_address (slots q ! i)) @ le_bytes 4 (slot_state (slots q ! i))) [0..<NUM_SLOTS])
     @ le_bytes 4 FB_WIDTH @ le_bytes 4 FB_HEIGHT @ le_bytes 4 (4 :: u32) @ le_bytes 4 (0 :: u32)"

text \<open>The output buffer's size is not looked at.\<close>

definition WriteBufferQueueParcelable :: "BufferQueue \<Rightarrow> u8 list \<Rightarrow> ipc_error + (u8 list \<times> nat)" where
  "WriteBufferQueueParcelable q out =
     bind_sum (wr out 0 (bq_parcel q)) (\<lambda>out'. Inr (out', length (bq_parcel q)))"

section \<open>Displays and layers\<close>

definition HandleInit :: "u8 list \<Rightarrow> vi \<Rightarrow> vi outcome" where
  "HandleInit out v = no_answer out v"

definition HandleOpenDisplay :: "u8 list \<Rightarrow> vi \<Rightarrow> vi outcome" where
  "HandleOpenDisplay out v = answer (le_bytes 4 g_display_id @ replicate 4 0) out v"

definition HandleCloseDisplay :: "u8 list \<Rightarrow> vi \<Rightarrow> vi outcome" where
  "HandleCloseDisplay out v = no_answer out v"

definition HandleGetDisplayResolution :: "u8 list \<Rightarrow> vi \<Rightarrow> vi outcome" where
  "HandleGetDisplayResolution out v = answer (le_bytes 4 FB_WIDTH @ le_bytes 4 FB_HEIGHT) out v"

definition HandleCreateLayer :: "u8 list \<Rightarrow> vi \<Rightarrow> vi outcome" where
  "HandleCreateLayer out v = answer (le_bytes 8 g_layer_id) out (v\<lparr>layer_created := True\<rparr>)"

definition HandleDestroyLayer :: "u8 list \<Rightarrow> vi \<Rightarrow> vi outcome" where
  "HandleDestroyLayer out v = no_answer out (v\<lparr>layer_created := False\<rparr>)"

definition HandleOpenLayer :: "u8 list \<Rightarrow> vi \<Rightarrow> vi outcome" where
  "HandleOpenLayer out v = answer (le_bytes 8 g_layer_id) out v"

definition HandleGetDisplayVsyncEvent :: "u8 list \<Rightarrow> vi \<Rightarrow> vi outcome" where
  "HandleGetDisplayVsyncEvent out v = answer (replicate 8 0) out v"

definition HandleSetLayerZ :: "u8 list \<Rightarrow> vi \<Rightarrow> vi outcome" where
  "HandleSetLayerZ out v = no_answer out v"

text \<open>\<open>0x42700000\<close> is the single-precision representation of 60.\<close>

definition HandleGetDisplayMode :: "u8 list \<Rightarrow> vi \<Rightarrow> vi outcome" where
  "HandleGetDisplayMode out v =
     answer_at [(0, replicate 0x38 0), (0, le_bytes 4 FB_WIDTH), (4, le_bytes 4 FB_HEIGHT),
       (8, le_bytes 4 (0x42700000 :: u32)), (0xC, le_bytes 4 (4 :: u32)), (0x10, le_bytes 4 (0 :: u32))] 0x38 out v"

section \<open>The buffer queue\<close>

definition dequeue_candidates :: "vi \<Rightarrow> nat list" where
  "dequeue_candidates v =
     map (\<lambda>i. unat ((next_dequeue_slot (buffer_queue v) + of_nat i) mod of_nat NUM_SLOTS)) [0..<NUM_SLOTS]"

definition choose_dequeue :: "vi \<Rightarrow> nat" where
  "choose_dequeue v =
     (case find (\<lambda>i. state_of v i = FREE \<or> state_of v i = ACQUIRED) (dequeue_candidates v) of
        Some i \<Rightarrow> i
      | None \<Rightarrow> unat (next_dequeue_slot (buffer_queue v) mod of_nat NUM_SLOTS))"

definition set_next_dequeue :: "u32 \<Rightarrow> vi \<Rightarrow> vi" where
  "set_next_dequeue n v = v\<lparr>buffer_queue := (buffer_queue v)\<lparr>next_dequeue_slot := n\<rparr>\<rparr>"

text \<open>Width and height are read from the input and not used.\<close>

definition HandleDequeueBuffer :: "u8 list \<Rightarrow> nat \<Rightarrow> u8 list \<Rightarrow> vi \<Rightarrow> vi outcome" where
  "HandleDequeueBuffer inp in_sz out v =
     (let slot = choose_dequeue v;
          v1 = upd_slot slot (\<lambda>s. s\<lparr>slot_state := DEQUEUED\<rparr>) v;
          v2 = set_next_dequeue (of_nat slot + 1) v1
      in bind_sum (arg_u32 8 0 FB_WIDTH inp in_sz) (\<lambda>width.
         bind_sum (arg_u32 8 4 FB_HEIGHT inp in_sz) (\<lambda>height.
           answer (le_bytes 4 (of_nat slot :: u32) @ le_bytes 4 (0 :: u32) @ le_bytes 4 (0 :: u32)
             @ le_bytes 8 (gpu_address (slot_at v2 slot)) @ le_bytes 4 FB_STRIDE) out v2)))"

text \<open>\<open>slot >= 0 && slot < NUM_SLOTS\<close> for the argument read as a signed integer.\<close>

definition slot_in_range :: "u32 \<Rightarrow> bool" where
  "slot_in_range w \<longleftrightarrow> 0 \<le> sint w \<and> sint w < int NUM_SLOTS"

definition parse_crop :: "u8 list \<Rightarrow> nat \<Rightarrow> bq_slot \<Rightarrow> ipc_error + bq_slot" where
  "parse_crop inp in_sz s =
     (if in_sz \<ge> 24 then
        bind_sum (rd inp 4 16) (\<lambda>bs. Inr (s\<lparr>crop := map (\<lambda>i. word_at bs (i * 4)) [0..<4]\<rparr>))
      else Inr s)"

definition HandleQueueBuffer :: "u8 list \<Rightarrow> nat \<Rightarrow> u8 list \<Rightarrow> vi \<Rightarrow> vi outcome" where
  "HandleQueueBuffer inp in_sz out v =
     bind_sum (arg_u32 4 0 0 inp in_sz) (\<lambda>slot.
     bind_sum
       (if slot_in_range slot then
          let i = unat slot; s = (slot_at v i)\<lparr>slot_state := QUEUED\<rparr>
          in bind_sum (parse_crop inp in_sz s) (\<lambda>s1.
             bind_sum (arg_u32 44 20 (transform s1) inp in_sz) (\<lambda>t.
               Inr ((upd_slot i (\<lambda>_. s1\<lparr>transform := t\<rparr>) v)\<lparr>vi_new_frame := True\<rparr>)))
        else Inr v)
       (\<lambda>v'. answer (le_bytes 4 (0 :: u32)) out v'))"

text \<open>\<open>CancelBuffer\<close> and \<open>ReleaseBuffer\<close> do the same.\<close>

definition free_slot :: "u8 list \<Rightarrow> nat \<Rightarrow> u8 list \<Rightarrow> vi \<Rightarrow> vi outcome" where
  "free_slot inp in_sz out v =
     bind_sum (arg_u32 4 0 0 inp in_sz) (\<lambda>slot.
       no_answer out (if slot_in_range slot then upd_slot (unat slot) (\<lambda>s. s\<lparr>slot_state := FREE\<rparr>) v else v))"

definition HandleCancelBuffer :: "u8 list \<Rightarrow> nat \<Rightarrow> u8 list \<Rightarrow> vi \<Rightarrow> vi outcome" where
  "HandleCancelBuffer = free_slot"

definition HandleReleaseBuffer :: "u8 list \<Rightarrow> nat \<Rightarrow> u8 list \<Rightarrow> vi \<Rightarrow> vi outcome" where
  "HandleReleaseBuffer = free_slot"

definition HandleAcquireBuffer :: "u8 list \<Rightarrow> vi \<Rightarrow> vi outcome" where
  "HandleAcquireBuffer out v =
     (case find (\<lambda>i. state_of v i = QUEUED) [0..<NUM_SLOTS] of
        None \<Rightarrow> answer (le_bytes 4 (0xFFFFFFFF :: u32)) out v
      | Some slot \<Rightarrow>
          let v1 = upd_slot slot (\<lambda>s. s\<lparr>slot_state := ACQUIRED\<rparr>) v
          in answer (le_bytes 4 (of_nat slot :: u32) @ le_bytes 4 (0 :: u32) @ le_bytes 8 (gpu_address (slot_at v1 slot))
               @ le_bytes 4 FB_STRIDE @ le_bytes 4 FB_WIDTH @ le_bytes 4 FB_HEIGHT) out v1)"

definition set_connected :: "bool \<Rightarrow> vi \<Rightarrow> vi" where
  "set_connected b v = v\<lparr>buffer_queue := (buffer_queue v)\<lparr>connected := b\<rparr>\<rparr>"

definition HandleConnect :: "u8 list \<Rightarrow> vi \<Rightarrow> vi outcome" where
  "HandleConnect out v =
     (let v1 = set_connected True v
      in bind_sum (WriteBufferQueueParcelable (buffer_queue v1) out) (\<lambda>(out', n). Inr (True, out', n, v1)))"

definition HandleDisconnect :: "u8 list \<Rightarrow> vi \<Rightarrow> vi outcome" where
  "HandleDisconnect out v = no_answer out (set_connected False v)"

definition HandleSetPreallocatedBufferCount :: "u8 list \<Rightarrow> nat \<Rightarrow> u8 list \<Rightarrow> vi \<Rightarrow> vi outcome" where
  "HandleSetPreallocatedBufferCount inp in_sz out v =
     bind_sum (arg_u32 4 0 3 inp in_sz) (\<lambda>count. no_answer out v)"

definition vi_HandleCommand :: "vi handler" where
  "vi_HandleCommand cmd inp in_sz out v =
     (if cmd = 0 then HandleInit out v
      else if cmd = 1 then HandleOpenDisplay out v
      else if cmd = 2 then HandleCloseDisplay out v
      else if cmd = 3 then HandleGetDisplayResolution out v
      else if cmd = 10 then HandleCreateLayer out v
      else if cmd = 11 then HandleDestroyLayer out v
      else if cmd = 20 then HandleOpenLayer out v
      else if cmd = 30 then HandleGetDisplayVsyncEvent out v
      else if cmd = 40 then HandleSetLayerZ out v
      else if cmd = 50 then HandleGetDisplayMode out v
      else if cmd = 100 then HandleDequeueBuffer inp in_sz out v
      else if cmd = 101 then HandleQueueBuffer inp in_sz out v
      else if cmd = 102 then HandleCancelBuffer inp in_sz out v
      else if cmd = 110 then HandleAcquireBuffer out v
      else if cmd = 111 then HandleReleaseBuffer inp in_sz out v
      else if cmd = 120 then HandleConnect out v
      else if cmd = 121 then HandleDisconnect out v
      else if cmd = 130 then HandleSetPreallocatedBufferCount inp in_sz out v
      else no_answer out v)"

section \<open>Start-up and the screen's view\<close>

definition set_slot_addresses :: "vi \<Rightarrow> vi" where
  "set_slot_addresses v =
     fold (\<lambda>i. upd_slot i (\<lambda>s. s\<lparr>gpu_address := FB_ADDR + of_nat i * (FB_SIZE div 2)\<rparr>)) [0..<NUM_SLOTS] v"

text \<open>Mapping the two frame buffers, filling the first with \<open>b\<close> and the second with zeros, marking the first.\<close>

definition map_framebuffers :: "host_vm \<Rightarrow> u8 \<Rightarrow> memory \<Rightarrow> memory" where
  "map_framebuffers host b m =
     (let m1 = snd (MapPhysical host m FB_ADDR FB_SIZE Perm_RW None);
          m2 = snd (MapPhysical host m1 FB_ADDR_DUAL FB_SIZE Perm_RW None);
          m3 = memset_guest m2 FB_ADDR b FB_SIZE;
          m4 = memset_guest m3 FB_ADDR_DUAL 0 FB_SIZE
      in memcpy_guest m4 FB_ADDR (le_bytes 4 (0xFF000000 :: u32)))"

text \<open>The constructor of the static object; \<open>g_vi_memory\<close> is null while it runs.\<close>

definition vi_construct :: "host_vm \<Rightarrow> svc \<Rightarrow> memory option \<times> vi \<times> ipc \<Rightarrow> memory option \<times> vi \<times> ipc" where
  "vi_construct host this st =
     (case st of (mem, v, ip) \<Rightarrow>
        let ip' = RegisterService ''vi:u'' (Some this) (RegisterService ''vi:m'' (Some this)
                    (RegisterService ''vi:'' (Some this) ip))
        in case mem of
             None \<Rightarrow> (None, v, ip')
           | Some m \<Rightarrow>
               (Some (map_framebuffers host 0 m),
                fold (\<lambda>i. upd_slot i (\<lambda>s. s\<lparr>slot_state := FREE\<rparr>)) [0..<NUM_SLOTS] (set_slot_addresses v), ip'))"

definition ServiceVi_Init :: "host_vm \<Rightarrow> memory option \<times> vi \<Rightarrow> memory option \<times> vi" where
  "ServiceVi_Init host st =
     (case st of
        (None, v) \<Rightarrow> (None, v)
      | (Some m, v) \<Rightarrow> (Some (map_framebuffers host 0xFF m), set_slot_addresses v))"

definition Vi_GetCurrentFramebuffer :: "vi \<Rightarrow> u64" where
  "Vi_GetCurrentFramebuffer v =
     (case find (\<lambda>i. state_of v i = QUEUED \<or> state_of v i = ACQUIRED) [0..<NUM_SLOTS] of
        Some i \<Rightarrow> gpu_address (slot_at v i)
      | None \<Rightarrow> FB_ADDR)"

definition Vi_HasNewFrame :: "vi \<Rightarrow> bool" where
  "Vi_HasNewFrame v = vi_new_frame v"

definition Vi_ConsumeNewFrame :: "vi \<Rightarrow> vi" where
  "Vi_ConsumeNewFrame v = v\<lparr>vi_new_frame := False\<rparr>"

definition Vi_GetFramebufferWidth :: u32 where "Vi_GetFramebufferWidth = FB_WIDTH"
definition Vi_GetFramebufferHeight :: u32 where "Vi_GetFramebufferHeight = FB_HEIGHT"
definition Vi_GetFramebufferStride :: u32 where "Vi_GetFramebufferStride = FB_STRIDE"
section \<open>Slots\<close>

lemma NUM_SLOTS_3 [simp]: "NUM_SLOTS = 3"
  by (simp add: NUM_SLOTS_def)

lemma slots_upt [simp]: "[0..<3] = [0, 1, 2::nat]"
  by (simp add: upt_rec)

lemma less_3_cases: "(i::nat) < 3 \<longleftrightarrow> i = 0 \<or> i = 1 \<or> i = 2"
  by auto

definition states :: "vi \<Rightarrow> u32 list" where
  "states v = map slot_state (slots (buffer_queue v))"

definition bq_inv :: "vi \<Rightarrow> bool" where
  "bq_inv v \<longleftrightarrow> length (slots (buffer_queue v)) = NUM_SLOTS
     \<and> unat (next_dequeue_slot (buffer_queue v)) \<le> NUM_SLOTS
     \<and> (\<forall>s \<in> set (slots (buffer_queue v)). slot_state s \<le> ACQUIRED \<and> length (crop s) = 4)"

lemma upd_slot_simps [simp]:
  "slots (buffer_queue (upd_slot i f v)) = (slots (buffer_queue v))[i := f (slots (buffer_queue v) ! i)]"
  "next_dequeue_slot (buffer_queue (upd_slot i f v)) = next_dequeue_slot (buffer_queue v)"
  "connected (buffer_queue (upd_slot i f v)) = connected (buffer_queue v)"
  "vi_new_frame (upd_slot i f v) = vi_new_frame v" "layer_created (upd_slot i f v) = layer_created v"
  by (simp_all add: upd_slot_def)

lemma set_next_simps [simp]:
  "slots (buffer_queue (set_next_dequeue n v)) = slots (buffer_queue v)"
  "next_dequeue_slot (buffer_queue (set_next_dequeue n v)) = n"
  "slots (buffer_queue (set_connected b v)) = slots (buffer_queue v)"
  "next_dequeue_slot (buffer_queue (set_connected b v)) = next_dequeue_slot (buffer_queue v)"
  by (simp_all add: set_next_dequeue_def set_connected_def)

lemma states_nth: "i < length (slots (buffer_queue v)) \<Longrightarrow> states v ! i = state_of v i"
  by (simp add: states_def state_of_def slot_at_def)

lemma states_upd [simp]: "states (upd_slot i f v) = (states v)[i := slot_state (f (slot_at v i))]"
  by (simp add: states_def slot_at_def map_update)

lemma states_same [simp]:
  "states (set_next_dequeue n v) = states v" "states (set_connected b v) = states v"
  "states (v\<lparr>layer_created := b\<rparr>) = states v" "states (v\<lparr>vi_new_frame := b\<rparr>) = states v"
  by (simp_all add: states_def)

lemma slot_at_upd [simp]:
  "i < length (slots (buffer_queue v)) \<Longrightarrow>
    slot_at (upd_slot i f v) j = (if j = i then f (slot_at v i) else slot_at v j)"
  by (simp add: slot_at_def)

lemma slot_at_same [simp]:
  "slot_at (set_next_dequeue n v) = slot_at v" "slot_at (set_connected b v) = slot_at v"
  "slot_at (v\<lparr>vi_new_frame := c\<rparr>) = slot_at v"
  by (auto simp: slot_at_def)

lemma bq_inv_upd:
  assumes "bq_inv v" and "i < NUM_SLOTS"
    and "slot_state (f (slot_at v i)) \<le> ACQUIRED" and "length (crop (f (slot_at v i))) = 4"
  shows "bq_inv (upd_slot i f v)"
  using assms set_update_subset_insert [of "slots (buffer_queue v)" i "f (slot_at v i)"]
  by (auto simp: bq_inv_def slot_at_def)

lemma bq_inv_slot:
  "bq_inv v \<Longrightarrow> i < NUM_SLOTS \<Longrightarrow> slot_state (slot_at v i) \<le> ACQUIRED \<and> length (crop (slot_at v i)) = 4"
  by (auto simp: bq_inv_def slot_at_def)

lemma bq_inv_flags [simp]:
  "bq_inv (v\<lparr>layer_created := b\<rparr>) = bq_inv v" "bq_inv (v\<lparr>vi_new_frame := b\<rparr>) = bq_inv v"
  "bq_inv (set_connected b v) = bq_inv v"
  "bq_inv v \<Longrightarrow> unat n \<le> NUM_SLOTS \<Longrightarrow> bq_inv (set_next_dequeue n v)"
  by (simp_all add: bq_inv_def)

lemma vi_init_inv: "bq_inv vi_init"
  by (simp add: bq_inv_def vi_init_def empty_slot_def)

lemma mod_slots: "unat (w mod of_nat NUM_SLOTS :: u32) < NUM_SLOTS"
proof -
  have "unat (w mod 3) < 3"
    by (simp add: unat_mod_distrib)
  then show ?thesis
    by simp
qed

lemma choose_dequeue_less: "choose_dequeue v < NUM_SLOTS"
  using mod_slots
  by (auto simp: choose_dequeue_def dequeue_candidates_def find_Some_iff split: option.split)

lemma sint_u32: "sint (w :: u32) = (if uint w < 2 ^ 31 then uint w else uint w - 2 ^ 32)"
proof -
  have b: "uint w < 2 ^ 32" "0 \<le> uint w"
    using uint_bounded [of w] by simp_all
  have "sint w = signed_take_bit 31 (uint w)"
    by (simp add: sint_uint)
  also have "\<dots> = take_bit 32 (uint w + 2 ^ 31) - 2 ^ 31"
    by (simp add: signed_take_bit_eq_take_bit_shift)
  also have "\<dots> = (if uint w < 2 ^ 31 then uint w else uint w - 2 ^ 32)"
  proof (cases "uint w < 2 ^ 31")
    case False
    have "(uint w + 2 ^ 31) mod 2 ^ 32 = (uint w - 2 ^ 31 + 2 ^ 32) mod 2 ^ 32"
      by (simp add: add.commute)
    also have "\<dots> = uint w - 2 ^ 31"
      using b False by (simp only: mod_add_self2) simp
    finally show ?thesis
      using False by (simp add: take_bit_eq_mod)
  qed (use b in \<open>simp add: take_bit_eq_mod\<close>)
  finally show ?thesis .
qed

lemma slot_in_range_iff: "slot_in_range w \<longleftrightarrow> unat w < NUM_SLOTS"
proof -
  obtain n where n: "unat w = n" "uint w = int n"
    by simp
  with unat_u32_less [of w] show ?thesis
    by (auto simp: slot_in_range_def sint_u32 n)
qed

section \<open>The service keeps the handler contract\<close>

lemmas vi_handlers = HandleInit_def HandleCloseDisplay_def HandleSetLayerZ_def HandleOpenDisplay_def HandleGetDisplayResolution_def HandleCreateLayer_def
  HandleDestroyLayer_def HandleOpenLayer_def HandleGetDisplayVsyncEvent_def HandleGetDisplayMode_def
  HandleDequeueBuffer_def HandleQueueBuffer_def HandleCancelBuffer_def HandleReleaseBuffer_def free_slot_def
  HandleAcquireBuffer_def HandleConnect_def HandleDisconnect_def HandleSetPreallocatedBufferCount_def

lemma Connect_fits: "fits out (HandleConnect out v)"
  by (auto simp: HandleConnect_def WriteBufferQueueParcelable_def Let_def fits_def bind_sum_Inr wr_def split: if_splits)

interpretation vi: handler_contract vi_HandleCommand
proof
  show "fits out (vi_HandleCommand cmd inp in_sz out m)" for out cmd inp in_sz m
    unfolding vi_HandleCommand_def
    by (intro fits_if Connect_fits; (simp only: vi_handlers)?; intro fits_intros) auto
qed

section \<open>The buffer queue of the specification\<close>

text \<open>
  The producer/consumer protocol the comments describe: a slot is handed out only when it is free, only
  a slot that was handed out is queued or cancelled, only a queued frame is acquired, and only an
  acquired frame is released.
\<close>

inductive bq_step :: "u32 list \<Rightarrow> u32 list \<Rightarrow> bool" where
  dequeue: "i < length ss \<Longrightarrow> ss ! i = FREE \<Longrightarrow> bq_step ss (ss[i := DEQUEUED])"
| queue: "i < length ss \<Longrightarrow> ss ! i = DEQUEUED \<Longrightarrow> bq_step ss (ss[i := QUEUED])"
| cancel: "i < length ss \<Longrightarrow> ss ! i = DEQUEUED \<Longrightarrow> bq_step ss (ss[i := FREE])"
| acquire: "i < length ss \<Longrightarrow> ss ! i = QUEUED \<Longrightarrow> bq_step ss (ss[i := ACQUIRED])"
| release: "i < length ss \<Longrightarrow> ss ! i = ACQUIRED \<Longrightarrow> bq_step ss (ss[i := FREE])"

text \<open>
  What the client has to observe. For \<open>DequeueBuffer\<close>: the next slot in turn is free, or some slot is
  free and none is on screen.
\<close>

definition next_slot :: "vi \<Rightarrow> nat" where
  "next_slot v = unat (next_dequeue_slot (buffer_queue v)) mod NUM_SLOTS"

definition slot_arg_in :: "u32 \<Rightarrow> vi \<Rightarrow> u8 list \<Rightarrow> nat \<Rightarrow> bool" where
  "slot_arg_in st v inp in_sz \<longleftrightarrow>
     (case arg_u32 4 0 0 inp in_sz of Inl _ \<Rightarrow> True | Inr w \<Rightarrow> unat w < NUM_SLOTS \<longrightarrow> state_of v (unat w) = st)"

definition disciplined :: "u32 \<Rightarrow> u8 list \<Rightarrow> nat \<Rightarrow> vi \<Rightarrow> bool" where
  "disciplined cmd inp in_sz v \<longleftrightarrow>
     (cmd = 100 \<longrightarrow> state_of v (next_slot v) = FREE
        \<or> (\<exists>i < NUM_SLOTS. state_of v i = FREE) \<and> (\<forall>i < NUM_SLOTS. state_of v i \<noteq> ACQUIRED))
     \<and> (cmd = 101 \<or> cmd = 102 \<longrightarrow> slot_arg_in DEQUEUED v inp in_sz)
     \<and> (cmd = 111 \<longrightarrow> slot_arg_in ACQUIRED v inp in_sz)"

lemma next_cases:
  assumes "bq_inv v"
  shows "next_dequeue_slot (buffer_queue v) \<in> {0, 1, 2, 3}"
proof -
  let ?n = "next_dequeue_slot (buffer_queue v)"
  obtain k where k: "?n = of_nat k" "k \<le> 3"
    using assms by (intro that [of "unat ?n"]) (simp_all add: bq_inv_def)
  then have "k = 0 \<or> k = 1 \<or> k = 2 \<or> k = 3"
    by linarith
  then show ?thesis
    by (auto simp: k(1))
qed

text \<open>The search visits every slot once, starting with the next one in turn.\<close>

lemma candidates:
  assumes "bq_inv v"
  shows "hd (dequeue_candidates v) = next_slot v" and "set (dequeue_candidates v) = {0, 1, 2}"
    and "dequeue_candidates v \<noteq> []"
  using next_cases [OF assms] by (auto simp: dequeue_candidates_def next_slot_def)

lemma choose_free:
  assumes "bq_inv v"
    and "state_of v (next_slot v) = FREE
      \<or> (\<exists>i < NUM_SLOTS. state_of v i = FREE) \<and> (\<forall>i < NUM_SLOTS. state_of v i \<noteq> ACQUIRED)"
  shows "state_of v (choose_dequeue v) = FREE"
proof -
  let ?P = "\<lambda>i. state_of v i = FREE \<or> state_of v i = ACQUIRED"
  obtain c cs where cs: "dequeue_candidates v = c # cs" "c = next_slot v" "set (c # cs) = {0, 1, 2}"
    using candidates [OF assms(1)] by (cases "dequeue_candidates v") auto
  show ?thesis
  proof (cases "state_of v (next_slot v) = FREE")
    case False
    then have ex: "\<exists>i \<in> set (c # cs). state_of v i = FREE" and no: "\<forall>i \<in> set (c # cs). state_of v i \<noteq> ACQUIRED"
      using assms(2) cs(3) by (auto simp: less_3_cases)
    then obtain i where i: "find ?P (c # cs) = Some i"
      by (cases "find ?P (c # cs)") (auto simp: find_None_iff simp del: find.simps)
    then have "i \<in> set (c # cs)" "?P i"
      by (rule find_SomeD)+
    with no i show ?thesis
      by (auto simp: choose_dequeue_def cs(1) simp del: find.simps)
  qed (simp add: choose_dequeue_def cs)
qed

lemma dequeue_inv: "bq_inv v \<Longrightarrow> bq_inv (set_next_dequeue (of_nat (choose_dequeue v) + 1)
    (upd_slot (choose_dequeue v) (\<lambda>s. s\<lparr>slot_state := DEQUEUED\<rparr>) v))"
  using choose_dequeue_less [of v] bq_inv_slot [of v "choose_dequeue v"]
  by (auto intro!: bq_inv_upd bq_inv_flags(4) simp: less_3_cases)

lemma parse_crop_ok:
  "parse_crop inp in_sz s = Inr s' \<Longrightarrow> length (crop s) = 4 \<Longrightarrow>
     length (crop s') = 4 \<and> slot_state s' = slot_state s \<and> gpu_address s' = gpu_address s"
  by (auto simp: parse_crop_def bind_sum_Inr split: if_splits)

text \<open>The effect of the queue operations on the state, without the answer.\<close>

lemma Dequeue_effect:
  assumes "bq_inv v" and "HandleDequeueBuffer inp in_sz out v = Inr (ok, out', n, v')"
  shows "bq_inv v' \<and> states v' = (states v)[choose_dequeue v := DEQUEUED]"
  using assms dequeue_inv [OF assms(1)]
  by (auto simp: HandleDequeueBuffer_def Let_def bind_sum_Inr dest!: answer_states)

lemma Queue_effect:
  assumes "bq_inv v" and "HandleQueueBuffer inp in_sz out v = Inr (ok, out', n, v')"
  obtains "v' = v" | w where "arg_u32 4 0 0 inp in_sz = Inr w" "unat w < NUM_SLOTS" "bq_inv v'"
    "states v' = (states v)[unat w := QUEUED]"
proof -
  obtain w where w: "arg_u32 4 0 0 inp in_sz = Inr w"
    using assms(2) by (auto simp: HandleQueueBuffer_def bind_sum_Inr)
  show ?thesis
  proof (cases "slot_in_range w")
    case True
    with assms(2) w obtain s1 t where
      s1: "parse_crop inp in_sz ((slot_at v (unat w))\<lparr>slot_state := QUEUED\<rparr>) = Inr s1" and
      v': "v' = (upd_slot (unat w) (\<lambda>_. s1\<lparr>transform := t\<rparr>) v)\<lparr>vi_new_frame := True\<rparr>"
      by (auto simp: HandleQueueBuffer_def bind_sum_Inr Let_def dest!: answer_states)
    have lt: "unat w < NUM_SLOTS"
      using True by (simp add: slot_in_range_iff)
    with assms(1) s1 have "length (crop s1) = 4" "slot_state s1 = QUEUED"
      using bq_inv_slot [OF assms(1) lt] parse_crop_ok [OF s1] by simp_all
    then show ?thesis
      using that(2) [OF w lt] lt assms(1) by (simp add: v' bq_inv_upd)
  next
    case False
    then show ?thesis
      using assms(2) w that(1) by (auto simp: HandleQueueBuffer_def dest!: answer_states)
  qed
qed

lemma free_slot_effect:
  assumes "bq_inv v" and "free_slot inp in_sz out v = Inr (ok, out', n, v')"
  obtains "v' = v" | w where "arg_u32 4 0 0 inp in_sz = Inr w" "unat w < NUM_SLOTS" "bq_inv v'"
    "states v' = (states v)[unat w := FREE]"
proof -
  obtain w where w: "arg_u32 4 0 0 inp in_sz = Inr w"
    and v': "v' = (if slot_in_range w then upd_slot (unat w) (\<lambda>s. s\<lparr>slot_state := FREE\<rparr>) v else v)"
    using assms(2) by (auto simp: free_slot_def bind_sum_Inr dest!: answer_states)
  show ?thesis
  proof (cases "slot_in_range w")
    case True
    then show ?thesis
      using that(2) [OF w] assms(1) bq_inv_slot [OF assms(1), of "unat w"]
      by (simp add: v' slot_in_range_iff bq_inv_upd)
  qed (use that(1) v' in simp)
qed

lemma Acquire_effect:
  assumes "bq_inv v" and "HandleAcquireBuffer out v = Inr (ok, out', n, v')"
  obtains "v' = v" | i where "i < NUM_SLOTS" "state_of v i = QUEUED" "bq_inv v'"
    "states v' = (states v)[i := ACQUIRED]"
proof (cases "find (\<lambda>i. state_of v i = QUEUED) [0..<NUM_SLOTS]")
  case None
  then show ?thesis
    using assms(2) that(1) by (simp add: HandleAcquireBuffer_def) (blast dest: answer_states)
next
  case (Some i)
  then have i: "i < NUM_SLOTS" "state_of v i = QUEUED"
    using find_SomeD [OF Some] by auto
  have "v' = upd_slot i (\<lambda>s. s\<lparr>slot_state := ACQUIRED\<rparr>) v"
    using assms(2) Some by (auto simp: HandleAcquireBuffer_def Let_def simp del: slots_upt find.simps dest!: answer_states)
  then show ?thesis
    using that(2) [OF i] i assms(1) bq_inv_slot [OF assms(1) i(1)] by (simp add: bq_inv_upd)
qed

lemma other_effect:
  assumes "vi_HandleCommand cmd inp in_sz out v = Inr (ok, out', n, v')" and "cmd \<notin> {100, 101, 102, 110, 111}"
  shows "states v' = states v \<and> bq_inv v' = bq_inv v"
proof -
  have "v' \<in> {v, v\<lparr>layer_created := True\<rparr>, v\<lparr>layer_created := False\<rparr>, set_connected True v, set_connected False v}"
    using assms
    by (auto simp: vi_HandleCommand_def vi_handlers Let_def bind_sum_Inr split: if_splits dest: answer_states)
  then show ?thesis
    by auto
qed

section \<open>Properties\<close>

lemma vi_keeps_inv:
  assumes "bq_inv v" and "vi_HandleCommand cmd inp in_sz out v = Inr (ok, out', n, v')"
  shows "bq_inv v'"
proof (cases "cmd \<in> {100, 101, 102, 110, 111}")
  case True
  then consider "HandleDequeueBuffer inp in_sz out v = Inr (ok, out', n, v')"
    | "HandleQueueBuffer inp in_sz out v = Inr (ok, out', n, v')"
    | "free_slot inp in_sz out v = Inr (ok, out', n, v')"
    | "HandleAcquireBuffer out v = Inr (ok, out', n, v')"
    using assms(2) by (auto simp: vi_HandleCommand_def HandleCancelBuffer_def HandleReleaseBuffer_def)
  then show ?thesis
    using assms(1) by cases (auto dest: Dequeue_effect elim: Queue_effect free_slot_effect Acquire_effect)
next
  case False
  then show ?thesis
    using other_effect [OF assms(2)] assms(1) by simp
qed

lemma vi_protocol_step:
  assumes inv: "bq_inv v" and run: "vi_HandleCommand cmd inp in_sz out v = Inr (ok, out', n, v')"
    and dis: "disciplined cmd inp in_sz v"
  shows "states v' = states v \<or> bq_step (states v) (states v')"
proof -
  have len: "length (states v) = 3"
    using inv by (simp add: states_def bq_inv_def)
  have st: "states v ! i = state_of v i" if "i < 3" for i
    using inv that by (simp add: states_nth bq_inv_def)
  consider "cmd = 100" | "cmd = 101" | "cmd = 102 \<or> cmd = 111" | "cmd = 110" | "cmd \<notin> {100, 101, 102, 110, 111}"
    by auto
  then show ?thesis
  proof cases
    case 1
    then have "states v' = (states v)[choose_dequeue v := DEQUEUED]"
      using run Dequeue_effect [OF inv] by (simp add: vi_HandleCommand_def)
    then show ?thesis
      using choose_free [OF inv] dis 1 choose_dequeue_less [of v] len st
      by (auto simp: disciplined_def intro!: bq_step.dequeue)
  next
    case 2
    then have "HandleQueueBuffer inp in_sz out v = Inr (ok, out', n, v')"
      using run by (simp add: vi_HandleCommand_def)
    with inv show ?thesis
      using dis 2 len st by (cases rule: Queue_effect) (auto simp: disciplined_def slot_arg_in_def intro!: bq_step.queue)
  next
    case 3
    then have "free_slot inp in_sz out v = Inr (ok, out', n, v')"
      using run by (auto simp: vi_HandleCommand_def HandleCancelBuffer_def HandleReleaseBuffer_def)
    with inv show ?thesis
      using dis 3 len st
      by (cases rule: free_slot_effect)
        (auto simp: disciplined_def slot_arg_in_def intro: bq_step.cancel bq_step.release)
  next
    case 4
    then have "HandleAcquireBuffer out v = Inr (ok, out', n, v')"
      using run by (simp add: vi_HandleCommand_def)
    with inv show ?thesis
      using len st by (cases rule: Acquire_effect) (auto intro!: bq_step.acquire)
  next
    case 5
    then show ?thesis
      using other_effect [OF run] by simp
  qed
qed




lemma find_unique:
  assumes "k < NUM_SLOTS" and "\<And>i. i < NUM_SLOTS \<Longrightarrow> P i \<longleftrightarrow> i = k"
  shows "find P [0..<NUM_SLOTS] = Some k"
  using assms by (auto simp: less_3_cases)

lemma unat_slot: "k < NUM_SLOTS \<Longrightarrow> unat (of_nat k :: u32) = k"
  by (simp add: unsigned_of_nat take_bit_nat_eq_self)

lemma unat_slot_range: "k < NUM_SLOTS \<Longrightarrow> slot_in_range (of_nat k)"
  by (simp add: slot_in_range_iff unat_slot del: NUM_SLOTS_3)

lemma Dequeue_run:
  assumes "24 \<le> length out" and "bq_inv v"
  obtains o1 v1 where "vi_HandleCommand 100 [] 0 out v = Inr (True, o1, 24, v1)"
    and "take 4 o1 = le_bytes 4 (of_nat (choose_dequeue v) :: u32)"
    and "get_bytes o1 12 8 = le_bytes 8 (gpu_address (slot_at v (choose_dequeue v)))"
    and "slot_at v1 = (\<lambda>i. if i = choose_dequeue v then (slot_at v i)\<lparr>slot_state := DEQUEUED\<rparr> else slot_at v i)"
proof (rule that)
  let ?k = "choose_dequeue v"
  let ?v1 = "set_next_dequeue (of_nat ?k + 1) (upd_slot ?k (\<lambda>s. s\<lparr>slot_state := DEQUEUED\<rparr>) v)"
  let ?bs = "le_bytes 4 (of_nat ?k :: u32) @ le_bytes 4 (0 :: u32) @ le_bytes 4 (0 :: u32)
             @ le_bytes 8 (gpu_address (slot_at v ?k)) @ le_bytes 4 FB_STRIDE"
  have len: "length (slots (buffer_queue v)) = 3"
    using assms(2) by (simp add: bq_inv_def)
  show "vi_HandleCommand 100 [] 0 out v = Inr (True, put_bytes out 0 ?bs, 24, ?v1)"
    using assms(1) choose_dequeue_less [of v] len
    by (simp add: vi_HandleCommand_def HandleDequeueBuffer_def Let_def answer_def)
  show "take 4 (put_bytes out 0 ?bs) = le_bytes 4 (of_nat ?k :: u32)"
    using assms(1) by (simp add: put_prefix)
  show "get_bytes (put_bytes out 0 ?bs) 12 8 = le_bytes 8 (gpu_address (slot_at v ?k))"
    using assms(1) by (simp add: get_put_prefix) (simp add: get_bytes_def)
  show "slot_at ?v1 = (\<lambda>i. if i = ?k then (slot_at v i)\<lparr>slot_state := DEQUEUED\<rparr> else slot_at v i)"
    using choose_dequeue_less [of v] len by (auto simp: fun_eq_iff bq_inv_def)
qed

lemma Queue_run:
  assumes "4 \<le> length out" and "bq_inv v" and "k < NUM_SLOTS"
  obtains o2 v2 where "vi_HandleCommand 101 (le_bytes 4 (of_nat k :: u32)) 4 out v = Inr (True, o2, 4, v2)"
    and "vi_new_frame v2"
    and "slot_at v2 = (\<lambda>i. if i = k then (slot_at v i)\<lparr>slot_state := QUEUED\<rparr> else slot_at v i)"
proof (rule that)
  let ?v2 = "(upd_slot k (\<lambda>_. (slot_at v k)\<lparr>slot_state := QUEUED\<rparr>) v)\<lparr>vi_new_frame := True\<rparr>"
  show "vi_HandleCommand 101 (le_bytes 4 (of_nat k :: u32)) 4 out v
      = Inr (True, put_bytes out 0 (le_bytes 4 (0 :: u32)), 4, ?v2)"
    using assms unat_slot [OF assms(3)] unat_slot_range [OF assms(3)]
    by (simp add: vi_HandleCommand_def HandleQueueBuffer_def Let_def answer_def parse_crop_def)
  show "slot_at ?v2 = (\<lambda>i. if i = k then (slot_at v i)\<lparr>slot_state := QUEUED\<rparr> else slot_at v i)"
    using assms by (auto simp: fun_eq_iff bq_inv_def)
qed simp

lemma Acquire_run:
  assumes "28 \<le> length out" and "bq_inv v" and "find (\<lambda>i. state_of v i = QUEUED) [0..<NUM_SLOTS] = Some k"
  obtains o3 v3 where "vi_HandleCommand 110 [] 0 out v = Inr (True, o3, 28, v3)"
    and "take 4 o3 = le_bytes 4 (of_nat k :: u32)" and "get_bytes o3 8 8 = le_bytes 8 (gpu_address (slot_at v k))"
    and "slot_at v3 = (\<lambda>i. if i = k then (slot_at v i)\<lparr>slot_state := ACQUIRED\<rparr> else slot_at v i)"
proof (rule that)
  let ?v3 = "upd_slot k (\<lambda>s. s\<lparr>slot_state := ACQUIRED\<rparr>) v"
  let ?bs = "le_bytes 4 (of_nat k :: u32) @ le_bytes 4 (0 :: u32) @ le_bytes 8 (gpu_address (slot_at v k))
               @ le_bytes 4 FB_STRIDE @ le_bytes 4 FB_WIDTH @ le_bytes 4 FB_HEIGHT"
  have "k < 3"
    using find_SomeD(1) [OF assms(3)] by auto
  then have k: "k < length (slots (buffer_queue v))"
    using assms(2) by (simp add: bq_inv_def)
  show "vi_HandleCommand 110 [] 0 out v = Inr (True, put_bytes out 0 ?bs, 28, ?v3)"
    using assms k by (simp add: vi_HandleCommand_def HandleAcquireBuffer_def Let_def answer_def del: slots_upt find.simps)
  show "take 4 (put_bytes out 0 ?bs) = le_bytes 4 (of_nat k :: u32)"
    using assms(1) by (simp add: put_prefix)
  show "get_bytes (put_bytes out 0 ?bs) 8 8 = le_bytes 8 (gpu_address (slot_at v k))"
    using assms(1) by (simp add: get_put_prefix) (simp add: get_bytes_def)
  show "slot_at ?v3 = (\<lambda>i. if i = k then (slot_at v i)\<lparr>slot_state := ACQUIRED\<rparr> else slot_at v i)"
    using k by (auto simp: fun_eq_iff bq_inv_def)
qed



text \<open>
  Two departures from the protocol. \<open>DequeueBuffer\<close> never refuses: with no free slot it hands out one
  that is on screen, or failing that one that still waits to be shown or that the client already holds.
  \<open>AcquireBuffer\<close> takes the waiting frame with the lowest slot number, not the oldest one.
\<close>

theorem vi_dequeue_takes_busy_slot:
  assumes "bq_inv v" and "\<forall>i < NUM_SLOTS. state_of v i \<noteq> FREE" and "24 \<le> length out"
  shows "\<exists>k out' v'. vi_HandleCommand 100 [] 0 out v = Inr (True, out', 24, v') \<and> k < NUM_SLOTS
    \<and> take 4 out' = le_bytes 4 (of_nat k :: u32) \<and> state_of v k \<noteq> FREE \<and> state_of v' k = DEQUEUED"
proof -
  obtain o1 v1 where d: "vi_HandleCommand 100 [] 0 out v = Inr (True, o1, 24, v1)"
    "take 4 o1 = le_bytes 4 (of_nat (choose_dequeue v) :: u32)"
    "get_bytes o1 12 8 = le_bytes 8 (gpu_address (slot_at v (choose_dequeue v)))"
    "slot_at v1 = (\<lambda>i. if i = choose_dequeue v then (slot_at v i)\<lparr>slot_state := DEQUEUED\<rparr> else slot_at v i)"
    by (rule Dequeue_run [OF assms(3,1)])
  moreover have "state_of v1 (choose_dequeue v) = DEQUEUED"
    by (simp add: state_of_def d(4))
  ultimately show ?thesis
    using choose_dequeue_less [of v] assms(2) by blast
qed

lemma acquire_lowest_not_oldest:
  "\<exists>o1 v1 o2 v2 o3 v3. vi_HandleCommand 101 (le_bytes 4 (1 :: u32)) 4 (replicate 28 0) vi_init = Inr (True, o1, 4, v1)
     \<and> vi_HandleCommand 101 (le_bytes 4 (0 :: u32)) 4 (replicate 28 0) v1 = Inr (True, o2, 4, v2)
     \<and> vi_HandleCommand 110 [] 0 (replicate 28 0) v2 = Inr (True, o3, 28, v3) \<and> take 4 o3 = le_bytes 4 (0 :: u32)"
proof -
  have n: "1 < NUM_SLOTS" "0 < NUM_SLOTS"
    by simp_all
  obtain o1 v1 where q1: "vi_HandleCommand 101 (le_bytes 4 (of_nat 1 :: u32)) 4 (replicate 28 0) vi_init = Inr (True, o1, 4, v1)"
    "vi_new_frame v1" "slot_at v1 = (\<lambda>i. if i = 1 then (slot_at vi_init i)\<lparr>slot_state := QUEUED\<rparr> else slot_at vi_init i)"
    by (rule Queue_run [OF _ vi_init_inv n(1), of "replicate 28 0"]) simp
  note i1 = vi_keeps_inv [OF vi_init_inv q1(1)]
  obtain o2 v2 where q2: "vi_HandleCommand 101 (le_bytes 4 (of_nat 0 :: u32)) 4 (replicate 28 0) v1 = Inr (True, o2, 4, v2)"
    "vi_new_frame v2" "slot_at v2 = (\<lambda>i. if i = 0 then (slot_at v1 i)\<lparr>slot_state := QUEUED\<rparr> else slot_at v1 i)"
    by (rule Queue_run [OF _ i1 n(2), of "replicate 28 0"]) simp
  note i2 = vi_keeps_inv [OF i1 q2(1)]
  have "find (\<lambda>i. state_of v2 i = QUEUED) [0..<NUM_SLOTS] = Some 0"
    by (simp add: state_of_def q2(3))
  then obtain o3 v3 where
    "vi_HandleCommand 110 [] 0 (replicate 28 0) v2 = Inr (True, o3, 28, v3)" "take 4 o3 = le_bytes 4 (of_nat 0 :: u32)"
    by (rule Acquire_run [of "replicate 28 0", OF _ i2, rotated]) simp_all
  with q1(1) q2(1) show ?thesis
    by simp
qed

lemma slot_addresses:
  assumes "length (slots (buffer_queue v)) = NUM_SLOTS" and "i < NUM_SLOTS"
  shows "gpu_address (slot_at (set_slot_addresses v) i) = FB_ADDR + of_nat i * (FB_SIZE div 2)"
  using assms by (auto simp: set_slot_addresses_def less_3_cases slot_at_def)

lemma MapPhysical_keeps:
  assumes "\<And>img a n. vm_map host img a n \<noteq> None" and "address + sz \<le> ADDR_SPACE_SIZE"
    and "IsAligned address PAGE_SIZE" and "IsAligned sz PAGE_SIZE"
  shows "pages (snd (MapPhysical host m address sz perm None))
      = (pages m)(address \<mapsto> \<lparr>pg_size = sz, pg_flags = ucast perm\<rparr>)"
proof -
  have "vm_map host img a n = Some (the (vm_map host img a n))" for img a n
    using assms(1) by simp
  then obtain f where f: "vm_map host = (\<lambda>img a n. Some (f img a n))"
    by (metis (no_types) ext)
  show ?thesis
    using assms(2-4) leD [OF assms(2)] by (simp add: MapPhysical_def Let_def f)
qed

lemma pages_guest_writes [simp]:
  "pages (memset_guest m a b n) = pages m" "pages (memcpy_guest m a bs) = pages m"
  by (auto simp: memset_guest_def memcpy_guest_def split: option.split)

text \<open>
  After start-up the three buffers of the queue are usable: each frame
  (\<open>FB_STRIDE * FB_HEIGHT\<close> bytes) lies inside one of the two mapped regions, with read and write
  permission, and no two frames overlap.
\<close>

definition frame_end :: "vi \<Rightarrow> nat \<Rightarrow> nat" where
  "frame_end v i = unat (gpu_address (slot_at v i)) + unat FB_STRIDE * unat FB_HEIGHT"

theorem vi_frames_mapped:
  assumes "\<And>img a n. vm_map host img a n \<noteq> None" and "bq_inv v" and "ServiceVi_Init host (Some m, v) = (Some m', v')"
  shows "(\<forall>i < NUM_SLOTS. \<exists>b p. pages m' b = Some p \<and> pg_flags p = ucast Perm_RW
        \<and> unat b \<le> unat (gpu_address (slot_at v' i)) \<and> frame_end v' i \<le> unat b + unat (pg_size p))
     \<and> (\<forall>j < NUM_SLOTS. \<forall>i < j. frame_end v' i \<le> unat (gpu_address (slot_at v' j)))"
proof -
  have al: "IsAligned FB_ADDR PAGE_SIZE" "IsAligned FB_ADDR_DUAL PAGE_SIZE" "IsAligned FB_SIZE PAGE_SIZE"
    by (simp_all add: IsAligned_def fb_consts mem_consts)
  have v': "v' = set_slot_addresses v" and m': "m' = map_framebuffers host 0xFF m"
    using assms(3) by (simp_all add: ServiceVi_Init_def)
  have pg: "pages m' FB_ADDR = Some \<lparr>pg_size = FB_SIZE, pg_flags = ucast Perm_RW\<rparr>"
    "pages m' FB_ADDR_DUAL = Some \<lparr>pg_size = FB_SIZE, pg_flags = ucast Perm_RW\<rparr>"
    using al MapPhysical_keeps [OF assms(1)]
    by (simp_all add: m' map_framebuffers_def Let_def fb_consts mem_consts)
  have ad: "gpu_address (slot_at v' 0) = 0xE0000000" "gpu_address (slot_at v' 1) = 0xE0400000"
    "gpu_address (slot_at v' 2) = 0xE0800000"
    using assms(2) by (simp_all add: v' slot_addresses bq_inv_def fb_consts)
  have "\<exists>b p. pages m' b = Some p \<and> pg_flags p = ucast Perm_RW
        \<and> unat b \<le> unat (gpu_address (slot_at v' i)) \<and> frame_end v' i \<le> unat b + unat (pg_size p)"
    if "i < NUM_SLOTS" for i
    using that pg ad
    by (intro exI [of _ "if i < 2 then FB_ADDR else FB_ADDR_DUAL"])
      (auto simp: less_3_cases frame_end_def fb_consts)
  moreover have "frame_end v' i \<le> unat (gpu_address (slot_at v' j))" if "j < NUM_SLOTS" "i < j" for i j
  proof -
    have "j = 1 \<and> i = 0 \<or> j = 2 \<and> i = 0 \<or> j = 2 \<and> i = 1"
      using that by auto
    then show ?thesis
      by (auto simp: frame_end_def ad ad(2) [unfolded One_nat_def] fb_consts)
  qed
  ultimately show ?thesis
    by blast
qed

theorem vi_frames_mapped_witness:
  "let (mem, v) = ServiceVi_Init zero_fill_host (Some (Memory_init (\<lambda>_. 0)), vi_init)
   in frame_end v 0 \<le> unat (gpu_address (slot_at v 1)) \<and> (\<exists>m b p. mem = Some m \<and> pages m b = Some p)"
proof -
  obtain m' v' where r: "ServiceVi_Init zero_fill_host (Some (Memory_init (\<lambda>_. 0)), vi_init) = (Some m', v')"
    by (simp add: ServiceVi_Init_def)
  have "vm_map zero_fill_host img a n \<noteq> None" for img a n
    by (simp add: zero_fill_host_def)
  from vi_frames_mapped [OF this vi_init_inv r]
  have "frame_end v' 0 \<le> unat (gpu_address (slot_at v' 1))" "\<exists>b p. pages m' b = Some p"
    unfolding NUM_SLOTS_3 by (simp, meson zero_less_numeral)
  then show ?thesis
    by (simp add: r)
qed
end
