(* ===== verification/Gpfifo.thy ===== *)
theory Gpfifo
  imports Prelude
begin

unbundle bit_operations_syntax

text \<open>
  The GPU command stream parser: \<^verbatim>\<open>src/src/gpu/engine/GPFifo.h\<close> and
  \<^verbatim>\<open>src/src/gpu/engine/GPFifo.cpp\<close>, with the method numbers of
  \<^verbatim>\<open>src/src/gpu/maxwell/MethodDefs.h\<close> that it interprets itself.

  \<open>Process\<close> is the loop of the code over a position in the word buffer. The callback that the parser
  is given is a function on the state of whoever installed it; a parser without a callback is the
  callback that changes nothing. The reference definition \<open>decode\<close> describes the language of command
  streams by recursion on the words themselves; the loop is proved to compute it. Commands as a driver
  writes them (\<open>command\<close>, laid out bit by bit by \<open>layout\<close>) are decoded to the calls they stand for.
\<close>

section \<open>Header words\<close>

datatype Mode = Increasing | NonIncreasing | Inline | IncreaseOnce | UnknownMode u32

fun mode_of :: "u32 \<Rightarrow> Mode" where
  "mode_of m = (if m = 1 then Increasing else if m = 3 then NonIncreasing
     else if m = 4 then Inline else if m = 5 then IncreaseOnce else UnknownMode m)"

fun mode_value :: "Mode \<Rightarrow> u32" where
  "mode_value Increasing = 1"
| "mode_value NonIncreasing = 3"
| "mode_value Inline = 4"
| "mode_value IncreaseOnce = 5"
| "mode_value (UnknownMode m) = m"

definition MakeHeader :: "Mode \<Rightarrow> u32 \<Rightarrow> u32 \<Rightarrow> u32 \<Rightarrow> u32" where
  "MakeHeader mode method arg subch =
     (method AND 0x1FFF) OR push_bit 13 (subch AND 0x7) OR push_bit 16 (arg AND 0x1FFF)
       OR push_bit 29 (mode_value mode AND 0x7)"

definition GetMethod :: "u32 \<Rightarrow> u32" where "GetMethod header = header AND 0x1FFF"
definition GetSubchannel :: "u32 \<Rightarrow> u32" where "GetSubchannel hdr = drop_bit 13 hdr AND 0x7"
definition GetArg :: "u32 \<Rightarrow> u32" where "GetArg header = drop_bit 16 header AND 0x1FFF"
definition GetMode :: "u32 \<Rightarrow> Mode" where "GetMode header = mode_of (drop_bit 29 header AND 0x7)"

section \<open>Subchannels\<close>

datatype EngineType = Engine3D | Engine2D | EngineDma | EngineInline | EngineCompute

definition subch_engines_init :: "EngineType list" where
  "subch_engines_init =
     [Engine3D, Engine2D, EngineDma, EngineInline, EngineCompute, Engine3D, Engine3D, Engine3D]"

definition GetEngine :: "EngineType list \<Rightarrow> u32 \<Rightarrow> EngineType" where
  "GetEngine engines subch = (if subch < 8 then engines ! unat subch else Engine3D)"

definition SetEngine :: "EngineType list \<Rightarrow> u32 \<Rightarrow> EngineType \<Rightarrow> EngineType list" where
  "SetEngine engines subch ty = (if subch < 8 then engines[unat subch := ty] else engines)"

section \<open>Processing\<close>

text \<open>\<open>GpfifoHandler::Handle\<close>: semaphore, reference and syncpoint methods are only logged.\<close>

definition GpfifoHandle :: "u32 \<Rightarrow> u32 \<Rightarrow> bool" where
  "GpfifoHandle method arg \<longleftrightarrow>
     method = 0x004 \<or> method = 0x006 \<or> method = 0x007 \<or> method = 0x014 \<or> method = 0x01C \<or> method = 0x01D"

type_synonym 's callback = "u32 \<Rightarrow> u32 \<Rightarrow> u32 \<Rightarrow> 's \<Rightarrow> 's"

text \<open>The two argument loops: \<open>stride\<close> is 1 for increasing methods and 0 for a fixed method.\<close>

fun arg_loop :: "'s callback \<Rightarrow> u32 list \<Rightarrow> nat \<Rightarrow> u32 \<Rightarrow> u32 \<Rightarrow> u32 \<Rightarrow> nat \<Rightarrow> nat \<Rightarrow> 's \<Rightarrow> 's" where
  "arg_loop cb words pos subch method stride i 0 s = s"
| "arg_loop cb words pos subch method stride i (Suc n) s =
     arg_loop cb words pos subch method stride (Suc i) n
       (cb subch (method + stride * of_nat i) (words ! (pos + 1 + i)) s)"

function Process :: "'s callback \<Rightarrow> u32 list \<Rightarrow> nat \<Rightarrow> 's \<Rightarrow> nat \<times> 's" where
  "Process cb words pos s =
     (if \<not> pos < length words then (pos, s)
      else
        let header = words ! pos;
            method = GetMethod header;
            arg = GetArg header;
            subch = GetSubchannel header
        in if subch = 0 \<and> GpfifoHandle method arg then Process cb words (pos + 1) s
           else case GetMode header of
             Increasing \<Rightarrow>
               if pos + 1 + unat arg > length words then (pos, s)
               else Process cb words (pos + (1 + unat arg))
                      (arg_loop cb words pos subch method 1 0 (unat arg) s)
           | NonIncreasing \<Rightarrow>
               if pos + 1 + unat arg > length words then (pos, s)
               else Process cb words (pos + (1 + unat arg))
                      (arg_loop cb words pos subch method 0 0 (unat arg) s)
           | Inline \<Rightarrow> Process cb words (pos + 1) (cb subch method arg s)
           | IncreaseOnce \<Rightarrow>
               if pos + 2 > length words then (pos, s)
               else Process cb words (pos + 2) (cb subch method (words ! (pos + 1)) s)
           | UnknownMode _ \<Rightarrow> Process cb words (pos + 1) s)"
  by pat_completeness auto
termination
  by (relation "measure (\<lambda>(cb, words, pos, s). length words - pos)") auto

declare Process.simps [simp del]

definition ProcessEntry :: "'s callback \<Rightarrow> u32 \<Rightarrow> u32 \<Rightarrow> 's \<Rightarrow> bool \<times> 's" where
  "ProcessEntry cb method arg s = (True, cb 0 method arg s)"

section \<open>Header lemmas\<close>

lemma field_masks: "(0x1FFF::u32) = mask 13" "(0x7::u32) = mask 3"
  by (simp_all add: mask_eq_exp_minus_1)

lemma GetMethod_MakeHeader: "GetMethod (MakeHeader mode m a s) = m AND 0x1FFF"
  unfolding GetMethod_def MakeHeader_def field_masks
  by (rule bit_word_eqI) (auto simp: bit_simps)

lemma GetSubchannel_MakeHeader: "GetSubchannel (MakeHeader mode m a s) = s AND 0x7"
  unfolding GetSubchannel_def MakeHeader_def field_masks
  by (rule bit_word_eqI) (auto simp: bit_simps)

lemma GetArg_MakeHeader: "GetArg (MakeHeader mode m a s) = a AND 0x1FFF"
  unfolding GetArg_def MakeHeader_def field_masks
  by (rule bit_word_eqI) (auto simp: bit_simps)

lemma GetMode_MakeHeader: "GetMode (MakeHeader mode m a s) = mode_of (mode_value mode AND 0x7)"
proof -
  have "drop_bit 29 (MakeHeader mode m a s) AND 0x7 = mode_value mode AND 0x7"
    unfolding MakeHeader_def field_masks by (rule bit_word_eqI) (auto simp: bit_simps)
  then show ?thesis by (simp add: GetMode_def)
qed

lemmas header_fields = GetMethod_MakeHeader GetSubchannel_MakeHeader GetArg_MakeHeader GetMode_MakeHeader

text \<open>Fields that fit are unchanged by the masks of the header.\<close>

lemma and_mask_id:
  assumes "unat (x::'a::len word) < 2 ^ k"
  shows "x AND mask k = x"
proof -
  have "unat (x AND mask k) = unat x"
    using assms by (simp add: unat_and_mask)
  then show ?thesis
    by (metis of_nat_unat ucast_id)
qed

lemma and_field_13: "(x::u32) < 0x2000 \<Longrightarrow> x AND 0x1FFF = x"
  unfolding field_masks by (rule and_mask_id) (simp add: word_less_nat_alt)

lemma and_field_3: "(x::u32) < 8 \<Longrightarrow> x AND 0x7 = x"
  unfolding field_masks by (rule and_mask_id) (simp add: word_less_nat_alt)

lemma field_position:
  assumes "n < LENGTH(32)"
  obtains "n < 13" | j where "n = 13 + j" "j < 3" | j where "n = 16 + j" "j < 13"
    | j where "n = 29 + j" "j < 3"
proof -
  consider "n < 13" | "13 \<le> n" "n < 16" | "16 \<le> n" "n < 29" | "29 \<le> n"
    by linarith
  then show ?thesis
    using assms that(1) that(2) [of "n - 13"] that(3) [of "n - 16"] that(4) [of "n - 29"]
    by cases simp_all
qed

lemma MakeHeader_fields: "MakeHeader (GetMode h) (GetMethod h) (GetArg h) (GetSubchannel h) = h"
proof -
  have m: "mode_value (GetMode h) = drop_bit 29 h AND 0x7"
    by (simp add: GetMode_def)
  show ?thesis
    unfolding MakeHeader_def m GetMethod_def GetArg_def GetSubchannel_def field_masks
    by (rule bit_word_eqI) (erule field_position, simp_all add: bit_simps)
qed

section \<open>The language of command streams\<close>

text \<open>
  \<open>decode\<close> lists the method calls that a word sequence stands for and how many words it consumes. It
  stops at a command whose arguments are missing.
\<close>

type_synonym call = "u32 \<times> u32 \<times> u32"

definition arg_calls :: "u32 \<Rightarrow> u32 \<Rightarrow> u32 \<Rightarrow> u32 list \<Rightarrow> call list" where
  "arg_calls subch method stride vs =
     map (\<lambda>i. (subch, method + stride * of_nat i, vs ! i)) [0..<length vs]"

text \<open>One command: the calls it makes and the words it takes, or \<open>None\<close> if the stream ends in it.\<close>

definition decode_one :: "u32 \<Rightarrow> u32 list \<Rightarrow> (call list \<times> nat) option" where
  "decode_one header rest =
     (let method = GetMethod header; arg = GetArg header; subch = GetSubchannel header; n = unat arg
      in if subch = 0 \<and> GpfifoHandle method arg then Some ([], 0)
         else case GetMode header of
           Increasing \<Rightarrow> if n \<le> length rest then Some (arg_calls subch method 1 (take n rest), n) else None
         | NonIncreasing \<Rightarrow> if n \<le> length rest then Some (arg_calls subch method 0 (take n rest), n) else None
         | Inline \<Rightarrow> Some ([(subch, method, arg)], 0)
         | IncreaseOnce \<Rightarrow> (case rest of [] \<Rightarrow> None | v # _ \<Rightarrow> Some ([(subch, method, v)], 1))
         | UnknownMode _ \<Rightarrow> Some ([], 0))"

function decode :: "u32 list \<Rightarrow> call list \<times> nat" where
  "decode [] = ([], 0)"
| "decode (h # rest) =
     (case decode_one h rest of
        None \<Rightarrow> ([], 0)
      | Some (cs, n) \<Rightarrow> let (cs', k) = decode (drop n rest) in (cs @ cs', 1 + n + k))"
  by pat_completeness auto
termination
  by (relation "measure length") auto

definition run_calls :: "'s callback \<Rightarrow> call list \<Rightarrow> 's \<Rightarrow> 's" where
  "run_calls cb cs s = fold (\<lambda>(sc, m, v) s. cb sc m v s) cs s"

lemma run_calls_simps [simp]:
  "run_calls cb [] s = s"
  "run_calls cb ((sc, m, v) # cs) s = run_calls cb cs (cb sc m v s)"
  "run_calls cb (as @ bs) s = run_calls cb bs (run_calls cb as s)"
  by (simp_all add: run_calls_def)

lemma arg_loop_calls:
  "arg_loop cb words pos sc m k i n s =
    run_calls cb (map (\<lambda>j. (sc, m + k * of_nat j, words ! (pos + 1 + j))) [i..<i + n]) s"
proof (induction n arbitrary: i s)
  case (Suc n)
  have "[i..<i + Suc n] = i # [Suc i..<Suc i + n]"
    by (simp add: upt_conv_Cons)
  then show ?case
    using Suc by (simp del: upt_Suc)
qed simp

lemma arg_calls_drop:
  assumes "pos < length words" and "n \<le> length (drop (Suc pos) words)"
  shows "arg_calls sc m k (take n (drop (Suc pos) words)) =
    map (\<lambda>j. (sc, m + k * of_nat j, words ! (pos + 1 + j))) [0..<0 + n]"
  using assms by (auto simp: arg_calls_def)

text \<open>The loop advances by one decoded command at a time.\<close>

lemma Process_step:
  assumes "pos < length words"
  shows "Process cb words pos s =
    (case decode_one (words ! pos) (drop (Suc pos) words) of
       None \<Rightarrow> (pos, s)
     | Some (cs, n) \<Rightarrow> Process cb words (pos + 1 + n) (run_calls cb cs s))"
proof -
  let ?h = "words ! pos"
  have rest: "n \<le> length (drop (Suc pos) words) \<longleftrightarrow> Suc (pos + n) \<le> length words" for n
    using assms by auto
  note defs = Process.simps [of cb words pos s] decode_one_def [of ?h] Let_def arg_loop_calls
  show ?thesis
  proof (cases "GetSubchannel ?h = 0 \<and> GpfifoHandle (GetMethod ?h) (GetArg ?h)")
    case True
    then show ?thesis
      using assms by (simp add: defs)
  next
    case False
    then show ?thesis
    proof (cases "GetMode ?h")
      case IncreaseOnce
      with False assms show ?thesis
        by (cases "drop (Suc pos) words") (auto simp: defs nth_via_drop)
    qed (use False assms in \<open>auto simp: defs arg_calls_drop rest not_le simp del: length_drop\<close>)
  qed
qed

lemma decode_one_length: "decode_one h rest = Some (cs, n) \<Longrightarrow> n \<le> length rest"
  unfolding decode_one_def Let_def by (auto split: if_splits Mode.splits list.splits)

lemma Process_decode_from:
  "pos \<le> length words \<Longrightarrow>
    Process cb words pos s =
      (pos + snd (decode (drop pos words)), run_calls cb (fst (decode (drop pos words))) s)"
proof (induction "length words - pos" arbitrary: pos s rule: less_induct)
  case less
  show ?case
  proof (cases "pos < length words")
    case False
    with less.prems show ?thesis by (simp add: Process.simps)
  next
    case True
    have dr: "drop pos words = words ! pos # drop (Suc pos) words"
      using True by (simp add: Cons_nth_drop_Suc)
    show ?thesis
    proof (cases "decode_one (words ! pos) (drop (Suc pos) words)")
      case None
      with True show ?thesis by (simp add: Process_step dr)
    next
      case (Some r)
      obtain cs n where r: "r = (cs, n)" by (cases r)
      have fit: "Suc pos + n \<le> length words"
        using decode_one_length [of "words ! pos" "drop (Suc pos) words" cs n] Some True r by simp
      with True have "Process cb words (pos + 1 + n) (run_calls cb cs s) =
          (pos + 1 + n + snd (decode (drop (pos + 1 + n) words)),
           run_calls cb (fst (decode (drop (pos + 1 + n) words))) (run_calls cb cs s))"
        by (intro less.hyps) auto
      moreover have "drop n (drop (Suc pos) words) = drop (pos + 1 + n) words"
        by (simp add: add.commute)
      ultimately show ?thesis
        using True Some r by (simp add: Process_step dr split_beta)
    qed
  qed
qed

lemma decode_consumes: "snd (decode ws) \<le> length ws"
proof (induction ws rule: decode.induct)
  case (2 h rest)
  show ?case
  proof (cases "decode_one h rest")
    case (Some r)
    then obtain cs n where "decode_one h rest = Some (cs, n)" by (cases r) auto
    with 2 decode_one_length [OF this] show ?thesis
      by (fastforce simp: split_beta)
  qed simp
qed simp

text \<open>
  A command as a driver writes it, and the calls it is meant to make. \<open>IncreaseOnce\<close> is left out: the code makes
  one call for it, its comment speaks of two (\<open>Process_increase_once\<close> below shows what the code does).
\<close>

datatype command =
    Inc u32 u32 "u32 list"
  | NonInc u32 u32 "u32 list"
  | Imm u32 u32 u32

fun encode :: "command \<Rightarrow> u32 list" where
  "encode (Inc sc m vs) = MakeHeader Increasing m (of_nat (length vs)) sc # vs"
| "encode (NonInc sc m vs) = MakeHeader NonIncreasing m (of_nat (length vs)) sc # vs"
| "encode (Imm sc m v) = [MakeHeader Inline m v sc]"

fun meaning :: "command \<Rightarrow> call list" where
  "meaning (Inc sc m vs) = arg_calls sc m 1 vs"
| "meaning (NonInc sc m vs) = arg_calls sc m 0 vs"
| "meaning (Imm sc m v) = [(sc, m, v)]"

text \<open>Commands that fit the header fields and are not swallowed by the host channel.\<close>

fun command_ok :: "command \<Rightarrow> bool" where
  "command_ok (Inc sc m vs) \<longleftrightarrow> sc < 8 \<and> m < 0x2000 \<and> length vs < 0x2000 \<and> \<not> (sc = 0 \<and> GpfifoHandle m 0)"
| "command_ok (NonInc sc m vs) \<longleftrightarrow> sc < 8 \<and> m < 0x2000 \<and> length vs < 0x2000 \<and> \<not> (sc = 0 \<and> GpfifoHandle m 0)"
| "command_ok (Imm sc m v) \<longleftrightarrow> sc < 8 \<and> m < 0x2000 \<and> v < 0x2000 \<and> \<not> (sc = 0 \<and> GpfifoHandle m 0)"

lemma of_nat_field:
  assumes "n < 0x2000"
  shows "(of_nat n :: u32) < 0x2000" and "unat (of_nat n :: u32) = n"
proof -
  show "unat (of_nat n :: u32) = n"
    using assms by (simp add: unsigned_of_nat take_bit_nat_eq_self)
  then show "(of_nat n :: u32) < 0x2000"
    using assms by (simp add: word_less_nat_alt)
qed

lemma decode_encode_one:
  assumes "command_ok c"
  shows "decode (encode c @ ws) =
    (meaning c @ fst (decode ws), length (encode c) + snd (decode ws))"
  using assms
  by (cases c) (auto simp: decode_one_def Let_def header_fields and_field_13 and_field_3 of_nat_field
      GpfifoHandle_def split_beta)

lemma decode_encode:
  assumes "list_all command_ok cmds"
  shows "decode (concat (map encode cmds)) = (concat (map meaning cmds), length (concat (map encode cmds)))"
  using assms by (induction cmds) (simp_all add: decode_encode_one)

text \<open>
  The contract between the parser and the owner of its callback: whatever every call preserves, and
  however every call extends an observable log, processing a stream does the same.
\<close>

locale call_consumer =
  fixes cb :: "'s callback" and keeps :: "'s \<Rightarrow> bool" and log :: "'s \<Rightarrow> 'l list"
    and emits :: "'s \<Rightarrow> u32 \<Rightarrow> u32 \<Rightarrow> nat"
  assumes cb_keeps: "keeps s \<Longrightarrow> keeps (cb sc m v s)"
    and cb_log: "\<exists>ls. log (cb sc m v s) = log s @ ls \<and> length ls = emits s sc m"
    and cb_emits: "emits (cb sc m v s) = emits s"
begin

lemma run_keeps: "keeps s \<Longrightarrow> keeps (run_calls cb cs s)"
  by (induction cs arbitrary: s) (auto simp: cb_keeps)

lemma run_emits: "emits (run_calls cb cs s) = emits s"
  by (induction cs arbitrary: s) (auto simp: cb_emits)

lemma run_log:
  "\<exists>ls. log (run_calls cb cs s) = log s @ ls \<and> length ls = (\<Sum>(sc, m, v) \<leftarrow> cs. emits s sc m)"
proof (induction cs arbitrary: s)
  case (Cons c cs)
  obtain sc m v where c: "c = (sc, m, v)" by (cases c)
  obtain ls where "log (cb sc m v s) = log s @ ls" "length ls = emits s sc m"
    using cb_log [of sc m v s] by auto
  moreover obtain ls' where "log (run_calls cb cs (cb sc m v s)) = log (cb sc m v s) @ ls'"
      "length ls' = (\<Sum>(sc, m, v) \<leftarrow> cs. emits s sc m)"
    using Cons.IH [of "cb sc m v s"] by (auto simp: cb_emits)
  ultimately show ?case
    by (intro exI [of _ "ls @ ls'"]) (simp add: c)
qed simp

lemma Process_keeps: "keeps s \<Longrightarrow> keeps (snd (Process cb words 0 s))"
  by (simp add: Process_decode_from run_keeps)

lemma Process_log:
  "\<exists>ls. log (snd (Process cb words 0 s)) = log s @ ls
    \<and> length ls = (\<Sum>(sc, m, v) \<leftarrow> fst (decode words). emits s sc m)"
  by (simp add: Process_decode_from run_log)

end

section \<open>Properties\<close>

text \<open>
  The position loop of \<open>GPFifo::Process\<close> computes the reference meaning of a command
  stream: it makes exactly the calls that \<open>decode\<close> lists, in order, and returns the number of words
  that \<open>decode\<close> consumes, which is never more than there are. In particular it always terminates.
\<close>

theorem Process_correct:
  "Process cb words 0 s = (snd (decode words), run_calls cb (fst (decode words)) s)
    \<and> fst (Process cb words 0 s) \<le> length words"
  by (simp add: Process_decode_from decode_consumes)

text \<open>
  The bits of a header, written as a number: the method in bits 0 to 12, the subchannel in 13 to 15, the count or
  inline value in 16 to 28, the mode in 29 to 31 (1 for increasing, 3 for fixed methods, 4 for inline values).
\<close>

definition header_number :: "nat \<Rightarrow> u32 \<Rightarrow> nat \<Rightarrow> u32 \<Rightarrow> u32" where
  "header_number mode m n sc = of_nat (unat m + unat sc * 2 ^ 13 + n * 2 ^ 16 + mode * 2 ^ 29)"

fun layout :: "command \<Rightarrow> u32 list" where
  "layout (Inc sc m vs) = header_number 1 m (length vs) sc # vs"
| "layout (NonInc sc m vs) = header_number 3 m (length vs) sc # vs"
| "layout (Imm sc m v) = [header_number 4 m (unat v) sc]"

lemma bit_below: "unat (x :: u32) < 2 ^ j \<Longrightarrow> bit x i \<Longrightarrow> i < j"
  using and_mask_id [of x j] by (metis bit_and_iff bit_mask_iff)

lemma MakeHeader_number:
  assumes "sc < 8" "m < 0x2000" "n < 0x2000" "mode_value mode = of_nat k" "k < 8"
  shows "MakeHeader mode m (of_nat n) sc = header_number k m n sc"
proof -
  let ?n = "of_nat n :: u32" and ?k = "of_nat k :: u32"
  have u: "unat m < 2 ^ 13" "unat sc < 2 ^ 3" "unat ?n < 2 ^ 13" "unat ?k < 2 ^ 3"
    using assms by (simp_all add: word_less_nat_alt unsigned_of_nat take_bit_nat_eq_self)
  then have "m AND 0x1FFF = m" "sc AND 0x7 = sc" "?n AND 0x1FFF = ?n" "?k AND 0x7 = ?k"
    unfolding field_masks by (simp_all add: and_mask_id)
  then have "MakeHeader mode m ?n sc = m OR push_bit 13 sc OR push_bit 16 ?n OR push_bit 29 ?k"
    by (simp add: MakeHeader_def assms(4))
  also have "\<dots> = m + push_bit 13 sc + push_bit 16 ?n + push_bit 29 ?k"
  proof -
    have d1: "m OR push_bit 13 sc = m + push_bit 13 sc"
      by (rule disjunctive_add [symmetric]) (use bit_below [OF u(1)] in \<open>fastforce simp: bit_simps\<close>)
    have d2: "(m OR push_bit 13 sc) OR push_bit 16 ?n = (m OR push_bit 13 sc) + push_bit 16 ?n"
      by (rule disjunctive_add [symmetric]) (use bit_below [OF u(1)] bit_below [OF u(2)] in \<open>fastforce simp: bit_simps\<close>)
    have d3: "((m OR push_bit 13 sc) OR push_bit 16 ?n) OR push_bit 29 ?k = ((m OR push_bit 13 sc) OR push_bit 16 ?n) + push_bit 29 ?k"
      by (rule disjunctive_add [symmetric])
        (use bit_below [OF u(1)] bit_below [OF u(2)] bit_below [OF u(3)] in \<open>fastforce simp: bit_simps\<close>)
    have "m OR push_bit 13 sc OR push_bit 16 ?n OR push_bit 29 ?k = ((m OR push_bit 13 sc) OR push_bit 16 ?n) OR push_bit 29 ?k"
      by (simp only: or.assoc)
    then show ?thesis
      using d1 d2 d3 by simp
  qed
  finally show ?thesis
    by (simp add: header_number_def push_bit_eq_mult)
qed

lemma layout_encode: "command_ok c \<Longrightarrow> layout c = encode c"
  by (cases c) (simp_all add: MakeHeader_number [symmetric, where mode = Increasing] MakeHeader_number [symmetric, where mode = NonIncreasing]
      MakeHeader_number [symmetric, where mode = Inline] word_less_nat_alt)

text \<open>
  Property C2. A stream of commands laid out bit by bit as a driver does is consumed completely and makes exactly the method
  calls the commands stand for, in order: consecutive methods for increasing commands, one repeated method for
  fixed ones, the value in the header for inline ones; for every state and callback, and any number of commands.
\<close>

theorem Process_commands:
  assumes "list_all command_ok cmds"
  shows "Process cb (concat (map layout cmds)) 0 s =
    (length (concat (map layout cmds)), run_calls cb (concat (map meaning cmds)) s)"
proof -
  have "map layout cmds = map encode cmds"
    using assms by (auto simp: list_all_iff layout_encode)
  then show ?thesis
    using decode_encode [OF assms] by (simp only: Process_decode_from [OF le0] drop_0 add_0 fst_conv snd_conv)
qed

theorem Process_commands_witness:
  "Process (\<lambda>sc m v log. log @ [(sc, m, v)]) (layout (Inc 0 0x35D [7, 3]) @ layout (Imm 0 0x586 4)) 0 [] =
    (4, [(0, 0x35D, 7), (0, 0x35E, 3), (0, 0x586, 4)])"
proof -
  have "arg_calls 0 0x35D 1 [7, 3] = [(0, 0x35D, 7), (0, 0x35E, 3)]"
    by (simp add: arg_calls_def)
  then show ?thesis
    using Process_commands [of "[Inc 0 0x35D [7, 3], Imm 0 0x586 4]" "\<lambda>sc m v log. log @ [(sc, m, v)]" "[]"]
    by (simp add: GpfifoHandle_def)
qed

text \<open>What the code makes of \<open>IncreaseOnce\<close>: one call, whatever the count in the header.\<close>

lemma Process_increase_once:
  assumes "sc < 8" "m < 0x2000" "\<not> (sc = 0 \<and> GpfifoHandle m 0)"
  shows "Process cb [MakeHeader IncreaseOnce m a sc, v] 0 s = (2, cb sc m v s)"
proof -
  have "decode [MakeHeader IncreaseOnce m a sc, v] = ([(sc, m, v)], 2)"
    using assms by (auto simp: decode_one_def Let_def header_fields and_field_13 and_field_3 GpfifoHandle_def split_beta)
  then show ?thesis
    by (simp only: Process_decode_from [OF le0] drop_0 add_0 fst_conv snd_conv) simp
qed

text \<open>
  The four header fields are recovered from a header word, and rebuilding a header from
  its fields gives the same word, for every 32-bit word.
\<close>

theorem header_roundtrip:
  "MakeHeader (GetMode h) (GetMethod h) (GetArg h) (GetSubchannel h) = h
   \<and> GetMethod (MakeHeader mode m a sc) = m AND 0x1FFF
   \<and> GetArg (MakeHeader mode m a sc) = a AND 0x1FFF
   \<and> GetSubchannel (MakeHeader mode m a sc) = sc AND 0x7
   \<and> GetMode (MakeHeader mode m a sc) = mode_of (mode_value mode AND 0x7)"
  by (simp add: MakeHeader_fields header_fields)

text \<open>
  For the semaphore, reference and syncpoint methods on subchannel 0 only the header
  word is skipped, whatever the mode: the argument words of such a command are then read as command
  headers. A syncpoint command whose payload looks like a draw header causes a draw.
\<close>

theorem host_method_arguments_become_headers:
  "Process cb (MakeHeader Increasing 0x1C 1 0 # MakeHeader Inline 0x35E v 0 # rest) 0 s =
     (2 + snd (decode rest), run_calls cb (fst (decode rest)) (cb 0 0x35E (v AND 0x1FFF) s))"
proof -
  have "decode_one (MakeHeader Increasing 0x1C 1 0) ws = Some ([], 0)" for ws
    by (simp add: decode_one_def header_fields GpfifoHandle_def Let_def)
  moreover have "decode_one (MakeHeader Inline 0x35E v 0) ws = Some ([(0, 0x35E, v AND 0x1FFF)], 0)" for ws
    by (simp add: decode_one_def header_fields GpfifoHandle_def Let_def)
  ultimately show ?thesis
    by (simp add: Process_decode_from split_beta)
qed

end
