(* ===== verification/Engine3D.thy ===== *)
theory Engine3D
  imports Gpfifo
begin

unbundle bit_operations_syntax

text \<open>
  The 3D engine's register file: the state structures of
  \<^verbatim>\<open>src/src/gpu/maxwell/GpuState.h\<close>, the method numbers of
  \<^verbatim>\<open>src/src/gpu/maxwell/MethodDefs.h\<close> and the method handlers of
  \<^verbatim>\<open>src/src/gpu/engine/Engine3D.cpp\<close>.

  The enumerations of the state are stored by a cast from the written value without a range check,
  so a field of such a type is the 32-bit value itself. Floating-point fields are kept as their bit
  patterns: the handlers only move them. Arrays are lists of the declared length.
\<close>

section \<open>State\<close>

record RtState =
  rt_address :: u64
  rt_width :: u32
  rt_height :: u32
  rt_format :: u32
  rt_tile_mode :: u32
  rt_array_mode :: u32
  rt_layer_stride :: u32
  rt_base_layer :: u32

record ViewportState =
  scale_x :: u32
  scale_y :: u32
  scale_z :: u32
  translate_x :: u32
  translate_y :: u32
  translate_z :: u32
  swizzle :: u32

record ScissorState =
  sc_enabled :: bool
  sc_min_x :: u32
  sc_max_x :: u32
  sc_min_y :: u32
  sc_max_y :: u32

record VertexArrayState =
  va_address :: u64
  va_stride :: u32
  va_divisor :: u32
  va_enabled :: bool

record VertexAttribState =
  buffer_index :: u32
  attr_offset :: u32
  attr_size :: u32
  attr_type :: u32
  is_fixed :: bool
  is_bgra :: bool

record IndexBufferState =
  ib_address :: u64
  ib_limit :: u64
  ib_first :: u32
  ib_count :: u32
  ib_format :: u32

record DepthTargetState =
  dt_address :: u64
  dt_format :: u32
  dt_width :: u32
  dt_height :: u32
  dt_tile_mode :: u32
  dt_layer_stride :: u32
  dt_enabled :: bool

record BlendState =
  bl_enabled :: bool
  color_op :: u32
  src_color :: u32
  dst_color :: u32
  alpha_op :: u32
  src_alpha :: u32
  dst_alpha :: u32
  color_mask :: u32

record StencilFace =
  st_func :: u32
  st_ref :: u32
  st_mask :: u32
  st_writemask :: u32
  st_fail :: u32
  st_zfail :: u32
  st_zpass :: u32

text \<open>The \<open>stencil_front_*\<close> and \<open>stencil_back_*\<close> fields are grouped per face.\<close>

record DepthStencilState =
  depth_enabled :: bool
  depth_write :: bool
  depth_func :: u32
  stencil_enable :: bool
  stencil_front :: StencilFace
  stencil_two_side :: bool
  stencil_back :: StencilFace
  depth_bounds_enable :: bool
  depth_bounds_near :: u32
  depth_bounds_far :: u32

record ClearState =
  cl_color :: "u32 list"
  cl_depth :: u32
  cl_stencil :: u32
  cl_buffers :: u32

record ShaderState =
  sh_offset :: u64
  num_registers :: u32
  sh_enabled :: bool
  stage_id :: u32

record MultisampleState =
  ms_enable :: bool
  ms_samples :: u32
  sample_mask :: u32
  coverage_to_color :: u32
  alpha_to_coverage :: bool
  alpha_to_one :: bool

record RasterState =
  rasterizer_enable :: bool
  primitive_type :: u32
  polygon_mode_front :: u32
  polygon_mode_back :: u32
  cull_face :: u32
  front_face :: u32
  cull_enable :: bool
  line_width :: u32
  point_size :: u32
  primitive_restart :: bool
  primitive_restart_index :: u32
  depth_clamp :: bool
  rasterizer_discard :: bool
  polygon_offset_point :: bool
  polygon_offset_line :: bool
  polygon_offset_fill :: bool
  polygon_offset_factor :: u32
  polygon_offset_units :: u32
  polygon_offset_clamp :: u32
  alpha_test_enable :: bool
  alpha_test_func :: u32
  alpha_test_ref :: u32
  logic_op_enable :: bool
  logic_op :: u32

record DrawState =
  draw_arrays_first :: u32
  draw_arrays_count :: u32
  draw_elements_first :: u32
  draw_elements_count :: u32
  vertex_id_base :: u32
  instance_count :: u32
  num_instances :: u32
  prim_restart_draw_arrays :: bool

record PoolState =
  tex_header_pool :: u64
  tex_header_max_idx :: u32
  tex_sampler_pool :: u64
  tex_sampler_max_idx :: u32
  program_region :: u64
  uniform_buffer_state :: u64

text \<open>
  \<open>GpuState3D\<close>; its rasterization, draw and pool sections (commented groups of plain fields in the
  source) are the records \<open>RasterState\<close>, \<open>DrawState\<close> and \<open>PoolState\<close>.
\<close>

record GpuState3D =
  rt :: "RtState list"
  rt_control :: u32
  viewports :: "ViewportState list"
  viewport_transform_enable :: bool
  scissors :: "ScissorState list"
  vertex_arrays :: "VertexArrayState list"
  vertex_attribs :: "VertexAttribState list"
  index_buffer :: IndexBufferState
  depth_target :: DepthTargetState
  blend :: "BlendState list"
  independent_blend :: bool
  blend_const :: "u32 list"
  depth_stencil :: DepthStencilState
  clear_state :: ClearState
  shaders :: "ShaderState list"
  raster :: RasterState
  multisample :: MultisampleState
  draws :: DrawState
  pools :: PoolState

text \<open>\<^verbatim>\<open>memset(&state_, 0, sizeof(state_))\<close>: every field is the value whose bytes are zero.\<close>

definition zero_rt :: RtState where
  "zero_rt = \<lparr>rt_address = 0, rt_width = 0, rt_height = 0, rt_format = 0, rt_tile_mode = 0,
     rt_array_mode = 0, rt_layer_stride = 0, rt_base_layer = 0\<rparr>"

definition zero_viewport :: ViewportState where
  "zero_viewport = \<lparr>scale_x = 0, scale_y = 0, scale_z = 0, translate_x = 0, translate_y = 0,
     translate_z = 0, swizzle = 0\<rparr>"

definition zero_scissor :: ScissorState where
  "zero_scissor = \<lparr>sc_enabled = False, sc_min_x = 0, sc_max_x = 0, sc_min_y = 0, sc_max_y = 0\<rparr>"

definition zero_vertex_array :: VertexArrayState where
  "zero_vertex_array = \<lparr>va_address = 0, va_stride = 0, va_divisor = 0, va_enabled = False\<rparr>"

definition zero_vertex_attrib :: VertexAttribState where
  "zero_vertex_attrib = \<lparr>buffer_index = 0, attr_offset = 0, attr_size = 0, attr_type = 0,
     is_fixed = False, is_bgra = False\<rparr>"

definition zero_blend :: BlendState where
  "zero_blend = \<lparr>bl_enabled = False, color_op = 0, src_color = 0, dst_color = 0, alpha_op = 0,
     src_alpha = 0, dst_alpha = 0, color_mask = 0\<rparr>"

definition zero_face :: StencilFace where
  "zero_face = \<lparr>st_func = 0, st_ref = 0, st_mask = 0, st_writemask = 0, st_fail = 0, st_zfail = 0, st_zpass = 0\<rparr>"

definition zero_shader :: ShaderState where
  "zero_shader = \<lparr>sh_offset = 0, num_registers = 0, sh_enabled = False, stage_id = 0\<rparr>"

definition zero_raster :: RasterState where
  "zero_raster = \<lparr>rasterizer_enable = False, primitive_type = 0, polygon_mode_front = 0,
     polygon_mode_back = 0, cull_face = 0, front_face = 0, cull_enable = False, line_width = 0,
     point_size = 0, primitive_restart = False, primitive_restart_index = 0, depth_clamp = False,
     rasterizer_discard = False, polygon_offset_point = False, polygon_offset_line = False,
     polygon_offset_fill = False, polygon_offset_factor = 0, polygon_offset_units = 0,
     polygon_offset_clamp = 0, alpha_test_enable = False, alpha_test_func = 0, alpha_test_ref = 0,
     logic_op_enable = False, logic_op = 0\<rparr>"

definition zero_state :: GpuState3D where
  "zero_state = \<lparr>rt = replicate 8 zero_rt, rt_control = 0, viewports = replicate 16 zero_viewport,
     viewport_transform_enable = False, scissors = replicate 16 zero_scissor,
     vertex_arrays = replicate 16 zero_vertex_array, vertex_attribs = replicate 32 zero_vertex_attrib,
     index_buffer = \<lparr>ib_address = 0, ib_limit = 0, ib_first = 0, ib_count = 0, ib_format = 0\<rparr>,
     depth_target = \<lparr>dt_address = 0, dt_format = 0, dt_width = 0, dt_height = 0, dt_tile_mode = 0,
       dt_layer_stride = 0, dt_enabled = False\<rparr>,
     blend = replicate 8 zero_blend, independent_blend = False, blend_const = replicate 4 0,
     depth_stencil = \<lparr>depth_enabled = False, depth_write = False, depth_func = 0,
       stencil_enable = False, stencil_front = zero_face, stencil_two_side = False,
       stencil_back = zero_face, depth_bounds_enable = False, depth_bounds_near = 0, depth_bounds_far = 0\<rparr>,
     clear_state = \<lparr>cl_color = replicate 4 0, cl_depth = 0, cl_stencil = 0, cl_buffers = 0\<rparr>,
     shaders = replicate 6 zero_shader, raster = zero_raster,
     multisample = \<lparr>ms_enable = False, ms_samples = 0, sample_mask = 0, coverage_to_color = 0,
       alpha_to_coverage = False, alpha_to_one = False\<rparr>,
     draws = \<lparr>draw_arrays_first = 0, draw_arrays_count = 0, draw_elements_first = 0,
       draw_elements_count = 0, vertex_id_base = 0, instance_count = 0, num_instances = 0,
       prim_restart_draw_arrays = False\<rparr>,
     pools = \<lparr>tex_header_pool = 0, tex_header_max_idx = 0, tex_sampler_pool = 0,
       tex_sampler_max_idx = 0, program_region = 0, uniform_buffer_state = 0\<rparr>\<rparr>"

definition Reset :: GpuState3D where
  "Reset = zero_state
     \<lparr>raster := zero_raster\<lparr>rasterizer_enable := True, polygon_mode_front := 0x1B02,
        polygon_mode_back := 0x1B02, front_face := 0x901, cull_face := 0x405\<rparr>,
      depth_stencil := (depth_stencil zero_state)\<lparr>depth_func := 2, depth_write := True\<rparr>,
      multisample := (multisample zero_state)\<lparr>sample_mask := 0xFFFFFFFF\<rparr>\<rparr>"

section \<open>Method groups\<close>

text \<open>Replacing the low or the high half of an address register.\<close>

definition set_low :: "u64 \<Rightarrow> u32 \<Rightarrow> u64" where
  "set_low a v = (a AND NOT 0xFFFFFFFF) OR ucast v"

definition set_high :: "u64 \<Rightarrow> u32 \<Rightarrow> u64" where
  "set_high a v = (a AND 0xFFFFFFFF) OR push_bit 32 (ucast v)"

definition upd :: "nat \<Rightarrow> ('a \<Rightarrow> 'a) \<Rightarrow> 'a list \<Rightarrow> 'a list" where
  "upd i f xs = xs[i := f (xs ! i)]"

definition HandleRenderTarget :: "u32 \<Rightarrow> u32 \<Rightarrow> GpuState3D \<Rightarrow> GpuState3D" where
  "HandleRenderTarget index v st =
     (let i = unat (index mod 8); sub = index div 8;
          on = (\<lambda>f. st\<lparr>rt := upd i f (rt st)\<rparr>)
      in if sub = 0 then on (\<lambda>r. r\<lparr>rt_address := set_low (rt_address r) v\<rparr>)
         else if sub = 1 then on (\<lambda>r. r\<lparr>rt_width := v\<rparr>)
         else if sub = 2 then on (\<lambda>r. r\<lparr>rt_height := v\<rparr>)
         else if sub = 3 then on (\<lambda>r. r\<lparr>rt_format := v\<rparr>)
         else if sub = 4 then on (\<lambda>r. r\<lparr>rt_tile_mode := v\<rparr>)
         else if sub = 5 then on (\<lambda>r. r\<lparr>rt_array_mode := v\<rparr>)
         else if sub = 6 then on (\<lambda>r. r\<lparr>rt_layer_stride := v\<rparr>)
         else if sub = 7 then on (\<lambda>r. r\<lparr>rt_base_layer := v\<rparr>)
         else st)"

definition HandleViewport :: "u32 \<Rightarrow> u32 \<Rightarrow> GpuState3D \<Rightarrow> GpuState3D" where
  "HandleViewport index v st =
     (let vp_index = index div 8; sub = index mod 8;
          on = (\<lambda>f. st\<lparr>viewports := upd (unat vp_index) f (viewports st)\<rparr>)
      in if vp_index \<ge> 16 then st
         else if sub = 0 then on (\<lambda>p. p\<lparr>scale_x := v\<rparr>)
         else if sub = 1 then on (\<lambda>p. p\<lparr>scale_y := v\<rparr>)
         else if sub = 2 then on (\<lambda>p. p\<lparr>scale_z := v\<rparr>)
         else if sub = 3 then on (\<lambda>p. p\<lparr>translate_x := v\<rparr>)
         else if sub = 4 then on (\<lambda>p. p\<lparr>translate_y := v\<rparr>)
         else if sub = 5 then on (\<lambda>p. p\<lparr>translate_z := v\<rparr>)
         else if sub = 6 then on (\<lambda>p. p\<lparr>swizzle := v\<rparr>)
         else st)"

definition HandleScissor :: "u32 \<Rightarrow> u32 \<Rightarrow> GpuState3D \<Rightarrow> GpuState3D" where
  "HandleScissor index v st =
     (let i = index mod 16
      in if i < 16 \<and> index div 16 = 0
         then st\<lparr>scissors := upd (unat i) (\<lambda>s. s\<lparr>sc_enabled := v AND 1 \<noteq> 0\<rparr>) (scissors st)\<rparr>
         else st)"

definition HandleVertexArray :: "u32 \<Rightarrow> u32 \<Rightarrow> GpuState3D \<Rightarrow> GpuState3D" where
  "HandleVertexArray index v st =
     (let i = (index div 4) mod 16; sub = index mod 4;
          on = (\<lambda>f. st\<lparr>vertex_arrays := upd (unat i) f (vertex_arrays st)\<rparr>)
      in if i < 16 then
           (if sub = 0 then on (\<lambda>a. a\<lparr>va_stride := v AND 0xFFF, va_enabled := Bit v 12\<rparr>)
            else if sub = 1 then on (\<lambda>a. a\<lparr>va_address := set_low (va_address a) v\<rparr>)
            else if sub = 3 then on (\<lambda>a. a\<lparr>va_divisor := v\<rparr>)
            else st)
         else st)"

definition HandleVertexAttrib :: "u32 \<Rightarrow> u32 \<Rightarrow> GpuState3D \<Rightarrow> GpuState3D" where
  "HandleVertexAttrib index v st =
     (let i = index mod 32
      in if i < 32
         then st\<lparr>vertex_attribs := upd (unat i)
             (\<lambda>a. a\<lparr>buffer_index := v AND 0x1F, is_fixed := Bit v 6, attr_offset := drop_bit 7 v AND 0x3FFF,
                   attr_size := drop_bit 21 v AND 0x3F, attr_type := drop_bit 27 v AND 0x7,
                   is_bgra := Bit v 31\<rparr>) (vertex_attribs st)\<rparr>
         else st)"

definition HandleBlend :: "u32 \<Rightarrow> u32 \<Rightarrow> GpuState3D \<Rightarrow> GpuState3D" where
  "HandleBlend index v st =
     (let i = index mod 8; sub = index div 8;
          on = (\<lambda>f. st\<lparr>blend := upd (unat i) f (blend st)\<rparr>)
      in if i < 8 then
           (if sub = 0 then on (\<lambda>b. b\<lparr>bl_enabled := v AND 1 \<noteq> 0\<rparr>)
            else if sub = 1 then on (\<lambda>b. b\<lparr>color_op := v\<rparr>)
            else if sub = 2 then on (\<lambda>b. b\<lparr>src_color := v\<rparr>)
            else if sub = 3 then on (\<lambda>b. b\<lparr>dst_color := v\<rparr>)
            else if sub = 4 then on (\<lambda>b. b\<lparr>alpha_op := v\<rparr>)
            else if sub = 5 then on (\<lambda>b. b\<lparr>src_alpha := v\<rparr>)
            else if sub = 6 then on (\<lambda>b. b\<lparr>dst_alpha := v\<rparr>)
            else st)
         else st)"

definition HandleShader :: "u32 \<Rightarrow> u32 \<Rightarrow> GpuState3D \<Rightarrow> GpuState3D" where
  "HandleShader index v st =
     (let i = index mod 6; sub = index div 6;
          on = (\<lambda>f. st\<lparr>shaders := upd (unat i) f (shaders st)\<rparr>)
      in if i < 6 then
           (if sub = 0 then on (\<lambda>s. s\<lparr>sh_enabled := v AND 1 \<noteq> 0, stage_id := drop_bit 4 v AND 0x7\<rparr>)
            else if sub = 1 then on (\<lambda>s. s\<lparr>sh_offset := set_low (sh_offset s) v\<rparr>)
            else st)
         else st)"

text \<open>
  The switch over the remaining methods, in the three commented sections of the source: draw, index,
  shader and pool registers; depth and stencil; blending, rasterization, clearing and the rest. The
  methods that the source lists as no-ops, the screen scissors and every unknown method leave the
  state alone.
\<close>

definition misc_methods :: "u32 \<Rightarrow> u32 \<Rightarrow> GpuState3D \<Rightarrow> GpuState3D" where
  "misc_methods method v st =
     (if method = 0x4B9 then st\<lparr>independent_blend := v \<noteq> 0\<rparr>
      else if method = 0x4C7 then st\<lparr>blend_const := (blend_const st)[0 := v]\<rparr>
      else if method = 0x0DF then st\<lparr>raster := (raster st)\<lparr>rasterizer_enable := v \<noteq> 0\<rparr>\<rparr>
      else if method = 0x647 then st\<lparr>raster := (raster st)\<lparr>front_face := v\<rparr>\<rparr>
      else if method = 0x648 then st\<lparr>raster := (raster st)\<lparr>cull_face := v\<rparr>\<rparr>
      else if method = 0x646 then st\<lparr>raster := (raster st)\<lparr>cull_enable := v \<noteq> 0\<rparr>\<rparr>
      else if method = 0x36B then st\<lparr>raster := (raster st)\<lparr>polygon_mode_front := v\<rparr>\<rparr>
      else if method = 0x36C then st\<lparr>raster := (raster st)\<lparr>polygon_mode_back := v\<rparr>\<rparr>
      else if method = 0x370 then st\<lparr>raster := (raster st)\<lparr>polygon_offset_point := v \<noteq> 0\<rparr>\<rparr>
      else if method = 0x371 then st\<lparr>raster := (raster st)\<lparr>polygon_offset_line := v \<noteq> 0\<rparr>\<rparr>
      else if method = 0x372 then st\<lparr>raster := (raster st)\<lparr>polygon_offset_fill := v \<noteq> 0\<rparr>\<rparr>
      else if method = 0x55B then st\<lparr>raster := (raster st)\<lparr>polygon_offset_factor := v\<rparr>\<rparr>
      else if method = 0x56F then st\<lparr>raster := (raster st)\<lparr>polygon_offset_units := v\<rparr>\<rparr>
      else if method = 0x61F then st\<lparr>raster := (raster st)\<lparr>polygon_offset_clamp := v\<rparr>\<rparr>
      else if method = 0x4BB then st\<lparr>raster := (raster st)\<lparr>alpha_test_enable := v \<noteq> 0\<rparr>\<rparr>
      else if method = 0x4C4 then st\<lparr>raster := (raster st)\<lparr>alpha_test_ref := v\<rparr>\<rparr>
      else if method = 0x4C5 then st\<lparr>raster := (raster st)\<lparr>alpha_test_func := v\<rparr>\<rparr>
      else if method = 0x671 then st\<lparr>raster := (raster st)\<lparr>logic_op_enable := v \<noteq> 0\<rparr>\<rparr>
      else if method = 0x672 then st\<lparr>raster := (raster st)\<lparr>logic_op := v\<rparr>\<rparr>
      else if method = 0x586 then st\<lparr>raster := (raster st)\<lparr>primitive_type := v AND 0xF\<rparr>\<rparr>
      else if method = 0x360 then st\<lparr>clear_state := (clear_state st)\<lparr>cl_color := (cl_color (clear_state st))[0 := v]\<rparr>\<rparr>
      else if method = 0x364 then st\<lparr>clear_state := (clear_state st)\<lparr>cl_depth := v\<rparr>\<rparr>
      else if method = 0x368 then st\<lparr>clear_state := (clear_state st)\<lparr>cl_stencil := v\<rparr>\<rparr>
      else if method = 0x674 then st\<lparr>clear_state := (clear_state st)\<lparr>cl_buffers := v\<rparr>\<rparr>
      else if method = 0x54D then st\<lparr>multisample := (multisample st)\<lparr>ms_enable := v \<noteq> 0\<rparr>\<rparr>
      else if method = 0x54F then st\<lparr>multisample := (multisample st)\<lparr>alpha_to_coverage := v AND 1 \<noteq> 0, alpha_to_one := drop_bit 4 v AND 1 \<noteq> 0\<rparr>\<rparr>
      else if method = 0x64B then st\<lparr>viewport_transform_enable := v \<noteq> 0\<rparr>
      else if method = 0x64F then st\<lparr>raster := (raster st)\<lparr>depth_clamp := drop_bit 3 v AND 1 \<noteq> 0\<rparr>\<rparr>
      else if method = 0x591 then st\<lparr>raster := (raster st)\<lparr>primitive_restart := v \<noteq> 0\<rparr>\<rparr>
      else if method = 0x592 then st\<lparr>raster := (raster st)\<lparr>primitive_restart_index := v\<rparr>\<rparr>
      else st)"

definition depth_stencil_methods :: "u32 \<Rightarrow> u32 \<Rightarrow> GpuState3D \<Rightarrow> GpuState3D" where
  "depth_stencil_methods method v st =
     (if method = 0x3F8 then st\<lparr>depth_target := (depth_target st)\<lparr>dt_address := set_low (dt_address (depth_target st)) v\<rparr>\<rparr>
      else if method = 0x3FA then st\<lparr>depth_target := (depth_target st)\<lparr>dt_format := v\<rparr>\<rparr>
      else if method = 0x48A then st\<lparr>depth_target := (depth_target st)\<lparr>dt_width := v\<rparr>\<rparr>
      else if method = 0x48B then st\<lparr>depth_target := (depth_target st)\<lparr>dt_height := v\<rparr>\<rparr>
      else if method = 0x48C then st\<lparr>depth_target := (depth_target st)\<lparr>dt_tile_mode := v\<rparr>\<rparr>
      else if method = 0x54E then st\<lparr>depth_target := (depth_target st)\<lparr>dt_enabled := v \<noteq> 0\<rparr>\<rparr>
      else if method = 0x4B3 then st\<lparr>depth_stencil := (depth_stencil st)\<lparr>depth_enabled := v \<noteq> 0\<rparr>\<rparr>
      else if method = 0x4BA then st\<lparr>depth_stencil := (depth_stencil st)\<lparr>depth_write := v \<noteq> 0\<rparr>\<rparr>
      else if method = 0x4C3 then st\<lparr>depth_stencil := (depth_stencil st)\<lparr>depth_func := v\<rparr>\<rparr>
      else if method = 0x4E0 then st\<lparr>depth_stencil := (depth_stencil st)\<lparr>stencil_enable := v \<noteq> 0\<rparr>\<rparr>
      else if method = 0x4E4 then st\<lparr>depth_stencil := (depth_stencil st)\<lparr>stencil_front := (stencil_front (depth_stencil st))\<lparr>st_func := v AND 0xF, st_ref := drop_bit 16 v AND 0xFF\<rparr>\<rparr>\<rparr>
      else if method = 0x4E1 then st\<lparr>depth_stencil := (depth_stencil st)\<lparr>stencil_front := (stencil_front (depth_stencil st))\<lparr>st_fail := v AND 0xF\<rparr>\<rparr>\<rparr>
      else if method = 0x4E2 then st\<lparr>depth_stencil := (depth_stencil st)\<lparr>stencil_front := (stencil_front (depth_stencil st))\<lparr>st_zfail := v AND 0xF\<rparr>\<rparr>\<rparr>
      else if method = 0x4E3 then st\<lparr>depth_stencil := (depth_stencil st)\<lparr>stencil_front := (stencil_front (depth_stencil st))\<lparr>st_zpass := v AND 0xF\<rparr>\<rparr>\<rparr>
      else if method = 0x565 then st\<lparr>depth_stencil := (depth_stencil st)\<lparr>stencil_two_side := v \<noteq> 0\<rparr>\<rparr>
      else if method = 0x569 then st\<lparr>depth_stencil := (depth_stencil st)\<lparr>stencil_back := (stencil_back (depth_stencil st))\<lparr>st_func := v AND 0xF\<rparr>\<rparr>\<rparr>
      else if method = 0x3D5 then st\<lparr>depth_stencil := (depth_stencil st)\<lparr>stencil_back := (stencil_back (depth_stencil st))\<lparr>st_ref := v AND 0xFF\<rparr>\<rparr>\<rparr>
      else if method = 0x3D6 then st\<lparr>depth_stencil := (depth_stencil st)\<lparr>stencil_back := (stencil_back (depth_stencil st))\<lparr>st_mask := v AND 0xFF\<rparr>\<rparr>\<rparr>
      else if method = 0x566 then st\<lparr>depth_stencil := (depth_stencil st)\<lparr>stencil_back := (stencil_back (depth_stencil st))\<lparr>st_fail := v AND 0xF\<rparr>\<rparr>\<rparr>
      else if method = 0x567 then st\<lparr>depth_stencil := (depth_stencil st)\<lparr>stencil_back := (stencil_back (depth_stencil st))\<lparr>st_zfail := v AND 0xF\<rparr>\<rparr>\<rparr>
      else if method = 0x568 then st\<lparr>depth_stencil := (depth_stencil st)\<lparr>stencil_back := (stencil_back (depth_stencil st))\<lparr>st_zpass := v AND 0xF\<rparr>\<rparr>\<rparr>
      else if method = 0x66F then st\<lparr>depth_stencil := (depth_stencil st)\<lparr>depth_bounds_enable := v \<noteq> 0\<rparr>\<rparr>
      else if method = 0x3E7 then st\<lparr>depth_stencil := (depth_stencil st)\<lparr>depth_bounds_near := v\<rparr>\<rparr>
      else if method = 0x3E8 then st\<lparr>depth_stencil := (depth_stencil st)\<lparr>depth_bounds_far := v\<rparr>\<rparr>
      else misc_methods method v st)"

definition switch_method :: "u32 \<Rightarrow> u32 \<Rightarrow> GpuState3D \<Rightarrow> GpuState3D" where
  "switch_method method v st =
     (if method = 0x487 then st\<lparr>rt_control := v\<rparr>
      else if method = 0x35D then st\<lparr>draws := (draws st)\<lparr>draw_arrays_first := v\<rparr>\<rparr>
      else if method = 0x35E then st\<lparr>draws := (draws st)\<lparr>draw_arrays_count := v\<rparr>\<rparr>
      else if method = 0x5F7 then st\<lparr>draws := (draws st)\<lparr>draw_elements_first := v\<rparr>\<rparr>
      else if method = 0x5F8 then st\<lparr>draws := (draws st)\<lparr>draw_elements_count := v\<rparr>\<rparr>
      else if method = 0x5F2 then st\<lparr>index_buffer := (index_buffer st)\<lparr>ib_address := set_low (ib_address (index_buffer st)) v\<rparr>\<rparr>
      else if method = 0x5F3 then st\<lparr>index_buffer := (index_buffer st)\<lparr>ib_address := set_high (ib_address (index_buffer st)) v\<rparr>\<rparr>
      else if method = 0x5F4 then st\<lparr>index_buffer := (index_buffer st)\<lparr>ib_limit := set_low (ib_limit (index_buffer st)) v\<rparr>\<rparr>
      else if method = 0x5F5 then st\<lparr>index_buffer := (index_buffer st)\<lparr>ib_limit := set_high (ib_limit (index_buffer st)) v\<rparr>\<rparr>
      else if method = 0x5F6 then st\<lparr>index_buffer := (index_buffer st)\<lparr>ib_format := v\<rparr>\<rparr>
      else if method = 0x800 then HandleShader 0 v st
      else if method = 0x582 then st\<lparr>pools := (pools st)\<lparr>program_region := set_low (program_region (pools st)) v\<rparr>\<rparr>
      else if method = 0x583 then st\<lparr>pools := (pools st)\<lparr>program_region := set_high (program_region (pools st)) v\<rparr>\<rparr>
      else if method = 0x55D then st\<lparr>pools := (pools st)\<lparr>tex_header_pool := set_low (tex_header_pool (pools st)) v\<rparr>\<rparr>
      else if method = 0x55F then st\<lparr>pools := (pools st)\<lparr>tex_header_max_idx := v\<rparr>\<rparr>
      else if method = 0x557 then st\<lparr>pools := (pools st)\<lparr>tex_sampler_pool := set_low (tex_sampler_pool (pools st)) v\<rparr>\<rparr>
      else if method = 0x559 then st\<lparr>pools := (pools st)\<lparr>tex_sampler_max_idx := v\<rparr>\<rparr>
      else depth_stencil_methods method v st)"

definition method_in :: "u32 \<Rightarrow> u32 \<Rightarrow> u32 \<Rightarrow> bool" where
  "method_in method base n \<longleftrightarrow> method \<ge> base \<and> method < base + n"

text \<open>The range checks that come before the switch; \<open>None\<close>: not an array method.\<close>

definition array_method :: "u32 \<Rightarrow> u32 \<Rightarrow> GpuState3D \<Rightarrow> GpuState3D option" where
  "array_method method v st =
     (if method_in method 0x200 (8 * 8) then Some (HandleRenderTarget ((method - 0x200) div 8) v st)
      else if method_in method 0x280 (16 * 6) then Some (HandleViewport (method - 0x280) v st)
      else if method_in method 0x380 16 then Some (HandleScissor (method - 0x380) v st)
      else if method_in method 0x458 32 then Some (HandleVertexAttrib (method - 0x458) v st)
      else if method_in method 0x4D8 8 then
        Some (st\<lparr>blend := upd (unat (method - 0x4D8)) (\<lambda>b. b\<lparr>bl_enabled := v \<noteq> 0\<rparr>) (blend st)\<rparr>)
      else if method = 0x4E5 then
        Some (st\<lparr>depth_stencil := (depth_stencil st)\<lparr>stencil_front :=
          (stencil_front (depth_stencil st))\<lparr>st_ref := v AND 0xFF\<rparr>\<rparr>\<rparr>)
      else if method = 0x4E6 then
        Some (st\<lparr>depth_stencil := (depth_stencil st)\<lparr>stencil_front :=
          (stencil_front (depth_stencil st))\<lparr>st_mask := v AND 0xFF\<rparr>\<rparr>\<rparr>)
      else if method = 0x4E7 then
        Some (st\<lparr>depth_stencil := (depth_stencil st)\<lparr>stencil_front :=
          (stencil_front (depth_stencil st))\<lparr>st_writemask := v AND 0xFF\<rparr>\<rparr>\<rparr>)
      else if method_in method 0x680 8 then
        Some (st\<lparr>blend := upd (unat (method - 0x680)) (\<lambda>b. b\<lparr>color_mask := v AND 0xF\<rparr>) (blend st)\<rparr>)
      else if method_in method 0x700 (16 * 4) then Some (HandleVertexArray (method - 0x700) v st)
      else if method_in method 0x780 (8 * 7) then Some (HandleBlend (method - 0x780) v st)
      else if method_in method 0x7C0 16 then Some st
      else if method_in method 0x800 (6 * 2) then Some (HandleShader (method - 0x800) v st)
      else if method_in method 0x620 16 then
        Some (st\<lparr>vertex_arrays := upd (unat (method - 0x620))
          (\<lambda>a. a\<lparr>va_divisor := (if v \<noteq> 0 then 1 else 0)\<rparr>) (vertex_arrays st)\<rparr>)
      else None)"

text \<open>\<open>HandleMethod\<close>: the new state and the value of \<open>is_draw\<close>.\<close>

definition HandleMethod :: "u32 \<Rightarrow> u32 \<Rightarrow> GpuState3D \<Rightarrow> GpuState3D \<times> bool" where
  "HandleMethod method v st =
     (case array_method method v st of
        Some st' \<Rightarrow> (st', False)
      | None \<Rightarrow> (switch_method method v st, method = 0x35E \<or> method = 0x5F8))"

section \<open>Address registers\<close>

lemma low_mask: "(0xFFFFFFFF::u64) = mask 32"
  by (simp add: mask_eq_exp_minus_1)

lemma set_low_high: "set_high (set_low a lo) hi = push_bit 32 (ucast hi) OR ucast lo"
  unfolding set_low_def set_high_def low_mask
  by (rule bit_word_eqI) (auto simp: bit_simps dest: bit_imp_le_length)

lemma set_high_low: "set_low (set_high a hi) lo = push_bit 32 (ucast hi) OR ucast lo"
  unfolding set_low_def set_high_def low_mask
  by (rule bit_word_eqI) (auto simp: bit_simps dest: bit_imp_le_length)

definition fits32 :: "u64 \<Rightarrow> bool" where
  "fits32 a \<longleftrightarrow> a AND NOT 0xFFFFFFFF = 0"

lemma fits32_0 [simp]: "fits32 0"
  by (simp add: fits32_def)

lemma fits32_set_low [simp]: "fits32 a \<Longrightarrow> fits32 (set_low a v)"
proof -
  assume "fits32 a"
  then have "set_low a v = ucast v"
    by (simp add: fits32_def set_low_def)
  moreover have "(ucast v :: u64) AND NOT (mask 32) = 0"
    by (rule bit_word_eqI) (auto simp: bit_simps dest: bit_imp_le_length)
  ultimately show ?thesis
    by (simp add: fits32_def low_mask)
qed

lemma fits32_iff: "fits32 a \<longleftrightarrow> unat a < 2 ^ 32"
proof -
  have "a AND NOT 0xFFFFFFFF = 0 \<longleftrightarrow> unat (a AND NOT (mask 32)) = 0"
    by (simp add: low_mask unat_eq_zero)
  also have "\<dots> \<longleftrightarrow> unat a div 2 ^ 32 * 2 ^ 32 = 0"
    by (simp only: unat_and_not_mask)
  also have "\<dots> \<longleftrightarrow> unat a < 2 ^ 32"
    by (simp add: div_eq_0_iff)
  finally show ?thesis by (simp add: fits32_def)
qed

section \<open>Invariant of the register file\<close>

lemma length_upd [simp]: "length (upd i f xs) = length xs"
  by (simp add: upd_def)

lemma nth_upd: "j < length xs \<Longrightarrow> upd i f xs ! j = (if j = i then f (xs ! j) else xs ! j)"
  by (auto simp: upd_def nth_list_update)

lemma list_all_upd: "list_all P xs \<Longrightarrow> (\<And>x. P x \<Longrightarrow> P (f x)) \<Longrightarrow> list_all P (upd i f xs)"
  by (auto simp: list_all_length nth_upd)

text \<open>Array sizes of the declarations: every index the handlers compute stays in range.\<close>

definition sizes_ok :: "GpuState3D \<Rightarrow> bool" where
  "sizes_ok st \<longleftrightarrow> length (rt st) = 8 \<and> length (viewports st) = 16 \<and> length (scissors st) = 16
     \<and> length (vertex_arrays st) = 16 \<and> length (vertex_attribs st) = 32 \<and> length (blend st) = 8
     \<and> length (shaders st) = 6"

text \<open>Registers that no method reaches: they keep the value that \<open>Reset\<close> gave them.\<close>

definition rt_dead :: "RtState \<Rightarrow> bool" where
  "rt_dead r \<longleftrightarrow> rt_width r = 0 \<and> rt_height r = 0 \<and> rt_format r = 0 \<and> rt_tile_mode r = 0
     \<and> rt_array_mode r = 0 \<and> rt_layer_stride r = 0 \<and> rt_base_layer r = 0"

definition unreached :: "GpuState3D \<Rightarrow> bool" where
  "unreached st \<longleftrightarrow> list_all rt_dead (rt st)
     \<and> (\<forall>i. 12 \<le> i \<and> i < length (viewports st) \<longrightarrow> viewports st ! i = zero_viewport)
     \<and> list_all (\<lambda>s. sc_min_x s = 0 \<and> sc_max_x s = 0 \<and> sc_min_y s = 0 \<and> sc_max_y s = 0) (scissors st)"

definition low_addresses :: "GpuState3D \<Rightarrow> bool" where
  "low_addresses st \<longleftrightarrow> list_all (\<lambda>r. fits32 (rt_address r)) (rt st)
     \<and> list_all (\<lambda>a. fits32 (va_address a)) (vertex_arrays st)
     \<and> list_all (\<lambda>s. fits32 (sh_offset s)) (shaders st)
     \<and> fits32 (dt_address (depth_target st))
     \<and> fits32 (tex_header_pool (pools st)) \<and> fits32 (tex_sampler_pool (pools st))"

lemma method_in_offset:
  assumes "method_in m b n" and "unat b + unat n < 2 ^ 32"
  shows "unat (m - b) < unat n"
proof -
  have "unat (b + n) = unat b + unat n"
    using assms(2) by (simp add: unat_word_ariths)
  with assms show ?thesis
    by (auto simp: method_in_def word_less_nat_alt word_le_nat_alt unat_sub)
qed

text \<open>The group index that reaches \<open>HandleRenderTarget\<close> is already divided by 8.\<close>

lemma RenderTarget_reached:
  assumes "method_in m 0x200 64"
  shows "HandleRenderTarget ((m - 0x200) div 8) v st =
    st\<lparr>rt := upd (unat ((m - 0x200) div 8)) (\<lambda>r. r\<lparr>rt_address := set_low (rt_address r) v\<rparr>) (rt st)\<rparr>"
proof -
  have "unat (m - 0x200) < 64"
    using method_in_offset [OF assms] by simp
  then have "(m - 0x200) div 8 < 8"
    by (simp add: word_less_nat_alt unat_div)
  then have "((m - 0x200) div 8) div 8 = 0" and "((m - 0x200) div 8) mod 8 = (m - 0x200) div 8"
    by (simp_all add: div_word_less mod_word_less)
  then show ?thesis
    by (simp add: HandleRenderTarget_def Let_def)
qed

lemma Viewport_reached:
  assumes "method_in m 0x280 96" and "12 \<le> i"
  shows "viewports (HandleViewport (m - 0x280) v st) ! i = viewports st ! i"
proof -
  have "unat (m - 0x280) < 96"
    using method_in_offset [OF assms(1)] by simp
  then have "unat ((m - 0x280) div 8) \<noteq> i"
    using assms(2) by (simp add: unat_div)
  then show ?thesis
    by (auto simp: HandleViewport_def Let_def upd_def)
qed

text \<open>One rule walks through the chain of conditionals of a handler.\<close>

lemma preserve_if: "P x \<Longrightarrow> P y \<Longrightarrow> P (if c then x else y)"
  by simp

lemmas handler_defs = HandleViewport_def HandleScissor_def HandleVertexArray_def HandleVertexAttrib_def
  HandleBlend_def HandleShader_def Let_def

lemma sizes_ok_Handle:
  assumes "sizes_ok st"
  shows "sizes_ok (HandleViewport i v st)" "sizes_ok (HandleScissor i v st)"
    "sizes_ok (HandleVertexArray i v st)" "sizes_ok (HandleVertexAttrib i v st)"
    "sizes_ok (HandleBlend i v st)" "sizes_ok (HandleShader i v st)"
    "sizes_ok (HandleRenderTarget i v st)"
  using assms unfolding handler_defs HandleRenderTarget_def by (simp_all add: sizes_ok_def)

lemma low_addresses_Handle:
  assumes "low_addresses st"
  shows "low_addresses (HandleViewport i v st)" "low_addresses (HandleScissor i v st)"
    "low_addresses (HandleVertexArray i v st)" "low_addresses (HandleVertexAttrib i v st)"
    "low_addresses (HandleBlend i v st)" "low_addresses (HandleShader i v st)"
    "low_addresses (HandleRenderTarget i v st)"
  using assms unfolding handler_defs HandleRenderTarget_def
  by (simp_all add: low_addresses_def list_all_upd)

lemma unreached_Handle:
  assumes "unreached st"
  shows "unreached (HandleScissor i v st)"
    "unreached (HandleVertexArray i v st)" "unreached (HandleVertexAttrib i v st)"
    "unreached (HandleBlend i v st)" "unreached (HandleShader i v st)"
  using assms unfolding handler_defs by (simp_all add: unreached_def list_all_upd)

lemma length_viewports_Handle [simp]: "length (viewports (HandleViewport i v st)) = length (viewports st)"
  by (simp add: HandleViewport_def Let_def)

lemma unreached_Viewport: "unreached st \<Longrightarrow> method_in m 0x280 96 \<Longrightarrow> unreached (HandleViewport (m - 0x280) v st)"
  using Viewport_reached [of m _ v st]
  by (auto simp: unreached_def) (simp_all add: HandleViewport_def Let_def)

lemmas keep_if = preserve_if [of sizes_ok] preserve_if [of low_addresses] preserve_if [of unreached]

lemma switch_method_sizes_ok: "sizes_ok st \<Longrightarrow> sizes_ok (switch_method m v st)"
  unfolding switch_method_def depth_stencil_methods_def misc_methods_def
  by (intro keep_if) (simp_all add: sizes_ok_Handle, simp_all add: sizes_ok_def)

lemma switch_method_low_addresses: "low_addresses st \<Longrightarrow> low_addresses (switch_method m v st)"
  unfolding switch_method_def depth_stencil_methods_def misc_methods_def
  by (intro keep_if) (simp_all add: low_addresses_Handle, simp_all add: low_addresses_def)

lemma switch_method_unreached: "unreached st \<Longrightarrow> unreached (switch_method m v st)"
  unfolding switch_method_def depth_stencil_methods_def misc_methods_def
  by (intro keep_if) (simp_all add: unreached_Handle, simp_all add: unreached_def)

lemma array_method_sizes_ok: "sizes_ok st \<Longrightarrow> array_method m v st = Some st' \<Longrightarrow> sizes_ok st'"
  unfolding array_method_def
  by (auto simp: sizes_ok_Handle split: if_splits) (simp_all add: sizes_ok_def)

lemma array_method_low_addresses: "low_addresses st \<Longrightarrow> array_method m v st = Some st' \<Longrightarrow> low_addresses st'"
  unfolding array_method_def
  by (auto simp: low_addresses_Handle split: if_splits) (simp_all add: low_addresses_def list_all_upd)

lemma rt_dead_address [simp]: "rt_dead (r\<lparr>rt_address := a\<rparr>) = rt_dead r"
  by (simp add: rt_dead_def)

lemma array_method_unreached: "unreached st \<Longrightarrow> array_method m v st = Some st' \<Longrightarrow> unreached st'"
  unfolding array_method_def
  by (auto simp: unreached_Handle unreached_Viewport RenderTarget_reached split: if_splits)
    (simp_all add: unreached_def list_all_upd)

definition engine_inv :: "GpuState3D \<Rightarrow> bool" where
  "engine_inv st \<longleftrightarrow> sizes_ok st \<and> low_addresses st \<and> unreached st"

lemma HandleMethod_inv: "engine_inv st \<Longrightarrow> engine_inv (fst (HandleMethod m v st))"
  by (auto simp: engine_inv_def HandleMethod_def split: option.split
      intro: switch_method_sizes_ok switch_method_low_addresses switch_method_unreached
        array_method_sizes_ok array_method_low_addresses array_method_unreached)

lemma list_all_replicate [simp]: "list_all P (replicate n x) \<longleftrightarrow> n = 0 \<or> P x"
  by (auto simp: list_all_iff)

lemma Reset_inv: "engine_inv Reset"
  unfolding engine_inv_def
  by (simp add: Reset_def zero_state_def sizes_ok_def low_addresses_def unreached_def rt_dead_def zero_rt_def
      zero_vertex_array_def zero_shader_def zero_scissor_def)

section \<open>Properties\<close>

text \<open>Every state the engine can get into by method writes after a reset.\<close>

definition run_methods :: "(u32 \<times> u32) list \<Rightarrow> GpuState3D \<Rightarrow> GpuState3D" where
  "run_methods mvs st = fold (\<lambda>(m, v) st. fst (HandleMethod m v st)) mvs st"

lemma run_methods_inv: "engine_inv st \<Longrightarrow> engine_inv (run_methods mvs st)"
  by (induction mvs arbitrary: st) (auto simp: run_methods_def HandleMethod_inv)

text \<open>
  Writing the render target registers never sets anything but addresses. The caller
  passes the method offset already divided by 8, and the handler divides it by 8 again to find the
  sub-register, so sub-registers 1 to 7 are unreachable: after any method sequence the width, height,
  format and layout of all render targets are still zero. The same holds for the transforms of
  viewports 12 to 15 and for all scissor rectangles.
\<close>

theorem render_target_registers_unreachable:
  "\<forall>i < 8. rt_dead (rt (run_methods mvs Reset) ! i)"
  using run_methods_inv [OF Reset_inv, of mvs]
  by (auto simp: engine_inv_def unreached_def sizes_ok_def list_all_length)

theorem render_target_registers_unreachable_witness:
  "rt_width (rt (run_methods [(0x201, 1280), (0x208, 1280), (0x210, 720)] Reset) ! 2) = 0"
  using render_target_registers_unreachable [of "[(0x201, 1280), (0x208, 1280), (0x210, 720)]"]
  by (simp add: rt_dead_def)

text \<open>
  GPU addresses are 40 bits wide, but for render targets, vertex arrays, shader
  offsets, the depth target and the texture pools only the low half can be written: after any method
  sequence those addresses are below 4 GiB. (The index buffer and the program region do have a method
  for the high half.)
\<close>

theorem gpu_addresses_truncated:
  "\<forall>i. (i < 8 \<longrightarrow> unat (rt_address (rt (run_methods mvs Reset) ! i)) < 2 ^ 32)
     \<and> (i < 16 \<longrightarrow> unat (va_address (vertex_arrays (run_methods mvs Reset) ! i)) < 2 ^ 32)
     \<and> (i < 6 \<longrightarrow> unat (sh_offset (shaders (run_methods mvs Reset) ! i)) < 2 ^ 32)
     \<and> unat (dt_address (depth_target (run_methods mvs Reset))) < 2 ^ 32
     \<and> unat (tex_header_pool (pools (run_methods mvs Reset))) < 2 ^ 32"
  using run_methods_inv [OF Reset_inv, of mvs]
  by (simp add: engine_inv_def low_addresses_def sizes_ok_def list_all_length fits32_iff)

theorem gpu_addresses_truncated_witness:
  "unat (va_address (vertex_arrays (run_methods [(0x701, 0x80000000), (0x702, 1)] Reset) ! 0)) < 2 ^ 32"
  using gpu_addresses_truncated [of "[(0x701, 0x80000000), (0x702, 1)]", THEN spec, of 0] by simp

lemma HandleMethod_halves:
  "HandleMethod 0x5F2 v st = (st\<lparr>index_buffer := (index_buffer st)\<lparr>ib_address := set_low (ib_address (index_buffer st)) v\<rparr>\<rparr>, False)"
  "HandleMethod 0x5F3 v st = (st\<lparr>index_buffer := (index_buffer st)\<lparr>ib_address := set_high (ib_address (index_buffer st)) v\<rparr>\<rparr>, False)"
  "HandleMethod 0x582 v st = (st\<lparr>pools := (pools st)\<lparr>program_region := set_low (program_region (pools st)) v\<rparr>\<rparr>, False)"
  "HandleMethod 0x583 v st = (st\<lparr>pools := (pools st)\<lparr>program_region := set_high (program_region (pools st)) v\<rparr>\<rparr>, False)"
  by (simp_all add: HandleMethod_def array_method_def method_in_def switch_method_def)

text \<open>
  The two halves of the index buffer address and of the program region can be written
  in either order and give the 64-bit address.
\<close>

theorem address_halves_roundtrip:
  "ib_address (index_buffer (run_methods [(0x5F2, lo), (0x5F3, hi)] st)) = push_bit 32 (ucast hi) OR ucast lo
   \<and> ib_address (index_buffer (run_methods [(0x5F3, hi), (0x5F2, lo)] st)) = push_bit 32 (ucast hi) OR ucast lo
   \<and> program_region (pools (run_methods [(0x582, lo), (0x583, hi)] st)) = push_bit 32 (ucast hi) OR ucast lo
   \<and> program_region (pools (run_methods [(0x583, hi), (0x582, lo)] st)) = push_bit 32 (ucast hi) OR ucast lo"
  by (simp add: run_methods_def HandleMethod_halves set_low_high set_high_low)

text \<open>
  After \<open>Reset\<close> the colour write mask of every render target is 0 and the sample count is
  0, although the declared defaults are \<open>0xF\<close> and 1: the \<^verbatim>\<open>memset\<close> of the reset discards
  the default member initialisers, and the primitive type becomes points instead of triangles.
\<close>

theorem Reset_discards_defaults:
  "color_mask (blend Reset ! 0) = 0 \<and> ms_samples (multisample Reset) = 0 \<and> primitive_type (raster Reset) = 0
   \<and> instance_count (draws Reset) = 0"
  by (simp add: Reset_def zero_state_def zero_blend_def zero_raster_def)

end
