(* ===== verification/StateTracker.thy ===== *)
theory StateTracker
  imports Engine3D
begin

unbundle bit_operations_syntax

text \<open>
  The state tracker that connects the parser to the 3D engine:
  \<^verbatim>\<open>src/src/gpu/StateTracker.h\<close> and \<^verbatim>\<open>src/src/gpu/StateTracker.cpp\<close>.

  \<open>PushBuffer\<close> runs the parser with \<open>OnMethod\<close> as its callback. A draw method puts a snapshot of the
  draw parameters into the queue that the renderer consumes.
\<close>

section \<open>State\<close>

record PendingDraw =
  pd_primitive_type :: u32
  arrays_first :: u32
  arrays_count :: u32
  elements_first :: u32
  elements_count :: u32
  index_addr :: u64
  index_format :: u32
  index_count :: u32
  pipeline_key :: u64

record StateTracker =
  engines :: "EngineType list"
  engine_3d :: GpuState3D
  dirty_flags :: u64
  draw_queue :: "PendingDraw list"

definition StateTracker_init :: StateTracker where
  "StateTracker_init = \<lparr>engines = subch_engines_init, engine_3d = Reset, dirty_flags = 0, draw_queue = []\<rparr>"

section \<open>Operations\<close>

definition rt_key :: "RtState list \<Rightarrow> u64" where
  "rt_key rts = fold (\<lambda>i key. if rt_address (rts ! i) \<noteq> 0 \<and> rt_width (rts ! i) > 0
       then key XOR push_bit (i * 4 + 40) (ucast (rt_format (rts ! i))) else key) [0..<8] 0"

definition ComputePipelineKey :: "GpuState3D \<Rightarrow> u64" where
  "ComputePipelineKey st =
     (let b = blend st ! 0;
          k0 = program_region (pools st);
          k1 = k0 XOR push_bit 12 (sh_offset (shaders st ! 0));
          k2 = k1 XOR push_bit 24 (sh_offset (shaders st ! 5));
          k3 = k2 XOR push_bit 8 (ucast (primitive_type (raster st)));
          k4 = k3 XOR rt_key (rt st);
          k5 = (if dt_enabled (depth_target st) then k4 XOR push_bit 56 (ucast (dt_format (depth_target st))) else k4);
          k6 = (if bl_enabled b
                then k5 XOR (push_bit 16 (ucast (color_op b)) XOR push_bit 20 (ucast (src_color b))
                  XOR push_bit 24 (ucast (dst_color b)) XOR push_bit 28 (ucast (alpha_op b))
                  XOR push_bit 32 (ucast (src_alpha b)) XOR push_bit 36 (ucast (dst_alpha b)))
                else k5);
          k7 = k6 XOR push_bit 48 (ucast (color_mask b))
      in if depth_enabled (depth_stencil st)
         then k7 XOR push_bit 38 (ucast (depth_func (depth_stencil st)))
                XOR push_bit 42 (of_bool (depth_write (depth_stencil st)))
         else k7)"

definition snapshot :: "GpuState3D \<Rightarrow> PendingDraw" where
  "snapshot st = \<lparr>pd_primitive_type = primitive_type (raster st),
     arrays_first = draw_arrays_first (draws st), arrays_count = draw_arrays_count (draws st),
     elements_first = draw_elements_first (draws st), elements_count = draw_elements_count (draws st),
     index_addr = ib_address (index_buffer st), index_format = ib_format (index_buffer st),
     index_count = draw_elements_count (draws st), pipeline_key = ComputePipelineKey st\<rparr>"

definition reset_draw_counts :: "GpuState3D \<Rightarrow> GpuState3D" where
  "reset_draw_counts st = st\<lparr>draws := (draws st)\<lparr>draw_arrays_count := 0, draw_elements_count := 0\<rparr>,
     index_buffer := (index_buffer st)\<lparr>ib_count := 0\<rparr>\<rparr>"

definition OnMethod :: "u32 \<Rightarrow> u32 \<Rightarrow> u32 \<Rightarrow> StateTracker \<Rightarrow> StateTracker" where
  "OnMethod subch method v t =
     (case GetEngine (engines t) subch of
        Engine3D \<Rightarrow>
          let (st, is_draw) = HandleMethod method v (engine_3d t)
          in if is_draw
             then t\<lparr>engine_3d := reset_draw_counts st, dirty_flags := 1,
                    draw_queue := draw_queue t @ [snapshot st]\<rparr>
             else t\<lparr>engine_3d := st, dirty_flags := 1\<rparr>
      | _ \<Rightarrow> t)"

definition PushBuffer :: "u32 list \<Rightarrow> StateTracker \<Rightarrow> nat \<times> StateTracker" where
  "PushBuffer words t = Process OnMethod words 0 t"

definition HasPendingDraws :: "StateTracker \<Rightarrow> bool" where
  "HasPendingDraws t \<longleftrightarrow> draw_queue t \<noteq> []"

definition IsDirty :: "StateTracker \<Rightarrow> bool" where
  "IsDirty t \<longleftrightarrow> dirty_flags t \<noteq> 0"

text \<open>The moved-from queue is empty.\<close>

definition ConsumeDraws :: "StateTracker \<Rightarrow> PendingDraw list \<times> StateTracker" where
  "ConsumeDraws t = (draw_queue t, t\<lparr>draw_queue := []\<rparr>)"

definition ClearDirty :: "StateTracker \<Rightarrow> StateTracker" where
  "ClearDirty t = t\<lparr>dirty_flags := 0, draw_queue := []\<rparr>"

section \<open>Invariant\<close>

definition tracker_inv :: "StateTracker \<Rightarrow> bool" where
  "tracker_inv t \<longleftrightarrow> length (engines t) = 8 \<and> engine_inv (engine_3d t)
     \<and> (HasPendingDraws t \<longrightarrow> IsDirty t) \<and> list_all (\<lambda>d. index_count d = elements_count d) (draw_queue t)"

lemma StateTracker_init_inv: "tracker_inv StateTracker_init"
  by (simp add: tracker_inv_def StateTracker_init_def subch_engines_init_def Reset_inv HasPendingDraws_def)

lemma reset_draw_counts_inv: "engine_inv st \<Longrightarrow> engine_inv (reset_draw_counts st)"
  by (simp add: engine_inv_def sizes_ok_def low_addresses_def unreached_def reset_draw_counts_def)

lemma OnMethod_inv: "tracker_inv t \<Longrightarrow> tracker_inv (OnMethod sc m v t)"
  using HandleMethod_inv [of "engine_3d t" m v]
  by (auto simp: tracker_inv_def OnMethod_def HasPendingDraws_def IsDirty_def snapshot_def split_beta Let_def
      reset_draw_counts_inv split: EngineType.splits)

text \<open>A call draws iff it is one of the two draw methods on a subchannel bound to the 3D engine.\<close>

definition draw_count :: "StateTracker \<Rightarrow> u32 \<Rightarrow> u32 \<Rightarrow> nat" where
  "draw_count t sc m = of_bool (GetEngine (engines t) sc = Engine3D \<and> (m = 0x35E \<or> m = 0x5F8))"

lemma HandleMethod_draw: "snd (HandleMethod m v st) \<longleftrightarrow> m = 0x35E \<or> m = 0x5F8"
proof -
  have "array_method 0x35E v st = None" and "array_method 0x5F8 v st = None"
    by (simp_all add: array_method_def method_in_def)
  then show ?thesis
    by (cases "array_method m v st") (auto simp: HandleMethod_def)
qed

lemma OnMethod_engines [simp]: "engines (OnMethod sc m v t) = engines t"
  by (simp add: OnMethod_def split_beta Let_def split: EngineType.splits)

lemma OnMethod_queue:
  "\<exists>ds. draw_queue (OnMethod sc m v t) = draw_queue t @ ds \<and> length ds = draw_count t sc m"
  using HandleMethod_draw [of m v "engine_3d t"]
  by (auto simp: OnMethod_def draw_count_def split_beta Let_def split: EngineType.splits)

interpretation tracker: call_consumer OnMethod tracker_inv draw_queue draw_count
proof unfold_locales
  show "draw_count (OnMethod sc m v s) = draw_count s" for sc m v s
    by (simp add: draw_count_def fun_eq_iff)
qed (use OnMethod_inv OnMethod_queue in auto)

section \<open>Properties\<close>

text \<open>
  The number of draws a command buffer enqueues, also one that is no list of well-formed commands.
\<close>

theorem PushBuffer_draws:
  "\<exists>ds. draw_queue (snd (PushBuffer words t)) = draw_queue t @ ds
     \<and> length ds = length (filter (\<lambda>(sc, m, v). GetEngine (engines t) sc = Engine3D \<and> (m = 0x35E \<or> m = 0x5F8))
         (fst (decode words)))"
proof -
  have "(\<Sum>(sc, m, v) \<leftarrow> cs. draw_count t sc m) =
      length (filter (\<lambda>(sc, m, v). GetEngine (engines t) sc = Engine3D \<and> (m = 0x35E \<or> m = 0x5F8)) cs)" for cs
    by (induction cs) (auto simp: draw_count_def)
  from this [of "fst (decode words)"] tracker.Process_log [of words t] show ?thesis
    unfolding PushBuffer_def by (elim exE) (metis (no_types, lifting))
qed

text \<open>
  The draws a list of calls stands for, as a function of the register file alone: one for each array draw (method \<open>0x35E\<close>)
  and element draw (\<open>0x5F8\<close>) on a subchannel of the 3D engine, in their order, with the registers that the calls before it
  have left and the count that the call itself brings; a draw leaves no count behind for the next one.
\<close>

definition without_counts :: "GpuState3D \<Rightarrow> GpuState3D" where
  "without_counts st = st\<lparr>draws := (draws st)\<lparr>draw_arrays_count := 0, draw_elements_count := 0\<rparr>,
     index_buffer := (index_buffer st)\<lparr>ib_count := 0\<rparr>\<rparr>"

fun draws_of :: "EngineType list \<Rightarrow> call list \<Rightarrow> GpuState3D \<Rightarrow> PendingDraw list" where
  "draws_of es [] st = []"
| "draws_of es ((sc, m, v) # cs) st =
     (if GetEngine es sc \<noteq> Engine3D then draws_of es cs st
      else if m = 0x35E then (snapshot st)\<lparr>arrays_count := v\<rparr> # draws_of es cs (without_counts st)
      else if m = 0x5F8 then (snapshot st)\<lparr>elements_count := v, index_count := v\<rparr> # draws_of es cs (without_counts st)
      else draws_of es cs (fst (HandleMethod m v st)))"

lemma draw_methods:
  "HandleMethod 0x35E n st = (st\<lparr>draws := (draws st)\<lparr>draw_arrays_count := n\<rparr>\<rparr>, True)"
  "HandleMethod 0x5F8 n st = (st\<lparr>draws := (draws st)\<lparr>draw_elements_count := n\<rparr>\<rparr>, True)"
  by (simp_all add: HandleMethod_def array_method_def method_in_def switch_method_def)

lemma key_without_draws: "ComputePipelineKey (st\<lparr>draws := d\<rparr>) = ComputePipelineKey st"
  by (simp add: ComputePipelineKey_def Let_def)

lemma OnMethod_draw_call:
  assumes "GetEngine (engines t) sc = Engine3D"
  shows "OnMethod sc 0x35E v t = t\<lparr>engine_3d := without_counts (engine_3d t), dirty_flags := 1,
      draw_queue := draw_queue t @ [(snapshot (engine_3d t))\<lparr>arrays_count := v\<rparr>]\<rparr>"
    and "OnMethod sc 0x5F8 v t = t\<lparr>engine_3d := without_counts (engine_3d t), dirty_flags := 1,
      draw_queue := draw_queue t @ [(snapshot (engine_3d t))\<lparr>elements_count := v, index_count := v\<rparr>]\<rparr>"
  using assms by (simp_all add: OnMethod_def draw_methods snapshot_def key_without_draws reset_draw_counts_def without_counts_def)

lemma OnMethod_no_draw:
  assumes "m \<noteq> 0x35E" "m \<noteq> 0x5F8" "GetEngine (engines t) sc = Engine3D"
  shows "OnMethod sc m v t = t\<lparr>engine_3d := fst (HandleMethod m v (engine_3d t)), dirty_flags := 1\<rparr>"
  using assms HandleMethod_draw [of m v "engine_3d t"] by (simp add: OnMethod_def split_beta Let_def)

lemma OnMethod_other: "GetEngine (engines t) sc \<noteq> Engine3D \<Longrightarrow> OnMethod sc m v t = t"
  by (simp add: OnMethod_def split: EngineType.split)

lemma run_calls_draws: "draw_queue (run_calls OnMethod cs t) = draw_queue t @ draws_of (engines t) cs (engine_3d t)"
proof (induction cs arbitrary: t)
  case (Cons c cs)
  obtain sc m v where c: "c = (sc, m, v)"
    by (cases c)
  show ?case
    using Cons.IH [of "OnMethod sc m v t"]
    by (cases "GetEngine (engines t) sc = Engine3D"; cases "m = 0x35E"; cases "m = 0x5F8")
      (simp_all add: c OnMethod_draw_call OnMethod_no_draw OnMethod_other)
qed simp

text \<open>
  Property C38. The draws of a command buffer, in order and with their contents: behind the draws already queued there is one entry for
  every array and element draw that the commands address to the 3D engine, in the order of the commands, each with the registers
  as the calls before it have left them and with the count of its own call; a draw's counts are gone for the next one, and nothing
  else enqueues a draw.
\<close>

theorem PushBuffer_queues_draws:
  assumes "list_all command_ok cmds"
  shows "draw_queue (snd (PushBuffer (concat (map layout cmds)) t)) =
    draw_queue t @ draws_of (engines t) (concat (map meaning cmds)) (engine_3d t)"
proof -
  have "map layout cmds = map encode cmds"
    using assms by (auto simp: list_all_iff layout_encode)
  then show ?thesis
    using decode_encode [OF assms]
    by (simp only: PushBuffer_def Process_decode_from [OF le0] drop_0 fst_conv snd_conv run_calls_draws)
qed

theorem PushBuffer_queues_draws_witness:
  "draw_queue (snd (PushBuffer (concat (map layout [Imm 0 0x35E 3, Imm 0 0x5F8 6])) StateTracker_init)) =
    [(snapshot Reset)\<lparr>arrays_count := 3\<rparr>, (snapshot Reset)\<lparr>elements_count := 6, index_count := 6\<rparr>]"
proof -
  have "without_counts Reset = Reset"
    by (simp add: without_counts_def Reset_def zero_state_def)
  moreover have "list_all command_ok [Imm 0 0x35E 3, Imm 0 0x5F8 6]"
    by (simp add: GpfifoHandle_def)
  ultimately show ?thesis
    using PushBuffer_queues_draws [of "[Imm 0 0x35E 3, Imm 0 0x5F8 6]" StateTracker_init]
    by (simp add: StateTracker_init_def subch_engines_init_def GetEngine_def del: layout.simps)
qed

text \<open>
  Starting from a new tracker, after any command buffers the register file invariant
  holds, a tracker with pending draws is dirty, and every queued draw has an index count equal to its
  element count.
\<close>

theorem PushBuffer_invariant:
  "tracker_inv (snd (PushBuffer ws2 (snd (PushBuffer ws1 StateTracker_init))))
   \<and> tracker_inv (snd (ConsumeDraws (snd (PushBuffer ws1 StateTracker_init))))
   \<and> \<not> HasPendingDraws (snd (ConsumeDraws (snd (PushBuffer ws1 StateTracker_init))))"
proof -
  have "tracker_inv (snd (PushBuffer ws1 StateTracker_init))"
    unfolding PushBuffer_def by (rule tracker.Process_keeps [OF StateTracker_init_inv])
  then show ?thesis
    unfolding PushBuffer_def using tracker.Process_keeps
    by (auto simp: tracker_inv_def ConsumeDraws_def HasPendingDraws_def IsDirty_def)
qed

text \<open>
  A draw method records the parameters written before it and clears the live counts, so
  the same counts are not drawn again: writing first and count, then another count for elements,
  yields one array draw and one element draw that no longer carries the array count.
\<close>

theorem OnMethod_draw_snapshot:
  assumes "GetEngine (engines t) sc = Engine3D"
  shows "draw_queue (OnMethod sc 0x35E n t) = draw_queue t @
      [(snapshot (engine_3d t))\<lparr>arrays_count := n\<rparr>]
    \<and> draw_arrays_count (draws (engine_3d (OnMethod sc 0x35E n t))) = 0
    \<and> draw_elements_count (draws (engine_3d (OnMethod sc 0x35E n t))) = 0"
proof -
  have "HandleMethod 0x35E n st = (st\<lparr>draws := (draws st)\<lparr>draw_arrays_count := n\<rparr>\<rparr>, True)" for st
    by (simp add: HandleMethod_def array_method_def method_in_def switch_method_def)
  then show ?thesis
    using assms by (simp add: OnMethod_def snapshot_def ComputePipelineKey_def reset_draw_counts_def Let_def)
qed

theorem OnMethod_draw_snapshot_witness:
  "draw_queue (OnMethod 0 0x35E 3 StateTracker_init) = [(snapshot Reset)\<lparr>arrays_count := 3\<rparr>]"
  using OnMethod_draw_snapshot [of StateTracker_init 0 3]
  by (simp add: StateTracker_init_def subch_engines_init_def GetEngine_def)

text \<open>
  The pipeline key never depends on the render target configuration that it is meant to
  include: for every state reachable by command buffers the render target contribution is zero, since
  the render target widths stay zero.
\<close>

theorem pipeline_key_ignores_render_targets:
  "rt_key (rt (engine_3d (snd (PushBuffer words StateTracker_init)))) = 0"
proof -
  have "tracker_inv (snd (PushBuffer words StateTracker_init))"
    unfolding PushBuffer_def by (rule tracker.Process_keeps [OF StateTracker_init_inv])
  then have "rt_width (rt (engine_3d (snd (PushBuffer words StateTracker_init))) ! i) = 0" if "i < 8" for i
    using that by (auto simp: tracker_inv_def engine_inv_def unreached_def sizes_ok_def list_all_length rt_dead_def)
  then show ?thesis
    by (simp add: rt_key_def upt_rec)
qed

text \<open>
  Equal pipeline keys do not mean equal pipelines: two command buffers that select
  different primitive types and program regions give draws with the same key, which the renderer may
  batch into one encoder.
\<close>

theorem pipeline_key_collision:
  "\<exists>st1 st2. engine_inv st1 \<and> engine_inv st2 \<and> ComputePipelineKey st1 = ComputePipelineKey st2
     \<and> primitive_type (raster st1) \<noteq> primitive_type (raster st2)
     \<and> program_region (pools st1) \<noteq> program_region (pools st2)"
proof -
  define st1 where "st1 = run_methods [(0x586, 4)] Reset"
  define st2 where "st2 = run_methods [(0x582, 0x400)] Reset"
  have e: "st1 = Reset\<lparr>raster := (raster Reset)\<lparr>primitive_type := 4\<rparr>\<rparr>"
      "st2 = Reset\<lparr>pools := (pools Reset)\<lparr>program_region := 0x400\<rparr>\<rparr>"
    by (simp_all add: st1_def st2_def run_methods_def HandleMethod_def array_method_def method_in_def
        switch_method_def depth_stencil_methods_def misc_methods_def set_low_def Reset_def zero_state_def)
  have "engine_inv st1" "engine_inv st2"
    by (simp_all add: st1_def st2_def run_methods_inv Reset_inv)
  moreover have "ComputePipelineKey st1 = ComputePipelineKey st2"
    unfolding e by (simp add: ComputePipelineKey_def Reset_def zero_state_def zero_raster_def zero_blend_def
        zero_shader_def zero_rt_def rt_key_def Let_def)
  ultimately show ?thesis
    by (intro exI [of _ st1] exI [of _ st2]) (simp add: e Reset_def zero_state_def zero_raster_def)
qed

end
