(* ===== verification/Nv.thy ===== *)
theory Nv
  imports ServiceIo StateTracker
begin

unbundle bit_operations_syntax

text \<open>
  The GPU driver services: \<^verbatim>\<open>src/src/services/Nv.cpp\<close>. The record \<open>nv\<close> holds the file's static
  variables (the NvMap table, the syncpoints, the pointers to guest memory and state tracker), the static
  \<open>next_fd\<close> of \<open>NvDrvService::HandleOpen\<close> and the fields of the one \<open>NvGpuService\<close> object.

  \<open>HandleSubmitGpfifo\<close> connects the services to the GPU: it reads a push buffer from guest memory and runs
  \<open>PushBuffer\<close> of the state tracker on it. Reading beyond the input bytes that
  are really there is \<open>OobRead\<close>, as in the other services.
\<close>

section \<open>State\<close>

record NvMapEntry =
  nm_handle :: u32
  nm_id :: u32
  nm_size :: u64
  nm_align :: u64
  nm_addr :: u64
  nm_iova :: u64
  nm_flags :: u32
  nm_cached :: bool
  nm_mapped :: bool

definition NVMAP_CARVEOUT_BASE :: u64 where "NVMAP_CARVEOUT_BASE = 0xD0000000"
definition NVMAP_CARVEOUT_SIZE :: u64 where "NVMAP_CARVEOUT_SIZE = 0x10000000"
definition MAX_SYNCPT :: nat where "MAX_SYNCPT = 24"

lemmas nv_consts = NVMAP_CARVEOUT_BASE_def NVMAP_CARVEOUT_SIZE_def MAX_SYNCPT_def

record nv =
  nv_memory :: "memory option"
  nv_tracker :: "StateTracker option"
  nvmap_entries :: "NvMapEntry list"
  nvmap_handle_index :: "u32 \<rightharpoonup> nat"
  nvmap_next_id :: u32
  nvmap_carveout_offset :: u64
  syncpt_counter :: u32
  syncpt_value :: "u32 list"
  next_fd :: u32
  as_handle :: u64
  channel_fd :: u32
  gpfifo_entries :: u32

definition nv_init :: "memory option \<Rightarrow> StateTracker option \<Rightarrow> nv" where
  "nv_init m t = \<lparr>nv_memory = m, nv_tracker = t, nvmap_entries = [], nvmap_handle_index = Map.empty,
     nvmap_next_id = 1, nvmap_carveout_offset = 0, syncpt_counter = 0, syncpt_value = replicate MAX_SYNCPT 0,
     next_fd = 0x10, as_handle = 0, channel_fd = 0, gpfifo_entries = 0\<rparr>"

section \<open>nvdrv: devices\<close>

text \<open>The path is only logged; reading it touches the input.\<close>

definition nvdrv_HandleOpen :: "u8 list \<Rightarrow> nat \<Rightarrow> u8 list \<Rightarrow> nv \<Rightarrow> nv outcome" where
  "nvdrv_HandleOpen inp in_sz out v =
     bind_sum (if 4 < in_sz \<and> in_sz < 256 then
                 bind_sum (rd inp 0 4) (\<lambda>bs.
                   let path_len = unat (of_le_bytes bs :: u32)
                   in if 0 < path_len \<and> path_len < in_sz - 4 then rd inp 4 (min path_len (in_sz - 4)) else Inr [])
               else Inr [])
       (\<lambda>path. answer (le_bytes 4 (next_fd v)) out (v\<lparr>next_fd := next_fd v + 1\<rparr>))"

definition nvdrv_HandleClose :: "u8 list \<Rightarrow> nv \<Rightarrow> nv outcome" where
  "nvdrv_HandleClose out v = no_answer out v"

definition nvdrv_HandleCommand :: "nv handler" where
  "nvdrv_HandleCommand cmd inp in_sz out v =
     (if cmd = 0 then no_answer out v
      else if cmd = 1 then nvdrv_HandleOpen inp in_sz out v
      else if cmd = 2 then nvdrv_HandleClose out v
      else no_answer out v)"

section \<open>nvmap: memory objects\<close>

definition handle_of_id :: "u32 \<Rightarrow> u32" where
  "handle_of_id i = i OR 0xCAFE0000"

definition new_entry :: "u32 \<Rightarrow> u32 \<Rightarrow> u64 \<Rightarrow> NvMapEntry" where
  "new_entry i sz align = \<lparr>nm_handle = handle_of_id i, nm_id = i, nm_size = ucast sz, nm_align = align, nm_addr = 0,
     nm_iova = 0, nm_flags = 0, nm_cached = True, nm_mapped = False\<rparr>"

text \<open>\<^verbatim>\<open>(align > 0) ? align : 0x1000\<close>\<close>

definition given_align :: "u32 \<Rightarrow> u64" where
  "given_align align = (if align > 0 then ucast align else 0x1000)"

text \<open>The common part of \<open>HandleCreate\<close> and \<open>NvMap_Alloc\<close>: the new entry and its index.\<close>

definition push_entry :: "u32 \<Rightarrow> u64 \<Rightarrow> nv \<Rightarrow> u32 \<times> nv" where
  "push_entry sz align v =
     (let e = new_entry (nvmap_next_id v) sz align
      in (nm_handle e,
          v\<lparr>nvmap_next_id := nvmap_next_id v + 1,
            nvmap_handle_index := (nvmap_handle_index v)(nm_handle e \<mapsto> length (nvmap_entries v)),
            nvmap_entries := nvmap_entries v @ [e]\<rparr>))"

definition nvmap_HandleCreate :: "u8 list \<Rightarrow> nat \<Rightarrow> u8 list \<Rightarrow> nv \<Rightarrow> nv outcome" where
  "nvmap_HandleCreate inp in_sz out v =
     bind_sum (arg_u32 4 0 0 inp in_sz) (\<lambda>sz.
       let (h, v') = push_entry sz 0x1000 v in answer (le_bytes 4 h) out v')"

definition nvmap_HandleFromId :: "u8 list \<Rightarrow> nat \<Rightarrow> u8 list \<Rightarrow> nv \<Rightarrow> nv outcome" where
  "nvmap_HandleFromId inp in_sz out v =
     bind_sum (arg_u32 4 0 0 inp in_sz) (\<lambda>i.
       case find (\<lambda>e. nm_id e = i) (nvmap_entries v) of
         Some e \<Rightarrow> answer (le_bytes 4 (nm_handle e)) out v
       | None \<Rightarrow> answer (le_bytes 4 (handle_of_id i)) out v)"

definition upd_entry :: "nat \<Rightarrow> (NvMapEntry \<Rightarrow> NvMapEntry) \<Rightarrow> nv \<Rightarrow> nv" where
  "upd_entry i f v = v\<lparr>nvmap_entries := (nvmap_entries v)[i := f (nvmap_entries v ! i)]\<rparr>"

definition alloc_size :: "NvMapEntry \<Rightarrow> u64" where
  "alloc_size e = AlignUp (nm_size e) (if nm_align e \<noteq> 0 then nm_align e else 0x1000)"

text \<open>Reserving and mapping the buffer of entry \<open>i\<close>; every failure is only logged.\<close>

definition carve_out :: "host_vm \<Rightarrow> nat \<Rightarrow> nv \<Rightarrow> nv" where
  "carve_out host i v =
     (case nv_memory v of
        None \<Rightarrow> v
      | Some m \<Rightarrow>
          let sz = alloc_size (nvmap_entries v ! i) in
          if nm_addr (nvmap_entries v ! i) \<noteq> 0 then v
          else if nvmap_carveout_offset v + sz > NVMAP_CARVEOUT_SIZE then v
          else
            let a = NVMAP_CARVEOUT_BASE + nvmap_carveout_offset v;
                (r, m') = MapPhysical host m a sz Perm_RW None;
                v1 = v\<lparr>nv_memory := Some m'\<rparr>
            in if Failed r then v1
               else (upd_entry i (\<lambda>e. e\<lparr>nm_addr := a, nm_iova := a, nm_mapped := True\<rparr>) v1)
                      \<lparr>nvmap_carveout_offset := nvmap_carveout_offset v + sz\<rparr>)"

definition nvmap_HandleAlloc :: "host_vm \<Rightarrow> u8 list \<Rightarrow> nat \<Rightarrow> u8 list \<Rightarrow> nv \<Rightarrow> nv outcome" where
  "nvmap_HandleAlloc host inp in_sz out v =
     (if in_sz < 0x20 then answer (replicate 4 0) out v
      else
        bind_sum (rd inp 0 17) (\<lambda>bs.
          let h = word_at bs 0; flags = word_at bs 8; align = word_at bs 12; kind = bs ! 16
          in case nvmap_handle_index v h of
               None \<Rightarrow> answer (replicate 4 0) out v
             | Some i \<Rightarrow>
                 let v1 = upd_entry i (\<lambda>e. e\<lparr>nm_align := given_align align, nm_flags := flags, nm_cached := kind = 0 \<or> kind = 1\<rparr>) v
                 in answer (replicate 4 0) out (carve_out host i v1)))"

definition nvmap_HandleFree :: "u8 list \<Rightarrow> nat \<Rightarrow> u8 list \<Rightarrow> nv \<Rightarrow> nv outcome" where
  "nvmap_HandleFree inp in_sz out v =
     bind_sum (arg_u32 4 0 0 inp in_sz) (\<lambda>h.
       answer (replicate 4 0) out
         (case nvmap_handle_index v h of
            None \<Rightarrow> v
          | Some i \<Rightarrow> upd_entry i (\<lambda>e. e\<lparr>nm_addr := 0, nm_mapped := False\<rparr>) v))"

definition param_value :: "u32 \<Rightarrow> NvMapEntry \<Rightarrow> u32" where
  "param_value p e =
     (if p = 0 then ucast (nm_size e)
      else if p = 1 then ucast (nm_align e)
      else if p = 2 then of_bool (nm_cached e)
      else if p = 3 then ucast (nm_iova e)
      else if p = 4 then ucast (drop_bit 32 (nm_iova e))
      else 0)"

definition nvmap_HandleParam :: "u8 list \<Rightarrow> nat \<Rightarrow> u8 list \<Rightarrow> nv \<Rightarrow> nv outcome" where
  "nvmap_HandleParam inp in_sz out v =
     bind_sum (arg_u32 8 0 0 inp in_sz) (\<lambda>h.
     bind_sum (arg_u32 8 4 0 inp in_sz) (\<lambda>p.
       answer (le_bytes 4
         (case nvmap_handle_index v h of None \<Rightarrow> 0 | Some i \<Rightarrow> param_value p (nvmap_entries v ! i))) out v))"

definition nvmap_HandleGetId :: "u8 list \<Rightarrow> nat \<Rightarrow> u8 list \<Rightarrow> nv \<Rightarrow> nv outcome" where
  "nvmap_HandleGetId inp in_sz out v =
     bind_sum (arg_u32 4 0 0 inp in_sz) (\<lambda>h.
       answer (le_bytes 4
         (case nvmap_handle_index v h of Some i \<Rightarrow> nm_id (nvmap_entries v ! i) | None \<Rightarrow> h AND 0xFFFF)) out v)"

definition nvmap_HandleGetHandle :: "u8 list \<Rightarrow> nat \<Rightarrow> u8 list \<Rightarrow> nv \<Rightarrow> nv outcome" where
  "nvmap_HandleGetHandle inp in_sz out v =
     bind_sum (arg_u32 4 0 0 inp in_sz) (\<lambda>i. answer (le_bytes 4 (handle_of_id i)) out v)"

definition nvmap_HandleCacheOp :: "u8 list \<Rightarrow> nv \<Rightarrow> nv outcome" where
  "nvmap_HandleCacheOp out v = no_answer out v"

definition nvmap_HandleCommand :: "host_vm \<Rightarrow> nv handler" where
  "nvmap_HandleCommand host cmd inp in_sz out v =
     (if cmd = 0xC0100001 then nvmap_HandleCreate inp in_sz out v
      else if cmd = 0xC0080002 then nvmap_HandleFromId inp in_sz out v
      else if cmd = 0xC0200004 then nvmap_HandleAlloc host inp in_sz out v
      else if cmd = 0xC0180005 then nvmap_HandleFree inp in_sz out v
      else if cmd = 0xC00C0007 then nvmap_HandleParam inp in_sz out v
      else if cmd = 0xC008000E then nvmap_HandleGetId inp in_sz out v
      else if cmd = 0xC008000F then nvmap_HandleGetHandle inp in_sz out v
      else if cmd = 0xC0080009 then nvmap_HandleCacheOp out v
      else no_answer out v)"

text \<open>The C interface.\<close>

definition NvMap_LookupByHandle :: "u32 \<Rightarrow> nv \<Rightarrow> NvMapEntry option" where
  "NvMap_LookupByHandle h v =
     (case nvmap_handle_index v h of
        Some i \<Rightarrow> if i < length (nvmap_entries v) then Some (nvmap_entries v ! i) else None
      | None \<Rightarrow> None)"

definition NvMap_GetIOVA :: "u32 \<Rightarrow> nv \<Rightarrow> u64" where
  "NvMap_GetIOVA h v = (case NvMap_LookupByHandle h v of Some e \<Rightarrow> nm_iova e | None \<Rightarrow> 0)"

definition NvMap_Alloc :: "u32 \<Rightarrow> u32 \<Rightarrow> nv \<Rightarrow> u32 \<times> nv" where
  "NvMap_Alloc sz align v = push_entry sz (given_align align) v"

section \<open>nvdrv#: command submission\<close>

definition nvgpu_HandleAllocAs :: "u8 list \<Rightarrow> nv \<Rightarrow> nv outcome" where
  "nvgpu_HandleAllocAs out v = answer (le_bytes 8 (0x1000 :: u64)) out (v\<lparr>as_handle := 0x1000\<rparr>)"

text \<open>The class id is only logged.\<close>

definition nvgpu_HandleAllocObjCtx :: "u8 list \<Rightarrow> nat \<Rightarrow> u8 list \<Rightarrow> nv \<Rightarrow> nv outcome" where
  "nvgpu_HandleAllocObjCtx inp in_sz out v =
     bind_sum (arg_u32 4 0 0xB197 inp in_sz) (\<lambda>class_id.
       answer (le_bytes 4 (0x1001 :: u32) @ replicate 4 0) out (v\<lparr>channel_fd := 0x1001\<rparr>))"

definition nvgpu_HandleAllocGpfifo :: "u8 list \<Rightarrow> nat \<Rightarrow> u8 list \<Rightarrow> nv \<Rightarrow> nv outcome" where
  "nvgpu_HandleAllocGpfifo inp in_sz out v =
     bind_sum (arg_u32 4 0 0x400 inp in_sz) (\<lambda>n. answer (le_bytes 4 n) out (v\<lparr>gpfifo_entries := n\<rparr>))"

definition nvgpu_HandleGetErrorNotifier :: "u8 list \<Rightarrow> nv \<Rightarrow> nv outcome" where
  "nvgpu_HandleGetErrorNotifier out v = answer (replicate 8 0) out v"

definition gpu_param :: "u32 \<Rightarrow> u32" where
  "gpu_param p =
     (if p = 0 then 0xF else if p = 1 then 0x200 else if p = 2 then 0x200 else if p = 4 then 0x28
      else if p = 5 then 0x14 else if p = 7 then 1 else if p = 13 then 1 else if p = 24 then 0xFFFF else 0)"

definition nvgpu_HandleGetParam :: "u8 list \<Rightarrow> nat \<Rightarrow> u8 list \<Rightarrow> nv \<Rightarrow> nv outcome" where
  "nvgpu_HandleGetParam inp in_sz out v =
     bind_sum (arg_u32 4 0 0 inp in_sz) (\<lambda>p. answer (le_bytes 4 (gpu_param p)) out v)"

text \<open>The vector is zero-initialised, and the loop stops at the first word that cannot be read.\<close>

fun read_words :: "memory \<Rightarrow> u64 \<Rightarrow> nat \<Rightarrow> nat \<Rightarrow> u32 list" where
  "read_words m pb i 0 = []"
| "read_words m pb i (Suc n) =
     (case Read m (pb + of_nat (i * 4)) 4 of
        Inl _ \<Rightarrow> replicate (Suc n) 0
      | Inr bs \<Rightarrow> of_le_bytes bs # read_words m pb (Suc i) n)"

definition nvgpu_HandleSubmitGpfifo :: "u8 list \<Rightarrow> nat \<Rightarrow> u8 list \<Rightarrow> nv \<Rightarrow> nv outcome" where
  "nvgpu_HandleSubmitGpfifo inp in_sz out v =
     (if in_sz < 16 then Inr (False, out, length out, v)
      else
        bind_sum (rd inp 0 12) (\<lambda>bs.
          let pb = of_le_bytes (get_bytes bs 0 8); n = word_at bs 8
          in case (nv_memory v, nv_tracker v) of
               (Some m, Some t) \<Rightarrow>
                 if n = 0 then no_answer out v
                 else
                   let words = read_words m pb 0 (min (unat n) 65536);
                       (consumed, t') = PushBuffer words t;
                       v1 = v\<lparr>nv_tracker := Some t'\<rparr>
                   in if length out \<ge> 8
                      then answer (le_bytes 4 (0 :: u32) @ le_bytes 4 (syncpt_counter v1)) out
                             (v1\<lparr>syncpt_counter := syncpt_counter v1 + 1\<rparr>)
                      else Inr (True, out, length out, v1)
             | _ \<Rightarrow> no_answer out v))"

definition nvgpu_HandleCommand :: "nv handler" where
  "nvgpu_HandleCommand cmd inp in_sz out v =
     (if cmd = 0x80080003 then nvgpu_HandleAllocAs out v
      else if cmd = 0xC010000F then nvgpu_HandleAllocObjCtx inp in_sz out v
      else if cmd = 0xC0480012 then nvgpu_HandleSubmitGpfifo inp in_sz out v
      else if cmd = 0xC0100014 then nvgpu_HandleAllocGpfifo inp in_sz out v
      else if cmd = 0xC0100018 then nvgpu_HandleGetErrorNotifier out v
      else if cmd = 0xC008001A then nvgpu_HandleGetParam inp in_sz out v
      else no_answer out v)"

section \<open>nvhost-ctrl: syncpoints\<close>

definition ctrl_HandleSyncptAlloc :: "u8 list \<Rightarrow> nv \<Rightarrow> nv outcome" where
  "ctrl_HandleSyncptAlloc out v =
     (let i0 = syncpt_counter v;
          i = (if unat i0 \<ge> MAX_SYNCPT then of_nat (MAX_SYNCPT - 1) else i0)
      in answer (le_bytes 4 i) out
           (v\<lparr>syncpt_counter := i0 + 1, syncpt_value := (syncpt_value v)[unat i := 0]\<rparr>))"

definition syncpt_read :: "u32 \<Rightarrow> nv \<Rightarrow> u32" where
  "syncpt_read i v = (if unat i < MAX_SYNCPT then syncpt_value v ! unat i else 0)"

definition ctrl_HandleSyncptRead :: "u8 list \<Rightarrow> nat \<Rightarrow> u8 list \<Rightarrow> nv \<Rightarrow> nv outcome" where
  "ctrl_HandleSyncptRead inp in_sz out v =
     bind_sum (arg_u32 4 0 0 inp in_sz) (\<lambda>i. answer (le_bytes 4 (syncpt_read i v)) out v)"

definition ctrl_HandleSyncptReadEx :: "u8 list \<Rightarrow> nat \<Rightarrow> u8 list \<Rightarrow> nv \<Rightarrow> nv outcome" where
  "ctrl_HandleSyncptReadEx inp in_sz out v =
     bind_sum (arg_u32 4 0 0 inp in_sz) (\<lambda>i. answer (le_bytes 4 (syncpt_read i v) @ le_bytes 4 i) out v)"

definition ctrl_HandleSyncptWait :: "u8 list \<Rightarrow> nv \<Rightarrow> nv outcome" where
  "ctrl_HandleSyncptWait out v = no_answer out v"

definition ctrl_HandleEventSignal :: "u8 list \<Rightarrow> nv \<Rightarrow> nv outcome" where
  "ctrl_HandleEventSignal out v = no_answer out v"

definition ctrl_HandleEventWait :: "u8 list \<Rightarrow> nv \<Rightarrow> nv outcome" where
  "ctrl_HandleEventWait out v = no_answer out v"

definition ctrl_HandleCommand :: "nv handler" where
  "ctrl_HandleCommand cmd inp in_sz out v =
     (if cmd = 0x400C0001 then ctrl_HandleSyncptAlloc out v
      else if cmd = 0xC00C0002 then ctrl_HandleSyncptWait out v
      else if cmd = 0x80080004 then ctrl_HandleSyncptRead inp in_sz out v
      else if cmd = 0xC0080005 then ctrl_HandleSyncptReadEx inp in_sz out v
      else if cmd = 0xC0100006 then ctrl_HandleEventSignal out v
      else if cmd = 0xC0100007 then ctrl_HandleEventWait out v
      else no_answer out v)"

definition ServiceNv_Init :: "host_vm \<Rightarrow> memory option \<Rightarrow> memory option" where
  "ServiceNv_Init host mem =
     map_option (\<lambda>m. snd (MapPhysical host m 0x20000000 0x4000000 Perm_RW None)) mem"

section \<open>Handlers keep the contract\<close>

lemmas nvmap_handlers = nvmap_HandleCreate_def nvmap_HandleFromId_def nvmap_HandleAlloc_def nvmap_HandleFree_def
  nvmap_HandleParam_def nvmap_HandleGetId_def nvmap_HandleGetHandle_def nvmap_HandleCacheOp_def

lemmas nvgpu_handlers = nvgpu_HandleAllocAs_def nvgpu_HandleAllocObjCtx_def nvgpu_HandleSubmitGpfifo_def
  nvgpu_HandleAllocGpfifo_def nvgpu_HandleGetErrorNotifier_def nvgpu_HandleGetParam_def

lemmas ctrl_handlers = ctrl_HandleSyncptWait_def ctrl_HandleEventSignal_def ctrl_HandleEventWait_def
  ctrl_HandleSyncptAlloc_def ctrl_HandleSyncptRead_def ctrl_HandleSyncptReadEx_def

interpretation nvdrv: handler_contract nvdrv_HandleCommand
proof
  show "fits out (nvdrv_HandleCommand cmd inp in_sz out m)" for out cmd inp in_sz m
    unfolding nvdrv_HandleCommand_def nvdrv_HandleOpen_def nvdrv_HandleClose_def by (intro fits_intros)
qed

interpretation nvmap: handler_contract "nvmap_HandleCommand host"
proof
  show "fits out (nvmap_HandleCommand host cmd inp in_sz out m)" for out cmd inp in_sz m
    unfolding nvmap_HandleCommand_def nvmap_handlers by (intro fits_intros)
qed

interpretation nvgpu: handler_contract nvgpu_HandleCommand
proof
  show "fits out (nvgpu_HandleCommand cmd inp in_sz out m)" for out cmd inp in_sz m
    unfolding nvgpu_HandleCommand_def nvgpu_handlers by (intro fits_intros) auto
qed

interpretation nvctrl: handler_contract ctrl_HandleCommand
proof
  show "fits out (ctrl_HandleCommand cmd inp in_sz out m)" for out cmd inp in_sz m
    unfolding ctrl_HandleCommand_def ctrl_handlers by (intro fits_intros)
qed

section \<open>The memory object table\<close>

lemma and_plus_and_not: "(y AND m) + (y AND NOT m) = (y :: 'a::len word)"
proof -
  have "(y AND m) + (y AND NOT m) = (y AND m) OR (y AND NOT m)"
    by (rule disjunctive_add) (simp add: bit_simps)
  also have "\<dots> = y"
    by (rule bit_word_eqI) (auto simp: bit_simps)
  finally show ?thesis .
qed

text \<open>Rounding up never shrinks, whatever the alignment.\<close>

lemma AlignUp_any:
  fixes x a :: "'a::len word"
  assumes "0 < unat a" and "unat x + unat a \<le> 2 ^ LENGTH('a)"
  shows "unat x \<le> unat (AlignUp x a)" and "unat (AlignUp x a) \<le> unat x + unat a - 1"
proof -
  let ?y = "x + (a - 1)"
  have m: "unat (a - 1) = unat a - 1"
    using assms(1) by (intro unat_minus_one) auto
  have y: "unat ?y = unat x + unat a - 1"
    using assms m by (simp add: unat_word_ariths)
  have le: "?y AND (a - 1) \<le> a - 1" "?y AND (a - 1) \<le> ?y" "?y AND NOT (a - 1) \<le> ?y"
    by (simp_all add: word_and_le1 word_and_le2)
  have "?y AND NOT (a - 1) = ?y - (?y AND (a - 1))"
    using and_plus_and_not [of ?y "a - 1"] by (simp add: algebra_simps)
  then have "unat (?y AND NOT (a - 1)) = unat ?y - unat (?y AND (a - 1))"
    using le(2) by (simp add: unat_sub)
  then have "unat x \<le> unat (?y AND NOT (a - 1))"
    using le(1) y m assms(1) by (simp add: word_le_nat_alt)
  moreover have "unat (?y AND NOT (a - 1)) \<le> unat x + unat a - 1"
    using le(3) y by (simp add: word_le_nat_alt)
  ultimately show "unat x \<le> unat (AlignUp x a)" "unat (AlignUp x a) \<le> unat x + unat a - 1"
    by (simp_all add: AlignUp_def add_diff_eq)
qed

definition entry_ok :: "NvMapEntry \<Rightarrow> bool" where
  "entry_ok e \<longleftrightarrow> unat (nm_size e) < 2 ^ 32 \<and> unat (nm_align e) < 2 ^ 32 \<and> nm_handle e = handle_of_id (nm_id e)
     \<and> (nm_mapped e \<longleftrightarrow> nm_addr e \<noteq> 0)"

definition index_ok :: "nv \<Rightarrow> bool" where
  "index_ok v \<longleftrightarrow> (\<forall>h i. nvmap_handle_index v h = Some i \<longrightarrow>
     i < length (nvmap_entries v) \<and> nm_handle (nvmap_entries v ! i) = h)"

text \<open>The bytes of a mapped object, as guest addresses.\<close>

definition region :: "NvMapEntry \<Rightarrow> nat set" where
  "region e = (if nm_mapped e then {unat (nm_addr e) ..< unat (nm_addr e) + unat (nm_size e)} else {})"

definition carveout :: "nat \<Rightarrow> nat set" where
  "carveout n = {unat NVMAP_CARVEOUT_BASE ..< unat NVMAP_CARVEOUT_BASE + n}"

definition regions_ok :: "nv \<Rightarrow> bool" where
  "regions_ok v \<longleftrightarrow> unat (nvmap_carveout_offset v) \<le> unat NVMAP_CARVEOUT_SIZE
     \<and> (\<forall>i < length (nvmap_entries v). region (nvmap_entries v ! i) \<subseteq> carveout (unat (nvmap_carveout_offset v)))
     \<and> (\<forall>i < length (nvmap_entries v). \<forall>j < i. region (nvmap_entries v ! i) \<inter> region (nvmap_entries v ! j) = {})"

definition nvmap_inv :: "nv \<Rightarrow> bool" where
  "nvmap_inv v \<longleftrightarrow> list_all entry_ok (nvmap_entries v) \<and> index_ok v \<and> regions_ok v"

lemma nv_init_inv: "nvmap_inv (nv_init m t)"
  by (simp add: nvmap_inv_def nv_init_def index_ok_def regions_ok_def)

lemma entry_at: "nvmap_inv v \<Longrightarrow> i < length (nvmap_entries v) \<Longrightarrow> entry_ok (nvmap_entries v ! i)"
  by (simp add: nvmap_inv_def list_all_length)

lemma upd_entry_simps [simp]:
  "nvmap_entries (upd_entry i f v) = (nvmap_entries v)[i := f (nvmap_entries v ! i)]"
  "nvmap_handle_index (upd_entry i f v) = nvmap_handle_index v"
  "nvmap_carveout_offset (upd_entry i f v) = nvmap_carveout_offset v"
  "nv_memory (upd_entry i f v) = nv_memory v"
  by (simp_all add: upd_entry_def)

text \<open>An update that keeps identity and region, or drops the region.\<close>

lemma upd_entry_inv:
  assumes "nvmap_inv v" and "i < length (nvmap_entries v)"
    and "entry_ok (f (nvmap_entries v ! i))" and "nm_handle (f (nvmap_entries v ! i)) = nm_handle (nvmap_entries v ! i)"
    and "region (f (nvmap_entries v ! i)) \<subseteq> region (nvmap_entries v ! i)"
  shows "nvmap_inv (upd_entry i f v)"
  using assms unfolding nvmap_inv_def index_ok_def regions_ok_def list_all_length
  by (auto simp: nth_list_update) blast+

lemma push_entry_inv:
  assumes "nvmap_inv v" and "unat align < 2 ^ 32"
  shows "nvmap_inv (snd (push_entry sz align v))"
proof -
  let ?e = "new_entry (nvmap_next_id v) sz align"
  have "unat (ucast sz :: u64) < 2 ^ 32"
    using unat_u32_less [of sz] by (simp add: unsigned_ucast_eq take_bit_nat_eq_self)
  then have "entry_ok ?e" and "region ?e = {}"
    using assms(2) by (simp_all add: entry_ok_def new_entry_def region_def)
  then show ?thesis
    using assms(1) unfolding nvmap_inv_def index_ok_def regions_ok_def
    by (auto simp: push_entry_def Let_def nth_append less_Suc_eq)
qed

lemma alloc_size_bounds:
  assumes "entry_ok e"
  shows "unat (nm_size e) \<le> unat (alloc_size e)" and "unat (alloc_size e) < 2 ^ 33"
proof -
  let ?a = "if nm_align e \<noteq> 0 then nm_align e else 0x1000"
  have a: "0 < unat ?a" "unat ?a < 2 ^ 32" "unat (nm_size e) < 2 ^ 32"
    using assms by (auto simp: entry_ok_def unat_gt_0)
  then have "unat (nm_size e) + unat ?a \<le> 2 ^ LENGTH(64)"
    by simp
  from AlignUp_any [OF a(1) this] a
  show "unat (nm_size e) \<le> unat (alloc_size e)" and "unat (alloc_size e) < 2 ^ 33"
    unfolding alloc_size_def by simp_all
qed

text \<open>A new buffer starts where the used part of the carveout ends.\<close>

lemma carve_out_step:
  assumes "nvmap_inv v" and "i < length (nvmap_entries v)"
    and a: "nm_addr (nvmap_entries v ! i) = 0"
    and le: "nvmap_carveout_offset v + alloc_size (nvmap_entries v ! i) \<le> NVMAP_CARVEOUT_SIZE"
  shows "nvmap_inv ((upd_entry i (\<lambda>e. e\<lparr>nm_addr := NVMAP_CARVEOUT_BASE + nvmap_carveout_offset v,
      nm_iova := NVMAP_CARVEOUT_BASE + nvmap_carveout_offset v, nm_mapped := True\<rparr>) (v\<lparr>nv_memory := m'\<rparr>))
      \<lparr>nvmap_carveout_offset := nvmap_carveout_offset v + alloc_size (nvmap_entries v ! i)\<rparr>)"
    (is "nvmap_inv ?v")
proof -
  let ?e = "nvmap_entries v ! i" and ?o = "nvmap_carveout_offset v"
  note ok = entry_at [OF assms(1,2)] and sz = alloc_size_bounds [OF entry_at [OF assms(1,2)]]
  have o: "unat ?o \<le> 0x10000000"
    using assms(1) by (simp add: nvmap_inv_def regions_ok_def nv_consts)
  then have o': "unat (?o + alloc_size ?e) = unat ?o + unat (alloc_size ?e)"
    using sz(2) by (simp add: unat_word_ariths)
  have addr: "unat (NVMAP_CARVEOUT_BASE + ?o) = unat NVMAP_CARVEOUT_BASE + unat ?o"
    using o by (simp add: unat_word_ariths nv_consts)
  let ?new = "?e\<lparr>nm_addr := NVMAP_CARVEOUT_BASE + ?o, nm_iova := NVMAP_CARVEOUT_BASE + ?o, nm_mapped := True\<rparr>"
  have new: "region ?new \<subseteq> {unat NVMAP_CARVEOUT_BASE + unat ?o ..< unat NVMAP_CARVEOUT_BASE + unat ?o + unat (alloc_size ?e)}"
    using sz(1) by (auto simp: region_def addr)
  have "NVMAP_CARVEOUT_BASE + ?o \<noteq> 0"
    using addr by (auto simp: nv_consts)
  then have "entry_ok ?new"
    using ok by (simp add: entry_ok_def)
  moreover have old: "region (nvmap_entries v ! j) \<subseteq> carveout (unat ?o)" if "j < length (nvmap_entries v)" for j
    using assms(1) that by (simp add: nvmap_inv_def regions_ok_def)
  moreover have "region ?new \<inter> region (nvmap_entries v ! j) = {}" if "j < length (nvmap_entries v)" for j
  proof -
    have "{unat NVMAP_CARVEOUT_BASE + unat ?o ..< k} \<inter> carveout (unat ?o) = {}" for k
      by (auto simp: carveout_def)
    then show ?thesis
      using new old [OF that] by blast
  qed
  moreover have "region ?new \<subseteq> carveout (unat ?o + unat (alloc_size ?e))" "carveout (unat ?o) \<subseteq> carveout (unat ?o + unat (alloc_size ?e))"
    using new by (auto simp: carveout_def)
  moreover have "unat ?o + unat (alloc_size ?e) \<le> unat NVMAP_CARVEOUT_SIZE"
    using le o' by (simp add: word_le_nat_alt)
  ultimately show ?thesis
    using assms(1,2) unfolding nvmap_inv_def index_ok_def regions_ok_def list_all_length
    by (auto simp: nth_list_update o' Int_commute) blast+
qed

lemma nvmap_inv_memory [simp]: "nvmap_inv (v\<lparr>nv_memory := m\<rparr>) = nvmap_inv v"
  by (simp add: nvmap_inv_def index_ok_def regions_ok_def)

lemma carve_out_inv:
  assumes "nvmap_inv v" and "i < length (nvmap_entries v)"
  shows "nvmap_inv (carve_out host i v)"
  using assms carve_out_step [OF assms]
  by (auto simp: carve_out_def Let_def not_less split: option.split prod.split)

lemma given_align_less: "unat (given_align align) < 2 ^ 32"
  using unat_u32_less [of align] by (simp add: given_align_def unsigned_ucast_eq take_bit_nat_eq_self)

text \<open>What \<open>Alloc\<close> stores before it looks for memory.\<close>

lemma alloc_fields_inv:
  assumes "nvmap_inv v" and "i < length (nvmap_entries v)"
  shows "nvmap_inv (upd_entry i (\<lambda>e. e\<lparr>nm_align := given_align align, nm_flags := fl, nm_cached := c\<rparr>) v)"
  using entry_at [OF assms] given_align_less
  by (intro upd_entry_inv [OF assms]) (simp_all add: entry_ok_def region_def)

lemma free_inv:
  assumes "nvmap_inv v" and "i < length (nvmap_entries v)"
  shows "nvmap_inv (upd_entry i (\<lambda>e. e\<lparr>nm_addr := 0, nm_mapped := False\<rparr>) v)"
  using entry_at [OF assms] by (intro upd_entry_inv [OF assms]) (simp_all add: entry_ok_def region_def)

lemma index_less: "nvmap_inv v \<Longrightarrow> nvmap_handle_index v h = Some i \<Longrightarrow> i < length (nvmap_entries v)"
  by (simp add: nvmap_inv_def index_ok_def)

lemma nvmap_post:
  assumes "nvmap_inv v"
  shows "post nvmap_inv (nvmap_HandleCommand host cmd inp in_sz out v)"
proof -
  have create: "nvmap_inv v'" if "push_entry sz 0x1000 v = (h, v')" for sz h v'
    using push_entry_inv [OF assms, where align = "0x1000" and sz = sz] that by simp
  have alloc: "nvmap_inv (carve_out host i (upd_entry i (\<lambda>e. e\<lparr>nm_align := given_align al, nm_flags := fl, nm_cached := c\<rparr>) v))"
    if "nvmap_handle_index v h = Some i" for h i al fl c
    using index_less [OF assms that] by (intro carve_out_inv alloc_fields_inv [OF assms]) simp_all
  have free: "nvmap_inv (case nvmap_handle_index v h of None \<Rightarrow> v
      | Some i \<Rightarrow> upd_entry i (\<lambda>e. e\<lparr>nm_addr := 0, nm_mapped := False\<rparr>) v)" for h
    using free_inv [OF assms] index_less [OF assms] by (simp add: assms split: option.split)
  show ?thesis
    unfolding nvmap_HandleCommand_def nvmap_handlers
    by (intro post_intros assms free; (erule create alloc)?)
qed

lemma nvmap_keeps_inv:
  "nvmap_inv v \<Longrightarrow> nvmap_HandleCommand host cmd inp in_sz out v = Inr (ok, out', n, v') \<Longrightarrow> nvmap_inv v'"
  using nvmap_post by (fastforce simp: post_def)

text \<open>The other services of the driver leave the table alone.\<close>

definition same_table :: "nv \<Rightarrow> nv \<Rightarrow> bool" where
  "same_table v v' \<longleftrightarrow> nvmap_entries v' = nvmap_entries v \<and> nvmap_handle_index v' = nvmap_handle_index v
     \<and> nvmap_carveout_offset v' = nvmap_carveout_offset v \<and> nvmap_next_id v' = nvmap_next_id v"

lemma same_table_inv: "same_table v v' \<Longrightarrow> nvmap_inv v' = nvmap_inv v"
  by (simp add: same_table_def nvmap_inv_def index_ok_def regions_ok_def)

lemma same_table_refl: "same_table v v"
  by (simp add: same_table_def)

lemma others_post:
  "post (same_table v) (nvdrv_HandleCommand cmd inp in_sz out v)"
  "post (same_table v) (nvgpu_HandleCommand cmd inp in_sz out v)"
  "post (same_table v) (ctrl_HandleCommand cmd inp in_sz out v)"
  unfolding nvdrv_HandleCommand_def nvdrv_HandleOpen_def nvdrv_HandleClose_def nvgpu_HandleCommand_def nvgpu_handlers
    ctrl_HandleCommand_def ctrl_handlers
  by (intro post_intros same_table_refl; simp add: same_table_def)+

lemma others_keep_inv:
  "nvmap_inv v \<Longrightarrow> nvdrv_HandleCommand cmd inp in_sz out v = Inr (ok, out', n, v') \<Longrightarrow> nvmap_inv v'"
  "nvmap_inv v \<Longrightarrow> nvgpu_HandleCommand cmd inp in_sz out v = Inr (ok, out', n, v') \<Longrightarrow> nvmap_inv v'"
  "nvmap_inv v \<Longrightarrow> ctrl_HandleCommand cmd inp in_sz out v = Inr (ok, out', n, v') \<Longrightarrow> nvmap_inv v'"
  using others_post [of v cmd inp in_sz out] by (auto simp: post_def same_table_inv)

inductive nv_reach :: "host_vm \<Rightarrow> nv \<Rightarrow> bool" for host where
  start: "nv_reach host (nv_init m t)"
| nvdrv: "nv_reach host v \<Longrightarrow> nvdrv_HandleCommand cmd inp in_sz out v = Inr (ok, out', n, v') \<Longrightarrow> nv_reach host v'"
| nvmap: "nv_reach host v \<Longrightarrow> nvmap_HandleCommand host cmd inp in_sz out v = Inr (ok, out', n, v') \<Longrightarrow> nv_reach host v'"
| nvgpu: "nv_reach host v \<Longrightarrow> nvgpu_HandleCommand cmd inp in_sz out v = Inr (ok, out', n, v') \<Longrightarrow> nv_reach host v'"
| ctrl: "nv_reach host v \<Longrightarrow> ctrl_HandleCommand cmd inp in_sz out v = Inr (ok, out', n, v') \<Longrightarrow> nv_reach host v'"
| calloc: "nv_reach host v \<Longrightarrow> nv_reach host (snd (NvMap_Alloc sz align v))"
| memory: "nv_reach host v \<Longrightarrow> nv_reach host (v\<lparr>nv_memory := m\<rparr>)"

lemma nv_reach_inv: "nv_reach host v \<Longrightarrow> nvmap_inv v"
proof (induction rule: nv_reach.induct)
  case (calloc v sz align)
  then show ?case
    unfolding NvMap_Alloc_def by (intro push_entry_inv given_align_less)
qed (auto simp: nv_init_inv dest: others_keep_inv nvmap_keeps_inv)

text \<open>
  Property C11: GPU buffers never overlap. Whatever sequence of ioctls the guest issues on the four driver
  services (and whatever else happens to guest memory in between), the buffers of two different memory
  objects are disjoint and lie inside the 256 MiB carveout, for every size and every alignment the guest
  asks for, powers of two or not.
\<close>

theorem nvmap_buffers_disjoint:
  assumes "nv_reach host v" and "NvMap_LookupByHandle h v = Some e" and "NvMap_LookupByHandle h' v = Some e'"
    and "h \<noteq> h'"
  shows "region e \<inter> region e' = {} \<and> region e \<subseteq> carveout (unat NVMAP_CARVEOUT_SIZE)"
proof -
  have inv: "nvmap_inv v"
    by (rule nv_reach_inv [OF assms(1)])
  obtain i where i: "nvmap_handle_index v h = Some i" "e = nvmap_entries v ! i" "i < length (nvmap_entries v)"
    using assms(2) by (auto simp: NvMap_LookupByHandle_def split: option.splits if_splits)
  obtain j where j: "nvmap_handle_index v h' = Some j" "e' = nvmap_entries v ! j" "j < length (nvmap_entries v)"
    using assms(3) by (auto simp: NvMap_LookupByHandle_def split: option.splits if_splits)
  have "i \<noteq> j"
    using inv i(1) j(1) assms(4) by (auto simp: nvmap_inv_def index_ok_def)
  then have "region e \<inter> region e' = {}"
    using inv i(2,3) j(2,3) unfolding nvmap_inv_def regions_ok_def
    by (metis Int_commute linorder_neqE_nat)
  moreover have "region e \<subseteq> carveout (unat (nvmap_carveout_offset v))"
    "unat (nvmap_carveout_offset v) \<le> unat NVMAP_CARVEOUT_SIZE"
    using inv i by (auto simp: nvmap_inv_def regions_ok_def)
  ultimately show ?thesis
    by (auto simp: carveout_def)
qed

subsection \<open>Ids and handles\<close>

text \<open>Ids count up from 1; the index knows every object as long as the handles differ.\<close>

definition ids_ok :: "nv \<Rightarrow> bool" where
  "ids_ok v \<longleftrightarrow> nvmap_next_id v = of_nat (length (nvmap_entries v) + 1)
     \<and> (\<forall>i < length (nvmap_entries v). nm_id (nvmap_entries v ! i) = of_nat (i + 1)
          \<and> nm_handle (nvmap_entries v ! i) = handle_of_id (of_nat (i + 1))
          \<and> (length (nvmap_entries v) < 0x20000 \<longrightarrow>
              nvmap_handle_index v (handle_of_id (of_nat (i + 1))) = Some i))"

lemma handle_of_id_low:
  assumes "unat i < 2 ^ 17"
  shows "handle_of_id i AND mask 17 = i"
proof -
  have "i AND mask 17 = i"
    using assms by (simp add: word_unat_eq_iff unat_and_mask)
  moreover have "(0xCAFE0000 :: u32) AND mask 17 = 0"
    by (simp add: mask_eq_exp_minus_1)
  ultimately show ?thesis
    by (simp add: handle_of_id_def bit.conj_disj_distrib2)
qed

lemma handle_of_nat_inj:
  assumes "handle_of_id (of_nat i) = handle_of_id (of_nat j)" and "i < 2 ^ 17" and "j < 2 ^ 17"
  shows "i = j"
proof -
  have u: "unat (of_nat i :: u32) = i" "unat (of_nat j :: u32) = j"
    using assms(2,3) by (simp_all add: unsigned_of_nat take_bit_nat_eq_self)
  have "(of_nat i :: u32) = handle_of_id (of_nat i) AND mask 17"
    using assms(2) u by (simp add: handle_of_id_low)
  also have "\<dots> = (of_nat j :: u32)"
    using assms(1,3) u by (simp add: handle_of_id_low)
  finally show ?thesis
    using u by metis
qed

lemma ids_ok_init: "ids_ok (nv_init m t)"
  by (simp add: ids_ok_def nv_init_def)

lemma ids_ok_push:
  assumes "ids_ok v"
  shows "ids_ok (snd (push_entry sz align v))"
proof -
  let ?n = "length (nvmap_entries v)"
  have "handle_of_id (of_nat (i + 1)) \<noteq> handle_of_id (of_nat (?n + 1))" if "i < ?n" "?n + 1 < 0x20000" for i
    using handle_of_nat_inj [of "i + 1" "?n + 1"] that by auto
  then show ?thesis
    using assms by (auto simp: ids_ok_def push_entry_def new_entry_def Let_def nth_append less_Suc_eq)
qed

lemma ids_ok_upd:
  assumes "ids_ok v" and "\<And>e. nm_id (f e) = nm_id e" and "\<And>e. nm_handle (f e) = nm_handle e"
  shows "ids_ok (upd_entry i f v)"
proof -
  have "nm_id ((nvmap_entries v)[i := f (nvmap_entries v ! i)] ! k) = nm_id (nvmap_entries v ! k)
      \<and> nm_handle ((nvmap_entries v)[i := f (nvmap_entries v ! i)] ! k) = nm_handle (nvmap_entries v ! k)"
    if "k < length (nvmap_entries v)" for k
    using that assms(2,3) by (cases "k = i") simp_all
  then show ?thesis
    using assms(1) by (simp add: ids_ok_def upd_entry_def)
qed

lemma ids_ok_more [simp]:
  "ids_ok (v\<lparr>nv_memory := m\<rparr>) = ids_ok v" "ids_ok (v\<lparr>nvmap_carveout_offset := k\<rparr>) = ids_ok v"
  by (simp_all add: ids_ok_def)

lemma ids_ok_carve_out: "ids_ok v \<Longrightarrow> ids_ok (carve_out host i v)"
  by (auto simp: carve_out_def Let_def ids_ok_upd split: option.split prod.split)

lemma ids_post:
  assumes "ids_ok v"
  shows "post ids_ok (nvmap_HandleCommand host cmd inp in_sz out v)"
proof -
  have create: "ids_ok v'" if "push_entry sz 0x1000 v = (h, v')" for sz h v'
    using ids_ok_push [OF assms, of sz "0x1000"] that by simp
  have alloc: "ids_ok (carve_out host i (upd_entry i (\<lambda>e. e\<lparr>nm_align := given_align al, nm_flags := fl, nm_cached := c\<rparr>) v))"
    for i al fl c
    using assms by (intro ids_ok_carve_out ids_ok_upd) simp_all
  have free: "ids_ok (case nvmap_handle_index v h of None \<Rightarrow> v
      | Some i \<Rightarrow> upd_entry i (\<lambda>e. e\<lparr>nm_addr := 0, nm_mapped := False\<rparr>) v)" for h
    using assms by (simp add: ids_ok_upd split: option.split)
  show ?thesis
    unfolding nvmap_HandleCommand_def nvmap_handlers
    by (intro post_intros assms free alloc; (erule create)?)
qed

lemma same_table_ids: "same_table v v' \<Longrightarrow> ids_ok v' = ids_ok v"
  by (simp add: same_table_def ids_ok_def)

lemma nv_reach_ids: "nv_reach host v \<Longrightarrow> ids_ok v"
proof (induction rule: nv_reach.induct)
  case (nvmap v cmd inp in_sz out ok out' n v')
  then show ?case
    using ids_post [of v host cmd inp in_sz out] by (simp add: post_def)
next
  case (nvdrv v cmd inp in_sz out ok out' n v')
  then show ?case
    using others_post(1) [of v cmd inp in_sz out] by (simp add: post_def same_table_ids)
next
  case (nvgpu v cmd inp in_sz out ok out' n v')
  then show ?case
    using others_post(2) [of v cmd inp in_sz out] by (simp add: post_def same_table_ids)
next
  case (ctrl v cmd inp in_sz out ok out' n v')
  then show ?case
    using others_post(3) [of v cmd inp in_sz out] by (simp add: post_def same_table_ids)
qed (simp_all add: ids_ok_init NvMap_Alloc_def ids_ok_push)

lemma find_by_id:
  assumes "ids_ok v" and "i < length (nvmap_entries v)" and "length (nvmap_entries v) < 0x20000"
  shows "find (\<lambda>e. nm_id e = nm_id (nvmap_entries v ! i)) (nvmap_entries v) = Some (nvmap_entries v ! i)"
proof -
  have "nm_id (nvmap_entries v ! j) \<noteq> nm_id (nvmap_entries v ! i)" if "j < i" for j
  proof -
    have "unat (of_nat (k + 1) :: u32) = k + 1" if "k < 0x20000" for k
      using that by (simp add: unsigned_of_nat take_bit_nat_eq_self del: of_nat_Suc of_nat_add)
    from this [of i] this [of j] have "(of_nat (j + 1) :: u32) \<noteq> of_nat (i + 1)"
      using assms(2,3) \<open>j < i\<close> by (metis add_right_cancel less_irrefl less_trans)
    then show ?thesis
      using assms(1,2) \<open>j < i\<close> by (simp add: ids_ok_def)
  qed
  then show ?thesis
    using assms(2) by (auto simp: find_Some_iff)
qed

text \<open>
  Ids and handles name the same object. As long as fewer than 131072 objects exist, for every
  object created so far (freed or not) \<open>FromId\<close> and \<open>GetHandle\<close> turn its id into its handle, \<open>GetId\<close> turns the handle
  back into the id, and \<open>Param\<close> with the handle reports its size.
\<close>

theorem nvmap_id_handle_roundtrip:
  assumes "nv_reach host v" and "length (nvmap_entries v) < 0x20000" and "e \<in> set (nvmap_entries v)"
    and "4 \<le> length out"
  shows "nvmap_HandleCommand host 0xC0080002 (le_bytes 4 (nm_id e)) 4 out v = Inr (True, put_bytes out 0 (le_bytes 4 (nm_handle e)), 4, v)
    \<and> nvmap_HandleCommand host 0xC008000F (le_bytes 4 (nm_id e)) 4 out v = Inr (True, put_bytes out 0 (le_bytes 4 (nm_handle e)), 4, v)
    \<and> nvmap_HandleCommand host 0xC008000E (le_bytes 4 (nm_handle e)) 4 out v = Inr (True, put_bytes out 0 (le_bytes 4 (nm_id e)), 4, v)
    \<and> nvmap_HandleCommand host 0xC00C0007 (le_bytes 4 (nm_handle e) @ le_bytes 4 (0 :: u32)) 8 out v =
        Inr (True, put_bytes out 0 (le_bytes 4 (ucast (nm_size e) :: u32)), 4, v)"
proof -
  obtain i where i: "i < length (nvmap_entries v)" "e = nvmap_entries v ! i"
    using assms(3) by (auto simp: in_set_conv_nth)
  note ids = nv_reach_ids [OF assms(1)]
  have idx: "nvmap_handle_index v (nm_handle e) = Some i" and h: "nm_handle e = handle_of_id (nm_id e)"
    using ids i assms(2) by (simp_all add: ids_ok_def)
  have arg: "arg_u32 4 0 0 (le_bytes 4 w) 4 = Inr w"
    "arg_u32 8 0 0 (le_bytes 4 w @ le_bytes 4 (0 :: u32)) 8 = Inr w"
    "arg_u32 8 4 0 (le_bytes 4 w @ le_bytes 4 (0 :: u32)) 8 = Inr (0 :: u32)" for w :: u32
    by (simp_all add: arg_u32_def rd_def get_bytes_def)
  show ?thesis
    using assms(4) idx find_by_id [OF ids i(1) assms(2)] i
    by (simp add: nvmap_HandleCommand_def nvmap_HandleFromId_def nvmap_HandleGetHandle_def nvmap_HandleGetId_def
        nvmap_HandleParam_def answer_def arg param_value_def h [unfolded i(2), symmetric])
qed

subsection \<open>Concrete tables\<close>

definition two_objects :: nv where
  "two_objects = snd (NvMap_Alloc 0x1001 0x1000 (snd (NvMap_Alloc 0x3000 0 (nv_init (Some (Memory_init (\<lambda>_. 0))) None))))"

lemma two_objects_reach: "nv_reach host two_objects"
  unfolding two_objects_def by (intro nv_reach.calloc nv_reach.start)

lemma two_objects_simps:
  "nvmap_entries two_objects = [new_entry 1 0x3000 0x1000, new_entry 2 0x1001 0x1000]"
  "nvmap_handle_index two_objects = [0xCAFE0001 \<mapsto> 0, 0xCAFE0002 \<mapsto> 1]"
  "nv_memory two_objects = Some (Memory_init (\<lambda>_. 0))" "nvmap_carveout_offset two_objects = 0"
  by (simp_all add: two_objects_def NvMap_Alloc_def push_entry_def new_entry_def Let_def nv_init_def
      handle_of_id_def given_align_def)

theorem nvmap_id_handle_roundtrip_witness:
  "nvmap_HandleCommand zero_fill_host 0xC0080002 (le_bytes 4 (2 :: u32)) 4 [0, 0, 0, 0] two_objects =
     Inr (True, put_bytes [0, 0, 0, 0] 0 (le_bytes 4 (0xCAFE0002 :: u32)), 4, two_objects)
   \<and> nvmap_HandleCommand zero_fill_host 0xC008000E (le_bytes 4 (0xCAFE0002 :: u32)) 4 [0, 0, 0, 0] two_objects =
     Inr (True, put_bytes [0, 0, 0, 0] 0 (le_bytes 4 (2 :: u32)), 4, two_objects)"
proof -
  have "new_entry 2 0x1001 0x1000 \<in> set (nvmap_entries two_objects)" "length (nvmap_entries two_objects) < 0x20000"
    by (simp_all add: two_objects_simps)
  moreover have "nm_id (new_entry 2 0x1001 0x1000) = 2" "nm_handle (new_entry 2 0x1001 0x1000) = 0xCAFE0002"
    by (simp_all add: new_entry_def handle_of_id_def)
  ultimately show ?thesis
    using nvmap_id_handle_roundtrip [OF two_objects_reach, of "new_entry 2 0x1001 0x1000" "[0, 0, 0, 0]"] by simp
qed

definition alloc_message :: "u32 \<Rightarrow> u32 \<Rightarrow> u8 list" where
  "alloc_message h align = le_bytes 4 h @ replicate 8 0 @ le_bytes 4 align @ replicate 16 0"

lemma Alloc_run:
  assumes "nvmap_handle_index v h = Some i" and "4 \<le> length out"
  shows "\<exists>out'. nvmap_HandleCommand host 0xC0200004 (alloc_message h align) 0x20 out v =
    Inr (True, out', 4, carve_out host i (upd_entry i (\<lambda>e. e\<lparr>nm_align := given_align align, nm_flags := 0, nm_cached := True\<rparr>) v))"
proof -
  have "rd (alloc_message h align) 0 17 = Inr (le_bytes 4 h @ replicate 8 0 @ le_bytes 4 align @ [0])"
    by (simp add: rd_def alloc_message_def get_bytes_def eval_nat_numeral)
  moreover have "word_at (le_bytes 4 h @ replicate 8 0 @ le_bytes 4 align @ [0]) 0 = h"
    "word_at (le_bytes 4 h @ replicate 8 0 @ le_bytes 4 align @ [0]) 12 = align"
    "word_at (le_bytes 4 h @ replicate 8 0 @ le_bytes 4 align @ [0]) 8 = 0"
    by (simp_all add: word_at_def get_bytes_def) (simp add: eval_nat_numeral)
  ultimately show ?thesis
    using assms by (simp add: nvmap_HandleCommand_def nvmap_HandleAlloc_def Let_def answer_def nth_append)
qed

lemma MapPhysical_zero_fill:
  assumes "IsAligned a PAGE_SIZE" and "IsAligned sz PAGE_SIZE" and "a + sz \<le> ADDR_SPACE_SIZE"
  shows "\<exists>m'. MapPhysical zero_fill_host m a sz perm None = (Success, m')"
  using assms leD [OF assms(3)] by (simp add: MapPhysical_def Let_def zero_fill_host_def)

theorem nvmap_buffers_disjoint_witness:
  "\<exists>v e e'. nv_reach zero_fill_host v \<and> NvMap_LookupByHandle 0xCAFE0001 v = Some e
     \<and> NvMap_LookupByHandle 0xCAFE0002 v = Some e' \<and> region e = {0xD0000000 ..< 0xD0003000}
     \<and> region e' = {0xD0003000 ..< 0xD0004001} \<and> region e \<inter> region e' = {}"
proof -
  let ?a = "\<lambda>e. e\<lparr>nm_align := given_align 0x1000, nm_flags := 0, nm_cached := True\<rparr>"
  have al: "IsAligned (0xD0000000 :: u64) PAGE_SIZE" "IsAligned (0x3000 :: u64) PAGE_SIZE"
    "IsAligned (0xD0003000 :: u64) PAGE_SIZE" "IsAligned (0x2000 :: u64) PAGE_SIZE"
    "(0xD0000000 :: u64) + 0x3000 \<le> ADDR_SPACE_SIZE" "(0xD0003000 :: u64) + 0x2000 \<le> ADDR_SPACE_SIZE"
    by (simp_all add: IsAligned_def mem_consts)
  obtain m1 where m1: "MapPhysical zero_fill_host (Memory_init (\<lambda>_. 0)) 0xD0000000 0x3000 Perm_RW None = (Success, m1)"
    using MapPhysical_zero_fill [OF al(1,2,5)] by blast
  obtain m2 where m2: "MapPhysical zero_fill_host m1 0xD0003000 0x2000 Perm_RW None = (Success, m2)"
    using MapPhysical_zero_fill [OF al(3,4,6)] by blast
  define v1 where "v1 = carve_out zero_fill_host 0 (upd_entry 0 ?a two_objects)"
  have v1: "nvmap_handle_index v1 = [0xCAFE0001 \<mapsto> 0, 0xCAFE0002 \<mapsto> 1]" "nvmap_carveout_offset v1 = 0x3000"
    "nv_memory v1 = Some m1" "nvmap_entries v1 = [(?a (new_entry 1 0x3000 0x1000))\<lparr>nm_addr := 0xD0000000,
      nm_iova := 0xD0000000, nm_mapped := True\<rparr>, new_entry 2 0x1001 0x1000]"
    using m1 by (simp_all add: v1_def carve_out_def two_objects_simps Let_def alloc_size_def new_entry_def
        given_align_def AlignUp_def nv_consts)
  define v2 where "v2 = carve_out zero_fill_host 1 (upd_entry 1 ?a v1)"
  have v2: "nvmap_handle_index v2 = [0xCAFE0001 \<mapsto> 0, 0xCAFE0002 \<mapsto> 1]"
    "nvmap_entries v2 = [(?a (new_entry 1 0x3000 0x1000))\<lparr>nm_addr := 0xD0000000, nm_iova := 0xD0000000, nm_mapped := True\<rparr>,
      (?a (new_entry 2 0x1001 0x1000))\<lparr>nm_addr := 0xD0003000, nm_iova := 0xD0003000, nm_mapped := True\<rparr>]"
    using m2 by (simp_all add: v2_def v1 carve_out_def Let_def alloc_size_def new_entry_def
        given_align_def AlignUp_def nv_consts)
  have "nv_reach zero_fill_host v1"
    using Alloc_run [of two_objects "0xCAFE0001" 0 "[0, 0, 0, 0]" zero_fill_host "0x1000"] two_objects_reach
    by (auto simp: two_objects_simps(2) v1_def intro: nv_reach.nvmap)
  then have r: "nv_reach zero_fill_host v2"
    using Alloc_run [of v1 "0xCAFE0002" 1 "[0, 0, 0, 0]" zero_fill_host "0x1000"]
    by (auto simp: v1(1) v2_def intro: nv_reach.nvmap)
  have l: "NvMap_LookupByHandle 0xCAFE0001 v2 = Some (nvmap_entries v2 ! 0)"
    "NvMap_LookupByHandle 0xCAFE0002 v2 = Some (nvmap_entries v2 ! 1)"
    by (simp_all add: NvMap_LookupByHandle_def v2)
  have reg: "region (nvmap_entries v2 ! 0) = {0xD0000000 ..< 0xD0003000}" "region (nvmap_entries v2 ! 1) = {0xD0003000 ..< 0xD0004001}"
    by (simp_all add: v2 region_def new_entry_def)
  have "region (nvmap_entries v2 ! 0) \<inter> region (nvmap_entries v2 ! 1) = {}"
    using nvmap_buffers_disjoint [OF r l] by simp
  with r l reg show ?thesis
    by blast
qed

section \<open>From guest memory to the 3D engine\<close>

lemma Read_sub:
  assumes "Read m a n = Inr bs" and "n < 2 ^ 32" and "i + k \<le> n" and "0 < k"
  shows "Read m (a + of_nat i) k = Inr (get_bytes bs i k)"
proof -
  have ok: "unat a + n \<le> 2 ^ 32" and bs: "bs = read_image (image m) (base_addr m + a) n"
    using assms(1) Read_ok_iff [OF assms(2), of m a] by (auto simp: Read_def split: if_splits)
  have "unat (of_nat i :: u64) = i"
    using assms(2,3) by (simp add: unsigned_of_nat take_bit_nat_eq_self)
  then have "unat (a + of_nat i) = unat a + i"
    using ok assms(3) by (simp add: unat_word_ariths)
  then have "\<exists>cs. Read m (a + of_nat i) k = Inr cs"
    using ok assms(2-4) Read_ok_iff [of k m "a + of_nat i"] by simp
  moreover have "read_image (image m) (base_addr m + (a + of_nat i)) k = get_bytes bs i k"
    using assms(3) by (intro nth_equalityI) (simp_all add: bs read_image_def get_bytes_def algebra_simps)
  ultimately show ?thesis
    by (auto simp: Read_def split: if_splits)
qed

lemma get_encoded_word: "i < length ws \<Longrightarrow> get_bytes (concat (map (le_bytes 4) ws)) (4 * i) 4 = le_bytes 4 (ws ! i)"
proof (induction ws arbitrary: i)
  case (Cons w ws)
  then show ?case
    by (cases i) (simp_all add: get_bytes_def)
qed simp

lemma read_words_encoded:
  assumes "Read m pb (4 * length ws) = Inr (concat (map (le_bytes 4) ws))" and "length ws \<le> 65536"
  shows "i + n = length ws \<Longrightarrow> read_words m pb i n = drop i (ws :: u32 list)"
proof (induction n arbitrary: i)
  case (Suc n)
  have "Read m (pb + of_nat (4 * i)) 4 = Inr (get_bytes (concat (map (le_bytes 4) ws)) (4 * i) 4)"
    using Suc.prems assms(2) by (intro Read_sub [OF assms(1)]) simp_all
  also have "get_bytes (concat (map (le_bytes 4) ws)) (4 * i) 4 = le_bytes 4 (ws ! i)"
    using Suc.prems by (intro get_encoded_word) simp
  finally have "Read m (pb + of_nat (i * 4)) 4 = Inr (le_bytes 4 (ws ! i))"
    by (simp add: mult.commute)
  then show ?case
    using Suc.IH [of "Suc i"] Suc.prems by (simp add: Cons_nth_drop_Suc)
qed simp

text \<open>The argument of the submit ioctl, as a client lays it out.\<close>

definition submit_message :: "u64 \<Rightarrow> nat \<Rightarrow> u32 \<Rightarrow> u8 list" where
  "submit_message pb n flags = le_bytes 8 pb @ le_bytes 4 (of_nat n :: u32) @ le_bytes 4 flags"

lemma SubmitGpfifo_run:
  assumes "nv_memory v = Some m" and "nv_tracker v = Some t" and "ws \<noteq> []" and "length ws \<le> 65536"
    and "Read m pb (4 * length ws) = Inr (concat (map (le_bytes 4) ws))" and "8 \<le> length out"
  shows "nvgpu_HandleCommand 0xC0480012 (submit_message pb (length ws) flags) 16 out v =
    Inr (True, put_bytes out 0 (le_bytes 4 (0 :: u32) @ le_bytes 4 (syncpt_counter v)), 8,
         v\<lparr>nv_tracker := Some (snd (PushBuffer ws t)), syncpt_counter := syncpt_counter v + 1\<rparr>)"
proof -
  let ?msg = "le_bytes 8 pb @ le_bytes 4 (of_nat (length ws) :: u32)"
  have n: "unat (of_nat (length ws) :: u32) = length ws"
    using assms(4) by (simp add: unsigned_of_nat take_bit_nat_eq_self)
  then have nz: "(of_nat (length ws) :: u32) \<noteq> 0"
    using assms(3) by (metis length_0_conv unsigned_0)
  have "rd (submit_message pb (length ws) flags) 0 12 = Inr ?msg"
    by (simp add: submit_message_def rd_def get_bytes_def)
  moreover have "of_le_bytes (get_bytes ?msg 0 8) = pb" "word_at ?msg 8 = of_nat (length ws)"
    by (simp_all add: get_bytes_def word_at_def)
  moreover have "read_words m pb 0 (length ws) = ws"
    using read_words_encoded [OF assms(5,4), of 0] by simp
  ultimately show ?thesis
    using assms(1,2,4,6) n nz
    by (simp add: nvgpu_HandleCommand_def nvgpu_HandleSubmitGpfifo_def Let_def answer_def split_beta)
qed


end
