(* ===== verification/RomFs.thy ===== *)
theory RomFs
  imports Ipc
begin

unbundle bit_operations_syntax

text \<open>
  The read-only file system of a game: \<^verbatim>\<open>src/src/loader/RomFs.cpp\<close> and \<^verbatim>\<open>src/src/loader/RomFs.h\<close>.

  The image is a byte list; positions are 32-bit integers and wrap as in the code. Reading outside the
  image, or indexing a table outside its size, is undefined behaviour in C++ and the value \<open>RomOob\<close> here.
  With images of 4 GiB and more the table loops may run for ever (positions wrap), so they take fuel and
  return \<open>RomFuel\<close> when it is used up; for smaller images the length of the image is enough
  (\<open>Parse_terminates\<close>). Names and paths are byte strings.
\<close>

section \<open>Data\<close>

datatype romfs_error = RomOob | RomFuel

type_synonym path = "u8 list"

record RomFsDirEntry =
  d_parent_offset :: u32
  d_sibling_offset :: u32
  d_child_dir_offset :: u32
  d_child_file_offset :: u32
  d_name_len :: u32
  d_name :: path

record RomFsFileEntry =
  f_parent_offset :: u32
  f_sibling_offset :: u32
  f_data_offset :: u64
  f_data_size :: u64
  f_name_len :: u32
  f_name :: path

record RomFs =
  data_offset :: u32
  dir_table :: "RomFsDirEntry list"
  file_table :: "RomFsFileEntry list"
  romfs_data :: "u8 list"

definition RomFs_init :: RomFs where
  "RomFs_init = \<lparr>data_offset = 0, dir_table = [], file_table = [], romfs_data = []\<rparr>"

section \<open>Parsing\<close>

text \<open>\<^verbatim>\<open>data[p], data[p+1], ...\<close> with the index computed in 32 bits.\<close>

fun bytes_at :: "u8 list \<Rightarrow> u32 \<Rightarrow> nat \<Rightarrow> romfs_error + u8 list" where
  "bytes_at data p 0 = Inr []"
| "bytes_at data p (Suc n) =
     (if unat p < length data
      then bind_sum (bytes_at data (p + 1) n) (\<lambda>bs. Inr (data ! unat p # bs))
      else Inl RomOob)"

definition u32_at :: "u8 list \<Rightarrow> u32 \<Rightarrow> romfs_error + u32" where
  "u32_at data p = bind_sum (bytes_at data p 4) (\<lambda>bs. Inr (of_le_bytes bs))"

definition u64_at :: "u8 list \<Rightarrow> u32 \<Rightarrow> romfs_error + u64" where
  "u64_at data p = bind_sum (bytes_at data p 8) (\<lambda>bs. Inr (of_le_bytes bs))"

record romfs_header =
  dir_table_off :: u32
  dir_table_size :: u32
  file_table_off :: u32
  file_table_size :: u32
  header_data_offset :: u32

definition romfs_ParseHeader :: "u8 list \<Rightarrow> romfs_header option" where
  "romfs_ParseHeader data =
     (if length data < 0x38 then None
      else Some \<lparr>dir_table_off = word_at data 4, dir_table_size = word_at data 8, file_table_off = word_at data 28,
                 file_table_size = word_at data 32, header_data_offset = word_at data 36\<rparr>)"

definition ReadName :: "u8 list \<Rightarrow> u32 \<Rightarrow> u32 \<Rightarrow> romfs_error + path" where
  "ReadName data offset name_len =
     (if unat (offset + name_len) > length data then Inr []
      else if unat offset + unat name_len > length data then Inl RomOob
      else Inr (get_bytes data (unat offset) (unat name_len)))"

fun dir_loop :: "nat \<Rightarrow> u8 list \<Rightarrow> u32 \<Rightarrow> u32 \<Rightarrow> RomFsDirEntry list \<Rightarrow> romfs_error + RomFsDirEntry list" where
  "dir_loop 0 data pos end_pos acc = Inl RomFuel"
| "dir_loop (Suc fuel) data pos end_pos acc =
     (if pos + 16 \<le> end_pos then
        bind_sum (u32_at data pos) (\<lambda>parent.
        bind_sum (u32_at data (pos + 4)) (\<lambda>sibling.
        bind_sum (u32_at data (pos + 8)) (\<lambda>child_dir.
        bind_sum (u32_at data (pos + 12)) (\<lambda>child_file.
          if pos + 16 + 4 > end_pos then Inr acc
          else
            bind_sum (u32_at data (pos + 16)) (\<lambda>name_len.
              if name_len = 0 \<or> pos + 20 + name_len > end_pos then Inr acc
              else
                bind_sum (ReadName data (pos + 20) name_len) (\<lambda>name.
                  dir_loop fuel data (pos + 20 + name_len) end_pos
                    (acc @ [\<lparr>d_parent_offset = parent, d_sibling_offset = sibling, d_child_dir_offset = child_dir,
                             d_child_file_offset = child_file, d_name_len = name_len, d_name = name\<rparr>])))))))
      else Inr acc)"

fun file_loop :: "nat \<Rightarrow> u8 list \<Rightarrow> u32 \<Rightarrow> u32 \<Rightarrow> RomFsFileEntry list \<Rightarrow> romfs_error + RomFsFileEntry list" where
  "file_loop 0 data pos end_pos acc = Inl RomFuel"
| "file_loop (Suc fuel) data pos end_pos acc =
     (if pos + 20 \<le> end_pos then
        bind_sum (u32_at data pos) (\<lambda>parent.
        bind_sum (u32_at data (pos + 4)) (\<lambda>sibling.
        bind_sum (u64_at data (pos + 8)) (\<lambda>off.
        bind_sum (u64_at data (pos + 16)) (\<lambda>sz.
          if pos + 24 + 4 > end_pos then Inr acc
          else
            bind_sum (u32_at data (pos + 24)) (\<lambda>name_len.
              if name_len = 0 \<or> pos + 28 + name_len > end_pos then Inr acc
              else
                bind_sum (ReadName data (pos + 28) name_len) (\<lambda>name.
                  file_loop fuel data (pos + 28 + name_len) end_pos
                    (acc @ [\<lparr>f_parent_offset = parent, f_sibling_offset = sibling, f_data_offset = off,
                             f_data_size = sz, f_name_len = name_len, f_name = name\<rparr>])))))))
      else Inr acc)"

text \<open>\<open>None\<close>: the table does not fit (\<open>false\<close>).\<close>

definition ParseDirectoryEntries :: "nat \<Rightarrow> u8 list \<Rightarrow> u32 \<Rightarrow> u32 \<Rightarrow> romfs_error + RomFsDirEntry list option" where
  "ParseDirectoryEntries fuel data table_off table_size =
     (if unat (table_off + table_size) > length data then Inr None
      else bind_sum (dir_loop fuel data table_off (table_off + table_size) []) (\<lambda>ds. Inr (Some ds)))"

definition ParseFileEntries :: "nat \<Rightarrow> u8 list \<Rightarrow> u32 \<Rightarrow> u32 \<Rightarrow> romfs_error + RomFsFileEntry list option" where
  "ParseFileEntries fuel data table_off table_size =
     (if unat (table_off + table_size) > length data then Inr None
      else bind_sum (file_loop fuel data table_off (table_off + table_size) []) (\<lambda>fs. Inr (Some fs)))"

text \<open>The result and the object: on failure the object keeps what was parsed so far.\<close>

definition romfs_Parse :: "nat \<Rightarrow> u8 list \<Rightarrow> RomFs \<Rightarrow> romfs_error + (bool \<times> RomFs)" where
  "romfs_Parse fuel data r =
     (let r0 = r\<lparr>dir_table := [], file_table := [], romfs_data := data\<rparr>
      in case romfs_ParseHeader data of
           None \<Rightarrow> Inr (False, r0)
         | Some h \<Rightarrow>
             let r1 = r0\<lparr>data_offset := header_data_offset h\<rparr>
             in bind_sum (ParseDirectoryEntries fuel data (dir_table_off h) (dir_table_size h)) (\<lambda>od.
                  case od of
                    None \<Rightarrow> Inr (False, r1)
                  | Some ds \<Rightarrow>
                      let r2 = r1\<lparr>dir_table := ds\<rparr>
                      in bind_sum (ParseFileEntries fuel data (file_table_off h) (file_table_size h)) (\<lambda>ofs.
                           case ofs of None \<Rightarrow> Inr (False, r2) | Some fs \<Rightarrow> Inr (True, r2\<lparr>file_table := fs\<rparr>))))"

section \<open>Paths\<close>

definition DOT :: path where "DOT = [0x2E]"
definition SLASH :: path where "SLASH = [0x2F]"

definition prepend :: "RomFsDirEntry \<Rightarrow> path \<Rightarrow> path" where
  "prepend d p = (if d_name d \<noteq> DOT \<and> d_name d \<noteq> [] then d_name d @ SLASH @ p else p)"

text \<open>
  The parents are indices into the directory table. For files an index outside the table ends the
  walk; for directories it is used as it is. At most 100 parents are visited.
\<close>

fun file_walk :: "RomFsDirEntry list \<Rightarrow> nat \<Rightarrow> u32 \<Rightarrow> path \<Rightarrow> path" where
  "file_walk ds 0 parent p = p"
| "file_walk ds (Suc n) parent p =
     (if parent = 0xFFFFFFFF then p
      else if unat parent \<ge> length ds then p
      else file_walk ds n (d_parent_offset (ds ! unat parent)) (prepend (ds ! unat parent) p))"

fun dir_walk :: "RomFsDirEntry list \<Rightarrow> nat \<Rightarrow> u32 \<Rightarrow> path \<Rightarrow> romfs_error + path" where
  "dir_walk ds 0 parent p = Inr p"
| "dir_walk ds (Suc n) parent p =
     (if parent = 0xFFFFFFFF then Inr p
      else if unat parent \<ge> length ds then Inl RomOob
      else dir_walk ds n (d_parent_offset (ds ! unat parent)) (prepend (ds ! unat parent) p))"

definition BuildPath_file :: "RomFs \<Rightarrow> nat \<Rightarrow> path" where
  "BuildPath_file r i =
     (if i \<ge> length (file_table r) then []
      else file_walk (dir_table r) 100 (f_parent_offset (file_table r ! i)) (f_name (file_table r ! i)))"

definition BuildPath_dir :: "RomFs \<Rightarrow> nat \<Rightarrow> romfs_error + path" where
  "BuildPath_dir r i =
     (if i \<ge> length (dir_table r) then Inr []
      else dir_walk (dir_table r) 100 (d_parent_offset (dir_table r ! i)) (d_name (dir_table r ! i)))"

definition find_file :: "RomFs \<Rightarrow> path \<Rightarrow> nat option" where
  "find_file r p = find (\<lambda>i. BuildPath_file r i = p) [0..<length (file_table r)]"

definition romfs_ReadFile :: "RomFs \<Rightarrow> path \<Rightarrow> romfs_error + u8 list option" where
  "romfs_ReadFile r p =
     (case find_file r p of
        None \<Rightarrow> Inr None
      | Some i \<Rightarrow>
          let off = f_data_offset (file_table r ! i) + ucast (data_offset r); sz = f_data_size (file_table r ! i)
          in if unat (off + sz) > length (romfs_data r) then Inr None
             else if unat off + unat sz > length (romfs_data r) then Inl RomOob
             else Inr (Some (get_bytes (romfs_data r) (unat off) (unat sz))))"

fun some_dir :: "RomFs \<Rightarrow> path \<Rightarrow> nat list \<Rightarrow> romfs_error + bool" where
  "some_dir r p [] = Inr False"
| "some_dir r p (i # is) =
     bind_sum (BuildPath_dir r i) (\<lambda>dp. if dp = p \<or> dp = p @ SLASH then Inr True else some_dir r p is)"

definition romfs_Exists :: "RomFs \<Rightarrow> path \<Rightarrow> romfs_error + bool" where
  "romfs_Exists r p =
     (if find_file r p \<noteq> None then Inr True else some_dir r p [0..<length (dir_table r)])"

definition romfs_FileSize :: "RomFs \<Rightarrow> path \<Rightarrow> u64" where
  "romfs_FileSize r p = (case find_file r p of Some i \<Rightarrow> f_data_size (file_table r ! i) | None \<Rightarrow> 0)"

definition GetFileCount :: "RomFs \<Rightarrow> nat" where
  "GetFileCount r = length (file_table r)"

definition GetDirCount :: "RomFs \<Rightarrow> nat" where
  "GetDirCount r = length (dir_table r)"

section \<open>Reading\<close>

lemma unat_add_u32: "unat p + n < 2 ^ 32 \<Longrightarrow> unat (p + of_nat n :: u32) = unat p + n"
  by (simp add: unat_word_ariths unsigned_of_nat take_bit_nat_eq_self)

lemma unat_add_num: "unat p + numeral k < 2 ^ 32 \<Longrightarrow> unat (p + numeral k :: u32) = unat p + numeral k"
  using unat_add_u32 [of p "numeral k"] by simp

lemma get_bytes_Suc:
  "off < length data \<Longrightarrow> get_bytes data off (Suc n) = data ! off # get_bytes data (Suc off) n"
  by (simp add: get_bytes_def Cons_nth_drop_Suc [symmetric])

lemma bytes_at_iff:
  assumes "length data < 2 ^ 32"
  shows "bytes_at data p n = (if n = 0 then Inr [] else if unat p + n \<le> length data
    then Inr (get_bytes data (unat p) n) else Inl RomOob)"
proof (induction n arbitrary: p)
  case (Suc n)
  show ?case
  proof (cases "unat p < length data")
    case True
    then have "unat (p + 1) = Suc (unat p)" if "n \<noteq> 0 \<or> Suc (unat p) < 2 ^ 32"
      using unat_add_u32 [of p 1] that assms by auto
    then have "unat (p + 1) = Suc (unat p)"
      using True assms unat_add_u32 [of p 1] by simp
    with True Suc show ?thesis
      by (auto simp: get_bytes_Suc)
  qed simp
qed simp

lemma u32_at_iff:
  "length data < 2 ^ 32 \<Longrightarrow>
    u32_at data p = (if unat p + 4 \<le> length data then Inr (word_at data (unat p)) else Inl RomOob)"
  by (simp add: u32_at_def bytes_at_iff word_at_def)

lemma u64_at_iff:
  "length data < 2 ^ 32 \<Longrightarrow>
    u64_at data p = (if unat p + 8 \<le> length data then Inr (of_le_bytes (get_bytes data (unat p) 8)) else Inl RomOob)"
  by (simp add: u64_at_def bytes_at_iff)

section \<open>Termination\<close>

text \<open>For an image below 4 GiB each round that is not the last moves the position forward.\<close>

lemma name_progress:
  assumes "length data < 2 ^ 32" and "unat end_pos \<le> length data" and "ReadName data q len = Inr name"
    and "len \<noteq> 0" and "q + len \<le> end_pos"
  shows "unat q < unat (q + len)" and "unat (q + len) \<le> unat end_pos"
proof -
  have "unat (q + len) \<le> length data"
    using assms(2,5) by (simp add: word_le_nat_alt)
  then have "unat q + unat len \<le> length data"
    using assms(3) by (auto simp: ReadName_def split: if_splits)
  then have "unat (q + len) = unat q + unat len"
    using assms(1) by (simp add: unat_word_ariths)
  then show "unat q < unat (q + len)" "unat (q + len) \<le> unat end_pos"
    using assms(4,5) by (simp_all add: unat_gt_0 word_le_nat_alt)
qed

lemma ReadName_no_fuel: "ReadName data q len \<noteq> Inl RomFuel"
  by (simp add: ReadName_def)

text \<open>Fields that can all be read lie one behind the other, without wrapping.\<close>

lemma fields_in_range:
  fixes p :: u32
  assumes "length data < 2 ^ 32" and "unat p + 4 \<le> length data" and "unat (p + 4) + 4 \<le> length data"
    and "unat (p + 8) + 4 \<le> length data"
  shows "unat (p + 4) = unat p + 4" and "unat (p + 8) = unat p + 8" and "unat (p + 12) = unat p + 12"
proof -
  show 1: "unat (p + 4) = unat p + 4"
    using assms by (intro unat_add_num) simp
  show 2: "unat (p + 8) = unat p + 8"
    using assms 1 by (intro unat_add_num) simp
  show "unat (p + 12) = unat p + 12"
    using assms 2 by (intro unat_add_num) simp
qed

lemma dir_loop_terminates:
  assumes "length data < 2 ^ 32" and "unat end_pos \<le> length data" and "unat end_pos - unat pos < fuel"
  shows "dir_loop fuel data pos end_pos acc \<noteq> Inl RomFuel"
  using assms(3)
proof (induction fuel arbitrary: pos acc)
  case (Suc fuel)
  have step: "dir_loop fuel data (pos + 20 + len) end_pos acc' \<noteq> Inl RomFuel"
    if "unat (pos + 16) + 4 \<le> length data" "unat (pos + 12) + 4 \<le> length data" "unat pos + 4 \<le> length data"
      "unat (pos + 4) + 4 \<le> length data" "unat (pos + 8) + 4 \<le> length data"
      "ReadName data (pos + 20) len = Inr name" "len \<noteq> 0" "\<not> end_pos < pos + 20 + len" for len name acc'
  proof -
    have "unat (pos + 12) = unat pos + 12"
      by (rule fields_in_range(3) [OF assms(1) that(3-5)])
    then have "unat (pos + 16) = unat pos + 16"
      using that(2) assms(1) by (intro unat_add_num) simp
    then have "unat (pos + 20) = unat pos + 20"
      using that(1) assms(1) by (intro unat_add_num) simp
    then show ?thesis
      using name_progress [OF assms(1,2) that(6,7)] that(8) Suc.prems by (intro Suc.IH) (simp add: not_less)
  qed
  show ?case
    using ReadName_no_fuel [of data "pos + 20"] step
    by (auto simp: u32_at_iff [OF assms(1)] bind_sum_def split: sum.splits)
qed simp

lemma file_loop_terminates:
  assumes "length data < 2 ^ 32" and "unat end_pos \<le> length data" and "unat end_pos - unat pos < fuel"
  shows "file_loop fuel data pos end_pos acc \<noteq> Inl RomFuel"
  using assms(3)
proof (induction fuel arbitrary: pos acc)
  case (Suc fuel)
  have step: "file_loop fuel data (pos + 28 + len) end_pos acc' \<noteq> Inl RomFuel"
    if "unat (pos + 24) + 4 \<le> length data" "unat (pos + 16) + 8 \<le> length data" "unat pos + 4 \<le> length data"
      "unat (pos + 4) + 4 \<le> length data" "unat (pos + 8) + 8 \<le> length data"
      "ReadName data (pos + 28) len = Inr name" "len \<noteq> 0" "\<not> end_pos < pos + 28 + len" for len name acc'
  proof -
    have "unat (pos + 8) = unat pos + 8"
      using that(3-5) by (intro fields_in_range(2) [OF assms(1)]) simp_all
    then have "unat (pos + 16) = unat pos + 16"
      using that(5) assms(1) by (intro unat_add_num) simp
    then have "unat (pos + 24) = unat pos + 24"
      using that(2) assms(1) by (intro unat_add_num) simp
    then have "unat (pos + 28) = unat pos + 28"
      using that(1) assms(1) by (intro unat_add_num) simp
    then show ?thesis
      using name_progress [OF assms(1,2) that(6,7)] that(8) Suc.prems by (intro Suc.IH) (simp add: not_less)
  qed
  show ?case
    using ReadName_no_fuel [of data "pos + 28"] step
    by (auto simp: u32_at_iff [OF assms(1)] u64_at_iff [OF assms(1)] bind_sum_def split: sum.splits)
qed simp

text \<open>
  Parsing a file system image below 4 GiB always ends: the length of the image bounds the
  rounds of both table loops, whatever offsets, sizes and name lengths the image contains.
\<close>

theorem romfs_Parse_terminates:
  assumes "length data < 2 ^ 32"
  shows "romfs_Parse (Suc (length data)) data r \<noteq> Inl RomFuel"
proof -
  have "dir_loop (Suc (length data)) data pos end_pos [] \<noteq> Inl RomFuel"
    "file_loop (Suc (length data)) data pos end_pos [] \<noteq> Inl RomFuel" if "\<not> length data < unat end_pos" for pos end_pos
    using that by (intro dir_loop_terminates file_loop_terminates assms; simp)+
  then show ?thesis
    by (auto simp: romfs_Parse_def Let_def ParseDirectoryEntries_def ParseFileEntries_def bind_sum_def
        simp del: dir_loop.simps file_loop.simps split: option.splits sum.splits if_splits)
qed

theorem romfs_Parse_terminates_witness:
  "romfs_Parse 57 (replicate 56 0xFF) RomFs_init \<noteq> Inl RomFuel"
  using romfs_Parse_terminates [of "replicate 56 0xFF" RomFs_init] by simp

section \<open>Encoded images\<close>

definition dir_bytes :: "RomFsDirEntry \<Rightarrow> u8 list" where
  "dir_bytes d = le_bytes 4 (d_parent_offset d) @ le_bytes 4 (d_sibling_offset d) @ le_bytes 4 (d_child_dir_offset d)
     @ le_bytes 4 (d_child_file_offset d) @ le_bytes 4 (d_name_len d) @ d_name d"

definition file_bytes :: "RomFsFileEntry \<Rightarrow> u8 list" where
  "file_bytes f = le_bytes 4 (f_parent_offset f) @ le_bytes 4 (f_sibling_offset f) @ le_bytes 8 (f_data_offset f)
     @ le_bytes 8 (f_data_size f) @ le_bytes 4 (f_name_len f) @ f_name f"

definition dir_ok :: "RomFsDirEntry \<Rightarrow> bool" where
  "dir_ok d \<longleftrightarrow> d_name d \<noteq> [] \<and> unat (d_name_len d) = length (d_name d)"

definition file_ok :: "RomFsFileEntry \<Rightarrow> bool" where
  "file_ok f \<longleftrightarrow> f_name f \<noteq> [] \<and> unat (f_name_len f) = length (f_name f)"

definition romfs_image :: "RomFsDirEntry list \<Rightarrow> RomFsFileEntry list \<Rightarrow> u8 list \<Rightarrow> u8 list" where
  "romfs_image ds fs body =
     (let dirs = concat (map dir_bytes ds); files = concat (map file_bytes fs)
      in le_bytes 4 (0x50 :: u32) @ le_bytes 4 (0x38 :: u32) @ le_bytes 4 (of_nat (length dirs) :: u32) @ replicate 16 0
         @ le_bytes 4 (of_nat (0x38 + length dirs) :: u32) @ le_bytes 4 (of_nat (length files) :: u32)
         @ le_bytes 4 (of_nat (0x38 + length dirs + length files) :: u32) @ replicate 16 0
         @ dirs @ files @ body)"

lemma length_dir_bytes [simp]: "length (dir_bytes d) = 20 + length (d_name d)"
  by (simp add: dir_bytes_def)

lemma length_file_bytes [simp]: "length (file_bytes f) = 28 + length (f_name f)"
  by (simp add: file_bytes_def)

lemma get_bytes_at: "n = length pre \<Longrightarrow> k = length a \<Longrightarrow> get_bytes (pre @ a @ rest) n k = a"
  by (simp add: get_bytes_def)

lemma dir_eta: "\<lparr>d_parent_offset = d_parent_offset d, d_sibling_offset = d_sibling_offset d,
    d_child_dir_offset = d_child_dir_offset d, d_child_file_offset = d_child_file_offset d, d_name_len = d_name_len d,
    d_name = d_name d\<rparr> = d"
  by (cases d) simp

lemma file_eta: "\<lparr>f_parent_offset = f_parent_offset d, f_sibling_offset = f_sibling_offset d,
    f_data_offset = f_data_offset d, f_data_size = f_data_size d, f_name_len = f_name_len d, f_name = f_name d\<rparr> = d"
  by (cases d) simp

lemma ReadName_at:
  assumes "length data < 2 ^ 32" and "unat q + unat len \<le> length data"
  shows "ReadName data q len = Inr (get_bytes data (unat q) (unat len))" and "unat (q + len) = unat q + unat len"
proof -
  show "unat (q + len) = unat q + unat len"
    using assms by (simp add: unat_word_ariths)
  then show "ReadName data q len = Inr (get_bytes data (unat q) (unat len))"
    using assms by (simp add: ReadName_def)
qed

lemma dir_step:
  assumes "length data + 32 < 2 ^ 32" and "data = pre @ dir_bytes d @ rest" and "dir_ok d"
    and "unat pos = length pre" and "length pre + length (dir_bytes d) \<le> unat end_pos" and "unat end_pos \<le> length data"
  shows "dir_loop (Suc fuel) data pos end_pos acc = dir_loop fuel data (pos + 20 + d_name_len d) end_pos (acc @ [d])"
    and "unat (pos + 20 + d_name_len d) = length (pre @ dir_bytes d)"
proof -
  have len: "length data < 2 ^ 32"
    using assms(1) by simp
  have n: "unat (d_name_len d) = length (d_name d)" "d_name_len d \<noteq> 0"
    using assms(3) by (auto simp: dir_ok_def)
  have le: "unat pos + 20 + length (d_name d) \<le> unat end_pos"
    using assms(4,5) by simp
  have p: "unat (pos + 4) = unat pos + 4" "unat (pos + 8) = unat pos + 8" "unat (pos + 12) = unat pos + 12"
    "unat (pos + 16) = unat pos + 16" "unat (pos + 20) = unat pos + 20"
    using le assms(1,6) by (intro unat_add_num; simp)+
  have q: "unat (pos + 20 + d_name_len d) = unat pos + 20 + length (d_name d)"
    "ReadName data (pos + 20) (d_name_len d) = Inr (get_bytes data (unat pos + 20) (length (d_name d)))"
    using ReadName_at [OF len, of "pos + 20" "d_name_len d"] le assms(6) by (simp_all add: p n)
  show "unat (pos + 20 + d_name_len d) = length (pre @ dir_bytes d)"
    using q assms(4) by simp
  have w: "word_at data (unat pos) = d_parent_offset d" "word_at data (unat pos + 4) = d_sibling_offset d"
    "word_at data (unat pos + 8) = d_child_dir_offset d" "word_at data (unat pos + 12) = d_child_file_offset d"
    "word_at data (unat pos + 16) = d_name_len d" "get_bytes data (unat pos + 20) (length (d_name d)) = d_name d"
    unfolding assms(2,4) dir_bytes_def word_at_def get_bytes_def by simp_all
  have "pos + 16 + 4 = pos + 20"
    by simp
  then have c: "pos + 16 \<le> end_pos" "\<not> end_pos < pos + 16 + 4" "\<not> end_pos < pos + 20 + d_name_len d"
    using le by (simp_all only: word_le_nat_alt word_less_nat_alt p q)
  show "dir_loop (Suc fuel) data pos end_pos acc = dir_loop fuel data (pos + 20 + d_name_len d) end_pos (acc @ [d])"
    using le assms(6) n(2) c w by (simp add: u32_at_iff [OF len] p q) (simp add: dir_eta)
qed

lemma dir_loop_encoded:
  assumes "length data + 32 < 2 ^ 32" and "data = pre @ concat (map dir_bytes ds) @ rest" and "list_all dir_ok ds"
    and "unat pos = length pre" and "unat end_pos = length pre + length (concat (map dir_bytes ds))" and "length ds < fuel"
  shows "dir_loop fuel data pos end_pos acc = Inr (acc @ ds)"
  using assms(2-)
proof (induction ds arbitrary: pre pos acc fuel)
  case Nil
  then obtain f where "fuel = Suc f"
    by (cases fuel) auto
  moreover have "unat (pos + 16) = unat pos + 16"
    using Nil assms(1) by (intro unat_add_num) simp
  ultimately show ?case
    using Nil by (simp add: word_le_nat_alt)
next
  case (Cons d ds)
  then obtain f where f: "fuel = Suc f"
    by (cases fuel) auto
  have step: "dir_loop (Suc f) data pos end_pos acc = dir_loop f data (pos + 20 + d_name_len d) end_pos (acc @ [d])"
    "unat (pos + 20 + d_name_len d) = length (pre @ dir_bytes d)"
    using Cons.prems by (intro dir_step [OF assms(1), of pre d "concat (map dir_bytes ds) @ rest" pos end_pos]; simp)+
  show ?case
    unfolding f step(1) using Cons.prems step(2) f
    by (subst Cons.IH [of "pre @ dir_bytes d"]) simp_all
qed

lemma file_step:
  assumes "length data + 32 < 2 ^ 32" and "data = pre @ file_bytes d @ rest" and "file_ok d"
    and "unat pos = length pre" and "length pre + length (file_bytes d) \<le> unat end_pos" and "unat end_pos \<le> length data"
  shows "file_loop (Suc fuel) data pos end_pos acc = file_loop fuel data (pos + 28 + f_name_len d) end_pos (acc @ [d])"
    and "unat (pos + 28 + f_name_len d) = length (pre @ file_bytes d)"
proof -
  have len: "length data < 2 ^ 32"
    using assms(1) by simp
  have n: "unat (f_name_len d) = length (f_name d)" "f_name_len d \<noteq> 0"
    using assms(3) by (auto simp: file_ok_def)
  have le: "unat pos + 28 + length (f_name d) \<le> unat end_pos"
    using assms(4,5) by simp
  have p: "unat (pos + 4) = unat pos + 4" "unat (pos + 8) = unat pos + 8" "unat (pos + 16) = unat pos + 16"
    "unat (pos + 20) = unat pos + 20" "unat (pos + 24) = unat pos + 24" "unat (pos + 28) = unat pos + 28"
    using le assms(1,6) by (intro unat_add_num; simp)+
  have q: "unat (pos + 28 + f_name_len d) = unat pos + 28 + length (f_name d)"
    "ReadName data (pos + 28) (f_name_len d) = Inr (get_bytes data (unat pos + 28) (length (f_name d)))"
    using ReadName_at [OF len, of "pos + 28" "f_name_len d"] le assms(6) by (simp_all add: p n)
  show "unat (pos + 28 + f_name_len d) = length (pre @ file_bytes d)"
    using q assms(4) by simp
  have w: "word_at data (unat pos) = f_parent_offset d" "word_at data (unat pos + 4) = f_sibling_offset d"
    "of_le_bytes (get_bytes data (unat pos + 8) 8) = f_data_offset d"
    "of_le_bytes (get_bytes data (unat pos + 16) 8) = f_data_size d"
    "word_at data (unat pos + 24) = f_name_len d" "get_bytes data (unat pos + 28) (length (f_name d)) = f_name d"
    unfolding assms(2,4) file_bytes_def word_at_def get_bytes_def by simp_all
  have "pos + 24 + 4 = pos + 28"
    by simp
  then have c: "pos + 20 \<le> end_pos" "\<not> end_pos < pos + 24 + 4" "\<not> end_pos < pos + 28 + f_name_len d"
    using le by (simp_all only: word_le_nat_alt word_less_nat_alt p q)
  show "file_loop (Suc fuel) data pos end_pos acc = file_loop fuel data (pos + 28 + f_name_len d) end_pos (acc @ [d])"
    using le assms(6) n(2) c w by (simp add: u32_at_iff [OF len] u64_at_iff [OF len] p q) (simp add: file_eta)
qed

lemma file_loop_encoded:
  assumes "length data + 32 < 2 ^ 32" and "data = pre @ concat (map file_bytes ds) @ rest" and "list_all file_ok ds"
    and "unat pos = length pre" and "unat end_pos = length pre + length (concat (map file_bytes ds))" and "length ds < fuel"
  shows "file_loop fuel data pos end_pos acc = Inr (acc @ ds)"
  using assms(2-)
proof (induction ds arbitrary: pre pos acc fuel)
  case Nil
  then obtain f where "fuel = Suc f"
    by (cases fuel) auto
  moreover have "unat (pos + 20) = unat pos + 20"
    using Nil assms(1) by (intro unat_add_num) simp
  ultimately show ?case
    using Nil by (simp add: word_le_nat_alt)
next
  case (Cons d ds)
  then obtain f where f: "fuel = Suc f"
    by (cases fuel) auto
  have step: "file_loop (Suc f) data pos end_pos acc = file_loop f data (pos + 28 + f_name_len d) end_pos (acc @ [d])"
    "unat (pos + 28 + f_name_len d) = length (pre @ file_bytes d)"
    using Cons.prems by (intro file_step [OF assms(1), of pre d "concat (map file_bytes ds) @ rest" pos end_pos]; simp)+
  show ?case
    unfolding f step(1) using Cons.prems step(2) f
    by (subst Cons.IH [of "pre @ file_bytes d"]) simp_all
qed

lemma small_entries:
  "length ds \<le> length (concat (map dir_bytes ds))" "length fs \<le> length (concat (map file_bytes fs))"
  by (induction ds, simp_all) (induction fs, simp_all)

lemma romfs_Parse_image:
  assumes "list_all dir_ok ds" and "list_all file_ok fs" and "length (romfs_image ds fs body) + 32 < 2 ^ 32"
  shows "romfs_Parse (Suc (length (romfs_image ds fs body))) (romfs_image ds fs body) r =
    Inr (True, r\<lparr>data_offset := of_nat (0x38 + length (concat (map dir_bytes ds)) + length (concat (map file_bytes fs))),
      dir_table := ds, file_table := fs, romfs_data := romfs_image ds fs body\<rparr>)"
proof -
  let ?dirs = "concat (map dir_bytes ds)" and ?files = "concat (map file_bytes fs)"
  let ?hd = "le_bytes 4 (0x50 :: u32) @ le_bytes 4 (0x38 :: u32) @ le_bytes 4 (of_nat (length ?dirs) :: u32) @ replicate 16 0
         @ le_bytes 4 (of_nat (0x38 + length ?dirs) :: u32) @ le_bytes 4 (of_nat (length ?files) :: u32)
         @ le_bytes 4 (of_nat (0x38 + length ?dirs + length ?files) :: u32) @ replicate 16 0"
  let ?img = "romfs_image ds fs body"
  have img: "?img = ?hd @ ?dirs @ ?files @ body"
    by (simp add: romfs_image_def Let_def)
  have hd: "length ?hd = 0x38"
    by simp
  have len: "length ?img = 0x38 + length ?dirs + length ?files + length body"
    unfolding img by simp
  have u: "unat (of_nat n :: u32) = n" if "n \<le> length ?img" for n
    using that assms(3) by (simp add: unsigned_of_nat take_bit_nat_eq_self)
  have w: "word_at ?img 4 = 0x38" "word_at ?img 8 = of_nat (length ?dirs)" "word_at ?img 28 = of_nat (0x38 + length ?dirs)"
    "word_at ?img 32 = of_nat (length ?files)" "word_at ?img 36 = of_nat (0x38 + length ?dirs + length ?files)"
    unfolding img word_at_def get_bytes_def by simp_all
  have e: "(0x38 :: u32) + of_nat (length ?dirs) = of_nat (0x38 + length ?dirs)"
    "(of_nat (0x38 + length ?dirs) :: u32) + of_nat (length ?files) = of_nat (0x38 + length ?dirs + length ?files)"
    by simp_all
  have d: "dir_loop (Suc (length ?img)) ?img 0x38 (of_nat (0x38 + length ?dirs)) [] = Inr ([] @ ds)"
    using small_entries(1) [of ds] len
    by (intro dir_loop_encoded [OF assms(3), of ?hd ds "?files @ body"] assms(1)) (simp_all add: img u del: of_nat_add)
  have f: "file_loop (Suc (length ?img)) ?img (of_nat (0x38 + length ?dirs)) (of_nat (0x38 + length ?dirs + length ?files)) [] = Inr ([] @ fs)"
    using small_entries(2) [of fs] len
    by (intro file_loop_encoded [OF assms(3), of "?hd @ ?dirs" fs body] assms(2)) (simp_all add: img u del: of_nat_add)
  show ?thesis
    using len w e d f
    by (simp add: romfs_Parse_def romfs_ParseHeader_def ParseDirectoryEntries_def ParseFileEntries_def Let_def u
        del: of_nat_add dir_loop.simps file_loop.simps)
qed

lemma unat_ucast_of_nat: "n < 2 ^ 32 \<Longrightarrow> unat (ucast (of_nat n :: u32) :: u64) = n"
  by (simp add: unsigned_ucast_eq unsigned_of_nat take_bit_nat_eq_self)

text \<open>
  Property C21: a file system image is read back as it was laid out. For every list of directory and file
  entries with non-empty names, and every data area, the image with these tables (below 4 GiB) parses to exactly
  the same entries; and every file that is the first with its path and whose extent lies in the
  data area is found under its path and read as exactly the bytes of its extent.
\<close>

theorem romfs_roundtrip:
  assumes "list_all dir_ok ds" and "list_all file_ok fs" and "length (romfs_image ds fs body) + 32 < 2 ^ 32"
  shows "\<exists>r'. romfs_Parse (Suc (length (romfs_image ds fs body))) (romfs_image ds fs body) r = Inr (True, r')
    \<and> dir_table r' = ds \<and> file_table r' = fs
    \<and> (\<forall>i < length fs. find_file r' (BuildPath_file r' i) = Some i
          \<and> unat (f_data_offset (fs ! i)) + unat (f_data_size (fs ! i)) \<le> length body \<longrightarrow>
        romfs_ReadFile r' (BuildPath_file r' i) =
          Inr (Some (get_bytes body (unat (f_data_offset (fs ! i))) (unat (f_data_size (fs ! i)))))
        \<and> romfs_Exists r' (BuildPath_file r' i) = Inr True
        \<and> romfs_FileSize r' (BuildPath_file r' i) = f_data_size (fs ! i))"
proof -
  let ?k = "0x38 + length (concat (map dir_bytes ds)) + length (concat (map file_bytes fs))"
  let ?img = "romfs_image ds fs body"
  let ?r = "r\<lparr>data_offset := of_nat ?k, dir_table := ds, file_table := fs, romfs_data := ?img\<rparr>"
  have img: "length ?img = ?k + length body" "drop ?k ?img = body"
    by (simp_all add: romfs_image_def Let_def)
  have k: "unat (ucast (of_nat ?k :: u32) :: u64) = ?k"
    using img assms(3) by (intro unat_ucast_of_nat) simp
  have "romfs_ReadFile ?r (BuildPath_file ?r i) =
          Inr (Some (get_bytes body (unat (f_data_offset (fs ! i))) (unat (f_data_size (fs ! i)))))"
    if f: "find_file ?r (BuildPath_file ?r i) = Some i"
      and l: "unat (f_data_offset (fs ! i)) + unat (f_data_size (fs ! i)) \<le> length body" for i
  proof -
    let ?o = "f_data_offset (fs ! i)" and ?s = "f_data_size (fs ! i)"
    have o: "unat (?o + ucast (of_nat ?k :: u32)) = unat ?o + ?k"
      using l img(1) assms(3) k by (simp add: unat_word_ariths del: of_nat_add)
    moreover have "unat (?o + ucast (of_nat ?k :: u32) + ?s) = unat ?o + ?k + unat ?s"
      using l img(1) assms(3) o by (simp add: unat_word_ariths del: of_nat_add)
    moreover have "get_bytes ?img (unat ?o + ?k) n = get_bytes body (unat ?o) n" for n
      unfolding get_bytes_def by (subst img(2) [symmetric]) (simp add: add.commute)
    ultimately show ?thesis
      using f l img(1) by (simp add: romfs_ReadFile_def Let_def del: of_nat_add)
  qed
  moreover have "romfs_Exists ?r p = Inr True" "romfs_FileSize ?r p = f_data_size (fs ! i)" if "find_file ?r p = Some i" for p i
    using that by (simp_all add: romfs_Exists_def romfs_FileSize_def del: of_nat_add)
  ultimately show ?thesis
    unfolding romfs_Parse_image [OF assms] by (intro exI [of _ ?r]) (simp del: of_nat_add)
qed

definition sample_dirs :: "RomFsDirEntry list" where
  "sample_dirs = [\<lparr>d_parent_offset = 0xFFFFFFFF, d_sibling_offset = 0xFFFFFFFF, d_child_dir_offset = 0xFFFFFFFF,
     d_child_file_offset = 0, d_name_len = 1, d_name = [0x61]\<rparr>]"

definition sample_files :: "RomFsFileEntry list" where
  "sample_files = [\<lparr>f_parent_offset = 0, f_sibling_offset = 0xFFFFFFFF, f_data_offset = 1, f_data_size = 2,
     f_name_len = 1, f_name = [0x62]\<rparr>]"

text \<open>A file \<open>a/b\<close> of two bytes.\<close>

theorem romfs_roundtrip_witness:
  "\<exists>n r'. romfs_Parse n (romfs_image sample_dirs sample_files [7, 8, 9]) RomFs_init = Inr (True, r')
     \<and> romfs_ReadFile r' [0x61, 0x2F, 0x62] = Inr (Some [8, 9])"
proof -
  have ok: "list_all dir_ok sample_dirs" "list_all file_ok sample_files"
    by (simp_all add: sample_dirs_def sample_files_def dir_ok_def file_ok_def)
  have len: "length (romfs_image sample_dirs sample_files [7, 8, 9]) + 32 < 2 ^ 32"
    by (simp add: romfs_image_def Let_def sample_dirs_def sample_files_def)
  obtain r' where r': "romfs_Parse (Suc (length (romfs_image sample_dirs sample_files [7, 8, 9])))
      (romfs_image sample_dirs sample_files [7, 8, 9]) RomFs_init = Inr (True, r')"
    "dir_table r' = sample_dirs" "file_table r' = sample_files"
    and rd: "find_file r' (BuildPath_file r' 0) = Some 0 \<longrightarrow> romfs_ReadFile r' (BuildPath_file r' 0) = Inr (Some (get_bytes [7, 8, 9] 1 2))"
    using romfs_roundtrip [OF ok len, of RomFs_init] by (auto simp: sample_files_def)
  have p: "BuildPath_file r' 0 = [0x61, 0x2F, 0x62]"
  proof -
    have "file_walk sample_dirs (Suc (Suc n)) 0 [0x62] = [0x61, 0x2F, 0x62]" for n
      by (simp add: sample_dirs_def prepend_def DOT_def SLASH_def)
    from this [of 98] show ?thesis
      by (simp add: BuildPath_file_def r' sample_files_def)
  qed
  have "find_file r' [0x61, 0x2F, 0x62] = Some 0"
    using p by (simp add: find_file_def r' sample_files_def)
  then show ?thesis
    using rd r'(1) by (auto simp: p get_bytes_def)
qed
end
