(* ===== verification/Fs.thy ===== *)
theory Fs
  imports ServiceIo RomFs
begin

unbundle bit_operations_syntax

text \<open>
  The file system service: \<^verbatim>\<open>src/src/services/Fs.cpp\<close>, on top of the file system images of theory
  \<open>RomFs\<close>.

  \<open>fs\<close> holds the file's statics: the table of open files and directories, the parsed image and its raw bytes.
  An access outside an image or a buffer is \<open>OobRead\<close> or \<open>OobWrite\<close>. The parsed image keeps a view of the
  caller's buffer, not of the copy the service makes; the model has the bytes, so it describes the
  service while that buffer lives.
\<close>

section \<open>Open files\<close>

record file_entry =
  fe_path :: path
  fe_data :: "u8 list"
  fe_pos :: u64
  fe_writable :: bool
  fe_dir :: bool
  fe_dir_cursor :: u32
  fe_dir_entries :: "path list"

record FileTable =
  ft_entries :: "u32 \<rightharpoonup> file_entry"
  ft_next_fd :: u32

definition FileTable_init :: FileTable where
  "FileTable_init = \<lparr>ft_entries = Map.empty, ft_next_fd = 0x1000\<rparr>"

definition ft_add :: "FileTable \<Rightarrow> file_entry \<Rightarrow> u32 \<times> FileTable" where
  "ft_add t e = (ft_next_fd t, t\<lparr>ft_next_fd := ft_next_fd t + 1, ft_entries := (ft_entries t)(ft_next_fd t \<mapsto> e)\<rparr>)"

definition ft_Open :: "path \<Rightarrow> u8 list \<Rightarrow> bool \<Rightarrow> FileTable \<Rightarrow> u32 \<times> FileTable" where
  "ft_Open p data writable t = ft_add t \<lparr>fe_path = p, fe_data = data, fe_pos = 0, fe_writable = writable,
     fe_dir = False, fe_dir_cursor = 0, fe_dir_entries = []\<rparr>"

definition ft_OpenDir :: "path \<Rightarrow> path list \<Rightarrow> FileTable \<Rightarrow> u32 \<times> FileTable" where
  "ft_OpenDir p entries t = ft_add t \<lparr>fe_path = p, fe_data = [], fe_pos = 0, fe_writable = False,
     fe_dir = True, fe_dir_cursor = 0, fe_dir_entries = entries\<rparr>"

definition ft_Get :: "FileTable \<Rightarrow> u32 \<Rightarrow> file_entry option" where
  "ft_Get t fd = ft_entries t fd"

definition ft_Close :: "FileTable \<Rightarrow> u32 \<Rightarrow> FileTable" where
  "ft_Close t fd = t\<lparr>ft_entries := (ft_entries t)(fd := None)\<rparr>"

record fs =
  fs_files :: FileTable
  fs_romfs :: RomFs
  romfs_loaded :: bool
  romfs_raw_data :: "u8 list"

definition fs_init :: fs where
  "fs_init = \<lparr>fs_files = FileTable_init, fs_romfs = RomFs_init, romfs_loaded = False, romfs_raw_data = []\<rparr>"

definition FsService_SetRomFS :: "nat \<Rightarrow> u8 list \<Rightarrow> fs \<Rightarrow> romfs_error + fs" where
  "FsService_SetRomFS fuel data s =
     bind_sum (romfs_Parse fuel data (fs_romfs s)) (\<lambda>(ok, r).
       Inr (s\<lparr>romfs_raw_data := data, fs_romfs := r, romfs_loaded := romfs_loaded s \<or> ok\<rparr>))"

text \<open>Undefined behaviour inside the file system classes, as an error of the handler.\<close>

definition rom :: "romfs_error + 'a \<Rightarrow> ipc_error + 'a" where
  "rom r = (case r of Inl _ \<Rightarrow> Inl OobRead | Inr x \<Rightarrow> Inr x)"

section \<open>Arguments\<close>

definition ReadPath :: "u8 list \<Rightarrow> nat \<Rightarrow> nat \<Rightarrow> ipc_error + path" where
  "ReadPath inp in_sz off =
     (if off + 4 > in_sz then Inr []
      else
        bind_sum (rd inp off 4) (\<lambda>bs.
          let len = unat (of_le_bytes bs :: u32)
          in if len = 0 \<or> off + 4 + len > in_sz then Inr [] else rd inp (off + 4) len))"

definition bytes_of :: "string \<Rightarrow> path" where
  "bytes_of str = map (\<lambda>c. of_nat (of_char c)) str"

definition strip_slashes :: "path \<Rightarrow> path" where
  "strip_slashes p = dropWhile (\<lambda>b. b = 0x2F) p"

definition NormalizePath :: "path \<Rightarrow> path" where
  "NormalizePath p =
     (let q = strip_slashes p;
          q' = (if take 6 q = bytes_of ''romfs:'' then drop 6 q else q)
      in strip_slashes q')"

text \<open>The path at offset 8, or the one at offset 0 if that is empty.\<close>

definition path_arg :: "u8 list \<Rightarrow> nat \<Rightarrow> ipc_error + path" where
  "path_arg inp in_sz =
     bind_sum (ReadPath inp in_sz 8) (\<lambda>p. if p = [] then ReadPath inp in_sz 0 else Inr p)"

definition WriteHandle :: "u32 \<Rightarrow> u8 list \<Rightarrow> fs \<Rightarrow> fs outcome" where
  "WriteHandle fd out s = answer (le_bytes 4 fd @ replicate 4 0) out s"

text \<open>Putting an opened file into the table and answering with its number.\<close>

definition opened :: "u32 \<times> FileTable \<Rightarrow> u8 list \<Rightarrow> fs \<Rightarrow> fs outcome" where
  "opened r out s = (case r of (fd, t) \<Rightarrow> WriteHandle fd out (s\<lparr>fs_files := t\<rparr>))"

section \<open>Commands\<close>

definition HandleOpenRomFS :: "u8 list \<Rightarrow> fs \<Rightarrow> fs outcome" where
  "HandleOpenRomFS out s =
     (let s1 = (if romfs_loaded s then s else s\<lparr>romfs_raw_data := [0], romfs_loaded := True\<rparr>)
      in opened (ft_Open (bytes_of ''romfs://'') (romfs_raw_data s1) False (fs_files s1)) out s1)"

definition HandleOpenFile :: "u8 list \<Rightarrow> nat \<Rightarrow> u8 list \<Rightarrow> fs \<Rightarrow> fs outcome" where
  "HandleOpenFile inp in_sz out s =
     bind_sum (path_arg inp in_sz) (\<lambda>p.
       let norm = NormalizePath p
       in if \<not> romfs_loaded s \<or> norm = [] then no_answer out s
          else bind_sum (rom (romfs_Exists (fs_romfs s) norm)) (\<lambda>ex.
            if \<not> ex then no_answer out s
            else bind_sum (rom (romfs_ReadFile (fs_romfs s) norm)) (\<lambda>d.
              case d of
                None \<Rightarrow> no_answer out s
              | Some data \<Rightarrow> opened (ft_Open norm data False (fs_files s)) out s)))"

text \<open>The loop over the files of the image does nothing.\<close>

definition HandleOpenDirectory :: "u8 list \<Rightarrow> nat \<Rightarrow> u8 list \<Rightarrow> fs \<Rightarrow> fs outcome" where
  "HandleOpenDirectory inp in_sz out s =
     bind_sum (path_arg inp in_sz) (\<lambda>p.
       let norm = NormalizePath p;
           entries = (if norm = [] \<or> norm = SLASH then [bytes_of ''data'', bytes_of ''contents''] else [])
       in opened (ft_OpenDir norm entries (fs_files s)) out s)"

text \<open>\<open>0\<close> is a directory, \<open>1\<close> a file.\<close>

definition HandleGetEntryType :: "u8 list \<Rightarrow> nat \<Rightarrow> u8 list \<Rightarrow> fs \<Rightarrow> fs outcome" where
  "HandleGetEntryType inp in_sz out s =
     bind_sum (path_arg inp in_sz) (\<lambda>p.
       let norm = NormalizePath p
       in bind_sum (if norm = [] \<or> norm = SLASH then Inr 0
                    else if romfs_loaded s
                    then bind_sum (rom (romfs_Exists (fs_romfs s) norm)) (\<lambda>ex. Inr (if ex then 1 else 0))
                    else Inr (0 :: u32))
            (\<lambda>t. answer (le_bytes 4 t) out s))"

definition HandleGetSize :: "u8 list \<Rightarrow> nat \<Rightarrow> u8 list \<Rightarrow> fs \<Rightarrow> fs outcome" where
  "HandleGetSize inp in_sz out s =
     bind_sum (arg_u32 4 0 0 inp in_sz) (\<lambda>fd.
       answer (le_bytes 8
         (case ft_Get (fs_files s) fd of Some e \<Rightarrow> (of_nat (length (fe_data e)) :: u64) | None \<Rightarrow> 0)) out s)"

definition upd_file :: "u32 \<Rightarrow> file_entry \<Rightarrow> fs \<Rightarrow> fs" where
  "upd_file fd e s = s\<lparr>fs_files := (fs_files s)\<lparr>ft_entries := (ft_entries (fs_files s))(fd \<mapsto> e)\<rparr>\<rparr>"

definition read_dir :: "u32 \<Rightarrow> file_entry \<Rightarrow> u8 list \<Rightarrow> fs \<Rightarrow> fs outcome" where
  "read_dir fd e out s =
     (let cursor = ucast (fe_pos e) :: u32 in
      if unat cursor < length (fe_dir_entries e) then
        let name = fe_dir_entries e ! unat cursor; s1 = upd_file fd (e\<lparr>fe_pos := ucast (cursor + 1)\<rparr>) s
        in answer (le_bytes 8 (of_nat (length name) :: u64) @ name) out s1
      else no_answer out s)"

text \<open>
  The number of bytes to copy, in 64 bits: beyond the end of the data the subtraction wraps, and so may the
  comparison with the output size.
\<close>

definition read_actual :: "u64 \<Rightarrow> u64 \<Rightarrow> u8 list \<Rightarrow> u64" where
  "read_actual offset sz data =
     (if unat (offset + sz) > length data then of_nat (length data) - offset else sz)"

definition read_file :: "file_entry \<Rightarrow> u64 \<Rightarrow> u64 \<Rightarrow> u8 list \<Rightarrow> fs \<Rightarrow> fs outcome" where
  "read_file e offset sz out s =
     (let actual = read_actual offset sz (fe_data e) in
      if length out \<ge> unat (8 + actual) then
        if 8 + unat actual > length out then Inl OobWrite
        else if actual > 0 \<and> unat offset + unat actual > length (fe_data e) then Inl OobRead
        else Inr (True, put_bytes out 0 (le_bytes 8 actual @ get_bytes (fe_data e) (unat offset) (unat actual)),
                  8 + unat actual, s)
      else Inr (True, out, length out, s))"

definition fs_HandleRead :: "u8 list \<Rightarrow> nat \<Rightarrow> u8 list \<Rightarrow> fs \<Rightarrow> fs outcome" where
  "fs_HandleRead inp in_sz out s =
     (if in_sz < 20 then Inr (False, out, length out, s)
      else
        bind_sum (rd inp 0 20) (\<lambda>bs.
          let fd = word_at bs 0; offset = of_le_bytes (get_bytes bs 8 8); sz = ucast (word_at bs 16)
          in case ft_Get (fs_files s) fd of
               None \<Rightarrow> no_answer out s
             | Some e \<Rightarrow> if fe_dir e then read_dir fd e out s else read_file e offset sz out s))"

definition fs_HandleClose :: "u8 list \<Rightarrow> nat \<Rightarrow> u8 list \<Rightarrow> fs \<Rightarrow> fs outcome" where
  "fs_HandleClose inp in_sz out s =
     bind_sum (arg_u32 4 0 0 inp in_sz) (\<lambda>fd. no_answer out (s\<lparr>fs_files := ft_Close (fs_files s) fd\<rparr>))"

definition HandleOpenDataFile :: "u8 list \<Rightarrow> fs \<Rightarrow> fs outcome" where
  "HandleOpenDataFile out s =
     (if romfs_loaded s then opened (ft_Open (bytes_of ''romfs-data://'') (romfs_raw_data s) False (fs_files s)) out s
      else opened (ft_Open (bytes_of ''save'') [] True (fs_files s)) out s)"

definition HandleOpenSaveDataFile :: "u8 list \<Rightarrow> nat \<Rightarrow> u8 list \<Rightarrow> fs \<Rightarrow> fs outcome" where
  "HandleOpenSaveDataFile inp in_sz out s =
     bind_sum (ReadPath inp in_sz 8) (\<lambda>p.
       let norm = NormalizePath p;
           empty_file = opened (ft_Open (bytes_of ''save:'' @ norm) [] True (fs_files s)) out s
       in if romfs_loaded s \<and> norm \<noteq> [] then
            bind_sum (rom (romfs_Exists (fs_romfs s) norm)) (\<lambda>ex.
              if ex then
                bind_sum (rom (romfs_ReadFile (fs_romfs s) norm)) (\<lambda>d.
                  case d of None \<Rightarrow> empty_file
                  | Some data \<Rightarrow> opened (ft_Open norm data True (fs_files s)) out s)
              else empty_file)
          else empty_file)"

text \<open>
  The remaining commands (initialise, write, commit, create, delete, rename, mount, command 0 and
  unknown ones) answer nothing and change nothing.
\<close>

definition fs_HandleCommand :: "fs handler" where
  "fs_HandleCommand cmd inp in_sz out s =
     (if cmd = 0x04020002 then HandleOpenRomFS out s
      else if cmd = 0x08020000 then HandleOpenFile inp in_sz out s
      else if cmd = 0x08030000 then HandleOpenDirectory inp in_sz out s
      else if cmd = 0x04050000 then HandleGetEntryType inp in_sz out s
      else if cmd = 0x0404000A then HandleGetSize inp in_sz out s
      else if cmd = 0x04060002 then fs_HandleRead inp in_sz out s
      else if cmd = 0x04080000 then fs_HandleClose inp in_sz out s
      else if cmd = 0x08020001 then HandleOpenDataFile out s
      else if cmd = 0x08020002 then HandleOpenSaveDataFile inp in_sz out s
      else no_answer out s)"

section \<open>Contracts\<close>

lemmas fs_handlers = HandleOpenRomFS_def HandleOpenFile_def HandleOpenDirectory_def HandleGetEntryType_def
  HandleGetSize_def fs_HandleRead_def fs_HandleClose_def HandleOpenDataFile_def HandleOpenSaveDataFile_def

lemma fits_opened [fits_intros]: "fits out (opened r out s)"
  by (simp add: opened_def WriteHandle_def fits_answer split: prod.split)

lemma fits_read [fits_intros]: "fits out (read_file e offset sz out s)" "fits out (read_dir fd e out s)"
proof -
  show "fits out (read_file e offset sz out s)"
    by (auto simp: fits_def read_file_def Let_def get_bytes_def split: if_splits)
  show "fits out (read_dir fd e out s)"
    unfolding read_dir_def by (intro fits_intros)
qed

interpretation fs: handler_contract fs_HandleCommand
proof
  show "fits out (fs_HandleCommand cmd inp in_sz out m)" for out cmd inp in_sz m
    unfolding fs_HandleCommand_def fs_handlers by (intro fits_intros) simp_all
qed

text \<open>Open files obey the contract of kernel handles.\<close>

definition ft_inv :: "FileTable \<Rightarrow> bool" where
  "ft_inv t \<longleftrightarrow> 0x1000 \<le> ft_next_fd t \<and> (\<forall>fd. ft_entries t fd \<noteq> None \<longrightarrow> fd < ft_next_fd t)"

definition ft_room :: "nat \<Rightarrow> FileTable \<Rightarrow> bool" where
  "ft_room n t \<longleftrightarrow> unat (ft_next_fd t) + n < 0xE0000000"

lemma ft_next_Suc: "ft_room n t \<Longrightarrow> unat (ft_next_fd t + 1) = unat (ft_next_fd t) + 1"
  by (simp add: ft_room_def unat_word_ariths)

interpretation files: handle_store ft_add ft_Get ft_Close ft_inv ft_room
proof unfold_locales
  fix t ob n h
  show "ft_inv (snd (ft_add t ob))" if "ft_inv t" "ft_room n t"
    using that ft_next_Suc [OF that(2)]
    by (auto simp: ft_inv_def ft_add_def word_less_nat_alt word_le_nat_alt less_Suc_eq)
  show "ft_room n (snd (ft_add t ob))" if "ft_room (Suc n) t"
    using that ft_next_Suc [OF that] by (simp add: ft_room_def ft_add_def)
  show "fst (ft_add t ob) \<noteq> 0 \<and> fst (ft_add t ob) < 0xE0000000" if "ft_inv t" "ft_room n t"
    using that by (auto simp: ft_inv_def ft_room_def ft_add_def word_less_nat_alt word_le_nat_alt)
qed (auto simp: ft_inv_def ft_Get_def ft_add_def ft_Close_def)

lemma ft_Open_add: "ft_Open p d w t = ft_add t \<lparr>fe_path = p, fe_data = d, fe_pos = 0, fe_writable = w,
     fe_dir = False, fe_dir_cursor = 0, fe_dir_entries = []\<rparr>"
  by (simp add: ft_Open_def)

section \<open>Properties\<close>

text \<open>Messages as a client lays them out.\<close>

definition path_message :: "path \<Rightarrow> u8 list" where
  "path_message p = replicate 8 0 @ le_bytes 4 (of_nat (length p) :: u32) @ p"

definition read_message :: "u32 \<Rightarrow> u64 \<Rightarrow> u32 \<Rightarrow> u8 list" where
  "read_message fd offset sz = le_bytes 4 fd @ replicate 4 0 @ le_bytes 8 offset @ le_bytes 4 sz"

lemma path_arg_message:
  assumes "p \<noteq> []" and "length p < 2 ^ 32"
  shows "path_arg (path_message p) (length (path_message p)) = Inr p"
proof -
  have "unat (of_nat (length p) :: u32) = length p"
    using assms(2) by (simp add: unsigned_of_nat take_bit_nat_eq_self)
  moreover have "rd (path_message p) 8 4 = Inr (le_bytes 4 (of_nat (length p) :: u32))" "rd (path_message p) 12 (length p) = Inr p"
    by (simp_all add: rd_def path_message_def get_bytes_def)
  ultimately show ?thesis
    using assms(1) by (simp add: path_arg_def ReadPath_def Let_def path_message_def)
qed

lemma read_message_fields:
  "rd (read_message fd offset sz) 0 20 = Inr (read_message fd offset sz)"
  "word_at (read_message fd offset sz) 0 = fd" "of_le_bytes (get_bytes (read_message fd offset sz) 8 8) = offset"
  "word_at (read_message fd offset sz) 16 = sz"
  by (simp_all add: rd_def read_message_def get_bytes_def word_at_def)

lemma HandleRead_run:
  "fs_HandleCommand 0x04060002 (read_message fd offset sz) 20 out s =
     (case ft_Get (fs_files s) fd of None \<Rightarrow> no_answer out s
      | Some e \<Rightarrow> if fe_dir e then read_dir fd e out s else read_file e offset (ucast sz) out s)"
  by (simp add: fs_HandleCommand_def fs_HandleRead_def read_message_fields split: option.split)

lemma read_file_within:
  assumes "unat offset \<le> length (fe_data e)" and "length (fe_data e) < 2 ^ 63"
    and "n = min (unat sz) (length (fe_data e) - unat offset)" and "8 + n \<le> length out" and "length out < 2 ^ 63"
    and "unat sz < 2 ^ 32"
  shows "read_file e offset sz out s =
    Inr (True, put_bytes out 0 (le_bytes 8 (of_nat n :: u64) @ take n (drop (unat offset) (fe_data e))), 8 + n, s)"
proof -
  have sum: "unat (offset + sz) = unat offset + unat sz"
    using assms(1,2,6) by (simp add: unat_word_ariths)
  have "read_actual offset sz (fe_data e) = of_nat n"
  proof (cases "unat offset + unat sz > length (fe_data e)")
    case True
    then have "n = length (fe_data e) - unat offset"
      using assms(3) by simp
    then show ?thesis
      using True assms(1) by (simp add: read_actual_def sum of_nat_diff)
  next
    case False
    then have "n = unat sz"
      using assms(3) by simp
    then show ?thesis
      using False by (simp add: read_actual_def sum)
  qed
  moreover have n: "unat (of_nat n :: u64) = n"
    using assms(4,5) by (simp add: unsigned_of_nat take_bit_nat_eq_self)
  moreover have "unat (8 + of_nat n :: u64) = 8 + n"
    using assms(4,5) n by (simp add: unat_word_ariths)
  moreover have "unat offset + n \<le> length (fe_data e)"
    using assms(1,3) by simp
  ultimately show ?thesis
    using assms(4) by (simp add: read_file_def Let_def get_bytes_def)
qed

lemma ft_close_added: "ft_add t e = (fd, t') \<Longrightarrow> ft_Get t fd = None \<Longrightarrow> ft_Close t' fd = t\<lparr>ft_next_fd := fd + 1\<rparr>"
  by (cases t) (auto simp: ft_add_def ft_Get_def ft_Close_def fun_upd_idem)

lemma ft_add_other: "ft_add t e = (fd, t') \<Longrightarrow> fd' \<noteq> fd \<Longrightarrow> ft_Get t' fd' = ft_Get t fd'"
  by (auto simp: ft_add_def ft_Get_def)

text \<open>
  Property C22: a game reads its files through the service. When the image has a file under the
  normalised path, opening the path (with or without \<open>romfs:\<close> and leading slashes) yields a fresh file
  number and leaves every other open file alone; every read at an offset within the file returns exactly the requested bytes, cut at the end of
  the file, together with their count; closing brings back the state from before the open, but for the next file number,
  and reading the closed file answers nothing.
\<close>

theorem fs_open_read_close:
  assumes "ft_inv (fs_files s)" and "ft_room 1 (fs_files s)" and "romfs_loaded s"
    and "p \<noteq> []" and "length p < 2 ^ 32" and "NormalizePath p \<noteq> []"
    and "romfs_Exists (fs_romfs s) (NormalizePath p) = Inr True"
    and "romfs_ReadFile (fs_romfs s) (NormalizePath p) = Inr (Some data)" and "length data < 2 ^ 63"
    and "8 \<le> length out"
  shows "\<exists>fd s1. fs_HandleCommand 0x08020000 (path_message p) (length (path_message p)) out s =
        Inr (True, put_bytes out 0 (le_bytes 4 fd @ replicate 4 0), 8, s1)
    \<and> ft_Get (fs_files s) fd = None \<and> (\<forall>fd'. fd' \<noteq> fd \<longrightarrow> ft_Get (fs_files s1) fd' = ft_Get (fs_files s) fd')
    \<and> (\<forall>offset sz out'. unat offset \<le> length data \<and> 8 + unat sz \<le> length out' \<and> length out' < 2 ^ 63 \<longrightarrow>
         fs_HandleCommand 0x04060002 (read_message fd offset sz) 20 out' s1 =
           (let n = min (unat sz) (length data - unat offset)
            in Inr (True, put_bytes out' 0 (le_bytes 8 (of_nat n :: u64) @ take n (drop (unat offset) data)), 8 + n, s1)))
    \<and> (\<exists>s2. fs_HandleCommand 0x04080000 (le_bytes 4 fd) 4 out s1 = Inr (True, out, 0, s2)
         \<and> s2 = s\<lparr>fs_files := (fs_files s)\<lparr>ft_next_fd := fd + 1\<rparr>\<rparr>
         \<and> (\<forall>offset sz. fs_HandleCommand 0x04060002 (read_message fd offset sz) 20 out s2 = Inr (True, out, 0, s2)))"
proof -
  let ?n = "NormalizePath p"
  let ?e = "\<lparr>fe_path = ?n, fe_data = data, fe_pos = 0, fe_writable = False, fe_dir = False, fe_dir_cursor = 0,
    fe_dir_entries = []\<rparr>"
  obtain fd t where add: "ft_add (fs_files s) ?e = (fd, t)"
    by fastforce
  let ?s1 = "s\<lparr>fs_files := t\<rparr>"
  have "fs_HandleCommand 0x08020000 (path_message p) (length (path_message p)) out s =
        Inr (True, put_bytes out 0 (le_bytes 4 fd @ replicate 4 0), 8, ?s1)"
    using assms(3,6-8,10) add
    by (simp add: fs_HandleCommand_def HandleOpenFile_def path_arg_message [OF assms(4,5)] Let_def rom_def opened_def
        ft_Open_add WriteHandle_def answer_def)
  moreover have free: "ft_Get (fs_files s) fd = None"
    using files.fresh [OF assms(1), of ?e] add by simp
  moreover have "ft_Get t fd' = ft_Get (fs_files s) fd'" if "fd' \<noteq> fd" for fd'
    by (rule ft_add_other [OF add that])
  moreover have get: "ft_Get t fd = Some ?e"
    using files.get_create [OF assms(1), of ?e fd] add by simp
  moreover have "fs_HandleCommand 0x04060002 (read_message fd offset sz) 20 out' ?s1 =
           (let n = min (unat sz) (length data - unat offset)
            in Inr (True, put_bytes out' 0 (le_bytes 8 (of_nat n :: u64) @ take n (drop (unat offset) data)), 8 + n, ?s1))"
    if "unat offset \<le> length data" "8 + unat sz \<le> length out'" "length out' < 2 ^ 63" for offset sz out'
  proof -
    have u: "unat (ucast sz :: u64) = unat sz"
      using unat_u32_less [of sz] by (simp add: unsigned_ucast_eq take_bit_nat_eq_self)
    show ?thesis
      using read_file_within [of offset ?e "min (unat sz) (length data - unat offset)" "ucast sz" out' ?s1]
        that assms(9) get unat_u32_less [of sz]
      by (simp add: HandleRead_run Let_def u)
  qed
  moreover have "fs_HandleCommand 0x04080000 (le_bytes 4 fd) 4 out ?s1 = Inr (True, out, 0, ?s1\<lparr>fs_files := ft_Close t fd\<rparr>)"
    by (simp add: fs_HandleCommand_def fs_HandleClose_def no_answer_def)
  moreover have "ft_Close t fd = (fs_files s)\<lparr>ft_next_fd := fd + 1\<rparr>"
    by (rule ft_close_added [OF add free])
  moreover have "ft_Get (ft_Close t fd) fd = None"
    by (simp add: ft_Get_def ft_Close_def)
  ultimately show ?thesis
    by (intro exI [of _ fd] exI [of _ ?s1] conjI exI [of _ "?s1\<lparr>fs_files := ft_Close t fd\<rparr>"])
      (simp_all add: HandleRead_run no_answer_def)
qed

text \<open>The sample image, and its file \<open>a/b\<close> opened as \<open>romfs:/a/b\<close>.\<close>

definition sample_fs :: fs where
  "sample_fs = \<lparr>fs_files = FileTable_init, fs_romfs = \<lparr>data_offset = 0, dir_table = sample_dirs, file_table = sample_files,
     romfs_data = [7, 8, 9]\<rparr>, romfs_loaded = True, romfs_raw_data = []\<rparr>"

lemma sample_fs_file:
  "romfs_ReadFile (fs_romfs sample_fs) [0x61, 0x2F, 0x62] = Inr (Some [8, 9])"
  "romfs_Exists (fs_romfs sample_fs) [0x61, 0x2F, 0x62] = Inr True"
proof -
  have "file_walk sample_dirs (Suc (Suc n)) 0 [0x62] = [0x61, 0x2F, 0x62]" for n
    by (simp add: sample_dirs_def prepend_def DOT_def SLASH_def)
  from this [of 98] have "find_file (fs_romfs sample_fs) [0x61, 0x2F, 0x62] = Some 0"
    by (simp add: find_file_def BuildPath_file_def sample_fs_def sample_files_def)
  then show "romfs_ReadFile (fs_romfs sample_fs) [0x61, 0x2F, 0x62] = Inr (Some [8, 9])"
    "romfs_Exists (fs_romfs sample_fs) [0x61, 0x2F, 0x62] = Inr True"
    by (simp_all add: romfs_ReadFile_def romfs_Exists_def sample_fs_def sample_files_def get_bytes_def Let_def)
qed

theorem fs_open_read_close_witness:
  "\<exists>fd s1 out. fs_HandleCommand 0x08020000 (path_message (bytes_of ''romfs:/a/b'')) 22 (replicate 16 0) sample_fs =
        Inr (True, out, 8, s1)
    \<and> fs_HandleCommand 0x04060002 (read_message fd 1 5) 20 (replicate 16 0) s1 =
        Inr (True, put_bytes (replicate 16 0) 0 (le_bytes 8 (1 :: u64) @ [9]), 9, s1)"
proof -
  let ?p = "bytes_of ''romfs:/a/b''"
  have p: "?p = [0x72, 0x6F, 0x6D, 0x66, 0x73, 0x3A, 0x2F, 0x61, 0x2F, 0x62]" "length (path_message ?p) = 22"
    by (simp_all add: bytes_of_def path_message_def)
  have n: "NormalizePath ?p = [0x61, 0x2F, 0x62]"
    by (simp add: NormalizePath_def strip_slashes_def p) (simp add: bytes_of_def)
  have inv: "ft_inv (fs_files sample_fs)" "ft_room 1 (fs_files sample_fs)" "romfs_loaded sample_fs"
    by (simp_all add: sample_fs_def ft_inv_def ft_room_def FileTable_init_def)
  have pn: "?p \<noteq> []" "length ?p < 2 ^ 32" "NormalizePath ?p \<noteq> []"
    by (simp_all add: n) (simp_all add: p)
  have ex: "romfs_Exists (fs_romfs sample_fs) (NormalizePath ?p) = Inr True"
    "romfs_ReadFile (fs_romfs sample_fs) (NormalizePath ?p) = Inr (Some [8, 9])"
    by (simp_all add: n sample_fs_file)
  have sz: "length [8, 9 :: u8] < 2 ^ 63" "8 \<le> length (replicate 16 (0 :: u8))"
    by simp_all
  obtain fd s1 where op: "fs_HandleCommand 0x08020000 (path_message ?p) 22 (replicate 16 0) sample_fs =
        Inr (True, put_bytes (replicate 16 0) 0 (le_bytes 4 fd @ replicate 4 0), 8, s1)"
    and rd: "\<forall>offset sz out'. unat offset \<le> length [8, 9 :: u8] \<and> 8 + unat sz \<le> length out' \<and> length out' < 2 ^ 63 \<longrightarrow>
         fs_HandleCommand 0x04060002 (read_message fd offset sz) 20 out' s1 =
           (let n = min (unat sz) (length [8, 9 :: u8] - unat offset)
            in Inr (True, put_bytes out' 0 (le_bytes 8 (of_nat n :: u64) @ take n (drop (unat offset) [8, 9])), 8 + n, s1))"
    using fs_open_read_close [OF inv pn ex sz] unfolding p(2) by blast
  show ?thesis
    using op rd [rule_format, of 1 5 "replicate 16 0"] by (intro exI conjI) (simp_all add: Let_def)
qed

text \<open>
  Reading behind the end of a file. The byte count is computed as size minus offset in 64 bits
  and added to 8 for the check against the output buffer; for an offset one to eight bytes behind the
  end both wrap, the check passes, and the service copies almost 2^64 bytes: the write leaves the
  output buffer, whatever size was asked for and however large the buffer is.
\<close>

theorem fs_read_past_end_overruns:
  assumes "ft_Get (fs_files s) fd = Some e" and "\<not> fe_dir e" and "length (fe_data e) < 2 ^ 62" and "length out < 2 ^ 62"
    and "1 \<le> k" and "k \<le> 8" and "8 \<le> length out"
  shows "fs_HandleCommand 0x04060002 (read_message fd (of_nat (length (fe_data e) + k)) sz) 20 out s = Inl OobWrite"
proof -
  let ?l = "length (fe_data e)" and ?o = "of_nat (length (fe_data e) + k) :: u64"
  have o: "unat ?o = ?l + k"
    using assms(3,6) by (simp add: unsigned_of_nat take_bit_nat_eq_self del: of_nat_add)
  have "unat (ucast sz :: u64) < 2 ^ 32"
    using unat_u32_less [of sz] by (simp add: unsigned_ucast_eq take_bit_nat_eq_self)
  then have "unat (?o + ucast sz) = ?l + k + unat (ucast sz :: u64)"
    using o assms(3,6) by (simp add: unat_word_ariths del: of_nat_add)
  then have "read_actual ?o (ucast sz) (fe_data e) = of_nat ?l - ?o"
    using assms(5) by (simp add: read_actual_def del: of_nat_add)
  also have "\<dots> = - of_nat k"
    by simp
  finally have act: "read_actual ?o (ucast sz) (fe_data e) = - of_nat k" .
  have k: "unat (of_nat k :: u64) = k" "(of_nat k :: u64) \<le> 8"
    using assms(6) by (simp_all add: unsigned_of_nat take_bit_nat_eq_self word_le_nat_alt)
  then have "unat (8 + - of_nat k :: u64) \<le> 8"
    by (simp add: unat_sub)
  moreover have "unat (- of_nat k :: u64) = 2 ^ 64 - k"
    using unat_sub_if' [of 0 "of_nat k :: u64"] k(1) assms(5) by simp
  moreover have "length out < 18446744073709551624 - k"
    using assms(4,6) by (simp add: less_diff_conv)
  ultimately show ?thesis
    using assms(1,2,7) by (simp add: HandleRead_run read_file_def Let_def act del: of_nat_add)
qed

theorem fs_read_past_end_overruns_witness:
  "\<exists>s. fs_HandleCommand 0x04060002 (read_message 0x1000 3 1) 20 (replicate 64 0) s = Inl OobWrite"
proof -
  let ?s = "sample_fs\<lparr>fs_files := snd (ft_Open [0x61] [8, 9] False FileTable_init)\<rparr>"
  let ?e = "\<lparr>fe_path = [0x61], fe_data = [8, 9], fe_pos = 0, fe_writable = False, fe_dir = False, fe_dir_cursor = 0,
    fe_dir_entries = []\<rparr>"
  have "ft_Get (fs_files ?s) 0x1000 = Some ?e"
    by (simp add: ft_Get_def ft_Open_def ft_add_def FileTable_init_def)
  from fs_read_past_end_overruns [OF this, of "replicate 64 0" 1 1] show ?thesis
    by (intro exI [of _ ?s]) simp
qed
end
