(* ===== verification/MiscServices.thy ===== *)
theory MiscServices
  imports ServiceIo
begin

unbundle bit_operations_syntax

text \<open>
  Services with little or no state: audio output (\<^verbatim>\<open>src/src/services/AudioOut.cpp\<close>), the security
  processor (\<^verbatim>\<open>src/src/services/Spl.cpp\<close>), accounts (\<^verbatim>\<open>src/src/services/Account.cpp\<close>) and the stubs of
  \<^verbatim>\<open>src/src/services/Pcv.cpp\<close>.

  What the audio service hands to the host (\<open>Audio_SubmitPcm\<close>, \<open>Audio_SubmitAdpcm\<close>) is a log in its state, and
  whether the host's audio is active is a field. The values of \<^verbatim>\<open>std::rand\<close> are a sequence and a position in it.
\<close>

section \<open>Audio output\<close>

datatype audio_call = SubmitPcm "u8 list" u32 | SubmitAdpcm "u8 list" u32

record audio =
  sample_rate :: u32
  channel_count :: u32
  pcm_format :: u32
  audio_state :: u32
  audio_active :: bool
  audio_log :: "audio_call list"

definition audio_init :: "bool \<Rightarrow> audio" where
  "audio_init active = \<lparr>sample_rate = 48000, channel_count = 2, pcm_format = 0, audio_state = 0, audio_active = active,
     audio_log = []\<rparr>"

definition HandleOpenAudioOut :: "u8 list \<Rightarrow> audio \<Rightarrow> audio outcome" where
  "HandleOpenAudioOut out a =
     answer_at [(0, le_bytes 4 (0x600 :: u32)), (8, le_bytes 4 (sample_rate a)), (12, [ucast (channel_count a), 0]),
       (14, [ucast (pcm_format a), 0]), (16, [ucast (audio_state a)])] 32 out a"

text \<open>Only the first byte of the count is written.\<close>

definition HandleListAudioOuts :: "u8 list \<Rightarrow> audio \<Rightarrow> audio outcome" where
  "HandleListAudioOuts out a =
     (if length out \<ge> 16 then
        let name = chars 7 ''Device1''; len = min 7 (length out - 4)
        in Inr (True, put_all [(0, [1]), (4, take len name)] out, 4 + len, a)
      else Inr (True, out, length out, a))"

definition HandleStartAudioOut :: "u8 list \<Rightarrow> audio \<Rightarrow> audio outcome" where
  "HandleStartAudioOut out a = no_answer out (a\<lparr>audio_state := 0\<rparr>)"

definition HandleStopAudioOut :: "u8 list \<Rightarrow> audio \<Rightarrow> audio outcome" where
  "HandleStopAudioOut out a = no_answer out (a\<lparr>audio_state := 1\<rparr>)"

text \<open>The samples that are passed on: whole frames of 4 bytes, or ADPCM frames of 8.\<close>

definition audio_submit :: "u8 list \<Rightarrow> nat \<Rightarrow> audio \<Rightarrow> ipc_error + audio" where
  "audio_submit inp in_sz a =
     (let data_size = of_nat (in_sz - 16) :: u32 in
      if pcm_format a = 2 then
        bind_sum (rd inp 16 (unat (data_size div 8) * 8)) (\<lambda>bs.
          Inr (a\<lparr>audio_log := audio_log a @ [SubmitAdpcm bs (data_size div 8)]\<rparr>))
      else
        bind_sum (rd inp 16 (unat (data_size div 4) * 4)) (\<lambda>bs.
          Inr (a\<lparr>audio_log := audio_log a @ [SubmitPcm bs (data_size div 4)]\<rparr>)))"

definition HandleAppendAudioOutBuffer :: "u8 list \<Rightarrow> nat \<Rightarrow> u8 list \<Rightarrow> audio \<Rightarrow> audio outcome" where
  "HandleAppendAudioOutBuffer inp in_sz out a =
     (if in_sz \<ge> 16 \<and> audio_active a then
        bind_sum (rd inp 0 16) (\<lambda>bs.
          let buf_addr = of_le_bytes (get_bytes bs 0 8) :: u64; buf_size = of_le_bytes (get_bytes bs 8 8) :: u64
          in if buf_addr > 0 \<and> buf_size > 0 \<and> in_sz > 16
             then bind_sum (audio_submit inp in_sz a) (no_answer out)
             else no_answer out a)
      else no_answer out a)"

definition HandleGetAudioOutState :: "u8 list \<Rightarrow> audio \<Rightarrow> audio outcome" where
  "HandleGetAudioOutState out a = answer_at [(0, [ucast (audio_state a)])] 4 out a"

text \<open>Initialise, register event, flush and unknown commands answer nothing.\<close>

definition audio_HandleCommand :: "audio handler" where
  "audio_HandleCommand cmd inp in_sz out a =
     (if cmd = 1 then HandleOpenAudioOut out a
      else if cmd = 2 then HandleListAudioOuts out a
      else if cmd = 3 then HandleStartAudioOut out a
      else if cmd = 4 then HandleStopAudioOut out a
      else if cmd = 5 then HandleAppendAudioOutBuffer inp in_sz out a
      else if cmd = 7 then HandleGetAudioOutState out a
      else no_answer out a)"

section \<open>Security processor\<close>

record spl =
  rand_values :: "nat \<Rightarrow> u32"
  rand_pos :: nat

definition HandleRandomBytes :: "u8 list \<Rightarrow> nat \<Rightarrow> u8 list \<Rightarrow> spl \<Rightarrow> spl outcome" where
  "HandleRandomBytes inp in_sz out s =
     bind_sum (arg_u32 4 0 0 inp in_sz) (\<lambda>c.
       let count = (if c = 0 then 32 else c);
           n = (if unat count > length out then unat (of_nat (length out) :: u32) else unat count)
       in Inr (True, put_bytes out 0 (map (\<lambda>i. ucast (rand_values s (rand_pos s + i) AND 0xFF)) [0..<n]), n,
               s\<lparr>rand_pos := rand_pos s + n\<rparr>))"

definition spl_zero_commands :: "u32 list" where
  "spl_zero_commands = [12, 13, 14, 15, 17, 20, 25, 26, 27, 28, 30, 31, 33]"

definition spl_HandleCommand :: "spl handler" where
  "spl_HandleCommand cmd inp in_sz out s =
     (if cmd = 0 then no_answer out s
      else if cmd = 5 then HandleRandomBytes inp in_sz out s
      else if cmd = 7 then answer ([0x01, 0x23, 0x45, 0x67] @ replicate 12 0) out s
      else if cmd \<in> set spl_zero_commands then
        Inr (True, if length out \<ge> 16 then replicate (length out) 0 else out, length out, s)
      else no_answer out s)"

section \<open>Accounts\<close>

definition acc_HandleCommand :: "'m handler" where
  "acc_HandleCommand cmd inp in_sz out s =
     (if cmd = 0 then no_answer out s
      else if cmd = 1 then answer [1, 0, 0, 0] out s
      else if cmd = 2 then answer [1] out s
      else if cmd = 100 then answer (le_bytes 8 (1 :: u64)) out s
      else if cmd = 3 then answer (1 # replicate 15 0) out s
      else if cmd \<in> {4, 5, 6, 101, 140} then answer (replicate 8 0) out s
      else no_answer out s)"

section \<open>Stubs\<close>

text \<open>Every command of the nine services of \<^verbatim>\<open>Pcv.cpp\<close> answers nothing, listed or not.\<close>

definition pcv_HandleCommand :: "'m handler" where
  "pcv_HandleCommand cmd inp in_sz out s = no_answer out s"

definition psc_HandleCommand :: "'m handler" where
  "psc_HandleCommand cmd inp in_sz out s = no_answer out s"

definition pm_HandleCommand :: "'m handler" where
  "pm_HandleCommand cmd inp in_sz out s =
     (if cmd \<in> {0, 1, 2, 3, 4, 5, 6} then no_answer out s else no_answer out s)"

definition nifm_HandleCommand :: "'m handler" where
  "nifm_HandleCommand cmd inp in_sz out s =
     (if cmd \<in> {0, 3, 4, 5, 12} then no_answer out s else no_answer out s)"

definition ro_HandleCommand :: "'m handler" where
  "ro_HandleCommand cmd inp in_sz out s =
     (if cmd \<in> {0, 2, 4, 5, 6} then no_answer out s else no_answer out s)"

definition erpt_HandleCommand :: "'m handler" where
  "erpt_HandleCommand cmd inp in_sz out s = no_answer out s"

definition fatal_HandleCommand :: "'m handler" where
  "fatal_HandleCommand cmd inp in_sz out s = no_answer out s"

definition btm_HandleCommand :: "'m handler" where
  "btm_HandleCommand cmd inp in_sz out s =
     (if cmd \<in> {0, 1, 2, 3, 4} then no_answer out s else no_answer out s)"

definition nfc_HandleCommand :: "'m handler" where
  "nfc_HandleCommand cmd inp in_sz out s =
     (if cmd \<in> {0, 1, 2, 10, 20} then no_answer out s else no_answer out s)"

lemmas stub_commands = pcv_HandleCommand_def psc_HandleCommand_def pm_HandleCommand_def nifm_HandleCommand_def
  ro_HandleCommand_def erpt_HandleCommand_def fatal_HandleCommand_def btm_HandleCommand_def nfc_HandleCommand_def

section \<open>Contracts\<close>

lemma audio_fits: "fits out (audio_HandleCommand cmd inp in_sz out a)"
proof -
  have list: "fits out (HandleListAudioOuts out a)"
    by (auto simp: fits_def HandleListAudioOuts_def Let_def chars_def split: if_splits)
  have op: "fits out (HandleOpenAudioOut out a)" "fits out (HandleGetAudioOutState out a)"
    unfolding HandleOpenAudioOut_def HandleGetAudioOutState_def by (intro fits_answer_at; simp)+
  show ?thesis
    unfolding audio_HandleCommand_def HandleStartAudioOut_def HandleStopAudioOut_def HandleAppendAudioOutBuffer_def
    by (intro fits_intros list op)
qed

interpretation audio: handler_contract audio_HandleCommand
  by unfold_locales (rule audio_fits)

lemma spl_fits: "fits out (spl_HandleCommand cmd inp in_sz out s)"
proof -
  have "unat (of_nat n :: u32) \<le> n" for n
    by (simp add: unsigned_of_nat take_bit_nat_less_eq_self)
  then have "fits out (HandleRandomBytes inp in_sz out s)"
    unfolding HandleRandomBytes_def by (intro fits_intros) (auto simp: fits_def Let_def)
  then show ?thesis
    unfolding spl_HandleCommand_def by (intro fits_intros) (simp_all add: fits_def)
qed

interpretation spl: handler_contract spl_HandleCommand
  by unfold_locales (rule spl_fits)

interpretation acc: handler_contract acc_HandleCommand
  by unfold_locales (unfold acc_HandleCommand_def, intro fits_intros)

lemma stub_contracts:
  "handler_contract pcv_HandleCommand" "handler_contract psc_HandleCommand" "handler_contract pm_HandleCommand"
  "handler_contract nifm_HandleCommand" "handler_contract ro_HandleCommand" "handler_contract erpt_HandleCommand"
  "handler_contract fatal_HandleCommand" "handler_contract btm_HandleCommand" "handler_contract nfc_HandleCommand"
  by (unfold_locales; simp add: stub_commands fits_no_answer)+

end
