(* ===== verification/Am.thy ===== *)
theory Am
  imports ServiceIo
begin

text \<open>
  The applet manager and its neighbours: \<^verbatim>\<open>src/src/services/Am.cpp\<close>.

  The sub-objects are numbered like the other service objects. Their handlers work on \<open>am\<close>: the IPC manager
  (sub-objects get anonymous sessions), the kernel's handle table (\<open>GetEventHandle\<close> creates an event) and
  the message counter, which is per host thread in the code; the model follows one thread.
  \<open>AmProxyService\<close> has its sub-objects as members: \<open>proxy_window\<close> and \<open>proxy_common\<close> are separate heap
  objects, the others are parts of the proxy.
\<close>

section \<open>Objects and state\<close>

definition g_am_service :: svc where "g_am_service = 20"
definition s_proxy :: svc where "s_proxy = 21"
definition am_window_controller :: svc where "am_window_controller = 22"
definition am_common_state_getter :: svc where "am_common_state_getter = 23"
definition proxy_common :: svc where "proxy_common = 24"
definition proxy_window :: svc where "proxy_window = 25"
definition proxy_self :: svc where "proxy_self = 26"
definition proxy_audio :: svc where "proxy_audio = 27"
definition proxy_display :: svc where "proxy_display = 28"
definition proxy_debug :: svc where "proxy_debug = 29"
definition proxy_libapplet :: svc where "proxy_libapplet = 30"
definition proxy_functions :: svc where "proxy_functions = 31"
definition g_applet_service :: svc where "g_applet_service = 32"
definition g_ns_service :: svc where "g_ns_service = 33"
definition g_ldr_service :: svc where "g_ldr_service = 34"

lemmas am_ids = g_am_service_def s_proxy_def am_window_controller_def am_common_state_getter_def proxy_common_def
  proxy_window_def proxy_self_def proxy_audio_def proxy_display_def proxy_debug_def proxy_libapplet_def
  proxy_functions_def g_applet_service_def g_ns_service_def g_ldr_service_def

record am =
  am_ipc :: ipc
  am_handles :: handle_table
  am_msg_count :: nat

text \<open>What the static constructors of the file register.\<close>

definition am_static_init :: "ipc \<Rightarrow> ipc" where
  "am_static_init ip =
     RegisterService ''ldr:pm'' (Some g_ldr_service) (RegisterService ''ldr:'' (Some g_ldr_service)
     (RegisterService ''ns:am2'' (Some g_ns_service) (RegisterService ''ns:dev'' (Some g_ns_service)
     (RegisterService ''ns:'' (Some g_ns_service) (RegisterService ''applet'' (Some g_applet_service)
     (RegisterService ''appletAE:'' (Some g_am_service) (RegisterService ''appletOE:'' (Some g_am_service) ip)))))))"

section \<open>Leaf objects\<close>

definition window_HandleCommand :: "am handler" where
  "window_HandleCommand cmd inp in_sz out m =
     (if cmd = 0 then answer (le_bytes 8 (1 :: u64)) out m
      else if cmd = 1 \<or> cmd = 2 then no_answer out m
      else if cmd = 10 then answer (le_bytes 4 (0 :: u32)) out m
      else if cmd = 20 then answer (le_bytes 8 (1 :: u64)) out m
      else if cmd = 21 then answer (le_bytes 8 (2 :: u64)) out m
      else if cmd = 30 then answer (le_bytes 8 (0x02000000 :: u64)) out m
      else no_answer out m)"

text \<open>The event is created, and signalled, whether or not its handle fits into the answer.\<close>

definition HandleGetEventHandle :: "u8 list \<Rightarrow> am \<Rightarrow> am outcome" where
  "HandleGetEventHandle out m =
     (let (h, t) = ht_Create (am_handles m) (KEvent_Signal (KEvent False))
      in answer (le_bytes 4 h) out (m\<lparr>am_handles := t\<rparr>))"

definition HandleReceiveMessage :: "u8 list \<Rightarrow> am \<Rightarrow> am outcome" where
  "HandleReceiveMessage out m =
     (let msg = (if am_msg_count m = 0 then 0xF else 0x10 :: u32)
      in answer (le_bytes 4 msg) out (m\<lparr>am_msg_count := am_msg_count m + 1\<rparr>))"

definition common_HandleCommand :: "am handler" where
  "common_HandleCommand cmd inp in_sz out m =
     (if cmd = 0 then HandleGetEventHandle out m
      else if cmd = 1 then HandleReceiveMessage out m
      else if cmd = 5 \<or> cmd = 6 then answer_at [(0, [1])] 4 out m
      else if cmd = 7 then answer [1] out m
      else if cmd = 9 \<or> cmd = 10 then no_answer out m
      else if cmd = 11 then answer (le_bytes 4 (1280 :: u32) @ le_bytes 4 (720 :: u32)) out m
      else no_answer out m)"

definition self_HandleCommand :: "am handler" where
  "self_HandleCommand cmd inp in_sz out m =
     (if cmd = 0 then answer (le_bytes 8 (1 :: u64)) out m else no_answer out m)"

definition audio_ctl_HandleCommand :: "am handler" where
  "audio_ctl_HandleCommand cmd inp in_sz out m = no_answer out m"

definition display_ctl_HandleCommand :: "am handler" where
  "display_ctl_HandleCommand cmd inp in_sz out m = no_answer out m"

definition debug_ctl_HandleCommand :: "am handler" where
  "debug_ctl_HandleCommand cmd inp in_sz out m = no_answer out m"

definition libapplet_HandleCommand :: "am handler" where
  "libapplet_HandleCommand cmd inp in_sz out m = no_answer out m"

definition functions_HandleCommand :: "am handler" where
  "functions_HandleCommand cmd inp in_sz out m =
     (if cmd = 0 \<or> cmd = 1 then no_answer out m
      else if cmd = 2 then answer (replicate 0x10 0) out m
      else no_answer out m)"

section \<open>Proxies\<close>

definition proxy_sub :: "u32 \<Rightarrow> svc option" where
  "proxy_sub cmd =
     (if cmd = 0 then Some proxy_common
      else if cmd = 1 then Some proxy_self
      else if cmd = 2 then Some proxy_window
      else if cmd = 3 then Some proxy_audio
      else if cmd = 4 then Some proxy_display
      else if cmd = 11 then Some proxy_libapplet
      else if cmd = 20 then Some proxy_functions
      else if cmd = 1000 then Some proxy_debug
      else None)"

text \<open>A session for object \<open>p\<close>, if its number fits into the answer.\<close>

definition sub_session :: "svc \<Rightarrow> u8 list \<Rightarrow> am \<Rightarrow> am outcome" where
  "sub_session p out m =
     (if length out \<ge> 4 then
        let (sid, st) = CreateSession (Some p) (am_ipc m)
        in answer (le_bytes 4 sid) out (m\<lparr>am_ipc := st\<rparr>)
      else Inr (True, out, length out, m))"

definition proxy_HandleCommand :: "am handler" where
  "proxy_HandleCommand cmd inp in_sz out m =
     (case proxy_sub cmd of None \<Rightarrow> no_answer out m | Some p \<Rightarrow> sub_session p out m)"

text \<open>\<open>OpenSystemApplet\<close> and \<open>GetAppletResource\<close> create the session first and look at the buffer afterwards.\<close>

definition am_open_sub :: "svc \<Rightarrow> u8 list \<Rightarrow> am \<Rightarrow> am outcome" where
  "am_open_sub p out m =
     (let (sid, st) = CreateSession (Some p) (am_ipc m)
      in answer (le_bytes 4 sid) out (m\<lparr>am_ipc := st\<rparr>))"

definition am_HandleCommand :: "am handler" where
  "am_HandleCommand cmd inp in_sz out m =
     (if cmd = 0 then sub_session s_proxy out m
      else if cmd = 1 then no_answer out m
      else if cmd = 10 then am_open_sub am_window_controller out m
      else if cmd = 15 then no_answer out m
      else if cmd = 40 then am_open_sub am_common_state_getter out m
      else if cmd = 100 then answer_at [(0, [2])] 4 out m
      else if cmd = 200 then answer (2 # replicate 0x3F 0) out m
      else if cmd = 7 \<or> cmd = 26 then no_answer out m
      else if cmd = 11 then answer (1 # replicate 15 0) out m
      else if cmd = 160 then answer (le_bytes 8 (0x02000000 :: u64)) out m
      else no_answer out m)"

section \<open>Neighbours\<close>

definition HandleAppControlData :: "u8 list \<Rightarrow> am \<Rightarrow> am outcome" where
  "HandleAppControlData out m =
     answer_at [(0, replicate 0x4000 0), (0x208, chars 8 ''M1Switch'')] 0x4000 out m"

definition ns_HandleCommand :: "am handler" where
  "ns_HandleCommand cmd inp in_sz out m =
     (if cmd = 4 then HandleAppControlData out m
      else if cmd = 5 then answer (1 # replicate 7 0) out m
      else no_answer out m)"

definition ldr_HandleCommand :: "am handler" where
  "ldr_HandleCommand cmd inp in_sz out m =
     (if cmd = 7 then answer (replicate 0x20 0) out m else no_answer out m)"

definition applet_HandleCommand :: "am handler" where
  "applet_HandleCommand cmd inp in_sz out m =
     (if cmd = 2 then answer (replicate 0x10 0) out m
      else if cmd = 10 \<or> cmd = 50 then answer (le_bytes 8 (0x100000 :: u64)) out m
      else if cmd = 11 then answer (1 # replicate 15 0) out m
      else no_answer out m)"

text \<open>The virtual methods of the objects of this file (\<open>None\<close>: another file's object).\<close>

definition am_object :: "svc \<Rightarrow> (string \<times> am handler) option" where
  "am_object p =
     (if p = g_am_service then Some (''appletOE:'', am_HandleCommand)
      else if p = s_proxy then Some (''appletProxy'', proxy_HandleCommand)
      else if p = am_window_controller \<or> p = proxy_window then Some (''IWindowController'', window_HandleCommand)
      else if p = am_common_state_getter \<or> p = proxy_common then Some (''ICommonStateGetter'', common_HandleCommand)
      else if p = proxy_self then Some (''SelfController'', self_HandleCommand)
      else if p = proxy_audio then Some (''AudioController'', audio_ctl_HandleCommand)
      else if p = proxy_display then Some (''DisplayController'', display_ctl_HandleCommand)
      else if p = proxy_debug then Some (''DebugFunctions'', debug_ctl_HandleCommand)
      else if p = proxy_libapplet then Some (''LibraryAppletCreator'', libapplet_HandleCommand)
      else if p = proxy_functions then Some (''IFunctions'', functions_HandleCommand)
      else if p = g_applet_service then Some (''applet'', applet_HandleCommand)
      else if p = g_ns_service then Some (''ns:'', ns_HandleCommand)
      else if p = g_ldr_service then Some (''ldr:'', ldr_HandleCommand)
      else None)"

section \<open>Contracts\<close>

lemmas am_leaf_commands = window_HandleCommand_def common_HandleCommand_def self_HandleCommand_def
  audio_ctl_HandleCommand_def display_ctl_HandleCommand_def debug_ctl_HandleCommand_def libapplet_HandleCommand_def
  functions_HandleCommand_def ns_HandleCommand_def ldr_HandleCommand_def applet_HandleCommand_def
  HandleGetEventHandle_def HandleReceiveMessage_def HandleAppControlData_def

lemmas am_session_commands = am_HandleCommand_def proxy_HandleCommand_def sub_session_def am_open_sub_def

lemma am_object_fits:
  assumes "am_object p = Some (name, h)"
  shows "handler_contract h"
proof
  fix out cmd inp in_sz m
  have "fits out (answer_at [(0, [b])] 4 out m')" "fits out (HandleAppControlData out m')" for b m'
    unfolding HandleAppControlData_def by (intro fits_answer_at; simp add: chars_def)+
  then have "fits out (am_HandleCommand cmd inp in_sz out m)" "fits out (proxy_HandleCommand cmd inp in_sz out m)"
    "fits out (window_HandleCommand cmd inp in_sz out m)" "fits out (common_HandleCommand cmd inp in_sz out m)"
    "fits out (self_HandleCommand cmd inp in_sz out m)" "fits out (audio_ctl_HandleCommand cmd inp in_sz out m)"
    "fits out (display_ctl_HandleCommand cmd inp in_sz out m)" "fits out (debug_ctl_HandleCommand cmd inp in_sz out m)"
    "fits out (libapplet_HandleCommand cmd inp in_sz out m)" "fits out (functions_HandleCommand cmd inp in_sz out m)"
    "fits out (ns_HandleCommand cmd inp in_sz out m)" "fits out (ldr_HandleCommand cmd inp in_sz out m)"
    "fits out (applet_HandleCommand cmd inp in_sz out m)"
    unfolding am_session_commands am_leaf_commands by (intro fits_intros; simp add: chars_def)+
  then show "fits out (h cmd inp in_sz out m)"
    using assms by (auto simp: am_object_def split: if_splits)
qed

text \<open>
  How the manager and the handle table may change: not at all, by one new session, or by one new
  handle.
\<close>

definition am_change :: "am \<Rightarrow> am \<Rightarrow> bool" where
  "am_change m m' \<longleftrightarrow>
     (am_ipc m' = am_ipc m \<or> (\<exists>p. am_ipc m' = snd (CreateSession (Some p) (am_ipc m))))
     \<and> (am_handles m' = am_handles m \<or> (\<exists>ob. am_handles m' = snd (ht_Create (am_handles m) ob)))"

lemma am_change_refl: "am_change m m" "am_change m (m\<lparr>am_msg_count := n\<rparr>)"
  by (simp_all add: am_change_def)

lemma am_change_session: "CreateSession (Some p) (am_ipc m) = (sid, st) \<Longrightarrow> am_change m (m\<lparr>am_ipc := st\<rparr>)"
  by (auto simp: am_change_def intro!: exI [of _ p])

lemma am_change_handle: "ht_Create (am_handles m) ob = (h, t) \<Longrightarrow> am_change m (m\<lparr>am_handles := t\<rparr>)"
  by (auto simp: am_change_def intro!: exI [of _ ob])

lemma am_object_post:
  assumes "am_object p = Some (name, h)"
  shows "post (am_change m) (h cmd inp in_sz out m)"
proof -
  have "post (am_change m) (am_HandleCommand cmd inp in_sz out m)" "post (am_change m) (proxy_HandleCommand cmd inp in_sz out m)"
    "post (am_change m) (window_HandleCommand cmd inp in_sz out m)" "post (am_change m) (common_HandleCommand cmd inp in_sz out m)"
    "post (am_change m) (self_HandleCommand cmd inp in_sz out m)" "post (am_change m) (audio_ctl_HandleCommand cmd inp in_sz out m)"
    "post (am_change m) (display_ctl_HandleCommand cmd inp in_sz out m)" "post (am_change m) (debug_ctl_HandleCommand cmd inp in_sz out m)"
    "post (am_change m) (libapplet_HandleCommand cmd inp in_sz out m)" "post (am_change m) (functions_HandleCommand cmd inp in_sz out m)"
    "post (am_change m) (ns_HandleCommand cmd inp in_sz out m)" "post (am_change m) (ldr_HandleCommand cmd inp in_sz out m)"
    "post (am_change m) (applet_HandleCommand cmd inp in_sz out m)"
    unfolding am_session_commands am_leaf_commands
    by (intro post_intros am_change_refl; erule am_change_session am_change_handle)+
  then show ?thesis
    using assms by (auto simp: am_object_def split: if_splits)
qed

section \<open>Properties\<close>

text \<open>
  The applet proxy is one object for all clients, but every session created for it owns it. After
  two \<open>GetAppletProxy\<close> requests the sessions are different; closing the first deletes the proxy, so that the
  next request on the second goes to a deleted object, and closing the second deletes it again.
\<close>

theorem applet_proxy_dangles:
  assumes "ipc_inv (am_ipc m)" and "ipc_room 1 (am_ipc m)" and "s_proxy \<notin> set (deleted (am_ipc m))"
    and "4 \<le> length out"
  shows "\<exists>o1 m1 o2 m2 a b st. am_HandleCommand 0 inp in_sz out m = Inr (True, o1, 4, m1)
    \<and> am_HandleCommand 0 inp in_sz out m1 = Inr (True, o2, 4, m2)
    \<and> take 4 o1 = le_bytes 4 a \<and> take 4 o2 = le_bytes 4 b \<and> a \<noteq> (b :: u32)
    \<and> CloseSession a (am_ipc m2) = Inr st \<and> target_service b 0 st = Some s_proxy
    \<and> s_proxy \<in> set (deleted st) \<and> CloseSession b st = Inl DoubleFree"
proof -
  obtain a st1 where c1: "CreateSession (Some s_proxy) (am_ipc m) = (a, st1)"
    by fastforce
  obtain b st2 where c2: "CreateSession (Some s_proxy) st1 = (b, st2)"
    by fastforce
  have run: "am_HandleCommand 0 inp in_sz out m = Inr (True, put_bytes out 0 (le_bytes 4 a), 4, m\<lparr>am_ipc := st1\<rparr>)"
    "am_HandleCommand 0 inp in_sz out (m\<lparr>am_ipc := st1\<rparr>) = Inr (True, put_bytes out 0 (le_bytes 4 b), 4, m\<lparr>am_ipc := st2\<rparr>)"
    using assms(4) c1 c2 by (simp_all add: am_HandleCommand_def sub_session_def answer_def)
  have "take 4 (put_bytes out 0 (le_bytes 4 w)) = le_bytes 4 w" for w :: u32
    using assms(4) by (simp add: put_prefix)
  with run owned_twice [OF assms(1-3) c1 c2] show ?thesis
    by fastforce
qed

theorem applet_proxy_dangles_witness:
  "\<exists>st. CloseSession 0x1001 st = Inl DoubleFree \<and> s_proxy \<in> set (deleted st)"
proof -
  let ?m = "\<lparr>am_ipc = am_static_init ipc_init, am_handles = handle_table_init, am_msg_count = 0\<rparr>"
  have i: "ipc_inv (am_ipc ?m)" "ipc_room 1 (am_ipc ?m)" "s_proxy \<notin> set (deleted (am_ipc ?m))"
    "next_session (am_ipc ?m) = 0x1000"
    by (simp_all add: am_static_init_def RegisterService_def ipc_inv_def ipc_init_def ipc_room_def)
  obtain o1 m1 o2 m2 a b st where r: "am_HandleCommand 0 [] 0 [0, 0, 0, 0] ?m = Inr (True, o1, 4, m1)"
    "am_HandleCommand 0 [] 0 [0, 0, 0, 0] m1 = Inr (True, o2, 4, m2)" "take 4 o2 = le_bytes 4 (b :: u32)"
    "s_proxy \<in> set (deleted st)" "CloseSession b st = Inl DoubleFree"
    using applet_proxy_dangles [OF i(1-3), of "[0, 0, 0, 0]" "[]" 0] by auto
  have "am_ipc m1 = snd (CreateSession (Some s_proxy) (am_ipc ?m))"
    using r(1) by (auto simp: am_HandleCommand_def sub_session_def answer_def split_beta)
  then have "next_session (am_ipc m1) = 0x1001"
    using i(4) by (simp add: CreateSession_def Let_def)
  then have "take 4 o2 = le_bytes 4 (0x1001 :: u32)"
    using r(2) by (auto simp: am_HandleCommand_def sub_session_def answer_def CreateSession_def Let_def put_bytes_def)
  then have "of_le_bytes (le_bytes 4 b) = (0x1001 :: u32)"
    using r(3) by (metis of_le_bytes_u32)
  then show ?thesis
    using r(4,5) by auto
qed
end
