(* ===== verification/Hid.thy ===== *)
theory Hid
  imports ServiceIo
begin

unbundle bit_operations_syntax

text \<open>
  The input service: \<^verbatim>\<open>src/src/services/Hid.cpp\<close>. \<open>hid\<close> holds the file's static variables, the guest
  memory, the IPC manager and the handle table. The input devices (\<open>Input_Poll\<close> and
  \<open>Input_WriteToHidSharedMemory\<close>, platform code) are the parameter \<open>input\<close>: what they do to the host image,
  given the host address and the size of the shared memory; they do not touch the variables of this file.

  A new \<open>HidAppletResourceService\<close> is made for every \<open>Initialize\<close>: it gets the next number from \<open>hid_next_sub\<close> on.
  \<open>NpadState\<close> occupies \<open>0x4500\<close> bytes per controller: four 64-bit fields, then 17 entries of 24 bytes.
\<close>

section \<open>State\<close>

definition HID_NPAD_OFFSET :: u64 where "HID_NPAD_OFFSET = 0x3C00"
definition HID_SHARED_MEM :: u64 where "HID_SHARED_MEM = 0xE1000000"
definition HID_SHARED_SIZE :: u64 where "HID_SHARED_SIZE = 0x40000"
definition NPAD_STRIDE :: u64 where "NPAD_STRIDE = 0x4500"

lemmas hid_consts = HID_NPAD_OFFSET_def HID_SHARED_MEM_def HID_SHARED_SIZE_def NPAD_STRIDE_def

definition g_hid_service :: svc where "g_hid_service = 40"
definition HID_FIRST_SUB :: svc where "HID_FIRST_SUB = 1000"

record hid =
  hid_memory :: "memory option"
  hid_ipc :: ipc
  hid_handles :: handle_table
  hid_next_sub :: svc
  g_buttons :: u32
  g_lx :: u8
  g_ly :: u8
  g_rx :: u8
  g_ry :: u8

definition hid_shmem :: kobject where
  "hid_shmem = KSharedMemory 0 HID_SHARED_SIZE Perm_RW HID_SHARED_MEM"

section \<open>Controllers in shared memory\<close>

text \<open>Offsets of the fields of \<open>NpadState\<close>.\<close>

abbreviation NPAD_COUNT :: u64 where "NPAD_COUNT \<equiv> 8"
abbreviation NPAD_LAST :: u64 where "NPAD_LAST \<equiv> 0x10"
abbreviation NPAD_MAX :: u64 where "NPAD_MAX \<equiv> 0x18"
abbreviation NPAD_ENTRIES :: u64 where "NPAD_ENTRIES \<equiv> 0x20"

definition img_u64 :: "image \<Rightarrow> u64 \<Rightarrow> u64" where
  "img_u64 img a = of_le_bytes (read_image img a 8)"

definition put_u64 :: "u64 \<Rightarrow> u64 \<Rightarrow> image \<Rightarrow> image" where
  "put_u64 a w img = write_image img a (le_bytes 8 w)"

text \<open>One entry: timestamp, buttons, sticks; the padding keeps its old contents.\<close>

definition entry_bytes :: "u32 \<Rightarrow> u8 \<Rightarrow> u8 \<Rightarrow> u8 \<Rightarrow> u8 \<Rightarrow> u8 list" where
  "entry_bytes buttons lx ly rx ry = le_bytes 8 (0 :: u64) @ le_bytes 4 buttons @ [lx, ly, rx, ry]"

definition entry_addr :: "u64 \<Rightarrow> u64 \<Rightarrow> u64" where
  "entry_addr npad i = npad + NPAD_ENTRIES + i * 24"

definition npad_base :: "u64 \<Rightarrow> u64 \<Rightarrow> u64" where
  "npad_base base idx = base + HID_NPAD_OFFSET + idx * NPAD_STRIDE"

definition InitNpadState :: "u64 \<Rightarrow> u64 \<Rightarrow> image \<Rightarrow> image" where
  "InitNpadState base idx img =
     (let n = npad_base base idx;
          img1 = put_u64 (n + NPAD_LAST) 0 (put_u64 (n + NPAD_COUNT) 1 (put_u64 (n + NPAD_MAX) 17 (put_u64 n 0 img)))
      in fold (\<lambda>i im. write_image im (entry_addr n (of_nat i)) (entry_bytes 0 128 128 128 128)) [0..<17] img1)"

definition update_npad :: "hid \<Rightarrow> u64 \<Rightarrow> u64 \<Rightarrow> image \<Rightarrow> image" where
  "update_npad h base idx img =
     (let n = npad_base base idx;
          e = img_u64 img (n + NPAD_LAST) mod 17;
          img1 = put_u64 (n + NPAD_LAST) e (put_u64 n 0 img);
          img2 = put_u64 (n + NPAD_COUNT) (min (img_u64 img1 (n + NPAD_COUNT) + 1) 17) img1
      in write_image img2 (entry_addr n e) (entry_bytes (g_buttons h) (g_lx h) (g_ly h) (g_rx h) (g_ry h)))"

text \<open>
  Player 1 and the handheld controller; both lie inside the shared memory, so the range check never
  skips one.
\<close>

definition npad_fits :: "u64 \<Rightarrow> bool" where
  "npad_fits idx \<longleftrightarrow> \<not> (HID_NPAD_OFFSET + idx * NPAD_STRIDE + NPAD_STRIDE > HID_SHARED_SIZE)"

definition UpdateSharedMemory :: "(u64 \<Rightarrow> u64 \<Rightarrow> image \<Rightarrow> image) \<Rightarrow> hid \<Rightarrow> hid" where
  "UpdateSharedMemory input h =
     (case hid_memory h of
        None \<Rightarrow> h
      | Some m \<Rightarrow>
          (case Pointer m HID_SHARED_MEM of
             None \<Rightarrow> h
           | Some base \<Rightarrow>
               h\<lparr>hid_memory := Some (m\<lparr>image :=
                  fold (\<lambda>idx img. if npad_fits idx then update_npad h base idx img else img) [0, 8]
                    (input base HID_SHARED_SIZE (image m))\<rparr>)\<rparr>))"

section \<open>Commands\<close>

definition HandleInitialize :: "u8 list \<Rightarrow> hid \<Rightarrow> hid outcome" where
  "HandleInitialize out h =
     (let (sid, st) = CreateSession (Some (hid_next_sub h)) (hid_ipc h)
      in answer (le_bytes 4 sid) out (h\<lparr>hid_next_sub := hid_next_sub h + 1, hid_ipc := st\<rparr>))"

definition HandleGetSharedMemory :: "(u64 \<Rightarrow> u64 \<Rightarrow> image \<Rightarrow> image) \<Rightarrow> u8 list \<Rightarrow> hid \<Rightarrow> hid outcome" where
  "HandleGetSharedMemory input out h =
     answer (le_bytes 8 HID_SHARED_MEM @ replicate 8 0) out (UpdateSharedMemory input h)"

definition activate :: "u64 \<Rightarrow> hid \<Rightarrow> hid" where
  "activate id_mask h =
     (case hid_memory h of
        None \<Rightarrow> h
      | Some m \<Rightarrow>
          (case Pointer m HID_SHARED_MEM of
             None \<Rightarrow> h
           | Some base \<Rightarrow>
               h\<lparr>hid_memory := Some (m\<lparr>image :=
                  fold (\<lambda>i img. if id_mask AND push_bit i 1 \<noteq> 0 then InitNpadState base (of_nat i) img else img) [0..<8]
                    (image m)\<rparr>)\<rparr>))"

definition HandleActivateNpad :: "u8 list \<Rightarrow> nat \<Rightarrow> u8 list \<Rightarrow> hid \<Rightarrow> hid outcome" where
  "HandleActivateNpad inp in_sz out h =
     bind_sum (arg_u64 8 0 0x1F inp in_sz) (\<lambda>id_mask. no_answer out (activate id_mask h))"

text \<open>Id and mode are only logged.\<close>

definition HandleSetNpadMode :: "u8 list \<Rightarrow> nat \<Rightarrow> u8 list \<Rightarrow> hid \<Rightarrow> hid outcome" where
  "HandleSetNpadMode inp in_sz out h =
     bind_sum (arg_u64 8 0 0x20 inp in_sz) (\<lambda>npad_id.
     bind_sum (arg_u32 16 12 0 inp in_sz) (\<lambda>mode. no_answer out h))"

definition HandleGetNpadState :: "(u64 \<Rightarrow> u64 \<Rightarrow> image \<Rightarrow> image) \<Rightarrow> u8 list \<Rightarrow> nat \<Rightarrow> u8 list \<Rightarrow> hid \<Rightarrow> hid outcome" where
  "HandleGetNpadState input inp in_sz out h =
     (let h1 = UpdateSharedMemory input h
      in bind_sum (arg_u64 8 0 0x20 inp in_sz) (\<lambda>npad_id.
           answer_at [(0, le_bytes 4 (g_buttons h1)), (4, [g_lx h1, g_ly h1, g_rx h1, g_ry h1])] 16 out h1))"

definition HandleGetVibrationDeviceInfo :: "u8 list \<Rightarrow> hid \<Rightarrow> hid outcome" where
  "HandleGetVibrationDeviceInfo out h = answer (replicate 8 0) out h"

definition HandleCreateAppletResource :: "u8 list \<Rightarrow> hid \<Rightarrow> hid outcome" where
  "HandleCreateAppletResource out h = answer (le_bytes 4 (0x02000000 :: u32)) out h"

text \<open>
  Deactivating, the touch screen, vibration, the joy-con modes and unknown commands answer nothing.
\<close>

definition hid_HandleCommand :: "(u64 \<Rightarrow> u64 \<Rightarrow> image \<Rightarrow> image) \<Rightarrow> hid handler" where
  "hid_HandleCommand input cmd inp in_sz out h =
     (if cmd = 0 then HandleInitialize out h
      else if cmd = 1 then HandleGetSharedMemory input out h
      else if cmd = 2 then HandleActivateNpad inp in_sz out h
      else if cmd = 5 then HandleSetNpadMode inp in_sz out h
      else if cmd = 10 then HandleGetNpadState input inp in_sz out h
      else if cmd = 11 then HandleGetVibrationDeviceInfo out h
      else if cmd = 100 then HandleCreateAppletResource out h
      else no_answer out h)"

text \<open>The sub-session: every request creates another handle for the shared memory object.\<close>

definition applet_resource_HandleCommand :: "hid handler" where
  "applet_resource_HandleCommand cmd inp in_sz out h =
     (if cmd = 0 then
        let (k, t) = ht_Create (hid_handles h) hid_shmem
        in answer (le_bytes 4 k) out (h\<lparr>hid_handles := t\<rparr>)
      else no_answer out h)"

section \<open>Start-up and the input thread\<close>

definition map_shared :: "host_vm \<Rightarrow> memory \<Rightarrow> memory" where
  "map_shared host m =
     memset_guest (snd (MapPhysical host m HID_SHARED_MEM HID_SHARED_SIZE Perm_RW None)) HID_SHARED_MEM 0 HID_SHARED_SIZE"

text \<open>The constructor of the static object (guest memory is not yet known while it runs).\<close>

definition hid_construct :: "host_vm \<Rightarrow> hid \<Rightarrow> hid" where
  "hid_construct host h =
     h\<lparr>hid_ipc := RegisterService ''hidbus:'' (Some g_hid_service) (RegisterService ''hid:'' (Some g_hid_service) (hid_ipc h)),
       hid_memory := map_option (map_shared host) (hid_memory h),
       hid_handles := snd (ht_Create (hid_handles h) hid_shmem)\<rparr>"

definition ServiceHid_Init :: "host_vm \<Rightarrow> memory option \<Rightarrow> memory option" where
  "ServiceHid_Init host mem = map_option (map_shared host) mem"

definition Hid_SetButtonState :: "u32 \<Rightarrow> hid \<Rightarrow> hid" where
  "Hid_SetButtonState buttons h = h\<lparr>g_buttons := buttons\<rparr>"

definition Hid_SetStickState :: "u8 \<Rightarrow> u8 \<Rightarrow> u8 \<Rightarrow> u8 \<Rightarrow> hid \<Rightarrow> hid" where
  "Hid_SetStickState lx ly rx ry h = h\<lparr>g_lx := lx, g_ly := ly, g_rx := rx, g_ry := ry\<rparr>"

section \<open>Contracts\<close>

lemma hid_fits: "fits out (hid_HandleCommand input cmd inp in_sz out h)"
proof -
  have state: "fits out (HandleGetNpadState input inp in_sz out h)"
    unfolding HandleGetNpadState_def by (intro fits_intros) simp
  show ?thesis
    unfolding hid_HandleCommand_def HandleInitialize_def HandleGetSharedMemory_def HandleActivateNpad_def
      HandleSetNpadMode_def HandleGetVibrationDeviceInfo_def HandleCreateAppletResource_def
    by (intro fits_intros state)
qed

interpretation hid: handler_contract "hid_HandleCommand input"
  by unfold_locales (rule hid_fits)

interpretation applet_resource: handler_contract applet_resource_HandleCommand
  by unfold_locales (unfold applet_resource_HandleCommand_def, intro fits_intros)

section \<open>What the game reads\<close>

text \<open>Reads and writes at offsets from one address do not meet when the offsets are apart.\<close>

definition off :: "u64 \<Rightarrow> nat \<Rightarrow> u64" where
  "off n p = n + of_nat p"

lemma read_write_apart:
  assumes "q + k \<le> p \<or> p + length bs \<le> q" "p + length bs < 2 ^ 64" "q + k \<le> 2 ^ 64"
  shows "read_image (write_image img (off n p) bs) (off n q) k = read_image img (off n q) k"
  unfolding off_def
proof (rule read_write_image_other)
  fix i assume "i < k"
  show "length bs \<le> unat (n + of_nat q + of_nat i - (n + of_nat p))"
  proof (cases "p \<le> q + i")
    case True
    then have "n + of_nat q + of_nat i - (n + of_nat p) = of_nat (q + i - p)"
      by simp
    moreover have "unat (of_nat (q + i - p) :: u64) = q + i - p"
      using assms \<open>i < k\<close> by (simp only: unsigned_of_nat) (simp add: take_bit_nat_eq_self)
    ultimately show ?thesis
      using True assms \<open>i < k\<close> by (simp only:) arith
  next
    case False
    then have "of_nat (2 ^ 64 + q + i - p) = (of_nat (2 ^ 64) + of_nat q + of_nat i - of_nat p :: u64)"
      using assms by (subst of_nat_diff) (auto simp only: of_nat_add)
    then have "n + of_nat q + of_nat i - (n + of_nat p) = of_nat (2 ^ 64 + q + i - p)"
      by simp
    moreover have "unat (of_nat (2 ^ 64 + q + i - p) :: u64) = 2 ^ 64 + q + i - p"
      using False by (simp only: unsigned_of_nat) (simp add: take_bit_nat_eq_self)
    ultimately show ?thesis
      using False assms \<open>i < k\<close> by (simp only:)
  qed
qed

lemma read_write_here:
  "k = length bs \<Longrightarrow> length bs \<le> 2 ^ 64 \<Longrightarrow> read_image (write_image img a bs) a k = bs"
  by (simp add: read_write_image_same)

text \<open>The four writes of \<open>update_npad\<close> as offsets from the controller's block, and what a reader then finds.\<close>

lemma update_npad_writes:
  "update_npad h base idx img =
     (let n = npad_base base idx; e = img_u64 img (off n 16) mod 17;
          img1 = write_image (write_image img (off n 0) (le_bytes 8 (0 :: u64))) (off n 16) (le_bytes 8 e)
      in write_image (write_image img1 (off n 8) (le_bytes 8 (min (img_u64 img1 (off n 8) + 1) 17)))
           (off n (32 + 24 * unat e)) (entry_bytes (g_buttons h) (g_lx h) (g_ly h) (g_rx h) (g_ry h)))"
  by (simp add: update_npad_def put_u64_def entry_addr_def Let_def off_def algebra_simps)

lemma length_entry_bytes [simp]: "length (entry_bytes b lx ly rx ry) = 16"
  by (simp add: entry_bytes_def)

lemma index_small: "unat ((w :: u64) mod 17) < 17"
  by (simp add: unat_mod)

lemma update_npad_frame_at:
  fixes q :: nat and img :: image and base idx :: u64
  defines "e \<equiv> unat (img_u64 img (off (npad_base base idx) 16) mod 17)"
  assumes "24 \<le> q" "q + k \<le> 32 + 24 * e \<or> 48 + 24 * e \<le> q" "q + k \<le> 2 ^ 64"
  shows "read_image (update_npad h base idx img) (off (npad_base base idx) q) k = read_image img (off (npad_base base idx) q) k"
proof -
  have "e < 17"
    unfolding e_def by (rule index_small)
  with assms(2-) show ?thesis
    by (auto simp add: update_npad_writes Let_def read_write_apart simp flip: e_def)
qed

lemma update_npad_frame:
  fixes q :: nat
  assumes "440 \<le> q" "q + k \<le> 2 ^ 64"
  shows "read_image (update_npad h base idx img) (off (npad_base base idx) q) k = read_image img (off (npad_base base idx) q) k"
  by (rule update_npad_frame_at) (use assms index_small [of "img_u64 img (off (npad_base base idx) 16)"] in auto)

lemma update_npad_read:
  fixes base idx :: u64 and h :: hid and img :: image
  defines "n \<equiv> npad_base base idx" and "img' \<equiv> update_npad h base idx img"
  shows "img_u64 img' (off n 0) = 0"
    and "img_u64 img' (off n 16) = img_u64 img (off n 16) mod 17"
    and "img_u64 img' (off n 8) = min (img_u64 img (off n 8) + 1) 17"
    and "read_image img' (off n (32 + 24 * unat (img_u64 img (off n 16) mod 17))) 16 =
      entry_bytes (g_buttons h) (g_lx h) (g_ly h) (g_rx h) (g_ry h)"
proof -
  let ?e = "unat (img_u64 img (off (npad_base base idx) 16) mod 17)"
  have "?e < 17"
    by (rule index_small)
  then show "img_u64 img' (off n 0) = 0" and "img_u64 img' (off n 16) = img_u64 img (off n 16) mod 17"
    and "img_u64 img' (off n 8) = min (img_u64 img (off n 8) + 1) 17"
    and "read_image img' (off n (32 + 24 * unat (img_u64 img (off n 16) mod 17))) 16 =
      entry_bytes (g_buttons h) (g_lx h) (g_ly h) (g_rx h) (g_ry h)"
    by (simp_all add: n_def img'_def update_npad_writes Let_def img_u64_def read_write_apart read_write_here)
qed

lemma off_off: "off (off n p) q = off n (p + q)"
  by (simp add: off_def)

lemma npad_8_off: "npad_base base 8 = off (npad_base base 0) 0x22800"
  by (simp add: npad_base_def off_def hid_consts)

lemma npad_0_off: "npad_base base 0 = off (npad_base base 8) (2 ^ 64 - 0x22800)"
  by (simp add: npad_base_def off_def hid_consts)

lemma entry_addr_off: "entry_addr n e = off n (32 + 24 * unat e)"
  by (simp add: entry_addr_def off_def algebra_simps)

lemmas field_offs = off_def [of n 8 for n, simplified, symmetric] off_def [of n 16 for n, simplified, symmetric] entry_addr_off

text \<open>The bytes of a block that an update may write: its first three fields and 16 bytes of the latest entry.\<close>

definition npad_written :: "image \<Rightarrow> u64 \<Rightarrow> u64 \<Rightarrow> bool" where
  "npad_written img n x \<longleftrightarrow>
     (let q = unat (x - n); e = unat (img_u64 img (n + NPAD_LAST) mod 17)
      in q < 24 \<or> 32 + 24 * e \<le> q \<and> q < 48 + 24 * e)"

lemma update_npad_other_byte:
  assumes "\<not> npad_written img (npad_base base idx) x"
  shows "update_npad h base idx img x = img x"
proof -
  let ?q = "unat (x - npad_base base idx)" and ?e = "unat (img_u64 img (off (npad_base base idx) 16) mod 17)"
  have "24 \<le> ?q" "?q + 1 \<le> 32 + 24 * ?e \<or> 48 + 24 * ?e \<le> ?q"
    using assms by (auto simp: npad_written_def field_offs Let_def)
  moreover have "?q + 1 \<le> 2 ^ 64"
    using unsigned_less [where 'a = nat, of "x - npad_base base idx"] by simp
  ultimately have "read_image (update_npad h base idx img) (off (npad_base base idx) ?q) 1 = read_image img (off (npad_base base idx) ?q) 1"
    by (rule update_npad_frame_at)
  then show ?thesis
    by (simp add: off_def read_image_def)
qed

lemma npads_fit: "npad_fits 0" "npad_fits 8"
  by (simp_all add: npad_fits_def hid_consts)

text \<open>What a controller's block says: latest index, number of entries, and the first 16 bytes of the latest entry.\<close>

definition npad_view :: "image \<Rightarrow> u64 \<Rightarrow> u64 \<times> u64 \<times> u8 list" where
  "npad_view img n =
     (let e = img_u64 img (n + NPAD_LAST) in (e, img_u64 img (n + NPAD_COUNT), read_image img (entry_addr n e) 16))"

lemma npad_view_update:
  "npad_view (update_npad h base idx img) (npad_base base idx) =
     (img_u64 img (npad_base base idx + NPAD_LAST) mod 17, min (img_u64 img (npad_base base idx + NPAD_COUNT) + 1) 17,
      entry_bytes (g_buttons h) (g_lx h) (g_ly h) (g_rx h) (g_ry h))"
  by (simp add: npad_view_def field_offs update_npad_read Let_def)

lemma other_npad:
  fixes d :: nat
  assumes "npad_base base j = off (npad_base base i) d" "440 \<le> d" "d + 440 < 2 ^ 64"
  shows "img_u64 (update_npad h base i img) (off (npad_base base j) 0) = img_u64 img (off (npad_base base j) 0)"
    and "img_u64 (update_npad h base i img) (off (npad_base base j) 16) = img_u64 img (off (npad_base base j) 16)"
    and "img_u64 (update_npad h base i img) (off (npad_base base j) 8) = img_u64 img (off (npad_base base j) 8)"
    and "e < 17 \<Longrightarrow> read_image (update_npad h base i img) (off (npad_base base j) (32 + 24 * e)) 16 =
      read_image img (off (npad_base base j) (32 + 24 * e)) 16"
  using assms by (simp_all add: off_off img_u64_def update_npad_frame)

text \<open>
  Property C30. Whatever the input devices left in the shared memory, after an update the block of player 1
  has a zero time stamp, a latest index below 17, a count of at most 17, and an entry at that index
  that holds the current buttons and sticks. Of the host image the update writes nothing but the first three fields of the block
  and the first 16 bytes of that entry, and the same of the block with number 8, which the code uses for the handheld controller: the
  maximal count, the other 16 entries, the other blocks and all other memory are as the input devices left them.
\<close>

theorem hid_publishes_state:
  assumes mem: "hid_memory h = Some m" and ptr: "Pointer m HID_SHARED_MEM = Some base"
  shows "\<exists>m'. UpdateSharedMemory input h = h\<lparr>hid_memory := Some m'\<rparr> \<and> m' = m\<lparr>image := image m'\<rparr> \<and>
    (let old = input base HID_SHARED_SIZE (image m); n = npad_base base 0
     in img_u64 (image m') n = 0 \<and>
        npad_view (image m') n =
          (img_u64 old (n + NPAD_LAST) mod 17, min (img_u64 old (n + NPAD_COUNT) + 1) 17,
           entry_bytes (g_buttons h) (g_lx h) (g_ly h) (g_rx h) (g_ry h)) \<and>
        (\<forall>x. \<not> npad_written old n x \<longrightarrow> \<not> npad_written old (npad_base base 8) x \<longrightarrow> image m' x = old x))"
proof -
  let ?old = "input base HID_SHARED_SIZE (image m)"
  let ?one = "update_npad h base 0 ?old"
  let ?img = "update_npad h base 8 ?one"
  have "UpdateSharedMemory input h = h\<lparr>hid_memory := Some (m\<lparr>image := ?img\<rparr>)\<rparr>"
    using npads_fit by (simp add: UpdateSharedMemory_def mem ptr)
  moreover have "npad_view ?img (npad_base base 0) = npad_view ?one (npad_base base 0)"
    by (simp add: npad_view_def field_offs Let_def other_npad [OF npad_0_off] update_npad_read index_small)
  moreover have "img_u64 ?img (npad_base base 0) = 0"
    using other_npad(1) [OF npad_0_off, of h base ?one] update_npad_read(1) [of h base 0 ?old] by (simp add: off_def)
  moreover have "npad_written ?one (npad_base base 8) = npad_written ?old (npad_base base 8)"
    by (simp add: fun_eq_iff npad_written_def field_offs other_npad(2) [OF npad_8_off])
  ultimately show ?thesis
    by (auto simp: npad_view_update update_npad_other_byte Let_def)
qed

definition hid_example :: hid where
  "hid_example = \<lparr>hid_memory = Some (Memory_init (\<lambda>_. 0)), hid_ipc = ipc_init, hid_handles = handle_table_init,
     hid_next_sub = HID_FIRST_SUB, g_buttons = 5, g_lx = 128, g_ly = 1, g_rx = 2, g_ry = 3\<rparr>"

theorem hid_publishes_state_witness:
  "\<exists>m'. UpdateSharedMemory (\<lambda>base sz. put_u64 (base + 0x3C10) 20) hid_example = hid_example\<lparr>hid_memory := Some m'\<rparr>
     \<and> npad_view (image m') (npad_base (base_addr (Memory_init (\<lambda>_. 0)) + HID_SHARED_MEM) 0) = (3, 1, entry_bytes 5 128 1 2 3)"
proof -
  let ?b = "base_addr (Memory_init (\<lambda>_. 0)) + HID_SHARED_MEM"
  have at: "?b + 0x3C10 = off (npad_base ?b 0) 16" "npad_base ?b 0 + NPAD_LAST = off (npad_base ?b 0) 16"
    "npad_base ?b 0 + NPAD_COUNT = off (npad_base ?b 0) 8"
    by (simp_all add: npad_base_def hid_consts off_def)
  have "Pointer (Memory_init (\<lambda>_. 0)) HID_SHARED_MEM = Some ?b"
    by (simp add: Pointer_def IsValid_def mem_consts HID_SHARED_MEM_def)
  moreover have "img_u64 (put_u64 (?b + 0x3C10) 20 img) (npad_base ?b 0 + NPAD_LAST) = 20" for img
    by (simp add: at img_u64_def put_u64_def read_write_here)
  moreover have "img_u64 (put_u64 (?b + 0x3C10) 20 (image (Memory_init (\<lambda>_. 0)))) (npad_base ?b 0 + NPAD_COUNT) = 0"
    by (simp add: at img_u64_def put_u64_def read_write_apart) (simp add: Memory_init_def read_image_def of_le_bytes_def upt_rec)
  ultimately show ?thesis
    using hid_publishes_state [of hid_example "Memory_init (\<lambda>_. 0)" ?b "\<lambda>base sz. put_u64 (base + 0x3C10) 20"]
    by (auto simp: hid_example_def Let_def)
qed

end
