(* ===== verification/ServiceBoard.thy ===== *)
theory ServiceBoard
  imports SvcHandlers Vi Nv Fs MiscServices Am Hid
begin

text \<open>
  All services of the emulator together: the static objects of \<^verbatim>\<open>src/src/services/\<close> as one table for the IPC
  manager, one state for the variables they keep, and the state the static constructors leave.

  The guest memory, the handle table and the IPC manager exist once, in \<open>sys\<close>; the services that use them see
  them through \<open>get_nv\<close>, \<open>get_am\<close> and \<open>get_hid\<close>, and what they change is stored back. \<open>host\<close> is the
  host's memory interface and \<open>input\<close> what the input devices write.
\<close>

section \<open>State\<close>

record board =
  b_vi :: vi
  b_nv :: nv
  b_fs :: fs
  b_audio :: audio
  b_spl :: spl
  b_msg_count :: nat
  b_hid :: hid

type_synonym board_sys = "board svc_world sys"

definition the_board :: "board_sys \<Rightarrow> board" where
  "the_board s = other (s_ext s)"

definition set_board :: "board \<Rightarrow> board_sys \<Rightarrow> board_sys" where
  "set_board b s = s\<lparr>s_ext := (s_ext s)\<lparr>other := b\<rparr>\<rparr>"

lemma set_board_simps [simp]:
  "s_ipc (set_board b s) = s_ipc s" "s_handles (set_board b s) = s_handles s" "s_mem (set_board b s) = s_mem s"
  "the_board (set_board b s) = b"
  by (simp_all add: set_board_def the_board_def)

definition get_vi :: "board_sys \<Rightarrow> vi" where "get_vi s = b_vi (the_board s)"
definition put_vi :: "vi \<Rightarrow> board_sys \<Rightarrow> board_sys" where "put_vi v s = set_board ((the_board s)\<lparr>b_vi := v\<rparr>) s"

definition get_nv :: "board_sys \<Rightarrow> nv" where "get_nv s = (b_nv (the_board s))\<lparr>nv_memory := s_mem s\<rparr>"
definition put_nv :: "nv \<Rightarrow> board_sys \<Rightarrow> board_sys" where
  "put_nv v s = (set_board ((the_board s)\<lparr>b_nv := v\<rparr>) s)\<lparr>s_mem := nv_memory v\<rparr>"

definition get_fs :: "board_sys \<Rightarrow> fs" where "get_fs s = b_fs (the_board s)"
definition put_fs :: "fs \<Rightarrow> board_sys \<Rightarrow> board_sys" where "put_fs v s = set_board ((the_board s)\<lparr>b_fs := v\<rparr>) s"

definition get_audio :: "board_sys \<Rightarrow> audio" where "get_audio s = b_audio (the_board s)"
definition put_audio :: "audio \<Rightarrow> board_sys \<Rightarrow> board_sys" where
  "put_audio v s = set_board ((the_board s)\<lparr>b_audio := v\<rparr>) s"

definition get_spl :: "board_sys \<Rightarrow> spl" where "get_spl s = b_spl (the_board s)"
definition put_spl :: "spl \<Rightarrow> board_sys \<Rightarrow> board_sys" where "put_spl v s = set_board ((the_board s)\<lparr>b_spl := v\<rparr>) s"

definition get_am :: "board_sys \<Rightarrow> am" where
  "get_am s = \<lparr>am_ipc = s_ipc s, am_handles = s_handles s, am_msg_count = b_msg_count (the_board s)\<rparr>"
definition put_am :: "am \<Rightarrow> board_sys \<Rightarrow> board_sys" where
  "put_am v s = (set_board ((the_board s)\<lparr>b_msg_count := am_msg_count v\<rparr>) s)\<lparr>s_ipc := am_ipc v, s_handles := am_handles v\<rparr>"

definition get_hid :: "board_sys \<Rightarrow> hid" where
  "get_hid s = (b_hid (the_board s))\<lparr>hid_memory := s_mem s, hid_ipc := s_ipc s, hid_handles := s_handles s\<rparr>"
definition put_hid :: "hid \<Rightarrow> board_sys \<Rightarrow> board_sys" where
  "put_hid v s = (set_board ((the_board s)\<lparr>b_hid := v\<rparr>) s)
     \<lparr>s_mem := hid_memory v, s_ipc := hid_ipc v, s_handles := hid_handles v\<rparr>"

section \<open>The objects\<close>

definition g_vi_service :: svc where "g_vi_service = 10"
definition g_nvdrv :: svc where "g_nvdrv = 11"
definition g_nvmap :: svc where "g_nvmap = 12"
definition g_nvgpu :: svc where "g_nvgpu = 13"
definition g_nvhost_ctrl :: svc where "g_nvhost_ctrl = 14"
definition g_fs_service :: svc where "g_fs_service = 15"
definition g_audio_out_service :: svc where "g_audio_out_service = 16"
definition g_spl_service :: svc where "g_spl_service = 17"
definition g_account_service :: svc where "g_account_service = 18"
definition g_pcv :: svc where "g_pcv = 50"
definition g_psc :: svc where "g_psc = 51"
definition g_pm :: svc where "g_pm = 52"
definition g_nifm :: svc where "g_nifm = 53"
definition g_ro :: svc where "g_ro = 54"
definition g_erpt :: svc where "g_erpt = 55"
definition g_fatal :: svc where "g_fatal = 56"
definition g_btm :: svc where "g_btm = 57"
definition g_nfc :: svc where "g_nfc = 58"

lemmas board_ids = g_vi_service_def g_nvdrv_def g_nvmap_def g_nvgpu_def g_nvhost_ctrl_def g_fs_service_def
  g_audio_out_service_def g_spl_service_def g_account_service_def g_pcv_def g_psc_def g_pm_def g_nifm_def g_ro_def
  g_erpt_def g_fatal_def g_btm_def g_nfc_def

text \<open>Name and handler of the objects of \<^verbatim>\<open>Pcv.cpp\<close>, and of all objects.\<close>

definition pcv_object :: "svc \<Rightarrow> (string \<times> 'm handler) option" where
  "pcv_object p =
     map_of [(g_pcv, (''pcv:'', pcv_HandleCommand)), (g_psc, (''psc:'', psc_HandleCommand)),
       (g_pm, (''pm:'', pm_HandleCommand)), (g_nifm, (''nifm:'', nifm_HandleCommand)), (g_ro, (''ro:'', ro_HandleCommand)),
       (g_erpt, (''erpt:'', erpt_HandleCommand)), (g_fatal, (''fatal:'', fatal_HandleCommand)),
       (g_btm, (''btm:'', btm_HandleCommand)), (g_nfc, (''nfc:'', nfc_HandleCommand))] p"

definition board_object ::
    "host_vm \<Rightarrow> (u64 \<Rightarrow> u64 \<Rightarrow> image \<Rightarrow> image) \<Rightarrow> svc \<Rightarrow> (string \<times> board_sys handler) option" where
  "board_object host input p =
     (if p = g_vi_service then Some (''vi:'', on_part get_vi put_vi vi_HandleCommand)
      else if p = g_nvdrv then Some (''nvdrv:'', on_part get_nv put_nv nvdrv_HandleCommand)
      else if p = g_nvmap then Some (''nvmap:'', on_part get_nv put_nv (nvmap_HandleCommand host))
      else if p = g_nvgpu then Some (''nvdrv#'', on_part get_nv put_nv nvgpu_HandleCommand)
      else if p = g_nvhost_ctrl then Some (''nvhost-ctrl:'', on_part get_nv put_nv ctrl_HandleCommand)
      else if p = g_fs_service then Some (''fsp-srv:'', on_part get_fs put_fs fs_HandleCommand)
      else if p = g_audio_out_service then Some (''audout:'', on_part get_audio put_audio audio_HandleCommand)
      else if p = g_spl_service then Some (''spl:'', on_part get_spl put_spl spl_HandleCommand)
      else if p = g_account_service then Some (''acc:u0'', acc_HandleCommand)
      else if p = g_hid_service then Some (''hid:'', on_part get_hid put_hid (hid_HandleCommand input))
      else if HID_FIRST_SUB \<le> p then Some (''HidAppletResource'', on_part get_hid put_hid applet_resource_HandleCommand)
      else case am_object p of
          Some (name, h) \<Rightarrow> Some (name, on_part get_am put_am h)
        | None \<Rightarrow> pcv_object p)"

definition services_table ::
    "host_vm \<Rightarrow> (u64 \<Rightarrow> u64 \<Rightarrow> image \<Rightarrow> image) \<Rightarrow> board svc_world vtable" where
  "services_table host input =
     \<lparr>svc_name = (\<lambda>p. case board_object host input p of Some (name, h) \<Rightarrow> name | None \<Rightarrow> []),
      handle_command = (\<lambda>p cmd inp in_sz out s.
        case board_object host input p of Some (name, h) \<Rightarrow> h cmd inp in_sz out s
        | None \<Rightarrow> Inr (False, out, length out, s))\<rparr>"

text \<open>The initialisers that \<open>EnsureService\<close> runs on first use: three of them map guest memory, the others only log.\<close>

definition board_init :: "host_vm \<Rightarrow> init_group \<Rightarrow> board_sys \<Rightarrow> board_sys" where
  "board_init host g s =
     (if g = GVi then let (m, v) = ServiceVi_Init host (s_mem s, get_vi s) in (put_vi v s)\<lparr>s_mem := m\<rparr>
      else if g = GNv then s\<lparr>s_mem := ServiceNv_Init host (s_mem s)\<rparr>
      else if g = GHid then s\<lparr>s_mem := ServiceHid_Init host (s_mem s)\<rparr>
      else s)"

abbreviation emulator where
  "emulator host input \<equiv> builtin (services_table host input) (board_init host)"

section \<open>The table keeps the contract of the manager\<close>

text \<open>What a command of these services may do to the manager and the handle table: add one session, add one object.\<close>

definition sys_change :: "'w sys \<Rightarrow> 'w sys \<Rightarrow> bool" where
  "sys_change s s' \<longleftrightarrow>
     (s_ipc s' = s_ipc s \<or> (\<exists>p. s_ipc s' = snd (CreateSession p (s_ipc s))))
     \<and> (s_handles s' = s_handles s \<or> (\<exists>ob. s_handles s' = snd (ht_Create (s_handles s) ob)))"

lemma sys_change_inv:
  assumes "sys_change s s'" "sys_inv s" "no_wrap s s'"
  shows "sys_inv s'"
proof -
  have "ipc_inv (s_ipc s')"
    using assms CreateSession_inv [of "s_ipc s"]
    by (auto simp: sys_change_def sys_inv_def no_wrap_def CreateSession_def Let_def)
  moreover have "ht_inv (s_handles s')"
    using assms ht_Create_no_wrap [of "s_handles s"]
    by (auto simp: sys_change_def sys_inv_def no_wrap_def ht_Create_def Let_def)
  ultimately show ?thesis
    by (simp add: sys_inv_def)
qed

lemma post_on_part:
  assumes "post Q (h cmd inp in_sz out (get s))" "\<And>m. Q m \<Longrightarrow> R (put m s)"
  shows "post R (on_part get put h cmd inp in_sz out s)"
  using assms by (auto simp: post_def on_part_def bind_sum_Inr)

lemma post_True: "post (\<lambda>_. True) r"
  by (simp add: post_def)

lemma put_quiet:
  "sys_change s (put_vi v s)" "sys_change s (put_nv n s)" "sys_change s (put_fs f s)" "sys_change s (put_audio a s)"
  "sys_change s (put_spl l s)"
  by (simp_all add: sys_change_def put_vi_def put_nv_def put_fs_def put_audio_def put_spl_def)

lemma put_am_change: "am_change (get_am s) m \<Longrightarrow> sys_change s (put_am m s)"
  by (auto simp: sys_change_def put_am_def am_change_def get_am_def)

definition hid_change :: "hid \<Rightarrow> hid \<Rightarrow> bool" where
  "hid_change h h' \<longleftrightarrow>
     (hid_ipc h' = hid_ipc h \<or> (\<exists>p. hid_ipc h' = snd (CreateSession p (hid_ipc h))))
     \<and> (hid_handles h' = hid_handles h \<or> (\<exists>ob. hid_handles h' = snd (ht_Create (hid_handles h) ob)))"

lemma put_hid_change: "hid_change (get_hid s) h \<Longrightarrow> sys_change s (put_hid h s)"
  by (auto simp: sys_change_def put_hid_def hid_change_def get_hid_def)

lemma hid_change_intros:
  "hid_change h h" "hid_change h (UpdateSharedMemory input h)" "hid_change h (activate id_mask h)"
  "CreateSession p (hid_ipc h) = (sid, st) \<Longrightarrow> hid_change h (h\<lparr>hid_next_sub := n, hid_ipc := st\<rparr>)"
  "ht_Create (hid_handles h) ob = (k, t) \<Longrightarrow> hid_change h (h\<lparr>hid_handles := t\<rparr>)"
  by (auto simp: hid_change_def UpdateSharedMemory_def activate_def split: option.split intro!: exI [of _ p] exI [of _ ob])

lemma hid_post:
  "post (hid_change h) (hid_HandleCommand input cmd inp in_sz out h)"
  "post (hid_change h) (applet_resource_HandleCommand cmd inp in_sz out h)"
  unfolding hid_HandleCommand_def HandleInitialize_def HandleGetSharedMemory_def HandleActivateNpad_def
    HandleSetNpadMode_def HandleGetNpadState_def HandleGetVibrationDeviceInfo_def HandleCreateAppletResource_def
    applet_resource_HandleCommand_def
  by (intro post_intros; (rule hid_change_intros; assumption?))+

lemma pcv_object_handler:
  assumes "pcv_object p = Some (name, h)"
  shows "h cmd inp in_sz out s = no_answer out s"
  using assms by (auto simp: pcv_object_def stub_commands split: if_splits)

lemmas part_contracts = on_part_contract [OF vi.handler_contract_axioms] on_part_contract [OF nvdrv.handler_contract_axioms]
  on_part_contract [OF nvmap.handler_contract_axioms] on_part_contract [OF nvgpu.handler_contract_axioms]
  on_part_contract [OF nvctrl.handler_contract_axioms] on_part_contract [OF fs.handler_contract_axioms]
  on_part_contract [OF audio.handler_contract_axioms] on_part_contract [OF spl.handler_contract_axioms]
  acc.handler_contract_axioms on_part_contract [OF hid.handler_contract_axioms]
  on_part_contract [OF applet_resource.handler_contract_axioms] on_part_contract [OF am_object_fits]

lemma board_object_contract:
  assumes "board_object host input p = Some (name, h)"
  shows "handler_contract h"
proof (cases "pcv_object p = Some (name, h)")
  case True
  then show ?thesis
    by unfold_locales (simp add: pcv_object_handler fits_no_answer)
next
  case False
  then show ?thesis
    using assms by (auto simp: board_object_def intro: part_contracts split: if_splits option.splits)
qed

lemma quiet_part:
  assumes "\<And>m. sys_change s (put m s)"
  shows "post (sys_change s) (on_part get put h cmd inp in_sz out s)"
  using assms by (intro post_on_part [OF post_True])

lemma sys_change_refl: "sys_change s s"
  by (simp add: sys_change_def)

lemma acc_post: "post (sys_change s) (acc_HandleCommand cmd inp in_sz out s)"
  unfolding acc_HandleCommand_def by (intro post_intros sys_change_refl)

lemma am_part:
  assumes "am_object p = Some (name, h)"
  shows "post (sys_change s) (on_part get_am put_am h cmd inp in_sz out s)"
  by (rule post_on_part [of "am_change (get_am s)"]) (rule am_object_post [OF assms], rule put_am_change)

lemma hid_parts:
  "post (sys_change s) (on_part get_hid put_hid (hid_HandleCommand input) cmd inp in_sz out s)"
  "post (sys_change s) (on_part get_hid put_hid applet_resource_HandleCommand cmd inp in_sz out s)"
  by (rule post_on_part [of "hid_change (get_hid s)"], rule hid_post, erule put_hid_change)+

lemma board_object_change:
  assumes "board_object host input p = Some (name, h)"
  shows "post (sys_change s) (h cmd inp in_sz out s)"
proof (cases "pcv_object p = Some (name, h)")
  case True
  then show ?thesis
    by (simp add: pcv_object_handler post_simple sys_change_refl)
next
  case False
  then show ?thesis
    using assms
    by (auto simp: board_object_def intro: quiet_part put_quiet acc_post am_part hid_parts
        split: if_splits option.splits)
qed

lemma table_change:
  assumes "handle_command (services_table host input) p cmd inp in_sz out s = Inr (ok, out', n, s')"
  shows "length out' = length out \<and> sys_change s s'"
proof (cases "board_object host input p")
  case None
  then show ?thesis
    using assms by (simp add: services_table_def sys_change_refl)
next
  case (Some nh)
  then obtain name h where nh: "board_object host input p = Some (name, h)"
    by (cases nh) simp
  with assms have run: "h cmd inp in_sz out s = Inr (ok, out', n, s')"
    by (simp add: services_table_def)
  then show ?thesis
    using handler_contract.keeps_length [OF board_object_contract [OF nh] run] board_object_change [OF nh, of s cmd inp in_sz out]
    by (simp add: post_def)
qed

interpretation board: service_contract "services_table host input"
  by unfold_locales (blast dest: table_change sys_change_inv)+

lemma board_init_ok: "init_ok (board_init host)"
  by (auto simp: init_ok_def board_init_def put_vi_def split: prod.split)

interpretation emu: service_contract "emulator host input"
  by (rule builtin_contract [OF board.service_contract_axioms board_init_ok])

section \<open>Names stay registered\<close>

definition names_of :: "ipc \<Rightarrow> string set" where
  "names_of st = {n. \<exists>p. services st n = Some (Some p)}"

abbreviation registered :: "'w sys \<Rightarrow> string set" where
  "registered s \<equiv> names_of (s_ipc s)"

lemma names_of_update [simp]:
  "names_of (st\<lparr>sessions := x\<rparr>) = names_of st" "names_of (st\<lparr>next_session := i\<rparr>) = names_of st"
  "names_of (st\<lparr>deleted := d\<rparr>) = names_of st"
  by (simp_all add: names_of_def)

lemma names_of_Register [simp]: "names_of (RegisterService n (Some p) st) = insert n (names_of st)"
  by (auto simp: names_of_def RegisterService_def)

locale registry_contract = service_contract vt for vt :: "'w vtable" +
  assumes keeps_names: "handle_command vt p cmd inp isz out s = Inr (ok, out', n, s') \<Longrightarrow> registered s \<subseteq> registered s'"
begin

lemma run_command_names:
  assumes "run_command vt sid control rq l s = Inr (ok, r, n, s')"
  shows "registered s \<subseteq> registered s'"
proof (cases control)
  case True
  then show ?thesis
    using assms by (auto simp: run_command_def control_command_def Let_def split: prod.splits if_splits)
next
  case False
  then have "s' = s \<or> (\<exists>p cmd inp isz out ok' out' n'. handle_command vt p cmd inp isz out s = Inr (ok', out', n', s'))"
    using assms by (auto simp: run_command_def Let_def bind_sum_Inr split: option.splits if_splits prod.splits)
  then show ?thesis
    by (elim disjE exE) (simp, rule keeps_names)
qed

lemma finish_request_names:
  "finish_request sid control rq recv l (ok, r, n, s) = Inr (res, r', m, s') \<Longrightarrow> registered s' = registered s"
  by (cases control)
    (auto simp: finish_request_def extract_handle_def Let_def bind_sum_Inr split: if_splits option.splits)

lemma CloseSession_names: "CloseSession sid st = Inr st' \<Longrightarrow> names_of st' = names_of st"
  by (auto simp: CloseSession_def Let_def split: option.splits bool.splits if_splits)

lemma HandleRequest_names:
  assumes "HandleRequest vt sid data resp s = Inr (res, r, n, s')"
  shows "registered s \<subseteq> registered s'"
proof (cases "s' = s \<or> (\<exists>st. CloseSession sid (s_ipc s) = Inr st \<and> s' = s\<lparr>s_ipc := st\<rparr>)")
  case True
  then show ?thesis
    using CloseSession_names by auto
next
  case False
  then obtain control rq l ok r1 n1 s1 recv where
    run: "run_command vt sid control rq l s = Inr (ok, r1, n1, s1)"
    and fin: "finish_request sid control rq recv l (ok, r1, n1, s1) = Inr (res, r, n, s')"
    using assms
    by (auto simp: HandleRequest_def Let_def bind_sum_Inr split_beta split: option.splits if_splits)
  show ?thesis
    using run_command_names [OF run] finish_request_names [OF fin] by simp
qed

end

lemma sys_change_names: "sys_change s s' \<Longrightarrow> registered s' = registered s"
  by (auto simp: sys_change_def CreateSession_def Let_def)

lemma EnsureService_names: "registered s \<subseteq> registered (EnsureService (board_init host) name s)"
  by (auto simp: EnsureService_def run_init_def board_init_def put_vi_def split: option.splits prod.split)

lemma builtin_names:
  assumes "handle_command (emulator host input) p cmd inp in_sz out s = Inr (ok, out', n, s')"
  shows "registered s \<subseteq> registered s'"
proof -
  have sm: "registered s \<subseteq> registered s'" if "sm_HandleCommand (board_init host) cmd inp in_sz out s = Inr (ok, out', n, s')"
    using that EnsureService_names [of s host]
    by (fastforce simp: sm_HandleCommand_def HandleGetService_def Connect_def Let_def split_beta split: if_splits)
  have apm: "registered s' = registered s" if "apm_HandleMainSession cmd out s = Inr (ok, out', n, s')"
    using that by (auto simp: apm_HandleMainSession_def CreateSession_def Let_def split: if_splits)
  show ?thesis
    using assms sm apm table_change [of host input p cmd inp in_sz out s]
    by (auto simp: builtin_def split: if_splits dest: simple_services sys_change_names)
qed

interpretation emu: registry_contract "emulator host input"
  by unfold_locales (rule builtin_names)

section \<open>From power-on\<close>

text \<open>What the remaining static constructors register; the order does not matter, the names are distinct.\<close>

definition board_registrations :: "(string \<times> svc) list" where
  "board_registrations =
     [(''nvdrv:'', g_nvdrv), (''nvmap:'', g_nvmap), (''nvdrv#'', g_nvgpu), (''nvhost-ctrl:'', g_nvhost_ctrl),
      (''fsp-srv:'', g_fs_service), (''fs:'', g_fs_service), (''audout:'', g_audio_out_service),
      (''audren:'', g_audio_out_service), (''spl:'', g_spl_service), (''spl:mig'', g_spl_service),
      (''spl:fs'', g_spl_service), (''acc:u0'', g_account_service), (''acc:u1'', g_account_service),
      (''acc:su'', g_account_service), (''pcv:'', g_pcv), (''psc:'', g_psc), (''pm:'', g_pm), (''pm:bm'', g_pm),
      (''nifm:'', g_nifm), (''nifm:oa'', g_nifm), (''ro:'', g_ro), (''erpt:'', g_erpt), (''erpt:s'', g_erpt),
      (''erpt:c'', g_erpt), (''fatal:'', g_fatal), (''fatal:p'', g_fatal), (''btm:'', g_btm), (''btm:sys'', g_btm),
      (''nfc:'', g_nfc), (''nfc:mf'', g_nfc), (''nfc:user'', g_nfc)]"

definition register_all :: "(string \<times> svc) list \<Rightarrow> ipc \<Rightarrow> ipc" where
  "register_all rs st = fold (\<lambda>(name, p). RegisterService name (Some p)) rs st"

text \<open>The state after the static constructors and the \<open>SetMemory\<close> and \<open>SetTracker\<close> calls of the main program.\<close>

definition power_on ::
    "host_vm \<Rightarrow> memory option \<Rightarrow> StateTracker option \<Rightarrow> fs \<Rightarrow> spl \<Rightarrow> bool \<Rightarrow> u64 \<Rightarrow> board_sys" where
  "power_on host mem tracker files rnd sound seconds =
     (let (m0, v, ip) = vi_construct host g_vi_service (None, vi_init, am_static_init (register_all board_registrations static_init));
          h = hid_construct host \<lparr>hid_memory = m0, hid_ipc = ip, hid_handles = handle_table_init, hid_next_sub = HID_FIRST_SUB,
                g_buttons = 0, g_lx = 128, g_ly = 128, g_rx = 128, g_ry = 128\<rparr>
      in \<lparr>s_ipc = hid_ipc h, s_mem = mem, s_handles = hid_handles h,
          s_ext = \<lparr>inited = [], clock_seconds = seconds,
            other = \<lparr>b_vi = v, b_nv = nv_init None tracker, b_fs = files, b_audio = audio_init sound, b_spl = rnd,
              b_msg_count = 0, b_hid = h\<rparr>\<rparr>\<rparr>)"

text \<open>
  The states that a program can bring the emulator into: system calls on the table of all services, and in between
  whatever the guest, the host clock and the input thread do to memory, clock and buttons.
\<close>

definition emulator_env :: "host_vm \<Rightarrow> (u64 \<Rightarrow> u64 \<Rightarrow> image \<Rightarrow> image) \<Rightarrow> board svc_world env" where
  "emulator_env host input = \<lparr>e_vt = emulator host input, e_host = host\<rparr>"

inductive emulator_reach ::
    "host_vm \<Rightarrow> (u64 \<Rightarrow> u64 \<Rightarrow> image \<Rightarrow> image) \<Rightarrow> board svc_world kernel \<Rightarrow> bool" for host input where
  boot: "k_sys k = power_on host mem tracker files rnd sound seconds \<Longrightarrow> emulator_reach host input k"
| svc: "emulator_reach host input k \<Longrightarrow> SvcHandler_Dispatch (emulator_env host input) num k st = (r, k', st') \<Longrightarrow>
    no_wrap (k_sys k) (k_sys k') \<Longrightarrow> emulator_reach host input k'"
| outside: "emulator_reach host input k \<Longrightarrow>
    emulator_reach host input (k\<lparr>k_sys := (k_sys k)\<lparr>s_mem := mem, s_ext := (s_ext (k_sys k))\<lparr>clock_seconds := c\<rparr>\<rparr>\<rparr>)"
| buttons: "emulator_reach host input k \<Longrightarrow> h = get_hid (k_sys k) \<Longrightarrow>
    emulator_reach host input (k\<lparr>k_sys := put_hid (Hid_SetStickState lx ly rx ry (Hid_SetButtonState b h)) (k_sys k)\<rparr>)"

lemma register_all_sessions [simp]:
  "sessions (register_all rs st) = sessions st" "next_session (register_all rs st) = next_session st"
  by (induction rs arbitrary: st) (auto simp: register_all_def RegisterService_def)

lemma register_all_names: "names_of (register_all rs st) = fst ` set rs \<union> names_of st"
  by (induction rs arbitrary: st) (auto simp: register_all_def)

lemma am_static_names:
  "names_of (am_static_init st) =
     {''appletOE:'', ''appletAE:'', ''applet'', ''ns:'', ''ns:dev'', ''ns:am2'', ''ldr:'', ''ldr:pm''} \<union> names_of st"
  by (auto simp: am_static_init_def)

lemma static_names:
  "names_of static_init = {''sm:'', ''sm:m:'', ''set:'', ''set:sys'', ''time:'', ''time:a'', ''time:u''}"
  by (auto simp: static_init_def) (simp add: names_of_def ipc_init_def)

lemma power_on_names:
  "registered (power_on host mem tracker files rnd sound seconds) =
     {''hid:'', ''hidbus:'', ''vi:'', ''vi:m'', ''vi:u''} \<union> names_of (am_static_init (register_all board_registrations static_init))"
  by (auto simp: power_on_def vi_construct_def hid_construct_def Let_def)

lemma power_on_sys_inv: "sys_inv (power_on host mem tracker files rnd sound seconds)"
proof -
  have "sessions (s_ipc (power_on host mem tracker files rnd sound seconds)) = []"
    "next_session (s_ipc (power_on host mem tracker files rnd sound seconds)) = 0x1000"
    by (simp_all add: power_on_def vi_construct_def hid_construct_def Let_def am_static_init_def RegisterService_def
        static_init_def ipc_init_def register_all_sessions [unfolded RegisterService_def])
  moreover have "ht_inv (s_handles (power_on host mem tracker files rnd sound seconds))"
    using ht_Create_inv [OF ht_inv_init, of 0 hid_shmem]
    by (simp add: power_on_def vi_construct_def hid_construct_def Let_def ht_room_def handle_table_init_def)
  ultimately show ?thesis
    by (simp add: sys_inv_def ipc_inv_def)
qed

text \<open>
  Property C5. Whatever system calls a program makes on the emulator with all its services, and whatever happens to memory,
  clock and input in between, no two sessions and no two live kernel objects ever share an id, as long as the 32-bit counters do
  not wrap within a call.
\<close>

theorem emulator_keeps_ids:
  assumes "emulator_reach host input k"
  shows "sys_inv (k_sys k)"
  using assms
proof (induction rule: emulator_reach.induct)
  case (boot k mem tracker files rnd sound seconds)
  then show ?case
    by (simp add: power_on_sys_inv)
next
  case (svc k num st r k' st')
  have "service_contract (e_vt (emulator_env host input))"
    by (simp add: emulator_env_def emu.service_contract_axioms)
  from handler_okD [OF dispatch_ok this svc.hyps(2)] show ?case
    using svc.IH svc.hyps(3) by blast
next
  case (outside k mem c)
  then show ?case
    by (simp add: sys_inv_def)
next
  case (buttons k h lx ly rx ry b)
  then show ?case
    by (simp add: sys_inv_def put_hid_def get_hid_def Hid_SetButtonState_def Hid_SetStickState_def)
qed

definition example_board :: board_sys where
  "example_board = power_on zero_fill_host None None fs_init \<lparr>rand_values = (\<lambda>_. 0), rand_pos = 0\<rparr> False 0"

definition example_kernel :: "board svc_world kernel" where
  "example_kernel = \<lparr>k_sys = example_board, k_cur_thread = 0, k_tls_next_slot = 1,
     k_stack_next_slot = 1, k_next_thread_id = 2, k_exited = False, k_crashed = False, k_dump_once = False, k_svc_call_count = 0, k_started = [],
     k_slept = [], k_fixed_tls = 0, k_ticks = 0, k_page_order = []\<rparr>"

lemma example_handles: "next_index (s_handles example_board) = 2"
  by (simp add: example_board_def power_on_def vi_construct_def hid_construct_def Let_def handle_table_init_def)

theorem emulator_keeps_ids_witness:
  "\<exists>k st. SvcHandler_Dispatch (emulator_env zero_fill_host (\<lambda>_ _ img. img)) 0x14 example_kernel zero_regs = (Returns, k, st)
     \<and> gx st ! 1 = 0xD002 \<and> sys_inv (k_sys k)"
proof -
  obtain k st where run: "SvcHandler_Dispatch (emulator_env zero_fill_host (\<lambda>_ _ img. img)) 0x14 example_kernel zero_regs = (Returns, k, st)"
      and x1: "gx st ! 1 = 0xD002" and k: "next_index (k_handles k) = 3" "s_ipc (k_sys k) = s_ipc example_board"
    by (simp add: SvcHandler_Dispatch_def Let_def MAX_SVC_def svc_table_events SvcCreateEvent_def create_handler_def
        split_beta example_kernel_def example_handles)
      (simp add: ht_Create_def example_handles HANDLE_BASE_def setx_def Ret_def zero_regs_def Let_def)
  have "emulator_reach zero_fill_host (\<lambda>_ _ img. img) example_kernel"
    by (rule emulator_reach.boot) (simp add: example_kernel_def example_board_def)
  moreover have "no_wrap (k_sys example_kernel) (k_sys k)"
    using k example_handles by (simp add: no_wrap_def example_kernel_def)
  ultimately have "emulator_reach zero_fill_host (\<lambda>_ _ img. img) k"
    by (rule emulator_reach.svc [OF _ run])
  then show ?thesis
    using emulator_keeps_ids run x1 by blast
qed

text \<open>
  The states the IPC manager goes through when clients send requests to the services.
\<close>

inductive request_reach :: "host_vm \<Rightarrow> (u64 \<Rightarrow> u64 \<Rightarrow> image \<Rightarrow> image) \<Rightarrow> board_sys \<Rightarrow> bool" for host input where
  start: "request_reach host input (power_on host mem tracker files rnd sound seconds)"
| request: "request_reach host input s \<Longrightarrow> HandleRequest (emulator host input) sid data resp s = Inr (res, r, n, s') \<Longrightarrow>
    request_reach host input s'"

lemma known_names:
  "init_group_of name = Some g \<Longrightarrow> name \<notin> {''apm:'', ''apm:sys''} \<Longrightarrow>
    name \<in> registered (power_on host mem tracker files rnd sound seconds)"
  by (auto simp: init_group_of_def power_on_names am_static_names register_all_names board_registrations_def static_names
      split: if_splits)

text \<open>
  Property C35. Every service name that the service manager initialises on demand, the two names of the performance service
  apart, is connected to its object from the start and after any sequence of requests: a client that opens it never gets an
  unserved session.
\<close>

theorem services_stay_connected:
  assumes "request_reach host input s" and "init_group_of name = Some g" and "name \<notin> {''apm:'', ''apm:sys''}"
  shows "\<exists>p. lookup_service name (s_ipc s) = Some p"
proof -
  have "name \<in> registered s"
    using assms(1)
  proof (induction rule: request_reach.induct)
    case start
    show ?case
      by (rule known_names [OF assms(2,3)])
  next
    case (request s sid data resp res r n s')
    then show ?case
      using emu.HandleRequest_names by blast
  qed
  then show ?thesis
    by (auto simp: names_of_def lookup_service_def)
qed

text \<open>The exceptions are real: \<open>apm:\<close> is served only after \<open>set:\<close> has been opened.\<close>

lemma apm_starts_unconnected:
  "lookup_service ''apm:'' (s_ipc (EnsureService (board_init host) ''apm:'' (power_on host mem tracker files rnd sound seconds))) = None"
  "lookup_service ''apm:'' (s_ipc (EnsureService (board_init host) ''set:'' (power_on host mem tracker files rnd sound seconds))) = Some g_apm_service"
  by (simp_all add: lookup_service_def EnsureService_def init_group_of_def run_init_def power_on_def Let_def vi_construct_def
      hid_construct_def RegisterService_def am_static_init_def register_all_def board_registrations_def static_init_def ipc_init_def)

theorem services_stay_connected_witness: "\<exists>p. lookup_service ''nvmap:'' (s_ipc example_board) = Some p"
proof -
  have "request_reach zero_fill_host (\<lambda>_ _ img. img) example_board"
    unfolding example_board_def by (rule request_reach.start)
  moreover have "init_group_of ''nvmap:'' = Some GNv"
    by (simp add: init_group_of_def)
  ultimately show ?thesis
    by (rule services_stay_connected) simp
qed

end
