(* ===== verification/PackageLoader.thy ===== *)
theory PackageLoader
  imports NsoLoader Fs
begin

text \<open>
  Game packages: \<^verbatim>\<open>src/src/loader/Loader.cpp\<close> (the PFS0 archive, the content archive NCA, the embedded ExeFS, the
  two entry points) and \<^verbatim>\<open>src/src/loader/NpdmParser.cpp\<close>.

  A file is the list \<open>buf\<close> of its bytes; opening and reading it is host access. A parser that gets a pointer into
  the buffer has the position as an argument and reads the whole buffer, so that reads outside the buffer (\<open>PkgOob\<close>) and
  reads outside the part that was passed are different things. Offsets are added in 64 bits and wrap, as in
  the code; \<open>num_files * 16\<close> and \<open>0x200 + file_off\<close> are computed in 32 bits. Creating a span that does not lie in the buffer is
  an error, as it is in the language.
\<close>

section \<open>Reading\<close>

datatype pkg_error = PkgOob | PkgRom romfs_error | PkgNso lz4_error

definition peek :: "u8 list \<Rightarrow> nat \<Rightarrow> nat \<Rightarrow> pkg_error + u8 list" where
  "peek buf a n = (if a + n \<le> length buf then Inr (get_bytes buf a n) else Inl PkgOob)"

definition peek32 :: "u8 list \<Rightarrow> nat \<Rightarrow> pkg_error + u32" where
  "peek32 buf a = bind_sum (peek buf a 4) (\<lambda>bs. Inr (of_le_bytes bs))"

definition peek64 :: "u8 list \<Rightarrow> nat \<Rightarrow> pkg_error + u64" where
  "peek64 buf a = bind_sum (peek buf a 8) (\<lambda>bs. Inr (of_le_bytes bs))"

text \<open>\<^verbatim>\<open>std::string(const char*)\<close>: up to the first zero byte, which has to exist.\<close>

definition c_string :: "u8 list \<Rightarrow> nat \<Rightarrow> pkg_error + path" where
  "c_string buf a =
     (if 0 \<in> set (drop a buf) then Inr (takeWhile (\<lambda>b. b \<noteq> 0) (drop a buf)) else Inl PkgOob)"

section \<open>PFS0\<close>

record Pfs0FileEntry =
  pe_offset :: u64
  pe_size :: u64

definition PFS0_MAGIC :: u32 where "PFS0_MAGIC = 0x30534650"

text \<open>\<open>str_off\<close>: the lengths of the names before, each with its terminator, in 32 bits.\<close>

definition name_offset :: "path list \<Rightarrow> u32" where
  "name_offset names = fold (\<lambda>nm off. off + (of_nat (length nm) + 1)) names 0"

text \<open>Entries \<open>i\<close>, \<open>i + 1\<close>, ... of the table at \<open>tab\<close> (\<open>k\<close> of them).\<close>

fun pfs0_loop ::
    "u8 list \<Rightarrow> nat \<Rightarrow> nat \<Rightarrow> u32 \<Rightarrow> u64 \<Rightarrow> nat \<Rightarrow> nat \<Rightarrow> Pfs0FileEntry list \<Rightarrow> path list \<Rightarrow>
      pkg_error + (Pfs0FileEntry list \<times> path list)" where
  "pfs0_loop buf tab strtab strtab_size needed i 0 entries names = Inr (entries, names)"
| "pfs0_loop buf tab strtab strtab_size needed i (Suc k) entries names =
     bind_sum (peek64 buf (tab + unat (of_nat i * 16 :: u32))) (\<lambda>off.
     bind_sum (peek64 buf (tab + unat (of_nat i * 16 :: u32) + 8)) (\<lambda>sz.
     bind_sum (if name_offset names < strtab_size then c_string buf (strtab + unat (name_offset names)) else Inr [])
       (\<lambda>name.
         pfs0_loop buf tab strtab strtab_size needed (Suc i) k
           (entries @ [\<lparr>pe_offset = off + needed, pe_size = sz\<rparr>]) (names @ [name]))))"

definition ParsePfs0 :: "u8 list \<Rightarrow> nat \<Rightarrow> nat \<Rightarrow> pkg_error + (Pfs0FileEntry list \<times> path list) option" where
  "ParsePfs0 buf at len =
     (if len < 16 then Inr None
      else
        bind_sum (peek buf at 16) (\<lambda>header.
          if word_at header 0 \<noteq> PFS0_MAGIC then Inr None
          else
            let num_files = word_at header 4;
                strtab_size = word_at header 8;
                strtab = at + 16 + unat (num_files * 16);
                needed = 16 + unat (num_files * 16) + unat strtab_size
            in if len < needed then Inr None
               else bind_sum (pfs0_loop buf (at + 16) strtab strtab_size (of_nat needed) 0 (unat num_files) [] [])
                      (\<lambda>r. Inr (Some r))))"

section \<open>NCA\<close>

record nca_info =
  romfs_offset :: u64
  romfs_size :: u64
  exefs_offset :: u64
  exefs_size :: u64
  nca_size :: u64

definition nca_info_init :: nca_info where
  "nca_info_init = \<lparr>romfs_offset = 0, romfs_size = 0, exefs_offset = 0, exefs_size = 0, nca_size = 0\<rparr>"

definition NCA3_MAGIC :: u32 where "NCA3_MAGIC = 0x3341434E"
definition NCA2_MAGIC :: u32 where "NCA2_MAGIC = 0x3241434E"

text \<open>What one program section changes.\<close>

definition program_section :: "nat \<Rightarrow> u64 \<Rightarrow> u64 \<Rightarrow> nca_info \<Rightarrow> nca_info" where
  "program_section len abs_offset abs_size info =
     (let info1 =
        (if len > unat (abs_offset + 0x200) then
           info\<lparr>exefs_size := min abs_size 0x800000, romfs_offset := abs_offset + 0x200, romfs_size := abs_size - 0x200\<rparr>
         else info)
      in if exefs_size info1 = 0 then
           info1\<lparr>exefs_size := abs_size, romfs_offset := abs_offset + abs_size, romfs_size := 0\<rparr>
         else info1)"

definition nca_section :: "u8 list \<Rightarrow> nat \<Rightarrow> nat \<Rightarrow> nat \<Rightarrow> nca_info \<Rightarrow> pkg_error + nca_info" where
  "nca_section buf at len i info =
     bind_sum (peek32 buf (at + 0x200 + i * 16)) (\<lambda>sec_offset.
     bind_sum (peek32 buf (at + 0x200 + i * 16 + 4)) (\<lambda>sec_size.
     bind_sum (peek buf (at + 0x200 + i * 16 + 12) 1) (\<lambda>ty.
       let abs_offset = ucast sec_offset * 512; abs_size = ucast sec_size * 512
       in if sec_offset = 0 \<or> sec_size = 0 then Inr info
          else if hd ty = 0 \<and> abs_offset > 0 \<and> abs_size > 0 then Inr (program_section len abs_offset abs_size info)
          else Inr info)))"

definition ParseNca :: "u8 list \<Rightarrow> nat \<Rightarrow> nat \<Rightarrow> pkg_error + (bool \<times> nca_info)" where
  "ParseNca buf at len =
     (if len < 0x400 then Inr (False, nca_info_init)
      else
        bind_sum (peek32 buf at) (\<lambda>magic.
          if magic \<noteq> NCA3_MAGIC \<and> magic \<noteq> NCA2_MAGIC then Inr (False, nca_info_init)
          else
            bind_sum (peek64 buf (at + 0x30)) (\<lambda>n.
            bind_sum (peek buf (at + 0x14) 1) (\<lambda>content_type.
            bind_sum (nca_section buf at len 0 (nca_info_init\<lparr>nca_size := n\<rparr>)) (\<lambda>i1.
            bind_sum (nca_section buf at len 1 i1) (\<lambda>i2.
            bind_sum (nca_section buf at len 2 i2) (\<lambda>i3.
            bind_sum (nca_section buf at len 3 i3) (\<lambda>i4.
              Inr (exefs_offset i4 > 0 \<or> romfs_offset i4 > 0, i4)))))))))"

section \<open>ExeFS\<close>

definition NCA_EXT :: path where "NCA_EXT = bytes_of ''.nca''"

text \<open>Every space of the 8-byte name becomes a terminator, not only the trailing ones.\<close>

definition exefs_name :: "u8 list \<Rightarrow> path" where
  "exefs_name bs = takeWhile (\<lambda>b. b \<noteq> 0) (map (\<lambda>b. if b = 0x20 then 0 else b) bs)"

fun exefs_loop :: "u8 list \<Rightarrow> nat \<Rightarrow> nat \<Rightarrow> path \<Rightarrow> nat list \<Rightarrow> pkg_error + (u64 \<times> u64) option" where
  "exefs_loop buf at len target [] = Inr None"
| "exefs_loop buf at len target (i # is) =
     (if i * 16 + 16 > len then Inr None
      else
        bind_sum (peek buf (at + i * 16) 16) (\<lambda>e.
          let name = exefs_name (take 8 e); file_off = word_at e 8; file_size = word_at e 12;
              abs_offset = ucast (0x200 + file_off) :: u64
          in if name = [] \<or> file_size = 0 then exefs_loop buf at len target is
             else if name = target \<and> unat (abs_offset + ucast file_size) \<le> len
             then Inr (Some (abs_offset, ucast file_size))
             else exefs_loop buf at len target is))"

definition FindExeFsEntry :: "u8 list \<Rightarrow> nat \<Rightarrow> nat \<Rightarrow> path \<Rightarrow> pkg_error + (u64 \<times> u64) option" where
  "FindExeFsEntry buf at len target =
     (if len < 0x200 then Inr None else exefs_loop buf at len target [0..<32])"

definition IsNSO :: "u8 list \<Rightarrow> u64 \<Rightarrow> pkg_error + bool" where
  "IsNSO buf off =
     (if unat (off + 4) > length buf then Inr False
      else bind_sum (peek32 buf (unat off)) (\<lambda>magic. Inr (magic = NSO0_MAGIC)))"

section \<open>The RomFS of a package\<close>

definition ends_with_nca :: "path \<Rightarrow> bool" where
  "ends_with_nca name \<longleftrightarrow> length name \<ge> 4 \<and> drop (length name - 4) name = NCA_EXT"

definition contains_nca :: "path \<Rightarrow> bool" where
  "contains_nca name \<longleftrightarrow> list_ex (\<lambda>i. take 4 (drop i name) = NCA_EXT) [0..<length name]"

definition set_romfs :: "nat \<Rightarrow> u8 list \<Rightarrow> u64 \<Rightarrow> u64 \<Rightarrow> fs \<Rightarrow> pkg_error + fs" where
  "set_romfs fuel buf a n s =
     bind_sum (peek buf (unat a) (unat n)) (\<lambda>data.
       case FsService_SetRomFS fuel data s of Inl e \<Rightarrow> Inl (PkgRom e) | Inr s' \<Rightarrow> Inr s')"

text \<open>One archive member; \<open>None\<close> means the loop goes on.\<close>

definition try_romfs :: "nat \<Rightarrow> u8 list \<Rightarrow> u64 \<Rightarrow> nat \<Rightarrow> fs \<Rightarrow> pkg_error + fs option" where
  "try_romfs fuel buf nca_off nca_len s =
     bind_sum (ParseNca buf (unat nca_off) nca_len) (\<lambda>(ok, info).
       let romfs_abs = nca_off + romfs_offset info
       in if ok \<and> romfs_size info > 0 \<and> unat (romfs_abs + romfs_size info) \<le> length buf
          then bind_sum (set_romfs fuel buf romfs_abs (romfs_size info) s) (\<lambda>s'. Inr (Some s'))
          else Inr None)"

fun nsp_romfs :: "nat \<Rightarrow> u8 list \<Rightarrow> (Pfs0FileEntry \<times> path) list \<Rightarrow> fs \<Rightarrow> pkg_error + (bool \<times> fs)" where
  "nsp_romfs fuel buf [] s = Inr (False, s)"
| "nsp_romfs fuel buf ((e, name) # es) s =
     (if ends_with_nca name \<and> unat (pe_offset e + pe_size e) \<le> length buf then
        bind_sum (try_romfs fuel buf (pe_offset e) (unat (pe_size e)) s) (\<lambda>r.
          case r of Some s' \<Rightarrow> Inr (True, s') | None \<Rightarrow> nsp_romfs fuel buf es s)
      else nsp_romfs fuel buf es s)"

fun xci_romfs :: "nat \<Rightarrow> u8 list \<Rightarrow> u64 \<Rightarrow> (Pfs0FileEntry \<times> path) list \<Rightarrow> fs \<Rightarrow> pkg_error + (bool \<times> fs)" where
  "xci_romfs fuel buf part_off [] s = Inr (False, s)"
| "xci_romfs fuel buf part_off ((e, name) # es) s =
     (if contains_nca name then
        bind_sum (try_romfs fuel buf (part_off + pe_offset e) (unat (pe_size e)) s) (\<lambda>r.
          case r of Some s' \<Rightarrow> Inr (True, s') | None \<Rightarrow> xci_romfs fuel buf part_off es s)
      else xci_romfs fuel buf part_off es s)"

definition NRO0_FILE :: u32 where "NRO0_FILE = 0x304F524E"
definition XCI_MAGIC :: u32 where "XCI_MAGIC = 0x44414548"

definition Loader_LoadPackage :: "nat \<Rightarrow> u8 list \<Rightarrow> fs \<Rightarrow> pkg_error + (bool \<times> fs)" where
  "Loader_LoadPackage fuel buf s =
     (if length buf < 4 then Inr (False, s)
      else if word_at buf 0 = NRO0_FILE then Inr (False, s)
      else if word_at buf 0 = PFS0_MAGIC then
        bind_sum (ParsePfs0 buf 0 (length buf)) (\<lambda>r.
          case r of None \<Rightarrow> Inr (False, s) | Some (entries, names) \<Rightarrow> nsp_romfs fuel buf (zip entries names) s)
      else if word_at buf 0 = XCI_MAGIC then
        (if length buf < 0x200 then Inr (False, s)
         else
           let part_off = le64 buf 0x150; part_sz = le64 buf 0x158
           in if part_off > 0 \<and> unat (part_off + part_sz) \<le> length buf then
                bind_sum (ParsePfs0 buf (unat part_off) (unat part_sz)) (\<lambda>r.
                  case r of None \<Rightarrow> Inr (False, s)
                  | Some (entries, names) \<Rightarrow> xci_romfs fuel buf part_off (zip entries names) s)
              else Inr (False, s))
      else Inr (False, s))"

section \<open>The executable of a package\<close>

definition NSO_BASE_ADDRESS :: u64 where "NSO_BASE_ADDRESS = 0x40000000"

record pkg_state =
  p_native :: native
  p_fs :: fs
  p_info :: NsoLoadInfo

text \<open>\<open>LoadFromBuffer\<close> on a span; the flag is \<^verbatim>\<open>!Failed(r)\<close>.\<close>

definition load_nso :: "native_host \<Rightarrow> u8 list \<Rightarrow> pkg_state \<Rightarrow> pkg_error + (bool \<times> pkg_state)" where
  "load_nso h data p =
     (case nso_LoadFromBuffer h data NSO_BASE_ADDRESS (p_native p) of
        (Overrun e, _, _) \<Rightarrow> Inl (PkgNso e)
      | (Done r, n, info) \<Rightarrow> Inr (\<not> Failed r, p\<lparr>p_native := n, p_info := info\<rparr>))"

definition keep_romfs :: "nat \<Rightarrow> u8 list \<Rightarrow> u64 \<Rightarrow> nca_info \<Rightarrow> pkg_state \<Rightarrow> pkg_error + pkg_state" where
  "keep_romfs fuel buf nca_off info p =
     (if romfs_size info > 0 \<and> unat (nca_off + romfs_offset info + romfs_size info) \<le> length buf
      then bind_sum (set_romfs fuel buf (nca_off + romfs_offset info) (romfs_size info) (p_fs p)) (\<lambda>s.
             Inr (p\<lparr>p_fs := s\<rparr>))
      else Inr p)"

definition load_main :: "native_host \<Rightarrow> u8 list \<Rightarrow> u64 \<Rightarrow> nca_info \<Rightarrow> pkg_state \<Rightarrow> pkg_error + (bool \<times> pkg_state)" where
  "load_main h buf exefs_abs info p =
     bind_sum (FindExeFsEntry buf (unat exefs_abs) (unat (exefs_size info)) (bytes_of ''main'')) (\<lambda>r.
       case r of
         None \<Rightarrow> Inr (False, p)
       | Some (nso_off, nso_sz) \<Rightarrow>
           let nso_abs = exefs_abs + nso_off
           in bind_sum (IsNSO buf nso_abs) (\<lambda>nso.
                if nso then bind_sum (peek buf (unat nso_abs) (unat nso_sz)) (\<lambda>data. load_nso h data p)
                else Inr (False, p)))"

text \<open>One member of an NSP, and of an XCI, which is not checked against the size of the file.\<close>

definition nsp_member ::
    "native_host \<Rightarrow> nat \<Rightarrow> u8 list \<Rightarrow> Pfs0FileEntry \<Rightarrow> path \<Rightarrow> pkg_state \<Rightarrow> pkg_error + (bool \<times> pkg_state)" where
  "nsp_member h fuel buf e name p =
     (let nca_off = pe_offset e in
      if \<not> ends_with_nca name \<or> unat (nca_off + 0x400) > length buf then Inr (False, p)
      else
        bind_sum (peek32 buf (unat nca_off)) (\<lambda>magic.
          if magic \<noteq> NCA3_MAGIC \<and> magic \<noteq> NCA2_MAGIC then Inr (False, p)
          else
            bind_sum (ParseNca buf (unat nca_off) (unat (min (pe_size e) (of_nat (length buf) - nca_off)))) (\<lambda>(ok, info).
              if \<not> ok then Inr (False, p)
              else
                bind_sum (keep_romfs fuel buf nca_off info p) (\<lambda>p1.
                  let exefs_abs = nca_off + exefs_offset info
                  in if exefs_size info > 0 \<and> unat (exefs_abs + 0x200) \<le> length buf
                     then load_main h buf exefs_abs info p1 else Inr (False, p1)))))"

definition xci_member ::
    "native_host \<Rightarrow> nat \<Rightarrow> u8 list \<Rightarrow> u64 \<Rightarrow> Pfs0FileEntry \<Rightarrow> path \<Rightarrow> pkg_state \<Rightarrow> pkg_error + (bool \<times> pkg_state)" where
  "xci_member h fuel buf part_off e name p =
     (let nca_off = part_off + pe_offset e in
      if \<not> contains_nca name then Inr (False, p)
      else
        bind_sum (ParseNca buf (unat nca_off) (unat (pe_size e))) (\<lambda>(ok, info).
          if \<not> ok then Inr (False, p)
          else
            bind_sum (keep_romfs fuel buf nca_off info p) (\<lambda>p1.
              if exefs_size info > 0 then load_main h buf (nca_off + exefs_offset info) info p1 else Inr (False, p1))))"

text \<open>The loops over the members: the first one that loads ends them.\<close>

fun first_success ::
    "(Pfs0FileEntry \<Rightarrow> path \<Rightarrow> pkg_state \<Rightarrow> pkg_error + (bool \<times> pkg_state)) \<Rightarrow> (Pfs0FileEntry \<times> path) list \<Rightarrow> pkg_state \<Rightarrow>
      pkg_error + (bool \<times> pkg_state)" where
  "first_success f [] p = Inr (False, p)"
| "first_success f ((e, name) # es) p =
     bind_sum (f e name p) (\<lambda>(ok, p'). if ok then Inr (True, p') else first_success f es p')"

definition Loader_LoadExecutable ::
    "native_host \<Rightarrow> nat \<Rightarrow> u8 list \<Rightarrow> pkg_state \<Rightarrow> pkg_error + (bool \<times> pkg_state)" where
  "Loader_LoadExecutable h fuel buf p =
     (if length buf < 4 then Inr (False, p)
      else if word_at buf 0 = NRO0_FILE then Inr (False, p)
      else if word_at buf 0 = PFS0_MAGIC then
        bind_sum (ParsePfs0 buf 0 (length buf)) (\<lambda>r.
          case r of None \<Rightarrow> Inr (False, p)
          | Some (entries, names) \<Rightarrow> first_success (nsp_member h fuel buf) (zip entries names) p)
      else if word_at buf 0 = XCI_MAGIC then
        (if length buf < 0x200 then Inr (False, p)
         else
           let part_off = le64 buf 0x150; part_sz = le64 buf 0x158
           in if unat (part_off + part_sz) > length buf then Inr (False, p)
              else bind_sum (ParsePfs0 buf (unat part_off) (unat part_sz)) (\<lambda>r.
                case r of None \<Rightarrow> Inr (False, p)
                | Some (entries, names) \<Rightarrow> first_success (xci_member h fuel buf part_off) (zip entries names) p))
      else if word_at buf 0 = NSO0_MAGIC then load_nso h buf p
      else Inr (False, p))"

section \<open>Process metadata\<close>

record NpdmInfo =
  npdm_entry_point :: u64
  npdm_stack_size :: u64
  npdm_aslr_base :: u64
  npdm_aslr_size :: u64
  npdm_heap_min :: u64
  npdm_heap_max :: u64
  npdm_title_name :: string

definition NpdmParser_Default :: NpdmInfo where
  "NpdmParser_Default = \<lparr>npdm_entry_point = 0x40000000, npdm_stack_size = 0x100000, npdm_aslr_base = 0x40000000,
     npdm_aslr_size = 0x40000000, npdm_heap_min = 0x80000000, npdm_heap_max = 0xE0000000, npdm_title_name = ''Homebrew''\<rparr>"

text \<open>Nothing of the file reaches the result; too small, wrong magic and a proper file end alike.\<close>

definition NPDM_MAGIC :: u32 where "NPDM_MAGIC = 0x304D4450"

definition NpdmParser_Parse :: "u8 list \<Rightarrow> Result \<times> NpdmInfo" where
  "NpdmParser_Parse buf =
     (if length buf < 0x40 then (Success, NpdmParser_Default)
      else if word_at buf 0 \<noteq> NPDM_MAGIC then (Success, NpdmParser_Default)
      else (Success, NpdmParser_Default))"

section \<open>The archive format\<close>

text \<open>
  An archive as the parser reads it: 16 bytes per member, names in order, then the contents. The comment in front of the parser describes
  entries of 24 bytes.
\<close>

definition entry_table :: "(path \<times> u8 list) list \<Rightarrow> u8 list" where
  "entry_table fs = concat (map (\<lambda>i. le_bytes 8 (of_nat (length (concat (map snd (take i fs)))) :: u64)
      @ le_bytes 8 (of_nat (length (snd (fs ! i))) :: u64)) [0..<length fs])"

definition string_table :: "path list \<Rightarrow> u8 list" where
  "string_table names = concat (map (\<lambda>nm. nm @ [0]) names)"

definition pfs0_image :: "(path \<times> u8 list) list \<Rightarrow> u8 list" where
  "pfs0_image fs =
     le_bytes 4 PFS0_MAGIC @ le_bytes 4 (of_nat (length fs) :: u32) @ le_bytes 4 (of_nat (length (string_table (map fst fs))) :: u32)
     @ le_bytes 4 (0 :: u32) @ entry_table fs @ string_table (map fst fs) @ concat (map snd fs)"

definition pfs0_ok :: "(path \<times> u8 list) list \<Rightarrow> bool" where
  "pfs0_ok fs \<longleftrightarrow> (\<forall>f \<in> set fs. 0 \<notin> set (fst f)) \<and> length (pfs0_image fs) < 2 ^ 32"

subsection \<open>Parsing what was packed\<close>

lemma pfs0_loop_correct:
  assumes "\<And>j. j < n \<Longrightarrow> peek64 buf (tab + unat (of_nat j * 16 :: u32)) = Inr (o' j)"
    and "\<And>j. j < n \<Longrightarrow> peek64 buf (tab + unat (of_nat j * 16 :: u32) + 8) = Inr (z j)"
    and "\<And>j. j < n \<Longrightarrow> (if name_offset (map nm [0..<j]) < ss then c_string buf (strtab + unat (name_offset (map nm [0..<j]))) else Inr []) = Inr (nm j)"
    and "i + k \<le> n"
  shows "pfs0_loop buf tab strtab ss needed i k (map (\<lambda>j. \<lparr>pe_offset = o' j + needed, pe_size = z j\<rparr>) [0..<i]) (map nm [0..<i])
     = Inr (map (\<lambda>j. \<lparr>pe_offset = o' j + needed, pe_size = z j\<rparr>) [0..<i + k], map nm [0..<i + k])"
  using assms(4)
proof (induction k arbitrary: i)
  case (Suc k)
  then have "i < n" and ih: "pfs0_loop buf tab strtab ss needed (Suc i) k (map (\<lambda>j. \<lparr>pe_offset = o' j + needed, pe_size = z j\<rparr>) [0..<Suc i]) (map nm [0..<Suc i])
     = Inr (map (\<lambda>j. \<lparr>pe_offset = o' j + needed, pe_size = z j\<rparr>) [0..<Suc i + k], map nm [0..<Suc i + k])"
    using Suc.IH [of "Suc i"] Suc.prems by simp_all
  then show ?case
    by (simp add: assms(1-3))
qed simp

lemma map_split: "i < length xs \<Longrightarrow> map f xs = map f (take i xs) @ f (xs ! i) # map f (drop (Suc i) xs)"
  using arg_cong [OF id_take_nth_drop, of i xs "map f"] by simp

lemma chunk_of_concat:
  assumes "\<And>x. x \<in> set xs \<Longrightarrow> length x = k" "i < length xs"
  shows "concat xs = concat (take i xs) @ xs ! i @ concat (drop (Suc i) xs)" "length (concat (take i xs)) = k * i"
proof -
  show "concat xs = concat (take i xs) @ xs ! i @ concat (drop (Suc i) xs)"
    using arg_cong [OF id_take_nth_drop [OF assms(2)], of concat] by simp
  have "length (concat ys) = k * length ys" if "set ys \<subseteq> set xs" for ys
    using that assms(1) by (induction ys) auto
  then show "length (concat (take i xs)) = k * i"
    using assms(2) by (simp add: set_take_subset)
qed

lemma string_table_append [simp]: "string_table (xs @ ys) = string_table xs @ string_table ys"
  by (simp add: string_table_def)

lemma name_offset_table: "name_offset names = of_nat (length (string_table names))"
  by (induction names rule: rev_induct) (simp_all add: name_offset_def string_table_def)

definition data_start :: "(path \<times> u8 list) list \<Rightarrow> nat" where
  "data_start fs = 16 + 16 * length fs + length (string_table (map fst fs))"

definition member_offset :: "(path \<times> u8 list) list \<Rightarrow> nat \<Rightarrow> nat" where
  "member_offset fs i = length (concat (map snd (take i fs)))"

lemma length_entry_table [simp]: "length (entry_table fs) = 16 * length fs"
  by (simp add: entry_table_def length_concat comp_def sum_list_triv)

lemma pfs0_entry:
  assumes "i < length fs"
  shows "get_bytes (pfs0_image fs) (16 + 16 * i) 8 = le_bytes 8 (of_nat (member_offset fs i) :: u64)"
    and "get_bytes (pfs0_image fs) (16 + 16 * i + 8) 8 = le_bytes 8 (of_nat (length (snd (fs ! i))) :: u64)"
proof -
  let ?xs = "map (\<lambda>i. le_bytes 8 (of_nat (length (concat (map snd (take i fs)))) :: u64)
      @ le_bytes 8 (of_nat (length (snd (fs ! i))) :: u64)) [0..<length fs]"
  have len: "length x = 16" if "x \<in> set ?xs" for x
    using that by auto
  have "i < length ?xs"
    using assms by simp
  note chunk = chunk_of_concat [OF len this]
  have "entry_table fs = concat (take i ?xs) @ ?xs ! i @ concat (drop (Suc i) ?xs)"
    unfolding entry_table_def by (rule chunk)
  moreover have "length (concat (take i ?xs)) = 16 * i"
    by (rule chunk)
  moreover have "?xs ! i = le_bytes 8 (of_nat (member_offset fs i) :: u64) @ le_bytes 8 (of_nat (length (snd (fs ! i))) :: u64)"
    using assms by (simp add: member_offset_def)
  ultimately obtain A B where e: "entry_table fs = A @ le_bytes 8 (of_nat (member_offset fs i) :: u64) @
      le_bytes 8 (of_nat (length (snd (fs ! i))) :: u64) @ B" and A: "length A = 16 * i"
    by (intro that [of "concat (take i ?xs)" "concat (drop (Suc i) ?xs)"]) (simp_all only: append_assoc)
  show "get_bytes (pfs0_image fs) (16 + 16 * i) 8 = le_bytes 8 (of_nat (member_offset fs i) :: u64)"
    and "get_bytes (pfs0_image fs) (16 + 16 * i + 8) 8 = le_bytes 8 (of_nat (length (snd (fs ! i))) :: u64)"
    unfolding pfs0_image_def e get_bytes_def by (simp_all add: A)
qed

lemma pfs0_name:
  assumes "i < length fs" "\<forall>f \<in> set fs. 0 \<notin> set (fst f)"
  shows "c_string (pfs0_image fs) (16 + 16 * length fs + length (string_table (map fst (take i fs)))) = Inr (fst (fs ! i))"
proof -
  have "map fst fs = map fst (take i fs) @ [fst (fs ! i)] @ map fst (drop (Suc i) fs)"
    using map_split [OF assms(1), of fst] by simp
  then have "string_table (map fst fs) = string_table (map fst (take i fs)) @ fst (fs ! i) @ [0] @ string_table (map fst (drop (Suc i) fs))"
    by (simp add: string_table_def)
  then have "drop (16 + 16 * length fs + length (string_table (map fst (take i fs)))) (pfs0_image fs) =
      fst (fs ! i) @ 0 # string_table (map fst (drop (Suc i) fs)) @ concat (map snd fs)"
    by (simp add: pfs0_image_def)
  moreover have "0 \<notin> set (fst (fs ! i))"
    using assms by simp
  ultimately show ?thesis
    by (auto simp: c_string_def takeWhile_append)
qed

lemma length_pfs0: "length (pfs0_image fs) = data_start fs + length (concat (map snd fs))"
  by (simp add: pfs0_image_def data_start_def)

lemma member_bytes:
  assumes "i < length fs"
  shows "get_bytes (pfs0_image fs) (data_start fs + member_offset fs i) (length (snd (fs ! i))) = snd (fs ! i)"
    and "data_start fs + member_offset fs i + length (snd (fs ! i)) \<le> length (pfs0_image fs)"
proof -
  have "concat (map snd fs) = concat (map snd (take i fs)) @ snd (fs ! i) @ concat (map snd (drop (Suc i) fs))"
    using map_split [OF assms, of snd] by simp
  then show "get_bytes (pfs0_image fs) (data_start fs + member_offset fs i) (length (snd (fs ! i))) = snd (fs ! i)"
    and "data_start fs + member_offset fs i + length (snd (fs ! i)) \<le> length (pfs0_image fs)"
    by (simp_all add: pfs0_image_def data_start_def member_offset_def get_bytes_def)
qed

definition pfs0_entries :: "(path \<times> u8 list) list \<Rightarrow> Pfs0FileEntry list" where
  "pfs0_entries fs = map (\<lambda>i. \<lparr>pe_offset = of_nat (data_start fs + member_offset fs i), pe_size = of_nat (length (snd (fs ! i)))\<rparr>)
     [0..<length fs]"

lemma map_fst_take: "j \<le> length fs \<Longrightarrow> map (\<lambda>i. fst (fs ! i)) [0..<j] = map fst (take j fs)"
  by (rule nth_equalityI) simp_all

lemma unat_small32: "n < 2 ^ 32 \<Longrightarrow> unat (of_nat n :: u32) = n"
  by (simp add: unsigned_of_nat take_bit_nat_eq_self)

lemma unat_small64: "n < 2 ^ 64 \<Longrightarrow> unat (of_nat n :: u64) = n"
  by (simp add: unsigned_of_nat take_bit_nat_eq_self)

lemma pfs0_header:
  "peek (pfs0_image fs) 0 16 = Inr (le_bytes 4 PFS0_MAGIC @ le_bytes 4 (of_nat (length fs) :: u32)
      @ le_bytes 4 (of_nat (length (string_table (map fst fs))) :: u32) @ le_bytes 4 (0 :: u32))"
  by (simp add: peek_def pfs0_image_def)

lemma pfs0_header_words:
  "word_at (le_bytes 4 a @ le_bytes 4 b @ le_bytes 4 c @ le_bytes 4 (d :: u32)) 0 = a"
  "word_at (le_bytes 4 a @ le_bytes 4 b @ le_bytes 4 c @ le_bytes 4 (d :: u32)) 4 = b"
  "word_at (le_bytes 4 a @ le_bytes 4 b @ le_bytes 4 c @ le_bytes 4 (d :: u32)) 8 = c"
  by (simp_all add: word_at_append)

lemma pfs0_name_loop:
  assumes "pfs0_ok fs" "j < length fs"
  shows "(if name_offset (map (\<lambda>i. fst (fs ! i)) [0..<j]) < of_nat (length (string_table (map fst fs)))
      then c_string (pfs0_image fs) (16 + 16 * length fs + unat (name_offset (map (\<lambda>i. fst (fs ! i)) [0..<j]))) else Inr [])
    = Inr (fst (fs ! j))"
proof -
  let ?l = "length (string_table (map fst (take j fs)))"
  have "string_table (map fst fs) = string_table (map fst (take j fs)) @ fst (fs ! j) @ [0] @ string_table (map fst (drop (Suc j) fs))"
    using map_split [OF assms(2), of fst] by (simp add: string_table_def)
  then have lt: "?l < length (string_table (map fst fs))"
    by simp
  have small: "length (string_table (map fst fs)) < 2 ^ 32"
    using assms(1) by (simp add: pfs0_ok_def length_pfs0 data_start_def)
  have "name_offset (map (\<lambda>i. fst (fs ! i)) [0..<j]) = of_nat ?l"
    using assms(2) by (simp add: name_offset_table map_fst_take)
  moreover have "(of_nat ?l :: u32) < of_nat (length (string_table (map fst fs)))" "unat (of_nat ?l :: u32) = ?l"
    using lt small by (simp_all add: word_less_nat_alt unat_small32)
  ultimately show ?thesis
    using pfs0_name [OF assms(2)] assms(1) by (simp add: pfs0_ok_def)
qed

lemma ParsePfs0_image:
  assumes "pfs0_ok fs"
  shows "ParsePfs0 (pfs0_image fs) 0 (length (pfs0_image fs)) = Inr (Some (pfs0_entries fs, map fst fs))"
proof -
  let ?buf = "pfs0_image fs" and ?n = "length fs" and ?s = "length (string_table (map fst fs))"
  have small: "data_start fs + length (concat (map snd fs)) < 2 ^ 32"
    using assms by (simp add: pfs0_ok_def length_pfs0)
  have tab: "unat (of_nat j * 16 :: u32) = 16 * j" if "j \<le> ?n" for j
  proof -
    have "of_nat j * 16 = (of_nat (16 * j) :: u32)" "16 * j < 2 ^ 32"
      using that small by (simp_all add: data_start_def)
    then show ?thesis
      using unat_small32 [of "16 * j"] by (simp add: mult.commute)
  qed
  have s: "unat (of_nat ?n :: u32) = ?n" "unat (of_nat ?s :: u32) = ?s"
    using small by (simp_all add: unat_small32 data_start_def)
  have "peek64 ?buf (16 + unat (of_nat j * 16 :: u32)) = Inr (of_nat (member_offset fs j))"
    "peek64 ?buf (16 + unat (of_nat j * 16 :: u32) + 8) = Inr (of_nat (length (snd (fs ! j))))" if "j < ?n" for j
    using that pfs0_entry [OF that] tab [of j] by (simp_all add: peek64_def peek_def length_pfs0 data_start_def)
  then have "pfs0_loop ?buf 16 (16 + 16 * ?n) (of_nat ?s) (of_nat (data_start fs)) 0 ?n [] [] =
      Inr (pfs0_entries fs, map (\<lambda>i. fst (fs ! i)) [0..<?n])"
    using pfs0_loop_correct [where i = 0 and k = ?n and n = ?n and o' = "\<lambda>j. of_nat (member_offset fs j)"
        and z = "\<lambda>j. of_nat (length (snd (fs ! j)))" and nm = "\<lambda>j. fst (fs ! j)" and buf = ?buf and tab = 16
        and strtab = "16 + 16 * ?n" and ss = "of_nat ?s" and needed = "of_nat (data_start fs)"] pfs0_name_loop [OF assms]
    by (simp add: pfs0_entries_def add.commute)
  then show ?thesis
    using tab [of ?n] s by (simp add: ParsePfs0_def length_pfs0 pfs0_header pfs0_header_words data_start_def map_fst_take Let_def)
qed

lemma peek_part:
  assumes "get_bytes buf at (length d) = d" "at + length d \<le> length buf" "k + n \<le> length d"
  shows "peek buf (at + k) n = Inr (get_bytes d k n)"
proof -
  have "get_bytes buf (at + k) n = take n (drop k (take (length d) (drop at buf)))"
    using assms(3) by (simp add: get_bytes_def drop_take ac_simps min_def)
  then show ?thesis
    using assms by (simp add: peek_def) (simp add: get_bytes_def)
qed

lemma pfs0_magic: "word_at (pfs0_image fs) 0 = PFS0_MAGIC" "4 \<le> length (pfs0_image fs)"
  by (simp_all add: pfs0_image_def word_at_append)

section \<open>Where the executable is looked for\<close>

lemma ParseNca_exefs: "ParseNca buf at len = Inr (ok, info) \<Longrightarrow> exefs_offset info = 0"
proof -
  have sec: "exefs_offset info' = exefs_offset info" if "nca_section buf at len i info = Inr info'" for i info info'
    using that by (auto simp: nca_section_def program_section_def bind_sum_Inr Let_def split: if_splits)
  show "ParseNca buf at len = Inr (ok, info) \<Longrightarrow> exefs_offset info = 0"
    by (auto simp: ParseNca_def bind_sum_Inr nca_info_init_def dest!: sec split: if_splits)
qed

lemma exefs_loop_found:
  "exefs_loop buf at len target is = Inr (Some r) \<Longrightarrow>
    \<exists>i \<in> set is. exefs_name (get_bytes buf (at + 16 * i) 8) = target"
proof (induction "is")
  case (Cons i "is")
  then show ?case
    by (auto simp: bind_sum_Inr peek_def Let_def get_bytes_def min_def mult.commute split: if_splits)
qed simp

lemma load_main_found:
  assumes "load_main h buf a info p = Inr (True, p')"
  shows "\<exists>j < 32. exefs_name (get_bytes buf (unat a + 16 * j) 8) = bytes_of ''main''"
proof -
  obtain r where "exefs_loop buf (unat a) (unat (exefs_size info)) (bytes_of ''main'') [0..<32] = Inr (Some r)"
    using assms by (auto simp: load_main_def FindExeFsEntry_def bind_sum_Inr split: option.splits if_splits)
  from exefs_loop_found [OF this] show ?thesis
    by auto
qed

lemma first_success_found:
  "first_success f es p = Inr (True, p') \<Longrightarrow> \<exists>e name q q'. (e, name) \<in> set es \<and> f e name q = Inr (True, q')"
proof (induction f es p rule: first_success.induct)
  case (2 f e name es p)
  then obtain ok q where q: "f e name p = Inr (ok, q)"
    by (auto simp: bind_sum_Inr)
  show ?case
  proof (cases ok)
    case True
    then show ?thesis
      using q by (intro exI [of _ e] exI [of _ name] exI [of _ p] exI [of _ q]) simp
  next
    case False
    then have "first_success f es q = Inr (True, p')"
      using 2(2) q by simp
    from 2(1) [OF False this] show ?thesis
      by auto
  qed
qed simp

lemma ParseNca_size: "ParseNca buf at len = Inr (True, info) \<Longrightarrow> 0x400 \<le> len"
  by (auto simp: ParseNca_def split: if_splits)

lemma nsp_member_found:
  assumes "nsp_member h fuel buf e name p = Inr (True, p')"
  shows "ends_with_nca name \<and> 0x400 \<le> unat (pe_size e)
    \<and> (\<exists>j < 32. exefs_name (get_bytes buf (unat (pe_offset e) + 16 * j) 8) = bytes_of ''main'')"
proof -
  obtain info q where nca: "ends_with_nca name"
      "ParseNca buf (unat (pe_offset e)) (unat (min (pe_size e) (of_nat (length buf) - pe_offset e))) = Inr (True, info)"
    and main: "load_main h buf (pe_offset e + exefs_offset info) info q = Inr (True, p')"
    using assms by (auto simp: nsp_member_def Let_def bind_sum_Inr split: if_splits)
  have "unat (min (pe_size e) (of_nat (length buf) - pe_offset e)) \<le> unat (pe_size e)"
    by (simp add: word_le_nat_alt [symmetric])
  then show ?thesis
    using nca(1) ParseNca_size [OF nca(2)] load_main_found [OF main] ParseNca_exefs [OF nca(2)] by simp
qed

text \<open>
  The executable of a package is looked for in the wrong place: the position of the ExeFS is never set, so \<open>main\<close> is
  searched in the first 512 bytes of a content archive, which are its own header. Unless one of the 32 slots of a header happens to spell
  \<open>main\<close>, no archive loads, whatever its sections hold.
\<close>

theorem package_main_not_found:
  assumes "pfs0_ok fs"
    and "\<forall>f \<in> set fs. ends_with_nca (fst f) \<longrightarrow> (\<forall>j < 32. exefs_name (get_bytes (snd f) (16 * j) 8) \<noteq> bytes_of ''main'')"
  shows "Loader_LoadExecutable h fuel (pfs0_image fs) p \<noteq> Inr (True, p')"
proof
  let ?buf = "pfs0_image fs"
  assume "Loader_LoadExecutable h fuel ?buf p = Inr (True, p')"
  then have "first_success (nsp_member h fuel ?buf) (zip (pfs0_entries fs) (map fst fs)) p = Inr (True, p')"
    using pfs0_magic [of fs] by (simp add: Loader_LoadExecutable_def NRO0_FILE_def PFS0_MAGIC_def ParsePfs0_image [OF assms(1)])
  from first_success_found [OF this] obtain i q q' where i: "i < length fs"
    and ok: "nsp_member h fuel ?buf (pfs0_entries fs ! i) (fst (fs ! i)) q = Inr (True, q')"
    by (auto simp: in_set_conv_nth pfs0_entries_def)
  let ?a = "data_start fs + member_offset fs i" and ?d = "snd (fs ! i)"
  note mb = member_bytes [OF i]
  have e: "unat (pe_offset (pfs0_entries fs ! i)) = ?a" "unat (pe_size (pfs0_entries fs ! i)) = length ?d"
    using i mb(2) assms(1) by (simp_all add: pfs0_entries_def pfs0_ok_def unat_small64 del: of_nat_add)
  obtain j where j: "j < 32" "exefs_name (get_bytes ?buf (?a + 16 * j) 8) = bytes_of ''main''" "ends_with_nca (fst (fs ! i))"
    and len: "0x400 \<le> length ?d"
    using nsp_member_found [OF ok] e by auto
  have "peek ?buf (?a + 16 * j) 8 = Inr (get_bytes ?d (16 * j) 8)"
    using peek_part [OF mb, of "16 * j" 8] j(1) len by simp
  then show False
    using assms(2) i j by (auto simp: peek_def split: if_splits)
qed

text \<open>A package whose program section starts with an ExeFS that names \<open>main\<close>.\<close>

definition main_nca :: "u8 list" where
  "main_nca = le_bytes 4 NCA3_MAGIC @ replicate 508 0 @ le_bytes 4 (2 :: u32) @ le_bytes 4 (2 :: u32) @ replicate 504 0
     @ bytes_of ''main'' @ replicate 8 0 @ le_bytes 4 (256 :: u32) @ replicate 1008 0"

lemma exefs_name_first:
  assumes "exefs_name bs = bytes_of ''main''"
  shows "bs \<noteq> [] \<and> hd bs = 0x6D"
  using assms by (cases bs) (auto simp: exefs_name_def bytes_of_def split: if_splits)

lemma main_nca_header: "j < 32 \<Longrightarrow> exefs_name (get_bytes main_nca (16 * j) 8) \<noteq> bytes_of ''main''"
proof
  assume j: "j < 32" and m: "exefs_name (get_bytes main_nca (16 * j) 8) = bytes_of ''main''"
  have "length main_nca = 2048"
    by (simp add: main_nca_def bytes_of_def)
  then have "main_nca ! (16 * j) = 0x6D"
    using exefs_name_first [OF m] j by (simp add: get_bytes_def hd_take hd_drop_conv_nth)
  moreover have "main_nca ! (16 * j) \<in> {0, 0x4E}"
    using j by (cases "j = 0") (simp_all add: main_nca_def nth_append NCA3_MAGIC_def)
  ultimately show False
    by auto
qed

lemma main_package_ok: "pfs0_ok [(bytes_of ''a.nca'', main_nca)]"
  by (simp add: pfs0_ok_def length_pfs0 data_start_def string_table_def bytes_of_def main_nca_def)

theorem package_main_not_found_witness:
  "exefs_name (get_bytes main_nca 1024 8) = bytes_of ''main'' \<and>
   (\<forall>p'. Loader_LoadExecutable sample_host 1 (pfs0_image [(bytes_of ''a.nca'', main_nca)])
      \<lparr>p_native = sample_native, p_fs = fs_init, p_info = NsoLoadInfo_init\<rparr> \<noteq> Inr (True, p'))"
proof (intro conjI allI)
  show "exefs_name (get_bytes main_nca 1024 8) = bytes_of ''main''"
    by (simp add: get_bytes_def main_nca_def bytes_of_def exefs_name_def)
  show "Loader_LoadExecutable sample_host 1 (pfs0_image [(bytes_of ''a.nca'', main_nca)])
      \<lparr>p_native = sample_native, p_fs = fs_init, p_info = NsoLoadInfo_init\<rparr> \<noteq> Inr (True, p')" for p'
    by (rule package_main_not_found [OF main_package_ok]) (simp add: main_nca_header)
qed

end
