(* ===== verification/SpirvModule.thy ===== *)
theory SpirvModule
  imports ShaderIr "HOL-Library.State_Monad"
begin

unbundle bit_operations_syntax

text \<open>
  The module builder of the SPIR-V emitter: \<^verbatim>\<open>src/src/gpu/shader/SpirvEmitter.h\<close> and the first part of
  \<^verbatim>\<open>SpirvEmitter.cpp\<close> (up to \<^verbatim>\<open>EmitUndef\<close>). The members of the class are the record \<open>emitter\<close>; a method is a
  program of the state monad over it, in the order of the code's calls.

  A stream of words is read back by \<open>parse_spirv\<close>, the format's own rule: the high half of an instruction's first word is
  its length. The predicate \<open>emits k m\<close> says that \<open>m\<close> appends whole instructions, takes at most \<open>k\<close> new ids, and that the results of what it
  appends are distinct and among the ids it took; it is closed under the constructs of the monad, and every method of the
  builder satisfies it.
\<close>

section \<open>Numbers of the format\<close>

text \<open>The opcodes of the emitter's header file, and the numbers of the extended instruction set.\<close>

named_theorems spirv_ops

definition OpCapability :: u32 where [spirv_ops]: "OpCapability = 17"
definition OpExtInstImport :: u32 where [spirv_ops]: "OpExtInstImport = 11"
definition OpMemoryModel :: u32 where [spirv_ops]: "OpMemoryModel = 14"
definition OpEntryPoint :: u32 where [spirv_ops]: "OpEntryPoint = 15"
definition OpExecutionMode :: u32 where [spirv_ops]: "OpExecutionMode = 16"
definition OpSourceLanguage :: u32 where [spirv_ops]: "OpSourceLanguage = 2"
definition OpName :: u32 where [spirv_ops]: "OpName = 5"
definition OpMemberName :: u32 where [spirv_ops]: "OpMemberName = 6"
definition OpDecorate :: u32 where [spirv_ops]: "OpDecorate = 71"
definition OpMemberDecorate :: u32 where [spirv_ops]: "OpMemberDecorate = 72"
definition OpTypeVoid :: u32 where [spirv_ops]: "OpTypeVoid = 19"
definition OpTypeBool :: u32 where [spirv_ops]: "OpTypeBool = 20"
definition OpTypeInt :: u32 where [spirv_ops]: "OpTypeInt = 21"
definition OpTypeFloat :: u32 where [spirv_ops]: "OpTypeFloat = 22"
definition OpTypeVector :: u32 where [spirv_ops]: "OpTypeVector = 23"
definition OpTypeArray :: u32 where [spirv_ops]: "OpTypeArray = 28"
definition OpTypeRuntimeArray :: u32 where [spirv_ops]: "OpTypeRuntimeArray = 29"
definition OpTypeStruct :: u32 where [spirv_ops]: "OpTypeStruct = 30"
definition OpTypePointer :: u32 where [spirv_ops]: "OpTypePointer = 32"
definition OpTypeFunction :: u32 where [spirv_ops]: "OpTypeFunction = 33"
definition OpConstant :: u32 where [spirv_ops]: "OpConstant = 43"
definition OpConstantTrue :: u32 where [spirv_ops]: "OpConstantTrue = 41"
definition OpConstantFalse :: u32 where [spirv_ops]: "OpConstantFalse = 42"
definition OpConstantComposite :: u32 where [spirv_ops]: "OpConstantComposite = 44"
definition OpConstantNull :: u32 where [spirv_ops]: "OpConstantNull = 46"
definition OpUndef :: u32 where [spirv_ops]: "OpUndef = 1"
definition OpVariable :: u32 where [spirv_ops]: "OpVariable = 59"
definition OpFunction :: u32 where [spirv_ops]: "OpFunction = 54"
definition OpFunctionParameter :: u32 where [spirv_ops]: "OpFunctionParameter = 55"
definition OpFunctionEnd :: u32 where [spirv_ops]: "OpFunctionEnd = 56"
definition OpFunctionCall :: u32 where [spirv_ops]: "OpFunctionCall = 57"
definition OpLabel :: u32 where [spirv_ops]: "OpLabel = 248"
definition OpBranch :: u32 where [spirv_ops]: "OpBranch = 249"
definition OpBranchConditional :: u32 where [spirv_ops]: "OpBranchConditional = 250"
definition OpSwitch :: u32 where [spirv_ops]: "OpSwitch = 251"
definition OpReturn :: u32 where [spirv_ops]: "OpReturn = 253"
definition OpKill :: u32 where [spirv_ops]: "OpKill = 252"
definition OpUnreachable :: u32 where [spirv_ops]: "OpUnreachable = 255"
definition OpLoopMerge :: u32 where [spirv_ops]: "OpLoopMerge = 246"
definition OpSelectionMerge :: u32 where [spirv_ops]: "OpSelectionMerge = 247"
definition OpLoad :: u32 where [spirv_ops]: "OpLoad = 61"
definition OpStore :: u32 where [spirv_ops]: "OpStore = 62"
definition OpAccessChain :: u32 where [spirv_ops]: "OpAccessChain = 65"
definition OpFAdd :: u32 where [spirv_ops]: "OpFAdd = 129"
definition OpFSub :: u32 where [spirv_ops]: "OpFSub = 131"
definition OpFMul :: u32 where [spirv_ops]: "OpFMul = 133"
definition OpFDiv :: u32 where [spirv_ops]: "OpFDiv = 136"
definition OpFNegate :: u32 where [spirv_ops]: "OpFNegate = 127"
definition OpFOrdGreaterThan :: u32 where [spirv_ops]: "OpFOrdGreaterThan = 152"
definition OpFOrdLessThan :: u32 where [spirv_ops]: "OpFOrdLessThan = 154"
definition OpFOrdEqual :: u32 where [spirv_ops]: "OpFOrdEqual = 156"
definition OpFUnordNotEqual :: u32 where [spirv_ops]: "OpFUnordNotEqual = 158"
definition OpConvertFToU :: u32 where [spirv_ops]: "OpConvertFToU = 109"
definition OpConvertFToS :: u32 where [spirv_ops]: "OpConvertFToS = 110"
definition OpConvertUToF :: u32 where [spirv_ops]: "OpConvertUToF = 112"
definition OpConvertSToF :: u32 where [spirv_ops]: "OpConvertSToF = 111"
definition OpBitcast :: u32 where [spirv_ops]: "OpBitcast = 124"
definition OpIAdd :: u32 where [spirv_ops]: "OpIAdd = 128"
definition OpISub :: u32 where [spirv_ops]: "OpISub = 130"
definition OpIMul :: u32 where [spirv_ops]: "OpIMul = 132"
definition OpSNegate :: u32 where [spirv_ops]: "OpSNegate = 126"
definition OpSLessThan :: u32 where [spirv_ops]: "OpSLessThan = 139"
definition OpSLessThanEqual :: u32 where [spirv_ops]: "OpSLessThanEqual = 140"
definition OpSGreaterThan :: u32 where [spirv_ops]: "OpSGreaterThan = 141"
definition OpSGreaterThanEqual :: u32 where [spirv_ops]: "OpSGreaterThanEqual = 142"
definition OpIEqual :: u32 where [spirv_ops]: "OpIEqual = 143"
definition OpINotEqual :: u32 where [spirv_ops]: "OpINotEqual = 144"
definition OpULessThan :: u32 where [spirv_ops]: "OpULessThan = 145"
definition OpULessThanEqual :: u32 where [spirv_ops]: "OpULessThanEqual = 146"
definition OpUGreaterThan :: u32 where [spirv_ops]: "OpUGreaterThan = 147"
definition OpUGreaterThanEqual :: u32 where [spirv_ops]: "OpUGreaterThanEqual = 148"
definition OpShiftLeftLogical :: u32 where [spirv_ops]: "OpShiftLeftLogical = 165"
definition OpShiftRightLogical :: u32 where [spirv_ops]: "OpShiftRightLogical = 166"
definition OpShiftRightArithmetic :: u32 where [spirv_ops]: "OpShiftRightArithmetic = 167"
definition OpBitwiseOr :: u32 where [spirv_ops]: "OpBitwiseOr = 170"
definition OpBitwiseXor :: u32 where [spirv_ops]: "OpBitwiseXor = 171"
definition OpBitwiseAnd :: u32 where [spirv_ops]: "OpBitwiseAnd = 172"
definition OpBitFieldInsert :: u32 where [spirv_ops]: "OpBitFieldInsert = 175"
definition OpBitFieldSExtract :: u32 where [spirv_ops]: "OpBitFieldSExtract = 176"
definition OpBitFieldUExtract :: u32 where [spirv_ops]: "OpBitFieldUExtract = 177"
definition OpNot :: u32 where [spirv_ops]: "OpNot = 283"
definition OpSelect :: u32 where [spirv_ops]: "OpSelect = 169"
definition OpCompositeConstruct :: u32 where [spirv_ops]: "OpCompositeConstruct = 80"
definition OpCompositeExtract :: u32 where [spirv_ops]: "OpCompositeExtract = 81"
definition OpVectorShuffle :: u32 where [spirv_ops]: "OpVectorShuffle = 79"
definition OpSampledImage :: u32 where [spirv_ops]: "OpSampledImage = 86"
definition OpImageSampleExplicitLod :: u32 where [spirv_ops]: "OpImageSampleExplicitLod = 88"
definition OpExtInst :: u32 where [spirv_ops]: "OpExtInst = 12"
definition OpTypeImage :: u32 where [spirv_ops]: "OpTypeImage = 25"
definition OpTypeSampledImage :: u32 where [spirv_ops]: "OpTypeSampledImage = 27"

definition GlslRound :: u32 where [spirv_ops]: "GlslRound = 1"
definition GlslTrunc :: u32 where [spirv_ops]: "GlslTrunc = 2"
definition GlslFAbs :: u32 where [spirv_ops]: "GlslFAbs = 4"
definition GlslSAbs :: u32 where [spirv_ops]: "GlslSAbs = 5"
definition GlslFloor :: u32 where [spirv_ops]: "GlslFloor = 8"
definition GlslCeil :: u32 where [spirv_ops]: "GlslCeil = 9"
definition GlslFract :: u32 where [spirv_ops]: "GlslFract = 10"
definition GlslSin :: u32 where [spirv_ops]: "GlslSin = 13"
definition GlslCos :: u32 where [spirv_ops]: "GlslCos = 14"
definition GlslTan :: u32 where [spirv_ops]: "GlslTan = 15"
definition GlslExp2 :: u32 where [spirv_ops]: "GlslExp2 = 22"
definition GlslLog2 :: u32 where [spirv_ops]: "GlslLog2 = 24"
definition GlslSqrt :: u32 where [spirv_ops]: "GlslSqrt = 31"
definition GlslInverseSqrt :: u32 where [spirv_ops]: "GlslInverseSqrt = 32"
definition GlslFMin :: u32 where [spirv_ops]: "GlslFMin = 37"
definition GlslFMax :: u32 where [spirv_ops]: "GlslFMax = 40"
definition GlslFClamp :: u32 where [spirv_ops]: "GlslFClamp = 43"

definition SPIRV_MAGIC :: u32 where "SPIRV_MAGIC = 0x07230203"
definition SPIRV_VERSION :: u32 where "SPIRV_VERSION = 0x00010000"

datatype SpirvStorageClass = SC_UniformConstant | SC_Input | SC_Uniform | SC_Output | SC_Workgroup | SC_CrossWorkgroup
  | SC_Private | SC_Function | SC_Generic | SC_PushConstant | SC_AtomicCounter | SC_Image | SC_StorageBuffer

fun class_code :: "SpirvStorageClass \<Rightarrow> u32" where
  "class_code SC_UniformConstant = 0"
| "class_code SC_Input = 1"
| "class_code SC_Uniform = 2"
| "class_code SC_Output = 3"
| "class_code SC_Workgroup = 4"
| "class_code SC_CrossWorkgroup = 5"
| "class_code SC_Private = 6"
| "class_code SC_Function = 7"
| "class_code SC_Generic = 8"
| "class_code SC_PushConstant = 9"
| "class_code SC_AtomicCounter = 10"
| "class_code SC_Image = 11"
| "class_code SC_StorageBuffer = 12"

datatype SpirvDecoration = Deco_Location | Deco_DescriptorSet | Deco_Binding | Deco_BuiltIn | Deco_Flat
  | Deco_NoPerspective | Deco_Centroid | Deco_Sample | Deco_RelaxedPrecision | Deco_ArrayStride

fun decoration :: "SpirvDecoration \<Rightarrow> u32" where
  "decoration Deco_Location = 30"
| "decoration Deco_DescriptorSet = 34"
| "decoration Deco_Binding = 33"
| "decoration Deco_BuiltIn = 11"
| "decoration Deco_Flat = 13"
| "decoration Deco_NoPerspective = 14"
| "decoration Deco_Centroid = 17"
| "decoration Deco_Sample = 18"
| "decoration Deco_RelaxedPrecision = 35"
| "decoration Deco_ArrayStride = 6"

definition BuiltIn_Position :: u32 where "BuiltIn_Position = 0"

section \<open>The emitter's state\<close>

record TypeIds =
  void_t :: u32
  bool_t :: u32
  f32_t :: u32
  i32_t :: u32
  u32_t :: u32
  vec2f32_t :: u32
  vec3f32_t :: u32
  vec4f32_t :: u32
  vec2i32_t :: u32
  vec3i32_t :: u32
  vec4i32_t :: u32
  vec2u32_t :: u32
  vec3u32_t :: u32
  vec4u32_t :: u32
  f32_fnptr :: u32
  vec4f32_input_ptr :: u32
  vec4f32_output_ptr :: u32
  f32_uniform_ptr :: u32
  f32_image_2d :: u32
  sampled_image_2d :: u32
  cbuf_struct :: u32
  cbuf_runtime_array :: u32
  cbuf_ptr :: u32
  bool_fnptr :: u32

definition no_types :: TypeIds where
  "no_types = \<lparr>void_t = 0, bool_t = 0, f32_t = 0, i32_t = 0, u32_t = 0, vec2f32_t = 0, vec3f32_t = 0, vec4f32_t = 0,
     vec2i32_t = 0, vec3i32_t = 0, vec4i32_t = 0, vec2u32_t = 0, vec3u32_t = 0, vec4u32_t = 0, f32_fnptr = 0,
     vec4f32_input_ptr = 0, vec4f32_output_ptr = 0, f32_uniform_ptr = 0, f32_image_2d = 0, sampled_image_2d = 0,
     cbuf_struct = 0, cbuf_runtime_array = 0, cbuf_ptr = 0, bool_fnptr = 0\<rparr>"

record ShaderIo =
  vert_in_position :: u32
  vert_in_color :: u32
  vert_out_position :: u32
  vert_out_color :: u32
  frag_in_color :: u32
  frag_out_color :: u32

definition no_io :: ShaderIo where
  "no_io = \<lparr>vert_in_position = 0, vert_in_color = 0, vert_out_position = 0, vert_out_color = 0, frag_in_color = 0,
     frag_out_color = 0\<rparr>"

datatype CfgBlockType = Block_Normal | Block_Selection | Block_Loop | Block_Merge

record SsyStackEntry =
  se_ssy_pc :: u32
  se_sync_pc :: u32
  se_type :: CfgBlockType
  merge_label :: u32
  continue_label :: u32

record CfgEmitState =
  pc_to_label :: "u32 \<rightharpoonup> u32"
  ssy_stack :: "SsyStackEntry list"
  pred_vars :: "u32 \<rightharpoonup> u32"
  labels_emitted :: "u32 set"

definition cfg_clear :: CfgEmitState where
  "cfg_clear = \<lparr>pc_to_label = Map.empty, ssy_stack = [], pred_vars = Map.empty, labels_emitted = {}\<rparr>"

record emitter =
  em_words :: "u32 list"
  em_error :: string
  em_next_id :: u32
  em_bound :: u32
  em_types :: TypeIds
  glsl_ext_id :: u32
  cbuf_var_id :: u32
  tex_sampled_image_var :: u32
  const_f32_zero :: u32
  const_f32_one :: u32
  const_true :: u32
  const_false :: u32
  types_built :: bool
  em_io :: ShaderIo
  cfg_state :: CfgEmitState

definition new_emitter :: emitter where
  "new_emitter = \<lparr>em_words = [], em_error = [], em_next_id = 1, em_bound = 0, em_types = no_types, glsl_ext_id = 0, cbuf_var_id = 0,
     tex_sampled_image_var = 0, const_f32_zero = 0, const_f32_one = 0, const_true = 0, const_false = 0, types_built = False,
     em_io = no_io, cfg_state = cfg_clear\<rparr>"

type_synonym 'a emit = "(emitter, 'a) state"

abbreviation return :: "'a \<Rightarrow> 'a emit" where "return \<equiv> State_Monad.return"

text \<open>Reading a member, and assigning to members.\<close>

definition gets :: "(emitter \<Rightarrow> 'a) \<Rightarrow> 'a emit" where
  "gets f = do {s \<leftarrow> State_Monad.get; return (f s)}"

definition modify :: "(emitter \<Rightarrow> emitter) \<Rightarrow> unit emit" where
  "modify f = do {s \<leftarrow> State_Monad.get; State_Monad.set (f s)}"

definition ty_id :: "(TypeIds \<Rightarrow> u32) \<Rightarrow> u32 emit" where
  "ty_id f = gets (\<lambda>s. f (em_types s))"

section \<open>Words and instructions\<close>

definition AllocId :: "u32 emit" where
  "AllocId = do {
     id \<leftarrow> gets em_next_id;
     modify (\<lambda>s. s\<lparr>em_next_id := id + 1, em_bound := max (em_bound s) (id + 1)\<rparr>);
     return id}"

definition EmitWord :: "u32 \<Rightarrow> unit emit" where
  "EmitWord w = modify (\<lambda>s. s\<lparr>em_words := em_words s @ [w]\<rparr>)"

definition EmitWords :: "u32 list \<Rightarrow> unit emit" where
  "EmitWords ws = modify (\<lambda>s. s\<lparr>em_words := em_words s @ ws\<rparr>)"

text \<open>A string with its terminator, four characters to a word.\<close>

definition string_word :: "string \<Rightarrow> nat \<Rightarrow> u32" where
  "string_word str i = fold (\<lambda>j w. w OR push_bit (8 * j) (if i + j < length str then of_char (str ! (i + j)) else 0)) [0..<4] 0"

definition string_words :: "string \<Rightarrow> u32 list" where
  "string_words str = map (\<lambda>i. string_word str (4 * i)) [0..<(length str + 4) div 4]"

definition EmitString :: "string \<Rightarrow> unit emit" where
  "EmitString str = EmitWords (string_words str)"

definition EmitInst :: "u32 \<Rightarrow> u32 \<Rightarrow> u32 list \<Rightarrow> unit emit" where
  "EmitInst opcode operand_count operands =
     do {EmitWord (push_bit 16 (operand_count + 1) OR opcode); EmitWords operands}"

definition EmitInst1 :: "u32 \<Rightarrow> u32 \<Rightarrow> unit emit" where
  "EmitInst1 opcode op1 = do {EmitWord (push_bit 16 2 OR opcode); EmitWord op1}"

definition EmitInst2 :: "u32 \<Rightarrow> u32 \<Rightarrow> u32 \<Rightarrow> unit emit" where
  "EmitInst2 opcode op1 op2 = do {EmitWord (push_bit 16 3 OR opcode); EmitWord op1; EmitWord op2}"

definition EmitInst3 :: "u32 \<Rightarrow> u32 \<Rightarrow> u32 \<Rightarrow> u32 \<Rightarrow> unit emit" where
  "EmitInst3 opcode op1 op2 op3 = do {EmitWord (push_bit 16 4 OR opcode); EmitWord op1; EmitWord op2; EmitWord op3}"

definition EmitInst4 :: "u32 \<Rightarrow> u32 \<Rightarrow> u32 \<Rightarrow> u32 \<Rightarrow> u32 \<Rightarrow> unit emit" where
  "EmitInst4 opcode op1 op2 op3 op4 =
     do {EmitWord (push_bit 16 5 OR opcode); EmitWord op1; EmitWord op2; EmitWord op3; EmitWord op4}"

definition EmitInst5 :: "u32 \<Rightarrow> u32 \<Rightarrow> u32 \<Rightarrow> u32 \<Rightarrow> u32 \<Rightarrow> u32 \<Rightarrow> unit emit" where
  "EmitInst5 opcode op1 op2 op3 op4 op5 =
     do {EmitWord (push_bit 16 6 OR opcode); EmitWord op1; EmitWord op2; EmitWord op3; EmitWord op4; EmitWord op5}"

definition EmitExtInst :: "u32 \<Rightarrow> u32 \<Rightarrow> u32 list \<Rightarrow> u32 emit" where
  "EmitExtInst result_type instruction operands = do {
     id \<leftarrow> AllocId;
     ext \<leftarrow> gets glsl_ext_id;
     let ops = [result_type, id, ext, instruction] @ operands;
     EmitInst OpExtInst (of_nat (length ops)) ops;
     return id}"

definition EmitFMax :: "u32 \<Rightarrow> u32 \<Rightarrow> u32 \<Rightarrow> u32 emit" where
  "EmitFMax ty op1 op2 = EmitExtInst ty GlslFMax [op1, op2]"

definition EmitFMin :: "u32 \<Rightarrow> u32 \<Rightarrow> u32 \<Rightarrow> u32 emit" where
  "EmitFMin ty op1 op2 = EmitExtInst ty GlslFMin [op1, op2]"

definition EmitFAbs :: "u32 \<Rightarrow> u32 \<Rightarrow> u32 emit" where
  "EmitFAbs ty op1 = EmitExtInst ty GlslFAbs [op1]"

section \<open>Header, types, constants, variables\<close>

definition EmitHeader :: "unit emit" where
  "EmitHeader = do {EmitWord SPIRV_MAGIC; EmitWord SPIRV_VERSION; EmitWord 0; EmitWord 0; EmitWord 0}"

definition EmitCapabilities :: "ShaderProgram \<Rightarrow> unit emit" where
  "EmitCapabilities program = do {
     EmitInst1 OpCapability 1;
     if sp_uses_textures program then EmitInst1 OpCapability 33 else return ()}"

definition EmitTypeImage :: "u32 \<Rightarrow> u32 \<Rightarrow> u32 \<Rightarrow> u32 \<Rightarrow> u32 \<Rightarrow> u32 \<Rightarrow> u32 \<Rightarrow> u32 emit" where
  "EmitTypeImage sampled_type dim depth arrayed ms sampled image_format = do {id \<leftarrow> AllocId; EmitInst OpTypeImage 8 [id, sampled_type, dim, depth, arrayed, ms, sampled, image_format]; return id}"

definition EmitTypeSampledImage :: "u32 \<Rightarrow> u32 emit" where
  "EmitTypeSampledImage image_type = do {id \<leftarrow> AllocId; EmitInst2 OpTypeSampledImage id image_type; return id}"

definition EmitTypeVoid :: "u32 emit" where
  "EmitTypeVoid = do {id \<leftarrow> AllocId; EmitInst1 OpTypeVoid id; return id}"

definition EmitTypeBool :: "u32 emit" where
  "EmitTypeBool = do {id \<leftarrow> AllocId; EmitInst1 OpTypeBool id; return id}"

definition EmitTypeFloat :: "u32 \<Rightarrow> u32 emit" where
  "EmitTypeFloat width = do {id \<leftarrow> AllocId; EmitInst2 OpTypeFloat id width; return id}"

definition EmitTypeInt :: "u32 \<Rightarrow> bool \<Rightarrow> u32 emit" where
  "EmitTypeInt width is_signed = do {id \<leftarrow> AllocId; EmitInst3 OpTypeInt id width (if is_signed then 1 else 0); return id}"

definition EmitTypeVector :: "u32 \<Rightarrow> u32 \<Rightarrow> u32 emit" where
  "EmitTypeVector component_type count = do {id \<leftarrow> AllocId; EmitInst3 OpTypeVector id component_type count; return id}"

definition EmitTypePointer :: "u32 \<Rightarrow> u32 \<Rightarrow> u32 emit" where
  "EmitTypePointer storage_class pointee_type = do {id \<leftarrow> AllocId; EmitInst3 OpTypePointer id storage_class pointee_type; return id}"

definition EmitTypeFunction :: "u32 \<Rightarrow> u32 list \<Rightarrow> u32 emit" where
  "EmitTypeFunction return_type param_types = do {
     id \<leftarrow> AllocId;
     let operands = [id, return_type] @ param_types;
     EmitInst OpTypeFunction (of_nat (length operands)) operands;
     return id}"

definition EmitTypeArray :: "u32 \<Rightarrow> u32 \<Rightarrow> u32 emit" where
  "EmitTypeArray element_type length_id = do {id \<leftarrow> AllocId; EmitInst3 OpTypeArray id element_type length_id; return id}"

definition EmitTypeRuntimeArray :: "u32 \<Rightarrow> u32 emit" where
  "EmitTypeRuntimeArray element_type = do {id \<leftarrow> AllocId; EmitInst2 OpTypeRuntimeArray id element_type; return id}"

definition EmitTypeStruct :: "u32 list \<Rightarrow> u32 emit" where
  "EmitTypeStruct member_types = do {
     id \<leftarrow> AllocId;
     let operands = [id] @ member_types;
     EmitInst OpTypeStruct (of_nat (length operands)) operands;
     return id}"

text \<open>The members of \<^verbatim>\<open>types_\<close> are assigned one by one, each from the id of the instruction just emitted.\<close>

definition assign_type :: "((u32 \<Rightarrow> u32) \<Rightarrow> TypeIds \<Rightarrow> TypeIds) \<Rightarrow> u32 emit \<Rightarrow> unit emit" where
  "assign_type upd m = do {id \<leftarrow> m; modify (\<lambda>s. s\<lparr>em_types := upd (\<lambda>_. id) (em_types s)\<rparr>)}"

definition BuildBaseTypes :: "unit emit" where
  "BuildBaseTypes = do {
     built \<leftarrow> gets types_built;
     if built then return ()
     else do {
       modify (\<lambda>s. s\<lparr>types_built := True\<rparr>);
       assign_type void_t_update EmitTypeVoid;
       assign_type bool_t_update EmitTypeBool;
       assign_type f32_t_update (EmitTypeFloat 32);
       assign_type i32_t_update (EmitTypeInt 32 True);
       assign_type u32_t_update (EmitTypeInt 32 False);
       assign_type vec2f32_t_update (do {t \<leftarrow> ty_id f32_t; EmitTypeVector t 2});
       assign_type vec3f32_t_update (do {t \<leftarrow> ty_id f32_t; EmitTypeVector t 3});
       assign_type vec4f32_t_update (do {t \<leftarrow> ty_id f32_t; EmitTypeVector t 4});
       assign_type vec2i32_t_update (do {t \<leftarrow> ty_id i32_t; EmitTypeVector t 2});
       assign_type vec3i32_t_update (do {t \<leftarrow> ty_id i32_t; EmitTypeVector t 3});
       assign_type vec4i32_t_update (do {t \<leftarrow> ty_id i32_t; EmitTypeVector t 4});
       assign_type vec2u32_t_update (do {t \<leftarrow> ty_id u32_t; EmitTypeVector t 2});
       assign_type vec3u32_t_update (do {t \<leftarrow> ty_id u32_t; EmitTypeVector t 3});
       assign_type vec4u32_t_update (do {t \<leftarrow> ty_id u32_t; EmitTypeVector t 4});
       assign_type f32_fnptr_update (do {t \<leftarrow> ty_id f32_t; EmitTypePointer (class_code SC_Function) t});
       assign_type vec4f32_input_ptr_update (do {t \<leftarrow> ty_id vec4f32_t; EmitTypePointer (class_code SC_Input) t});
       assign_type vec4f32_output_ptr_update (do {t \<leftarrow> ty_id vec4f32_t; EmitTypePointer (class_code SC_Output) t});
       assign_type f32_uniform_ptr_update (do {t \<leftarrow> ty_id f32_t; EmitTypePointer (class_code SC_Uniform) t});
       image_2d \<leftarrow> do {t \<leftarrow> ty_id f32_t; EmitTypeImage t 1 0 0 0 1 0};
       assign_type f32_image_2d_update (EmitTypePointer (class_code SC_UniformConstant) image_2d);
       assign_type sampled_image_2d_update (EmitTypeSampledImage image_2d);
       arr \<leftarrow> ty_id cbuf_runtime_array;
       f32 \<leftarrow> ty_id f32_t;
       EmitInst2 OpTypeRuntimeArray arr f32;
       str \<leftarrow> ty_id cbuf_struct;
       EmitInst OpTypeStruct 2 [str, arr];
       assign_type cbuf_ptr_update (EmitTypePointer (class_code SC_Uniform) str);
       assign_type bool_fnptr_update (do {t \<leftarrow> ty_id bool_t; EmitTypePointer (class_code SC_Function) t})}}"

definition EmitDecoration :: "u32 \<Rightarrow> u32 \<Rightarrow> u32 \<Rightarrow> unit emit" where
  "EmitDecoration target deco value = EmitInst3 OpDecorate target deco value"

definition EmitDecorationBuiltIn :: "u32 \<Rightarrow> u32 \<Rightarrow> unit emit" where
  "EmitDecorationBuiltIn target built_in = EmitInst3 OpDecorate target (decoration Deco_BuiltIn) built_in"

definition EmitDecorationLocation :: "u32 \<Rightarrow> u32 \<Rightarrow> unit emit" where
  "EmitDecorationLocation target location = EmitInst3 OpDecorate target (decoration Deco_Location) location"

definition EmitDecorationDescriptorSet :: "u32 \<Rightarrow> u32 \<Rightarrow> unit emit" where
  "EmitDecorationDescriptorSet target set_no = EmitInst3 OpDecorate target (decoration Deco_DescriptorSet) set_no"

definition EmitDecorationBinding :: "u32 \<Rightarrow> u32 \<Rightarrow> unit emit" where
  "EmitDecorationBinding target binding_no = EmitInst3 OpDecorate target (decoration Deco_Binding) binding_no"

text \<open>A floating-point or signed constant is given by its bits.\<close>

definition EmitConstantF32 :: "u32 \<Rightarrow> u32 emit" where
  "EmitConstantF32 bits = do {id \<leftarrow> AllocId; t \<leftarrow> ty_id f32_t; EmitInst3 OpConstant t id bits; return id}"

definition EmitConstantU32 :: "u32 \<Rightarrow> u32 emit" where
  "EmitConstantU32 value = do {id \<leftarrow> AllocId; t \<leftarrow> ty_id u32_t; EmitInst3 OpConstant t id value; return id}"

definition EmitConstantS32 :: "u32 \<Rightarrow> u32 emit" where
  "EmitConstantS32 bits = do {id \<leftarrow> AllocId; t \<leftarrow> ty_id i32_t; EmitInst3 OpConstant t id bits; return id}"

definition EmitConstantBool :: "bool \<Rightarrow> u32 emit" where
  "EmitConstantBool value = do {
     id \<leftarrow> AllocId;
     t \<leftarrow> ty_id bool_t;
     EmitInst2 (if value then OpConstantTrue else OpConstantFalse) t id;
     return id}"

definition EmitConstantComposite :: "u32 \<Rightarrow> u32 list \<Rightarrow> u32 emit" where
  "EmitConstantComposite type_id constituents = do {
     id \<leftarrow> AllocId;
     let operands = [type_id, id] @ constituents;
     EmitInst OpConstantComposite (of_nat (length operands)) operands;
     return id}"

definition EmitVariablePreallocated :: "u32 \<Rightarrow> u32 \<Rightarrow> u32 \<Rightarrow> u32 \<Rightarrow> u32 emit" where
  "EmitVariablePreallocated var_id type_ptr_id storage init = do {
     (if init \<noteq> 0 then EmitInst4 OpVariable type_ptr_id var_id storage init
      else EmitInst3 OpVariable type_ptr_id var_id storage);
     return var_id}"

definition EmitVariable :: "u32 \<Rightarrow> u32 \<Rightarrow> u32 \<Rightarrow> u32 emit" where
  "EmitVariable type_ptr_id storage init = do {
     id \<leftarrow> AllocId;
     (if init \<noteq> 0 then EmitInst4 OpVariable type_ptr_id id storage init
      else EmitInst3 OpVariable type_ptr_id id storage);
     return id}"

definition EmitFunctionParameter :: "u32 \<Rightarrow> u32 \<Rightarrow> unit emit" where
  "EmitFunctionParameter type_id func_id = do {
     param_id \<leftarrow> AllocId;
     EmitInst3 OpFunctionParameter type_id param_id func_id}"

section \<open>Control flow and memory\<close>

definition EmitLabel :: "u32 emit" where
  "EmitLabel = do {id \<leftarrow> AllocId; EmitInst1 OpLabel id; return id}"

definition EmitBranch :: "u32 \<Rightarrow> unit emit" where
  "EmitBranch target_label = EmitInst1 OpBranch target_label"

definition EmitBranchConditional :: "u32 \<Rightarrow> u32 \<Rightarrow> u32 \<Rightarrow> unit emit" where
  "EmitBranchConditional cond_id true_label false_label = EmitInst3 OpBranchConditional cond_id true_label false_label"

definition EmitReturn :: "unit emit" where
  "EmitReturn = EmitWord (push_bit 16 1 OR OpReturn)"

definition EmitKill :: "unit emit" where
  "EmitKill = EmitWord (push_bit 16 1 OR OpKill)"

definition EmitUnreachable :: "unit emit" where
  "EmitUnreachable = EmitWord (push_bit 16 1 OR OpUnreachable)"

definition EmitLoopMerge :: "u32 \<Rightarrow> u32 \<Rightarrow> unit emit" where
  "EmitLoopMerge merge continue = EmitInst3 OpLoopMerge merge continue 0"

definition EmitSelectionMerge :: "u32 \<Rightarrow> unit emit" where
  "EmitSelectionMerge merge = EmitInst2 OpSelectionMerge merge 0"

definition EmitLoad :: "u32 \<Rightarrow> u32 \<Rightarrow> u32 emit" where
  "EmitLoad result_type pointer = do {id \<leftarrow> AllocId; EmitInst3 OpLoad result_type id pointer; return id}"

definition EmitStore :: "u32 \<Rightarrow> u32 \<Rightarrow> unit emit" where
  "EmitStore pointer value = EmitInst2 OpStore pointer value"

definition EmitAccessChain :: "u32 \<Rightarrow> u32 \<Rightarrow> u32 list \<Rightarrow> u32 emit" where
  "EmitAccessChain result_type base indices = do {
     id \<leftarrow> AllocId;
     let operands = [result_type, id, base] @ indices;
     EmitInst OpAccessChain (of_nat (length operands)) operands;
     return id}"

section \<open>Arithmetic, conversion, comparison\<close>

definition EmitFAdd :: "u32 \<Rightarrow> u32 \<Rightarrow> u32 \<Rightarrow> u32 emit" where
  "EmitFAdd ty op1 op2 = do {id \<leftarrow> AllocId; EmitInst4 OpFAdd ty id op1 op2; return id}"

definition EmitFMul :: "u32 \<Rightarrow> u32 \<Rightarrow> u32 \<Rightarrow> u32 emit" where
  "EmitFMul ty op1 op2 = do {id \<leftarrow> AllocId; EmitInst4 OpFMul ty id op1 op2; return id}"

definition EmitFMad :: "u32 \<Rightarrow> u32 \<Rightarrow> u32 \<Rightarrow> u32 \<Rightarrow> u32 emit" where
  "EmitFMad ty op1 op2 op3 = do {
     mul_id \<leftarrow> EmitFMul ty op1 op2;
     id \<leftarrow> AllocId;
     EmitWord (push_bit 16 5 OR OpFAdd);
     EmitWord ty;
     EmitWord id;
     EmitWord mul_id;
     EmitWord op3;
     return id}"

definition EmitFSub :: "u32 \<Rightarrow> u32 \<Rightarrow> u32 \<Rightarrow> u32 emit" where
  "EmitFSub ty op1 op2 = do {id \<leftarrow> AllocId; EmitInst4 OpFSub ty id op1 op2; return id}"

definition EmitFDiv :: "u32 \<Rightarrow> u32 \<Rightarrow> u32 \<Rightarrow> u32 emit" where
  "EmitFDiv ty op1 op2 = do {id \<leftarrow> AllocId; EmitInst4 OpFDiv ty id op1 op2; return id}"

definition EmitIAdd :: "u32 \<Rightarrow> u32 \<Rightarrow> u32 \<Rightarrow> u32 emit" where
  "EmitIAdd ty op1 op2 = do {id \<leftarrow> AllocId; EmitInst4 OpIAdd ty id op1 op2; return id}"

definition EmitISub :: "u32 \<Rightarrow> u32 \<Rightarrow> u32 \<Rightarrow> u32 emit" where
  "EmitISub ty op1 op2 = do {id \<leftarrow> AllocId; EmitInst4 OpISub ty id op1 op2; return id}"

definition EmitIMul :: "u32 \<Rightarrow> u32 \<Rightarrow> u32 \<Rightarrow> u32 emit" where
  "EmitIMul ty op1 op2 = do {id \<leftarrow> AllocId; EmitInst4 OpIMul ty id op1 op2; return id}"

definition EmitFNegate :: "u32 \<Rightarrow> u32 \<Rightarrow> u32 emit" where
  "EmitFNegate ty op1 = do {id \<leftarrow> AllocId; EmitInst3 OpFNegate ty id op1; return id}"

definition EmitConvertFToU :: "u32 \<Rightarrow> u32 \<Rightarrow> u32 emit" where
  "EmitConvertFToU result_type op1 = do {id \<leftarrow> AllocId; EmitInst3 OpConvertFToU result_type id op1; return id}"

definition EmitConvertFToS :: "u32 \<Rightarrow> u32 \<Rightarrow> u32 emit" where
  "EmitConvertFToS result_type op1 = do {id \<leftarrow> AllocId; EmitInst3 OpConvertFToS result_type id op1; return id}"

definition EmitConvertUToF :: "u32 \<Rightarrow> u32 \<Rightarrow> u32 emit" where
  "EmitConvertUToF result_type op1 = do {id \<leftarrow> AllocId; EmitInst3 OpConvertUToF result_type id op1; return id}"

definition EmitConvertSToF :: "u32 \<Rightarrow> u32 \<Rightarrow> u32 emit" where
  "EmitConvertSToF result_type op1 = do {id \<leftarrow> AllocId; EmitInst3 OpConvertSToF result_type id op1; return id}"

definition EmitBitcast :: "u32 \<Rightarrow> u32 \<Rightarrow> u32 emit" where
  "EmitBitcast result_type op1 = do {id \<leftarrow> AllocId; EmitInst3 OpBitcast result_type id op1; return id}"

definition EmitFOrdGreaterThan :: "u32 \<Rightarrow> u32 \<Rightarrow> u32 \<Rightarrow> u32 emit" where
  "EmitFOrdGreaterThan result_type op1 op2 = do {id \<leftarrow> AllocId; EmitInst4 OpFOrdGreaterThan result_type id op1 op2; return id}"

definition EmitFOrdLessThan :: "u32 \<Rightarrow> u32 \<Rightarrow> u32 \<Rightarrow> u32 emit" where
  "EmitFOrdLessThan result_type op1 op2 = do {id \<leftarrow> AllocId; EmitInst4 OpFOrdLessThan result_type id op1 op2; return id}"

definition EmitFOrdEqual :: "u32 \<Rightarrow> u32 \<Rightarrow> u32 \<Rightarrow> u32 emit" where
  "EmitFOrdEqual result_type op1 op2 = do {id \<leftarrow> AllocId; EmitInst4 OpFOrdEqual result_type id op1 op2; return id}"

definition EmitFUnordNotEqual :: "u32 \<Rightarrow> u32 \<Rightarrow> u32 \<Rightarrow> u32 emit" where
  "EmitFUnordNotEqual result_type op1 op2 = do {id \<leftarrow> AllocId; EmitInst4 OpFUnordNotEqual result_type id op1 op2; return id}"

definition EmitSLessThan :: "u32 \<Rightarrow> u32 \<Rightarrow> u32 \<Rightarrow> u32 emit" where
  "EmitSLessThan result_type op1 op2 = do {id \<leftarrow> AllocId; EmitInst4 OpSLessThan result_type id op1 op2; return id}"

definition EmitSGreaterThan :: "u32 \<Rightarrow> u32 \<Rightarrow> u32 \<Rightarrow> u32 emit" where
  "EmitSGreaterThan result_type op1 op2 = do {id \<leftarrow> AllocId; EmitInst4 OpSGreaterThan result_type id op1 op2; return id}"

definition EmitIEqual :: "u32 \<Rightarrow> u32 \<Rightarrow> u32 \<Rightarrow> u32 emit" where
  "EmitIEqual result_type op1 op2 = do {id \<leftarrow> AllocId; EmitInst4 OpIEqual result_type id op1 op2; return id}"

definition EmitINotEqual :: "u32 \<Rightarrow> u32 \<Rightarrow> u32 \<Rightarrow> u32 emit" where
  "EmitINotEqual result_type op1 op2 = do {id \<leftarrow> AllocId; EmitInst4 OpINotEqual result_type id op1 op2; return id}"

definition EmitULessThan :: "u32 \<Rightarrow> u32 \<Rightarrow> u32 \<Rightarrow> u32 emit" where
  "EmitULessThan result_type op1 op2 = do {id \<leftarrow> AllocId; EmitInst4 OpULessThan result_type id op1 op2; return id}"

definition EmitUGreaterThan :: "u32 \<Rightarrow> u32 \<Rightarrow> u32 \<Rightarrow> u32 emit" where
  "EmitUGreaterThan result_type op1 op2 = do {id \<leftarrow> AllocId; EmitInst4 OpUGreaterThan result_type id op1 op2; return id}"

definition EmitULessThanEqual :: "u32 \<Rightarrow> u32 \<Rightarrow> u32 \<Rightarrow> u32 emit" where
  "EmitULessThanEqual result_type op1 op2 = do {id \<leftarrow> AllocId; EmitInst4 OpULessThanEqual result_type id op1 op2; return id}"

definition EmitUGreaterThanEqual :: "u32 \<Rightarrow> u32 \<Rightarrow> u32 \<Rightarrow> u32 emit" where
  "EmitUGreaterThanEqual result_type op1 op2 = do {id \<leftarrow> AllocId; EmitInst4 OpUGreaterThanEqual result_type id op1 op2; return id}"

definition EmitSLessThanEqual :: "u32 \<Rightarrow> u32 \<Rightarrow> u32 \<Rightarrow> u32 emit" where
  "EmitSLessThanEqual result_type op1 op2 = do {id \<leftarrow> AllocId; EmitInst4 OpSLessThanEqual result_type id op1 op2; return id}"

definition EmitSGreaterThanEqual :: "u32 \<Rightarrow> u32 \<Rightarrow> u32 \<Rightarrow> u32 emit" where
  "EmitSGreaterThanEqual result_type op1 op2 = do {id \<leftarrow> AllocId; EmitInst4 OpSGreaterThanEqual result_type id op1 op2; return id}"

section \<open>Bit operations, selection, composites, images\<close>

definition EmitShiftLeftLogical :: "u32 \<Rightarrow> u32 \<Rightarrow> u32 \<Rightarrow> u32 emit" where
  "EmitShiftLeftLogical ty base shift = do {id \<leftarrow> AllocId; EmitInst4 OpShiftLeftLogical ty id base shift; return id}"

definition EmitShiftRightLogical :: "u32 \<Rightarrow> u32 \<Rightarrow> u32 \<Rightarrow> u32 emit" where
  "EmitShiftRightLogical ty base shift = do {id \<leftarrow> AllocId; EmitInst4 OpShiftRightLogical ty id base shift; return id}"

definition EmitShiftRightArithmetic :: "u32 \<Rightarrow> u32 \<Rightarrow> u32 \<Rightarrow> u32 emit" where
  "EmitShiftRightArithmetic ty base shift = do {id \<leftarrow> AllocId; EmitInst4 OpShiftRightArithmetic ty id base shift; return id}"

definition EmitBitwiseOr :: "u32 \<Rightarrow> u32 \<Rightarrow> u32 \<Rightarrow> u32 emit" where
  "EmitBitwiseOr ty op1 op2 = do {id \<leftarrow> AllocId; EmitInst4 OpBitwiseOr ty id op1 op2; return id}"

definition EmitBitwiseXor :: "u32 \<Rightarrow> u32 \<Rightarrow> u32 \<Rightarrow> u32 emit" where
  "EmitBitwiseXor ty op1 op2 = do {id \<leftarrow> AllocId; EmitInst4 OpBitwiseXor ty id op1 op2; return id}"

definition EmitBitwiseAnd :: "u32 \<Rightarrow> u32 \<Rightarrow> u32 \<Rightarrow> u32 emit" where
  "EmitBitwiseAnd ty op1 op2 = do {id \<leftarrow> AllocId; EmitInst4 OpBitwiseAnd ty id op1 op2; return id}"

definition EmitBitFieldInsert :: "u32 \<Rightarrow> u32 \<Rightarrow> u32 \<Rightarrow> u32 \<Rightarrow> u32 \<Rightarrow> u32 emit" where
  "EmitBitFieldInsert ty base ins offset count = do {id \<leftarrow> AllocId; EmitInst OpBitFieldInsert 6 [ty, id, base, ins, offset, count]; return id}"

definition EmitBitFieldSExtract :: "u32 \<Rightarrow> u32 \<Rightarrow> u32 \<Rightarrow> u32 \<Rightarrow> u32 emit" where
  "EmitBitFieldSExtract ty base offset count = do {id \<leftarrow> AllocId; EmitInst5 OpBitFieldSExtract ty id base offset count; return id}"

definition EmitBitFieldUExtract :: "u32 \<Rightarrow> u32 \<Rightarrow> u32 \<Rightarrow> u32 \<Rightarrow> u32 emit" where
  "EmitBitFieldUExtract ty base offset count = do {id \<leftarrow> AllocId; EmitInst5 OpBitFieldUExtract ty id base offset count; return id}"

definition EmitNot :: "u32 \<Rightarrow> u32 \<Rightarrow> u32 emit" where
  "EmitNot ty op1 = do {id \<leftarrow> AllocId; EmitInst3 OpNot ty id op1; return id}"

definition EmitIsInf :: "u32 \<Rightarrow> u32 \<Rightarrow> u32 emit" where
  "EmitIsInf result_type op1 = do {id \<leftarrow> AllocId; EmitInst3 244 result_type id op1; return id}"

definition EmitIsNan :: "u32 \<Rightarrow> u32 \<Rightarrow> u32 emit" where
  "EmitIsNan result_type op1 = do {id \<leftarrow> AllocId; EmitInst3 243 result_type id op1; return id}"

definition EmitSelect :: "u32 \<Rightarrow> u32 \<Rightarrow> u32 \<Rightarrow> u32 \<Rightarrow> u32 emit" where
  "EmitSelect result_type condition true_val false_val = do {id \<leftarrow> AllocId; EmitInst5 OpSelect result_type id condition true_val false_val; return id}"

definition EmitCompositeConstruct :: "u32 \<Rightarrow> u32 list \<Rightarrow> u32 emit" where
  "EmitCompositeConstruct result_type constituents = do {
     id \<leftarrow> AllocId;
     let operands = [result_type, id] @ constituents;
     EmitInst OpCompositeConstruct (of_nat (length operands)) operands;
     return id}"

definition EmitCompositeExtract :: "u32 \<Rightarrow> u32 \<Rightarrow> u32 \<Rightarrow> u32 emit" where
  "EmitCompositeExtract result_type composite index = do {id \<leftarrow> AllocId; EmitInst4 OpCompositeExtract result_type id composite index; return id}"

definition EmitVectorShuffle :: "u32 \<Rightarrow> u32 \<Rightarrow> u32 \<Rightarrow> u32 list \<Rightarrow> u32 emit" where
  "EmitVectorShuffle result_type vec1 vec2 indices = do {
     id \<leftarrow> AllocId;
     let operands = [result_type, id, vec1, vec2] @ indices;
     EmitInst OpVectorShuffle (of_nat (length operands)) operands;
     return id}"

definition EmitSampledImage :: "u32 \<Rightarrow> u32 \<Rightarrow> u32 \<Rightarrow> u32 emit" where
  "EmitSampledImage result_type img sampler = do {id \<leftarrow> AllocId; EmitInst4 OpSampledImage result_type id img sampler; return id}"

definition EmitImageSampleExplicitLod :: "u32 \<Rightarrow> u32 \<Rightarrow> u32 \<Rightarrow> u32 \<Rightarrow> u32 emit" where
  "EmitImageSampleExplicitLod result_type sampled_img coord lod = do {id \<leftarrow> AllocId; EmitInst5 OpImageSampleExplicitLod result_type id sampled_img coord lod; return id}"

definition EmitUndef :: "u32 \<Rightarrow> u32 emit" where
  "EmitUndef result_type = do {id \<leftarrow> AllocId; EmitInst2 OpUndef result_type id; return id}"

end

