(* ===== verification/SpirvContract.thy ===== *)
theory SpirvContract
  imports SpirvModule
begin

unbundle bit_operations_syntax

text \<open>
  What the module builder promises. A stream of words is read back by \<open>parse_spirv\<close>, the format's own rule: the
  high half of an instruction's first word is its length. The predicate \<open>emits k m\<close> says that \<open>m\<close> appends whole instructions, takes at
  most \<open>k\<close> new ids, that the results of what it appends are distinct and among the ids it took, and that it leaves
  the labels alone. It is closed under the constructs of the state monad, and every method of the builder satisfies it.
\<close>

section \<open>The format\<close>

type_synonym spirv = "u32 \<times> u32 list"

definition encode_spirv :: "spirv \<Rightarrow> u32 list" where
  "encode_spirv i = (push_bit 16 (of_nat (length (snd i)) + 1) OR fst i) # snd i"

definition spirv_ok :: "spirv \<Rightarrow> bool" where
  "spirv_ok i \<longleftrightarrow> fst i < 0x10000 \<and> length (snd i) + 1 < 0x10000"

fun parse_spirv :: "u32 list \<Rightarrow> spirv list option" where
  "parse_spirv [] = Some []"
| "parse_spirv (w # ws) =
     (let n = unat (drop_bit 16 w) in
      if n = 0 \<or> length ws < n - 1 then None
      else map_option (\<lambda>is. (w AND 0xFFFF, take (n - 1) ws) # is) (parse_spirv (drop (n - 1) ws)))"

text \<open>The result id of an instruction: none, its first operand, or the operand behind the result type.\<close>

definition no_result_ops :: "u32 list" where
  "no_result_ops = [OpCapability, OpMemoryModel, OpEntryPoint, OpExecutionMode, OpDecorate, OpStore, OpBranch,
     OpBranchConditional, OpReturn, OpKill, OpUnreachable, OpLoopMerge, OpSelectionMerge, OpFunctionEnd]"

definition result_first_ops :: "u32 list" where
  "result_first_ops = [OpExtInstImport, OpTypeVoid, OpTypeBool, OpTypeInt, OpTypeFloat, OpTypeVector, OpTypeImage,
     OpTypeSampledImage, OpTypeArray, OpTypeRuntimeArray, OpTypeStruct, OpTypePointer, OpTypeFunction, OpLabel]"

definition result_of :: "spirv \<Rightarrow> u32 option" where
  "result_of i =
     (if fst i \<in> set no_result_ops then None
      else if fst i \<in> set result_first_ops then Some (snd i ! 0) else Some (snd i ! 1))"

definition results :: "spirv list \<Rightarrow> u32 list" where
  "results is = List.map_filter result_of is"

lemma results_simps [simp]:
  "results [] = []"
  "results (i # is) = (case result_of i of None \<Rightarrow> results is | Some x \<Rightarrow> x # results is)"
  "results (is @ js) = results is @ results js"
  by (simp_all add: results_def List.map_filter_def split: option.splits)

lemma header_word:
  fixes n op :: u32
  assumes "n < 0x10000" "op < 0x10000"
  shows "drop_bit 16 (push_bit 16 n OR op) = n" "(push_bit 16 n OR op) AND 0xFFFF = op"
proof -
  have "take_bit 16 n = n" and "take_bit 16 op = op"
    using assms by (simp_all add: word_unat_eq_iff unsigned_take_bit_eq take_bit_nat_eq_self word_less_nat_alt)
  then have bits: "bit n k \<Longrightarrow> k < 16" "bit op k \<Longrightarrow> k < 16" for k
    by (metis bit_take_bit_iff)+
  show "drop_bit 16 (push_bit 16 n OR op) = n"
    by (rule bit_word_eqI) (auto simp: bit_simps dest: bits)
  have "(push_bit 16 n OR op) AND mask 16 = op"
    by (rule bit_word_eqI) (auto simp: bit_simps dest: bits)
  then show "(push_bit 16 n OR op) AND 0xFFFF = op"
    by (simp add: mask_numeral)
qed

lemma parse_encode:
  assumes "spirv_ok i"
  shows "parse_spirv (encode_spirv i @ ws) = map_option (\<lambda>is. i # is) (parse_spirv ws)"
proof -
  let ?n = "of_nat (length (snd i)) + 1 :: u32"
  have un: "unat ?n = length (snd i) + 1"
    using assms by (simp add: spirv_ok_def unat_word_ariths unat_of_nat take_bit_nat_eq_self)
  then have "?n < 0x10000"
    using assms by (simp add: spirv_ok_def word_less_nat_alt)
  then show ?thesis
    using assms un header_word [of ?n "fst i"] by (simp add: spirv_ok_def encode_spirv_def Let_def)
qed

lemma parse_concat:
  "list_all spirv_ok is \<Longrightarrow> parse_spirv (concat (map encode_spirv is) @ ws) = map_option (\<lambda>js. is @ js) (parse_spirv ws)"
  by (induction "is") (cases "parse_spirv ws"; simp add: parse_encode)+

section \<open>The contract of emission\<close>

definition grows :: "nat \<Rightarrow> emitter \<Rightarrow> emitter \<Rightarrow> spirv list \<Rightarrow> bool" where
  "grows k s s' is \<longleftrightarrow>
     em_words s' = em_words s @ concat (map encode_spirv is) \<and> list_all spirv_ok is \<and>
     em_next_id s \<le> em_next_id s' \<and> unat (em_next_id s') \<le> unat (em_next_id s) + k \<and>
     distinct (results is) \<and> (\<forall>x \<in> set (results is). em_next_id s \<le> x \<and> x < em_next_id s') \<and>
     (em_next_id s \<le> em_bound s \<longrightarrow> em_next_id s' \<le> em_bound s') \<and>
     pc_to_label (cfg_state s') = pc_to_label (cfg_state s) \<and> labels_emitted (cfg_state s') = labels_emitted (cfg_state s)"

definition emits :: "nat \<Rightarrow> 'a emit \<Rightarrow> bool" where
  "emits k m \<longleftrightarrow> (\<forall>s. unat (em_next_id s) + k < 2 ^ 32 \<longrightarrow> (\<exists>is. grows k s (snd (run_state m s)) is))"

lemma grows_refl: "grows 0 s s []"
  by (simp add: grows_def)

lemma grows_mono: "grows j s s' is \<Longrightarrow> j \<le> k \<Longrightarrow> grows k s s' is"
  by (auto simp: grows_def)

lemma grows_trans:
  assumes "grows j s s' is" "grows k s' s'' js"
  shows "grows (j + k) s s'' (is @ js)"
  using assms by (auto simp: grows_def Int_def not_less [symmetric] dest: order.trans order.strict_trans2 order.strict_trans1)

lemma emits_mono: "emits j m \<Longrightarrow> j \<le> k \<Longrightarrow> emits k m"
  unfolding emits_def by (metis add_le_cancel_left grows_mono le_less_trans)

named_theorems emits_intros \<open>code that satisfies the contract\<close>

lemma run_simps [simp]:
  "run_state (gets f) s = (f s, s)"
  "run_state (modify u) s = ((), u s)"
  by (simp_all add: gets_def modify_def)

lemma emits_bind [emits_intros]:
  assumes "emits j m" "\<And>x. emits k (f x)"
  shows "emits (j + k) (m \<bind> f)"
  unfolding emits_def
proof (intro allI impI)
  fix s :: emitter
  assume room: "unat (em_next_id s) + (j + k) < 2 ^ 32"
  obtain x s' where run: "run_state m s = (x, s')"
    by fastforce
  then obtain "is" where g: "grows j s s' is"
    using assms(1) room unfolding emits_def by (metis add.assoc add_lessD1 snd_conv)
  then have "unat (em_next_id s') + k < 2 ^ 32"
    using room by (simp add: grows_def)
  then obtain js where "grows k s' (snd (run_state (f x) s')) js"
    using assms(2) unfolding emits_def by blast
  then show "\<exists>is. grows (j + k) s (snd (run_state (m \<bind> f) s)) is"
    using grows_trans [OF g] run by auto
qed

lemma emits_pure [emits_intros]: "emits 0 (return x)" "emits 0 (gets f)" "emits 0 (ty_id g)"
  by (auto simp: emits_def ty_id_def intro: grows_refl)

lemma emits_if [emits_intros]: "emits j m \<Longrightarrow> emits k n \<Longrightarrow> emits (max j k) (if b then m else n)"
  by (auto intro: emits_mono)

lemma emits_option [emits_intros]:
  "emits j m \<Longrightarrow> (\<And>x. emits k (f x)) \<Longrightarrow> emits (max j k) (case v of None \<Rightarrow> m | Some x \<Rightarrow> f x)"
  by (cases v) (simp_all, metis emits_mono max.cobounded1, metis emits_mono max.cobounded2)

section \<open>The methods of the builder\<close>

text \<open>Taking an id, and appending one instruction.\<close>

definition took :: "emitter \<Rightarrow> emitter" where
  "took s = s\<lparr>em_next_id := em_next_id s + 1, em_bound := max (em_bound s) (em_next_id s + 1)\<rparr>"

definition put_inst :: "spirv \<Rightarrow> emitter \<Rightarrow> emitter" where
  "put_inst i s = s\<lparr>em_words := em_words s @ encode_spirv i\<rparr>"

lemma run_AllocId [simp]: "run_state AllocId s = (em_next_id s, took s)"
  by (simp add: AllocId_def took_def)

lemma run_EmitWord [simp]: "run_state (EmitWord w) s = ((), s\<lparr>em_words := em_words s @ [w]\<rparr>)"
  "run_state (EmitWords ws) s = ((), s\<lparr>em_words := em_words s @ ws\<rparr>)"
  by (simp_all add: EmitWord_def EmitWords_def)

lemma run_EmitInst [simp]:
  "n = of_nat (length ops) \<Longrightarrow> run_state (EmitInst opcode n ops) s = ((), put_inst (opcode, ops) s)"
  "run_state (EmitInst1 opcode a) s = ((), put_inst (opcode, [a]) s)"
  "run_state (EmitInst2 opcode a b) s = ((), put_inst (opcode, [a, b]) s)"
  "run_state (EmitInst3 opcode a b c) s = ((), put_inst (opcode, [a, b, c]) s)"
  "run_state (EmitInst4 opcode a b c d) s = ((), put_inst (opcode, [a, b, c, d]) s)"
  "run_state (EmitInst5 opcode a b c d e) s = ((), put_inst (opcode, [a, b, c, d, e]) s)"
  by (simp_all add: EmitInst_def EmitInst1_def EmitInst2_def EmitInst3_def EmitInst4_def EmitInst5_def put_inst_def encode_spirv_def)

lemma run_ty_id [simp]: "run_state (ty_id f) s = (f (em_types s), s)"
  by (simp add: ty_id_def)

lemma run_bare [simp]:
  "run_state EmitReturn s = ((), put_inst (OpReturn, []) s)"
  "run_state EmitKill s = ((), put_inst (OpKill, []) s)"
  "run_state EmitUnreachable s = ((), put_inst (OpUnreachable, []) s)"
  by (simp_all add: EmitReturn_def EmitKill_def EmitUnreachable_def put_inst_def encode_spirv_def)

lemma members_kept [simp]:
  "em_types (took s) = em_types s" "em_types (put_inst i s) = em_types s"
  "glsl_ext_id (took s) = glsl_ext_id s"
  by (simp_all add: took_def put_inst_def)

lemma grows_inst:
  assumes "spirv_ok i" "result_of i = None"
  shows "\<exists>is. grows 0 s (put_inst i s) is"
  using assms by (intro exI [of _ "[i]"]) (simp add: grows_def put_inst_def)

lemma next_id_Suc: "unat (em_next_id s) + 1 < 2 ^ 32 \<Longrightarrow> unat (em_next_id s + 1) = unat (em_next_id s) + 1"
  by (simp add: unat_word_ariths)

lemma grows_took:
  assumes "unat (em_next_id s) + 1 < 2 ^ 32"
  shows "grows 1 s (took s) []"
  using next_id_Suc [OF assms] by (simp add: grows_def took_def word_le_nat_alt max_def)

lemma grows_alloc:
  assumes "unat (em_next_id s) + 1 < 2 ^ 32" "spirv_ok i" "result_of i = Some (em_next_id s)"
  shows "\<exists>is. grows 1 s (put_inst i (took s)) is"
  using grows_took [OF assms(1)] assms(2,3) next_id_Suc [OF assms(1)]
  by (intro exI [of _ "[i]"]) (simp add: grows_def put_inst_def took_def word_less_nat_alt)

lemmas result_simps = result_of_def no_result_ops_def result_first_ops_def spirv_ok_def spirv_ops

lemma emits_alloc [emits_intros]: "emits 1 AllocId"
  using grows_took by (auto simp: emits_def)

lemma emits_allocI:
  assumes "\<And>s. snd (run_state m s) = put_inst (i s) (took s)" "\<And>s. spirv_ok (i s) \<and> result_of (i s) = Some (em_next_id s)"
  shows "emits 1 m"
  unfolding emits_def using assms grows_alloc by metis

lemma emits_instI:
  assumes "\<And>s. snd (run_state m s) = put_inst (i s) s" "\<And>s. spirv_ok (i s) \<and> result_of (i s) = None"
  shows "emits 0 m"
  unfolding emits_def using assms grows_inst by metis

lemma builder_emits [emits_intros]:
  "emits 1 (EmitTypeImage sampled_type dim depth arrayed ms sampled image_format)"
  "emits 1 (EmitTypeSampledImage image_type)"
  "emits 1 (EmitTypeVoid)"
  "emits 1 (EmitTypeBool)"
  "emits 1 (EmitTypeFloat width)"
  "emits 1 (EmitTypeVector component_type count)"
  "emits 1 (EmitTypePointer storage_class pointee_type)"
  "emits 1 (EmitTypeArray element_type length_id)"
  "emits 1 (EmitTypeRuntimeArray element_type)"
  "emits 1 (EmitConstantU32 value)"
  "emits 1 (EmitLabel)"
  "emits 1 (EmitLoad result_type pointer)"
  "emits 1 (EmitFAdd ty op1 op2)"
  "emits 1 (EmitFMul ty op1 op2)"
  "emits 1 (EmitFSub ty op1 op2)"
  "emits 1 (EmitFDiv ty op1 op2)"
  "emits 1 (EmitIAdd ty op1 op2)"
  "emits 1 (EmitISub ty op1 op2)"
  "emits 1 (EmitIMul ty op1 op2)"
  "emits 1 (EmitFNegate ty op1)"
  "emits 1 (EmitConvertFToU result_type op1)"
  "emits 1 (EmitConvertFToS result_type op1)"
  "emits 1 (EmitConvertUToF result_type op1)"
  "emits 1 (EmitConvertSToF result_type op1)"
  "emits 1 (EmitBitcast result_type op1)"
  "emits 1 (EmitFOrdGreaterThan result_type op1 op2)"
  "emits 1 (EmitFOrdLessThan result_type op1 op2)"
  "emits 1 (EmitFOrdEqual result_type op1 op2)"
  "emits 1 (EmitFUnordNotEqual result_type op1 op2)"
  "emits 1 (EmitSLessThan result_type op1 op2)"
  "emits 1 (EmitSGreaterThan result_type op1 op2)"
  "emits 1 (EmitIEqual result_type op1 op2)"
  "emits 1 (EmitINotEqual result_type op1 op2)"
  "emits 1 (EmitULessThan result_type op1 op2)"
  "emits 1 (EmitUGreaterThan result_type op1 op2)"
  "emits 1 (EmitULessThanEqual result_type op1 op2)"
  "emits 1 (EmitUGreaterThanEqual result_type op1 op2)"
  "emits 1 (EmitSLessThanEqual result_type op1 op2)"
  "emits 1 (EmitSGreaterThanEqual result_type op1 op2)"
  "emits 1 (EmitShiftLeftLogical ty base shift)"
  "emits 1 (EmitShiftRightLogical ty base shift)"
  "emits 1 (EmitShiftRightArithmetic ty base shift)"
  "emits 1 (EmitBitwiseOr ty op1 op2)"
  "emits 1 (EmitBitwiseXor ty op1 op2)"
  "emits 1 (EmitBitwiseAnd ty op1 op2)"
  "emits 1 (EmitBitFieldInsert ty base ins offset count)"
  "emits 1 (EmitBitFieldSExtract ty base offset count)"
  "emits 1 (EmitBitFieldUExtract ty base offset count)"
  "emits 1 (EmitNot ty op1)"
  "emits 1 (EmitIsInf result_type op1)"
  "emits 1 (EmitIsNan result_type op1)"
  "emits 1 (EmitSelect result_type condition true_val false_val)"
  "emits 1 (EmitCompositeExtract result_type composite index)"
  "emits 1 (EmitSampledImage result_type img sampler)"
  "emits 1 (EmitImageSampleExplicitLod result_type sampled_img coord lod)"
  "emits 1 (EmitUndef result_type)"
  "emits 1 (EmitTypeInt width is_signed)"
  "emits 1 (EmitConstantF32 bits)"
  "emits 1 (EmitConstantS32 bits)"
  "emits 1 (EmitConstantBool b)"
  "emits 1 (EmitFunctionParameter type_id func_id)"
  by (rule emits_allocI, simp add: EmitTypeImage_def EmitTypeSampledImage_def EmitTypeVoid_def EmitTypeBool_def EmitTypeFloat_def
      EmitTypeVector_def EmitTypePointer_def EmitTypeArray_def EmitTypeRuntimeArray_def EmitConstantU32_def
      EmitLabel_def EmitLoad_def EmitFAdd_def EmitFMul_def EmitFSub_def
      EmitFDiv_def EmitIAdd_def EmitISub_def EmitIMul_def EmitFNegate_def
      EmitConvertFToU_def EmitConvertFToS_def EmitConvertUToF_def EmitConvertSToF_def EmitBitcast_def
      EmitFOrdGreaterThan_def EmitFOrdLessThan_def EmitFOrdEqual_def EmitFUnordNotEqual_def EmitSLessThan_def
      EmitSGreaterThan_def EmitIEqual_def EmitINotEqual_def EmitULessThan_def EmitUGreaterThan_def
      EmitULessThanEqual_def EmitUGreaterThanEqual_def EmitSLessThanEqual_def EmitSGreaterThanEqual_def EmitShiftLeftLogical_def
      EmitShiftRightLogical_def EmitShiftRightArithmetic_def EmitBitwiseOr_def EmitBitwiseXor_def EmitBitwiseAnd_def
      EmitBitFieldInsert_def EmitBitFieldSExtract_def EmitBitFieldUExtract_def EmitNot_def EmitIsInf_def
      EmitIsNan_def EmitSelect_def EmitCompositeExtract_def EmitSampledImage_def EmitImageSampleExplicitLod_def
      EmitUndef_def EmitTypeInt_def EmitConstantF32_def EmitConstantS32_def EmitConstantBool_def
      EmitFunctionParameter_def, simp add: result_simps)+

lemma builder_list_emits [emits_intros]:
  assumes "length ops < 0x1000"
  shows "emits 1 (EmitExtInst ty i ops)"
    "emits 1 (EmitTypeFunction ty ops)"
    "emits 1 (EmitTypeStruct ops)"
    "emits 1 (EmitConstantComposite ty ops)"
    "emits 1 (EmitAccessChain ty base ops)"
    "emits 1 (EmitCompositeConstruct ty ops)"
    "emits 1 (EmitVectorShuffle ty v1 v2 ops)"
  by (rule emits_allocI, simp add: EmitExtInst_def EmitTypeFunction_def EmitTypeStruct_def EmitConstantComposite_def EmitAccessChain_def EmitCompositeConstruct_def EmitVectorShuffle_def Let_def, use assms in \<open>simp add: result_simps\<close>)+

lemma builder_plain_emits [emits_intros]:
  "emits 0 (EmitDecoration x d v)"
  "emits 0 (EmitDecorationBuiltIn x b)"
  "emits 0 (EmitDecorationLocation x l)"
  "emits 0 (EmitDecorationDescriptorSet x d)"
  "emits 0 (EmitDecorationBinding x b)"
  "emits 0 (EmitBranch x)"
  "emits 0 (EmitBranchConditional c x y)"
  "emits 0 (EmitReturn)"
  "emits 0 (EmitKill)"
  "emits 0 (EmitUnreachable)"
  "emits 0 (EmitLoopMerge x y)"
  "emits 0 (EmitSelectionMerge x)"
  "emits 0 (EmitStore p v)"
  by (rule emits_instI, simp add: EmitDecoration_def EmitDecorationBuiltIn_def EmitDecorationLocation_def EmitDecorationDescriptorSet_def EmitDecorationBinding_def EmitBranch_def EmitBranchConditional_def EmitLoopMerge_def EmitSelectionMerge_def EmitStore_def, simp add: result_simps)+

lemma EmitVariable_emits [emits_intros]: "emits 1 (EmitVariable ptr storage init)"
  by (cases "init = 0") (rule emits_allocI, simp add: EmitVariable_def, simp add: result_simps)+

lemma glsl_emits [emits_intros]:
  "emits 1 (EmitFMax ty a b)" "emits 1 (EmitFMin ty a b)" "emits 1 (EmitFAbs ty a)"
  unfolding EmitFMax_def EmitFMin_def EmitFAbs_def by (rule builder_list_emits; simp)+

lemma EmitFMad_emits [emits_intros]: "emits 2 (EmitFMad ty a b c)"
proof -
  have "emits 1 (do {id \<leftarrow> AllocId; EmitInst4 OpFAdd ty id mul c; return id})" for mul
    by (rule emits_allocI, simp, simp add: result_simps)
  then have "emits (1 + 1) (EmitFMul ty a b \<bind> (\<lambda>mul. do {id \<leftarrow> AllocId; EmitInst4 OpFAdd ty id mul c; return id}))"
    by (intro emits_intros)
  then show ?thesis
    by (simp add: EmitFMad_def EmitInst4_def numeral_2_eq_2)
qed

end
