(* ===== verification/SpirvEmitter.thy ===== *)
theory SpirvEmitter
  imports SpirvContract MaxwellDecoder
begin

unbundle bit_operations_syntax

text \<open>
  Translation of shaders: the second part of \<^verbatim>\<open>src/src/gpu/shader/SpirvEmitter.cpp\<close> (from \<^verbatim>\<open>BuildGprMap\<close> on) and the
  control-flow annotations of \<^verbatim>\<open>ShaderIr.h\<close>.

  The members of an operand's union share their bytes, and the code reads register numbers, predicate numbers and labels
  without looking at the operand's type. \<open>union_word\<close> is what the first word of the union then holds; bytes that
  were never written come from the parameter \<open>u\<close>, which gives them for every operand of every instruction (\<open>0\<close> is the
  destination). The source operands are an array of three.
\<close>

section \<open>Operands and registers\<close>

type_synonym uninit = "ShaderInstruction \<Rightarrow> nat \<Rightarrow> u32"
type_synonym gprs = "u32 \<rightharpoonup> u32"

fun union_word :: "u32 \<Rightarrow> operand_val \<Rightarrow> u32" where
  "union_word junk Op_None = junk"
| "union_word junk (Op_Gpr r) = (junk AND 0xFFFFFF00) OR ucast r"
| "union_word junk (Op_Pred p n) = (junk AND 0xFFFF0000) OR (if n then 0x100 else 0) OR ucast p"
| "union_word junk (Op_FloatImm w) = w"
| "union_word junk (Op_IntImm w) = w"
| "union_word junk (Op_Cbuf i off) = i"
| "union_word junk (Op_Attr i c) = i"
| "union_word junk (Op_Varying i c) = i"
| "union_word junk (Op_Special r) = (junk AND 0xFFFFFF00) OR ucast r"
| "union_word junk (Op_Texture t s) = t"
| "union_word junk (Op_Label l) = l"

definition src :: "ShaderInstruction \<Rightarrow> nat \<Rightarrow> ShaderOperand" where
  "src inst i = (if i < length (si_src inst) then si_src inst ! i else no_operand)"

definition src_label :: "uninit \<Rightarrow> ShaderInstruction \<Rightarrow> u32" where
  "src_label u inst = union_word (u inst 1) (op_val (src inst 0))"

definition src_reg :: "uninit \<Rightarrow> ShaderInstruction \<Rightarrow> nat \<Rightarrow> u8" where
  "src_reg u inst i = ucast (union_word (u inst (Suc i)) (op_val (src inst i)))"

definition dest_reg :: "uninit \<Rightarrow> ShaderInstruction \<Rightarrow> u8" where
  "dest_reg u inst = ucast (union_word (u inst 0) (op_val (si_dest inst)))"

definition add_gpr :: "u32 \<Rightarrow> gprs \<Rightarrow> gprs emit" where
  "add_gpr gpr m =
     (if m gpr = None then do {
        ptr \<leftarrow> ty_id f32_fnptr;
        var_id \<leftarrow> EmitVariable ptr (class_code SC_Function) 0;
        return (m(gpr \<mapsto> var_id))}
      else return m)"

definition add_operand :: "ShaderOperand \<Rightarrow> gprs \<Rightarrow> gprs emit" where
  "add_operand op m = (case op_val op of Op_Gpr r \<Rightarrow> add_gpr (ucast r) m | _ \<Rightarrow> return m)"

fun add_operands :: "ShaderOperand list \<Rightarrow> gprs \<Rightarrow> gprs emit" where
  "add_operands [] m = return m"
| "add_operands (op # ops) m = do {m' \<leftarrow> add_operand op m; add_operands ops m'}"

fun map_instructions :: "ShaderInstruction list \<Rightarrow> gprs \<Rightarrow> gprs emit" where
  "map_instructions [] m = return m"
| "map_instructions (inst # insts) m = do {
     m' \<leftarrow> add_operand (si_dest inst) m;
     m'' \<leftarrow> add_operands (map (src inst) [0..<unat (si_src_count inst)]) m';
     map_instructions insts m''}"

definition BuildGprMap :: "ShaderProgram \<Rightarrow> u32 \<Rightarrow> gprs emit" where
  "BuildGprMap program func_id = map_instructions (sp_instructions program) Map.empty"

section \<open>One instruction\<close>

definition get_gpr :: "gprs \<Rightarrow> u8 \<Rightarrow> u32" where
  "get_gpr g index = (case g (ucast index) of Some v \<Rightarrow> v | None \<Rightarrow> 0)"

definition load_gpr :: "gprs \<Rightarrow> u8 \<Rightarrow> u32 emit" where
  "load_gpr g index =
     (if get_gpr g index = 0 then return 0 else do {t \<leftarrow> ty_id f32_t; EmitLoad t (get_gpr g index)})"

definition store_gpr :: "gprs \<Rightarrow> u8 \<Rightarrow> u32 \<Rightarrow> unit emit" where
  "store_gpr g index value = (if get_gpr g index \<noteq> 0 then EmitStore (get_gpr g index) value else return ())"

text \<open>
  The frame of most cases: enough sources, load one, two or three of them, go on when none of the loads failed;
  at the end store the value and return it.
\<close>

definition load_src :: "uninit \<Rightarrow> gprs \<Rightarrow> ShaderInstruction \<Rightarrow> nat \<Rightarrow> u32 emit" where
  "load_src u g inst i = load_gpr g (src_reg u inst i)"

definition with1 :: "u16 \<Rightarrow> uninit \<Rightarrow> gprs \<Rightarrow> ShaderInstruction \<Rightarrow> (u32 \<Rightarrow> u32 emit) \<Rightarrow> u32 emit" where
  "with1 n u g inst body =
     (if n \<le> si_src_count inst then do {
        s0 \<leftarrow> load_src u g inst 0;
        if s0 \<noteq> 0 then body s0 else return 0}
      else return 0)"

definition with2 :: "uninit \<Rightarrow> gprs \<Rightarrow> ShaderInstruction \<Rightarrow> (u32 \<Rightarrow> u32 \<Rightarrow> u32 emit) \<Rightarrow> u32 emit" where
  "with2 u g inst body =
     (if 2 \<le> si_src_count inst then do {
        s0 \<leftarrow> load_src u g inst 0;
        s1 \<leftarrow> load_src u g inst 1;
        if s0 \<noteq> 0 \<and> s1 \<noteq> 0 then body s0 s1 else return 0}
      else return 0)"

definition with3 :: "uninit \<Rightarrow> gprs \<Rightarrow> ShaderInstruction \<Rightarrow> (u32 \<Rightarrow> u32 \<Rightarrow> u32 \<Rightarrow> u32 emit) \<Rightarrow> u32 emit" where
  "with3 u g inst body =
     (if 3 \<le> si_src_count inst then do {
        s0 \<leftarrow> load_src u g inst 0;
        s1 \<leftarrow> load_src u g inst 1;
        s2 \<leftarrow> load_src u g inst 2;
        if s0 \<noteq> 0 \<and> s1 \<noteq> 0 \<and> s2 \<noteq> 0 then body s0 s1 s2 else return 0}
      else return 0)"

definition finish :: "uninit \<Rightarrow> gprs \<Rightarrow> ShaderInstruction \<Rightarrow> u32 \<Rightarrow> u32 emit" where
  "finish u g inst value = do {store_gpr g (dest_reg u inst) value; return value}"

definition bitcast :: "(TypeIds \<Rightarrow> u32) \<Rightarrow> u32 \<Rightarrow> u32 emit" where
  "bitcast f x = do {t \<leftarrow> ty_id f; EmitBitcast t x}"

subsection \<open>Floating point\<close>

definition emit_FMAD :: "uninit \<Rightarrow> gprs \<Rightarrow> ShaderInstruction \<Rightarrow> u32 emit" where
  "emit_FMAD u g inst = with3 u g inst (\<lambda>s0 s1 s2. do {
     f \<leftarrow> ty_id f32_t;
     mul \<leftarrow> EmitFMul f s0 s1;
     add \<leftarrow> EmitFAdd f mul s2;
     finish u g inst add})"

definition emit_float2 :: "(u32 \<Rightarrow> u32 \<Rightarrow> u32 \<Rightarrow> u32 emit) \<Rightarrow> uninit \<Rightarrow> gprs \<Rightarrow> ShaderInstruction \<Rightarrow> u32 emit" where
  "emit_float2 op u g inst = with2 u g inst (\<lambda>s0 s1. do {f \<leftarrow> ty_id f32_t; r \<leftarrow> op f s0 s1; finish u g inst r})"

definition emit_float1 :: "(u32 \<Rightarrow> u32 \<Rightarrow> u32 emit) \<Rightarrow> uninit \<Rightarrow> gprs \<Rightarrow> ShaderInstruction \<Rightarrow> u32 emit" where
  "emit_float1 op u g inst = with1 1 u g inst (\<lambda>s0. do {f \<leftarrow> ty_id f32_t; r \<leftarrow> op f s0; finish u g inst r})"

definition emit_FADD where "emit_FADD = emit_float2 EmitFAdd"
definition emit_FMUL where "emit_FMUL = emit_float2 EmitFMul"
definition emit_FMAX where "emit_FMAX = emit_float2 EmitFMax"
definition emit_FMIN where "emit_FMIN = emit_float2 EmitFMin"
definition emit_FNEG where "emit_FNEG = emit_float1 EmitFNegate"
definition emit_FABS where "emit_FABS = emit_float1 EmitFAbs"

definition glsl1 :: "u32 \<Rightarrow> u32 \<Rightarrow> u32 \<Rightarrow> u32 emit" where
  "glsl1 i f x = EmitExtInst f i [x]"

definition reciprocal :: "u32 \<Rightarrow> u32 \<Rightarrow> u32 emit" where
  "reciprocal f x = do {one \<leftarrow> gets const_f32_one; EmitFDiv f one x}"

definition emit_FRCP where "emit_FRCP = emit_float1 reciprocal"
definition emit_FRSQ where "emit_FRSQ = emit_float1 (glsl1 GlslInverseSqrt)"
definition emit_FSQRT where "emit_FSQRT = emit_float1 (glsl1 GlslSqrt)"
definition emit_FEX2 where "emit_FEX2 = emit_float1 (glsl1 GlslExp2)"
definition emit_FLG2 where "emit_FLG2 = emit_float1 (glsl1 GlslLog2)"

definition clamp01 :: "u32 \<Rightarrow> u32 \<Rightarrow> u32 emit" where
  "clamp01 f x = do {
     zero \<leftarrow> gets const_f32_zero;
     one \<leftarrow> gets const_f32_one;
     EmitExtInst f GlslFClamp [x, zero, one]}"

definition emit_FSAT where "emit_FSAT = emit_float1 clamp01"

definition mufu_value :: "u8 \<Rightarrow> u32 \<Rightarrow> u32 \<Rightarrow> u32 emit" where
  "mufu_value op f x =
     (if op = 1 then glsl1 GlslSin f x
      else if op = 0 then glsl1 GlslCos f x
      else if op = 2 then glsl1 GlslExp2 f x
      else if op = 3 then glsl1 GlslLog2 f x
      else if op = 4 then reciprocal f x
      else if op = 5 then glsl1 GlslInverseSqrt f x
      else if op = 6 then glsl1 GlslSqrt f x
      else if op = 9 then glsl1 GlslFloor f x
      else if op = 10 then glsl1 GlslCeil f x
      else if op = 8 then glsl1 GlslTan f x
      else return x)"

definition emit_MUFU :: "uninit \<Rightarrow> gprs \<Rightarrow> ShaderInstruction \<Rightarrow> u32 emit" where
  "emit_MUFU u g inst = emit_float1 (mufu_value (op_mufu (src inst 0))) u g inst"

subsection \<open>Integers: registers hold floats, so operands and results are cast\<close>

definition emit_int2 ::
    "(TypeIds \<Rightarrow> u32) \<Rightarrow> (TypeIds \<Rightarrow> u32) \<Rightarrow> (u32 \<Rightarrow> u32 \<Rightarrow> u32 \<Rightarrow> u32 emit) \<Rightarrow> uninit \<Rightarrow> gprs \<Rightarrow> ShaderInstruction \<Rightarrow> u32 emit" where
  "emit_int2 t0 t1 op u g inst = with2 u g inst (\<lambda>s0 s1. do {
     s0i \<leftarrow> bitcast t0 s0;
     s1i \<leftarrow> bitcast t1 s1;
     t \<leftarrow> ty_id t0;
     r \<leftarrow> op t s0i s1i;
     rf \<leftarrow> bitcast f32_t r;
     finish u g inst rf})"

definition emit_IADD where "emit_IADD = emit_int2 i32_t i32_t EmitIAdd"
definition emit_ISUB where "emit_ISUB = emit_int2 i32_t i32_t EmitISub"
definition emit_IMUL where "emit_IMUL = emit_int2 i32_t i32_t EmitIMul"
definition emit_SHL where "emit_SHL = emit_int2 i32_t u32_t EmitShiftLeftLogical"
definition emit_SHR where "emit_SHR = emit_int2 i32_t u32_t EmitShiftRightArithmetic"

definition larger :: "u32 \<Rightarrow> u32 \<Rightarrow> u32 \<Rightarrow> u32 emit" where
  "larger t a b = do {bt \<leftarrow> ty_id bool_t; cmp \<leftarrow> EmitSGreaterThanEqual bt a b; EmitSelect t cmp a b}"

definition emit_IMNMX where "emit_IMNMX = emit_int2 i32_t i32_t larger"

definition shift_add :: "u32 \<Rightarrow> u32 \<Rightarrow> u32 \<Rightarrow> u32 emit" where
  "shift_add t a b = do {two \<leftarrow> EmitConstantU32 2; shifted \<leftarrow> EmitShiftLeftLogical t b two; EmitIAdd t a shifted}"

definition emit_LEA where "emit_LEA = emit_int2 u32_t u32_t shift_add"

definition emit_int3 ::
    "(TypeIds \<Rightarrow> u32) \<Rightarrow> (u32 \<Rightarrow> u32 \<Rightarrow> u32 \<Rightarrow> u32 \<Rightarrow> u32 emit) \<Rightarrow> uninit \<Rightarrow> gprs \<Rightarrow> ShaderInstruction \<Rightarrow> u32 emit" where
  "emit_int3 ty op u g inst = with3 u g inst (\<lambda>s0 s1 s2. do {
     s0i \<leftarrow> bitcast ty s0;
     s1i \<leftarrow> bitcast ty s1;
     s2i \<leftarrow> bitcast ty s2;
     t \<leftarrow> ty_id ty;
     r \<leftarrow> op t s0i s1i s2i;
     rf \<leftarrow> bitcast f32_t r;
     finish u g inst rf})"

definition mul_add :: "u32 \<Rightarrow> u32 \<Rightarrow> u32 \<Rightarrow> u32 \<Rightarrow> u32 emit" where
  "mul_add t a b c = do {mul \<leftarrow> EmitIMul t a b; EmitIAdd t mul c}"

definition add_add :: "u32 \<Rightarrow> u32 \<Rightarrow> u32 \<Rightarrow> u32 \<Rightarrow> u32 emit" where
  "add_add t a b c = do {add1 \<leftarrow> EmitIAdd t a b; EmitIAdd t add1 c}"

definition insert_all :: "u32 \<Rightarrow> u32 \<Rightarrow> u32 \<Rightarrow> u32 \<Rightarrow> u32 emit" where
  "insert_all t base ins off = do {count \<leftarrow> EmitConstantU32 32; EmitBitFieldInsert t base ins off count}"

definition emit_IMAD where "emit_IMAD = emit_int3 i32_t mul_add"
definition emit_IADD3 where "emit_IADD3 = emit_int3 i32_t add_add"
definition emit_BFE where "emit_BFE = emit_int3 u32_t EmitBitFieldUExtract"
definition emit_BFI where "emit_BFI = emit_int3 u32_t insert_all"

definition emit_int1 :: "(u32 \<Rightarrow> u32 \<Rightarrow> u32 emit) \<Rightarrow> uninit \<Rightarrow> gprs \<Rightarrow> ShaderInstruction \<Rightarrow> u32 emit" where
  "emit_int1 op u g inst = with1 1 u g inst (\<lambda>s0. do {
     s0i \<leftarrow> bitcast i32_t s0;
     t \<leftarrow> ty_id i32_t;
     r \<leftarrow> op t s0i;
     rf \<leftarrow> bitcast f32_t r;
     finish u g inst rf})"

definition negate :: "u32 \<Rightarrow> u32 \<Rightarrow> u32 emit" where
  "negate t x = do {neg_i \<leftarrow> AllocId; EmitInst3 126 t neg_i x; return neg_i}"

definition emit_INEG where "emit_INEG = emit_int1 negate"
definition emit_IABS where "emit_IABS = emit_int1 (glsl1 GlslSAbs)"

definition emit_F2I :: "uninit \<Rightarrow> gprs \<Rightarrow> ShaderInstruction \<Rightarrow> u32 emit" where
  "emit_F2I u g inst = with1 1 u g inst (\<lambda>s0. do {
     t \<leftarrow> ty_id i32_t;
     conv \<leftarrow> EmitConvertFToS t s0;
     convf \<leftarrow> bitcast f32_t conv;
     finish u g inst convf})"

definition emit_I2F :: "uninit \<Rightarrow> gprs \<Rightarrow> ShaderInstruction \<Rightarrow> u32 emit" where
  "emit_I2F u g inst = with1 1 u g inst (\<lambda>s0. do {
     s0i \<leftarrow> bitcast i32_t s0;
     t \<leftarrow> ty_id f32_t;
     conv \<leftarrow> EmitConvertSToF t s0i;
     finish u g inst conv})"

subsection \<open>Comparisons\<close>

definition set_predicate :: "uninit \<Rightarrow> ShaderInstruction \<Rightarrow> u32 \<Rightarrow> u32 emit" where
  "set_predicate u inst cmp = do {
     vars \<leftarrow> gets (\<lambda>s. pred_vars (cfg_state s));
     var \<leftarrow> (case vars (ucast (dest_reg u inst)) of
        Some v \<Rightarrow> return v
      | None \<Rightarrow> do {
          bt \<leftarrow> ty_id bool_t;
          bool_ptr \<leftarrow> EmitTypePointer (class_code SC_Function) bt;
          var_id \<leftarrow> EmitVariable bool_ptr (class_code SC_Function) 0;
          modify (\<lambda>s. s\<lparr>cfg_state := (cfg_state s)\<lparr>pred_vars := (pred_vars (cfg_state s))(ucast (dest_reg u inst) \<mapsto> var_id)\<rparr>\<rparr>);
          return var_id});
     EmitStore var cmp;
     return cmp}"

definition emit_ISETP :: "uninit \<Rightarrow> gprs \<Rightarrow> ShaderInstruction \<Rightarrow> u32 emit" where
  "emit_ISETP u g inst = with2 u g inst (\<lambda>s0 s1. do {
     s0i \<leftarrow> bitcast i32_t s0;
     s1i \<leftarrow> bitcast i32_t s1;
     bt \<leftarrow> ty_id bool_t;
     cmp \<leftarrow> EmitIEqual bt s0i s1i;
     set_predicate u inst cmp})"

definition emit_FSETP :: "uninit \<Rightarrow> gprs \<Rightarrow> ShaderInstruction \<Rightarrow> u32 emit" where
  "emit_FSETP u g inst = with2 u g inst (\<lambda>s0 s1. do {
     bt \<leftarrow> ty_id bool_t;
     cmp \<leftarrow> EmitFOrdEqual bt s0 s1;
     set_predicate u inst cmp})"

definition emit_FSET :: "uninit \<Rightarrow> gprs \<Rightarrow> ShaderInstruction \<Rightarrow> u32 emit" where
  "emit_FSET u g inst = with2 u g inst (\<lambda>s0 s1. do {
     bt \<leftarrow> ty_id bool_t;
     cmp \<leftarrow> EmitFOrdEqual bt s0 s1;
     one \<leftarrow> gets const_f32_one;
     zero \<leftarrow> gets const_f32_zero;
     f \<leftarrow> ty_id f32_t;
     sel \<leftarrow> EmitSelect f cmp one zero;
     finish u g inst sel})"

subsection \<open>Memory, textures, copies\<close>

definition emit_S2R :: "uninit \<Rightarrow> gprs \<Rightarrow> ShaderInstruction \<Rightarrow> u32 emit" where
  "emit_S2R u g inst = do {zero \<leftarrow> gets const_f32_zero; finish u g inst zero}"

text \<open>Loads and stores copy the register; they do not count the sources.\<close>

definition copy_src :: "uninit \<Rightarrow> gprs \<Rightarrow> ShaderInstruction \<Rightarrow> u32 emit" where
  "copy_src u g inst = do {v \<leftarrow> load_src u g inst 0; if v \<noteq> 0 then finish u g inst v else return 0}"

definition emit_LD where "emit_LD = copy_src"
definition emit_ST where "emit_ST = copy_src"

definition emit_LDC :: "uninit \<Rightarrow> gprs \<Rightarrow> ShaderInstruction \<Rightarrow> u32 emit" where
  "emit_LDC u g inst =
     (if 1 \<le> si_src_count inst then do {
        index \<leftarrow> load_src u g inst 0;
        cbuf \<leftarrow> gets cbuf_var_id;
        if index \<noteq> 0 \<and> cbuf \<noteq> 0 then do {
          idx \<leftarrow> bitcast u32_t index;
          pt \<leftarrow> ty_id f32_uniform_ptr;
          zero \<leftarrow> gets const_f32_zero;
          ptr \<leftarrow> EmitAccessChain pt cbuf [zero, idx];
          f \<leftarrow> ty_id f32_t;
          val \<leftarrow> EmitLoad f ptr;
          finish u g inst val}
        else return 0}
      else return 0)"

definition emit_TEX :: "uninit \<Rightarrow> gprs \<Rightarrow> ShaderInstruction \<Rightarrow> u32 emit" where
  "emit_TEX u g inst =
     (if 2 \<le> si_src_count inst then do {
        coord \<leftarrow> load_src u g inst 0;
        tex \<leftarrow> gets tex_sampled_image_var;
        if coord \<noteq> 0 \<and> tex \<noteq> 0 then do {
          v2 \<leftarrow> ty_id vec2f32_t;
          coord_vec2 \<leftarrow> EmitCompositeConstruct v2 [coord, coord];
          it \<leftarrow> ty_id f32_image_2d;
          image_id \<leftarrow> EmitLoad it tex;
          v4 \<leftarrow> ty_id vec4f32_t;
          zero \<leftarrow> gets const_f32_zero;
          sample_result \<leftarrow> EmitImageSampleExplicitLod v4 image_id coord_vec2 zero;
          finish u g inst sample_result}
        else return 0}
      else return 0)"

text \<open>Conversions between equal widths, and three operations that are stubs, pass their first source on.\<close>

definition emit_I2I :: "uninit \<Rightarrow> gprs \<Rightarrow> ShaderInstruction \<Rightarrow> u32 emit" where "emit_I2I u g inst = with1 1 u g inst (finish u g inst)"
definition emit_F2F :: "uninit \<Rightarrow> gprs \<Rightarrow> ShaderInstruction \<Rightarrow> u32 emit" where "emit_F2F u g inst = with1 1 u g inst (finish u g inst)"
definition emit_PRMT :: "uninit \<Rightarrow> gprs \<Rightarrow> ShaderInstruction \<Rightarrow> u32 emit" where "emit_PRMT u g inst = with1 2 u g inst (finish u g inst)"
definition emit_POPC :: "uninit \<Rightarrow> gprs \<Rightarrow> ShaderInstruction \<Rightarrow> u32 emit" where "emit_POPC u g inst = with1 1 u g inst (finish u g inst)"
definition emit_FLO :: "uninit \<Rightarrow> gprs \<Rightarrow> ShaderInstruction \<Rightarrow> u32 emit" where "emit_FLO u g inst = with1 1 u g inst (finish u g inst)"

definition emit_other :: "uninit \<Rightarrow> gprs \<Rightarrow> ShaderInstruction \<Rightarrow> u32 emit" where
  "emit_other u g inst =
     (case op_val (si_dest inst) of Op_Gpr r \<Rightarrow> with1 1 u g inst (finish u g inst) | _ \<Rightarrow> return 0)"

subsection \<open>Dispatch\<close>

definition EmitShaderInst :: "uninit \<Rightarrow> gprs \<Rightarrow> ShaderInstruction \<Rightarrow> u32 emit" where
  "EmitShaderInst u g inst =
     (case si_opcode inst of
        Ctl c \<Rightarrow> (case c of
            KIL \<Rightarrow> do {EmitKill; return 0}
          | CONT \<Rightarrow> emit_other u g inst
          | BREAK \<Rightarrow> emit_other u g inst
          | _ \<Rightarrow> return 0)
      | FAlu f \<Rightarrow> (case f of
            FMAD \<Rightarrow> emit_FMAD u g inst
          | FADD \<Rightarrow> emit_FADD u g inst
          | FMUL \<Rightarrow> emit_FMUL u g inst
          | FMAX \<Rightarrow> emit_FMAX u g inst
          | FMIN \<Rightarrow> emit_FMIN u g inst
          | FSAT \<Rightarrow> emit_FSAT u g inst
          | FNEG \<Rightarrow> emit_FNEG u g inst
          | FABS \<Rightarrow> emit_FABS u g inst
          | FRCP \<Rightarrow> emit_FRCP u g inst
          | FRSQ \<Rightarrow> emit_FRSQ u g inst
          | FSQRT \<Rightarrow> emit_FSQRT u g inst
          | FEX2 \<Rightarrow> emit_FEX2 u g inst
          | FLG2 \<Rightarrow> emit_FLG2 u g inst
          | FSIN \<Rightarrow> emit_other u g inst
          | FCOS \<Rightarrow> emit_other u g inst
          | MUFU \<Rightarrow> emit_MUFU u g inst)
      | IAlu i \<Rightarrow> (case i of
            IADD \<Rightarrow> emit_IADD u g inst
          | IMUL \<Rightarrow> emit_IMUL u g inst
          | IMAD \<Rightarrow> emit_IMAD u g inst
          | ISUB \<Rightarrow> emit_ISUB u g inst
          | IABS \<Rightarrow> emit_IABS u g inst
          | INEG \<Rightarrow> emit_INEG u g inst
          | ISETP \<Rightarrow> emit_ISETP u g inst
          | I2F \<Rightarrow> emit_I2F u g inst
          | I2I \<Rightarrow> emit_I2I u g inst
          | IADD3 \<Rightarrow> emit_IADD3 u g inst
          | IMNMX \<Rightarrow> emit_IMNMX u g inst
          | LEA \<Rightarrow> emit_LEA u g inst
          | POPC \<Rightarrow> emit_POPC u g inst
          | FLO \<Rightarrow> emit_FLO u g inst
          | SHL \<Rightarrow> emit_SHL u g inst
          | SHR \<Rightarrow> emit_SHR u g inst)
      | Conv c \<Rightarrow> (case c of
            F2F \<Rightarrow> emit_F2F u g inst
          | F2I \<Rightarrow> emit_F2I u g inst
          | F2F_C \<Rightarrow> emit_other u g inst)
      | Cmp c \<Rightarrow> (case c of FSETP \<Rightarrow> emit_FSETP u g inst | FSET \<Rightarrow> emit_FSET u g inst)
      | Load l \<Rightarrow> (case l of LD \<Rightarrow> emit_LD u g inst | LDC \<Rightarrow> emit_LDC u g inst | _ \<Rightarrow> emit_other u g inst)
      | Store st \<Rightarrow> (case st of ST \<Rightarrow> emit_ST u g inst | _ \<Rightarrow> emit_other u g inst)
      | Tex t \<Rightarrow> (case t of TEX \<Rightarrow> emit_TEX u g inst | _ \<Rightarrow> emit_other u g inst)
      | Spec sp \<Rightarrow> (case sp of
            S2R \<Rightarrow> emit_S2R u g inst
          | PRMT \<Rightarrow> emit_PRMT u g inst
          | BFE \<Rightarrow> emit_BFE u g inst
          | BFI \<Rightarrow> emit_BFI u g inst
          | _ \<Rightarrow> emit_other u g inst))"

section \<open>Inputs and outputs\<close>

definition is_vertex :: "ShaderStage \<Rightarrow> bool" where
  "is_vertex stage \<longleftrightarrow> stage = VertexA \<or> stage = VertexB"

definition is_fragment :: "ShaderStage \<Rightarrow> bool" where
  "is_fragment stage \<longleftrightarrow> stage = Fragment"

definition assign_io :: "((u32 \<Rightarrow> u32) \<Rightarrow> ShaderIo \<Rightarrow> ShaderIo) \<Rightarrow> unit emit" where
  "assign_io upd = do {id \<leftarrow> AllocId; modify (\<lambda>s. s\<lparr>em_io := upd (\<lambda>_. id) (em_io s)\<rparr>)}"

definition EmitShaderIo :: "ShaderStage \<Rightarrow> unit emit" where
  "EmitShaderIo stage =
     (if is_vertex stage then do {
        assign_io vert_in_position_update;
        assign_io vert_in_color_update;
        assign_io vert_out_position_update;
        assign_io vert_out_color_update}
      else if is_fragment stage then do {
        assign_io frag_in_color_update;
        assign_io frag_out_color_update}
      else return ())"

definition copy_io :: "(ShaderIo \<Rightarrow> u32) \<Rightarrow> (ShaderIo \<Rightarrow> u32) \<Rightarrow> unit emit" where
  "copy_io from to = do {
     t \<leftarrow> ty_id vec4f32_t;
     io \<leftarrow> gets em_io;
     val \<leftarrow> EmitLoad t (from io);
     EmitStore (to io) val}"

definition EmitVertexIoBody :: "unit emit" where
  "EmitVertexIoBody = do {copy_io vert_in_position vert_out_position; copy_io vert_in_color vert_out_color}"

definition EmitFragmentIoBody :: "unit emit" where
  "EmitFragmentIoBody = copy_io frag_in_color frag_out_color"

section \<open>Control flow\<close>

record SsySyncPair =
  ssy_pc :: u32
  sync_pc :: u32
  bra_pc :: u32
  bra_target_pc :: u32
  pair_type :: CfgBlockType

record CfgAnnotation =
  pc_to_index :: "u32 \<rightharpoonup> u32"
  cfg_pairs :: "SsySyncPair list"
  sync_to_ssy :: "u32 \<rightharpoonup> u32"
  block_starts :: "u32 set"

definition index_pcs :: "ShaderInstruction list \<Rightarrow> u32 \<rightharpoonup> u32" where
  "index_pcs insts = fold (\<lambda>i m. m(si_pc (insts ! i) \<mapsto> of_nat i)) [0..<length insts] Map.empty"

text \<open>The first branch behind an \<open>SSY\<close>, up to its \<open>SYNC\<close>.\<close>

fun find_bra :: "uninit \<Rightarrow> ShaderInstruction list \<Rightarrow> SsySyncPair \<Rightarrow> SsySyncPair" where
  "find_bra u [] pair = pair"
| "find_bra u (next # rest) pair =
     (if si_opcode next = Ctl SYNC \<and> si_pc next = sync_pc pair then pair
      else if si_opcode next = Ctl BRA then
        (let target = src_label u next * 8
         in pair\<lparr>bra_pc := si_pc next, bra_target_pc := target,
              pair_type := (if target < ssy_pc pair + 8 then Block_Loop
                else if target \<le> sync_pc pair then Block_Selection else Block_Selection)\<rparr>)
      else find_bra u rest pair)"

fun scan_ssy :: "uninit \<Rightarrow> ShaderInstruction list \<Rightarrow> CfgAnnotation \<Rightarrow> CfgAnnotation" where
  "scan_ssy u [] cfg = cfg"
| "scan_ssy u (inst # rest) cfg =
     scan_ssy u rest
       (if si_opcode inst = Ctl SSY then
          (let sync = src_label u inst * 8;
               pair = find_bra u rest \<lparr>ssy_pc = si_pc inst, sync_pc = sync, bra_pc = 0, bra_target_pc = 0, pair_type = Block_Normal\<rparr>
           in cfg\<lparr>cfg_pairs := cfg_pairs cfg @ [pair], sync_to_ssy := (sync_to_ssy cfg)(sync \<mapsto> si_pc inst)\<rparr>)
        else cfg)"

definition pair_starts :: "SsySyncPair \<Rightarrow> u32 set" where
  "pair_starts p = {sync_pc p, ssy_pc p + 8} \<union> (if bra_target_pc p \<noteq> 0 then {bra_target_pc p} else {})"

definition BuildCfg :: "uninit \<Rightarrow> ShaderProgram \<Rightarrow> CfgAnnotation" where
  "BuildCfg u program =
     (let insts = sp_instructions program;
          cfg = scan_ssy u insts \<lparr>pc_to_index = index_pcs insts, cfg_pairs = [], sync_to_ssy = Map.empty, block_starts = {}\<rparr>;
          starts = fold (\<lambda>p b. b \<union> pair_starts p) (cfg_pairs cfg) {}
      in cfg\<lparr>block_starts := (case insts of [] \<Rightarrow> starts | i # _ \<Rightarrow> insert (si_pc i) starts)\<rparr>)"

definition upd_cfg :: "(CfgEmitState \<Rightarrow> CfgEmitState) \<Rightarrow> unit emit" where
  "upd_cfg f = modify (\<lambda>s. s\<lparr>cfg_state := f (cfg_state s)\<rparr>)"

definition ReserveLabel :: "u32 \<Rightarrow> u32 emit" where
  "ReserveLabel pc = do {
     labels \<leftarrow> gets (\<lambda>s. pc_to_label (cfg_state s));
     case labels pc of
       Some label_id \<Rightarrow> return label_id
     | None \<Rightarrow> do {
         label_id \<leftarrow> AllocId;
         upd_cfg (\<lambda>c. c\<lparr>pc_to_label := (pc_to_label c)(pc \<mapsto> label_id)\<rparr>);
         return label_id}}"

definition GetOrCreateLabel :: "u32 \<Rightarrow> u32 emit" where
  "GetOrCreateLabel pc = do {
     c \<leftarrow> gets cfg_state;
     case pc_to_label c pc of
       Some label_id \<Rightarrow> do {
         (if pc \<notin> labels_emitted c then do {
            EmitInst1 OpLabel label_id;
            upd_cfg (\<lambda>c. c\<lparr>labels_emitted := insert pc (labels_emitted c)\<rparr>)}
          else return ());
         return label_id}
     | None \<Rightarrow> do {
         label_id \<leftarrow> AllocId;
         EmitInst1 OpLabel label_id;
         upd_cfg (\<lambda>c. c\<lparr>pc_to_label := (pc_to_label c)(pc \<mapsto> label_id), labels_emitted := insert pc (labels_emitted c)\<rparr>);
         return label_id}}"

definition EmitCondition :: "ShaderInstruction \<Rightarrow> u32 emit" where
  "EmitCondition inst =
     (if si_pred_guard inst then do {
        vars \<leftarrow> gets (\<lambda>s. pred_vars (cfg_state s));
        case vars (ucast (si_pred_guard_index inst)) of
          Some v \<Rightarrow> do {bt \<leftarrow> ty_id bool_t; EmitLoad bt v}
        | None \<Rightarrow> gets const_false}
      else gets const_true)"

subsection \<open>Structured emission\<close>

definition start_block :: "CfgAnnotation \<Rightarrow> u32 \<Rightarrow> unit emit" where
  "start_block cfg pc = do {
     c \<leftarrow> gets cfg_state;
     if pc \<in> block_starts cfg \<and> pc \<notin> labels_emitted c then do {
       lbl_id \<leftarrow> AllocId;
       EmitInst1 OpLabel lbl_id;
       upd_cfg (\<lambda>c. c\<lparr>pc_to_label := (pc_to_label c)(pc \<mapsto> lbl_id), labels_emitted := insert pc (labels_emitted c)\<rparr>)}
     else return ()}"

definition handle_sync :: "u32 \<Rightarrow> unit emit" where
  "handle_sync pc = do {
     stack \<leftarrow> gets (\<lambda>s. ssy_stack (cfg_state s));
     if stack \<noteq> [] \<and> se_sync_pc (last stack) = pc then upd_cfg (\<lambda>c. c\<lparr>ssy_stack := butlast (ssy_stack c)\<rparr>)
     else return ()}"

definition handle_ssy :: "CfgAnnotation \<Rightarrow> u32 \<Rightarrow> unit emit" where
  "handle_ssy cfg pc =
     (case find (\<lambda>p. ssy_pc p = pc) (cfg_pairs cfg) of
        None \<Rightarrow> return ()
      | Some pair \<Rightarrow> do {
          merge \<leftarrow> ReserveLabel (sync_pc pair);
          cont \<leftarrow> (if pair_type pair = Block_Loop \<and> bra_target_pc pair \<noteq> 0 then ReserveLabel (bra_target_pc pair)
                  else if pair_type pair = Block_Loop then ReserveLabel (pc + 8)
                  else return 0);
          upd_cfg (\<lambda>c. c\<lparr>ssy_stack := ssy_stack c @ [\<lparr>se_ssy_pc = pc, se_sync_pc = sync_pc pair, se_type = pair_type pair,
            merge_label = merge, continue_label = cont\<rparr>]\<rparr>)})"

definition deferred_merge :: "unit emit" where
  "deferred_merge = do {
     stack \<leftarrow> gets (\<lambda>s. ssy_stack (cfg_state s));
     if stack = [] then return ()
     else do {
       let top = last stack;
       (if merge_label top \<noteq> 0 \<and> se_type top = Block_Selection then EmitInst2 OpSelectionMerge (merge_label top) 0
        else if merge_label top \<noteq> 0 \<and> se_type top = Block_Loop then EmitInst3 OpLoopMerge (merge_label top) (continue_label top) 0
        else return ());
       upd_cfg (\<lambda>c. c\<lparr>ssy_stack := butlast stack @ [top\<lparr>merge_label := 0\<rparr>]\<rparr>)}}"

definition handle_bra :: "uninit \<Rightarrow> ShaderInstruction \<Rightarrow> unit emit" where
  "handle_bra u inst = do {
     deferred_merge;
     target_label \<leftarrow> ReserveLabel (src_label u inst * 8);
     EmitBranch target_label}"

text \<open>\<open>false_pc\<close> is the address of the next instruction, or eight bytes further behind the last one.\<close>

definition handle_cond_bra :: "uninit \<Rightarrow> ShaderInstruction \<Rightarrow> u32 \<Rightarrow> unit emit" where
  "handle_cond_bra u inst false_pc = do {
     deferred_merge;
     true_label \<leftarrow> ReserveLabel (src_label u inst * 8);
     false_label \<leftarrow> ReserveLabel false_pc;
     vars \<leftarrow> gets (\<lambda>s. pred_vars (cfg_state s));
     cond \<leftarrow> (case vars (ucast (si_pred_guard_index inst)) of
        Some v \<Rightarrow> do {bt \<leftarrow> ty_id bool_t; EmitLoad bt v}
      | None \<Rightarrow> gets const_true);
     (if si_pred_guard_negate inst then EmitBranchConditional cond false_label true_label
      else EmitBranchConditional cond true_label false_label);
     EmitInst1 OpLabel false_label;
     upd_cfg (\<lambda>c. c\<lparr>labels_emitted := insert false_pc (labels_emitted c)\<rparr>)}"

definition handle_break :: "unit emit" where
  "handle_break = do {
     stack \<leftarrow> gets (\<lambda>s. ssy_stack (cfg_state s));
     if stack = [] then return ()
     else do {merge \<leftarrow> ReserveLabel (se_sync_pc (last stack)); EmitBranch merge}}"

definition handle_cont :: "CfgAnnotation \<Rightarrow> unit emit" where
  "handle_cont cfg = do {
     stack \<leftarrow> gets (\<lambda>s. ssy_stack (cfg_state s));
     if stack \<noteq> [] \<and> se_type (last stack) = Block_Loop then
       (case find (\<lambda>p. ssy_pc p = se_ssy_pc (last stack)) (cfg_pairs cfg) of
          Some pair \<Rightarrow> do {cont \<leftarrow> ReserveLabel (bra_target_pc pair); EmitBranch cont}
        | None \<Rightarrow> return ())
     else return ()}"

definition emit_cfg_inst :: "uninit \<Rightarrow> CfgAnnotation \<Rightarrow> gprs \<Rightarrow> ShaderInstruction \<Rightarrow> u32 \<Rightarrow> unit emit" where
  "emit_cfg_inst u cfg g inst false_pc = do {
     start_block cfg (si_pc inst);
     if si_opcode inst = Ctl SYNC then handle_sync (si_pc inst)
     else if si_opcode inst = Ctl SSY then handle_ssy cfg (si_pc inst)
     else if si_opcode inst = Ctl BRA \<and> \<not> si_pred_guard inst \<and> op_val (si_dest inst) = Op_None then handle_bra u inst
     else if si_opcode inst = Ctl BRA \<and> si_pred_guard inst then handle_cond_bra u inst false_pc
     else if si_opcode inst = Ctl EXIT \<or> si_opcode inst = Ctl RET then return ()
     else if si_opcode inst = Ctl BREAK then handle_break
     else if si_opcode inst = Ctl CONT then handle_cont cfg
     else if si_opcode inst = Ctl KIL then EmitKill
     else do {result \<leftarrow> EmitShaderInst u g inst; return ()}}"

fun EmitStructuredCfg :: "uninit \<Rightarrow> CfgAnnotation \<Rightarrow> gprs \<Rightarrow> ShaderInstruction list \<Rightarrow> unit emit" where
  "EmitStructuredCfg u cfg g [] = return ()"
| "EmitStructuredCfg u cfg g (inst # rest) = do {
     emit_cfg_inst u cfg g inst (case rest of [] \<Rightarrow> si_pc inst + 8 | next # _ \<Rightarrow> si_pc next);
     EmitStructuredCfg u cfg g rest}"

section \<open>The module\<close>

definition reset_emitter :: "emitter \<Rightarrow> emitter" where
  "reset_emitter s = s\<lparr>em_words := [], em_error := [], em_next_id := 1, types_built := False, em_io := no_io, cfg_state := cfg_clear\<rparr>"

definition interface_ids :: "ShaderStage \<Rightarrow> ShaderIo \<Rightarrow> u32 list" where
  "interface_ids stage io =
     (if is_vertex stage then [vert_in_position io, vert_in_color io, vert_out_position io, vert_out_color io]
      else if is_fragment stage then [frag_in_color io, frag_out_color io] else [])"

definition emit_preamble :: "ShaderProgram \<Rightarrow> u32 emit" where
  "emit_preamble program = do {
     EmitHeader;
     EmitCapabilities program;
     ext \<leftarrow> AllocId;
     modify (\<lambda>s. s\<lparr>glsl_ext_id := ext\<rparr>);
     EmitWord (push_bit 16 (2 + (12 + 4) div 4) OR OpExtInstImport);
     EmitWord ext;
     EmitString ''GLSL.std.450'';
     EmitInst2 OpMemoryModel 0 1;
     func_id \<leftarrow> AllocId;
     EmitShaderIo (sp_stage program);
     ids \<leftarrow> gets (\<lambda>s. interface_ids (sp_stage program) (em_io s));
     EmitWord (push_bit 16 (of_nat (3 + (length ''main'' + 1 + 3) div 4 + length ids)) OR OpEntryPoint);
     EmitWord (if is_fragment (sp_stage program) then 4 else 0);
     EmitWord func_id;
     EmitString ''main'';
     EmitWords ids;
     (if is_fragment (sp_stage program) then EmitInst2 OpExecutionMode func_id 7 else return ());
     return func_id}"

definition emit_decorations :: "ShaderProgram \<Rightarrow> unit emit" where
  "emit_decorations program = do {
     io \<leftarrow> gets em_io;
     (if is_vertex (sp_stage program) then do {
        EmitDecorationLocation (vert_in_position io) 0;
        EmitDecorationLocation (vert_in_color io) 1;
        EmitDecorationBuiltIn (vert_out_position io) BuiltIn_Position;
        EmitDecorationLocation (vert_out_color io) 0}
      else if is_fragment (sp_stage program) then do {
        EmitDecorationLocation (frag_in_color io) 0;
        EmitDecorationLocation (frag_out_color io) 0}
      else return ());
     assign_type cbuf_runtime_array_update AllocId;
     assign_type cbuf_struct_update AllocId;
     cbuf \<leftarrow> AllocId;
     modify (\<lambda>s. s\<lparr>cbuf_var_id := cbuf\<rparr>);
     arr \<leftarrow> ty_id cbuf_runtime_array;
     EmitDecoration arr (decoration Deco_ArrayStride) 4;
     EmitDecoration cbuf (decoration Deco_DescriptorSet) 0;
     EmitDecoration cbuf (decoration Deco_Binding) 0;
     if sp_uses_textures program then do {
       tex \<leftarrow> AllocId;
       modify (\<lambda>s. s\<lparr>tex_sampled_image_var := tex\<rparr>);
       EmitDecoration tex (decoration Deco_DescriptorSet) 0;
       EmitDecoration tex (decoration Deco_Binding) 0}
     else return ()}"

definition io_variable :: "(TypeIds \<Rightarrow> u32) \<Rightarrow> (ShaderIo \<Rightarrow> u32) \<Rightarrow> SpirvStorageClass \<Rightarrow> unit emit" where
  "io_variable f sel c = do {t \<leftarrow> ty_id f; io \<leftarrow> gets em_io; EmitInst3 OpVariable t (sel io) (class_code c)}"

definition emit_globals :: "ShaderProgram \<Rightarrow> unit emit" where
  "emit_globals program = do {
     zero \<leftarrow> EmitConstantF32 0;
     modify (\<lambda>s. s\<lparr>const_f32_zero := zero\<rparr>);
     one \<leftarrow> EmitConstantF32 0x3F800000;
     modify (\<lambda>s. s\<lparr>const_f32_one := one\<rparr>);
     t \<leftarrow> EmitConstantBool True;
     modify (\<lambda>s. s\<lparr>const_true := t\<rparr>);
     f \<leftarrow> EmitConstantBool False;
     modify (\<lambda>s. s\<lparr>const_false := f\<rparr>);
     (if is_vertex (sp_stage program) then do {
        io_variable vec4f32_input_ptr vert_in_position SC_Input;
        io_variable vec4f32_input_ptr vert_in_color SC_Input;
        io_variable vec4f32_output_ptr vert_out_position SC_Output;
        io_variable vec4f32_output_ptr vert_out_color SC_Output}
      else if is_fragment (sp_stage program) then do {
        io_variable vec4f32_input_ptr frag_in_color SC_Input;
        io_variable vec4f32_output_ptr frag_out_color SC_Output}
      else return ());
     cbuf \<leftarrow> gets cbuf_var_id;
     cptr \<leftarrow> ty_id cbuf_ptr;
     cbuf' \<leftarrow> EmitVariablePreallocated cbuf cptr (class_code SC_Uniform) 0;
     modify (\<lambda>s. s\<lparr>cbuf_var_id := cbuf'\<rparr>);
     if sp_uses_textures program then do {
       tex \<leftarrow> gets tex_sampled_image_var;
       iptr \<leftarrow> ty_id f32_image_2d;
       tex' \<leftarrow> EmitVariablePreallocated tex iptr (class_code SC_UniformConstant) 0;
       modify (\<lambda>s. s\<lparr>tex_sampled_image_var := tex'\<rparr>)}
     else return ()}"

definition emit_entry :: "ShaderProgram \<Rightarrow> u32 \<Rightarrow> unit emit" where
  "emit_entry program func_id = do {
     void \<leftarrow> ty_id void_t;
     func_type \<leftarrow> EmitTypeFunction void [];
     EmitInst4 OpFunction void func_id 0 func_type;
     entry \<leftarrow> EmitLabel;
     return ()}"

definition emit_prologue :: "ShaderProgram \<Rightarrow> u32 emit" where
  "emit_prologue program = do {
     func_id \<leftarrow> emit_preamble program;
     emit_decorations program;
     BuildBaseTypes;
     emit_globals program;
     emit_entry program func_id;
     return func_id}"

text \<open>The entry label stands for the address of the first instruction.\<close>

definition mark_entry :: "ShaderProgram \<Rightarrow> unit emit" where
  "mark_entry program =
     (case sp_instructions program of
        [] \<Rightarrow> return ()
      | i # _ \<Rightarrow> upd_cfg (\<lambda>c. c\<lparr>labels_emitted := insert (si_pc i) (labels_emitted c)\<rparr>))"

definition emit_body :: "uninit \<Rightarrow> ShaderProgram \<Rightarrow> u32 \<Rightarrow> unit emit" where
  "emit_body u program func_id = do {
     mark_entry program;
     g \<leftarrow> BuildGprMap program func_id;
     (if is_vertex (sp_stage program) then EmitVertexIoBody
      else if is_fragment (sp_stage program) then EmitFragmentIoBody else return ());
     EmitStructuredCfg u (BuildCfg u program) g (sp_instructions program);
     (if list_ex (\<lambda>i. si_opcode i = Ctl KIL) (sp_instructions program) then return ()
      else EmitWord (push_bit 16 1 OR OpReturn));
     EmitWord (push_bit 16 1 OR OpFunctionEnd)}"

definition Emit :: "uninit \<Rightarrow> ShaderProgram \<Rightarrow> u32 list emit" where
  "Emit u program = do {
     modify reset_emitter;
     func_id \<leftarrow> emit_prologue program;
     emit_body u program func_id;
     modify (\<lambda>s. if length (em_words s) > 3 then s\<lparr>em_words := (em_words s)[3 := em_bound s]\<rparr> else s);
     gets em_words}"

end
