(* ===== verification/SpirvCorrect.thy ===== *)
theory SpirvCorrect
  imports SpirvEmitter
begin

unbundle bit_operations_syntax

text \<open>
  Correctness of the emitted modules, and where they are not valid.
\<close>

section \<open>Instructions satisfy the contract\<close>

lemma emits_modify:
  assumes "\<And>s. grows 0 s (f s) []"
  shows "emits 0 (modify f)"
  using assms by (auto simp: emits_def)

lemma emits_load [emits_intros]: "emits 1 (load_gpr g i)" "emits 1 (load_src u g inst k)"
proof -
  show "emits 1 (load_gpr g i)" for i
    unfolding load_gpr_def by (rule emits_mono, (rule emits_intros | (simp; fail))+)
  then show "emits 1 (load_src u g inst k)"
    unfolding load_src_def .
qed

lemma emits_finish [emits_intros]: "emits 0 (store_gpr g i v)" "emits 0 (finish u g inst v)"
proof -
  show "emits 0 (store_gpr g i v)" for i
    unfolding store_gpr_def by (rule emits_mono, (rule emits_intros | (simp; fail))+)
  note store = this
  show "emits 0 (finish u g inst v)"
    unfolding finish_def by (rule emits_mono, (rule emits_intros store | (simp; fail))+)
qed

lemma emits_bitcast [emits_intros]: "emits 1 (bitcast f x)"
  unfolding bitcast_def by (rule emits_mono, (rule emits_intros | (simp; fail))+)

lemma emits_with1 [emits_intros]:
  assumes "\<And>a. emits k (body a)"
  shows "emits (1 + k) (with1 n u g inst body)"
  unfolding with1_def by (rule emits_mono, (rule emits_intros assms | (simp; fail))+)

lemma emits_with2 [emits_intros]:
  assumes "\<And>a b. emits k (body a b)"
  shows "emits (2 + k) (with2 u g inst body)"
  unfolding with2_def by (rule emits_mono, (rule emits_intros assms | (simp; fail))+)

lemma emits_with3 [emits_intros]:
  assumes "\<And>a b c. emits k (body a b c)"
  shows "emits (3 + k) (with3 u g inst body)"
  unfolding with3_def by (rule emits_mono, (rule emits_intros assms | (simp; fail))+)

lemma emits_float2:
  assumes "\<And>a b c. emits k (op a b c)"
  shows "emits (2 + k) (emit_float2 op u g inst)"
  unfolding emit_float2_def by (rule emits_mono, (rule emits_intros assms | (simp; fail))+)

lemma emits_float1:
  assumes "\<And>a b. emits k (op a b)"
  shows "emits (1 + k) (emit_float1 op u g inst)"
  unfolding emit_float1_def by (rule emits_mono, (rule emits_intros assms | (simp; fail))+)

lemma emits_int2:
  assumes "\<And>a b c. emits k (op a b c)"
  shows "emits (5 + k) (emit_int2 t0 t1 op u g inst)"
  unfolding emit_int2_def by (rule emits_mono, (rule emits_intros assms | (simp; fail))+)

lemma emits_int3:
  assumes "\<And>a b c d. emits k (op a b c d)"
  shows "emits (7 + k) (emit_int3 t op u g inst)"
  unfolding emit_int3_def by (rule emits_mono, (rule emits_intros assms | (simp; fail))+)

lemma emits_int1:
  assumes "\<And>a b. emits k (op a b)"
  shows "emits (3 + k) (emit_int1 op u g inst)"
  unfolding emit_int1_def by (rule emits_mono, (rule emits_intros assms | (simp; fail))+)

lemma emits_pieces [emits_intros]:
  "emits 1 (glsl1 i f x)" "emits 1 (reciprocal f x)" "emits 1 (clamp01 f x)" "emits 1 (mufu_value op f x)"
  "emits 2 (larger t a b)" "emits 3 (shift_add t a b)" "emits 2 (mul_add t a b c)" "emits 2 (add_add t a b c)"
  "emits 2 (insert_all t a b c)" "emits 1 (negate t x)"
proof -
  show 1: "emits 1 (glsl1 i f x)" for i
    unfolding glsl1_def by (intro emits_intros) simp
  show 2: "emits 1 (reciprocal f x)"
    unfolding reciprocal_def by (rule emits_mono, (rule emits_intros | (simp; fail))+)
  show "emits 1 (clamp01 f x)"
    unfolding clamp01_def by (rule emits_mono, (rule emits_intros | (simp; fail))+)
  show "emits 1 (mufu_value op f x)"
    unfolding mufu_value_def by (rule emits_mono, (rule emits_intros 1 2 | (simp; fail))+)
  show "emits 2 (larger t a b)"
    unfolding larger_def by (rule emits_mono, (rule emits_intros | (simp; fail))+)
  show "emits 3 (shift_add t a b)"
    unfolding shift_add_def by (rule emits_mono, (rule emits_intros | (simp; fail))+)
  show "emits 2 (mul_add t a b c)"
    unfolding mul_add_def by (rule emits_mono, (rule emits_intros | (simp; fail))+)
  show "emits 2 (add_add t a b c)"
    unfolding add_add_def by (rule emits_mono, (rule emits_intros | (simp; fail))+)
  show "emits 2 (insert_all t a b c)"
    unfolding insert_all_def by (rule emits_mono, (rule emits_intros | (simp; fail))+)
  show "emits 1 (negate t x)"
    unfolding negate_def by (rule emits_allocI, simp, simp add: result_simps)
qed

lemma emits_set_predicate [emits_intros]: "emits 2 (set_predicate u inst cmp)"
proof -
  have "emits 0 (modify (\<lambda>s. s\<lparr>cfg_state := (cfg_state s)\<lparr>pred_vars := (pred_vars (cfg_state s))(i \<mapsto> v)\<rparr>\<rparr>))" for i v
    by (rule emits_modify) (simp add: grows_def)
  note upd = this
  show ?thesis
    unfolding set_predicate_def by (rule emits_mono, (rule emits_intros upd | (simp; fail))+)
qed

lemma emits_cases [emits_intros]:
  "emits 12 (emit_FMAD u g inst)" "emits 12 (emit_F2I u g inst)" "emits 12 (emit_I2F u g inst)"
  "emits 12 (emit_ISETP u g inst)" "emits 12 (emit_FSETP u g inst)" "emits 12 (emit_FSET u g inst)"
  "emits 12 (emit_S2R u g inst)" "emits 12 (copy_src u g inst)" "emits 12 (emit_LDC u g inst)" "emits 12 (emit_TEX u g inst)"
  "emits 12 (emit_I2I u g inst)" "emits 12 (emit_F2F u g inst)" "emits 12 (emit_PRMT u g inst)" "emits 12 (emit_POPC u g inst)"
  "emits 12 (emit_FLO u g inst)"
  unfolding emit_FMAD_def emit_F2I_def emit_I2F_def emit_ISETP_def emit_FSETP_def emit_FSET_def emit_S2R_def copy_src_def
    emit_LDC_def emit_TEX_def emit_I2I_def emit_F2F_def emit_PRMT_def emit_POPC_def emit_FLO_def
  by (rule emits_mono, (rule emits_intros | (simp; fail))+)+

lemma emits_alu [emits_intros]:
  "emits 12 (emit_FADD u g inst)" "emits 12 (emit_FMUL u g inst)" "emits 12 (emit_FMAX u g inst)" "emits 12 (emit_FMIN u g inst)"
  "emits 12 (emit_FNEG u g inst)" "emits 12 (emit_FABS u g inst)" "emits 12 (emit_FRCP u g inst)" "emits 12 (emit_FRSQ u g inst)"
  "emits 12 (emit_FSQRT u g inst)" "emits 12 (emit_FEX2 u g inst)" "emits 12 (emit_FLG2 u g inst)" "emits 12 (emit_FSAT u g inst)"
  "emits 12 (emit_MUFU u g inst)" "emits 12 (emit_IADD u g inst)" "emits 12 (emit_ISUB u g inst)" "emits 12 (emit_IMUL u g inst)"
  "emits 12 (emit_SHL u g inst)" "emits 12 (emit_SHR u g inst)" "emits 12 (emit_IMNMX u g inst)" "emits 12 (emit_LEA u g inst)"
  "emits 12 (emit_IMAD u g inst)" "emits 12 (emit_IADD3 u g inst)" "emits 12 (emit_BFE u g inst)" "emits 12 (emit_BFI u g inst)"
  "emits 12 (emit_INEG u g inst)" "emits 12 (emit_IABS u g inst)"
  unfolding emit_FADD_def emit_FMUL_def emit_FMAX_def emit_FMIN_def emit_FNEG_def emit_FABS_def emit_FRCP_def emit_FRSQ_def
    emit_FSQRT_def emit_FEX2_def emit_FLG2_def emit_FSAT_def emit_MUFU_def emit_IADD_def emit_ISUB_def emit_IMUL_def
    emit_SHL_def emit_SHR_def emit_IMNMX_def emit_LEA_def emit_IMAD_def emit_IADD3_def emit_BFE_def emit_BFI_def emit_INEG_def emit_IABS_def
  by (rule emits_mono, (rule emits_float1 emits_float2 emits_int1 emits_int2 emits_int3 emits_intros | (simp; fail))+)+

lemma emits_other [emits_intros]: "emits 12 (emit_other u g inst)" "emits 12 (emit_LD u g inst)" "emits 12 (emit_ST u g inst)"
proof -
  have "emits 12 (with1 1 u g inst (finish u g inst))" "emits 12 (return 0 :: u32 emit)"
    by (rule emits_mono, (rule emits_intros | (simp; fail))+)+
  then show "emits 12 (emit_other u g inst)"
    by (simp add: emit_other_def split: operand_val.split)
  show "emits 12 (emit_LD u g inst)" "emits 12 (emit_ST u g inst)"
    unfolding emit_LD_def emit_ST_def by (rule emits_intros)+
qed

lemma emits_shader_inst [emits_intros]: "emits 12 (EmitShaderInst u g inst)"
proof -
  have "emits 12 (return 0 :: u32 emit)" "emits 12 (do {EmitKill; return (0 :: u32)})"
    by (rule emits_mono, (rule emits_intros | (simp; fail))+)+
  then show ?thesis
    unfolding EmitShaderInst_def
    by (simp add: emits_intros split: ShaderOpcode.split ctl_op.split float_op.split int_op.split conv_op.split
        compare_op.split load_op.split store_op.split texture_op.split special_op.split)
qed

lemma emits_io [emits_intros]: "emits 2 EmitVertexIoBody" "emits 1 EmitFragmentIoBody"
  unfolding EmitVertexIoBody_def EmitFragmentIoBody_def copy_io_def
  by (rule emits_mono, (rule emits_intros | (simp; fail))+)+

lemma emits_condition: "emits 1 (EmitCondition inst)"
  unfolding EmitCondition_def by (rule emits_mono, (rule emits_intros | (simp; fail))+)

lemma emits_add_operand [emits_intros]: "emits 1 (add_operand op m)"
proof -
  have "emits 1 (add_gpr r m)" for r
    unfolding add_gpr_def by (rule emits_mono, (rule emits_intros | (simp; fail))+)
  moreover have "emits 1 (return m)"
    by (rule emits_mono, (rule emits_intros | (simp; fail))+)
  ultimately show ?thesis
    by (simp add: add_operand_def split: operand_val.split)
qed

lemma emits_add_operands [emits_intros]: "emits (length ops) (add_operands ops m)"
proof (induction ops arbitrary: m)
  case (Cons op ops)
  have "emits (1 + length ops) (add_operands (op # ops) m)"
    unfolding add_operands.simps by (rule emits_bind [OF emits_add_operand Cons.IH])
  then show ?case
    by simp
qed (simp add: emits_intros)

lemma emits_map_instructions:
  "list_all (\<lambda>i. si_src_count i \<le> 3) insts \<Longrightarrow> emits (4 * length insts) (map_instructions insts m)"
proof (induction insts arbitrary: m)
  case (Cons inst insts)
  have n: "unat (si_src_count inst) \<le> 3"
    using Cons.prems by (simp add: word_le_nat_alt)
  have "emits (1 + (length (map (src inst) [0..<unat (si_src_count inst)]) + 4 * length insts)) (map_instructions (inst # insts) m)"
    unfolding map_instructions.simps using Cons by (intro emits_bind emits_add_operand emits_add_operands) simp
  then show ?case
    by (rule emits_mono) (use n in simp)
qed (simp add: emits_intros)

section \<open>Labels\<close>

text \<open>
  While the body is emitted, \<open>D\<close> is the set of ids defined so far. Reserved labels that are not marked as emitted are not
  defined, and no two addresses share a label.
\<close>

abbreviation labels :: "emitter \<Rightarrow> u32 \<rightharpoonup> u32" where "labels s \<equiv> pc_to_label (cfg_state s)"
abbreviation emitted :: "emitter \<Rightarrow> u32 set" where "emitted s \<equiv> labels_emitted (cfg_state s)"

definition label_inv :: "u32 set \<Rightarrow> emitter \<Rightarrow> bool" where
  "label_inv D s \<longleftrightarrow>
     (\<forall>x \<in> D. x < em_next_id s) \<and> (\<forall>pc l. labels s pc = Some l \<longrightarrow> l < em_next_id s \<and> (pc \<notin> emitted s \<longrightarrow> l \<notin> D)) \<and>
     (\<forall>pc pc' l. labels s pc = Some l \<longrightarrow> labels s pc' = Some l \<longrightarrow> pc = pc')"

text \<open>
  Growth that may define labels: addresses of \<open>L\<close> may become marked, labels reserved for addresses of \<open>F\<close> may be
  defined; every other new result is a new id.
\<close>

definition cgrows :: "nat \<Rightarrow> u32 set \<Rightarrow> u32 set \<Rightarrow> u32 set \<Rightarrow> emitter \<Rightarrow> emitter \<Rightarrow> spirv list \<Rightarrow> bool" where
  "cgrows k L F D s s' is \<longleftrightarrow>
     em_words s' = em_words s @ concat (map encode_spirv is) \<and> list_all spirv_ok is \<and>
     em_next_id s \<le> em_next_id s' \<and> unat (em_next_id s') \<le> unat (em_next_id s) + k \<and>
     distinct (results is) \<and> set (results is) \<inter> D = {} \<and>
     (\<forall>x \<in> set (results is). em_next_id s \<le> x \<or> (\<exists>pc \<in> F. labels s pc = Some x)) \<and>
     (em_next_id s \<le> em_bound s \<longrightarrow> em_next_id s' \<le> em_bound s') \<and>
     label_inv (D \<union> set (results is)) s' \<and> emitted s' \<subseteq> emitted s \<union> L \<and>
     (\<forall>pc l. labels s' pc = Some l \<longrightarrow> labels s pc = Some l \<or> em_next_id s \<le> l)"

definition cemits :: "nat \<Rightarrow> u32 set \<Rightarrow> 'a emit \<Rightarrow> bool" where
  "cemits k L m \<longleftrightarrow> (\<forall>s D. label_inv D s \<longrightarrow> unat (em_next_id s) + k < 2 ^ 32 \<longrightarrow>
     (\<exists>is. cgrows k L {} D s (snd (run_state m s)) is))"

lemma cgrows_trans:
  assumes "cgrows j L F D s s' is" "cgrows k L' F' (D \<union> set (results is)) s' s'' js"
  shows "cgrows (j + k) (L \<union> L') (F \<union> F') D s s'' (is @ js)"
proof -
  have "em_next_id s \<le> x \<or> (\<exists>pc \<in> F \<union> F'. labels s pc = Some x)" if "x \<in> set (results js)" for x
    using assms that unfolding cgrows_def by (metis Un_iff order.trans)
  moreover have "labels s pc = Some l \<or> em_next_id s \<le> l" if "labels s'' pc = Some l" for pc l
    using assms that unfolding cgrows_def by (metis order.trans)
  ultimately show ?thesis
    using assms unfolding cgrows_def by (auto simp: Un_assoc)
qed

lemma cgrows_weaken:
  assumes "cgrows j L F D s s' is" "j \<le> k" "L \<subseteq> L'" "F \<subseteq> F'"
  shows "cgrows k L' F' D s s' is"
  using assms unfolding cgrows_def by (auto; blast)

lemma grows_cgrows:
  assumes "grows k s s' is" "label_inv D s"
  shows "cgrows k {} {} D s s' is"
proof -
  have below: "x < em_next_id s" if "x \<in> D" for x
    using that assms(2) by (simp add: label_inv_def)
  have new: "em_next_id s \<le> x \<and> x < em_next_id s'" if "x \<in> set (results is)" for x
    using that assms(1) by (simp add: grows_def)
  have le: "em_next_id s \<le> em_next_id s'" and same: "labels s' = labels s" "emitted s' = emitted s"
    using assms(1) by (simp_all add: grows_def)
  have disj: "set (results is) \<inter> D = {}"
    using below new by (auto dest: leD)
  have lab: "l < em_next_id s" "pc \<notin> emitted s \<Longrightarrow> l \<notin> D" if "labels s pc = Some l" for pc l
    using that assms(2) by (auto simp: label_inv_def)
  have "x < em_next_id s'" if "x \<in> D \<union> set (results is)" for x
    using that below new le by (auto intro: order.strict_trans2)
  moreover have "l < em_next_id s'" "pc \<notin> emitted s \<Longrightarrow> l \<notin> D \<union> set (results is)" if "labels s pc = Some l" for pc l
    using lab [OF that] new le by (auto intro: order.strict_trans2 dest: leD)
  moreover have "pc = pc'" if "labels s pc = Some l" "labels s pc' = Some l" for pc pc' l
    using that assms(2) by (auto simp: label_inv_def)
  ultimately have "label_inv (D \<union> set (results is)) s'"
    unfolding label_inv_def same by blast
  then show ?thesis
    using assms(1) disj new by (simp add: grows_def cgrows_def)
qed

lemma cemitsD:
  assumes "cemits k L m" "run_state m s = (x, s')" "label_inv D s" "unat (em_next_id s) + k < 2 ^ 32"
  shows "\<exists>is. cgrows k L {} D s s' is"
  using assms unfolding cemits_def by (metis snd_conv)

lemma emits_cemits: "emits k m \<Longrightarrow> cemits k {} m"
  unfolding emits_def cemits_def using grows_cgrows by blast

lemma cemits_bind:
  assumes "cemits j L m" "\<And>x. cemits k L' (f x)"
  shows "cemits (j + k) (L \<union> L') (m \<bind> f)"
  unfolding cemits_def
proof (intro allI impI)
  fix s :: emitter and D
  assume inv: "label_inv D s" and room: "unat (em_next_id s) + (j + k) < 2 ^ 32"
  obtain x s' where run: "run_state m s = (x, s')"
    by fastforce
  then obtain "is" where g: "cgrows j L {} D s s' is"
    using assms(1) room inv unfolding cemits_def by (metis add.assoc add_lessD1 snd_conv)
  then have "unat (em_next_id s') + k < 2 ^ 32" "label_inv (D \<union> set (results is)) s'"
    using room by (simp_all add: cgrows_def)
  then obtain js where "cgrows k L' {} (D \<union> set (results is)) s' (snd (run_state (f x) s')) js"
    using assms(2) unfolding cemits_def by blast
  then show "\<exists>is. cgrows (j + k) (L \<union> L') {} D s (snd (run_state (m \<bind> f) s)) is"
    using cgrows_trans [OF g] run by fastforce
qed

lemma cemits_weaken: "cemits j L m \<Longrightarrow> j \<le> k \<Longrightarrow> L \<subseteq> L' \<Longrightarrow> cemits k L' m"
  unfolding cemits_def by (meson add_le_cancel_left cgrows_weaken le_less_trans order_refl)

lemma cemits_if: "cemits k L m \<Longrightarrow> cemits k L n \<Longrightarrow> cemits k L (if b then m else n)"
  by simp

text \<open>Reserving a label, and changing the stack of open regions.\<close>

lemma cgrows_reserve:
  assumes "label_inv D s" "unat (em_next_id s) + 1 < 2 ^ 32"
  shows "cgrows 1 {} {} D s (snd (run_state (ReserveLabel pc) s)) []"
    and "labels (snd (run_state (ReserveLabel pc) s)) pc = Some (fst (run_state (ReserveLabel pc) s))"
  using assms next_id_Suc [OF assms(2)]
  by (auto simp: ReserveLabel_def upd_cfg_def took_def cgrows_def label_inv_def word_le_nat_alt word_less_nat_alt max_def
      split: option.splits intro: less_SucI)

lemma cemits_reserve: "cemits 1 {} (ReserveLabel pc)"
  unfolding cemits_def using cgrows_reserve by blast

lemma emits_stack [emits_intros]: "emits 0 (upd_cfg (\<lambda>c. ssy_stack_update (f c) c))"
  unfolding upd_cfg_def by (rule emits_modify) (simp add: grows_def)

lemma cemits_start_block: "cemits 1 {pc} (start_block cfg pc)"
  unfolding cemits_def
proof (intro allI impI)
  fix s D
  assume inv: "label_inv D s" and room: "unat (em_next_id s) + 1 < 2 ^ 32"
  let ?s = "(put_inst (OpLabel, [em_next_id s]) (took s))"
  have ok: "spirv_ok (OpLabel, [em_next_id s])" "result_of (OpLabel, [em_next_id s]) = Some (em_next_id s)"
    by (simp_all add: result_simps)
  show "\<exists>is. cgrows 1 {pc} {} D s (snd (run_state (start_block cfg pc) s)) is"
  proof (cases "pc \<in> block_starts cfg \<and> pc \<notin> emitted s")
    case True
    then show ?thesis
      using inv ok next_id_Suc [OF room]
      by (intro exI [of _ "[(OpLabel, [em_next_id s])]"])
        (auto simp: start_block_def upd_cfg_def took_def put_inst_def cgrows_def label_inv_def word_le_nat_alt word_less_nat_alt max_def
          intro: less_SucI)
  next
    case False
    then show ?thesis
      using inv by (intro exI [of _ "[]"]) (auto simp: start_block_def cgrows_def)
  qed
qed

lemma emits_merges [emits_intros]: "emits 0 (EmitInst2 OpSelectionMerge x y)" "emits 0 (EmitInst3 OpLoopMerge x y z)"
  by (rule emits_instI, simp, simp add: result_simps)+

lemma emits_deferred_merge [emits_intros]: "emits 0 deferred_merge"
  unfolding deferred_merge_def Let_def by (rule emits_mono, (rule emits_intros | (simp; fail))+)

lemma emits_handle_sync [emits_intros]: "emits 0 (handle_sync pc)"
  unfolding handle_sync_def by (rule emits_mono, (rule emits_intros | (simp; fail))+)

named_theorems cemits_intros

lemma cemits_bind0 [cemits_intros]:
  "cemits j {} m \<Longrightarrow> (\<And>x. cemits k {} (f x)) \<Longrightarrow> cemits (j + k) {} (m \<bind> f)"
  using cemits_bind [of j "{}" m k "{}" f] by simp

lemma cemits_cases0 [cemits_intros]:
  "cemits j {} m \<Longrightarrow> cemits k {} n \<Longrightarrow> cemits (max j k) {} (if b then m else n)"
  "cemits j {} m \<Longrightarrow> (\<And>x. cemits k {} (h x)) \<Longrightarrow> cemits (max j k) {} (case v of None \<Rightarrow> m | Some x \<Rightarrow> h x)"
  by (cases b; cases v; simp; metis cemits_weaken max.cobounded1 max.cobounded2 order_refl)+

lemmas cemits_rules = cemits_reserve cemits_intros emits_cemits [OF emits_deferred_merge] emits_cemits [OF emits_stack]
  emits_cemits [OF emits_pure(1)] emits_cemits [OF emits_pure(2)] emits_cemits [OF builder_plain_emits(6)]

lemma handlers_cemit:
  "cemits 2 {} (handle_ssy cfg pc)" "cemits 1 {} (handle_bra u inst)" "cemits 1 {} handle_break" "cemits 1 {} (handle_cont cfg)"
  unfolding handle_ssy_def handle_bra_def handle_break_def handle_cont_def
  by (rule cemits_weaken, (rule cemits_rules | (simp; fail))+)+

lemma run_bindI: "run_state m s = (x, s') \<Longrightarrow> run_state (m \<bind> f) s = run_state (f x) s'"
  by simp

text \<open>Defining the label that was reserved for an address.\<close>

lemma cgrows_define:
  assumes "label_inv D s" "labels s pc = Some l" "pc \<notin> emitted s"
  shows "cgrows 0 {pc} {pc} D s
    (snd (run_state (do {EmitInst1 OpLabel l; upd_cfg (\<lambda>c. c\<lparr>labels_emitted := insert pc (labels_emitted c)\<rparr>)}) s)) [(OpLabel, [l])]"
  using assms by (auto simp: upd_cfg_def put_inst_def cgrows_def label_inv_def result_simps)

lemma cond_bra_grows:
  assumes inv: "label_inv D s" and room: "unat (em_next_id s) + 3 < 2 ^ 32" and new: "false_pc \<notin> emitted s"
  shows "\<exists>is. cgrows 3 {false_pc} {false_pc} D s (snd (run_state (handle_cond_bra u inst false_pc) s)) is"
proof -
  let ?m = "do {deferred_merge; ReserveLabel (src_label u inst * 8)}"
  let ?branch = "\<lambda>tl fl. do {
     vars \<leftarrow> gets (\<lambda>s. pred_vars (cfg_state s));
     cond \<leftarrow> (case vars (ucast (si_pred_guard_index inst)) of
        Some v \<Rightarrow> do {bt \<leftarrow> ty_id bool_t; EmitLoad bt v}
      | None \<Rightarrow> gets const_true);
     if si_pred_guard_negate inst then EmitBranchConditional cond fl tl else EmitBranchConditional cond tl fl}"
  have m: "cemits 1 {} ?m"
    by (rule cemits_weaken, (rule cemits_rules | (simp; fail))+)
  obtain tl s1 where r1: "run_state ?m s = (tl, s1)"
    by fastforce
  then obtain is1 where g1: "cgrows 1 {} {} D s s1 is1"
    using cemitsD [OF m r1 inv] room by auto
  then have inv1: "label_inv (D \<union> set (results is1)) s1" and room1: "unat (em_next_id s1) + 2 < 2 ^ 32" and new1: "false_pc \<notin> emitted s1"
    using room new by (auto simp: cgrows_def)
  obtain fl s2 where r2: "run_state (ReserveLabel false_pc) s1 = (fl, s2)"
    by fastforce
  have g2: "cgrows 1 {} {} (D \<union> set (results is1)) s1 s2 []" and fl: "labels s2 false_pc = Some fl"
    using cgrows_reserve [OF inv1, of false_pc] room1 r2 by auto
  then have inv2: "label_inv (D \<union> set (results is1)) s2" and room2: "unat (em_next_id s2) + 1 < 2 ^ 32" and new2: "false_pc \<notin> emitted s2"
    using room1 new1 by (auto simp: cgrows_def)
  have "emits 1 (?branch tl fl)"
    by (rule emits_mono, (rule emits_intros | (simp; fail))+)
  moreover obtain x s3 where r3: "run_state (?branch tl fl) s2 = (x, s3)"
    by (rule prod.exhaust)
  ultimately obtain is3 where "grows 1 s2 s3 is3"
    using room2 unfolding emits_def by (metis (no_types, lifting) snd_conv)
  then have g3: "cgrows 1 {} {} (D \<union> set (results is1)) s2 s3 is3" and "labels s3 false_pc = Some fl" "false_pc \<notin> emitted s3"
    using grows_cgrows [OF _ inv2] fl new2 by (auto simp: grows_def)
  then have "cgrows 0 {false_pc} {false_pc} (D \<union> set (results (is1 @ is3))) s3
    (snd (run_state (do {EmitInst1 OpLabel fl; upd_cfg (\<lambda>c. c\<lparr>labels_emitted := insert false_pc (labels_emitted c)\<rparr>)}) s3)) [(OpLabel, [fl])]"
    using cgrows_define [of "D \<union> set (results (is1 @ is3))" s3 false_pc fl] by (simp add: cgrows_def Un_assoc)
  moreover have "cgrows 3 {} {} D s s3 (is1 @ is3)"
    using cgrows_trans [OF cgrows_trans [OF g1 g2]] g3 by (simp add: numeral_3_eq_3)
  ultimately have g4: "cgrows 3 {false_pc} {false_pc} D s
    (snd (run_state (do {EmitInst1 OpLabel fl; upd_cfg (\<lambda>c. c\<lparr>labels_emitted := insert false_pc (labels_emitted c)\<rparr>)}) s3))
    ((is1 @ is3) @ [(OpLabel, [fl])])"
    using cgrows_trans by fastforce
  have eq: "handle_cond_bra u inst false_pc = ?m \<bind> (\<lambda>tl. ReserveLabel false_pc \<bind> (\<lambda>fl. ?branch tl fl \<bind>
    (\<lambda>_. do {EmitInst1 OpLabel fl; upd_cfg (\<lambda>c. c\<lparr>labels_emitted := insert false_pc (labels_emitted c)\<rparr>)})))"
    by (simp add: handle_cond_bra_def)
  have "run_state (handle_cond_bra u inst false_pc) s =
    run_state (do {EmitInst1 OpLabel fl; upd_cfg (\<lambda>c. c\<lparr>labels_emitted := insert false_pc (labels_emitted c)\<rparr>)}) s3"
    unfolding eq run_bindI [OF r1] run_bindI [OF r2] run_bindI [OF r3] ..
  then show ?thesis
    using g4 by auto
qed

subsection \<open>The whole body\<close>

definition cond_branch :: "ShaderInstruction \<Rightarrow> bool" where
  "cond_branch inst \<longleftrightarrow> si_opcode inst = Ctl BRA \<and> si_pred_guard inst"

definition next_pc :: "ShaderInstruction \<Rightarrow> ShaderInstruction list \<Rightarrow> u32" where
  "next_pc inst rest = (case rest of [] \<Rightarrow> si_pc inst + 8 | next # _ \<Rightarrow> si_pc next)"

fun false_pcs :: "ShaderInstruction list \<Rightarrow> u32 set" where
  "false_pcs [] = {}"
| "false_pcs (inst # rest) = (if cond_branch inst then {next_pc inst rest} else {}) \<union> false_pcs rest"

lemma cfg_inst_grows:
  assumes inv: "label_inv D s" and room: "unat (em_next_id s) + 16 < 2 ^ 32" and new: "false_pc \<notin> emitted s" "false_pc \<noteq> si_pc inst"
  shows "\<exists>is. cgrows 16 {si_pc inst, false_pc} (if cond_branch inst then {false_pc} else {}) D s
    (snd (run_state (emit_cfg_inst u cfg g inst false_pc) s)) is"
proof -
  obtain y s1 where r1: "run_state (start_block cfg (si_pc inst)) s = (y, s1)"
    by (rule prod.exhaust)
  then obtain is1 where g1: "cgrows 1 {si_pc inst} {} D s s1 is1"
    using cemitsD [OF cemits_start_block r1 inv] room by auto
  then have inv1: "label_inv (D \<union> set (results is1)) s1" and room1: "unat (em_next_id s1) + 12 < 2 ^ 32"
    and new1: "false_pc \<notin> emitted s1"
    using room new by (auto simp: cgrows_def)
  define rest where "rest = (if si_opcode inst = Ctl SYNC then handle_sync (si_pc inst)
     else if si_opcode inst = Ctl SSY then handle_ssy cfg (si_pc inst)
     else if si_opcode inst = Ctl BRA \<and> \<not> si_pred_guard inst \<and> op_val (si_dest inst) = Op_None then handle_bra u inst
     else if si_opcode inst = Ctl BRA \<and> si_pred_guard inst then handle_cond_bra u inst false_pc
     else if si_opcode inst = Ctl EXIT \<or> si_opcode inst = Ctl RET then return ()
     else if si_opcode inst = Ctl BREAK then handle_break
     else if si_opcode inst = Ctl CONT then handle_cont cfg
     else if si_opcode inst = Ctl KIL then EmitKill
     else do {result \<leftarrow> EmitShaderInst u g inst; return ()})"
  have run: "run_state (emit_cfg_inst u cfg g inst false_pc) s = run_state rest s1"
    unfolding emit_cfg_inst_def rest_def [symmetric] by (rule run_bindI [OF r1])
  have "\<exists>js. cgrows 12 {false_pc} (if cond_branch inst then {false_pc} else {}) (D \<union> set (results is1)) s1 (snd (run_state rest s1)) js"
  proof (cases "cond_branch inst")
    case True
    then have "rest = handle_cond_bra u inst false_pc"
      by (simp add: rest_def cond_branch_def)
    then obtain js where "cgrows 3 {false_pc} {false_pc} (D \<union> set (results is1)) s1 (snd (run_state rest s1)) js"
      using cond_bra_grows [OF inv1 _ new1, of u inst] room1 by auto
    from cgrows_weaken [OF this, of 12] True show ?thesis
      by auto
  next
    case False
    have "cemits 12 {} (handle_sync (si_pc inst))" "cemits 12 {} EmitKill" "cemits 12 {} (do {result \<leftarrow> EmitShaderInst u g inst; return ()})"
      "cemits 12 {} (return ())"
      by (rule emits_cemits, rule emits_mono, (rule emits_intros | (simp; fail))+)+
    moreover have "cemits 12 {} (handle_ssy cfg (si_pc inst))" "cemits 12 {} (handle_bra u inst)" "cemits 12 {} handle_break" "cemits 12 {} (handle_cont cfg)"
      by (rule cemits_weaken, rule handlers_cemit, simp_all)+
    ultimately have "cemits 12 {} rest"
      using False by (auto simp: rest_def cond_branch_def)
    then obtain js where "cgrows 12 {} {} (D \<union> set (results is1)) s1 (snd (run_state rest s1)) js"
      using inv1 room1 unfolding cemits_def by blast
    from cgrows_weaken [OF this, of 12] False show ?thesis
      by auto
  qed
  then obtain js where "cgrows 12 {false_pc} (if cond_branch inst then {false_pc} else {}) (D \<union> set (results is1)) s1 (snd (run_state rest s1)) js" ..
  from cgrows_weaken [OF cgrows_trans [OF g1 this]] show ?thesis
    unfolding run by (intro exI [of _ "is1 @ js"]) simp
qed

lemma cfg_body_grows:
  assumes "sorted_wrt (<) (map si_pc insts)" "\<forall>i \<in> set insts. si_pc i < si_pc i + 8" "label_inv D s"
    and "unat (em_next_id s) + 16 * length insts < 2 ^ 32" "\<forall>pc \<in> emitted s. insts \<noteq> [] \<longrightarrow> pc \<le> si_pc (hd insts)"
  shows "\<exists>is L. cgrows (16 * length insts) L (false_pcs insts) D s (snd (run_state (EmitStructuredCfg u cfg g insts) s)) is"
  using assms
proof (induction insts arbitrary: D s)
  case Nil
  then show ?case
    by (intro exI [of _ "[]"] exI [of _ "{}"]) (simp add: cgrows_def)
next
  case (Cons inst rest)
  have after: "si_pc inst < next_pc inst rest"
    using Cons.prems(1,2) by (cases rest) (auto simp: next_pc_def)
  then have fresh: "next_pc inst rest \<notin> emitted s" "next_pc inst rest \<noteq> si_pc inst"
    using Cons.prems(5) by auto
  obtain y s1 where r1: "run_state (emit_cfg_inst u cfg g inst (next_pc inst rest)) s = (y, s1)"
    by (rule prod.exhaust)
  have "unat (em_next_id s) + 16 < 2 ^ 32"
    using Cons.prems(4) by simp
  from cfg_inst_grows [OF Cons.prems(3) this fresh, of u cfg g] r1
  obtain is1 where g1: "cgrows 16 {si_pc inst, next_pc inst rest} (if cond_branch inst then {next_pc inst rest} else {}) D s s1 is1"
    by auto
  then have "label_inv (D \<union> set (results is1)) s1" "unat (em_next_id s1) + 16 * length rest < 2 ^ 32"
    using Cons.prems(4) by (auto simp: cgrows_def)
  moreover have "\<forall>pc \<in> emitted s1. rest \<noteq> [] \<longrightarrow> pc \<le> si_pc (hd rest)"
  proof (intro ballI impI)
    fix pc
    assume "pc \<in> emitted s1" "rest \<noteq> []"
    then have "pc \<in> emitted s \<or> pc = si_pc inst \<or> pc = next_pc inst rest" "next_pc inst rest = si_pc (hd rest)"
      using g1 by (auto simp: cgrows_def next_pc_def neq_Nil_conv)
    then show "pc \<le> si_pc (hd rest)"
      using after Cons.prems(5) by (auto intro: order.trans less_imp_le)
  qed
  ultimately obtain is2 L where g2: "cgrows (16 * length rest) L (false_pcs rest) (D \<union> set (results is1)) s1
      (snd (run_state (EmitStructuredCfg u cfg g rest) s1)) is2"
    using Cons.IH [of "D \<union> set (results is1)" s1] Cons.prems(1,2) by auto
  have run: "run_state (EmitStructuredCfg u cfg g (inst # rest)) s = run_state (EmitStructuredCfg u cfg g rest) s1"
    unfolding EmitStructuredCfg.simps next_pc_def [symmetric] by (rule run_bindI [OF r1])
  have "16 * length (inst # rest) = 16 + 16 * length rest"
    by simp
  then show ?case
    unfolding run false_pcs.simps using cgrows_trans [OF g1 g2] by metis
qed

section \<open>The prologue\<close>

text \<open>
  Up to the function's entry label the emitter runs straight-line code, so next id and results are known exactly. Ids that are
  taken early and defined later are kept in members of the class; \<open>pins\<close> collects these members.
\<close>

record pins =
  pin_io :: ShaderIo
  pin_array :: u32
  pin_struct :: u32
  pin_cbuf :: u32
  pin_tex :: u32
  pin_built :: bool

definition pins_of :: "emitter \<Rightarrow> pins" where
  "pins_of s = \<lparr>pin_io = em_io s, pin_array = cbuf_runtime_array (em_types s), pin_struct = cbuf_struct (em_types s),
     pin_cbuf = cbuf_var_id s, pin_tex = tex_sampled_image_var s, pin_built = types_built s\<rparr>"

definition estep :: "u32 \<Rightarrow> pins \<Rightarrow> u32 list \<Rightarrow> emitter \<Rightarrow> emitter \<Rightarrow> bool" where
  "estep n p rs s s' \<longleftrightarrow>
     em_next_id s' = n \<and> pins_of s' = p \<and> cfg_state s' = cfg_state s \<and>
     (em_next_id s \<le> max 1 (em_bound s) \<longrightarrow> n \<le> max 1 (em_bound s')) \<and>
     (\<exists>is. em_words s' = em_words s @ concat (map encode_spirv is) \<and> list_all spirv_ok is \<and> results is = rs)"

definition exactly :: "u32 \<Rightarrow> pins \<Rightarrow> u32 \<Rightarrow> pins \<Rightarrow> u32 list \<Rightarrow> 'a emit \<Rightarrow> bool" where
  "exactly n p n' p' rs m \<longleftrightarrow>
     (\<forall>s. em_next_id s = n \<longrightarrow> pins_of s = p \<longrightarrow> estep n' p' rs s (snd (run_state m s)))"

lemma estep_trans:
  assumes "estep n p rs s s1" "estep n' p' rs' s1 s'"
  shows "estep n' p' (rs @ rs') s s'"
proof -
  obtain "is" js where "em_words s1 = em_words s @ concat (map encode_spirv is)" "list_all spirv_ok is" "results is = rs"
    "em_words s' = em_words s1 @ concat (map encode_spirv js)" "list_all spirv_ok js" "results js = rs'"
    using assms unfolding estep_def by blast
  then have "em_words s' = em_words s @ concat (map encode_spirv (is @ js)) \<and> list_all spirv_ok (is @ js) \<and> results (is @ js) = rs @ rs'"
    by simp
  then show ?thesis
    using assms unfolding estep_def by (metis (no_types, lifting))
qed

lemma exactly_value:
  assumes "\<And>s. em_next_id s = n \<Longrightarrow> pins_of s = p \<Longrightarrow> fst (run_state m s) = v" "exactly n p n1 p1 rs m" "exactly n1 p1 n' p' rs' (f v)"
  shows "exactly n p n' p' (rs @ rs') (m \<bind> f)"
  unfolding exactly_def
proof (intro allI impI)
  fix s
  assume s: "em_next_id s = n" "pins_of s = p"
  then obtain s1 where r: "run_state m s = (v, s1)"
    using assms(1) by (metis prod.collapse)
  then have 1: "estep n1 p1 rs s s1"
    using assms(2) s unfolding exactly_def by (metis snd_conv)
  then have "estep n' p' rs' s1 (snd (run_state (f v) s1))"
    using assms(3) unfolding exactly_def estep_def by blast
  from estep_trans [OF 1 this] show "estep n' p' (rs @ rs') s (snd (run_state (m \<bind> f) s))"
    using r by simp
qed

lemma exactly_bind:
  assumes "exactly n p n1 p1 rs m" "\<And>x. exactly n1 p1 n' p' rs' (f x)"
  shows "exactly n p n' p' (rs @ rs') (m \<bind> f)"
  unfolding exactly_def
proof (intro allI impI)
  fix s
  assume s: "em_next_id s = n" "pins_of s = p"
  obtain x s1 where r: "run_state m s = (x, s1)"
    by (rule prod.exhaust)
  then have 1: "estep n1 p1 rs s s1"
    using assms(1) s unfolding exactly_def by (metis snd_conv)
  then have "estep n' p' rs' s1 (snd (run_state (f x) s1))"
    using assms(2) unfolding exactly_def estep_def by blast
  from estep_trans [OF 1 this] show "estep n' p' (rs @ rs') s (snd (run_state (m \<bind> f) s))"
    using r by simp
qed

text \<open>The rules are applied in this order; the value of an allocation and of a pinned member is known.\<close>

lemma exactly_AllocId:
  assumes "exactly (n + 1) p n' p' rs (f n)"
  shows "exactly n p n' p' rs (AllocId \<bind> f)"
proof -
  have "exactly n p (n + 1) p [] AllocId"
    by (auto simp: exactly_def estep_def took_def pins_of_def max_def intro!: exI [of _ "[]"])
  from exactly_value [OF _ this, of n n' p' rs f] assms show ?thesis
    by simp
qed

lemma exactly_pinned:
  "exactly n p n' p' rs (f (pin_io p)) \<Longrightarrow> exactly n p n' p' rs (gets em_io \<bind> f)"
  "exactly n p n' p' rs (f2 (pin_cbuf p)) \<Longrightarrow> exactly n p n' p' rs (gets cbuf_var_id \<bind> f2)"
  "exactly n p n' p' rs (f2 (pin_tex p)) \<Longrightarrow> exactly n p n' p' rs (gets tex_sampled_image_var \<bind> f2)"
  "exactly n p n' p' rs (f2 (pin_array p)) \<Longrightarrow> exactly n p n' p' rs (ty_id cbuf_runtime_array \<bind> f2)"
  "exactly n p n' p' rs (f2 (pin_struct p)) \<Longrightarrow> exactly n p n' p' rs (ty_id cbuf_struct \<bind> f2)"
  "exactly n p n' p' rs (f3 (interface_ids st (pin_io p))) \<Longrightarrow> exactly n p n' p' rs (gets (\<lambda>s. interface_ids st (em_io s)) \<bind> f3)"
  "exactly n p n' p' rs (f4 (pin_built p)) \<Longrightarrow> exactly n p n' p' rs (gets types_built \<bind> f4)"
  by (auto simp: exactly_def pins_of_def)

lemma exactly_return: "exactly n p n p [] (return x)"
  by (auto simp: exactly_def estep_def intro!: exI [of _ "[]"])

lemma exactly_gets: "exactly n p n p [] (gets f)" "exactly n p n p [] (ty_id g)"
  by (auto simp: exactly_def estep_def intro!: exI [of _ "[]"])

lemma exactly_modify:
  assumes "\<And>s. em_next_id s = n \<Longrightarrow> pins_of s = p \<Longrightarrow> em_next_id (f s) = n \<and> em_bound (f s) = em_bound s \<and> em_words (f s) = em_words s \<and>
    cfg_state (f s) = cfg_state s \<and> pins_of (f s) = p'"
  shows "exactly n p n p' [] (modify f)"
  using assms by (auto simp: exactly_def estep_def intro!: exI [of _ "[]"])

lemma exactly_inst:
  assumes "\<And>s. snd (run_state m s) = put_inst i s" "spirv_ok i" "rs = (case result_of i of None \<Rightarrow> [] | Some x \<Rightarrow> [x])"
  shows "exactly n p n p rs m"
  using assms by (auto simp: exactly_def estep_def put_inst_def pins_of_def intro!: exI [of _ "[i]"] split: option.split)

lemma exactly_builder:
  assumes "\<And>s. snd (run_state m s) = put_inst (i s) (took s)" "\<And>s. spirv_ok (i s) \<and> result_of (i s) = Some (em_next_id s)"
  shows "exactly n p (n + 1) p [n] m"
  unfolding exactly_def
proof (intro allI impI)
  fix s
  assume "em_next_id s = n" "pins_of s = p"
  then show "estep (n + 1) p [n] s (snd (run_state m s))"
    using assms(2) [of s] unfolding assms(1) estep_def
    by (auto simp: put_inst_def took_def pins_of_def max_def intro!: exI [of _ "[i s]"])
qed

lemma exactly_builders:
  "exactly n p (n + 1) p [n] EmitTypeVoid" "exactly n p (n + 1) p [n] EmitTypeBool" "exactly n p (n + 1) p [n] (EmitTypeFloat w)"
  "exactly n p (n + 1) p [n] (EmitTypeInt w sg)" "exactly n p (n + 1) p [n] (EmitTypeVector t k)"
  "exactly n p (n + 1) p [n] (EmitTypePointer c t)" "exactly n p (n + 1) p [n] (EmitTypeImage a b c d e f g)"
  "exactly n p (n + 1) p [n] (EmitTypeSampledImage t)" "exactly n p (n + 1) p [n] (EmitConstantF32 v)"
  "exactly n p (n + 1) p [n] (EmitConstantBool bv)" "exactly n p (n + 1) p [n] (EmitTypeFunction t [])"
  "exactly n p (n + 1) p [n] EmitLabel"
  by (rule exactly_builder, simp add: EmitTypeVoid_def EmitTypeBool_def EmitTypeFloat_def EmitTypeInt_def EmitTypeVector_def EmitTypePointer_def
      EmitTypeImage_def EmitTypeSampledImage_def EmitConstantF32_def EmitConstantBool_def EmitTypeFunction_def Let_def EmitLabel_def, simp add: result_simps)+

lemma ext_import_words:
  "do {EmitWord (push_bit 16 (2 + (12 + 4) div 4) OR OpExtInstImport); EmitWord ext; EmitString ''GLSL.std.450''; m} =
   do {EmitInst OpExtInstImport 5 (ext # string_words ''GLSL.std.450''); m}"
  by (rule state_ext) (simp add: EmitString_def put_inst_def encode_spirv_def string_words_def)

lemma entry_point_words:
  "do {EmitWord (push_bit 16 (of_nat (3 + (length ''main'' + 1 + 3) div 4 + length ids)) OR OpEntryPoint); EmitWord model; EmitWord func_id;
      EmitString ''main''; EmitWords ids; m} =
   do {EmitInst OpEntryPoint (of_nat (4 + length ids)) ([model, func_id] @ string_words ''main'' @ ids); m}"
  by (rule state_ext) (simp add: EmitString_def put_inst_def encode_spirv_def string_words_def ac_simps)

lemma emit_preamble_run:
  "emit_preamble program = do {
     EmitHeader;
     EmitCapabilities program;
     ext \<leftarrow> AllocId;
     modify (\<lambda>s. s\<lparr>glsl_ext_id := ext\<rparr>);
     EmitInst OpExtInstImport 5 (ext # string_words ''GLSL.std.450'');
     EmitInst2 OpMemoryModel 0 1;
     func_id \<leftarrow> AllocId;
     EmitShaderIo (sp_stage program);
     ids \<leftarrow> gets (\<lambda>s. interface_ids (sp_stage program) (em_io s));
     EmitInst OpEntryPoint (of_nat (4 + length ids)) ([if is_fragment (sp_stage program) then 4 else 0, func_id] @ string_words ''main'' @ ids);
     (if is_fragment (sp_stage program) then EmitInst2 OpExecutionMode func_id 7 else return ());
     return func_id}"
  unfolding emit_preamble_def ext_import_words entry_point_words ..

lemma length_strings [simp]: "length (string_words ''GLSL.std.450'') = 4" "length (string_words ''main'') = 2"
  by (simp_all add: string_words_def)



lemma exactly_insts:
  "exactly n p n p [a] (EmitInst2 OpTypeRuntimeArray a b)" "exactly n p n p [a] (EmitInst OpTypeStruct 2 [a, b])"
  "exactly n p n p [] (EmitInst1 OpCapability a)" "exactly n p n p [] (EmitInst2 OpMemoryModel a b)"
  "exactly n p n p [a] (EmitInst OpExtInstImport 5 (a # string_words ''GLSL.std.450''))" "exactly n p n p [] (EmitInst2 OpExecutionMode a b)"
  "exactly n p n p [a] (EmitInst3 OpVariable t a c)" "exactly n p n p [a] (EmitInst4 OpFunction t a b c)"
  "exactly n p n p [] (EmitDecoration a b c)" "exactly n p n p [] (EmitDecorationBuiltIn a b)" "exactly n p n p [] (EmitDecorationLocation a b)"
  by (rule exactly_inst, simp add: EmitDecoration_def EmitDecorationBuiltIn_def EmitDecorationLocation_def, simp add: result_simps, simp add: result_simps)+

lemma exactly_entry_point:
  "exactly n p n p [] (EmitInst OpEntryPoint (of_nat (4 + length (interface_ids st io))) ([model, func] @ string_words ''main'' @ interface_ids st io))"
  by (rule exactly_inst, simp, simp_all add: result_simps interface_ids_def)

lemma exactly_preallocated:
  assumes "exactly n p n' p' rs (f a)"
  shows "exactly n p n' p' (a # rs) (EmitVariablePreallocated a t c 0 \<bind> f)"
proof -
  have "exactly n p n p [a] (EmitVariablePreallocated a t c 0)"
    by (rule exactly_inst, simp add: EmitVariablePreallocated_def, simp_all add: result_simps)
  from exactly_value [OF _ this, of a n' p' rs f] assms show ?thesis
    by (simp add: EmitVariablePreallocated_def)
qed

lemma exactly_assigns:
  "exactly n p n p [] (modify (glsl_ext_id_update f))" "exactly n p n p [] (modify (const_f32_zero_update f))"
  "exactly n p n p [] (modify (const_f32_one_update f))" "exactly n p n p [] (modify (const_true_update f))"
  "exactly n p n p [] (modify (const_false_update f))"
  "exactly n p n (p\<lparr>pin_cbuf := v\<rparr>) [] (modify (cbuf_var_id_update (\<lambda>_. v)))"
  "exactly n p n (p\<lparr>pin_tex := v\<rparr>) [] (modify (tex_sampled_image_var_update (\<lambda>_. v)))"
  "exactly n p n (p\<lparr>pin_built := b\<rparr>) [] (modify (types_built_update (\<lambda>_. b)))"
  by (rule exactly_modify, auto simp: pins_of_def)+

lemma exactly_assign_type:
  assumes "exactly n p n' p rs m" "\<And>v t. cbuf_runtime_array (upd v t) = cbuf_runtime_array t" "\<And>v t. cbuf_struct (upd v t) = cbuf_struct t"
  shows "exactly n p n' p rs (assign_type upd m)"
proof -
  have "exactly n' p n' p [] (modify (\<lambda>s. s\<lparr>em_types := upd (\<lambda>_. x) (em_types s)\<rparr>))" for x
    by (rule exactly_modify) (use assms(2,3) in \<open>auto simp: pins_of_def\<close>)
  then show ?thesis
    unfolding assign_type_def using exactly_bind [OF assms(1)] by fastforce
qed

lemma exactly_take_pins:
  "exactly n p (n + 1) (p\<lparr>pin_array := n\<rparr>) [] (assign_type cbuf_runtime_array_update AllocId)"
  "exactly n p (n + 1) (p\<lparr>pin_struct := n\<rparr>) [] (assign_type cbuf_struct_update AllocId)"
  "exactly n p (n + 1) (p\<lparr>pin_io := upd (\<lambda>_. n) (pin_io p)\<rparr>) [] (assign_io upd)"
  unfolding assign_type_def assign_io_def
  by (rule exactly_AllocId, rule exactly_modify, auto simp: pins_of_def)+

lemmas exactly_rules = exactly_return exactly_AllocId exactly_pinned exactly_builders exactly_insts exactly_entry_point exactly_preallocated exactly_assigns
  exactly_take_pins exactly_assign_type exactly_gets exactly_bind

definition settles :: "u32 \<Rightarrow> pins \<Rightarrow> 'a emit \<Rightarrow> bool" where
  "settles n p m \<longleftrightarrow> (\<exists>n' p' rs. exactly n p n' p' rs m \<and> distinct rs \<and> (\<forall>x \<in> set rs. 0 < x \<and> x < n') \<and> 1 < n' \<and> n' \<le> 50)"

lemma settlesI: "exactly n p n' p' rs m \<Longrightarrow> distinct rs \<and> (\<forall>x \<in> set rs. 0 < x \<and> x < n') \<and> 1 < n' \<and> n' \<le> 50 \<Longrightarrow> settles n p m"
  unfolding settles_def by blast

text \<open>The prologue behind the five words of the header.\<close>

definition emit_sections :: "ShaderProgram \<Rightarrow> u32 emit" where
  "emit_sections program = do {
     EmitCapabilities program;
     ext \<leftarrow> AllocId;
     modify (\<lambda>s. s\<lparr>glsl_ext_id := ext\<rparr>);
     EmitInst OpExtInstImport 5 (ext # string_words ''GLSL.std.450'');
     EmitInst2 OpMemoryModel 0 1;
     func_id \<leftarrow> AllocId;
     EmitShaderIo (sp_stage program);
     ids \<leftarrow> gets (\<lambda>s. interface_ids (sp_stage program) (em_io s));
     EmitInst OpEntryPoint (of_nat (4 + length ids)) ([if is_fragment (sp_stage program) then 4 else 0, func_id] @ string_words ''main'' @ ids);
     (if is_fragment (sp_stage program) then EmitInst2 OpExecutionMode func_id 7 else return ());
     emit_decorations program;
     BuildBaseTypes;
     emit_globals program;
     emit_entry program func_id;
     return func_id}"

lemma emit_prologue_sections: "emit_prologue program = do {EmitHeader; emit_sections program}"
  unfolding emit_prologue_def emit_preamble_run emit_sections_def by simp

lemmas section_defs = emit_sections_def EmitCapabilities_def EmitShaderIo_def emit_decorations_def
  emit_globals_def io_variable_def emit_entry_def BuildBaseTypes_def

lemma sections_settle:
  assumes "is_vertex (sp_stage program) = v" "is_fragment (sp_stage program) = f" "sp_uses_textures program = t" "\<not> v \<or> \<not> f"
  shows "settles 1 \<lparr>pin_io = io, pin_array = a, pin_struct = b, pin_cbuf = c, pin_tex = d, pin_built = False\<rparr> (emit_sections program)"
  using assms(4) unfolding section_defs assms(1-3)
  by (cases v; cases f; cases t; simp only: if_True if_False simp_thms)
    (rule settlesI, (rule exactly_rules | (simp; fail) | (simp only: if_False pins.select_convs pins.update_convs))+)+

section \<open>Modules\<close>

definition translate :: "uninit \<Rightarrow> ShaderProgram \<Rightarrow> u32 list" where
  "translate u program = fst (run_state (Emit u program) new_emitter)"

text \<open>What a reader of the format relies on: the header, whole instructions, every id defined once and below the bound.\<close>

definition spirv_valid :: "u32 list \<Rightarrow> spirv list \<Rightarrow> bool" where
  "spirv_valid ws is \<longleftrightarrow>
     take 5 ws = [SPIRV_MAGIC, SPIRV_VERSION, 0, ws ! 3, 0] \<and> parse_spirv (drop 5 ws) = Some is \<and>
     distinct (results is) \<and> (\<forall>x \<in> set (results is). 0 < x \<and> x < ws ! 3)"

definition shader_ok :: "ShaderProgram \<Rightarrow> bool" where
  "shader_ok program \<longleftrightarrow>
     length (sp_instructions program) < 2 ^ 27 \<and> sorted_wrt (<) (map si_pc (sp_instructions program)) \<and>
     list_all (\<lambda>i. si_pc i < si_pc i + 8 \<and> si_src_count i \<le> 3) (sp_instructions program)"

lemma emits_end [emits_intros]: "emits 0 (EmitWord (push_bit 16 1 OR OpReturn))" "emits 0 (EmitWord (push_bit 16 1 OR OpFunctionEnd))"
  by (rule emits_instI [where i = "\<lambda>_. (OpReturn, [])"], simp add: put_inst_def encode_spirv_def, simp add: result_simps,
      rule emits_instI [where i = "\<lambda>_. (OpFunctionEnd, [])"], simp add: put_inst_def encode_spirv_def, simp add: result_simps)

lemma prologue_run:
  obtains fid s "is" where "run_state (emit_prologue program) (reset_emitter new_emitter) = (fid, s)"
    "em_words s = [SPIRV_MAGIC, SPIRV_VERSION, 0, 0, 0] @ concat (map encode_spirv is)" "list_all spirv_ok is" "distinct (results is)"
    "\<forall>x \<in> set (results is). 0 < x \<and> x < em_next_id s" "1 < em_next_id s" "em_next_id s \<le> 50" "em_next_id s \<le> em_bound s" "cfg_state s = cfg_clear"
proof -
  let ?s0 = "reset_emitter new_emitter\<lparr>em_words := [SPIRV_MAGIC, SPIRV_VERSION, 0, 0, 0]\<rparr>"
  have h: "run_state EmitHeader (reset_emitter new_emitter) = ((), ?s0)"
    by (simp add: EmitHeader_def reset_emitter_def new_emitter_def)
  obtain fid s where r: "run_state (emit_sections program) ?s0 = (fid, s)"
    by (rule prod.exhaust)
  have "\<not> is_vertex (sp_stage program) \<or> \<not> is_fragment (sp_stage program)"
    by (auto simp: is_vertex_def is_fragment_def)
  from sections_settle [OF refl refl refl this, of no_io 0 0 0 0]
  obtain n p rs where e: "exactly 1 (pins_of ?s0) n p rs (emit_sections program)" and rs: "distinct rs" "\<forall>x \<in> set rs. 0 < x \<and> x < n" "n \<le> 50" "1 < n"
    by (auto simp: settles_def pins_of_def reset_emitter_def new_emitter_def no_types_def)
  have "em_next_id ?s0 = 1"
    by (simp add: reset_emitter_def)
  then have "estep n p rs ?s0 s"
    using e r unfolding exactly_def by (metis snd_conv)
  then obtain "is" where "em_words s = em_words ?s0 @ concat (map encode_spirv is)" "list_all spirv_ok is" "results is = rs"
    "em_next_id s = n" "cfg_state s = cfg_clear" "n \<le> em_bound s"
    using rs(4) by (auto simp: estep_def reset_emitter_def le_max_iff_disj)
  then show ?thesis
    using rs r h that [of fid s "is"] by (simp add: emit_prologue_sections)
qed

end
