(* ===== verification/SpirvValidity.thy ===== *)
theory SpirvValidity
  imports SpirvCorrect
begin

unbundle bit_operations_syntax

text \<open>
  The modules as a whole: what holds of every module (\<open>Emit\<close> behind \<open>Decode\<close>), and the forward branches whose label is never
  defined.
\<close>

abbreviation structured :: "uninit \<Rightarrow> ShaderProgram \<Rightarrow> gprs \<Rightarrow> unit emit" where
  "structured u program g \<equiv> EmitStructuredCfg u (BuildCfg u program) g (sp_instructions program)"

text \<open>
  The body, given what the loop over the instructions does. \<open>R\<close> are the results before the body; \<open>P\<close> may speak about the results
  \<open>D\<close> before the loop and the instructions of the loop.
\<close>

lemma body_run:
  assumes ok: "shader_ok program" and c0: "cfg_state s0 = cfg_clear" and R: "\<forall>x \<in> R. x < em_next_id s0"
    and n0: "1 < em_next_id s0" "em_next_id s0 \<le> 50" "em_next_id s0 \<le> em_bound s0"
    and loop: "\<And>g D s. label_inv D s \<Longrightarrow> unat (em_next_id s) + 16 * length (sp_instructions program) < 2 ^ 32 \<Longrightarrow>
      \<forall>pc \<in> emitted s. sp_instructions program \<noteq> [] \<longrightarrow> pc \<le> si_pc (hd (sp_instructions program)) \<Longrightarrow>
      \<exists>is L F. cgrows (16 * length (sp_instructions program)) L F D s (snd (run_state (structured u program g) s)) is \<and> P D is"
  obtains s "is" D js where "run_state (emit_body u program fid) s0 = ((), s)" "em_words s = em_words s0 @ concat (map encode_spirv is)"
    "list_all spirv_ok is" "distinct (results is)" "set (results is) \<inter> R = {}" "\<forall>x \<in> R \<union> set (results is). x < em_next_id s"
    "\<forall>x \<in> set (results is). 0 < x" "em_next_id s \<le> em_bound s" "P D js" "D \<union> set (results js) = R \<union> set (results is)" "set js \<subseteq> set is"
proof -
  let ?insts = "sp_instructions program"
  have size: "length ?insts < 2 ^ 27" and srcs: "list_all (\<lambda>i. si_src_count i \<le> 3) ?insts"
    using ok by (auto simp: shader_ok_def list_all_iff)
  define s1 where "s1 = snd (run_state (mark_entry program) s0)"
  have r1: "run_state (mark_entry program) s0 = ((), s1)"
    by (simp add: s1_def prod_eq_iff)
  have s1: "em_words s1 = em_words s0" "em_next_id s1 = em_next_id s0" "em_bound s1 = em_bound s0" "labels s1 = Map.empty"
    "emitted s1 = set (map si_pc (take 1 ?insts))"
    by (cases ?insts; simp add: s1_def mark_entry_def upd_cfg_def c0 cfg_clear_def)+
  have inv1: "label_inv R s1"
    using R s1 by (simp add: label_inv_def)
  have u50: "unat (em_next_id s1) \<le> 50"
    using n0(2) s1(2) by (simp add: word_le_nat_alt)
  obtain g s2 where r2: "run_state (BuildGprMap program fid) s1 = (g, s2)"
    by (rule prod.exhaust)
  have m2: "emits (4 * length ?insts) (BuildGprMap program fid)"
    unfolding BuildGprMap_def by (rule emits_map_instructions [OF srcs])
  then obtain is2 where g2: "cgrows (4 * length ?insts) {} {} R s1 s2 is2"
    using cemitsD [OF emits_cemits [OF m2] r2 inv1] u50 size by auto
  define io where "io = (if is_vertex (sp_stage program) then EmitVertexIoBody else if is_fragment (sp_stage program) then EmitFragmentIoBody else return ())"
  obtain y s3 where r3: "run_state io s2 = (y, s3)"
    by (rule prod.exhaust)
  have m3: "emits 2 io"
    unfolding io_def by (rule emits_mono, (rule emits_intros | (simp; fail))+)
  then obtain is3 where g3: "cgrows 2 {} {} (R \<union> set (results is2)) s2 s3 is3"
    using cemitsD [OF emits_cemits [OF m3] r3, of "R \<union> set (results is2)"] g2 u50 size by (auto simp: cgrows_def)
  note g23 = cgrows_trans [OF g2 g3]
  let ?D = "R \<union> set (results (is2 @ is3))"
  have "\<forall>pc \<in> emitted s3. ?insts \<noteq> [] \<longrightarrow> pc \<le> si_pc (hd ?insts)"
    using g23 s1(5) by (cases ?insts) (auto simp: cgrows_def)
  then obtain is4 L F where g4: "cgrows (16 * length ?insts) L F ?D s3 (snd (run_state (structured u program g) s3)) is4" and P: "P ?D is4"
    using loop [of ?D s3 g] g23 u50 size by (fastforce simp: cgrows_def)
  obtain w s4 where r4: "run_state (structured u program g) s3 = (w, s4)"
    by (rule prod.exhaust)
  define fin where "fin = do {
     (if list_ex (\<lambda>i. si_opcode i = Ctl KIL) ?insts then return () else EmitWord (push_bit 16 1 OR OpReturn));
     EmitWord (push_bit 16 1 OR OpFunctionEnd)}"
  obtain s5 where r5: "run_state fin s4 = ((), s5)"
    by (cases "run_state fin s4") simp
  have "emits 0 fin"
    unfolding fin_def by (rule emits_mono, (rule emits_intros | (simp; fail))+)
  moreover have "unat (em_next_id s4) + 0 < 2 ^ 32"
    using unsigned_less [of "em_next_id s4"] by simp
  ultimately obtain is5 where g5: "grows 0 s4 s5 is5"
    using r5 unfolding emits_def by (metis snd_conv)
  have g: "cgrows (4 * length ?insts + 2 + 16 * length ?insts) L F R s1 s4 ((is2 @ is3) @ is4)"
    using cgrows_trans [OF g23 g4] r4 by simp
  then have "label_inv (R \<union> set (results ((is2 @ is3) @ is4))) s4"
    by (simp add: cgrows_def)
  from cgrows_trans [OF g grows_cgrows [OF g5 this]]
  have all: "cgrows (4 * length ?insts + 2 + 16 * length ?insts) L F R s1 s5 (((is2 @ is3) @ is4) @ is5)"
    by simp
  have "em_next_id s5 = em_next_id s4"
    using g5 by (auto simp: grows_def word_le_nat_alt intro: antisym word_unat_eq_iff [THEN iffD2])
  then have res5: "results is5 = []"
    using g5 by (cases "results is5") (auto simp: grows_def)
  have run: "run_state (emit_body u program fid) s0 = ((), s5)"
    unfolding emit_body_def io_def [symmetric] fin_def [symmetric] using r5
    by (simp add: run_bindI [OF r1] run_bindI [OF r2] run_bindI [OF r3] run_bindI [OF r4] del: run_state_bind)
  have new: "em_next_id s0 \<le> x" if "x \<in> set (results (((is2 @ is3) @ is4) @ is5))" for x
    using all that s1 by (auto simp: cgrows_def)
  have "0 < x" if "x \<in> set (results (((is2 @ is3) @ is4) @ is5))" for x
    using new [OF that] n0(1) by (simp add: word_le_nat_alt word_less_nat_alt)
  then show thesis
    using all P res5 s1 n0(3) by (intro that [OF run, of "((is2 @ is3) @ is4) @ is5" ?D is4]) (auto simp: cgrows_def label_inv_def)
qed

lemma emit_module:
  assumes ok: "shader_ok program"
    and loop: "\<And>g D s. label_inv D s \<Longrightarrow> unat (em_next_id s) + 16 * length (sp_instructions program) < 2 ^ 32 \<Longrightarrow>
      \<forall>pc \<in> emitted s. sp_instructions program \<noteq> [] \<longrightarrow> pc \<le> si_pc (hd (sp_instructions program)) \<Longrightarrow>
      \<exists>is L F. cgrows (16 * length (sp_instructions program)) L F D s (snd (run_state (structured u program g) s)) is \<and> P D is"
  shows "\<exists>is D js. spirv_valid (translate u program) is \<and> P D js \<and> D \<union> set (results js) = set (results is) \<and> set js \<subseteq> set is"
proof -
  obtain fid s0 is0 where r0: "run_state (emit_prologue program) (reset_emitter new_emitter) = (fid, s0)"
    and w0: "em_words s0 = [SPIRV_MAGIC, SPIRV_VERSION, 0, 0, 0] @ concat (map encode_spirv is0)" "list_all spirv_ok is0" "distinct (results is0)"
    and ids0: "\<forall>x \<in> set (results is0). 0 < x \<and> x < em_next_id s0"
    and n0: "1 < em_next_id s0" "em_next_id s0 \<le> 50" "em_next_id s0 \<le> em_bound s0" and c0: "cfg_state s0 = cfg_clear"
    by (rule prologue_run)
  have R: "\<forall>x \<in> set (results is0). x < em_next_id s0"
    using ids0 by simp
  obtain s "is" D js where r: "run_state (emit_body u program fid) s0 = ((), s)" and w: "em_words s = em_words s0 @ concat (map encode_spirv is)"
    "list_all spirv_ok is" "distinct (results is)" "set (results is) \<inter> set (results is0) = {}"
    and ids: "\<forall>x \<in> set (results is0) \<union> set (results is). x < em_next_id s" "\<forall>x \<in> set (results is). 0 < x" "em_next_id s \<le> em_bound s"
    and P: "P D js" "D \<union> set (results js) = set (results is0) \<union> set (results is)" "set js \<subseteq> set is"
    by (rule body_run [OF ok c0 R n0 loop]) blast
  have "translate u program = (em_words s)[3 := em_bound s]"
    using r0 r w0(1) w(1) by (simp add: translate_def Emit_def)
  then have "translate u program = [SPIRV_MAGIC, SPIRV_VERSION, 0, em_bound s, 0] @ concat (map encode_spirv (is0 @ is))"
    using w0(1) w(1) by simp
  moreover have "parse_spirv (concat (map encode_spirv (is0 @ is)) @ []) = Some (is0 @ is)"
    using w0(2) w(2) by (subst parse_concat) auto
  ultimately have "spirv_valid (translate u program) (is0 @ is)"
    using w0(3) w(3,4) ids ids0 unfolding spirv_valid_def by (auto intro: order.strict_trans2)
  then show ?thesis
    using P by (intro exI [of _ "is0 @ is"] exI [of _ D] exI [of _ js]) auto
qed

section \<open>Every decoded shader gives a well-formed module\<close>

lemma stream_small:
  assumes "stream_ok data insts"
  shows "length insts \<le> length data"
proof -
  let ?pcs = "map (\<lambda>i. unat (si_pc i)) insts"
  have "sorted_wrt (<) (map si_pc insts)"
    using assms by (simp add: stream_ok_def)
  then have "distinct (map si_pc insts)"
    by (simp add: strict_sorted_iff)
  then have "distinct ?pcs"
    by (simp add: distinct_map inj_on_def word_unat_eq_iff)
  moreover have "set ?pcs \<subseteq> {..<length data}"
    using assms by (fastforce simp: stream_ok_def)
  ultimately show ?thesis
    by (metis card_lessThan card_mono distinct_card finite_lessThan length_map)
qed

lemma stream_well_typed:
  assumes "stream_ok data insts" "i \<in> set insts"
  shows "well_typed i"
proof -
  have i: "i = ToIr (decode_at data (si_pc i))" and "di_fmt (decode_at data (si_pc i)) \<noteq> Fmt_Unknown"
    using assms by (auto simp: stream_ok_def)
  then have "well_typed (ToIr (decode_at data (si_pc i)))"
    by (metis decode_at_cases decode_format_well_typed)
  then show ?thesis
    by (subst i)
qed

lemma stream_shader_ok:
  assumes "stream_ok data (sp_instructions p)" "length data < 2 ^ 27"
  shows "shader_ok p"
proof -
  have "si_pc i < si_pc i + 8 \<and> si_src_count i \<le> 3" if "i \<in> set (sp_instructions p)" for i
  proof -
    have "unat (si_pc i) + 8 \<le> length data"
      using assms(1) that by (simp add: stream_ok_def)
    then have "si_pc i < si_pc i + 8"
      using assms(2) by (simp add: word_less_nat_alt unat_word_ariths)
    moreover have "length (signature (si_opcode i)) \<le> 3"
      by (simp add: signature_def split: ShaderOpcode.split)
    ultimately show ?thesis
      using stream_well_typed [OF assms(1) that] by (simp add: well_typed_def word_le_nat_alt)
  qed
  then show ?thesis
    using assms stream_small [OF assms(1)] by (auto simp: shader_ok_def stream_ok_def list_all_iff)
qed

lemma shader_pcs: "shader_ok p \<Longrightarrow> sorted_wrt (<) (map si_pc (sp_instructions p)) \<and> (\<forall>i \<in> set (sp_instructions p). si_pc i < si_pc i + 8)"
  by (auto simp: shader_ok_def list_all_iff)

lemma module_valid:
  assumes "shader_ok p"
  shows "\<exists>is. spirv_valid (translate u p) is"
  using emit_module [OF assms, of u "\<lambda>_ _. True"] cfg_body_grows [OF _ _ _ _ _, of "sp_instructions p"] shader_pcs [OF assms]
  by blast

text \<open>
  Property C16. Every shader binary below 128 MiB, whatever its bytes, is decoded and translated to a module in
  the format: header with the right magic, then whole instructions whose word counts fit, each result id defined by exactly one
  instruction, all ids positive and below the bound the header announces.
\<close>

theorem decoded_module_valid:
  assumes "length data < 2 ^ 27"
  shows "\<exists>p is. Decode data stage = Some (p, []) \<and> spirv_valid (translate u p) is"
proof -
  have "length data \<le> 0xFFFFFFF0"
    using assms by simp
  then obtain p where "Decode data stage = Some (p, [])" "stream_ok data (sp_instructions p)"
    by (rule Decode_returns)
  then show ?thesis
    using module_valid stream_shader_ok [OF _ assms] by blast
qed

theorem decoded_module_valid_witness:
  "\<exists>p is. Decode sample_binary Fragment = Some (p, []) \<and> spirv_valid (translate (\<lambda>_ _. 0) p) is"
proof -
  have "length sample_binary < 2 ^ 27"
    by (simp add: sample_binary_def)
  then show ?thesis
    by (rule decoded_module_valid)
qed

section \<open>Forward branches\<close>

definition plain_branch :: "ShaderInstruction \<Rightarrow> bool" where
  "plain_branch inst \<longleftrightarrow> si_opcode inst = Ctl BRA \<and> \<not> si_pred_guard inst \<and> op_val (si_dest inst) = Op_None"

lemma bra_grows:
  assumes inv: "label_inv D s" and room: "unat (em_next_id s) + 1 < 2 ^ 32"
  shows "\<exists>is x. cgrows 1 {} {} D s (snd (run_state (handle_bra u inst) s)) (is @ [(OpBranch, [x])]) \<and>
    labels (snd (run_state (handle_bra u inst) s)) (src_label u inst * 8) = Some x"
proof -
  obtain y s1 where r1: "run_state deferred_merge s = (y, s1)"
    by (rule prod.exhaust)
  then obtain is1 where g1: "cgrows 0 {} {} D s s1 is1"
    using cemitsD [OF emits_cemits [OF emits_deferred_merge] r1 inv] room by auto
  obtain x s2 where r2: "run_state (ReserveLabel (src_label u inst * 8)) s1 = (x, s2)"
    by (rule prod.exhaust)
  have inv1: "label_inv (D \<union> set (results is1)) s1" and room1: "unat (em_next_id s1) + 1 < 2 ^ 32"
    using g1 room by (auto simp: cgrows_def)
  have g2: "cgrows 1 {} {} (D \<union> set (results is1)) s1 s2 []" and x: "labels s2 (src_label u inst * 8) = Some x"
    using cgrows_reserve [OF inv1 room1, of "src_label u inst * 8"] r2 by auto
  then have "label_inv (D \<union> set (results is1)) s2"
    by (simp add: cgrows_def)
  then have g3: "cgrows 0 {} {} (D \<union> set (results (is1 @ []))) s2 (put_inst (OpBranch, [x]) s2) [(OpBranch, [x])]"
    by (auto simp: cgrows_def label_inv_def put_inst_def result_simps)
  have "snd (run_state (handle_bra u inst) s) = put_inst (OpBranch, [x]) s2"
    unfolding handle_bra_def run_bindI [OF r1] run_bindI [OF r2] by (simp add: EmitBranch_def)
  moreover have "labels (put_inst (OpBranch, [x]) s2) (src_label u inst * 8) = Some x"
    using x by (simp add: put_inst_def)
  ultimately show ?thesis
    using cgrows_trans [OF cgrows_trans [OF g1 g2] g3] by (intro exI [of _ is1] exI [of _ x]) simp
qed

lemma dangling_loop:
  assumes "sorted_wrt (<) (map si_pc (xs @ b # ys))" "\<forall>i \<in> set (xs @ b # ys). si_pc i < si_pc i + 8" "label_inv D s"
    and "unat (em_next_id s) + 16 * length (xs @ b # ys) < 2 ^ 32" "\<forall>pc \<in> emitted s. pc \<le> si_pc (hd (xs @ b # ys))"
    and branch: "plain_branch b" and target: "src_label u b * 8 \<in> si_pc ` set ys" "src_label u b * 8 \<notin> false_pcs (xs @ b # ys)"
  shows "\<exists>is L F x. cgrows (16 * length (xs @ b # ys)) L F D s (snd (run_state (EmitStructuredCfg u cfg g (xs @ b # ys)) s)) is \<and>
    (OpBranch, [x]) \<in> set is \<and> x \<notin> D \<union> set (results is)"
  using assms(1-5) target(2)
proof (induction xs arbitrary: D s)
  case Nil
  let ?pc = "si_pc b" and ?t = "src_label u b * 8"
  have t: "?pc < ?t"
    using target(1) Nil.prems(1) by auto
  obtain y s1 where r1: "run_state (start_block cfg ?pc) s = (y, s1)"
    by (rule prod.exhaust)
  then obtain is1 where g1: "cgrows 1 {?pc} {} D s s1 is1"
    using cemitsD [OF cemits_start_block r1 Nil.prems(3)] Nil.prems(4) by auto
  define s2 where "s2 = snd (run_state (handle_bra u b) s1)"
  have inv1: "label_inv (D \<union> set (results is1)) s1" and room1: "unat (em_next_id s1) + 1 < 2 ^ 32"
    using g1 Nil.prems(4) by (auto simp: cgrows_def)
  obtain is2 x where g2: "cgrows 1 {} {} (D \<union> set (results is1)) s1 s2 (is2 @ [(OpBranch, [x])])" and x: "labels s2 ?t = Some x"
    using bra_grows [OF inv1 room1, of u b] unfolding s2_def by blast
  let ?is = "is1 @ is2 @ [(OpBranch, [x])]"
  have g12: "cgrows 2 {?pc} {} D s s2 ?is"
    using cgrows_trans [OF g1 g2] by (simp add: numeral_2_eq_2)
  then have inv2: "label_inv (D \<union> set (results ?is)) s2" and em2: "emitted s2 \<subseteq> emitted s \<union> {?pc}"
    by (simp_all add: cgrows_def)
  then have old: "\<forall>pc \<in> emitted s2. pc \<le> ?pc"
    using Nil.prems(5) by auto
  have xD: "x \<notin> D \<union> set (results ?is)" and xn: "x < em_next_id s2"
    using inv2 x old t unfolding label_inv_def by (auto dest: leD)
  have "\<forall>pc \<in> emitted s2. ys \<noteq> [] \<longrightarrow> pc \<le> si_pc (hd ys)"
    using old Nil.prems(1) by (cases ys) (auto intro: order.trans less_imp_le)
  moreover have "unat (em_next_id s2) + 16 * length ys < 2 ^ 32"
    using g12 Nil.prems(4) by (auto simp: cgrows_def)
  ultimately obtain js L where g3: "cgrows (16 * length ys) L (false_pcs ys) (D \<union> set (results ?is)) s2
      (snd (run_state (EmitStructuredCfg u cfg g ys) s2)) js"
    using cfg_body_grows [of ys "D \<union> set (results ?is)" s2 u cfg g] inv2 Nil.prems(1,2) by auto
  have xjs: "x \<notin> set (results js)"
  proof
    assume "x \<in> set (results js)"
    then obtain pc where "pc \<in> false_pcs ys" "labels s2 pc = Some x"
      using g3 xn unfolding cgrows_def by (auto dest: leD)
    moreover from this have "pc = ?t"
      using inv2 x unfolding label_inv_def by blast
    ultimately show False
      using Nil.prems(6) by simp
  qed
  have run: "snd (run_state (EmitStructuredCfg u cfg g (b # ys)) s) = snd (run_state (EmitStructuredCfg u cfg g ys) s2)"
  proof -
    have "emit_cfg_inst u cfg g b pc' = do {start_block cfg ?pc; handle_bra u b}" for pc'
      using branch by (auto simp: emit_cfg_inst_def plain_branch_def)
    then show ?thesis
      using r1 by (cases "run_state (handle_bra u b) s1") (simp add: s2_def)
  qed
  have all: "cgrows (16 * length (b # ys)) ({?pc} \<union> L) ({} \<union> false_pcs ys) D s
      (snd (run_state (EmitStructuredCfg u cfg g ys) s2)) (?is @ js)"
    by (rule cgrows_weaken [OF cgrows_trans [OF g12 g3]]) auto
  have "x \<notin> D \<union> set (results (?is @ js))"
    using xD xjs by (simp del: results_simps(2) append.simps append_assoc)
  moreover have "(OpBranch, [x]) \<in> set (?is @ js)"
    by simp
  ultimately show ?case
    unfolding append_Nil run using all by blast
next
  case (Cons inst xs)
  let ?rest = "xs @ b # ys"
  have rest: "next_pc inst ?rest = si_pc (hd ?rest)"
    by (cases xs) (simp_all add: next_pc_def)
  have after: "si_pc inst < next_pc inst ?rest"
    using Cons.prems(1) unfolding rest by (cases xs) auto
  have fresh: "next_pc inst ?rest \<notin> emitted s" "next_pc inst ?rest \<noteq> si_pc inst"
    using after Cons.prems(5) by auto
  obtain y s1 where r1: "run_state (emit_cfg_inst u cfg g inst (next_pc inst ?rest)) s = (y, s1)"
    by (rule prod.exhaust)
  have "unat (em_next_id s) + 16 < 2 ^ 32"
    using Cons.prems(4) by simp
  from cfg_inst_grows [OF Cons.prems(3) this fresh, of u cfg g] r1
  obtain is1 F1 where g1: "cgrows 16 {si_pc inst, next_pc inst ?rest} F1 D s s1 is1"
    by auto
  then have "label_inv (D \<union> set (results is1)) s1" "unat (em_next_id s1) + 16 * length ?rest < 2 ^ 32"
    using Cons.prems(4) by (auto simp: cgrows_def)
  moreover have "\<forall>pc \<in> emitted s1. pc \<le> si_pc (hd ?rest)"
  proof
    fix pc
    assume "pc \<in> emitted s1"
    then have "pc \<in> emitted s \<or> pc = si_pc inst \<or> pc = si_pc (hd ?rest)"
      using g1 unfolding cgrows_def rest by blast
    then show "pc \<le> si_pc (hd ?rest)"
      using after Cons.prems(5) unfolding rest by (auto intro: order.trans less_imp_le)
  qed
  ultimately obtain is2 L F x where g2: "cgrows (16 * length ?rest) L F (D \<union> set (results is1)) s1
      (snd (run_state (EmitStructuredCfg u cfg g ?rest) s1)) is2" and x: "(OpBranch, [x]) \<in> set is2" "x \<notin> D \<union> set (results is1) \<union> set (results is2)"
    using Cons.IH [of "D \<union> set (results is1)" s1] Cons.prems(1,2,6) by auto
  have run: "run_state (EmitStructuredCfg u cfg g ((inst # xs) @ b # ys)) s = run_state (EmitStructuredCfg u cfg g ?rest) s1"
    unfolding append_Cons EmitStructuredCfg.simps next_pc_def [symmetric] by (rule run_bindI [OF r1])
  have "16 * length ((inst # xs) @ b # ys) = 16 + 16 * length ?rest"
    by simp
  then show ?case
    unfolding run using cgrows_trans [OF g1 g2] x
    by (intro exI [of _ "is1 @ is2"] exI [of _ "{si_pc inst, next_pc inst ?rest} \<union> L"] exI [of _ "F1 \<union> F"] exI [of _ x]) auto
qed

text \<open>
  Property C36. A forward branch has no target. In every shader (addresses increasing, as the decoder leaves them), an unguarded branch to a later
  instruction becomes an \<open>OpBranch\<close> to an id that no instruction of the module defines, unless the target stands right behind
  a guarded branch: when the target is reached, a new label replaces the reserved one.
\<close>

theorem forward_branch_dangles:
  assumes "shader_ok p" "sp_instructions p = xs @ b # ys" "plain_branch b"
    and "src_label u b * 8 \<in> si_pc ` set ys" "src_label u b * 8 \<notin> false_pcs (sp_instructions p)"
  shows "\<exists>is x. parse_spirv (drop 5 (translate u p)) = Some is \<and> (OpBranch, [x]) \<in> set is \<and> x \<notin> set (results is)"
proof -
  define P where "P D js \<longleftrightarrow> (\<exists>x. (OpBranch, [x]) \<in> set js \<and> x \<notin> D \<union> set (results js))" for D and js :: "spirv list"
  have "\<exists>is D js. spirv_valid (translate u p) is \<and> P D js \<and> D \<union> set (results js) = set (results is) \<and> set js \<subseteq> set is"
  proof (rule emit_module [OF assms(1)])
    fix g D s
    assume "label_inv D s" "unat (em_next_id s) + 16 * length (sp_instructions p) < 2 ^ 32"
      "\<forall>pc \<in> emitted s. sp_instructions p \<noteq> [] \<longrightarrow> pc \<le> si_pc (hd (sp_instructions p))"
    then show "\<exists>is L F. cgrows (16 * length (sp_instructions p)) L F D s (snd (run_state (structured u p g) s)) is \<and> P D is"
      using dangling_loop [of xs b ys D s u "BuildCfg u p" g] shader_pcs [OF assms(1)] assms(3-5)
      unfolding assms(2) P_def by blast
  qed
  then show ?thesis
    unfolding P_def spirv_valid_def by blast
qed

definition branch_shader :: ShaderProgram where
  "branch_shader = \<lparr>sp_stage = Compute,
     sp_instructions = [new_instruction\<lparr>si_opcode := Ctl BRA, si_src := [Label 2, no_operand, no_operand], si_src_count := 1\<rparr>,
       new_instruction\<lparr>si_pc := 8\<rparr>, new_instruction\<lparr>si_opcode := Ctl EXIT, si_pc := 16\<rparr>],
     sp_program_offset = 0, sp_program_size = 24, sp_hash = 0, sp_num_gprs_used = 0, sp_num_preds_used = 0,
     sp_uses_varyings = False, sp_uses_textures = False\<rparr>"

theorem forward_branch_dangles_witness:
  "\<exists>is x. parse_spirv (drop 5 (translate (\<lambda>_ _. 0) branch_shader)) = Some is \<and> (OpBranch, [x]) \<in> set is \<and> x \<notin> set (results is)"
proof (rule forward_branch_dangles)
  show "shader_ok branch_shader"
    by (simp add: shader_ok_def branch_shader_def new_instruction_def)
  show "sp_instructions branch_shader = [] @ hd (sp_instructions branch_shader) # tl (sp_instructions branch_shader)"
    by (simp add: branch_shader_def)
qed (simp_all add: branch_shader_def plain_branch_def new_instruction_def operand_defs src_label_def src_def cond_branch_def)

section \<open>Shifts\<close>

text \<open>
  Decoder and emitter disagree about shifts: the decoder gives \<open>SHL\<close> and \<open>SHR\<close> one source, the emitter waits for two. No
  shift of a decoded shader is translated; the instruction emits nothing and takes no id.
\<close>

theorem shifts_not_translated:
  assumes "length data \<le> 0xFFFFFFF0" "Decode data stage = Some (p, errs)" "i \<in> set (sp_instructions p)"
    and "si_opcode i \<in> {IAlu SHL, IAlu SHR}"
  shows "run_state (EmitShaderInst u g i) s = (0, s)"
proof -
  have "stream_ok data (sp_instructions p)"
    using assms(2) by (rule_tac Decode_returns [OF assms(1), of stage]) simp
  then have "well_typed i"
    using assms(3) by (rule stream_well_typed)
  then have "unat (si_src_count i) = 1"
    using assms(4) by (auto simp: well_typed_def signature_def ternary_op_def unary_op_def)
  then have "\<not> 2 \<le> si_src_count i"
    by (simp add: word_le_nat_alt)
  then show ?thesis
    using assms(4) by (auto simp: EmitShaderInst_def emit_SHL_def emit_SHR_def emit_int2_def with2_def)
qed

definition shift_binary :: "u8 list" where
  "shift_binary = le_bytes 8 (0x3C0 :: u64) @ le_bytes 8 (0x1000 :: u64)"

lemma shift_binary_decodes:
  "map_option (\<lambda>(p, errs). map si_opcode (sp_instructions p)) (Decode shift_binary Fragment) = Some [IAlu SHL, Ctl EXIT]"
  by code_simp

theorem shifts_not_translated_witness:
  "\<exists>p errs. Decode shift_binary Fragment = Some (p, errs) \<and> si_opcode (hd (sp_instructions p)) = IAlu SHL \<and>
     run_state (EmitShaderInst (\<lambda>_ _. 0) Map.empty (hd (sp_instructions p))) new_emitter = (0, new_emitter)"
proof -
  obtain p errs where p: "Decode shift_binary Fragment = Some (p, errs)" and ops: "map si_opcode (sp_instructions p) = [IAlu SHL, Ctl EXIT]"
    using shift_binary_decodes by auto
  then have "si_opcode (hd (sp_instructions p)) = IAlu SHL" "hd (sp_instructions p) \<in> set (sp_instructions p)"
    by auto
  moreover have "length shift_binary \<le> 0xFFFFFFF0"
    by (simp add: shift_binary_def)
  ultimately show ?thesis
    using p shifts_not_translated [OF _ p] by auto
qed

text \<open>
  Nothing of an instruction but its opcode, its operands' values and the number of sources reaches the module: guards, negation,
  absolute value and saturation are dropped.
\<close>

lemma modifiers_dropped:
  assumes "si_opcode i = si_opcode j" "si_src_count i = si_src_count j" "op_val (si_dest i) = op_val (si_dest j)"
    and "\<And>k. op_val (src i k) = op_val (src j k)" "op_mufu (src i 0) = op_mufu (src j 0)" "u i = u j"
  shows "EmitShaderInst u g i = EmitShaderInst u g j"
proof -
  have regs: "src_reg u i = src_reg u j" "dest_reg u i = dest_reg u j"
    using assms(3,4,6) by (auto simp: src_reg_def dest_reg_def fun_eq_iff)
  have frame: "load_src u g i = load_src u g j" "finish u g i = finish u g j" "set_predicate u i = set_predicate u j"
    unfolding fun_eq_iff load_src_def finish_def set_predicate_def regs by simp_all
  then have "with1 n u g i = with1 n u g j" "with2 u g i = with2 u g j" "with3 u g i = with3 u g j" for n
    by (auto simp: with1_def with2_def with3_def assms(2) fun_eq_iff)
  note same = this frame
  show ?thesis
    unfolding EmitShaderInst_def assms(1) emit_FMAD_def emit_float2_def emit_float1_def emit_FADD_def emit_FMUL_def
      emit_FMAX_def emit_FMIN_def emit_FNEG_def emit_FABS_def emit_FRCP_def emit_FRSQ_def emit_FSQRT_def emit_FEX2_def
      emit_FLG2_def emit_FSAT_def emit_MUFU_def emit_int2_def emit_IADD_def emit_ISUB_def emit_IMUL_def emit_SHL_def
      emit_SHR_def emit_IMNMX_def emit_LEA_def emit_int3_def emit_IMAD_def emit_IADD3_def emit_BFE_def emit_BFI_def
      emit_int1_def emit_INEG_def emit_IABS_def emit_F2I_def emit_I2F_def emit_ISETP_def emit_FSETP_def emit_FSET_def
      emit_S2R_def copy_src_def emit_LD_def emit_ST_def emit_LDC_def emit_TEX_def emit_I2I_def emit_F2F_def emit_PRMT_def
      emit_POPC_def emit_FLO_def emit_other_def
      same assms(2,3,5) ..
qed

end
