(* ===== verification/SpirvSemantics.thy ===== *)
theory SpirvSemantics
  imports SpirvCorrect
begin

unbundle bit_operations_syntax

text \<open>
  What the emitted code computes. \<open>exec_spirv\<close> executes the instructions that straight-line shaders are translated to, by
  the opcode numbers of the SPIR-V specification: variables and results hold 32-bit words (a bitcast keeps the word), integer
  operations are those of the words; the floating-point operations, conversions and the functions of \<^verbatim>\<open>GLSL.std.450\<close> are
  parameters, by number. \<open>ir_step\<close> is the meaning of the shader's own instruction on its registers. The refinement says
  that the variables the emitter allocates follow the registers.
\<close>

record machine =
  mem :: "u32 \<Rightarrow> u32"
  val :: "u32 \<Rightarrow> u32"

record float_ops =
  core_op :: "u32 \<Rightarrow> u32 list \<Rightarrow> u32"
  glsl_op :: "u32 \<Rightarrow> u32 list \<Rightarrow> u32"

definition int_result :: "u32 \<Rightarrow> u32 list \<Rightarrow> u32 option" where
  "int_result op xs =
     (if op = 124 then Some (xs ! 0)
      else if op = 128 then Some (xs ! 0 + xs ! 1)
      else if op = 130 then Some (xs ! 0 - xs ! 1)
      else if op = 132 then Some (xs ! 0 * xs ! 1)
      else if op = 126 then Some (- (xs ! 0))
      else None)"

definition exec_spirv :: "float_ops \<Rightarrow> spirv \<Rightarrow> machine \<Rightarrow> machine" where
  "exec_spirv F i s =
     (let op = fst i; args = snd i in
      if op = 61 then s\<lparr>val := (val s)(args ! 1 := mem s (args ! 2))\<rparr>
      else if op = 62 then s\<lparr>mem := (mem s)(args ! 0 := val s (args ! 1))\<rparr>
      else if op = 12 then s\<lparr>val := (val s)(args ! 1 := glsl_op F (args ! 3) (map (val s) (drop 4 args)))\<rparr>
      else
        let xs = map (val s) (drop 2 args)
        in s\<lparr>val := (val s)(args ! 1 := (case int_result op xs of Some v \<Rightarrow> v | None \<Rightarrow> core_op F op xs))\<rparr>)"

text \<open>Registers by number; the sources of an instruction.\<close>

type_synonym regs = "u8 \<Rightarrow> u32"

fun reg_of :: "operand_val \<Rightarrow> u8" where
  "reg_of (Op_Gpr r) = r"
| "reg_of _ = 0"

definition ir_value :: "float_ops \<Rightarrow> ShaderOpcode \<Rightarrow> u32 \<Rightarrow> u32 \<Rightarrow> u32 \<Rightarrow> u32 option" where
  "ir_value F op a b c =
     (case op of
        FAlu f \<Rightarrow> (case f of
            FADD \<Rightarrow> Some (core_op F 129 [a, b])
          | FMUL \<Rightarrow> Some (core_op F 133 [a, b])
          | FMAD \<Rightarrow> Some (core_op F 129 [core_op F 133 [a, b], c])
          | FNEG \<Rightarrow> Some (core_op F 127 [a])
          | FMAX \<Rightarrow> Some (glsl_op F 40 [a, b])
          | FMIN \<Rightarrow> Some (glsl_op F 37 [a, b])
          | FABS \<Rightarrow> Some (glsl_op F 4 [a])
          | FRSQ \<Rightarrow> Some (glsl_op F 32 [a])
          | FSQRT \<Rightarrow> Some (glsl_op F 31 [a])
          | _ \<Rightarrow> None)
      | IAlu i \<Rightarrow> (case i of
            IADD \<Rightarrow> Some (a + b)
          | ISUB \<Rightarrow> Some (a - b)
          | IMUL \<Rightarrow> Some (a * b)
          | IMAD \<Rightarrow> Some (a * b + c)
          | IADD3 \<Rightarrow> Some (a + b + c)
          | INEG \<Rightarrow> Some (- a)
          | I2F \<Rightarrow> Some (core_op F 111 [a])
          | I2I \<Rightarrow> Some a
          | _ \<Rightarrow> None)
      | Conv c \<Rightarrow> (case c of
            F2F \<Rightarrow> Some a
          | F2I \<Rightarrow> Some (core_op F 110 [a])
          | _ \<Rightarrow> None)
      | _ \<Rightarrow> None)"

definition sources_needed :: "ShaderOpcode \<Rightarrow> nat" where
  "sources_needed op =
     (if op \<in> {FAlu FMAD, IAlu IMAD, IAlu IADD3} then 3
      else if op \<in> {FAlu FADD, FAlu FMUL, FAlu FMAX, FAlu FMIN, IAlu IADD, IAlu ISUB, IAlu IMUL} then 2 else 1)"

definition covered :: "ShaderOpcode \<Rightarrow> bool" where
  "covered op \<longleftrightarrow> op \<in> {FAlu FADD, FAlu FMUL, FAlu FMAD, FAlu FNEG, FAlu FMAX, FAlu FMIN, FAlu FABS, FAlu FRSQ, FAlu FSQRT,
     IAlu IADD, IAlu ISUB, IAlu IMUL, IAlu IMAD, IAlu IADD3, IAlu INEG, IAlu I2F, IAlu I2I, Conv F2F, Conv F2I}"

definition src_val :: "regs \<Rightarrow> ShaderInstruction \<Rightarrow> nat \<Rightarrow> u32" where
  "src_val regs i k = regs (reg_of (op_val (src i k)))"

definition ir_step :: "float_ops \<Rightarrow> ShaderInstruction \<Rightarrow> regs \<Rightarrow> regs" where
  "ir_step F i regs =
     (case ir_value F (si_opcode i) (src_val regs i 0) (src_val regs i 1) (src_val regs i 2) of
        None \<Rightarrow> regs
      | Some v \<Rightarrow> regs(reg_of (op_val (si_dest i)) := v))"

definition mapped :: "gprs \<Rightarrow> operand_val \<Rightarrow> bool" where
  "mapped g v \<longleftrightarrow> (\<exists>r. v = Op_Gpr r \<and> g (ucast r) \<noteq> None)"

definition plain_operand :: "ShaderOperand \<Rightarrow> bool" where
  "plain_operand x \<longleftrightarrow> \<not> op_negate x \<and> \<not> op_absolute x \<and> \<not> op_saturate x"

text \<open>The shape: one of the operations, with registers only, neither modifiers nor a guard.\<close>

fun is_gpr :: "operand_val \<Rightarrow> bool" where
  "is_gpr (Op_Gpr r) = True"
| "is_gpr _ = False"

definition alu_shape :: "ShaderInstruction \<Rightarrow> bool" where
  "alu_shape i \<longleftrightarrow> covered (si_opcode i) \<and> sources_needed (si_opcode i) \<le> unat (si_src_count i) \<and> \<not> si_pred_guard i \<and>
     list_all (\<lambda>x. plain_operand x \<and> is_gpr (op_val x)) (si_dest i # map (src i) [0..<sources_needed (si_opcode i)])"

definition alu_ok :: "gprs \<Rightarrow> ShaderInstruction \<Rightarrow> bool" where
  "alu_ok g i \<longleftrightarrow> alu_shape i \<and> mapped g (op_val (si_dest i)) \<and> (\<forall>k < sources_needed (si_opcode i). mapped g (op_val (src i k)))"

definition gprs_ok :: "gprs \<Rightarrow> bool" where
  "gprs_ok g \<longleftrightarrow> inj_on g (dom g) \<and> (\<forall>r v. g r = Some v \<longrightarrow> v \<noteq> 0)"

definition represents :: "gprs \<Rightarrow> machine \<Rightarrow> regs \<Rightarrow> bool" where
  "represents g s regs \<longleftrightarrow> (\<forall>r v. g (ucast r) = Some v \<longrightarrow> mem s v = regs r)"

lemma low_byte: "(ucast (((junk :: u32) AND 0xFFFFFF00) OR ucast (r :: u8)) :: u8) = r"
proof (rule bit_word_eqI)
  fix n
  assume "n < LENGTH(8)"
  then have "n < 8"
    by simp
  have "NOT (mask 8) = (0xFFFFFF00 :: u32)"
    by (simp add: mask_numeral)
  moreover have "\<not> bit (NOT (mask 8) :: u32) n"
    using \<open>n < 8\<close> by (simp add: bit_simps)
  ultimately have "\<not> bit (0xFFFFFF00 :: u32) n"
    by metis
  then show "bit (ucast ((junk AND 0xFFFFFF00) OR ucast r) :: u8) n \<longleftrightarrow> bit r n"
    using \<open>n < 8\<close> by (simp add: bit_simps)
qed

lemma reg_reads:
  "mapped g (op_val (src i k)) \<Longrightarrow> src_reg u i k = reg_of (op_val (src i k))"
  "mapped g (op_val (si_dest i)) \<Longrightarrow> dest_reg u i = reg_of (op_val (si_dest i))"
  by (auto simp: mapped_def src_reg_def dest_reg_def low_byte)

lemma byte_up: "(ucast (ucast (r :: u8) :: u32) :: u8) = r"
  by (rule bit_word_eqI) (simp add: bit_simps)

lemma represents_store:
  assumes "gprs_ok g" "represents g s regs" "g (ucast r) = Some v"
  shows "represents g (s\<lparr>mem := (mem s)(v := x)\<rparr>) (regs(r := x))"
proof -
  have "v = w \<longleftrightarrow> r = q" if "g (ucast q) = Some w" for q w
  proof
    assume "v = w"
    then have "(ucast r :: u32) = ucast q"
      using assms(1,3) that by (auto simp: gprs_ok_def inj_on_def dom_def)
    then show "r = q"
      by (metis byte_up)
  qed (use assms(3) that in auto)
  then show ?thesis
    using assms(2) by (auto simp: represents_def)
qed

section \<open>One instruction\<close>

text \<open>The code between two states of the emitter.\<close>

definition produced :: "emitter \<Rightarrow> emitter \<Rightarrow> spirv list \<Rightarrow> bool" where
  "produced e e' is \<longleftrightarrow> em_words e' = em_words e @ concat (map encode_spirv is) \<and> em_types e' = em_types e \<and> cfg_state e' = cfg_state e"

lemma produced_rules:
  "produced e e []"
  "produced e s is \<Longrightarrow> produced e (put_inst i s) (is @ [i])"
  "produced e s is \<Longrightarrow> produced e (took s) is"
  by (simp_all add: produced_def put_inst_def took_def)

lemma ids_after [simp]:
  "em_next_id (took e) = em_next_id e + 1" "em_next_id (put_inst i e) = em_next_id e" "cfg_state (took e) = cfg_state e" "cfg_state (put_inst i e) = cfg_state e"
  by (simp_all add: took_def put_inst_def)

definition var_of :: "gprs \<Rightarrow> operand_val \<Rightarrow> u32" where
  "var_of g v = the (g (ucast (reg_of v)))"

lemma mapped_var: "mapped g v \<Longrightarrow> g (ucast (reg_of v)) = Some (var_of g v)"
  by (auto simp: mapped_def var_of_def)

lemma load_run:
  assumes "gprs_ok g" "mapped g (op_val (src i k))"
  shows "run_state (load_src u g i k) e = (em_next_id e, put_inst (OpLoad, [f32_t (em_types e), em_next_id e, var_of g (op_val (src i k))]) (took e))"
  using assms mapped_var [OF assms(2)]
  by (auto simp: load_src_def load_gpr_def get_gpr_def reg_reads(1) [OF assms(2)] gprs_ok_def EmitLoad_def)

lemma finish_run:
  assumes "gprs_ok g" "mapped g (op_val (si_dest i))"
  shows "run_state (finish u g i x) e = (x, put_inst (OpStore, [var_of g (op_val (si_dest i)), x]) e)"
  using assms mapped_var [OF assms(2)]
  by (auto simp: finish_def store_gpr_def get_gpr_def reg_reads(2) [OF assms(2)] gprs_ok_def EmitStore_def)

lemma id_nonzero:
  assumes "0 < n" "unat n + 12 < 2 ^ 32" "k \<le> 12"
  shows "(n :: u32) + k \<noteq> 0"
proof
  assume "n + k = 0"
  moreover have "unat n + unat k < 2 ^ 32" "0 < unat n"
    using assms by (simp_all add: word_le_nat_alt word_less_nat_alt)
  then have "unat (n + k) = unat n + unat k"
    by (simp add: unat_word_ariths)
  ultimately show False
    using \<open>0 < unat n\<close> by simp
qed

lemmas frame_defs = emit_float1_def emit_float2_def emit_int1_def emit_int2_def emit_int3_def with1_def with2_def with3_def bitcast_def
lemmas exec_simps = exec_spirv_def Let_def int_result_def

lemma loaded:
  assumes "represents g s regs" "mapped g (op_val (src i k))"
  shows "mem s (var_of g (op_val (src i k))) = src_val regs i k"
  using assms mapped_var [OF assms(2)] by (simp add: represents_def src_val_def)

lemma stored:
  assumes "gprs_ok g" "represents g s regs" "mapped g v" "mem s' = (mem s)(var_of g v := x)"
  shows "represents g s' (regs(reg_of v := x))"
  using represents_store [OF assms(1,2) mapped_var [OF assms(3)], of x] assms(4) by (simp add: represents_def)

text \<open>The run of the emitter on one operation: the code, and that from any machine that follows the registers it stores the value.\<close>

definition computes :: "(float_ops \<Rightarrow> u32 \<Rightarrow> u32 \<Rightarrow> u32 \<Rightarrow> u32) \<Rightarrow> gprs \<Rightarrow> ShaderInstruction \<Rightarrow> emitter \<Rightarrow> emitter \<Rightarrow> bool" where
  "computes h g i e e' \<longleftrightarrow>
     (\<exists>is. produced e e' is \<and> (\<forall>F s regs. represents g s regs \<longrightarrow> mem (fold (exec_spirv F) is s) =
        (mem s)(var_of g (op_val (si_dest i)) := h F (src_val regs i 0) (src_val regs i 1) (src_val regs i 2))))"

lemma computesI:
  assumes "produced e e' is"
    and "\<And>F s regs. represents g s regs \<Longrightarrow>
      mem (fold (exec_spirv F) is s) = (mem s)(var_of g (op_val (si_dest i)) := h F (src_val regs i 0) (src_val regs i 1) (src_val regs i 2))"
  shows "computes h g i e e'"
  using assms unfolding computes_def by blast

definition ready :: "gprs \<Rightarrow> nat \<Rightarrow> ShaderInstruction \<Rightarrow> emitter \<Rightarrow> bool" where
  "ready g n i e \<longleftrightarrow> gprs_ok g \<and> 0 < em_next_id e \<and> unat (em_next_id e) + 12 < 2 ^ 32 \<and>
     mapped g (op_val (si_dest i)) \<and> n \<le> unat (si_src_count i) \<and> (\<forall>k < n. mapped g (op_val (src i k)))"

lemma readyD:
  assumes "ready g n i e"
  shows "em_next_id e \<noteq> 0" "em_next_id e + 1 \<noteq> 0" "em_next_id e + 2 \<noteq> 0"
    "run_state (finish u g i x) e' = (x, put_inst (OpStore, [var_of g (op_val (si_dest i)), x]) e')"
    "k < n \<Longrightarrow> run_state (load_src u g i k) e' = (em_next_id e', put_inst (OpLoad, [f32_t (em_types e'), em_next_id e', var_of g (op_val (src i k))]) (took e'))"
    "k < n \<Longrightarrow> represents g s regs \<Longrightarrow> mem s (var_of g (op_val (src i k))) = src_val regs i k"
    "1 \<le> n \<Longrightarrow> 1 \<le> si_src_count i" "2 \<le> n \<Longrightarrow> 2 \<le> si_src_count i" "3 \<le> n \<Longrightarrow> 3 \<le> si_src_count i"
  using assms id_nonzero [of "em_next_id e" 0] id_nonzero [of "em_next_id e" 1] id_nonzero [of "em_next_id e" 2] finish_run load_run loaded
  by (auto simp: ready_def word_le_nat_alt)

lemmas op_defs = frame_defs emit_FADD_def emit_FMUL_def emit_FMAX_def emit_FMIN_def emit_FMAD_def emit_FNEG_def emit_FABS_def emit_FRSQ_def emit_FSQRT_def emit_F2F_def emit_F2I_def emit_IADD_def emit_ISUB_def emit_IMUL_def emit_IMAD_def emit_IADD3_def emit_INEG_def emit_I2F_def emit_I2I_def
  glsl1_def mul_add_def add_add_def negate_def EmitFAdd_def EmitFMul_def EmitFNegate_def EmitFMax_def EmitFMin_def EmitFAbs_def EmitIAdd_def
  EmitISub_def EmitIMul_def EmitBitcast_def EmitConvertSToF_def EmitConvertFToS_def EmitExtInst_def

lemma float_computes:
  "ready g 2 i e \<Longrightarrow> computes (\<lambda>F a b c. core_op F 129 [a, b]) g i e (snd (run_state (emit_FADD u g i) e))"
  "ready g 2 i e \<Longrightarrow> computes (\<lambda>F a b c. core_op F 133 [a, b]) g i e (snd (run_state (emit_FMUL u g i) e))"
  "ready g 2 i e \<Longrightarrow> computes (\<lambda>F a b c. glsl_op F 40 [a, b]) g i e (snd (run_state (emit_FMAX u g i) e))"
  "ready g 2 i e \<Longrightarrow> computes (\<lambda>F a b c. glsl_op F 37 [a, b]) g i e (snd (run_state (emit_FMIN u g i) e))"
  "ready g 3 i e \<Longrightarrow> computes (\<lambda>F a b c. core_op F 129 [core_op F 133 [a, b], c]) g i e (snd (run_state (emit_FMAD u g i) e))"
  "ready g 1 i e \<Longrightarrow> computes (\<lambda>F a b c. core_op F 127 [a]) g i e (snd (run_state (emit_FNEG u g i) e))"
  "ready g 1 i e \<Longrightarrow> computes (\<lambda>F a b c. glsl_op F 4 [a]) g i e (snd (run_state (emit_FABS u g i) e))"
  "ready g 1 i e \<Longrightarrow> computes (\<lambda>F a b c. glsl_op F 32 [a]) g i e (snd (run_state (emit_FRSQ u g i) e))"
  "ready g 1 i e \<Longrightarrow> computes (\<lambda>F a b c. glsl_op F 31 [a]) g i e (snd (run_state (emit_FSQRT u g i) e))"
  "ready g 1 i e \<Longrightarrow> computes (\<lambda>F a b c. a) g i e (snd (run_state (emit_F2F u g i) e))"
  "ready g 1 i e \<Longrightarrow> computes (\<lambda>F a b c. core_op F 110 [a]) g i e (snd (run_state (emit_F2I u g i) e))"
  by (simp add: op_defs readyD add.assoc, rule computesI, (rule produced_rules)+, simp add: exec_simps spirv_ops add.assoc, simp add: readyD)+

lemma int_computes:
  "ready g 2 i e \<Longrightarrow> computes (\<lambda>F a b c. a + b) g i e (snd (run_state (emit_IADD u g i) e))"
  "ready g 2 i e \<Longrightarrow> computes (\<lambda>F a b c. a - b) g i e (snd (run_state (emit_ISUB u g i) e))"
  "ready g 2 i e \<Longrightarrow> computes (\<lambda>F a b c. a * b) g i e (snd (run_state (emit_IMUL u g i) e))"
  "ready g 3 i e \<Longrightarrow> computes (\<lambda>F a b c. a * b + c) g i e (snd (run_state (emit_IMAD u g i) e))"
  "ready g 3 i e \<Longrightarrow> computes (\<lambda>F a b c. a + b + c) g i e (snd (run_state (emit_IADD3 u g i) e))"
  "ready g 1 i e \<Longrightarrow> computes (\<lambda>F a b c. - a) g i e (snd (run_state (emit_INEG u g i) e))"
  "ready g 1 i e \<Longrightarrow> computes (\<lambda>F a b c. core_op F 111 [a]) g i e (snd (run_state (emit_I2F u g i) e))"
  "ready g 1 i e \<Longrightarrow> computes (\<lambda>F a b c. a) g i e (snd (run_state (emit_I2I u g i) e))"
  by (simp add: op_defs readyD add.assoc, rule computesI, (rule produced_rules)+, simp add: exec_simps spirv_ops add.assoc, simp add: readyD)+

text \<open>One instruction: the code follows the registers.\<close>

definition follows :: "gprs \<Rightarrow> spirv list \<Rightarrow> (float_ops \<Rightarrow> regs \<Rightarrow> regs) \<Rightarrow> bool" where
  "follows g is step \<longleftrightarrow> (\<forall>F s regs. represents g s regs \<longrightarrow> represents g (fold (exec_spirv F) is s) (step F regs))"

lemma follows_seq: "follows g is f \<Longrightarrow> follows g js h \<Longrightarrow> follows g (is @ js) (\<lambda>F regs. h F (f F regs))"
  by (simp add: follows_def)

lemma computes_follows:
  assumes "gprs_ok g" "mapped g (op_val (si_dest i))" "computes h g i e e'"
    and "\<And>F a b c. ir_value F (si_opcode i) a b c = Some (h F a b c)"
  shows "\<exists>is. produced e e' is \<and> follows g is (\<lambda>F. ir_step F i)"
  using assms(3,4) stored [OF assms(1) _ assms(2)] unfolding computes_def follows_def ir_step_def
  by (metis option.simps(5))

lemma alu_refines:
  assumes "gprs_ok g" "alu_ok g i" "0 < em_next_id e" "unat (em_next_id e) + 12 < 2 ^ 32"
  shows "\<exists>is. produced e (snd (run_state (EmitShaderInst u g i) e)) is \<and> follows g is (\<lambda>F. ir_step F i)"
proof -
  have ready: "ready g n i e" if "sources_needed (si_opcode i) = n" for n
    using assms that by (auto simp: ready_def alu_ok_def alu_shape_def)
  have dest: "mapped g (op_val (si_dest i))" and cov: "covered (si_opcode i)"
    using assms(2) by (simp_all add: alu_ok_def alu_shape_def)
  let ?h = "\<lambda>F a b c. the (ir_value F (si_opcode i) a b c)"
  have "ir_value F (si_opcode i) a b c = Some (?h F a b c)" for F a b c
    using cov unfolding covered_def by (auto simp: ir_value_def)
  moreover have "computes ?h g i e (snd (run_state (EmitShaderInst u g i) e))"
    using cov ready unfolding covered_def
    by (auto simp: ir_value_def EmitShaderInst_def sources_needed_def float_computes int_computes simp del: One_nat_def)
  ultimately show ?thesis
    by (rule computes_follows [OF assms(1) dest, rotated])
qed

section \<open>The variables of the registers\<close>

text \<open>
  \<open>maps_regs xs g e g' e'\<close>: from \<open>g\<close> the emitter gets to a map \<open>g'\<close> that has the registers among \<open>xs\<close>, keeps the old
  variables and stays injective.
\<close>

definition gpr_inv :: "gprs \<Rightarrow> emitter \<Rightarrow> bool" where
  "gpr_inv g e \<longleftrightarrow> 0 < em_next_id e \<and> inj_on g (dom g) \<and> (\<forall>r v. g r = Some v \<longrightarrow> 0 < v \<and> v < em_next_id e)"

definition maps_regs :: "ShaderOperand list \<Rightarrow> gprs \<Rightarrow> emitter \<Rightarrow> gprs \<Rightarrow> emitter \<Rightarrow> bool" where
  "maps_regs xs g e g' e' \<longleftrightarrow> gpr_inv g' e' \<and> g \<subseteq>\<^sub>m g' \<and> (\<forall>x \<in> set xs. is_gpr (op_val x) \<longrightarrow> mapped g' (op_val x)) \<and>
     unat (em_next_id e') \<le> unat (em_next_id e) + length xs \<and> cfg_state e' = cfg_state e"

lemma mapped_mono: "g \<subseteq>\<^sub>m g' \<Longrightarrow> mapped g v \<Longrightarrow> mapped g' v"
  by (force simp: mapped_def map_le_def)

lemma maps_regs_trans:
  assumes "maps_regs xs g e g1 e1" "maps_regs ys g1 e1 g2 e2"
  shows "maps_regs (xs @ ys) g e g2 e2"
  using assms unfolding maps_regs_def by (auto intro: map_le_trans dest: mapped_mono)

lemma gpr_inv_new:
  assumes inv: "gpr_inv g e" and room: "unat (em_next_id e) + 1 < 2 ^ 32" and new: "g r = None"
  shows "gpr_inv (g(r \<mapsto> em_next_id e)) (put_inst i (took e))"
proof -
  have n: "em_next_id e < em_next_id e + 1" "0 < em_next_id e"
    using room inv next_id_Suc [OF room] by (simp_all add: gpr_inv_def word_less_nat_alt)
  have "em_next_id e \<notin> ran g"
    using inv by (auto simp: gpr_inv_def ran_def)
  moreover have "v < em_next_id e + 1" if "g q = Some v" for q v
    using inv n that by (auto simp: gpr_inv_def intro: order.strict_trans)
  ultimately show ?thesis
    using inv n new by (auto simp: gpr_inv_def inj_on_def dom_def ran_def)
qed

lemma add_operand_maps:
  assumes inv: "gpr_inv g e" and room: "unat (em_next_id e) + 1 < 2 ^ 32" and r: "run_state (add_operand x g) e = (g', e')"
  shows "maps_regs [x] g e g' e'"
proof (cases "\<exists>q. op_val x = Op_Gpr q \<and> g (ucast q) = None")
  case True
  then obtain q where q: "op_val x = Op_Gpr q" "g (ucast q) = None"
    by blast
  then obtain i where "g' = g(ucast q \<mapsto> em_next_id e)" "e' = put_inst i (took e)"
    using r by (auto simp: add_operand_def add_gpr_def EmitVariable_def)
  then show ?thesis
    using gpr_inv_new [OF inv room q(2)] q next_id_Suc [OF room] by (auto simp: maps_regs_def mapped_def map_le_def)
next
  case False
  then have "g' = g" "e' = e"
    using r by (auto simp: add_operand_def add_gpr_def split: operand_val.splits if_splits)
  then show ?thesis
    using inv False by (cases "op_val x") (auto simp: maps_regs_def mapped_def)
qed

lemma add_operands_maps:
  assumes "gpr_inv g e" "unat (em_next_id e) + length xs < 2 ^ 32" "run_state (add_operands xs g) e = (g', e')"
  shows "maps_regs xs g e g' e'"
  using assms
proof (induction xs arbitrary: g e)
  case (Cons x xs)
  obtain g1 e1 where r1: "run_state (add_operand x g) e = (g1, e1)"
    by (rule prod.exhaust)
  have m1: "maps_regs [x] g e g1 e1"
    using add_operand_maps [OF Cons.prems(1) _ r1] Cons.prems(2) by simp
  then have "maps_regs xs g1 e1 g' e'"
    using Cons.IH [of g1 e1] Cons.prems(2,3) r1 by (auto simp: maps_regs_def)
  then show ?case
    using maps_regs_trans [OF m1] by simp
qed (simp add: maps_regs_def)

definition operands_of :: "ShaderInstruction \<Rightarrow> ShaderOperand list" where
  "operands_of i = si_dest i # map (src i) [0..<unat (si_src_count i)]"

lemma map_instructions_maps:
  assumes "gpr_inv g e" "unat (em_next_id e) + length (concat (map operands_of insts)) < 2 ^ 32"
    "run_state (map_instructions insts g) e = (g', e')"
  shows "maps_regs (concat (map operands_of insts)) g e g' e'"
  using assms
proof (induction insts arbitrary: g e)
  case (Cons i insts)
  obtain g1 e1 where r1: "run_state (add_operand (si_dest i) g) e = (g1, e1)"
    by (rule prod.exhaust)
  obtain g2 e2 where r2: "run_state (add_operands (map (src i) [0..<unat (si_src_count i)]) g1) e1 = (g2, e2)"
    by (rule prod.exhaust)
  have m1: "maps_regs [si_dest i] g e g1 e1"
    using add_operand_maps [OF Cons.prems(1) _ r1] Cons.prems(2) by (simp add: operands_of_def)
  then have m2: "maps_regs (map (src i) [0..<unat (si_src_count i)]) g1 e1 g2 e2"
    using Cons.prems(2) by (intro add_operands_maps [OF _ _ r2]) (auto simp: maps_regs_def operands_of_def)
  have m12: "maps_regs (operands_of i) g e g2 e2"
    using maps_regs_trans [OF m1 m2] by (simp add: operands_of_def)
  then have "maps_regs (concat (map operands_of insts)) g2 e2 g' e'"
    using Cons.IH [of g2 e2] Cons.prems(2,3) r1 r2 by (auto simp: maps_regs_def)
  then show ?case
    using maps_regs_trans [OF m12] by simp
qed (simp add: maps_regs_def)

lemma BuildGprMap_maps:
  assumes "0 < em_next_id e" "unat (em_next_id e) + length (concat (map operands_of (sp_instructions p))) < 2 ^ 32"
    and r: "run_state (BuildGprMap p f) e = (g, e1)"
  shows "gprs_ok g" "list_all alu_shape xs \<Longrightarrow> set xs \<subseteq> set (sp_instructions p) \<Longrightarrow> list_all (alu_ok g) xs"
    "0 < em_next_id e1" "unat (em_next_id e1) \<le> unat (em_next_id e) + length (concat (map operands_of (sp_instructions p)))"
    "cfg_state e1 = cfg_state e"
proof -
  have "gpr_inv Map.empty e"
    using assms(1) by (simp add: gpr_inv_def)
  then have m: "maps_regs (concat (map operands_of (sp_instructions p))) Map.empty e g e1"
    using map_instructions_maps assms(2) r unfolding BuildGprMap_def by blast
  then show "gprs_ok g" "0 < em_next_id e1" "cfg_state e1 = cfg_state e"
    "unat (em_next_id e1) \<le> unat (em_next_id e) + length (concat (map operands_of (sp_instructions p)))"
    by (auto simp: maps_regs_def gpr_inv_def gprs_ok_def)
  show "list_all (alu_ok g) xs" if "list_all alu_shape xs" "set xs \<subseteq> set (sp_instructions p)"
    using m that by (fastforce simp: maps_regs_def alu_ok_def alu_shape_def list_all_iff operands_of_def)
qed

section \<open>Straight-line shaders\<close>

text \<open>A run of operations, then \<open>EXIT\<close>.\<close>

definition straight_line :: "ShaderInstruction list \<Rightarrow> bool" where
  "straight_line insts \<longleftrightarrow> insts \<noteq> [] \<and> si_opcode (last insts) = Ctl EXIT \<and> list_all alu_shape (butlast insts)"

definition ir_run :: "float_ops \<Rightarrow> ShaderInstruction list \<Rightarrow> regs \<Rightarrow> regs" where
  "ir_run F insts regs = fold (ir_step F) (butlast insts) regs"

lemma produced_trans: "produced e e1 is \<Longrightarrow> produced e1 e2 js \<Longrightarrow> produced e e2 (is @ js)"
  by (simp add: produced_def)

lemma covered_not_control: "covered (si_opcode i) \<Longrightarrow> si_opcode i \<noteq> Ctl c"
  by (auto simp: covered_def)

lemma no_pairs: "list_all (\<lambda>i. si_opcode i \<noteq> Ctl SSY) insts \<Longrightarrow> scan_ssy u insts cfg = cfg"
  by (induction insts arbitrary: cfg) auto

lemma straight_starts:
  assumes "straight_line (sp_instructions p)"
  shows "block_starts (BuildCfg u p) = {si_pc (hd (sp_instructions p))}"
proof -
  let ?insts = "sp_instructions p"
  have "si_opcode i \<noteq> Ctl SSY" if "i \<in> set ?insts" for i
  proof -
    have "?insts = butlast ?insts @ [last ?insts]"
      using assms by (simp add: straight_line_def)
    then have "i = last ?insts \<or> i \<in> set (butlast ?insts)"
      using that by (metis Un_iff empty_iff insert_iff list.set set_append)
    then show ?thesis
      using assms by (auto simp: straight_line_def list_all_iff alu_shape_def dest: covered_not_control)
  qed
  then have "list_all (\<lambda>i. si_opcode i \<noteq> Ctl SSY) ?insts"
    by (simp add: list_all_iff)
  then show ?thesis
    using assms by (cases ?insts) (auto simp: BuildCfg_def no_pairs straight_line_def)
qed

lemma start_block_skips: "block_starts cfg \<subseteq> labels_emitted (cfg_state e) \<Longrightarrow> run_state (start_block cfg pc) e = ((), e)"
  by (auto simp: start_block_def)

lemma loop_refines:
  assumes "gprs_ok g" "list_all (alu_ok g) xs" "si_opcode x = Ctl EXIT" "0 < em_next_id e"
    "unat (em_next_id e) + 12 * Suc (length xs) < 2 ^ 32" "block_starts cfg \<subseteq> labels_emitted (cfg_state e)"
  shows "\<exists>is. produced e (snd (run_state (EmitStructuredCfg u cfg g (xs @ [x])) e)) is \<and> follows g is (\<lambda>F. fold (ir_step F) xs)"
  using assms(2,4-6)
proof (induction xs arbitrary: e)
  case Nil
  then show ?case
    using assms(3) by (auto simp: emit_cfg_inst_def start_block_skips follows_def intro!: exI [of _ "[]"] produced_rules)
next
  case (Cons i xs)
  have ok: "alu_ok g i" and room: "unat (em_next_id e) + 12 < 2 ^ 32"
    using Cons.prems by simp_all
  then have ctl: "si_opcode i \<noteq> Ctl c" for c
    using covered_not_control [of i c] by (simp add: alu_ok_def alu_shape_def)
  define e1 where "e1 = snd (run_state (EmitShaderInst u g i) e)"
  obtain is1 where p1: "produced e e1 is1" and f1: "follows g is1 (\<lambda>F. ir_step F i)"
    using alu_refines [OF assms(1) ok Cons.prems(2) room, of u] unfolding e1_def by blast
  obtain js where "grows 12 e e1 js"
    using emits_shader_inst [of u g i] room unfolding emits_def e1_def by blast
  then have n1: "unat (em_next_id e1) \<le> unat (em_next_id e) + 12" "em_next_id e \<le> em_next_id e1"
    by (auto simp: grows_def)
  have "0 < em_next_id e1"
    using n1(2) Cons.prems(2) by (rule order.strict_trans2 [rotated])
  moreover have "unat (em_next_id e1) + 12 * Suc (length xs) < 2 ^ 32"
    using n1(1) Cons.prems(3) by simp
  moreover have "block_starts cfg \<subseteq> labels_emitted (cfg_state e1)"
    using p1 Cons.prems(4) by (simp add: produced_def)
  ultimately obtain is2 where p2: "produced e1 (snd (run_state (EmitStructuredCfg u cfg g (xs @ [x])) e1)) is2"
    and f2: "follows g is2 (\<lambda>F. fold (ir_step F) xs)"
    using Cons.IH [of e1] Cons.prems(1) by auto
  have "snd (run_state (EmitStructuredCfg u cfg g ((i # xs) @ [x])) e) = snd (run_state (EmitStructuredCfg u cfg g (xs @ [x])) e1)"
    using ctl by (cases "run_state (EmitShaderInst u g i) e") (simp add: emit_cfg_inst_def start_block_skips [OF Cons.prems(4)] e1_def)
  then show ?case
    using produced_trans [OF p1 p2] follows_seq [OF f1 f2] by (intro exI [of _ "is1 @ is2"]) simp
qed

text \<open>
  Property C17. A straight-line shader of register operations (\<open>straight_line\<close>: neither modifiers nor guards, \<open>EXIT\<close> at the
  end) is translated correctly: the emitter gives every register a variable of its own, and the code it emits for the
  instructions, run on variables that hold the registers, leaves in them what the shader's instructions leave in the registers,
  whatever the floating-point operations are; integer operations wrap at 32 bits.
\<close>

theorem straight_line_refines:
  assumes "straight_line (sp_instructions p)" "0 < em_next_id e"
    and "unat (em_next_id e) + length (concat (map operands_of (sp_instructions p))) + 12 * length (sp_instructions p) < 2 ^ 32"
  shows "\<exists>g e1 is. run_state (do {mark_entry p; BuildGprMap p f}) e = (g, e1) \<and> inj_on g (dom g) \<and>
    produced e1 (snd (run_state (EmitStructuredCfg u (BuildCfg u p) g (sp_instructions p)) e1)) is \<and>
    follows g is (\<lambda>F. ir_run F (sp_instructions p))"
proof -
  let ?insts = "sp_instructions p"
  have shape: "?insts \<noteq> []" "si_opcode (last ?insts) = Ctl EXIT" "list_all alu_shape (butlast ?insts)"
    using assms(1) by (simp_all add: straight_line_def)
  define e0 where "e0 = snd (run_state (mark_entry p) e)"
  have e0: "em_next_id e0 = em_next_id e" "si_pc (hd ?insts) \<in> labels_emitted (cfg_state e0)"
    using shape(1) by (cases ?insts; simp add: e0_def mark_entry_def upd_cfg_def)+
  obtain g e1 where r: "run_state (BuildGprMap p f) e0 = (g, e1)"
    by (rule prod.exhaust)
  have room: "unat (em_next_id e0) + length (concat (map operands_of ?insts)) < 2 ^ 32" and pos: "0 < em_next_id e0"
    using assms(2,3) e0(1) by simp_all
  note built = BuildGprMap_maps [OF pos room r]
  have "unat (em_next_id e1) + 12 * Suc (length (butlast ?insts)) < 2 ^ 32"
    using built(4) e0(1) assms(3) shape(1) by simp
  moreover have "list_all (alu_ok g) (butlast ?insts)"
    using built(2) [OF shape(3)] by (auto dest: in_set_butlastD)
  moreover have "block_starts (BuildCfg u p) \<subseteq> labels_emitted (cfg_state e1)"
    using straight_starts [OF assms(1)] e0(2) built(5) by simp
  ultimately obtain "is" where "produced e1 (snd (run_state (EmitStructuredCfg u (BuildCfg u p) g (butlast ?insts @ [last ?insts])) e1)) is"
    and "follows g is (\<lambda>F. fold (ir_step F) (butlast ?insts))"
    using loop_refines [OF built(1) _ shape(2) built(3)] by blast
  moreover have "run_state (do {mark_entry p; BuildGprMap p f}) e = (g, e1)"
    using r by (cases "run_state (mark_entry p) e") (simp add: e0_def)
  moreover have "inj_on g (dom g)"
    using built(1) by (simp add: gprs_ok_def)
  ultimately show ?thesis
    using shape(1) unfolding ir_run_def by (metis append_butlast_last_id)
qed

text \<open>An integer addition, a multiply-add that uses its result, and the end.\<close>

definition sample_line :: "ShaderInstruction list" where
  "sample_line =
     [new_instruction\<lparr>si_opcode := IAlu IADD, si_dest := operand (Op_Gpr 0), si_src := [operand (Op_Gpr 1), operand (Op_Gpr 2), no_operand],
        si_src_count := 2\<rparr>,
      new_instruction\<lparr>si_opcode := FAlu FMAD, si_dest := operand (Op_Gpr 3),
        si_src := [operand (Op_Gpr 0), operand (Op_Gpr 1), operand (Op_Gpr 2)], si_src_count := 3, si_pc := 8\<rparr>,
      new_instruction\<lparr>si_opcode := Ctl EXIT, si_pc := 16\<rparr>]"

definition sample_program :: ShaderProgram where
  "sample_program = \<lparr>sp_stage = Compute, sp_instructions = sample_line, sp_program_offset = 0, sp_program_size = 24, sp_hash = 0,
     sp_num_gprs_used = 4, sp_num_preds_used = 0, sp_uses_varyings = False, sp_uses_textures = False\<rparr>"

theorem straight_line_refines_witness:
  "\<exists>g e1 is. run_state (do {mark_entry sample_program; BuildGprMap sample_program 9}) (new_emitter\<lparr>em_next_id := 40\<rparr>) = (g, e1) \<and> inj_on g (dom g) \<and>
    produced e1 (snd (run_state (EmitStructuredCfg (\<lambda>_ _. 0) (BuildCfg (\<lambda>_ _. 0) sample_program) g (sp_instructions sample_program)) e1)) is \<and>
    follows g is (\<lambda>F. ir_run F (sp_instructions sample_program))"
proof -
  have "straight_line (sp_instructions sample_program)"
    by (simp add: sample_program_def sample_line_def straight_line_def alu_shape_def covered_def sources_needed_def plain_operand_def
        new_instruction_def operand_def no_operand_def src_def upt_rec)
  moreover have "unat (em_next_id (new_emitter\<lparr>em_next_id := 40\<rparr>)) + length (concat (map operands_of (sp_instructions sample_program))) +
      12 * length (sp_instructions sample_program) < 2 ^ 32"
    by (simp add: sample_program_def sample_line_def operands_of_def new_instruction_def)
  ultimately show ?thesis
    by (intro straight_line_refines) simp_all
qed

end
