(* ===== verification/Snapshot.thy ===== *)
theory Snapshot
  imports Debugger TraceEngine
begin

unbundle bit_operations_syntax

text \<open>
  Snapshots of the guest: \<^verbatim>\<open>src/src/debug/SnapshotManager.cpp\<close> and \<^verbatim>\<open>SnapshotManager.h\<close>. The clock, the debugger and the trace
  engine are arguments of \<open>Capture\<close>; a file is the list of its bytes. The padding of the GPU structure, which the file
  holds as well, is a parameter. Directory creation and the text of \<open>Summary\<close> are left out.
\<close>

section \<open>Snapshots\<close>

record GpuKeyState =
  shader_hashes :: "u64 list"
  rt_count :: u32
  vp_width :: u32
  vp_height :: u32
  gpu_draw_count :: u64

record GuestSnapshot =
  gs_regs :: CpuRegisterSnapshot
  gs_tls_base :: u64
  gs_thread_id :: u32
  gs_gpu :: GpuKeyState
  recent_svcs :: "u32 list"
  gs_timestamp :: u64

definition no_regs :: CpuRegisterSnapshot where
  "no_regs = \<lparr>snap_x = replicate 31 0, snap_sp = 0, snap_pc = 0, snap_pstate = 0, snap_tpidrro_el0 = 0\<rparr>"

definition no_gpu :: GpuKeyState where
  "no_gpu = \<lparr>shader_hashes = replicate 6 0, rt_count = 0, vp_width = 0, vp_height = 0, gpu_draw_count = 0\<rparr>"

definition no_snapshot :: GuestSnapshot where
  "no_snapshot = \<lparr>gs_regs = no_regs, gs_tls_base = 0, gs_thread_id = 0, gs_gpu = no_gpu, recent_svcs = [], gs_timestamp = 0\<rparr>"

record SnapshotManager =
  snapshot_dir :: string
  auto_interval :: u32
  auto_frame_interval :: u32
  svc_counter :: u32
  frame_counter :: u32
  max_history :: nat
  history :: "GuestSnapshot list"
  last_auto_snapshot :: GuestSnapshot

definition new_manager :: SnapshotManager where
  "new_manager = \<lparr>snapshot_dir = ''/tmp/m1switch_snaps'', auto_interval = 0, auto_frame_interval = 0, svc_counter = 0,
     frame_counter = 0, max_history = 64, history = [], last_auto_snapshot = no_snapshot\<rparr>"

text \<open>The channel of system calls is number 0.\<close>

definition Capture :: "u64 \<Rightarrow> EmuDebugger \<Rightarrow> TraceEngine \<Rightarrow> GuestSnapshot" where
  "Capture now d t = no_snapshot\<lparr>gs_timestamp := now, gs_regs := last_regs d, gs_thread_id := tl_thread_id t,
     recent_svcs := map event_id (Query 0 0 (- 1) 128 t)\<rparr>"

section \<open>Files\<close>

definition SNAP_MAGIC :: "u8 list" where
  "SNAP_MAGIC = map of_char ''M1SW_SNAP''"

definition regs_words :: "CpuRegisterSnapshot \<Rightarrow> u64 list" where
  "regs_words r = snap_x r @ [snap_sp r, snap_pc r, snap_pstate r, snap_tpidrro_el0 r]"

definition regs_bytes :: "CpuRegisterSnapshot \<Rightarrow> u8 list" where
  "regs_bytes r = concat (map (le_bytes 8) (regs_words r))"

definition gpu_bytes :: "u8 list \<Rightarrow> GpuKeyState \<Rightarrow> u8 list" where
  "gpu_bytes pad g = concat (map (le_bytes 8) (shader_hashes g)) @ le_bytes 4 (rt_count g) @ le_bytes 4 (vp_width g) @
     le_bytes 4 (vp_height g) @ pad @ le_bytes 8 (gpu_draw_count g)"

text \<open>The magic string is written with its terminator.\<close>

definition snapshot_bytes :: "u8 list \<Rightarrow> GuestSnapshot \<Rightarrow> u8 list" where
  "snapshot_bytes pad snap = SNAP_MAGIC @ [0] @ le_bytes 4 (1 :: u32) @ regs_bytes (gs_regs snap) @ le_bytes 8 (gs_tls_base snap) @
     le_bytes 4 (gs_thread_id snap) @ gpu_bytes pad (gs_gpu snap) @ le_bytes 8 (gs_timestamp snap) @
     le_bytes 4 (of_nat (length (recent_svcs snap)) :: u32) @ concat (map (le_bytes 4) (recent_svcs snap))"

definition SaveToFile :: "bool \<Rightarrow> u8 list \<Rightarrow> u64 \<Rightarrow> EmuDebugger \<Rightarrow> TraceEngine \<Rightarrow> bool \<times> u8 list option" where
  "SaveToFile opens pad now d t =
     (let snap = Capture now d t in if opens then (True, Some (snapshot_bytes pad snap)) else (False, None))"

text \<open>
  \<^verbatim>\<open>ifstream::read\<close>: a read that comes short stores what there is and fails, and so do all that follow.
\<close>

record istream =
  in_data :: "u8 list"
  in_good :: bool

definition stream_read :: "u8 list \<Rightarrow> istream \<Rightarrow> u8 list \<times> istream" where
  "stream_read buf f =
     (if in_good f then
        (let n = length buf; got = take n (in_data f)
         in (got @ drop (length got) buf, \<lparr>in_data = drop n (in_data f), in_good = n \<le> length (in_data f)\<rparr>))
      else (buf, f))"

definition decode_words :: "nat \<Rightarrow> u8 list \<Rightarrow> u64 list" where
  "decode_words n bs = map (\<lambda>i. of_le_bytes (get_bytes bs (8 * i) 8)) [0..<n]"

definition decode_regs :: "u8 list \<Rightarrow> CpuRegisterSnapshot" where
  "decode_regs bs = (let ws = decode_words 35 bs
     in \<lparr>snap_x = take 31 ws, snap_sp = ws ! 31, snap_pc = ws ! 32, snap_pstate = ws ! 33, snap_tpidrro_el0 = ws ! 34\<rparr>)"

definition decode_gpu :: "u8 list \<Rightarrow> GpuKeyState" where
  "decode_gpu bs = \<lparr>shader_hashes = decode_words 6 bs, rt_count = of_le_bytes (get_bytes bs 48 4), vp_width = of_le_bytes (get_bytes bs 52 4),
     vp_height = of_le_bytes (get_bytes bs 56 4), gpu_draw_count = of_le_bytes (get_bytes bs 64 8)\<rparr>"

definition decode_svcs :: "nat \<Rightarrow> u8 list \<Rightarrow> u32 list" where
  "decode_svcs n bs = map (\<lambda>i. of_le_bytes (get_bytes bs (4 * i) 4)) [0..<n]"

text \<open>Nine bytes of the magic string are read; the buffer of ten was zeroed. The version is not looked at.\<close>

definition LoadFromFile :: "u8 list option \<Rightarrow> GuestSnapshot" where
  "LoadFromFile file =
     (case file of
        None \<Rightarrow> no_snapshot
      | Some data \<Rightarrow>
          (let (magic, f1) = stream_read (replicate 9 0) \<lparr>in_data = data, in_good = True\<rparr>
           in if takeWhile (\<lambda>b. b \<noteq> 0) magic \<noteq> SNAP_MAGIC then no_snapshot
              else
                let (version, f2) = stream_read (replicate 4 0) f1;
                    (regs, f3) = stream_read (regs_bytes no_regs) f2;
                    (tls, f4) = stream_read (replicate 8 0) f3;
                    (tid, f5) = stream_read (replicate 4 0) f4;
                    (gpu, f6) = stream_read (replicate 72 0) f5;
                    (stamp, f7) = stream_read (replicate 8 0) f6;
                    (cnt, f8) = stream_read (replicate 4 0) f7;
                    svc_count = unat (of_le_bytes cnt :: u32);
                    svcs = (if 0 < svc_count \<and> svc_count < 10000
                      then decode_svcs svc_count (fst (stream_read (replicate (4 * svc_count) 0) f8)) else [])
                in \<lparr>gs_regs = decode_regs regs, gs_tls_base = of_le_bytes tls, gs_thread_id = of_le_bytes tid,
                    gs_gpu = decode_gpu gpu, recent_svcs = svcs, gs_timestamp = of_le_bytes stamp\<rparr>))"

section \<open>Automatic snapshots\<close>

definition SetAutoSnapshotInterval :: "u32 \<Rightarrow> SnapshotManager \<Rightarrow> SnapshotManager" where
  "SetAutoSnapshotInterval n m = m\<lparr>auto_interval := n, svc_counter := 0\<rparr>"

definition SetAutoSnapshotPerFrame :: "u32 \<Rightarrow> SnapshotManager \<Rightarrow> SnapshotManager" where
  "SetAutoSnapshotPerFrame n m = m\<lparr>auto_frame_interval := n, frame_counter := 0\<rparr>"

text \<open>Erasing the first element of an empty vector is undefined.\<close>

datatype snap_error = EraseEmpty

definition keep_snapshot :: "GuestSnapshot \<Rightarrow> SnapshotManager \<Rightarrow> snap_error + SnapshotManager" where
  "keep_snapshot snap m =
     (let m1 = m\<lparr>last_auto_snapshot := snap\<rparr> in
      if length (history m1) \<ge> max_history m1 then
        (if history m1 = [] then Inl EraseEmpty else Inr (m1\<lparr>history := tl (history m1) @ [snap]\<rparr>))
      else Inr (m1\<lparr>history := history m1 @ [snap]\<rparr>))"

definition OnSvcCall :: "u64 \<Rightarrow> EmuDebugger \<Rightarrow> TraceEngine \<Rightarrow> u32 \<Rightarrow> SnapshotManager \<Rightarrow> snap_error + SnapshotManager" where
  "OnSvcCall now d t svc m =
     (if auto_interval m = 0 then Inr m
      else
        let n = svc_counter m + 1 in
        if n \<ge> auto_interval m then keep_snapshot (Capture now d t) (m\<lparr>svc_counter := 0\<rparr>)
        else Inr (m\<lparr>svc_counter := n\<rparr>))"

definition OnFrameComplete :: "u64 \<Rightarrow> EmuDebugger \<Rightarrow> TraceEngine \<Rightarrow> SnapshotManager \<Rightarrow> snap_error + SnapshotManager" where
  "OnFrameComplete now d t m =
     (if auto_frame_interval m = 0 then Inr m
      else
        let n = frame_counter m + 1 in
        if n \<ge> auto_frame_interval m then keep_snapshot (Capture now d t) (m\<lparr>frame_counter := 0\<rparr>)
        else Inr (m\<lparr>frame_counter := n\<rparr>))"

definition SetMaxHistory :: "nat \<Rightarrow> SnapshotManager \<Rightarrow> SnapshotManager" where
  "SetMaxHistory n m = m\<lparr>max_history := n, history := drop (length (history m) - n) (history m)\<rparr>"

definition SetSnapshotDir :: "string \<Rightarrow> SnapshotManager \<Rightarrow> SnapshotManager" where
  "SetSnapshotDir dir m = m\<lparr>snapshot_dir := dir\<rparr>"

section \<open>The history is a window\<close>

datatype snap_call = On_Svc u64 EmuDebugger TraceEngine u32 | On_Frame u64 EmuDebugger TraceEngine

fun snap_result :: "snap_call \<Rightarrow> SnapshotManager \<Rightarrow> snap_error + SnapshotManager" where
  "snap_result (On_Svc now d t svc) m = OnSvcCall now d t svc m"
| "snap_result (On_Frame now d t) m = OnFrameComplete now d t m"

definition snap_put :: "snap_call \<Rightarrow> SnapshotManager \<Rightarrow> SnapshotManager" where
  "snap_put c m = (case snap_result c m of Inl _ \<Rightarrow> m | Inr m' \<Rightarrow> m')"

fun snap_new :: "snap_call \<Rightarrow> SnapshotManager \<Rightarrow> GuestSnapshot list" where
  "snap_new (On_Svc now d t svc) m = (if auto_interval m \<noteq> 0 \<and> svc_counter m + 1 \<ge> auto_interval m then [Capture now d t] else [])"
| "snap_new (On_Frame now d t) m = (if auto_frame_interval m \<noteq> 0 \<and> frame_counter m + 1 \<ge> auto_frame_interval m then [Capture now d t] else [])"

definition snap_holds :: "nat \<Rightarrow> GuestSnapshot list \<Rightarrow> SnapshotManager \<Rightarrow> bool" where
  "snap_holds cap log m \<longleftrightarrow> max_history m = cap \<and> history m = drop (length log - cap) log"

lemma keep_snapshot_window:
  assumes "snap_holds (Suc n) log m"
  shows "\<exists>m'. keep_snapshot snap m = Inr m' \<and> snap_holds (Suc n) (log @ [snap]) m'"
proof (cases "length log \<le> n")
  case True
  then show ?thesis
    using assms by (auto simp: keep_snapshot_def snap_holds_def)
next
  case False
  then have "length (history m) = Suc n" "history m \<noteq> []"
    using assms by (auto simp: snap_holds_def)
  moreover have "tl (drop (length log - Suc n) log) = drop (length log - n) log"
    using False by (simp add: drop_Suc [symmetric] tl_drop Suc_diff_le Suc_diff_Suc)
  ultimately show ?thesis
    using assms False by (auto simp: keep_snapshot_def snap_holds_def)
qed

lemma snap_result_window:
  assumes "snap_holds (Suc n) log m"
  shows "\<exists>m'. snap_result c m = Inr m' \<and> snap_holds (Suc n) (log @ snap_new c m) m'"
proof -
  have "snap_holds (Suc n) log (m\<lparr>svc_counter := a\<rparr>)" "snap_holds (Suc n) log (m\<lparr>frame_counter := a\<rparr>)" for a
    using assms by (simp_all add: snap_holds_def)
  then show ?thesis
    using assms keep_snapshot_window by (cases c) (auto simp: OnSvcCall_def OnFrameComplete_def Let_def)
qed

interpretation snaps: event_log "snap_holds (Suc n)" snap_put snap_new history "Suc n" for n
proof unfold_locales
  fix log m c
  assume "snap_holds (Suc n) log m"
  then show "snap_holds (Suc n) (log @ snap_new c m) (snap_put c m)"
    using snap_result_window [of n log m c] by (auto simp: snap_put_def)
qed (simp add: snap_holds_def)

text \<open>
  As long as the limit is positive, the history is exactly the last \<open>max_history\<close> automatic snapshots in the
  order in which they were taken, over any sequence of system calls and frames, and no call is undefined.
\<close>

theorem snapshot_history_window:
  assumes "max_history m = Suc n" "history m = []"
  shows "history (fold snap_put calls m) =
      (let all = accepted snap_put snap_new calls m in drop (length all - Suc n) all) \<and>
    (\<exists>m'. snap_result c (fold snap_put calls m) = Inr m')"
proof -
  have h: "snap_holds (Suc n) [] m"
    using assms by (simp add: snap_holds_def)
  then show ?thesis
    using snaps.window_fold [OF h] snap_result_window [OF snaps.holds_fold [OF h], of c] by auto
qed

text \<open>With the limit zero, which the code does not refuse, the first automatic snapshot erases from the empty history.\<close>

lemma zero_history_undefined:
  assumes "auto_interval m = 1"
  shows "OnSvcCall now d t svc (SetMaxHistory 0 m\<lparr>svc_counter := 0\<rparr>) = Inl EraseEmpty"
  using assms by (simp add: OnSvcCall_def SetMaxHistory_def keep_snapshot_def)

section \<open>Saved snapshots do not load\<close>

text \<open>A byte in front of a sequence of words moves every word by one byte.\<close>

lemma words_behind_byte:
  assumes "i < length ws"
  shows "get_bytes ([b] @ concat (map (le_bytes 8) ws)) (8 * i) 8 =
    (if i = 0 then b else ucast (drop_bit 56 (ws ! (i - 1)))) # le_bytes 7 (ws ! i)"
  using assms
proof (induction ws arbitrary: b i)
  case (Cons w ws)
  have w: "le_bytes 8 w = le_bytes 7 w @ [ucast (drop_bit 56 w)]"
    by (simp add: le_bytes_def upt_rec)
  show ?case
  proof (cases i)
    case 0
    then show ?thesis
      by (simp add: w get_bytes_def)
  next
    case (Suc j)
    have "drop (8 * i) ([b] @ concat (map (le_bytes 8) (w # ws))) =
        drop (8 * j) (drop 8 (([b] @ le_bytes 7 w) @ [ucast (drop_bit 56 w)] @ concat (map (le_bytes 8) ws)))"
      unfolding drop_drop by (simp add: Suc w add.commute)
    also have "drop 8 (([b] @ le_bytes 7 w) @ [ucast (drop_bit 56 w)] @ concat (map (le_bytes 8) ws)) =
        [ucast (drop_bit 56 w)] @ concat (map (le_bytes 8) ws)"
      by (subst drop_append) simp
    finally have "get_bytes ([b] @ concat (map (le_bytes 8) (w # ws))) (8 * i) 8 =
        get_bytes ([ucast (drop_bit 56 w)] @ concat (map (le_bytes 8) ws)) (8 * j) 8"
      by (simp only: get_bytes_def)
    then show ?thesis
      using Cons.IH [of j] Cons.prems Suc by (cases j) simp_all
  qed
qed simp

lemma shifted_word: "(of_le_bytes (b # le_bytes 7 (w :: u64)) :: u64) = push_bit 8 w OR ucast b"
proof -
  have "push_bit 8 (take_bit 56 w) = push_bit 8 w"
    by (rule bit_word_eqI) (auto simp: bit_simps)
  then show ?thesis
    by (simp add: le_simps or.commute)
qed

lemma stream_read_ok:
  assumes "length bs = length buf"
  shows "stream_read buf \<lparr>in_data = bs @ rest, in_good = True\<rparr> = (bs, \<lparr>in_data = rest, in_good = True\<rparr>)"
  using assms by (simp add: stream_read_def)

lemma shifted_fixpoint:
  assumes "push_bit 8 (w :: u64) = w"
  shows "w = 0"
proof -
  have "\<not> bit w n" for n
  proof (induction n rule: less_induct)
    case (less n)
    have "bit w n \<longleftrightarrow> 8 \<le> n \<and> bit w (n - 8) \<and> n < 64"
      by (subst assms [symmetric]) (auto simp: bit_simps)
    then show ?case
      using less.IH [of "n - 8"] by auto
  qed
  then show ?thesis
    by (simp add: bit_eq_iff)
qed

text \<open>
  A saved snapshot is not what is loaded: the terminator of the magic string is written and not read, so
  that every field is read one byte early. The loaded program counter is the saved one shifted by a byte, with the top byte of the
  stack pointer below it; for every guest address that is not zero it is a different number.
\<close>

theorem saved_snapshot_shifted:
  assumes "SaveToFile opens pad now d t = (True, data)" "length (snap_x (last_regs d)) = 31"
  shows "snap_pc (gs_regs (LoadFromFile data)) = push_bit 8 (snap_pc (last_regs d)) OR drop_bit 56 (snap_sp (last_regs d)) \<and>
    (snap_sp (last_regs d) < 2 ^ 56 \<and> snap_pc (last_regs d) \<noteq> 0 \<longrightarrow> snap_pc (gs_regs (LoadFromFile data)) \<noteq> snap_pc (last_regs d))"
proof -
  let ?r = "last_regs d"
  define snap where "snap = Capture now d t"
  define rest where "rest = le_bytes 8 (gs_tls_base snap) @
     le_bytes 4 (gs_thread_id snap) @ gpu_bytes pad (gs_gpu snap) @ le_bytes 8 (gs_timestamp snap) @
     le_bytes 4 (of_nat (length (recent_svcs snap)) :: u32) @ concat (map (le_bytes 4) (recent_svcs snap))"
  have len: "length (regs_words ?r) = 35" "length (regs_bytes no_regs) = 280"
    using assms(2) by (simp_all add: regs_words_def regs_bytes_def no_regs_def length_concat comp_def sum_list_replicate)
  let ?ws = "concat (map (le_bytes 8) (regs_words ?r))"
  have lws: "length ?ws = 280"
    using len(1) by (simp add: length_concat comp_def sum_list_triv)
  have bytes: "data = Some (SNAP_MAGIC @ ([0, 1, 0, 0] @ (take 280 ([0] @ ?ws) @ (drop 280 ([0] @ ?ws) @ rest))))"
    using assms(1) by (auto simp: SaveToFile_def snapshot_bytes_def snap_def rest_def Capture_def regs_bytes_def le_bytes_def upt_rec
        split: if_splits)
  have magic: "length SNAP_MAGIC = 9" "takeWhile (\<lambda>b. b \<noteq> 0) SNAP_MAGIC = SNAP_MAGIC"
    by (simp_all add: SNAP_MAGIC_def of_char_def)
  have rd: "stream_read (regs_bytes no_regs) \<lparr>in_data = take 280 ([0] @ ?ws) @ (drop 280 ([0] @ ?ws) @ rest), in_good = True\<rparr> =
      (take 280 ([0] @ ?ws), \<lparr>in_data = drop 280 ([0] @ ?ws) @ rest, in_good = True\<rparr>)"
    by (rule stream_read_ok) (use lws len in simp)
  have regs: "gs_regs (LoadFromFile data) = decode_regs (take 280 ([0] @ ?ws))"
    unfolding LoadFromFile_def bytes option.case
    by (simp add: stream_read_ok [of SNAP_MAGIC "replicate 9 0"] stream_read_ok [of "[0, 1, 0, 0]" "replicate 4 0", simplified] magic
        rd [simplified] split_beta Let_def)
  have "get_bytes (take 280 ([0] @ ?ws)) (8 * 32) 8 = get_bytes ([0] @ ?ws) (8 * 32) 8"
    by (simp add: get_bytes_def take_drop)
  also have "\<dots> = ucast (drop_bit 56 (regs_words ?r ! 31)) # le_bytes 7 (regs_words ?r ! 32)"
    using words_behind_byte [of 32 "regs_words ?r" 0] len by simp
  also have "\<dots> = ucast (drop_bit 56 (snap_sp ?r)) # le_bytes 7 (snap_pc ?r)"
    using assms(2) by (simp add: regs_words_def nth_append)
  finally have "snap_pc (gs_regs (LoadFromFile data)) = push_bit 8 (snap_pc ?r) OR ucast (ucast (drop_bit 56 (snap_sp ?r)) :: u8)"
    by (simp add: regs decode_regs_def decode_words_def shifted_word del: of_le_bytes.simps)
  moreover have "(ucast (ucast (drop_bit 56 (snap_sp ?r)) :: u8) :: u64) = drop_bit 56 (snap_sp ?r)"
    by (rule bit_word_eqI) (auto simp: bit_simps dest: bit_imp_le_length)
  ultimately have pc: "snap_pc (gs_regs (LoadFromFile data)) = push_bit 8 (snap_pc ?r) OR drop_bit 56 (snap_sp ?r)"
    by simp
  have "snap_pc (gs_regs (LoadFromFile data)) \<noteq> snap_pc ?r" if "snap_sp ?r < 2 ^ 56" "snap_pc ?r \<noteq> 0"
  proof -
    have "drop_bit 56 (snap_sp ?r) = 0"
      using that(1) by (simp add: drop_bit_eq_div word_less_nat_alt word_arith_nat_div unat_div)
    then show ?thesis
      using pc shifted_fixpoint [of "snap_pc ?r"] that(2) by auto
  qed
  then show ?thesis
    using pc by blast
qed

theorem saved_snapshot_shifted_witness:
  "snap_pc (gs_regs (LoadFromFile (Some (snapshot_bytes [0, 0, 0, 0] (Capture 7 (EmuDebugger_init\<lparr>last_regs := no_regs\<lparr>snap_pc := 0x71000ABC\<rparr>\<rparr>) (TraceEngine_init True)))))) =
     push_bit 8 0x71000ABC"
  using saved_snapshot_shifted [of True "[0, 0, 0, 0]" 7 "EmuDebugger_init\<lparr>last_regs := no_regs\<lparr>snap_pc := 0x71000ABC\<rparr>\<rparr>" "TraceEngine_init True"
      "Some (snapshot_bytes [0, 0, 0, 0] (Capture 7 (EmuDebugger_init\<lparr>last_regs := no_regs\<lparr>snap_pc := 0x71000ABC\<rparr>\<rparr>) (TraceEngine_init True)))"]
  by (simp add: SaveToFile_def no_regs_def)

theorem snapshot_history_window_witness:
  "let d = EmuDebugger_init; t = TraceEngine_init True in
   history (fold snap_put [On_Svc 5 d t 1, On_Svc 6 d t 2, On_Frame 7 d t] (SetMaxHistory 1 (SetAutoSnapshotInterval 2 new_manager))) = [Capture 6 d t]"
proof -
  let ?m = "SetMaxHistory 1 (SetAutoSnapshotInterval 2 new_manager)" and ?d = EmuDebugger_init and ?t = "TraceEngine_init True"
  have "max_history ?m = Suc 0" "history ?m = []"
    by (simp_all add: SetMaxHistory_def SetAutoSnapshotInterval_def new_manager_def)
  from snapshot_history_window [OF this, of "[On_Svc 5 ?d ?t 1, On_Svc 6 ?d ?t 2, On_Frame 7 ?d ?t]"]
  show ?thesis
    by (simp add: snap_put_def OnSvcCall_def OnFrameComplete_def keep_snapshot_def SetMaxHistory_def SetAutoSnapshotInterval_def new_manager_def Let_def)
qed

end
