(* ===== verification/TextFormat.thy ===== *)
theory TextFormat
  imports Prelude
begin

text \<open>
  Text as the C++ library prints and reads it: digits, \<^verbatim>\<open>std::string::find\<close>, \<^verbatim>\<open>std::stoull\<close> and relatives. A string is the list of
  its bytes. The debug server, the key files and the game library use it.
\<close>

section \<open>Text\<close>

abbreviation dq :: char where "dq \<equiv> CHR 0x22"
abbreviation nl :: char where "nl \<equiv> CHR 0x0A"

text \<open>Literals: \<open>js\<close> writes a back quote for every double quote, \<open>utf8\<close> gives bytes.\<close>

definition js :: "string \<Rightarrow> string" where
  "js s = map (\<lambda>c. if c = CHR 0x60 then dq else c) s"

definition utf8 :: "nat list \<Rightarrow> string" where
  "utf8 bs = map char_of bs"

definition digit :: "nat \<Rightarrow> char" where
  "digit d = ''0123456789abcdef'' ! d"

fun digits :: "nat \<Rightarrow> nat \<Rightarrow> string" where
  "digits base n = (if base < 2 \<or> n < base then [digit n] else digits base (n div base) @ [digit (n mod base)])"

declare digits.simps [simp del]

definition dec_str :: "'a::len word \<Rightarrow> string" where "dec_str w = digits 10 (unat w)"
definition hex_str :: "'a::len word \<Rightarrow> string" where "hex_str w = digits 16 (unat w)"
definition bool_str :: "bool \<Rightarrow> string" where "bool_str b = (if b then ''true'' else ''false'')"

text \<open>\<^verbatim>\<open>std::setw(2)\<close> with fill character \<^verbatim>\<open>0\<close>.\<close>

definition hex2 :: "u8 \<Rightarrow> string" where
  "hex2 b = [digit (unat b div 16), digit (unat b mod 16)]"

text \<open>What follows the first occurrence of a string.\<close>

definition starts :: "string \<Rightarrow> string \<Rightarrow> bool" where
  "starts pat s \<longleftrightarrow> take (length pat) s = pat"

fun after :: "string \<Rightarrow> string \<Rightarrow> string option" where
  "after pat [] = (if pat = [] then Some [] else None)"
| "after pat (c # cs) = (if starts pat (c # cs) then Some (drop (length pat) (c # cs)) else after pat cs)"

fun join :: "string list \<Rightarrow> string" where
  "join [] = []"
| "join [x] = x"
| "join (x # y # ys) = x @ '','' @ join (y # ys)"

text \<open>\<^verbatim>\<open>std::getline\<close>: the lines of a file; a line feed at its end starts no line.\<close>

function file_lines :: "string \<Rightarrow> string list" where
  "file_lines s =
     (if s = [] then []
      else takeWhile (\<lambda>c. c \<noteq> nl) s # file_lines (drop 1 (dropWhile (\<lambda>c. c \<noteq> nl) s)))"
  by auto
termination
proof (relation "measure length", simp)
  fix s :: string
  assume "s \<noteq> []"
  then have "length (drop 1 (dropWhile (\<lambda>c. c \<noteq> nl) s)) < length s"
    using length_dropWhile_le [of "\<lambda>c. c \<noteq> nl" s] by (cases s) (auto simp: less_Suc_eq_le)
  then show "(drop 1 (dropWhile (\<lambda>c. c \<noteq> nl) s), s) \<in> measure length"
    by simp
qed

declare file_lines.simps [simp del]

section \<open>Numbers\<close>

text \<open>
  \<^verbatim>\<open>std::stoull\<close> with base 0 and \<^verbatim>\<open>std::stoi\<close> with base 16: white space, a sign, a prefix that counts only when a digit
  follows, then digits up to the first other character. Without a digit, or out of range, they throw.
\<close>

definition is_space :: "char \<Rightarrow> bool" where
  "is_space c \<longleftrightarrow> c \<in> set ('' '' @ map char_of [9, 10, 11, 12, 13 :: nat])"

definition digit_value :: "char \<Rightarrow> nat option" where
  "digit_value c =
     (let n = of_char c :: nat in
      if 48 \<le> n \<and> n \<le> 57 then Some (n - 48)
      else if 97 \<le> n \<and> n \<le> 122 then Some (n - 87)
      else if 65 \<le> n \<and> n \<le> 90 then Some (n - 55)
      else None)"

definition digit_in :: "nat \<Rightarrow> char \<Rightarrow> bool" where
  "digit_in base c \<longleftrightarrow> (case digit_value c of Some d \<Rightarrow> d < base | None \<Rightarrow> False)"

definition number_of :: "nat \<Rightarrow> string \<Rightarrow> nat" where
  "number_of base ds = foldl (\<lambda>n c. n * base + the (digit_value c)) 0 ds"

definition hex_prefix :: "string \<Rightarrow> bool" where
  "hex_prefix s \<longleftrightarrow> length s > 2 \<and> s ! 0 = CHR ''0'' \<and> (s ! 1 = CHR ''x'' \<or> s ! 1 = CHR ''X'') \<and> digit_in 16 (s ! 2)"

definition pick_base :: "nat \<Rightarrow> string \<Rightarrow> nat \<times> string" where
  "pick_base base s =
     (if (base = 0 \<or> base = 16) \<and> hex_prefix s then (16, drop 2 s)
      else if base = 0 then (if starts ''0'' s then 8 else 10, s)
      else (base, s))"

definition parse_number :: "nat \<Rightarrow> string \<Rightarrow> (bool \<times> nat) option" where
  "parse_number base s =
     (let s1 = dropWhile is_space s;
          neg = starts ''-'' s1;
          s2 = (if neg \<or> starts ''+'' s1 then drop 1 s1 else s1);
          (b, s3) = pick_base base s2;
          ds = takeWhile (digit_in b) s3
      in if ds = [] then None else Some (neg, number_of b ds))"

section \<open>Lemmas\<close>

lemma starts_simps [simp]: "starts [] s" "starts (a # p) [] = False" "starts (a # p) (c # s) \<longleftrightarrow> a = c \<and> starts p s"
  by (auto simp: starts_def)

lemma starts_token:
  assumes "dq \<notin> set n" "dq \<notin> set k"
  shows "starts (k @ [dq]) (n @ dq # r) \<longleftrightarrow> n = k"
  using assms
proof (induction k arbitrary: n)
  case Nil
  then show ?case
    by (cases n) auto
next
  case (Cons c k)
  then show ?case
    by (cases n) auto
qed

lemma after_skip: "a \<notin> set x \<Longrightarrow> after (a # p) (x @ s) = after (a # p) s"
  by (induction x) auto

lemma after_char: "a \<notin> set x \<Longrightarrow> after [a] (x @ a # r) = Some r"
  by (simp add: after_skip)

text \<open>Text between double quotes: a quoted key is found at the first token that equals it.\<close>

lemma after_token:
  assumes "dq \<notin> set n" "dq \<notin> set k"
  shows "after (dq # k @ [dq]) (dq # n @ dq # r) = (if n = k then Some r else after (dq # k @ [dq]) (dq # r))"
  using assms starts_token [OF assms, of r] after_skip [OF assms(1), of "k @ [dq]" "dq # r"] by simp

lemma dropWhile_before: "a \<notin> set x \<Longrightarrow> dropWhile (\<lambda>c. c \<noteq> a) (x @ a # r) = a # r"
  by (induction x) auto

lemma takeWhile_before: "a \<notin> set x \<Longrightarrow> takeWhile (\<lambda>c. c \<noteq> a) (x @ a # r) = x"
  by (induction x) auto

lemma file_lines_Cons:
  assumes "nl \<notin> set x"
  shows "file_lines (x @ nl # r) = x # file_lines r"
  using assms by (subst file_lines.simps) (simp add: takeWhile_before dropWhile_before)

lemma digit_facts:
  assumes "d < 16"
  shows "digit_value (digit d) = Some d" "\<not> is_space (digit d)" "digit d \<noteq> CHR ''-''" "digit d \<noteq> CHR ''+''" "digit d \<noteq> dq"
    "digit d \<notin> {CHR 0x00, nl, CHR ''-'', CHR ''+''}"
proof -
  have "list_all (\<lambda>d. digit_value (digit d) = Some d \<and> \<not> is_space (digit d) \<and> digit d \<notin> {CHR ''-'', CHR ''+'', dq, CHR 0x00, nl}) [0..<16]"
    by code_simp
  then show "digit_value (digit d) = Some d" "\<not> is_space (digit d)" "digit d \<noteq> CHR ''-''" "digit d \<noteq> CHR ''+''" "digit d \<noteq> dq"
    "digit d \<notin> {CHR 0x00, nl, CHR ''-'', CHR ''+''}"
    using assms by (auto simp: list_all_iff)
qed

lemma digit_in_digit: "d < 16 \<Longrightarrow> digit_in 16 (digit d)"
  by (simp add: digit_in_def digit_facts(1))

lemma digits_no_quote: "base \<le> 16 \<Longrightarrow> 2 \<le> base \<Longrightarrow> dq \<notin> set (digits base n)"
proof (induction base n rule: digits.induct)
  case (1 base n)
  show ?case
  proof (cases "n < base")
    case True
    then show ?thesis
      using 1 digit_facts(5) [of n] by (subst digits.simps) auto
  next
    case False
    moreover have "n mod base < 16"
      using 1 by (meson le_trans less_le_trans mod_less_divisor not_less not_less_eq_eq zero_less_numeral order.strict_trans1)
    ultimately show ?thesis
      using 1 digit_facts(5) [of "n mod base"] by (subst digits.simps) auto
  qed
qed

end
