(* ===== verification/DebugServer.thy ===== *)
theory DebugServer
  imports Snapshot TextFormat
begin

unbundle bit_operations_syntax

text \<open>
  The remote debugger: \<^verbatim>\<open>src/src/debug/DebugServer.cpp\<close> and \<^verbatim>\<open>DebugServer.h\<close>. Requests and answers are lines of text; a string is
  the list of its bytes. The commands work on the debugger and the trace engine; the clock and the order in which the
  breakpoint table is walked are parameters. An exception in the server's thread ends the process: the error. Sockets and threads
  are left out; a client is the sequence of what \<^verbatim>\<open>read\<close> returns.
\<close>

section \<open>Requests\<close>

definition blank :: "char \<Rightarrow> bool" where
  "blank c \<longleftrightarrow> c = CHR '' '' \<or> c = CHR 0x09"

definition ExtractJsonString :: "string \<Rightarrow> string \<Rightarrow> string" where
  "ExtractJsonString json key =
     (case after (dq # key @ [dq]) json of
        None \<Rightarrow> []
      | Some r \<Rightarrow> (case after '':'' r of
          None \<Rightarrow> []
        | Some r \<Rightarrow> (case dropWhile blank r of
            [] \<Rightarrow> []
          | c # cs \<Rightarrow> if c = dq \<and> dq \<in> set cs then takeWhile (\<lambda>c. c \<noteq> dq) cs else [])))"

function split_strings :: "string \<Rightarrow> string list" where
  "split_strings arr =
     (case dropWhile (\<lambda>c. c \<noteq> dq) arr of
        [] \<Rightarrow> []
      | _ # rest \<Rightarrow> takeWhile (\<lambda>c. c \<noteq> dq) rest # split_strings (drop 1 (dropWhile (\<lambda>c. c \<noteq> dq) rest)))"
  by auto
termination
proof (relation "measure length", simp)
  fix arr c rest
  assume "dropWhile (\<lambda>c. c \<noteq> dq) arr = c # rest"
  then have "length (c # rest) \<le> length arr"
    by (metis length_dropWhile_le)
  then show "(drop 1 (dropWhile (\<lambda>c. c \<noteq> dq) rest), arr) \<in> measure length"
    using length_dropWhile_le [of "\<lambda>c. c \<noteq> dq" rest] by simp
qed

declare split_strings.simps [simp del]

definition ExtractJsonArray :: "string \<Rightarrow> string \<Rightarrow> string list" where
  "ExtractJsonArray json key =
     (case after (dq # key @ [dq]) json of
        None \<Rightarrow> []
      | Some r \<Rightarrow> (case after ''['' r of
          None \<Rightarrow> []
        | Some r \<Rightarrow> if CHR '']'' \<in> set r then split_strings (takeWhile (\<lambda>c. c \<noteq> CHR '']'') r) else []))"

record DebugCommand =
  dc_cmd :: string
  dc_args :: "string list"

definition DebugCommand_Parse :: "string \<Rightarrow> DebugCommand" where
  "DebugCommand_Parse json = \<lparr>dc_cmd = ExtractJsonString json ''cmd'', dc_args = ExtractJsonArray json ''args''\<rparr>"

definition quoted :: "string \<Rightarrow> string" where
  "quoted s = dq # s @ [dq]"

definition DebugCommand_ToJson :: "DebugCommand \<Rightarrow> string" where
  "DebugCommand_ToJson c = js ''{`cmd`:`'' @ dc_cmd c @ js ''`,`args`:['' @ join (map quoted (dc_args c)) @ '']}''"

section \<open>Numbers\<close>

text \<open>\<^verbatim>\<open>std::stoull\<close> with base 0 and \<^verbatim>\<open>std::stoi\<close> with base 16 throw without a digit and out of range.\<close>

datatype server_error = Thrown

definition ParseHex :: "string \<Rightarrow> server_error + u64" where
  "ParseHex s =
     (case parse_number 0 s of
        None \<Rightarrow> Inl Thrown
      | Some (neg, n) \<Rightarrow> if n < 2 ^ 64 then Inr (if neg then - of_nat n else of_nat n) else Inl Thrown)"

definition stoi16 :: "string \<Rightarrow> server_error + int" where
  "stoi16 s =
     (case parse_number 16 s of
        None \<Rightarrow> Inl Thrown
      | Some (neg, n) \<Rightarrow> (let v = (if neg then - int n else int n) in if - (2 ^ 31) \<le> v \<and> v < 2 ^ 31 then Inr v else Inl Thrown))"

section \<open>Answers\<close>

record DebugResponse =
  resp_success :: bool
  resp_error :: string
  resp_data :: string

definition DebugResponse_ToJson :: "DebugResponse \<Rightarrow> string" where
  "DebugResponse_ToJson r =
     js ''{`success`:'' @ bool_str (resp_success r) @
     (if resp_error r \<noteq> [] then js '',`error`:`'' @ resp_error r @ [dq] else []) @
     (if resp_data r \<noteq> [] then js '',`data`:'' @ resp_data r else []) @ ''}''"

definition failed :: "string \<Rightarrow> DebugResponse" where
  "failed msg = \<lparr>resp_success = False, resp_error = msg, resp_data = []\<rparr>"

definition answered :: "string \<Rightarrow> DebugResponse" where
  "answered data = \<lparr>resp_success = True, resp_error = [], resp_data = data\<rparr>"

section \<open>Commands\<close>

record server =
  sv_dbg :: EmuDebugger
  sv_trace :: TraceEngine

record server_env =
  bp_order :: "EmuDebugger \<Rightarrow> u64 list"
  clock :: u64

type_synonym reply = "server_error + DebugResponse \<times> server"

definition bind_reply :: "server_error + 'a \<Rightarrow> ('a \<Rightarrow> server_error + 'b) \<Rightarrow> server_error + 'b" where
  "bind_reply r f = (case r of Inl e \<Rightarrow> Inl e | Inr x \<Rightarrow> f x)"

definition CmdBreak :: "string list \<Rightarrow> server \<Rightarrow> reply" where
  "CmdBreak args sv =
     (case args of
        [] \<Rightarrow> Inr (failed (utf8 [231, 148, 168, 230, 179, 149] @ '': break <'' @ utf8 [229, 156, 176, 229, 157, 128] @ ''>''), sv)
      | a # _ \<Rightarrow> bind_reply (ParseHex a) (\<lambda>addr.
          Inr (answered (js ''{`addr`:`0x'' @ a @ js ''`}''), sv\<lparr>sv_dbg := SetBreakpoint addr (sv_dbg sv)\<rparr>)))"

definition CmdBreakRemove :: "string list \<Rightarrow> server \<Rightarrow> reply" where
  "CmdBreakRemove args sv =
     (case args of
        [] \<Rightarrow> Inr (failed (utf8 [231, 148, 168, 230, 179, 149] @ '': break_remove <'' @ utf8 [229, 156, 176, 229, 157, 128] @ ''>''), sv)
      | a # _ \<Rightarrow> bind_reply (ParseHex a) (\<lambda>addr.
          Inr (answered (js ''{`removed`:`0x'' @ a @ js ''`}''), sv\<lparr>sv_dbg := RemoveBreakpoint addr (sv_dbg sv)\<rparr>)))"

definition breakpoint_text :: "u64 \<times> bool \<times> u32 \<times> bool \<Rightarrow> string" where
  "breakpoint_text bp =
     (case bp of (addr, en, hits, _) \<Rightarrow>
        js ''{`addr`:`0x'' @ hex_str addr @ js ''`,`hits`:'' @ dec_str hits @ js '',`enabled`:'' @ bool_str en @ ''}'')"

definition CmdBreakpoints :: "server_env \<Rightarrow> server \<Rightarrow> reply" where
  "CmdBreakpoints env sv =
     Inr (answered (''['' @ join (map breakpoint_text (GetBreakpoints (bp_order env (sv_dbg sv)) (sv_dbg sv))) @ '']''), sv)"

definition CmdContinue :: "server_env \<Rightarrow> server \<Rightarrow> reply" where
  "CmdContinue env sv =
     Inr (answered (js ''{`status`:`running`}''), sv\<lparr>sv_dbg := Continue (bp_order env (sv_dbg sv)) (sv_dbg sv)\<rparr>)"

definition CmdStep :: "server_env \<Rightarrow> server \<Rightarrow> reply" where
  "CmdStep env sv =
     Inr (answered (js ''{`status`:`stepping`}''), sv\<lparr>sv_dbg := StepOver (bp_order env (sv_dbg sv)) (sv_dbg sv)\<rparr>)"

definition CmdPause :: "server \<Rightarrow> reply" where
  "CmdPause sv = Inr (answered (js ''{`status`:`paused`}''), sv\<lparr>sv_dbg := Pause (sv_dbg sv)\<rparr>)"

text \<open>
  The stream is switched to hexadecimal before the first value and never back: from the second register on the
  numbers in the names are hexadecimal, too.
\<close>

definition hex_field :: "string \<Rightarrow> u64 \<Rightarrow> string" where
  "hex_field name v = quoted name @ '':'' @ quoted (''0x'' @ hex_str v)"

definition reg_name :: "nat \<Rightarrow> string" where
  "reg_name i = ''x'' @ digits (if i = 0 then 10 else 16) i"

definition regs_text :: "CpuRegisterSnapshot \<Rightarrow> string" where
  "regs_text r = ''{'' @ join (map (\<lambda>i. hex_field (reg_name i) (snap_x r ! i)) [0..<31] @
     [hex_field ''sp'' (snap_sp r), hex_field ''pc'' (snap_pc r), hex_field ''pstate'' (snap_pstate r)]) @ ''}''"

definition CmdRegs :: "server \<Rightarrow> reply" where
  "CmdRegs sv = Inr (answered (regs_text (last_regs (sv_dbg sv))), sv)"

definition read_size :: "u64 \<Rightarrow> nat" where
  "read_size n = (if n = 0 \<or> n > 4096 then 256 else unat n)"

definition CmdRead :: "string list \<Rightarrow> server \<Rightarrow> reply" where
  "CmdRead args sv =
     (case args of
        a # n # _ \<Rightarrow> bind_reply (ParseHex a) (\<lambda>addr. bind_reply (ParseHex n) (\<lambda>n.
          Inr (answered (js ''{`addr`:`0x'' @ hex_str addr @ js ''`,`size`:'' @ digits 10 (read_size n) @ js '',`hex`:`'' @
            concat (map hex2 (ReadMemory addr (read_size n) (sv_dbg sv))) @ js ''`}''), sv)))
      | _ \<Rightarrow> Inr (failed (utf8 [231, 148, 168, 230, 179, 149] @ '': read <'' @ utf8 [229, 156, 176, 229, 157, 128] @ ''> <'' @ utf8 [229, 164, 167, 229, 176, 143] @ ''>''), sv))"

fun hex_bytes :: "string \<Rightarrow> server_error + u8 list" where
  "hex_bytes (a # b # cs) = bind_reply (stoi16 [a, b]) (\<lambda>v. bind_reply (hex_bytes cs) (\<lambda>bs. Inr (of_int v # bs)))"
| "hex_bytes _ = Inr []"

definition CmdWrite :: "string list \<Rightarrow> server \<Rightarrow> reply" where
  "CmdWrite args sv =
     (case args of
        a # hex # _ \<Rightarrow> bind_reply (ParseHex a) (\<lambda>addr. bind_reply (hex_bytes hex) (\<lambda>data.
          let (ok, d) = WriteMemory addr data (sv_dbg sv)
          in Inr (if ok then answered (js ''{`written`:'' @ digits 10 (length data) @ ''}'') else failed (utf8 [229, 134, 153, 229, 133, 165, 229, 134, 133, 229, 173, 152, 229, 164, 177, 232, 180, 165]),
              sv\<lparr>sv_dbg := d\<rparr>)))
      | _ \<Rightarrow> Inr (failed (utf8 [231, 148, 168, 230, 179, 149] @ '': write <'' @ utf8 [229, 156, 176, 229, 157, 128] @ ''> <hex'' @ utf8 [230, 149, 176, 230, 141, 174] @ ''>''), sv))"

subsection \<open>Tracing\<close>

definition channel_of :: "string \<Rightarrow> TraceChannel option" where
  "channel_of name = map_of [(''svc'', 0), (''ipc'', 1), (''gpu'', 2), (''mem'', 3), (''cpu'', 4), (''thread'', 5)] name"

definition action_text :: "bool \<Rightarrow> string \<Rightarrow> string" where
  "action_text en ch = js ''{`action`:`'' @ (if en then ''enabled'' else ''disabled'') @ js ''`,`channel`:`'' @ ch @ js ''`}''"

definition CmdTrace :: "string list \<Rightarrow> server \<Rightarrow> reply" where
  "CmdTrace args sv =
     (case args of
        ch # state # _ \<Rightarrow>
          (let en = state \<in> {''on'', ''1'', ''true''} in
           case channel_of ch of
             Some c \<Rightarrow> Inr (answered (action_text en ch), sv\<lparr>sv_trace := EnableChannel c en (sv_trace sv)\<rparr>)
           | None \<Rightarrow>
               if ch = ''all'' then Inr (answered (action_text en ''all''),
                 sv\<lparr>sv_trace := (if en then EnableAll (sv_trace sv) else DisableAll (sv_trace sv))\<rparr>)
               else Inr (failed (utf8 [230, 156, 170, 231, 159, 165, 233, 128, 154, 233, 129, 147] @ '': '' @ ch), sv))
      | _ \<Rightarrow> Inr (failed (utf8 [231, 148, 168, 230, 179, 149] @ '': trace <'' @ utf8 [233, 128, 154, 233, 129, 147, 229, 144, 141] @ ''> <on|off>  '' @ utf8 [233, 128, 154, 233, 129, 147] @ '': svc,ipc,gpu,mem,cpu,thread,all''), sv))"

definition TraceChannelNames :: "string list" where
  "TraceChannelNames = [''SVC'', ''IPC'', ''GPU_CMD'', ''MEM'', ''CPU_EXEC'', ''THREAD'']"

definition event_text :: "TraceEvent \<Rightarrow> string" where
  "event_text e =
     js ''{`ts`:'' @ dec_str (timestamp e) @ js '',`ch`:'' @ quoted (TraceChannelNames ! unat (channel e)) @
     js '',`eid`:'' @ dec_str (event_id e) @
     (if guest_pc e \<noteq> 0 then '','' @ hex_field ''pc'' (guest_pc e) else []) @
     js '',`tid`:'' @ dec_str (ev_thread e) @ '','' @ hex_field ''a0'' (arg0 e) @ '','' @ hex_field ''a1'' (arg1 e) @
     '','' @ hex_field ''res'' (ev_result e) @ ''}''"

definition FormatTraceEvents :: "TraceEvent list \<Rightarrow> string" where
  "FormatTraceEvents es = ''['' @ join (map event_text es) @ '']''"

definition trace_query :: "TraceChannel \<Rightarrow> string list \<Rightarrow> server \<Rightarrow> reply" where
  "trace_query ch args sv =
     bind_reply (case args of [] \<Rightarrow> Inr 50 | a # _ \<Rightarrow> ParseHex a) (\<lambda>n.
       Inr (answered (FormatTraceEvents (Query ch 0 (- 1) (ucast n) (sv_trace sv))), sv))"

definition CmdSvcTrace where "CmdSvcTrace = trace_query 0"
definition CmdIpcTrace where "CmdIpcTrace = trace_query 1"
definition CmdGpuTrace where "CmdGpuTrace = trace_query 2"

definition CmdSnap :: "server_env \<Rightarrow> server \<Rightarrow> reply" where
  "CmdSnap env sv =
     (let s = Capture (clock env) (sv_dbg sv) (sv_trace sv); r = gs_regs s
      in Inr (answered (''{'' @ hex_field ''pc'' (snap_pc r) @ '','' @ hex_field ''sp'' (snap_sp r) @ '','' @
           hex_field ''x0'' (snap_x r ! 0) @ '','' @ hex_field ''x1'' (snap_x r ! 1) @ js '',`gpu_draws`:'' @
           dec_str (gpu_draw_count (gs_gpu s)) @ js '',`recent_svcs`:['' @ join (map dec_str (recent_svcs s)) @ '']}''), sv))"

definition CmdStats :: "server \<Rightarrow> reply" where
  "CmdStats sv =
     (let st = GetStats (sv_trace sv)
      in Inr (answered (js ''{`total`:'' @ dec_str (st_total_events st) @ js '',`dropped`:'' @ dec_str (st_dropped_events st) @
           js '',`channels`:{'' @ join (map (\<lambda>i. quoted (TraceChannelNames ! i) @ '':'' @ dec_str (events_per_channel st ! i)) [0..<CHANNEL_COUNT]) @
           ''}}''), sv))"

definition CmdThreads :: "server \<Rightarrow> reply" where
  "CmdThreads sv = Inr (answered (js ''{`threads`:[],`note`:`'' @ utf8 [233, 156, 128, 232, 166, 129, 233, 155, 134, 230, 136, 144] @ js '' Scheduler`}''), sv)"

definition help_text :: string where
  "help_text = js ''{`commands`:[{`cmd`:`break <addr>`,`desc`:`'' @ utf8 [232, 174, 190, 231, 189, 174, 230, 150, 173, 231, 130, 185] @ js ''`},'' @
     js ''{`cmd`:`break_remove <addr>`,`desc`:`'' @ utf8 [231, 167, 187, 233, 153, 164, 230, 150, 173, 231, 130, 185] @ js ''`},'' @
     js ''{`cmd`:`breakpoints`,`desc`:`'' @ utf8 [229, 136, 151, 229, 135, 186, 230, 150, 173, 231, 130, 185] @ js ''`},'' @
     js ''{`cmd`:`continue`,`desc`:`'' @ utf8 [231, 187, 167, 231, 187, 173, 230, 137, 167, 232, 161, 140] @ js ''`},'' @
     js ''{`cmd`:`step`,`desc`:`'' @ utf8 [229, 141, 149, 230, 173, 165] @ js ''`},'' @
     js ''{`cmd`:`pause`,`desc`:`'' @ utf8 [230, 154, 130, 229, 129, 156] @ js ''`},'' @
     js ''{`cmd`:`regs`,`desc`:`'' @ utf8 [232, 175, 187, 229, 175, 132, 229, 173, 152, 229, 153, 168] @ js ''`},'' @
     js ''{`cmd`:`read <addr> <size>`,`desc`:`'' @ utf8 [232, 175, 187, 229, 134, 133, 229, 173, 152] @ js ''`},'' @
     js ''{`cmd`:`write <addr> <hex>`,`desc`:`'' @ utf8 [229, 134, 153, 229, 134, 133, 229, 173, 152] @ js ''`},'' @
     js ''{`cmd`:`trace <ch> <on|off>`,`desc`:`'' @ utf8 [229, 188, 128, 229, 133, 179] @ js ''trace (svc/ipc/gpu/mem/cpu/thread/all)`},'' @
     js ''{`cmd`:`svc_trace [n]`,`desc`:`'' @ utf8 [230, 156, 128, 232, 191, 145] @ js ''n'' @ utf8 [230, 157, 161] @ js ''SVC`},'' @
     js ''{`cmd`:`ipc_trace [n]`,`desc`:`'' @ utf8 [230, 156, 128, 232, 191, 145] @ js ''n'' @ utf8 [230, 157, 161] @ js ''IPC`},'' @
     js ''{`cmd`:`gpu_trace [n]`,`desc`:`'' @ utf8 [230, 156, 128, 232, 191, 145] @ js ''n'' @ utf8 [230, 157, 161] @ js ''GPU`},'' @
     js ''{`cmd`:`snap`,`desc`:`'' @ utf8 [229, 143, 150, 229, 191, 171, 231, 133, 167] @ js ''`},'' @
     js ''{`cmd`:`stats`,`desc`:`trace'' @ utf8 [231, 187, 159, 232, 174, 161] @ js ''`},'' @
     js ''{`cmd`:`threads`,`desc`:`'' @ utf8 [229, 136, 151, 229, 135, 186, 231, 186, 191, 231, 168, 139] @ js ''`}]}''"

definition CmdHelp :: "server \<Rightarrow> reply" where
  "CmdHelp sv = Inr (answered help_text, sv)"

section \<open>Dispatch and connections\<close>

definition commands :: "server_env \<Rightarrow> (string \<times> (string list \<Rightarrow> server \<Rightarrow> reply)) list" where
  "commands env =
     [(''break'', CmdBreak), (''break_remove'', CmdBreakRemove), (''breakpoints'', \<lambda>_. CmdBreakpoints env),
      (''continue'', \<lambda>_. CmdContinue env), (''step'', \<lambda>_. CmdStep env), (''pause'', \<lambda>_. CmdPause), (''regs'', \<lambda>_. CmdRegs),
      (''read'', CmdRead), (''write'', CmdWrite), (''trace'', CmdTrace), (''svc_trace'', CmdSvcTrace),
      (''ipc_trace'', CmdIpcTrace), (''gpu_trace'', CmdGpuTrace), (''snap'', \<lambda>_. CmdSnap env), (''stats'', \<lambda>_. CmdStats),
      (''threads'', \<lambda>_. CmdThreads), (''help'', \<lambda>_. CmdHelp)]"

definition DebugServer_HandleCommand :: "server_env \<Rightarrow> DebugCommand \<Rightarrow> server \<Rightarrow> reply" where
  "DebugServer_HandleCommand env c sv =
     (case map_of (commands env) (dc_cmd c) of
        Some f \<Rightarrow> f (dc_args c) sv
      | None \<Rightarrow> Inr (failed (utf8 [230, 156, 170, 231, 159, 165, 229, 145, 189, 228, 187, 164] @ '': '' @ dc_cmd c @ '' ('' @ utf8 [232, 190, 147, 229, 133, 165] @ '' help '' @ utf8 [230, 159, 165, 231, 156, 139, 229, 145, 189, 228, 187, 164, 229, 136, 151, 232, 161, 168] @ '')''), sv))"

definition strip_end :: "string \<Rightarrow> string" where
  "strip_end s = rev (dropWhile (\<lambda>c. c = CHR 0x0D \<or> c = CHR '' '') (rev s))"

definition handle_line :: "server_env \<Rightarrow> string \<Rightarrow> server \<Rightarrow> server_error + string \<times> server" where
  "handle_line env line sv =
     (let line = strip_end line in
      if line = [] then Inr ([], sv)
      else bind_reply (DebugServer_HandleCommand env (DebugCommand_Parse line) sv) (\<lambda>(resp, sv'). Inr (DebugResponse_ToJson resp @ [nl], sv')))"

text \<open>The inner loop: whole lines are answered, the rest stays in the buffer.\<close>

function process_lines :: "server_env \<Rightarrow> string \<Rightarrow> server \<Rightarrow> server_error + string \<times> string \<times> server" where
  "process_lines env buf sv =
     (if nl \<in> set buf then
        bind_reply (handle_line env (takeWhile (\<lambda>c. c \<noteq> nl) buf) sv) (\<lambda>(out, sv').
        bind_reply (process_lines env (drop 1 (dropWhile (\<lambda>c. c \<noteq> nl) buf)) sv') (\<lambda>(out', rest, sv'').
        Inr (out @ out', rest, sv'')))
      else Inr ([], buf, sv))"
  by auto
termination
proof (relation "measure (\<lambda>(env, buf, sv). length buf)", simp)
  fix env :: server_env and buf :: string and sv :: server and x :: "string \<times> server" and out :: string and sv' :: server
  assume "nl \<in> set buf"
  then have "dropWhile (\<lambda>c. c \<noteq> nl) buf \<noteq> []"
    by (simp add: dropWhile_eq_Nil_conv)
  then show "((env, drop 1 (dropWhile (\<lambda>c. c \<noteq> nl) buf), sv'), env, buf, sv) \<in> measure (\<lambda>(env, buf, sv). length buf)"
    using length_dropWhile_le [of "\<lambda>c. c \<noteq> nl" buf] by (cases "dropWhile (\<lambda>c. c \<noteq> nl) buf") auto
qed

declare process_lines.simps [simp del]

text \<open>A chunk is appended as a C string: up to its first zero byte. What is written back is the result.\<close>

fun HandleClient :: "server_env \<Rightarrow> string list \<Rightarrow> string \<Rightarrow> server \<Rightarrow> server_error + string \<times> string \<times> server" where
  "HandleClient env [] buf sv = Inr ([], buf, sv)"
| "HandleClient env (chunk # chunks) buf sv =
     bind_reply (process_lines env (buf @ takeWhile (\<lambda>c. c \<noteq> CHR 0x00) chunk) sv) (\<lambda>(out, rest, sv').
     bind_reply (HandleClient env chunks rest sv') (\<lambda>(out', rest', sv'').
     Inr (out @ out', rest', sv'')))"

section \<open>Requests are read back\<close>

lemma split_strings_none: "dq \<notin> set x \<Longrightarrow> split_strings x = []"
proof -
  assume "dq \<notin> set x"
  then have none: "dropWhile (\<lambda>c. c \<noteq> dq) x = []"
    by (auto simp: dropWhile_eq_Nil_conv)
  show ?thesis
    by (subst split_strings.simps) (simp only: none list.case)
qed

lemma split_strings_quoted:
  assumes "dq \<notin> set x"
  shows "split_strings (dq # x @ dq # r) = x # split_strings r"
  using assms by (subst split_strings.simps) (simp add: dropWhile_before takeWhile_before)

lemma split_strings_comma: "split_strings (CHR '','' # r) = split_strings r"
  by (subst (1 2) split_strings.simps) simp

lemma split_join:
  assumes "\<forall>x \<in> set xs. dq \<notin> set x"
  shows "split_strings (join (map quoted xs)) = xs"
  using assms
proof (induction xs rule: join.induct)
  case (2 x)
  then show ?case
    using split_strings_quoted [of x "[]"] by (simp add: quoted_def split_strings_none)
next
  case (3 x y ys)
  then show ?case
    using split_strings_quoted [of x "CHR '','' # join (map quoted (y # ys))"] by (simp add: quoted_def [abs_def] split_strings_comma)
qed (simp add: split_strings_none)

lemma set_join: "set (join xs) \<subseteq> insert (CHR '','') (\<Union> (set ` set xs))"
  by (induction xs rule: join.induct) auto

text \<open>
  Property C23. A request is read back: for a command name without double quotes and arguments with neither double quotes
  nor closing brackets, parsing what \<open>ToJson\<close> prints gives the same command, whatever else the strings contain (also
  when the command is called \<^verbatim>\<open>args\<close>).
\<close>

theorem debug_command_roundtrip:
  assumes "dq \<notin> set (dc_cmd c)" "\<forall>a \<in> set (dc_args c). dq \<notin> set a \<and> CHR '']'' \<notin> set a"
  shows "DebugCommand_Parse (DebugCommand_ToJson c) = c"
proof -
  let ?arr = "join (map quoted (dc_args c))"
  let ?args = "dq # ''args'' @ dq # ('':['' @ ?arr @ '']}'')"
  have json: "DebugCommand_ToJson c = ''{'' @ (dq # ''cmd'' @ dq # ('':'' @ (dq # dc_cmd c @ dq # ('','' @ ?args))))"
    by (simp add: DebugCommand_ToJson_def js_def)
  have "ExtractJsonString (DebugCommand_ToJson c) ''cmd'' = dc_cmd c"
  proof -
    have "after (dq # ''cmd'' @ [dq]) (DebugCommand_ToJson c) = Some ('':'' @ (dq # dc_cmd c @ dq # ('','' @ ?args)))"
      unfolding json using after_skip [of dq "''{''" "''cmd'' @ [dq]"] after_token [of "''cmd''" "''cmd''"] by simp
    then show ?thesis
      using assms(1) by (simp add: ExtractJsonString_def blank_def takeWhile_before)
  qed
  moreover have "ExtractJsonArray (DebugCommand_ToJson c) ''args'' = dc_args c"
  proof -
    have bracket: "CHR '']'' \<notin> set ?arr"
      using set_join [of "map quoted (dc_args c)"] assms(2) by (fastforce simp: quoted_def split: if_splits)
    have split: "split_strings (takeWhile (\<lambda>c. c \<noteq> CHR '']'') (?arr @ '']}'')) = dc_args c"
      using takeWhile_before [OF bracket, of "''}''"] split_join [of "dc_args c"] assms(2) by simp
    have tok: "after (dq # ''args'' @ [dq]) (dq # n @ dq # r) = (if n = ''args'' then Some r else after (dq # ''args'' @ [dq]) (dq # r))"
      if "dq \<notin> set n" for n r
      using that by (rule after_token) simp
    have "after (dq # ''args'' @ [dq]) (DebugCommand_ToJson c) =
        (if dc_cmd c = ''args'' then Some ('','' @ ?args) else Some ('':['' @ ?arr @ '']}''))"
      unfolding json using assms(1) tok [of "''cmd''"] tok [of "'':''"] tok [of "dc_cmd c"] tok [of "'',''"] tok [of "''args''"]
        after_skip [of dq "''{''" "''args'' @ [dq]"] by simp
    moreover have "after ''['' ('','' @ ?args) = Some (?arr @ '']}'')" "after ''['' ('':['' @ ?arr @ '']}'') = Some (?arr @ '']}'')"
      using after_char [of "CHR ''[''" "'','' @ dq # ''args'' @ [dq] @ '':''" "?arr @ '']}''"] by simp_all
    ultimately show ?thesis
      using split by (simp add: ExtractJsonArray_def)
  qed
  ultimately show ?thesis
    by (simp add: DebugCommand_Parse_def)
qed

theorem debug_command_roundtrip_witness:
  "DebugCommand_Parse (DebugCommand_ToJson \<lparr>dc_cmd = ''read'', dc_args = [''0x80000000'', ''256'']\<rparr>) = \<lparr>dc_cmd = ''read'', dc_args = [''0x80000000'', ''256'']\<rparr>"
  by (rule debug_command_roundtrip) simp_all

section \<open>Connections\<close>

lemma bind_reply_simps [simp]: "bind_reply (Inl e) f = Inl e" "bind_reply (Inr x) f = f x"
  by (simp_all add: bind_reply_def)

lemma bind_reply_assoc: "bind_reply (bind_reply m f) g = bind_reply m (\<lambda>x. bind_reply (f x) g)"
  by (cases m) simp_all

text \<open>Answering a buffer and then what is left of it together with more input is answering all of it at once.\<close>

lemma process_lines_append:
  "process_lines env (buf @ extra) sv =
     bind_reply (process_lines env buf sv) (\<lambda>(out, rest, sv').
     bind_reply (process_lines env (rest @ extra) sv') (\<lambda>(out', rest', sv''). Inr (out @ out', rest', sv'')))"
proof (induction env buf sv rule: process_lines.induct)
  case (1 env buf sv)
  show ?case
  proof (cases "nl \<in> set buf")
    case True
    then obtain x r where buf: "buf = x @ nl # r" and x: "nl \<notin> set x"
      by (metis split_list_first)
    show ?thesis
    proof (cases "handle_line env x sv")
      case (Inl err)
      then show ?thesis
        using x by (subst (1 2) process_lines.simps) (simp add: buf takeWhile_before dropWhile_before)
    next
      case (Inr y)
      then obtain out sv' where h: "handle_line env x sv = Inr (out, sv')"
        by (cases y) auto
      have "process_lines env (buf @ extra) sv =
          bind_reply (process_lines env (r @ extra) sv') (\<lambda>(out', rest, sv''). Inr (out @ out', rest, sv''))"
        using x h by (subst process_lines.simps) (simp add: buf takeWhile_before dropWhile_before)
      also have "\<dots> = bind_reply (process_lines env r sv') (\<lambda>(out1, rest, sv1).
          bind_reply (process_lines env (rest @ extra) sv1) (\<lambda>(out2, rest', sv2). Inr (out @ out1 @ out2, rest', sv2)))"
        using 1 [OF True, of sv'] x h
        by (simp add: buf takeWhile_before dropWhile_before bind_reply_assoc case_prod_unfold)
      also have "\<dots> = bind_reply (process_lines env buf sv) (\<lambda>(out, rest, sv').
          bind_reply (process_lines env (rest @ extra) sv') (\<lambda>(out', rest', sv''). Inr (out @ out', rest', sv'')))"
        using x h by (subst (3) process_lines.simps) (simp add: buf takeWhile_before dropWhile_before bind_reply_assoc case_prod_unfold)
      finally show ?thesis .
    qed
  next
    case False
    then have "process_lines env buf sv = Inr ([], buf, sv)"
      by (subst process_lines.simps) simp
    then show ?thesis
      by (cases "process_lines env (buf @ extra) sv") auto
  qed
qed

lemma process_lines_rest:
  "process_lines env buf sv = Inr (out, rest, sv') \<Longrightarrow> process_lines env rest sv' = Inr ([], rest, sv')"
proof (induction env buf sv arbitrary: out rest sv' rule: process_lines.induct)
  case (1 env buf sv)
  show ?case
  proof (cases "nl \<in> set buf")
    case True
    then show ?thesis
      using 1 by (subst (asm) (3) process_lines.simps) (auto simp: bind_reply_def split: sum.splits)
  next
    case False
    then show ?thesis
      using "1.prems" by (subst (asm) process_lines.simps) (subst process_lines.simps, simp)
  qed
qed

text \<open>
  Property C14. What a client gets, and what its commands do, does not depend on how the bytes of its requests arrive: reading them
  in any chunks, cut anywhere, gives the same answers, the same unfinished line and the same state as reading them at once.
\<close>

theorem client_chunks_do_not_matter:
  assumes "\<forall>chunk \<in> set chunks. CHR 0x00 \<notin> set chunk"
  shows "HandleClient env chunks [] sv = HandleClient env [concat chunks] [] sv"
proof -
  have nul: "takeWhile (\<lambda>c. c \<noteq> CHR 0x00) x = x" if "CHR 0x00 \<notin> set x" for x :: string
    using that by (auto simp: takeWhile_eq_all_conv)
  have all: "HandleClient env chunks buf sv = process_lines env (buf @ concat chunks) sv"
    if "process_lines env buf sv = Inr ([], buf, sv)" for buf sv
    using assms that
  proof (induction chunks arbitrary: buf sv)
    case (Cons chunk chunks)
    have one: "process_lines env (buf @ takeWhile (\<lambda>c. c \<noteq> CHR 0x00) chunk) sv = process_lines env (buf @ chunk) sv"
      using Cons.prems(1) by (subst nul) simp_all
    show ?case
    proof (cases "process_lines env (buf @ chunk) sv")
      case (Inl err)
      then show ?thesis
        using process_lines_append [of env "buf @ chunk" "concat chunks" sv] by (simp add: one)
    next
      case (Inr y)
      then obtain out rest sv' where p: "process_lines env (buf @ chunk) sv = Inr (out, rest, sv')"
        by (cases y) auto
      have "HandleClient env chunks rest sv' = process_lines env (rest @ concat chunks) sv'"
        using Cons.IH Cons.prems(1) process_lines_rest [OF p] by simp
      then show ?thesis
        using process_lines_append [of env "buf @ chunk" "concat chunks" sv] by (simp add: one p)
    qed
  qed simp
  have "process_lines env [] sv = Inr ([], [], sv)"
    by (subst process_lines.simps) simp
  then have "HandleClient env chunks [] sv = process_lines env (concat chunks) sv"
    using all [of "[]" sv] by simp
  moreover have "CHR 0x00 \<notin> set (concat chunks)"
    using assms by auto
  then have "HandleClient env [concat chunks] [] sv = bind_reply (process_lines env (concat chunks) sv) Inr"
    by (simp only: HandleClient.simps append_Nil nul not_False_eq_True bind_reply_simps case_prod_unfold append_Nil2 prod.sel prod.collapse)
  ultimately show ?thesis
    by (cases "process_lines env (concat chunks) sv") simp_all
qed

definition sample_env :: server_env where
  "sample_env = \<lparr>bp_order = \<lambda>_. [], clock = 0\<rparr>"

definition sample_server :: server where
  "sample_server = \<lparr>sv_dbg = EmuDebugger_init, sv_trace = TraceEngine_init True\<rparr>"

theorem client_chunks_do_not_matter_witness:
  "HandleClient sample_env [''{'', dq # ''cmd'' @ [dq], '':'' @ quoted ''pause'', ''}'' @ [nl]] [] sample_server =
     HandleClient sample_env [concat [''{'', dq # ''cmd'' @ [dq], '':'' @ quoted ''pause'', ''}'' @ [nl]]] [] sample_server"
  by (rule client_chunks_do_not_matter) (simp add: quoted_def)

section \<open>Memory through the server\<close>

lemma stoi16_hex2: "stoi16 (hex2 b) = Inr (uint b)"
proof -
  have b: "unat b div 16 < 16" "unat b mod 16 < 16"
    using unsigned_less [of b, where ?'a = nat] by simp_all
  have "parse_number 16 (hex2 b) = Some (False, unat b div 16 * 16 + unat b mod 16)"
    using b by (simp add: parse_number_def hex2_def digit_facts starts_def pick_base_def hex_prefix_def digit_in_digit number_of_def)
  moreover have "unat b < 256"
    using unsigned_less [of b, where ?'a = nat] by simp
  ultimately show ?thesis
    by (simp add: stoi16_def)
qed

lemma hex_bytes_hex2: "hex_bytes (concat (map hex2 bs)) = Inr bs"
proof (induction bs)
  case (Cons b bs)
  have "hex2 b @ concat (map hex2 bs) = hex2 b ! 0 # hex2 b ! 1 # concat (map hex2 bs)" "[hex2 b ! 0, hex2 b ! 1] = hex2 b"
    by (simp_all add: hex2_def)
  then have "hex_bytes (hex2 b @ concat (map hex2 bs)) = bind_reply (stoi16 (hex2 b)) (\<lambda>v. bind_reply (hex_bytes (concat (map hex2 bs))) (\<lambda>bs. Inr (of_int v # bs)))"
    by (metis hex_bytes.simps(1))
  then show ?case
    using Cons stoi16_hex2 [of b] by simp
qed simp

lemma write_bytes_store:
  assumes "unat a + length bs \<le> 2 ^ 32"
  shows "write_bytes m a bs = (True, store_loop try_write m a bs) \<and> base_addr (store_loop try_write m a bs) = base_addr m"
  using assms
proof (induction bs arbitrary: m a)
  case (Cons b bs)
  have w: "Write m a [b] = Inr (try_write m a [b])"
    using try_write_cases [of m a b] Cons.prems by auto
  have "unat (a + 1) + length bs \<le> 2 ^ 32"
    using Cons.prems by (simp add: unat_word_ariths)
  then show ?case
    using Cons.IH [of "a + 1" "try_write m a [b]"] w Write_Inr(2) [OF w] by simp
qed simp

text \<open>
  Property C15. Memory written through the debug server is read back through it: after a write of up to 4096 bytes, given as
  hexadecimal text, inside the guest's address space, the read command answers with the same text.
\<close>

theorem debug_write_read:
  assumes "d_memory (sv_dbg sv) = Some m" "ParseHex a = Inr addr" "ParseHex n = Inr (of_nat (length bs))"
    and "0 < length bs" "length bs \<le> 4096" "unat (addr - base_addr m) + length bs \<le> 2 ^ 32"
  shows "\<exists>sv'. CmdWrite [a, concat (map hex2 bs)] sv = Inr (answered (js ''{`written`:'' @ digits 10 (length bs) @ ''}''), sv') \<and>
    CmdRead [a, n] sv' = Inr (answered (js ''{`addr`:`0x'' @ hex_str addr @ js ''`,`size`:'' @ digits 10 (length bs) @ js '',`hex`:`'' @
      concat (map hex2 bs) @ js ''`}''), sv')"
proof -
  let ?rel = "addr - base_addr m"
  let ?m = "store_loop try_write m ?rel bs"
  let ?sv = "sv\<lparr>sv_dbg := (sv_dbg sv)\<lparr>d_memory := Some ?m\<rparr>\<rparr>"
  note st = write_bytes_store [OF assms(6), of m]
  have "WriteMemory addr bs (sv_dbg sv) = (True, (sv_dbg sv)\<lparr>d_memory := Some ?m\<rparr>)"
    using assms(1) st by (simp add: WriteMemory_def ToGuestRel_def)
  then have "CmdWrite [a, concat (map hex2 bs)] sv = Inr (answered (js ''{`written`:'' @ digits 10 (length bs) @ ''}''), ?sv)"
    using assms(2) by (simp add: CmdWrite_def hex_bytes_hex2)
  moreover have "read_size (of_nat (length bs)) = length bs"
    using assms(4,5) by (auto simp: read_size_def word_less_nat_alt unsigned_of_nat take_bit_nat_eq_self dest!: arg_cong [of _ 0 unat])
  moreover have "ReadMemory addr (length bs) (sv_dbg ?sv) = bs"
    using guest.load_store [OF assms(6), of m] st by (simp add: ReadMemory_def ToGuestRel_def)
  ultimately show ?thesis
    using assms(2,3) by (intro exI [of _ ?sv]) (simp add: CmdRead_def)
qed

theorem debug_write_read_witness:
  "\<exists>sv'. CmdWrite [''16'', concat (map hex2 [0xDE, 0xAD])] (sample_server\<lparr>sv_dbg := EmuDebugger_init\<lparr>d_memory := Some (Memory_init (\<lambda>_. 0)\<lparr>base_addr := 0\<rparr>)\<rparr>\<rparr>) =
      Inr (answered (js ''{`written`:'' @ digits 10 (length [0xDE, 0xAD :: u8]) @ ''}''), sv') \<and>
    CmdRead [''16'', ''2''] sv' = Inr (answered (js ''{`addr`:`0x'' @ hex_str (16 :: u64) @ js ''`,`size`:'' @ digits 10 (length [0xDE, 0xAD :: u8]) @
      js '',`hex`:`'' @ concat (map hex2 [0xDE, 0xAD]) @ js ''`}''), sv')"
proof (rule debug_write_read)
  have "parse_number 0 ''16'' = Some (False, 16)" "parse_number 0 ''2'' = Some (False, 2)"
    by code_simp+
  show "d_memory (sv_dbg (sample_server\<lparr>sv_dbg := EmuDebugger_init\<lparr>d_memory := Some (Memory_init (\<lambda>_. 0)\<lparr>base_addr := 0\<rparr>)\<rparr>\<rparr>)) =
      Some (Memory_init (\<lambda>_. 0)\<lparr>base_addr := 0\<rparr>)"
    by simp
  show "ParseHex ''16'' = Inr 16" "ParseHex ''2'' = Inr (of_nat (length [0xDE, 0xAD :: u8]))"
    using \<open>parse_number 0 ''16'' = Some (False, 16)\<close> \<open>parse_number 0 ''2'' = Some (False, 2)\<close> by (simp_all add: ParseHex_def)
qed simp_all

section \<open>Registers by name\<close>

definition fields_text :: "(string \<times> u64) list \<Rightarrow> string" where
  "fields_text fs = join (map (\<lambda>(n, v). hex_field n v) fs) @ ''}''"

lemma fields_text_Cons:
  "fields_text ((n, v) # fs) = dq # n @ dq # ('':'' @ (dq # (''0x'' @ hex_str v) @ dq # (if fs = [] then ''}'' else '','' @ fields_text fs)))"
  by (cases fs) (simp_all add: fields_text_def hex_field_def quoted_def)

lemma field_found:
  assumes "dq \<notin> set k" "k \<notin> {'':'', '',''}" "\<not> starts ''0x'' k" "\<forall>(n, v) \<in> set fs. dq \<notin> set n" "map_of fs k = Some v"
  shows "\<exists>rest. after (dq # k @ [dq]) (fields_text fs) = Some ('':'' @ (dq # (''0x'' @ hex_str v) @ dq # rest))"
  using assms(4,5)
proof (induction fs)
  case (Cons f fs)
  obtain n w where f: "f = (n, w)"
    by (cases f)
  have hex: "dq \<notin> set (''0x'' @ hex_str x)" "''0x'' @ hex_str x \<noteq> k" for x :: u64
    using digits_no_quote [of 16 "unat x"] assms(3) by (auto simp: hex_str_def)
  note tok = after_token [OF _ assms(1)]
  show ?case
  proof (cases "n = k")
    case True
    then show ?thesis
      using Cons.prems tok [of n] by (auto simp: f fields_text_Cons)
  next
    case False
    then have found: "map_of fs k = Some v" and "fs \<noteq> []"
      using Cons.prems by (auto simp: f)
    then obtain m x gs where fs: "fs = (m, x) # gs"
      by (cases fs) auto
    obtain r where r: "fields_text fs = dq # r"
      by (simp add: fs fields_text_Cons)
    have skip: "after (dq # k @ [dq]) (dq # x @ dq # y) = after (dq # k @ [dq]) (dq # y)" if "x \<noteq> k" "dq \<notin> set x" for x y
      using after_token [OF that(2) assms(1), of y] that(1) by (simp only: if_False)
    have flds: "fields_text (f # fs) = dq # n @ dq # ('':'' @ dq # ((''0x'' @ hex_str w) @ dq # ('','' @ dq # r)))"
      using \<open>fs \<noteq> []\<close> by (simp add: f fields_text_Cons r)
    have "after (dq # k @ [dq]) (fields_text (f # fs)) = after (dq # k @ [dq]) (dq # ('':'' @ dq # ((''0x'' @ hex_str w) @ dq # ('','' @ dq # r))))"
      unfolding flds using False Cons.prems(1) by (intro skip) (auto simp: f)
    also have "\<dots> = after (dq # k @ [dq]) (dq # ((''0x'' @ hex_str w) @ dq # ('','' @ dq # r)))"
      using assms(2) by (intro skip) auto
    also have "\<dots> = after (dq # k @ [dq]) (dq # ('','' @ dq # r))"
      using hex by (intro skip) auto
    also have "\<dots> = after (dq # k @ [dq]) (fields_text fs)"
      unfolding r using assms(2) by (intro skip) auto
    finally have "after (dq # k @ [dq]) (fields_text (f # fs)) = after (dq # k @ [dq]) (fields_text fs)" .
    then show ?thesis
      using Cons.IH [OF _ found] Cons.prems(1) by simp
  qed
qed simp

lemma field_value:
  assumes "dq \<notin> set k" "k \<notin> {'':'', '',''}" "\<not> starts ''0x'' k" "\<forall>(n, v) \<in> set fs. dq \<notin> set n" "map_of fs k = Some v"
  shows "ExtractJsonString (''{'' @ fields_text fs) k = ''0x'' @ hex_str v"
proof -
  obtain rest where "after (dq # k @ [dq]) (fields_text fs) = Some ('':'' @ (dq # (''0x'' @ hex_str v) @ dq # rest))"
    using field_found [OF assms] by blast
  moreover have "dq \<notin> set (''0x'' @ hex_str v)"
    using digits_no_quote [of 16 "unat v"] by (simp add: hex_str_def)
  ultimately show ?thesis
    using takeWhile_before [of dq "''0x'' @ hex_str v" rest] by (simp add: ExtractJsonString_def blank_def)
qed

text \<open>
  The answer to \<^verbatim>\<open>regs\<close> misnames registers: the numbers in the names are hexadecimal from the second on, so that what a
  client finds under \<open>x10\<close> to \<open>x19\<close> are the registers 16 to 25.
\<close>

theorem registers_misnamed:
  assumes "k < 10" "CmdRegs sv = Inr (resp, sv')"
  shows "ExtractJsonString (resp_data resp) (''x'' @ digits 10 (10 + k)) = ''0x'' @ hex_str (snap_x (last_regs (sv_dbg sv)) ! (16 + k))"
proof -
  let ?r = "last_regs (sv_dbg sv)"
  let ?fs = "map (\<lambda>i. (reg_name i, snap_x ?r ! i)) [0..<31] @ [(''sp'', snap_sp ?r), (''pc'', snap_pc ?r), (''pstate'', snap_pstate ?r)]"
  have tens: "(10 + k) div 10 = 1" "(16 + k) div 16 = 1"
    using assms(1) by simp_all
  have name: "''x'' @ digits 10 (10 + k) = reg_name (16 + k)"
    using assms(1) by (simp add: reg_name_def digits.simps [of _ "_ + k"] tens digits.simps [of _ 1] digits.simps [of _ "Suc 0"])
  have "distinct (map reg_name [0..<31])"
    by code_simp
  then have "map_of (map (\<lambda>i. (reg_name i, snap_x ?r ! i)) [0..<31]) (reg_name j) = Some (snap_x ?r ! j)" if "j < 31" for j
    using that by (intro map_of_is_SomeI) (auto simp: comp_def)
  then have "map_of ?fs (reg_name (16 + k)) = Some (snap_x ?r ! (16 + k))"
    using assms(1) by (simp add: map_add_Some_iff)
  moreover have quotes: "dq \<notin> set (reg_name i)" for i
    by (simp add: reg_name_def digits_no_quote)
  moreover have "reg_name (16 + k) \<notin> {'':'', '',''}" "\<not> starts ''0x'' (reg_name (16 + k))"
    by (simp_all add: reg_name_def)
  moreover have "\<forall>(n, v) \<in> set ?fs. dq \<notin> set n"
    using quotes by auto
  ultimately have "ExtractJsonString (''{'' @ fields_text ?fs) (reg_name (16 + k)) = ''0x'' @ hex_str (snap_x ?r ! (16 + k))"
    by (intro field_value)
  moreover have "resp_data resp = ''{'' @ fields_text ?fs"
    using assms(2) by (auto simp: CmdRegs_def answered_def regs_text_def fields_text_def comp_def)
  ultimately show ?thesis
    by (simp only: name)
qed

theorem registers_misnamed_witness:
  "ExtractJsonString (resp_data (answered (regs_text (last_regs (sv_dbg sample_server))))) (''x'' @ digits 10 (10 + 2)) =
     ''0x'' @ hex_str (snap_x (last_regs (sv_dbg sample_server)) ! (16 + 2))"
  by (rule registers_misnamed) (simp_all add: CmdRegs_def)

text \<open>A request with something that is no number where one is expected ends the emulator.\<close>

lemma bad_number_ends_process:
  assumes "s \<noteq> []" "\<not> is_space (hd s)" "digit_value (hd s) = None" "hd s \<notin> {CHR ''-'', CHR ''+''}"
  shows "CmdBreak [s] sv = Inl Thrown" "CmdRead [s, n] sv = Inl Thrown"
proof -
  obtain c cs where s: "s = c # cs"
    using assms(1) by (cases s) auto
  have "digit_value (CHR ''0'') = Some 0"
    by (simp add: digit_value_def of_char_def)
  then have "\<not> hex_prefix s"
    using assms(3) by (auto simp: s hex_prefix_def)
  then have "parse_number 0 s = None"
    using assms(2-4) by (auto simp: s parse_number_def pick_base_def digit_in_def Let_def)
  then have "ParseHex s = Inl Thrown"
    by (simp add: ParseHex_def)
  then show "CmdBreak [s] sv = Inl Thrown" "CmdRead [s, n] sv = Inl Thrown"
    by (simp_all add: CmdBreak_def CmdRead_def)
qed

end
