(* ===== verification/KeyManager.thy ===== *)
theory KeyManager
  imports TextFormat
begin

unbundle bit_operations_syntax

text \<open>
  Key files: \<^verbatim>\<open>src/src/loader/KeyManager.cpp\<close> and \<^verbatim>\<open>KeyManager.h\<close>. The file system and the environment variable \<^verbatim>\<open>HOME\<close> are
  parameters: \<open>files path\<close> is the contents of a file that can be opened.
\<close>

section \<open>State and hexadecimal text\<close>

record KeyManager =
  keys :: "string \<rightharpoonup> u8 list"
  revision :: u64

definition new_keys :: KeyManager where
  "new_keys = \<lparr>keys = Map.empty, revision = 0\<rparr>"

definition nibble :: "char \<Rightarrow> nat option" where
  "nibble c = (case digit_value c of Some d \<Rightarrow> if d < 16 then Some d else None | None \<Rightarrow> None)"

text \<open>A pair with something else than two hexadecimal digits is left out.\<close>

fun KeyManager_ParseHex :: "string \<Rightarrow> u8 list" where
  "KeyManager_ParseHex (a # b # cs) =
     (case (nibble a, nibble b) of
        (Some high, Some low) \<Rightarrow> (push_bit 4 (of_nat high) OR of_nat low) # KeyManager_ParseHex cs
      | _ \<Rightarrow> KeyManager_ParseHex cs)"
| "KeyManager_ParseHex _ = []"

section \<open>Loading\<close>

definition trim_back :: "string \<Rightarrow> string" where
  "trim_back s = rev (dropWhile is_space (rev s))"

definition key_line :: "string \<Rightarrow> KeyManager \<times> u32 \<Rightarrow> KeyManager \<times> u32" where
  "key_line line s =
     (case s of (km, loaded) \<Rightarrow>
        if line = [] \<or> hd line = CHR ''#'' \<or> hd line = CHR '';'' \<or> CHR ''='' \<notin> set line then s
        else
          let name = trim_back (takeWhile (\<lambda>c. c \<noteq> CHR ''='') line);
              val = dropWhile is_space (trim_back (drop 1 (dropWhile (\<lambda>c. c \<noteq> CHR ''='') line)));
              key = KeyManager_ParseHex val
          in if length val \<ge> 32 \<and> length key = 16 then (km\<lparr>keys := (keys km)(name \<mapsto> key)\<rparr>, loaded + 1) else s)"

definition load_keys :: "string \<Rightarrow> KeyManager \<Rightarrow> KeyManager \<times> u32" where
  "load_keys text km = fold key_line (file_lines text) (km, 0)"

definition KeyManager_LoadFromFile :: "(string \<rightharpoonup> string) \<Rightarrow> string \<Rightarrow> KeyManager \<Rightarrow> bool \<times> KeyManager" where
  "KeyManager_LoadFromFile files path km =
     (case files path of
        None \<Rightarrow> (False, km)
      | Some text \<Rightarrow> (let (km', loaded) = load_keys text km in (loaded > 0, km')))"

definition GetSearchPaths :: "string option \<Rightarrow> string list" where
  "GetSearchPaths home =
     (case home of Some h \<Rightarrow> [h @ ''/.switch/prod.keys'', h @ ''/.switch/keys.txt''] | None \<Rightarrow> []) @ [''prod.keys'', ''keys.txt'']"

section \<open>Lookup\<close>

definition HasKey :: "string \<Rightarrow> KeyManager \<Rightarrow> bool" where
  "HasKey name km \<longleftrightarrow> keys km name \<noteq> None"

definition GetKey :: "string \<Rightarrow> KeyManager \<Rightarrow> u8 list" where
  "GetKey name km = (case keys km name of Some k \<Rightarrow> k | None \<Rightarrow> [])"

definition SetKey :: "string \<Rightarrow> u8 list \<Rightarrow> KeyManager \<Rightarrow> KeyManager" where
  "SetKey name key km = km\<lparr>keys := (keys km)(name \<mapsto> key)\<rparr>"

definition HasHeaderKey :: "KeyManager \<Rightarrow> bool" where
  "HasHeaderKey km = HasKey ''header_key'' km"

definition GetHeaderKey :: "KeyManager \<Rightarrow> u8 list" where
  "GetHeaderKey km = GetKey ''header_key'' km"

fun load_paths :: "(string \<rightharpoonup> string) \<Rightarrow> string list \<Rightarrow> KeyManager \<Rightarrow> bool \<times> KeyManager" where
  "load_paths files [] km = (False, km)"
| "load_paths files (p # ps) km =
     (let (ok, km') = KeyManager_LoadFromFile files p km
      in if ok \<and> (HasHeaderKey km' \<or> HasKey ''key_area_key_application_00'' km') then (True, km') else load_paths files ps km')"

definition LoadFromDefaultPaths :: "(string \<rightharpoonup> string) \<Rightarrow> string option \<Rightarrow> KeyManager \<Rightarrow> bool \<times> KeyManager" where
  "LoadFromDefaultPaths files home km = load_paths files (GetSearchPaths home) km"

definition generation_suffix :: "u8 \<Rightarrow> string" where
  "generation_suffix g = (if g > 0 then ''_'' @ dec_str g else [])"

definition GetKeyAreaKey :: "u8 \<Rightarrow> u8 \<Rightarrow> KeyManager \<Rightarrow> u8 list" where
  "GetKeyAreaKey index generation km =
     (let key_names = [''key_area_key_application_00'', ''key_area_key_application_01'', ''key_area_key_application_02'',
            ''key_area_key_application_03''];
          name = key_names ! unat index @ generation_suffix generation;
          gname = ''key_area_key_application_'' @ hex2 index @ generation_suffix generation
      in if index < 4 \<and> HasKey name km then GetKey name km
         else if HasKey gname km then GetKey gname km
         else [])"

section \<open>Key files are read back\<close>

lemma parse_hex2: "KeyManager_ParseHex (concat (map hex2 bs)) = bs"
proof (induction bs)
  case (Cons b bs)
  have b: "unat b div 16 < 16" "unat b mod 16 < 16"
    using unsigned_less [of b, where ?'a = nat] by simp_all
  have "(push_bit 4 (of_nat (unat b div 16)) OR of_nat (unat b mod 16) :: u8) = b"
  proof -
    have "of_nat (unat b div 16) = b div 16" "of_nat (unat b mod 16) = b mod 16"
      by (simp_all add: word_arith_nat_div word_arith_nat_mod)
    moreover have "b div 16 = drop_bit 4 b" "b mod 16 = take_bit 4 b"
      by (simp_all add: drop_bit_eq_div take_bit_eq_mod)
    ultimately show ?thesis
      by (simp add: disjunctive_add [symmetric] bit_simps) (rule bits_ident)
  qed
  then show ?case
    using Cons b by (simp add: hex2_def nibble_def digit_facts)
qed simp

definition key_text :: "string \<times> u8 list \<Rightarrow> string" where
  "key_text e = fst e @ '' = '' @ concat (map hex2 (snd e)) @ [nl]"

definition good_name :: "string \<Rightarrow> bool" where
  "good_name n \<longleftrightarrow> n \<noteq> [] \<and> hd n \<noteq> CHR ''#'' \<and> hd n \<noteq> CHR '';'' \<and> CHR ''='' \<notin> set n \<and> nl \<notin> set n \<and> \<not> is_space (last n)"

lemma hex_text_chars:
  assumes "c \<in> set (concat (map hex2 bs))"
  shows "\<not> is_space c" "c \<noteq> nl" "c \<noteq> CHR ''=''"
proof -
  have u: "unat (b :: u8) div 16 < 16" "unat (b :: u8) mod 16 < 16" for b
    using unsigned_less [of b, where ?'a = nat] by simp_all
  obtain d where d: "c = digit d" "d < 16"
    using assms u by (auto simp: hex2_def)
  have "is_space nl" "digit_value (CHR ''='') = None"
    by code_simp+
  then show "\<not> is_space c" "c \<noteq> nl" "c \<noteq> CHR ''=''"
    using digit_facts(1,2) [OF d(2)] d(1) by auto
qed

lemma hex_text_ends:
  assumes "k \<noteq> []"
  shows "concat (map hex2 k) \<noteq> []" "\<not> is_space (last (concat (map hex2 k)))" "\<not> is_space (hd (concat (map hex2 k)))"
proof -
  show ne: "concat (map hex2 k) \<noteq> []"
    using assms by (cases k) (simp_all add: hex2_def)
  show "\<not> is_space (last (concat (map hex2 k)))" "\<not> is_space (hd (concat (map hex2 k)))"
    by (rule hex_text_chars(1) [OF last_in_set [OF ne]], rule hex_text_chars(1) [OF hd_in_set [OF ne]])
qed

lemma dropWhile_hd: "s \<noteq> [] \<Longrightarrow> \<not> is_space (hd s) \<Longrightarrow> dropWhile is_space s = s"
  by (cases s) simp_all

lemma trim_back_last: "s \<noteq> [] \<Longrightarrow> \<not> is_space (last s) \<Longrightarrow> trim_back s = s"
  by (cases s rule: rev_cases) (simp_all add: trim_back_def)

lemma key_line_text:
  assumes "good_name n" "length k = 16"
  shows "key_line (n @ '' = '' @ concat (map hex2 k)) (km, l) = (km\<lparr>keys := (keys km)(n \<mapsto> k)\<rparr>, l + 1)"
proof -
  let ?hex = "concat (map hex2 k)"
  have len: "length ?hex = 32"
    using assms(2) by (simp add: length_concat comp_def hex2_def sum_list_triv)
  have "k \<noteq> []"
    using assms(2) by auto
  note ne = hex_text_ends [OF this]
  have sp: "is_space (CHR '' '')"
    by (simp add: is_space_def)
  have parts: "takeWhile (\<lambda>c. c \<noteq> CHR ''='') (n @ '' = '' @ ?hex) = n @ '' ''"
    "dropWhile (\<lambda>c. c \<noteq> CHR ''='') (n @ '' = '' @ ?hex) = CHR ''='' # CHR '' '' # ?hex"
    using takeWhile_before [of "CHR ''=''" "n @ '' ''" "CHR '' '' # ?hex"] dropWhile_before [of "CHR ''=''" "n @ '' ''" "CHR '' '' # ?hex"] assms(1)
    by (simp_all add: good_name_def)
  have name: "trim_back (n @ '' '') = n"
    using trim_back_last [of n] assms(1) sp by (simp add: trim_back_def good_name_def)
  have "trim_back (CHR '' '' # ?hex) = CHR '' '' # ?hex"
    by (rule trim_back_last) (simp_all only: last_ConsR [OF ne(1)] ne(2) list.distinct simp_thms)
  then have val: "dropWhile is_space (trim_back (CHR '' '' # ?hex)) = ?hex"
    using dropWhile_hd [OF ne(1,3)] sp by simp
  have hd: "hd (n @ '' = '' @ ?hex) = hd n" "n @ '' = '' @ ?hex \<noteq> []" "CHR ''='' \<in> set (n @ '' = '' @ ?hex)"
    "drop 1 (CHR ''='' # CHR '' '' # ?hex) = CHR '' '' # ?hex"
    using assms(1) by (simp_all add: good_name_def)
  have key: "length ?hex \<ge> 32" "length (KeyManager_ParseHex ?hex) = 16"
    using len assms(2) by (simp_all add: parse_hex2)
  have "hd n \<noteq> CHR ''#''" "hd n \<noteq> CHR '';''"
    using assms(1) by (simp_all add: good_name_def)
  then show ?thesis
    unfolding key_line_def Let_def parts hd(4) name val prod.case using hd key by (simp only: parse_hex2 simp_thms if_True if_False)
qed

text \<open>
  Property C33. A key file is read back: from the lines \<^verbatim>\<open>name = hex\<close> of any list of 128-bit keys under well-formed names, every key
  is stored under its name, a later line for the same name replaces an earlier one, the other keys stay, and the 32-bit count of the lines is right.
\<close>

theorem key_file_roundtrip:
  assumes "\<forall>(n, k) \<in> set es. good_name n \<and> length k = 16"
  shows "load_keys (concat (map key_text es)) km = (km\<lparr>keys := keys km ++ map_of (rev es)\<rparr>, of_nat (length es))"
proof -
  have "file_lines (concat (map key_text es)) = map (\<lambda>(n, k). n @ '' = '' @ concat (map hex2 k)) es"
    using assms
  proof (induction es)
    case (Cons e es)
    obtain n k where e: "e = (n, k)"
      by (cases e)
    have "nl \<notin> set (n @ '' = '' @ concat (map hex2 k))"
      using Cons.prems hex_text_chars(2) [of nl k] by (auto simp: e good_name_def)
    then show ?case
      using Cons file_lines_Cons [of "n @ '' = '' @ concat (map hex2 k)"] by (simp add: e key_text_def)
  qed (subst file_lines.simps, simp)
  moreover have "fold key_line (map (\<lambda>(n, k). n @ '' = '' @ concat (map hex2 k)) es) (km, l) =
      (km\<lparr>keys := keys km ++ map_of (rev es)\<rparr>, l + of_nat (length es))" for km l
    using assms
  proof (induction es arbitrary: km l)
    case (Cons e es)
    obtain n k where e: "e = (n, k)"
      by (cases e)
    have "(keys km)(n \<mapsto> k) ++ map_of (rev es) = keys km ++ map_of (rev (e # es))"
      by (auto simp: e map_add_def fun_eq_iff split: option.splits)
    then show ?case
      using Cons key_line_text [of n k km l] by (simp add: e)
  qed simp
  ultimately show ?thesis
    by (simp add: load_keys_def)
qed

theorem key_file_roundtrip_witness:
  "load_keys (concat (map key_text [(''master_key_00'', replicate 16 7)])) new_keys = (new_keys\<lparr>keys := keys new_keys ++ map_of (rev [(''master_key_00'', replicate 16 7)])\<rparr>,
     of_nat (length [(''master_key_00'', replicate 16 (7 :: u8))]))"
proof (rule key_file_roundtrip)
  show "\<forall>(n, k) \<in> set [(''master_key_00'', replicate 16 (7 :: u8))]. good_name n \<and> length k = 16"
    by code_simp
qed

section \<open>Only 128-bit keys\<close>

text \<open>
  A file never brings a key of another length. The header key of the format has 256 bits (64 digits): it is
  dropped without a message, and \<open>HasHeaderKey\<close> stays false.
\<close>

lemma loaded_keys_short:
  assumes "keys (fst (load_keys text km)) n = Some k" "keys km n \<noteq> Some k"
  shows "length k = 16"
proof -
  have "keys (fst (fold key_line ls s)) n = Some k \<Longrightarrow> keys (fst s) n \<noteq> Some k \<Longrightarrow> length k = 16" for ls s
  proof (induction ls arbitrary: s)
    case (Cons l ls)
    show ?case
    proof (cases "keys (fst (key_line l s)) n = Some k")
      case True
      then show ?thesis
        using Cons.prems(2) by (auto simp: key_line_def Let_def split: prod.splits if_splits)
    next
      case False
      then show ?thesis
        using Cons by simp
    qed
  qed simp
  then show ?thesis
    using assms unfolding load_keys_def by (metis fst_conv)
qed

lemma long_key_dropped:
  assumes "length k = 32" "good_name n"
  shows "key_line (n @ ''='' @ concat (map hex2 k)) s = s"
proof -
  let ?hex = "concat (map hex2 k)"
  have "k \<noteq> []"
    using assms(1) by auto
  note ne = hex_text_ends [OF this]
  have parts: "takeWhile (\<lambda>c. c \<noteq> CHR ''='') (n @ ''='' @ ?hex) = n" "dropWhile (\<lambda>c. c \<noteq> CHR ''='') (n @ ''='' @ ?hex) = CHR ''='' # ?hex"
    using takeWhile_before [of "CHR ''=''" n] dropWhile_before [of "CHR ''=''" n] assms(2) by (simp_all add: good_name_def)
  have "dropWhile is_space (trim_back ?hex) = ?hex"
    using trim_back_last [OF ne(1,2)] dropWhile_hd [OF ne(1,3)] by simp
  moreover have "drop 1 (CHR ''='' # ?hex) = ?hex"
    by simp
  ultimately show ?thesis
    unfolding key_line_def parts Let_def using assms(1) by (cases s) (simp add: parse_hex2)
qed

end
