(* ===== verification/AesCrypto.thy ===== *)
theory AesCrypto
  imports Prelude
begin

unbundle bit_operations_syntax

text \<open>
  Block modes: \<^verbatim>\<open>src/src/loader/AesCrypto.cpp\<close>. The cipher itself belongs to the system's library and is a parameter: \<open>enc key block\<close>
  is what \<^verbatim>\<open>CCCrypt\<close> makes of one block in ECB mode, \<open>None\<close> when it fails; \<open>dec\<close> decrypts whole buffers. A function that
  returns \<^verbatim>\<open>false\<close> is \<open>None\<close>.
\<close>

section \<open>ECB\<close>

type_synonym bytes = "u8 list"
type_synonym block_cipher = "bytes \<Rightarrow> bytes \<Rightarrow> bytes option"

definition AesEcbEncryptBlock :: "block_cipher \<Rightarrow> bytes \<Rightarrow> bytes \<Rightarrow> bytes option" where
  "AesEcbEncryptBlock enc inp key =
     (case enc key inp of Some out \<Rightarrow> if length out = 16 then Some out else None | None \<Rightarrow> None)"

definition DecryptEcb :: "block_cipher \<Rightarrow> bytes \<Rightarrow> bytes \<Rightarrow> bytes option" where
  "DecryptEcb dec ciphertext key =
     (if length ciphertext mod 16 \<noteq> 0 then None
      else case dec key ciphertext of Some out \<Rightarrow> if length out = length ciphertext then Some out else None | None \<Rightarrow> None)"

section \<open>CTR\<close>

text \<open>
  Adding the number of blocks to the counter: eight rounds at most, from the last byte on. The variable \<open>carry\<close> of the
  code is set to zero in every round before it is used.
\<close>

fun add_blocks :: "nat \<Rightarrow> nat \<Rightarrow> u64 \<Rightarrow> bytes \<Rightarrow> bytes" where
  "add_blocks 0 i block_offset counter = counter"
| "add_blocks (Suc n) i block_offset counter =
     (if block_offset > 0 then
        let idx = 15 - i; carry = 0 :: u16;
            sum = ucast (counter ! idx) + ucast (block_offset AND 0xFF) + carry
        in add_blocks n (Suc i) (drop_bit 8 block_offset) (counter[idx := ucast sum])
      else counter)"

text \<open>\<^verbatim>\<open>for (int i = 15; i >= 0; i--) if (++counter[i] != 0) break;\<close>\<close>

fun incr_from :: "nat \<Rightarrow> bytes \<Rightarrow> bytes" where
  "incr_from 0 counter = counter[0 := counter ! 0 + 1]"
| "incr_from (Suc i) counter =
     (let b = counter ! Suc i + 1; counter' = counter[Suc i := b] in if b \<noteq> 0 then counter' else incr_from i counter')"

definition incr_counter :: "bytes \<Rightarrow> bytes" where
  "incr_counter = incr_from 15"

definition xor_bytes :: "bytes \<Rightarrow> bytes \<Rightarrow> bytes" where
  "xor_bytes xs ys = map (\<lambda>(x, y). x XOR y) (zip xs ys)"

function ctr_blocks :: "block_cipher \<Rightarrow> bytes \<Rightarrow> bytes \<Rightarrow> bytes \<Rightarrow> bytes option" where
  "ctr_blocks enc key counter inp =
     (if inp = [] then Some []
      else case AesEcbEncryptBlock enc counter key of
        None \<Rightarrow> None
      | Some keystream \<Rightarrow>
          map_option (\<lambda>rest. xor_bytes (take 16 inp) keystream @ rest) (ctr_blocks enc key (incr_counter counter) (drop 16 inp)))"
  by auto
termination
  by (relation "measure (\<lambda>(enc, key, counter, inp). length inp)") auto

declare ctr_blocks.simps [simp del]

definition DecryptCtr :: "block_cipher \<Rightarrow> bytes \<Rightarrow> bytes \<Rightarrow> bytes \<Rightarrow> u64 \<Rightarrow> bytes option" where
  "DecryptCtr enc ciphertext key iv off =
     (let counter = add_blocks 8 0 (off div 16) iv; byte_offset = unat (off mod 16) in
      if byte_offset > 0 then
        (case AesEcbEncryptBlock enc counter key of
           None \<Rightarrow> None
         | Some keystream \<Rightarrow>
             let first_block = min (length ciphertext) (16 - byte_offset)
             in map_option (\<lambda>rest. xor_bytes (take first_block ciphertext) (drop byte_offset keystream) @ rest)
                  (ctr_blocks enc key (incr_counter counter) (drop first_block ciphertext)))
      else ctr_blocks enc key counter ciphertext)"

section \<open>XTS\<close>

definition shift_bytes :: "bytes \<Rightarrow> bytes" where
  "shift_bytes tmp = fold (\<lambda>j tmp. tmp[j := push_bit 1 (tmp ! j) OR (if j < 15 \<and> tmp ! Suc j AND 0x80 \<noteq> 0 then 1 else 0)]) (rev [0..<16]) tmp"

definition mul_round :: "bytes \<times> bytes \<times> bool \<Rightarrow> bytes \<times> bytes \<times> bool" where
  "mul_round s =
     (case s of (dst, tmp, carry) \<Rightarrow>
        let new_carry = tmp ! 15 AND 0x80 \<noteq> 0;
            tmp' = shift_bytes tmp;
            dst' = (if carry then map (\<lambda>j. (if j = 0 then 0 else dst ! (j - 1)) XOR tmp' ! j) [0..<16] else tmp')
        in if new_carry then (tmp', dst', True) else (dst', tmp', False))"

definition MulGF128 :: "bytes \<Rightarrow> bytes \<Rightarrow> bytes" where
  "MulGF128 dst src =
     (case (mul_round ^^ 16) (dst, src, False) of (dst', tmp, carry) \<Rightarrow>
        if carry then dst'[15 := dst' ! 15 XOR 0x87] else dst')"

function xts_blocks :: "block_cipher \<Rightarrow> bytes \<Rightarrow> bytes \<Rightarrow> bytes \<Rightarrow> bytes option" where
  "xts_blocks enc key1 tweak inp =
     (if inp = [] then Some []
      else case AesEcbEncryptBlock enc (xor_bytes (take 16 inp) tweak) key1 of
        None \<Rightarrow> None
      | Some tmp \<Rightarrow> map_option (\<lambda>rest. xor_bytes tmp tweak @ rest) (xts_blocks enc key1 (MulGF128 tweak tweak) (drop 16 inp)))"
  by auto
termination
  by (relation "measure (\<lambda>(enc, key1, tweak, inp). length inp)") auto

declare xts_blocks.simps [simp del]

fun xts_sectors :: "block_cipher \<Rightarrow> bytes \<Rightarrow> bytes \<Rightarrow> nat \<Rightarrow> nat \<Rightarrow> u64 \<Rightarrow> bytes \<Rightarrow> bytes option" where
  "xts_sectors enc key1 key2 sector_size 0 sector_number inp = Some []"
| "xts_sectors enc key1 key2 sector_size (Suc n) sector_number inp =
     (case AesEcbEncryptBlock enc (le_bytes 8 sector_number @ replicate 8 0) key2 of
        None \<Rightarrow> None
      | Some tweak \<Rightarrow>
          (case xts_blocks enc key1 tweak (take sector_size inp) of
             None \<Rightarrow> None
           | Some out \<Rightarrow> map_option ((@) out) (xts_sectors enc key1 key2 sector_size n (sector_number + 1) (drop sector_size inp))))"

text \<open>The division by a sector size of zero is an error of its own.\<close>

datatype crypto_error = DivideByZero

definition DecryptXts :: "block_cipher \<Rightarrow> bytes \<Rightarrow> bytes \<Rightarrow> bytes \<Rightarrow> u64 \<Rightarrow> nat \<Rightarrow> crypto_error + bytes option" where
  "DecryptXts enc ciphertext key1 key2 sector_number sector_size =
     (let n = length ciphertext in
      if n mod 16 \<noteq> 0 \<or> sector_size mod 16 \<noteq> 0 then Inr None
      else if sector_size = 0 then Inl DivideByZero
      else Inr (xts_sectors enc key1 key2 sector_size (n div sector_size + (if n mod sector_size \<noteq> 0 then 1 else 0)) sector_number ciphertext))"

section \<open>CTR mode decrypts what it encrypts\<close>

lemma length_xor_bytes [simp]: "length (xor_bytes xs ys) = min (length xs) (length ys)"
  by (simp add: xor_bytes_def)

lemma xor_bytes_twice: "length xs \<le> length ys \<Longrightarrow> xor_bytes (xor_bytes xs ys) ys = xs"
  by (rule nth_equalityI) (auto simp: xor_bytes_def xor.assoc)

lemma drop_xor_bytes: "drop n (xor_bytes xs ys) = xor_bytes (drop n xs) (drop n ys)"
  by (simp add: xor_bytes_def drop_map drop_zip)

lemma AesEcb_length: "AesEcbEncryptBlock enc inp key = Some out \<Longrightarrow> length out = 16"
  by (auto simp: AesEcbEncryptBlock_def split: option.splits if_splits)

lemma ctr_blocks_Nil [simp]: "ctr_blocks enc key counter [] = Some []"
  by (subst ctr_blocks.simps) simp

lemma ctr_blocks_SomeE:
  assumes "ctr_blocks enc key counter inp = Some out" "inp \<noteq> []"
  obtains ks rest where "AesEcbEncryptBlock enc counter key = Some ks" "length ks = 16"
    "ctr_blocks enc key (incr_counter counter) (drop 16 inp) = Some rest" "out = xor_bytes (take 16 inp) ks @ rest"
  using assms by (subst (asm) ctr_blocks.simps) (auto split: option.splits dest: AesEcb_length)

lemma ctr_blocks_involution:
  "ctr_blocks enc key counter inp = Some out \<Longrightarrow> length out = length inp \<and> ctr_blocks enc key counter out = Some inp"
proof (induction enc key counter inp arbitrary: out rule: ctr_blocks.induct)
  case (1 enc key counter inp)
  show ?case
  proof (cases "inp = []")
    case False
    obtain ks rest where ks: "AesEcbEncryptBlock enc counter key = Some ks" "length ks = 16"
      and rest: "ctr_blocks enc key (incr_counter counter) (drop 16 inp) = Some rest" and out: "out = xor_bytes (take 16 inp) ks @ rest"
      by (rule ctr_blocks_SomeE [OF "1.prems" False])
    have IH: "length rest = length inp - 16" "ctr_blocks enc key (incr_counter counter) rest = Some (drop 16 inp)"
      using "1.IH" [OF False ks(1) rest] by simp_all
    let ?x = "xor_bytes (take 16 inp) ks"
    have x: "length ?x = min 16 (length inp)" "xor_bytes ?x ks = take 16 inp"
      using ks(2) by (simp_all add: xor_bytes_twice)
    have "take 16 out = ?x \<and> drop 16 out = rest"
      using x(1) IH(1) by (cases "16 \<le> length inp") (simp_all add: out)
    moreover have "length out = length inp"
      using x(1) IH(1) by (cases "16 \<le> length inp") (simp_all add: out)
    then have "out \<noteq> []"
      using False by auto
    ultimately have "ctr_blocks enc key counter out = Some inp"
      using ks(1) IH(2) x(2) by (subst ctr_blocks.simps) simp
    then show ?thesis
      using x(1) IH(1) by (simp add: out)
  qed (use "1.prems" in simp)
qed

text \<open>
  In CTR mode decryption undoes encryption: applying \<open>DecryptCtr\<close> twice, with the same key, vector and position, gives the
  text back, of any length and from any position, whatever the block cipher is.
\<close>

theorem ctr_roundtrip:
  assumes "DecryptCtr enc ct key iv off = Some pt"
  shows "length pt = length ct \<and> DecryptCtr enc pt key iv off = Some ct"
proof (cases "unat (off mod 16) = 0")
  case True
  then have "DecryptCtr enc x key iv off = ctr_blocks enc key (add_blocks 8 0 (off div 16) iv) x" for x
    by (simp add: DecryptCtr_def)
  then show ?thesis
    using assms by (metis ctr_blocks_involution)
next
  case False
  let ?c = "add_blocks 8 0 (off div 16) iv" and ?b = "unat (off mod 16)"
  have b: "?b < 16"
    by (simp add: unat_mod)
  let ?n = "min (length ct) (16 - ?b)"
  obtain ks rest where ks: "AesEcbEncryptBlock enc ?c key = Some ks"
    and rest: "ctr_blocks enc key (incr_counter ?c) (drop ?n ct) = Some rest" and pt: "pt = xor_bytes (take ?n ct) (drop ?b ks) @ rest"
    using assms False by (auto simp: DecryptCtr_def Let_def split: option.splits)
  have l: "length ks = 16"
    using ks by (rule AesEcb_length)
  have IH: "length rest = length ct - ?n" "ctr_blocks enc key (incr_counter ?c) rest = Some (drop ?n ct)"
    using ctr_blocks_involution [OF rest] by simp_all
  have x: "length (xor_bytes (take ?n ct) (drop ?b ks)) = ?n" "xor_bytes (xor_bytes (take ?n ct) (drop ?b ks)) (drop ?b ks) = take ?n ct"
    using l b by (auto simp: xor_bytes_twice)
  have len: "length pt = length ct"
    using x(1) IH(1) by (simp add: pt)
  have "take ?n pt = xor_bytes (take ?n ct) (drop ?b ks)" "drop ?n pt = rest"
    using x(1) by (simp_all add: pt)
  then show ?thesis
    using ks IH(2) x(2) len False by (simp add: DecryptCtr_def Let_def)
qed

theorem ctr_roundtrip_witness:
  "DecryptCtr (\<lambda>k b. Some b) [1, 2, 3] [] (replicate 16 7) 14 = Some [6, 5, 4] \<and>
   DecryptCtr (\<lambda>k b. Some b) [6, 5, 4] [] (replicate 16 7) 14 = Some [1, 2, 3]"
proof -
  have "DecryptCtr (\<lambda>k b. Some b) [1, 2, 3] [] (replicate 16 7) 14 = Some [6, 5, 4]"
    by code_simp
  from this ctr_roundtrip [OF this] show ?thesis
    by simp
qed

section \<open>Seeking\<close>

text \<open>
  Counters as numbers: the last byte is the lowest. \<open>inc_low\<close> and \<open>add_low\<close> are the loops on the reversed counter.
\<close>

definition counter_value :: "bytes \<Rightarrow> nat" where
  "counter_value c = horner_sum unat 256 (rev c)"

fun inc_low :: "bytes \<Rightarrow> bytes" where
  "inc_low [] = []"
| "inc_low (b # bs) = (b + 1) # (if b + 1 \<noteq> 0 then bs else inc_low bs)"

fun add_low :: "nat \<Rightarrow> u64 \<Rightarrow> bytes \<Rightarrow> bytes" where
  "add_low (Suc n) k (b # bs) = (if k > 0 then (b + ucast (k AND 0xFF)) # add_low n (drop_bit 8 k) bs else b # bs)"
| "add_low _ k bs = bs"

lemma length_inc_low [simp]: "length (inc_low bs) = length bs"
  by (induction bs) auto

lemma byte_horner: "horner_sum unat 256 (bs :: bytes) < 256 ^ length bs"
proof (induction bs)
  case (Cons b bs)
  have "unat b + 256 * horner_sum unat 256 bs < 256 + 256 * horner_sum unat 256 bs"
    using unsigned_less [of b, where ?'a = nat] by simp
  also have "\<dots> \<le> 256 * 256 ^ length bs"
    using Cons by simp
  finally show ?case
    by simp
qed simp

lemma byte_horner_inject:
  assumes "length xs = length ys" "horner_sum unat 256 (xs :: bytes) = horner_sum unat 256 ys"
  shows "xs = ys"
  using assms
proof (induction xs ys rule: list_induct2)
  case (Cons x xs y ys)
  have b: "unat (w :: u8) < 256" for w
    using unsigned_less [of w, where ?'a = nat] by simp
  have "(unat x + 256 * horner_sum unat 256 xs) mod 256 = (unat y + 256 * horner_sum unat 256 ys) mod 256"
    "(unat x + 256 * horner_sum unat 256 xs) div 256 = (unat y + 256 * horner_sum unat 256 ys) div 256"
    using Cons.prems by simp_all
  then have "unat x = unat y" "horner_sum unat 256 xs = horner_sum unat 256 ys"
    using b by simp_all
  then show ?case
    using Cons.IH by (simp add: word_unat_eq_iff)
qed simp

lemma inc_low_value: "horner_sum unat 256 (inc_low bs) = (horner_sum unat 256 bs + 1) mod 256 ^ length bs"
proof (induction bs)
  case (Cons b bs)
  have b: "unat b < 256"
    using unsigned_less [of b, where ?'a = nat] by simp
  show ?case
  proof (cases "b + 1 = 0")
    case True
    then have "unat b = 255"
      by (simp add: eq_neg_iff_add_eq_0 [symmetric] unsigned_minus_1_eq_mask mask_numeral)
    then have "(horner_sum unat 256 (b # bs) + 1) mod 256 ^ length (b # bs) = (256 * (horner_sum unat 256 bs + 1)) mod (256 * 256 ^ length bs)"
      by simp
    also have "\<dots> = 256 * ((horner_sum unat 256 bs + 1) mod 256 ^ length bs)"
      by (rule mult_mod_right [symmetric])
    finally show ?thesis
      using Cons True by simp
  next
    case False
    then have u: "unat (b + 1) = unat b + 1"
      by (metis Suc_eq_plus1 add.commute unatSuc)
    then have "unat b + 1 < 256"
      using unsigned_less [of "b + 1", where ?'a = nat] by simp
    then have "horner_sum unat 256 (b # bs) + 1 < 256 ^ length (b # bs)"
      using byte_horner [of bs] by simp
    then show ?thesis
      using False u by simp
  qed
qed simp

lemma add_low_value:
  assumes "\<forall>i < n. unat (bs ! i) + unat (drop_bit (8 * i) k AND 0xFF) < 256" "n \<le> length bs" "unat k < 256 ^ n"
  shows "horner_sum unat 256 (add_low n k bs) = horner_sum unat 256 bs + unat k"
  using assms
proof (induction n k bs rule: add_low.induct)
  case (1 n k b bs)
  have low: "unat (k AND 0xFF) = unat k mod 256"
    using unat_and_mask [of k 8] by (simp add: mask_numeral)
  have high: "unat (drop_bit 8 k) = unat k div 256"
    by (simp add: drop_bit_eq_div unat_div)
  show ?case
  proof (cases "k > 0")
    case True
    have no: "unat b + unat k mod 256 < 256"
      using "1.prems"(1) low by auto
    have "unat (ucast (k AND 0xFF) :: u8) = unat k mod 256"
      using low by (simp add: unsigned_ucast_eq take_bit_eq_mod)
    then have "unat (b + ucast (k AND 0xFF)) = unat b + unat k mod 256"
      using no by (simp add: unat_word_ariths)
    moreover have "\<forall>i < n. unat (bs ! i) + unat (drop_bit (8 * i) (drop_bit 8 k) AND 0xFF) < 256"
      using "1.prems"(1) by (auto simp: add.commute dest: spec [of _ "Suc _"])
    then have "horner_sum unat 256 (add_low n (drop_bit 8 k) bs) = horner_sum unat 256 bs + unat k div 256"
      using "1.IH" [OF True] "1.prems"(2,3) high by (simp add: less_mult_imp_div_less mult.commute)
    ultimately show ?thesis
      using True by (simp add: algebra_simps)
  next
    case False
    then have "k = 0"
      by (simp add: word_gt_0)
    then show ?thesis
      by simp
  qed
qed (auto simp: word_unat_eq_iff)

text \<open>The loops of the code are the loops on the reversed counter.\<close>

lemma incr_from_low:
  "i < length c \<Longrightarrow> incr_from i c = rev (inc_low (rev (take (Suc i) c))) @ drop (Suc i) c"
proof (induction i arbitrary: c)
  case 0
  then show ?case
    by (cases c) simp_all
next
  case (Suc i)
  let ?b = "c ! Suc i + 1" and ?c = "c[Suc i := c ! Suc i + 1]"
  have t: "take (Suc (Suc i)) c = take (Suc i) c @ [c ! Suc i]"
    using Suc.prems by (simp add: take_Suc_conv_app_nth)
  show ?case
  proof (cases "?b = 0")
    case True
    have "incr_from i ?c = rev (inc_low (rev (take (Suc i) ?c))) @ drop (Suc i) ?c"
      using Suc by simp
    moreover have "drop (Suc i) ?c = ?b # drop (Suc (Suc i)) c"
      using Suc.prems by (simp add: Cons_nth_drop_Suc [symmetric])
    ultimately show ?thesis
      using True by (simp add: t)
  next
    case False
    then show ?thesis
      using Suc.prems by (simp add: t upd_conv_take_nth_drop)
  qed
qed

lemma incr_counter_value:
  assumes "length c = 16"
  shows "length (incr_counter c) = 16" "counter_value (incr_counter c) = (counter_value c + 1) mod 256 ^ 16"
  using assms inc_low_value [of "rev c"] by (simp_all add: incr_counter_def incr_from_low counter_value_def)

lemma counter_steps:
  assumes "length c = 16"
  shows "length ((incr_counter ^^ n) c) = 16 \<and> counter_value ((incr_counter ^^ n) c) = (counter_value c + n) mod 256 ^ 16"
proof (induction n)
  case 0
  then show ?case
    using assms byte_horner [of "rev c"] by (simp add: counter_value_def)
next
  case (Suc n)
  then show ?case
    using incr_counter_value [of "(incr_counter ^^ n) c"] by (simp add: mod_Suc_eq)
qed

lemma narrow_sum: "(ucast (ucast (b :: u8) + ucast (k AND 0xFF :: u64) + (0 :: u16) :: u16) :: u8) = b + ucast (k AND 0xFF)"
proof -
  have k: "unat (k AND 0xFF) < 256"
    using unat_and_mask [of k 8] by (simp add: mask_numeral)
  have b: "unat b < 256"
    using unsigned_less [of b, where ?'a = nat] by simp
  have "unat (ucast b + ucast (k AND 0xFF) :: u16) = unat b + unat (k AND 0xFF)"
    using k b by (simp add: unat_word_ariths unsigned_ucast_eq take_bit_nat_eq_self)
  then have "(of_nat (unat (ucast b + ucast (k AND 0xFF) :: u16)) :: u8) = of_nat (unat b) + of_nat (unat (k AND 0xFF))"
    by simp
  then show ?thesis
    by simp
qed

lemma add_blocks_low:
  assumes "length c = 16" "n + i \<le> 16"
  shows "rev (add_blocks n i k c) = take i (rev c) @ add_low n k (drop i (rev c)) \<and> length (add_blocks n i k c) = 16"
  using assms
proof (induction n arbitrary: i k c)
  case (Suc n)
  let ?b = "c ! (15 - i)"
  have d: "drop i (rev c) = ?b # drop (Suc i) (rev c)"
    using Suc.prems by (simp add: Cons_nth_drop_Suc [symmetric] rev_nth)
  have low: "(ucast (ucast ?b + ucast (k AND 0xFF) + (0 :: u16) :: u16) :: u8) = ?b + ucast (k AND 0xFF)"
    by (rule narrow_sum)
  show ?case
  proof (cases "k > 0")
    case True
    let ?c = "c[15 - i := ?b + ucast (k AND 0xFF)]"
    have rc: "rev ?c = (rev c)[i := ?b + ucast (k AND 0xFF)]"
      using Suc.prems by (simp add: rev_update)
    have "rev (add_blocks n (Suc i) (drop_bit 8 k) ?c) = take (Suc i) (rev ?c) @ add_low n (drop_bit 8 k) (drop (Suc i) (rev ?c)) \<and>
        length (add_blocks n (Suc i) (drop_bit 8 k) ?c) = 16"
      using Suc.prems by (intro Suc.IH) simp_all
    then show ?thesis
      using True Suc.prems d low by (simp add: rc Let_def take_Suc_conv_app_nth)
  next
    case False
    then have "add_low (Suc n) k (drop i (rev c)) = drop i (rev c)"
      unfolding d by simp
    then show ?thesis
      using False Suc.prems by simp
  qed
qed simp

definition no_carry :: "bytes \<Rightarrow> u64 \<Rightarrow> bool" where
  "no_carry iv k \<longleftrightarrow> (\<forall>i < 8. unat (iv ! (15 - i)) + unat (drop_bit (8 * i) k AND 0xFF) < 256)"

lemma add_blocks_counts:
  assumes "length iv = 16" "no_carry iv k"
  shows "add_blocks 8 0 k iv = (incr_counter ^^ unat k) iv"
proof -
  let ?c = "add_blocks 8 0 k iv"
  have c: "rev ?c = add_low 8 k (rev iv)" "length ?c = 16"
    using add_blocks_low [OF assms(1), of 8 0 k] by simp_all
  have k: "unat k < 256 ^ 8"
    using unsigned_less [of k, where ?'a = nat] by simp
  have "\<forall>i < 8. unat (rev iv ! i) + unat (drop_bit (8 * i) k AND 0xFF) < 256"
    using assms by (auto simp: no_carry_def rev_nth)
  then have val: "counter_value ?c = counter_value iv + unat k"
    using add_low_value [of 8 "rev iv" k] k assms(1) by (simp add: counter_value_def c(1))
  have "counter_value ?c < 256 ^ 16"
    using byte_horner [of "rev ?c"] c(2) by (simp add: counter_value_def)
  then have "counter_value ?c = counter_value ((incr_counter ^^ unat k) iv)"
    using val counter_steps [OF assms(1), of "unat k"] by simp
  then have "rev ?c = rev ((incr_counter ^^ unat k) iv)"
    using c(2) counter_steps [OF assms(1), of "unat k"] unfolding counter_value_def by (intro byte_horner_inject) simp_all
  then show ?thesis
    by simp
qed

lemma ctr_blocks_skip:
  "ctr_blocks enc key c inp = Some out \<Longrightarrow> 16 * j \<le> length inp \<Longrightarrow>
    ctr_blocks enc key ((incr_counter ^^ j) c) (drop (16 * j) inp) = Some (drop (16 * j) out)"
proof (induction j arbitrary: c inp out)
  case (Suc j)
  have "inp \<noteq> []"
    using Suc.prems(2) by auto
  then obtain ks rest where ks: "length ks = 16" and rest: "ctr_blocks enc key (incr_counter c) (drop 16 inp) = Some rest"
    and out: "out = xor_bytes (take 16 inp) ks @ rest"
    by (rule ctr_blocks_SomeE [OF Suc.prems(1)])
  have "drop (16 * Suc j) out = drop (16 * j) rest"
    using ks Suc.prems(2) by (simp add: out)
  then show ?case
    using Suc.IH [OF rest] Suc.prems(2) by (simp add: funpow_swap1 add.commute)
qed simp

lemma first_part:
  "r < 16 \<Longrightarrow> take (min (length x - r) (16 - r)) (drop r x) = drop r (take 16 x)"
  "r < 16 \<Longrightarrow> drop (min (length x - r) (16 - r)) (drop r x) = drop 16 x" for x :: bytes
  by (auto simp: drop_take min_def)

text \<open>From position \<open>r\<close> inside the first block on: the tail of its key stream, then whole blocks.\<close>

lemma ctr_inside_block:
  assumes "ctr_blocks enc key c x = Some y" "0 < r" "r \<le> length x" "r < 16"
  defines "n \<equiv> min (length x - r) (16 - r)"
  shows "\<exists>ks rest. AesEcbEncryptBlock enc c key = Some ks \<and> ctr_blocks enc key (incr_counter c) (drop n (drop r x)) = Some rest \<and>
    drop r y = xor_bytes (take n (drop r x)) (drop r ks) @ rest"
proof -
  have "x \<noteq> []"
    using assms(2,3) by auto
  then obtain ks rest where ks: "AesEcbEncryptBlock enc c key = Some ks" "length ks = 16"
    and rest: "ctr_blocks enc key (incr_counter c) (drop 16 x) = Some rest" and out: "y = xor_bytes (take 16 x) ks @ rest"
    by (rule ctr_blocks_SomeE [OF assms(1)])
  have "take n (drop r x) = drop r (take 16 x)" "drop n (drop r x) = drop 16 x"
    using first_part [of r x] assms(4) by (simp_all add: n_def)
  moreover have "drop r y = xor_bytes (drop r (take 16 x)) (drop r ks) @ rest"
    using assms(3,4) ks(2) by (simp add: out drop_xor_bytes)
  ultimately show ?thesis
    using ks(1) rest by auto
qed

text \<open>
  Property C32. Seeking: decrypting the tail of a text from its position gives the tail of the decrypted text, for every position (also
  inside a block), as long as adding the number of blocks to the vector carries from no byte into the next.
\<close>

theorem ctr_seek_consistent:
  assumes "DecryptCtr enc ct key iv 0 = Some pt" "length iv = 16" "off \<le> length ct" "off < 2 ^ 64"
    and "no_carry iv (of_nat off div 16)"
  shows "DecryptCtr enc (drop off ct) key iv (of_nat off) = Some (drop off pt)"
proof -
  let ?j = "off div 16" and ?r = "off mod 16"
  have u: "unat (of_nat off :: u64) = off"
    using assms(4) by (simp add: unsigned_of_nat take_bit_nat_eq_self)
  have jr: "unat (of_nat off div 16 :: u64) = ?j" "unat (of_nat off mod 16 :: u64) = ?r" "off = 16 * ?j + ?r"
    using u by (simp_all add: unat_div unat_mod)
  let ?c = "(incr_counter ^^ ?j) iv"
  have c: "add_blocks 8 0 (of_nat off div 16) iv = ?c"
    using add_blocks_counts [OF assms(2,5)] jr(1) by simp
  have "add_blocks 8 0 (0 :: u64) iv = iv"
    by (simp add: numeral_eq_Suc)
  then have "ctr_blocks enc key iv ct = Some pt"
    using assms(1) by (simp add: DecryptCtr_def)
  moreover have "16 * ?j \<le> length ct"
    using assms(3) jr(3) by linarith
  ultimately have skip: "ctr_blocks enc key ?c (drop (16 * ?j) ct) = Some (drop (16 * ?j) pt)"
    by (rule ctr_blocks_skip)
  have d: "drop off xs = drop ?r (drop (16 * ?j) xs)" for xs :: bytes
    by (subst jr(3)) (simp only: drop_drop add.commute)
  show ?thesis
  proof (cases "?r = 0")
    case True
    then show ?thesis
      using skip c jr(2) by (simp add: DecryptCtr_def d [of ct] d [of pt])
  next
    case False
    let ?x = "drop (16 * ?j) ct"
    have "?r \<le> length ?x" "0 < ?r"
      unfolding length_drop using assms(3) jr(3) False by linarith+
    then obtain ks rest where "AesEcbEncryptBlock enc ?c key = Some ks"
      "ctr_blocks enc key (incr_counter ?c) (drop (min (length ?x - ?r) (16 - ?r)) (drop ?r ?x)) = Some rest"
      "drop ?r (drop (16 * ?j) pt) = xor_bytes (take (min (length ?x - ?r) (16 - ?r)) (drop ?r ?x)) (drop ?r ks) @ rest"
      using ctr_inside_block [OF skip, of ?r] by auto
    then show ?thesis
      using \<open>0 < ?r\<close> by (simp only: DecryptCtr_def c jr(2) d Let_def if_True option.case length_drop [of ?r] option.map)
  qed
qed

theorem ctr_seek_consistent_witness:
  "DecryptCtr (\<lambda>k b. Some b) (drop 17 (replicate 18 0)) [] (replicate 16 0) (of_nat 17) = Some [0]"
proof -
  have "DecryptCtr (\<lambda>k b. Some b) (replicate 18 0) [] (replicate 16 0) 0 = Some (replicate 18 0)"
    by code_simp
  moreover have "no_carry (replicate 16 0) (of_nat 17 div 16)"
    by (simp add: no_carry_def)
  ultimately show ?thesis
    using ctr_seek_consistent [of "\<lambda>k b. Some b" "replicate 18 0" "[]" "replicate 16 0" "replicate 18 0" 17] by simp
qed

text \<open>
  A carry is lost: from a vector that ends in \<^verbatim>\<open>FF\<close>, the second block is decrypted with a counter that is 256 too small, so
  that text decrypted from there is not the text decrypted as a whole.
\<close>

lemma ctr_seek_loses_carry:
  "add_blocks 8 0 1 (replicate 15 0 @ [0xFF]) = replicate 16 0"
  "incr_counter (replicate 15 0 @ [0xFF]) = replicate 14 0 @ [1, 0]"
  by code_simp+

lemma ctr_seek_wrong:
  "map_option (drop 16) (DecryptCtr (\<lambda>k b. Some b) (replicate 31 0) [] (replicate 15 0 @ [0xFF]) 0) \<noteq>
   DecryptCtr (\<lambda>k b. Some b) (drop 16 (replicate 31 0)) [] (replicate 15 0 @ [0xFF]) 16"
  by code_simp

section \<open>XTS mode does not decrypt\<close>

text \<open>
  What the standard encrypts to \<open>E (p XOR T) XOR T\<close> is encrypted once more, because the block is run through the
  encryption: the result is \<open>E (E (p XOR T)) XOR T\<close>, not \<open>p\<close>.
\<close>

lemma xts_encrypts_again:
  assumes "AesEcbEncryptBlock enc (le_bytes 8 n @ replicate 8 0) key2 = Some tweak" "length p = 16"
    and "AesEcbEncryptBlock enc (xor_bytes p tweak) key1 = Some e" "AesEcbEncryptBlock enc e key1 = Some e2"
  shows "DecryptXts enc (xor_bytes e tweak) key1 key2 n 16 = Inr (Some (xor_bytes e2 tweak))"
proof -
  have l: "length tweak = 16" "length e = 16"
    using assms(1,3) by (auto dest: AesEcb_length)
  then have "xor_bytes (xor_bytes e tweak) tweak = e" "length (xor_bytes e tweak) = 16"
    by (simp_all add: xor_bytes_twice)
  moreover have "xts_blocks enc key1 t [] = Some []" for t
    by (subst xts_blocks.simps) simp
  ultimately have "xts_blocks enc key1 tweak (xor_bytes e tweak) = Some (xor_bytes e2 tweak)"
    using assms(4) by (subst xts_blocks.simps) (auto simp: xor_bytes_def)
  then show ?thesis
    using assms(1) l by (simp add: DecryptXts_def Let_def)
qed

end
