(* ===== verification/Scheduler.thy ===== *)
theory Scheduler
  imports Prelude "HOL-Library.Sublist"
begin

text \<open>
  The guest cores: \<^verbatim>\<open>src/src/core/Scheduler.cpp\<close> and \<^verbatim>\<open>Scheduler.h\<close>. Every core has a host thread that polls one slot for a
  guest thread and runs it; other threads fill the slot (\<open>QueueGuestThread\<close>) and ask the loop to end (\<open>Stop\<close>). The loop is
  a step relation with one step per access to the shared members; the steps of the others may come between any two of
  them.
\<close>

section \<open>State\<close>

datatype CoreType = A57_0 | A57_1 | A57_2 | A53

record GuestThread =
  gt_entry_point :: u64
  gt_stack_top :: u64
  gt_tls_base :: u64
  gt_valid :: bool

definition no_guest :: GuestThread where
  "no_guest = \<lparr>gt_entry_point = 0, gt_stack_top = 0, gt_tls_base = 0, gt_valid = False\<rparr>"

text \<open>
  Where the loop of a core is: no thread yet, at the test of \<open>running\<close>, about to copy the slot, with the copy, inside the guest,
  about to clear the slot, about to sleep, ended. \<open>C_Ended\<close> and \<open>C_None\<close> differ in that the former can be joined.
\<close>

datatype core_pc = C_None | C_Test | C_Fetch | C_Have GuestThread | C_Guest GuestThread | C_Clear | C_Sleep | C_Ended

record Core =
  core_running :: bool
  cycles :: u64
  core_type :: CoreType
  guest :: GuestThread
  core_pc :: core_pc

record scheduler =
  cores :: "Core list"
  svc_dispatch :: bool

definition NUM_CORES :: nat where "NUM_CORES = 4"

definition new_core :: "CoreType \<Rightarrow> Core" where
  "new_core t = \<lparr>core_running = False, cycles = 0, core_type = t, guest = no_guest, core_pc = C_None\<rparr>"

definition new_scheduler :: scheduler where
  "new_scheduler = \<lparr>cores = map new_core [A57_0, A57_1, A57_2, A53], svc_dispatch = False\<rparr>"

section \<open>Operations\<close>

text \<open>
  Assigning a new thread to a \<open>std::thread\<close> that is still joinable ends the process: the error.
\<close>

datatype sched_error = Terminated

definition start_core :: "Core \<Rightarrow> sched_error + Core" where
  "start_core c =
     (if core_pc c = C_None then Inr (c\<lparr>core_running := True, core_pc := C_Test\<rparr>) else Inl Terminated)"

fun start_cores :: "Core list \<Rightarrow> sched_error + Core list" where
  "start_cores [] = Inr []"
| "start_cores (c # cs) =
     (case start_core c of
        Inl e \<Rightarrow> Inl e
      | Inr c' \<Rightarrow> (case start_cores cs of Inl e \<Rightarrow> Inl e | Inr cs' \<Rightarrow> Inr (c' # cs')))"

definition Scheduler_Start :: "scheduler \<Rightarrow> sched_error + Result \<times> scheduler" where
  "Scheduler_Start s = (case start_cores (cores s) of Inl e \<Rightarrow> Inl e | Inr cs \<Rightarrow> Inr (Success, s\<lparr>cores := cs\<rparr>))"

text \<open>\<open>Stop\<close> clears every flag and then joins every thread: it returns when every loop has ended.\<close>

definition stop_core :: "Core \<Rightarrow> Core" where
  "stop_core c = c\<lparr>core_running := False\<rparr>"

definition stop_request :: "scheduler \<Rightarrow> scheduler" where
  "stop_request s = s\<lparr>cores := map stop_core (cores s)\<rparr>"

definition stop_join :: "scheduler \<Rightarrow> scheduler option" where
  "stop_join s =
     (if list_all (\<lambda>c. core_pc c = C_None \<or> core_pc c = C_Ended) (cores s)
      then Some (s\<lparr>cores := map (\<lambda>c. c\<lparr>core_pc := C_None\<rparr>) (cores s)\<rparr>) else None)"

definition Scheduler_IsRunning :: "scheduler \<Rightarrow> bool" where
  "Scheduler_IsRunning s \<longleftrightarrow> list_ex core_running (cores s)"

definition queue_core :: "GuestThread \<Rightarrow> Core \<Rightarrow> Core" where
  "queue_core gt c = c\<lparr>guest := gt\<rparr>"

definition QueueGuestThread :: "int \<Rightarrow> GuestThread \<Rightarrow> scheduler \<Rightarrow> scheduler" where
  "QueueGuestThread core_id gt s =
     (if core_id < 0 \<or> core_id \<ge> int NUM_CORES then s
      else s\<lparr>cores := (cores s)[nat core_id := queue_core gt (cores s ! nat core_id)]\<rparr>)"

definition SetSvcDispatch :: "bool \<Rightarrow> scheduler \<Rightarrow> scheduler" where
  "SetSvcDispatch present s = s\<lparr>svc_dispatch := present\<rparr>"

text \<open>
  One step of \<open>CoreLoop\<close>. The second component is what starts: the guest, with or without a signal handler installed. When
  the guest returns is not up to the loop: the flag \<open>returns\<close> says whether it does.
\<close>

definition runnable :: "GuestThread \<Rightarrow> bool" where
  "runnable gt \<longleftrightarrow> gt_valid gt \<and> gt_entry_point gt > 0"

definition CoreLoop_step :: "bool \<Rightarrow> bool \<Rightarrow> Core \<Rightarrow> Core \<times> (GuestThread \<times> bool) option" where
  "CoreLoop_step dispatch returns c =
     (case core_pc c of
        C_Test \<Rightarrow> (c\<lparr>core_pc := (if core_running c then C_Fetch else C_Ended)\<rparr>, None)
      | C_Fetch \<Rightarrow> (c\<lparr>core_pc := C_Have (guest c)\<rparr>, None)
      | C_Have gt \<Rightarrow>
          (if runnable gt then (c\<lparr>core_pc := C_Guest gt\<rparr>, Some (gt, dispatch)) else (c\<lparr>core_pc := C_Sleep\<rparr>, None))
      | C_Guest gt \<Rightarrow> (if returns then (c\<lparr>core_pc := C_Clear\<rparr>, None) else (c, None))
      | C_Clear \<Rightarrow> (c\<lparr>core_pc := C_Sleep, guest := (guest c)\<lparr>gt_valid := False\<rparr>\<rparr>, None)
      | C_Sleep \<Rightarrow> (c\<lparr>core_pc := C_Test, cycles := cycles c + 1\<rparr>, None)
      | C_None \<Rightarrow> (c, None)
      | C_Ended \<Rightarrow> (c, None))"

section \<open>Histories of one core\<close>

text \<open>
  A core together with what was queued on it and what it ran, in order; the events are a step of its loop, a call of
  \<open>QueueGuestThread\<close> and the first half of \<open>Stop\<close>.
\<close>

datatype core_event = Own bool | Queue GuestThread | StopRequest

record core_run =
  cr_core :: Core
  cr_queued :: "GuestThread list"
  cr_ran :: "GuestThread list"

definition core_next :: "bool \<Rightarrow> core_event \<Rightarrow> core_run \<Rightarrow> core_run" where
  "core_next dispatch ev r =
     (case ev of
        Own returns \<Rightarrow>
          (let (c, started) = CoreLoop_step dispatch returns (cr_core r)
           in r\<lparr>cr_core := c, cr_ran := cr_ran r @ (case started of None \<Rightarrow> [] | Some (gt, _) \<Rightarrow> [gt])\<rparr>)
      | Queue gt \<Rightarrow> r\<lparr>cr_core := queue_core gt (cr_core r), cr_queued := cr_queued r @ [gt]\<rparr>
      | StopRequest \<Rightarrow> r\<lparr>cr_core := stop_core (cr_core r)\<rparr>)"

definition core_start :: "Core \<Rightarrow> core_run" where
  "core_start c = \<lparr>cr_core = c, cr_queued = [], cr_ran = []\<rparr>"

inductive core_step :: "bool \<Rightarrow> core_run \<Rightarrow> core_run \<Rightarrow> bool" for dispatch where
  core_step: "core_step dispatch r (core_next dispatch ev r)"

inductive_cases core_stepE: "core_step dispatch r r'"

text \<open>
  The invariant: what has run is a subsequence of what was queued, and so it stays when the thread in the slot (or the copy that
  is about to run) is added. While a guest runs, the slot counts for nothing: it will be cleared.
\<close>

definition slot_ok :: "core_run \<Rightarrow> bool" where
  "slot_ok r \<longleftrightarrow> (runnable (guest (cr_core r)) \<longrightarrow> subseq (cr_ran r @ [guest (cr_core r)]) (cr_queued r))"

definition core_inv :: "core_run \<Rightarrow> bool" where
  "core_inv r \<longleftrightarrow> list_all runnable (cr_ran r) \<and> subseq (cr_ran r) (cr_queued r) \<and>
     (case core_pc (cr_core r) of
        C_Have gt \<Rightarrow> (if runnable gt then subseq (cr_ran r @ [gt]) (cr_queued r) else slot_ok r)
      | C_Guest gt \<Rightarrow> True
      | C_Clear \<Rightarrow> True
      | _ \<Rightarrow> slot_ok r)"

lemma not_runnable [simp]: "\<not> runnable (gt\<lparr>gt_valid := False\<rparr>)" "\<not> runnable no_guest"
  by (simp_all add: runnable_def no_guest_def)

lemma core_inv_next:
  assumes "core_inv r"
  shows "core_inv (core_next dispatch ev r)"
proof (cases ev)
  case (Own returns)
  then show ?thesis
    using assms by (cases "core_pc (cr_core r)") (auto simp: core_next_def core_inv_def slot_ok_def CoreLoop_step_def)
next
  case (Queue gt)
  have "subseq (cr_ran r) (cr_queued r @ [gt])" "subseq (cr_ran r @ [gt]) (cr_queued r @ [gt])"
    using assms by (auto simp: core_inv_def intro: subseq_rev_drop_many)
  moreover have "subseq (cr_ran r @ [g]) (cr_queued r @ [gt])" if "subseq (cr_ran r @ [g]) (cr_queued r)" for g
    using that by (rule subseq_rev_drop_many)
  ultimately show ?thesis
    using assms Queue by (cases "core_pc (cr_core r)") (auto simp: core_next_def core_inv_def slot_ok_def queue_core_def)
next
  case StopRequest
  then show ?thesis
    using assms by (cases "core_pc (cr_core r)") (auto simp: core_next_def core_inv_def slot_ok_def stop_core_def)
qed

lemma core_inv_start: "\<not> runnable (guest c) \<Longrightarrow> core_pc c = C_Test \<Longrightarrow> core_inv (core_start c)"
  by (simp add: core_inv_def core_start_def slot_ok_def)

definition started_core :: "CoreType \<Rightarrow> Core" where
  "started_core t = (new_core t)\<lparr>core_running := True, core_pc := C_Test\<rparr>"

interpretation guest_core: safe_system "core_start (started_core t)" "core_step dispatch" core_inv for t dispatch
proof unfold_locales
  show "core_inv (core_start (started_core t))"
    by (rule core_inv_start) (simp_all add: started_core_def new_core_def)
qed (auto elim!: core_stepE intro: core_inv_next)

text \<open>
  Property C20. Whatever is queued on a core and whenever, also while it runs a guest or is asked to stop: the threads it
  has started are threads that were queued and can run, in the order in which they were queued and none of them twice.
\<close>

theorem core_runs_queued_in_order:
  assumes "reach (core_start (started_core t)) (core_step dispatch) r"
  shows "subseq (cr_ran r) (filter runnable (cr_queued r))"
proof -
  have "core_inv r"
    using assms by (rule guest_core.reach_safe)
  then have "subseq (cr_ran r) (cr_queued r)" and all: "filter runnable (cr_ran r) = cr_ran r"
    by (simp_all add: core_inv_def list_all_iff filter_id_conv)
  then have "subseq (filter runnable (cr_ran r)) (filter runnable (cr_queued r))"
    by (intro subseq_filter)
  then show ?thesis
    by (simp only: all)
qed

section \<open>Progress\<close>

definition own_steps :: "bool \<Rightarrow> bool list \<Rightarrow> core_run \<Rightarrow> core_run" where
  "own_steps dispatch = fold (\<lambda>b. core_next dispatch (Own b))"

text \<open>
  Between two guests: not inside one, not with one that is about to start, and past the point (\<open>C_Clear\<close>) where the slot is
  cleared after one.
\<close>

definition waiting :: "Core \<Rightarrow> bool" where
  "waiting c \<longleftrightarrow> (case core_pc c of C_Test \<Rightarrow> True | C_Fetch \<Rightarrow> True | C_Sleep \<Rightarrow> True | C_Have gt \<Rightarrow> \<not> runnable gt | _ \<Rightarrow> False)"

lemma own_simps:
  "core_pc (cr_core r) = C_Test \<Longrightarrow> core_running (cr_core r) \<Longrightarrow> core_next d (Own b) r = r\<lparr>cr_core := (cr_core r)\<lparr>core_pc := C_Fetch\<rparr>\<rparr>"
  "core_pc (cr_core r) = C_Fetch \<Longrightarrow> core_next d (Own b) r = r\<lparr>cr_core := (cr_core r)\<lparr>core_pc := C_Have (guest (cr_core r))\<rparr>\<rparr>"
  "core_pc (cr_core r) = C_Have gt \<Longrightarrow> runnable gt \<Longrightarrow> core_next d (Own b) r = r\<lparr>cr_core := (cr_core r)\<lparr>core_pc := C_Guest gt\<rparr>, cr_ran := cr_ran r @ [gt]\<rparr>"
  "core_pc (cr_core r) = C_Have gt \<Longrightarrow> \<not> runnable gt \<Longrightarrow> core_next d (Own b) r = r\<lparr>cr_core := (cr_core r)\<lparr>core_pc := C_Sleep\<rparr>\<rparr>"
  "core_pc (cr_core r) = C_Sleep \<Longrightarrow> core_next d (Own b) r = r\<lparr>cr_core := (cr_core r)\<lparr>core_pc := C_Test, cycles := cycles (cr_core r) + 1\<rparr>\<rparr>"
  "core_next d (Queue gt') r = r\<lparr>cr_core := (cr_core r)\<lparr>guest := gt'\<rparr>, cr_queued := cr_queued r @ [gt']\<rparr>"
  by (simp_all add: core_next_def CoreLoop_step_def queue_core_def)

text \<open>
  How many own steps a core with a runnable guest in its slot needs at most to start one, and the situation in which it
  will: the one in the slot, or the one it has just copied, is in \<open>G\<close>.
\<close>

definition steps_to_start :: "Core \<Rightarrow> nat" where
  "steps_to_start c = (case core_pc c of C_Have gt \<Rightarrow> (if runnable gt then 1 else 5) | C_Fetch \<Rightarrow> 2 | C_Test \<Rightarrow> 3 | C_Sleep \<Rightarrow> 4 | _ \<Rightarrow> 0)"

definition about_to_start :: "GuestThread set \<Rightarrow> Core \<Rightarrow> bool" where
  "about_to_start G c \<longleftrightarrow> core_running c \<and> runnable (guest c) \<and> guest c \<in> G \<and>
     (waiting c \<or> (\<exists>gt. core_pc c = C_Have gt \<and> runnable gt \<and> gt \<in> G))"

fun is_own :: "core_event \<Rightarrow> bool" where
  "is_own (Own b) = True"
| "is_own _ = False"

lemma about_to_start_queue:
  "about_to_start G (cr_core r) \<Longrightarrow> runnable g \<Longrightarrow> about_to_start (insert g G) (cr_core (core_next d (Queue g) r))"
  "steps_to_start (cr_core (core_next d (Queue g) r)) = steps_to_start (cr_core r)"
  "cr_ran (core_next d (Queue g) r) = cr_ran r"
  by (auto simp: core_next_def about_to_start_def queue_core_def waiting_def steps_to_start_def)

lemma about_to_start_own:
  assumes "about_to_start G (cr_core r)"
  shows "(\<exists>g \<in> G. cr_ran (core_next d (Own b) r) = cr_ran r @ [g]) \<or>
    about_to_start G (cr_core (core_next d (Own b) r)) \<and> cr_ran (core_next d (Own b) r) = cr_ran r \<and>
      steps_to_start (cr_core r) = Suc (steps_to_start (cr_core (core_next d (Own b) r)))"
  using assms by (cases "core_pc (cr_core r)")
    (auto simp: about_to_start_def waiting_def steps_to_start_def own_simps core_next_def CoreLoop_step_def)

lemma ran_grows: "\<exists>rest. cr_ran (fold (core_next d) evs r) = cr_ran r @ rest"
proof (induction evs arbitrary: r)
  case (Cons ev evs)
  have "\<exists>l. cr_ran (core_next d ev r) = cr_ran r @ l"
    by (simp add: core_next_def split_beta split: core_event.split)
  then show ?case
    using Cons.IH [of "core_next d ev r"] by auto
qed simp

lemma about_to_start_starts:
  assumes "about_to_start G (cr_core r)" "StopRequest \<notin> set evs" "\<forall>g. Queue g \<in> set evs \<longrightarrow> runnable g"
    and "steps_to_start (cr_core r) \<le> length (filter is_own evs)"
  shows "\<exists>g rest. cr_ran (fold (core_next d) evs r) = cr_ran r @ g # rest \<and> (g \<in> G \<or> Queue g \<in> set evs)"
  using assms
proof (induction evs arbitrary: r G)
  case Nil
  then show ?case
    by (auto simp: about_to_start_def waiting_def steps_to_start_def split: core_pc.splits if_splits)
next
  case (Cons ev evs)
  let ?r = "core_next d ev r"
  show ?case
  proof (cases ev)
    case (Own b)
    consider (starts) g where "g \<in> G" "cr_ran ?r = cr_ran r @ [g]"
      | (waits) "about_to_start G (cr_core ?r)" "cr_ran ?r = cr_ran r" "steps_to_start (cr_core r) = Suc (steps_to_start (cr_core ?r))"
      using about_to_start_own [OF Cons.prems(1), of d b] Own by auto
    then show ?thesis
    proof cases
      case starts
      then show ?thesis
        using ran_grows [of d evs ?r] by auto
    next
      case waits
      then show ?thesis
        using Cons.IH [OF waits(1)] Cons.prems(2-4) Own by auto
    qed
  next
    case (Queue g)
    have "about_to_start (insert g G) (cr_core ?r)"
      unfolding Queue by (rule about_to_start_queue(1)) (use Cons.prems Queue in auto)
    from Cons.IH [OF this] show ?thesis
      using Cons.prems(2-4) Queue by (auto simp: about_to_start_queue)
  qed (use Cons.prems(2) in simp)
qed

text \<open>
  Property C31. A core that waits starts what is queued on it. Take a thread that can run and is queued on a running core which is between two
  guests (\<open>waiting\<close>), and then any interleaving of steps of the core with further threads that are queued, all of them able to run, and
  without a request to stop: after five steps of the core it has started a guest, the first one or one of those queued since (which
  replace it in the slot); when nothing else is queued, the first one.
\<close>

theorem queued_guest_starts:
  assumes "core_running (cr_core r)" "waiting (cr_core r)" "runnable gt"
    and "StopRequest \<notin> set evs" "\<forall>g. Queue g \<in> set evs \<longrightarrow> runnable g" "5 \<le> length (filter is_own evs)"
  shows "\<exists>g rest. cr_ran (fold (core_next dispatch) (Queue gt # evs) r) = cr_ran r @ g # rest \<and> (g = gt \<or> Queue g \<in> set evs)"
proof -
  let ?r = "core_next dispatch (Queue gt) r"
  have "about_to_start {gt} (cr_core ?r)"
    using assms(1-3) by (auto simp: about_to_start_def core_next_def queue_core_def waiting_def)
  moreover have "steps_to_start (cr_core ?r) \<le> length (filter is_own evs)"
    using assms(6) by (auto simp: steps_to_start_def split: core_pc.split)
  ultimately show ?thesis
    using about_to_start_starts [of "{gt}" ?r evs dispatch] assms(4,5) by (auto simp: about_to_start_queue)
qed

theorem core_runs_queued_in_order_witness:
  "subseq [no_guest\<lparr>gt_entry_point := 64, gt_valid := True\<rparr>]
     (filter runnable [no_guest, no_guest\<lparr>gt_entry_point := 64, gt_valid := True\<rparr>])"
proof -
  let ?g = "no_guest\<lparr>gt_entry_point := 64, gt_valid := True\<rparr>" and ?s = "core_start (started_core A53)"
  let ?n = "core_next True"
  let ?r = "?n (Own False) (?n (Own False) (?n (Own False) (?n (Queue ?g) (?n (Queue no_guest) ?s))))"
  have "reach ?s (core_step True) ?r"
    by (rule reach_step [where step = "core_step True", OF _ core_step])+ (rule reach_init)
  moreover have "cr_ran ?r = [?g]" "cr_queued ?r = [no_guest, ?g]"
    by (simp_all add: core_next_def core_start_def started_core_def new_core_def queue_core_def CoreLoop_step_def runnable_def)
  ultimately show ?thesis
    using core_runs_queued_in_order [of A53 True ?r] by (simp only:)
qed

theorem queued_guest_starts_witness:
  "\<exists>g rest. cr_ran (fold (core_next True)
      ([Queue (no_guest\<lparr>gt_entry_point := 64, gt_valid := True\<rparr>), Own False, Queue (no_guest\<lparr>gt_entry_point := 128, gt_valid := True\<rparr>)]
       @ replicate 4 (Own False)) (core_start (started_core A53))) = g # rest \<and> gt_entry_point g \<in> {64, 128}"
proof -
  have "replicate 4 (Own False) = [Own False, Own False, Own False, Own False]"
    by (simp add: numeral_eq_Suc)
  then show ?thesis
    using queued_guest_starts [of "core_start (started_core A53)" "no_guest\<lparr>gt_entry_point := 64, gt_valid := True\<rparr>"
        "[Own False, Queue (no_guest\<lparr>gt_entry_point := 128, gt_valid := True\<rparr>)] @ replicate 4 (Own False)" True]
    by (auto simp: core_start_def started_core_def new_core_def waiting_def runnable_def no_guest_def simp del: fold.simps)
qed

text \<open>
  A stopped loop ends when its guest returns: at most six steps, whatever the loop is doing. A guest that never
  returns keeps the loop, and with it \<open>Stop\<close>, from ending.
\<close>

definition in_loop :: "Core \<Rightarrow> bool" where
  "in_loop c \<longleftrightarrow> core_pc c \<noteq> C_None"

lemma ended_stays: "core_pc c = C_Ended \<Longrightarrow> CoreLoop_step dispatch returns c = (c, None)"
  by (simp add: CoreLoop_step_def)

fun loop_rank :: "core_pc \<Rightarrow> nat" where
  "loop_rank C_Fetch = 6"
| "loop_rank (C_Have gt) = 5"
| "loop_rank (C_Guest gt) = 4"
| "loop_rank C_Clear = 3"
| "loop_rank C_Sleep = 2"
| "loop_rank C_Test = 1"
| "loop_rank _ = 0"

lemma loop_rank_step:
  assumes "\<not> core_running c" "in_loop c" "CoreLoop_step dispatch True c = (c', out)"
  shows "\<not> core_running c' \<and> in_loop c' \<and> loop_rank (core_pc c') \<le> loop_rank (core_pc c) - 1"
  using assms by (cases "core_pc c") (auto simp: CoreLoop_step_def in_loop_def split: if_splits)

lemma stop_ends_loop:
  assumes "\<not> core_running (cr_core r)" "in_loop (cr_core r)"
  shows "core_pc (cr_core (own_steps dispatch (replicate 6 True) r)) = C_Ended"
proof -
  have "in_loop (cr_core (own_steps dispatch (replicate n True) s)) \<and>
      loop_rank (core_pc (cr_core (own_steps dispatch (replicate n True) s))) \<le> loop_rank (core_pc (cr_core s)) - n"
    if "\<not> core_running (cr_core s)" "in_loop (cr_core s)" for n s
    using that
  proof (induction n arbitrary: s)
    case (Suc n)
    obtain c out where st: "CoreLoop_step dispatch True (cr_core s) = (c, out)"
      by (rule prod.exhaust)
    let ?s = "core_next dispatch (Own True) s"
    have "cr_core ?s = c"
      by (simp add: core_next_def st)
    then have "\<not> core_running (cr_core ?s)" "in_loop (cr_core ?s)" "loop_rank (core_pc (cr_core ?s)) \<le> loop_rank (core_pc (cr_core s)) - 1"
      using loop_rank_step [OF Suc.prems st] by simp_all
    then show ?case
      using Suc.IH [of ?s] by (auto simp: own_steps_def)
  qed (simp add: own_steps_def)
  from this [OF assms, of 6] have "in_loop (cr_core (own_steps dispatch (replicate 6 True) r))"
    "loop_rank (core_pc (cr_core (own_steps dispatch (replicate 6 True) r))) = 0"
    by (cases "core_pc (cr_core r)"; simp)+
  then show ?thesis
    by (cases "core_pc (cr_core (own_steps dispatch (replicate 6 True) r))") (simp_all add: in_loop_def)
qed

lemma guest_blocks_stop:
  assumes "core_pc (cr_core r) = C_Guest gt"
  shows "core_pc (cr_core (own_steps dispatch (replicate n False) (core_next dispatch StopRequest r))) = C_Guest gt"
proof -
  have "core_pc (cr_core (own_steps dispatch (replicate n False) s)) = C_Guest gt" if "core_pc (cr_core s) = C_Guest gt" for s
    using that by (induction n arbitrary: s) (simp_all add: own_steps_def core_next_def CoreLoop_step_def)
  then show ?thesis
    using assms by (simp add: core_next_def stop_core_def)
qed

section \<open>The lost guest\<close>

text \<open>
  A thread queued while the core runs another one is lost: when the first guest returns, the loop clears the
  valid flag of the slot, which by then belongs to the second. From there on the core never starts the second thread, unless
  something is queued again.
\<close>

theorem guest_queued_while_busy_lost:
  assumes "runnable a" "runnable b" "\<forall>ev \<in> set evs. \<forall>gt. ev \<noteq> Queue gt"
  shows "cr_ran (fold (core_next dispatch)
     ([Queue a, Own False, Own False, Own False, Queue b, Own True, Own True] @ evs) (core_start (started_core t))) = [a]"
proof -
  have idle: "cr_ran (fold (core_next dispatch) evs r) = cr_ran r"
    if "\<not> runnable (guest (cr_core r))" "\<forall>gt. core_pc (cr_core r) = C_Have gt \<longrightarrow> \<not> runnable gt" "\<forall>gt. core_pc (cr_core r) \<noteq> C_Guest gt" for r
    using assms(3) that
  proof (induction evs arbitrary: r)
    case (Cons ev evs)
    let ?r = "core_next dispatch ev r"
    have "\<not> runnable (guest (cr_core ?r))" "\<forall>gt. core_pc (cr_core ?r) = C_Have gt \<longrightarrow> \<not> runnable gt" "\<forall>gt. core_pc (cr_core ?r) \<noteq> C_Guest gt"
      "cr_ran ?r = cr_ran r"
      using Cons.prems by (cases ev; cases "core_pc (cr_core r)"; simp add: core_next_def CoreLoop_step_def stop_core_def)+
    then show ?case
      using Cons by simp
  qed simp
  let ?r = "fold (core_next dispatch) [Queue a, Own False, Own False, Own False, Queue b, Own True, Own True] (core_start (started_core t))"
  have "cr_ran ?r = [a]" "core_pc (cr_core ?r) = C_Sleep" "\<not> runnable (guest (cr_core ?r))"
    using assms(1) by (simp_all add: core_next_def core_start_def started_core_def new_core_def queue_core_def CoreLoop_step_def)
  then show ?thesis
    using idle [of ?r] by simp
qed

theorem guest_queued_while_busy_lost_witness:
  "cr_ran (fold (core_next True)
     ([Queue (no_guest\<lparr>gt_entry_point := 64, gt_valid := True\<rparr>), Own False, Own False, Own False,
       Queue (no_guest\<lparr>gt_entry_point := 128, gt_valid := True\<rparr>), Own True, Own True] @ [Own False, Own False, Own False, Own False])
     (core_start (started_core A53))) = [no_guest\<lparr>gt_entry_point := 64, gt_valid := True\<rparr>]"
  by (rule guest_queued_while_busy_lost) (simp_all add: runnable_def)

text \<open>A scheduler starts once; a second start while the threads are joinable ends the process.\<close>

lemma start_twice_terminates:
  assumes "Scheduler_Start s = Inr (res, s')" "cores s \<noteq> []"
  shows "res = Success \<and> Scheduler_Start s' = Inl Terminated"
proof -
  obtain c cs where c: "cores s = c # cs"
    using assms(2) by (cases "cores s") auto
  then obtain cs' where "start_cores (cores s) = Inr cs'" "res = Success" "s' = s\<lparr>cores := cs'\<rparr>"
    using assms(1) by (auto simp: Scheduler_Start_def split: sum.splits)
  then show ?thesis
    using c by (auto simp: Scheduler_Start_def start_core_def split: sum.splits if_splits)
qed

lemma stop_allows_restart:
  assumes "stop_join (stop_request s) = Some s'" "length (cores s) = NUM_CORES"
  shows "\<not> Scheduler_IsRunning s' \<and> (\<exists>s''. Scheduler_Start s' = Inr (Success, s'') \<and> Scheduler_IsRunning s'')"
proof -
  have start: "\<exists>ds. start_cores cs = Inr ds \<and> list_all core_running ds \<and> length ds = length cs" if "list_all (\<lambda>c. core_pc c = C_None) cs" for cs
    using that by (induction cs) (auto simp: start_core_def)
  have s': "cores s' = map ((\<lambda>c. c\<lparr>core_pc := C_None\<rparr>) \<circ> stop_core) (cores s)"
    using assms(1) by (auto simp: stop_join_def stop_request_def split: if_splits)
  then have "list_all (\<lambda>c. core_pc c = C_None) (cores s')"
    by (simp add: list_all_iff)
  from start [OF this] obtain ds where ds: "start_cores (cores s') = Inr ds" "list_all core_running ds" "length ds = 4"
    using s' assms(2) by (auto simp: NUM_CORES_def)
  then have "list_ex core_running ds"
    by (cases ds) auto
  then show ?thesis
    using ds s' by (auto simp: Scheduler_IsRunning_def Scheduler_Start_def list_ex_iff stop_core_def)
qed

end
