(* ===== verification/EmulatorCore.thy ===== *)
theory EmulatorCore
  imports PackageLoader NroLoader Scheduler
begin

text \<open>
  The emulator as a whole: \<^verbatim>\<open>src/src/core/Core.cpp\<close> and \<^verbatim>\<open>Core.h\<close>. Loading a game composes the loaders of packages, NSO and NRO
  files with the guest memory; \<^verbatim>\<open>Run\<close> makes the main thread, enters it into the kernel's handle table and starts the guest. The files of
  the host are a parameter, as are the mapping calls of the host and what lies around a file in host memory (\<open>wild\<close>). Input, audio, the
  socket of the debug server and log output are left out.
\<close>

section \<open>State\<close>

definition CORE_TLS_SLOTS_BASE :: u64 where "CORE_TLS_SLOTS_BASE = 0xFD000000"
definition TLS_IPC_OFFSET :: u64 where "TLS_IPC_OFFSET = 0x100"

text \<open>
  \<open>ec_native\<close> is the guest memory together with what patching code needs, \<open>ec_fs\<close> the state of the file system service (the mounted
  RomFS), \<open>ec_handles\<close> the member \<^verbatim>\<open>handles_\<close> and \<open>ec_kernel\<close> the table \<^verbatim>\<open>KernelHandleTable()\<close> of the system calls.
\<close>

record emulator_core =
  ec_native :: native
  ec_fs :: fs
  ec_scheduler :: scheduler
  ec_handles :: handle_table
  ec_kernel :: handle_table
  ec_load_info :: NroLoadInfo
  ec_game_path :: string
  ec_running :: bool
  ec_paused :: bool

definition new_emulator :: "native \<Rightarrow> fs \<Rightarrow> emulator_core" where
  "new_emulator n s = \<lparr>ec_native = n, ec_fs = s, ec_scheduler = new_scheduler, ec_handles = handle_table_init,
     ec_kernel = handle_table_init, ec_load_info = NroLoadInfo_init, ec_game_path = [], ec_running = False, ec_paused = False\<rparr>"

abbreviation ec_mem :: "emulator_core \<Rightarrow> memory" where
  "ec_mem c \<equiv> n_mem (ec_native c)"

definition with_mem :: "memory \<Rightarrow> emulator_core \<Rightarrow> emulator_core" where
  "with_mem m c = c\<lparr>ec_native := (ec_native c)\<lparr>n_mem := m\<rparr>\<rparr>"

text \<open>The part of \<^verbatim>\<open>InitServices\<close> that changes guest memory: the pages of the input service.\<close>

definition map_hid_memory :: "native_host \<Rightarrow> emulator_core \<Rightarrow> emulator_core" where
  "map_hid_memory h c = with_mem (snd (MapPhysical (nh_vm h) (ec_mem c) 0xE1000000 0x40000 Perm_RW None)) c"

section \<open>Loading\<close>

text \<open>
  What a load can end in besides a result: the package loader reads outside of the file, the NRO loader writes outside of it or
  does not end.
\<close>

datatype core_error = PackageError pkg_error | NroOverrun | NroLoops

text \<open>The first four bytes of the file; bytes that are missing are those of the zeroed variable.\<close>

definition probe_magic :: "u8 list \<Rightarrow> u32" where
  "probe_magic data = of_le_bytes (take 4 (data @ replicate 4 0))"

definition nro_segment :: "NsoSegment \<Rightarrow> NroSegment" where
  "nro_segment seg = \<lparr>seg_file_offset = ns_file_offset seg, seg_size = ns_size seg, seg_guest_address = ns_guest_address seg, seg_perm = ns_perm seg\<rparr>"

definition take_nso_info :: "NsoLoadInfo \<Rightarrow> NroLoadInfo \<Rightarrow> NroLoadInfo" where
  "take_nso_info nso info = info\<lparr>nro_entry_point := nso_entry_point nso, nro_info_bss_address := nso_bss_address nso,
     nro_info_bss_size := nso_bss_size nso, nro_build_id := nso_build_id nso, nro_segments := nro_segments info @ map nro_segment (nso_segments nso)\<rparr>"

definition finish_load :: "native_host \<Rightarrow> string \<Rightarrow> emulator_core \<Rightarrow> emulator_core" where
  "finish_load h path c = (with_mem (snd (SetupStack (nh_vm h) (ec_mem c) 0x100000)) c)\<lparr>ec_game_path := path\<rparr>"

definition try_executable :: "native_host \<Rightarrow> nat \<Rightarrow> u8 list \<Rightarrow> emulator_core \<Rightarrow> core_error + (bool \<times> NsoLoadInfo \<times> emulator_core)" where
  "try_executable h fuel data c =
     (if probe_magic data \<noteq> NRO0_FILE then
        (case Loader_LoadExecutable h fuel data \<lparr>p_native = ec_native c, p_fs = ec_fs c, p_info = NsoLoadInfo_init\<rparr> of
           Inl e \<Rightarrow> Inl (PackageError e)
         | Inr (ok, p) \<Rightarrow> Inr (ok, p_info p, c\<lparr>ec_native := p_native p, ec_fs := p_fs p\<rparr>))
      else Inr (False, NsoLoadInfo_init, c))"

definition try_package :: "nat \<Rightarrow> u8 list \<Rightarrow> emulator_core \<Rightarrow> core_error + emulator_core" where
  "try_package fuel data c =
     (if probe_magic data \<noteq> NRO0_FILE then
        (case Loader_LoadPackage fuel data (ec_fs c) of
           Inl e \<Rightarrow> Inl (PackageError e)
         | Inr (ok, s) \<Rightarrow> Inr (c\<lparr>ec_fs := s\<rparr>))
      else Inr c)"

definition load_nro :: "native_host \<Rightarrow> wild \<Rightarrow> string \<Rightarrow> u8 list \<Rightarrow> emulator_core \<Rightarrow> core_error + Result \<times> emulator_core" where
  "load_nro h wild path data c =
     (case nro_LoadFromBuffer h wild data (ec_native c) of
        None \<Rightarrow> Inl NroLoops
      | Some (FileOverrun, n, info) \<Rightarrow> Inl NroOverrun
      | Some (NroDone r, n, info) \<Rightarrow>
          let c1 = c\<lparr>ec_native := n, ec_load_info := info\<rparr> in
          if Failed r then Inr (r, c1)
          else if nro_segments info = [] then Inr (InvalidArgument, c1)
          else Inr (Success, finish_load h path c1))"

definition LoadGame :: "native_host \<Rightarrow> wild \<Rightarrow> nat \<Rightarrow> (string \<rightharpoonup> u8 list) \<Rightarrow> string \<Rightarrow> emulator_core \<Rightarrow> core_error + Result \<times> emulator_core" where
  "LoadGame h wild fuel files path c =
     (case files path of
        None \<Rightarrow> Inr (NotFound, c)
      | Some data \<Rightarrow>
          (case try_executable h fuel data c of
             Inl e \<Rightarrow> Inl e
           | Inr (loaded_nso, nso_info, c1) \<Rightarrow>
               if loaded_nso then Inr (Success, finish_load h path (c1\<lparr>ec_load_info := take_nso_info nso_info (ec_load_info c1)\<rparr>))
               else
                 (case try_package fuel data c1 of
                    Inl e \<Rightarrow> Inl e
                  | Inr c2 \<Rightarrow> load_nro h wild path data c2)))"

section \<open>Running\<close>

text \<open>What \<^verbatim>\<open>NativeExec::RunGuest\<close> is called with.\<close>

record guest_start =
  start_pc :: u64
  start_sp :: u64
  start_tls :: u64
  start_args :: "u64 \<times> u64 \<times> u64"

definition main_thread :: "emulator_core \<Rightarrow> kthread" where
  "main_thread c = KThread_new\<lparr>entry_point := base_addr (ec_mem c) + nro_entry_point (ec_load_info c),
     kt_stack_top := base_addr (ec_mem c) + stack_top (ec_mem c), thread_id := 1, tls_base := CORE_TLS_SLOTS_BASE, priority := 0x10\<rparr>"

definition clear_tls :: "native_host \<Rightarrow> memory \<Rightarrow> memory" where
  "clear_tls h m =
     (let m1 = snd (MapPhysical (nh_vm h) m CORE_TLS_SLOTS_BASE 0x1000 Perm_RW None)
      in case Pointer m1 CORE_TLS_SLOTS_BASE of None \<Rightarrow> m1 | Some _ \<Rightarrow> memset_guest m1 CORE_TLS_SLOTS_BASE 0 0x1000)"

definition Run :: "native_host \<Rightarrow> emulator_core \<Rightarrow> Result \<times> emulator_core \<times> guest_start option" where
  "Run h c =
     (if ec_game_path c = [] then (NotFound, c, None)
      else if ec_running c then (Success, c, None)
      else
        let t = main_thread c;
            m = clear_tls h (ec_mem c);
            (handle, table) = ht_Create (ec_kernel c) (KThread (t\<lparr>started := True, running := True\<rparr>))
        in (Success, (with_mem m c)\<lparr>ec_running := True, ec_paused := False, ec_kernel := table\<rparr>,
            Some \<lparr>start_pc = entry_point t, start_sp = kt_stack_top t, start_tls = tls_base t, start_args = (0, ucast handle, 0)\<rparr>))"

text \<open>
  The rest of the guest's host thread, once \<^verbatim>\<open>RunGuest\<close> has returned. The host thread keeps a pointer to the main thread; closing its handle
  deletes the object, and the writes then go to freed memory (\<open>None\<close>).
\<close>

definition main_guest_exited :: "u32 \<Rightarrow> emulator_core \<Rightarrow> emulator_core option" where
  "main_guest_exited handle c =
     (case get_thread (ec_kernel c) handle of
        None \<Rightarrow> None
      | Some t \<Rightarrow> Some (c\<lparr>ec_running := False, ec_kernel := ht_put (ec_kernel c) handle (KThread (MarkFinished (t\<lparr>running := False\<rparr>)))\<rparr>))"

text \<open>\<open>None\<close>: a core of the scheduler still runs and the join waits.\<close>

definition EmulatorCore_Stop :: "emulator_core \<Rightarrow> emulator_core option" where
  "EmulatorCore_Stop c =
     map_option (\<lambda>s. c\<lparr>ec_running := False, ec_paused := False, ec_scheduler := s, ec_handles := ht_CloseAll (ec_handles c)\<rparr>)
       (stop_join (stop_request (ec_scheduler c)))"

definition EmulatorCore_Pause :: "emulator_core \<Rightarrow> emulator_core" where
  "EmulatorCore_Pause c = (if ec_running c \<and> \<not> ec_paused c then c\<lparr>ec_paused := True\<rparr> else c)"

definition EmulatorCore_Resume :: "emulator_core \<Rightarrow> emulator_core" where
  "EmulatorCore_Resume c = (if ec_paused c then c\<lparr>ec_paused := False\<rparr> else c)"

definition GetTlsIpcBuffer :: "emulator_core \<Rightarrow> u64 \<Rightarrow> u64 option" where
  "GetTlsIpcBuffer c tls = map_option (\<lambda>p. p + TLS_IPC_OFFSET) (Pointer (ec_mem c) tls)"

section \<open>A loaded game runs\<close>

lemma Create_get_thread: "get_thread (snd (ht_Create t (KThread k))) (fst (ht_Create t (KThread k))) = Some k"
  by (simp add: ht_Create_def get_thread_def ht_Get_def Let_def)

lemma finish_load_simps [simp]:
  "ec_running (finish_load h path c) = ec_running c" "ec_game_path (finish_load h path c) = path"
  "ec_load_info (finish_load h path c) = ec_load_info c" "ec_kernel (finish_load h path c) = ec_kernel c"
  by (simp_all add: finish_load_def with_mem_def)

lemma try_executable_frame:
  "try_executable h fuel data c = Inr (ok, info, c') \<Longrightarrow>
     ec_running c' = ec_running c \<and> ec_game_path c' = ec_game_path c \<and> ec_load_info c' = ec_load_info c \<and> ec_kernel c' = ec_kernel c"
  by (auto simp: try_executable_def split: if_splits sum.splits)

lemma try_package_frame:
  "try_package fuel data c = Inr c' \<Longrightarrow>
     ec_running c' = ec_running c \<and> ec_game_path c' = ec_game_path c \<and> ec_load_info c' = ec_load_info c \<and> ec_kernel c' = ec_kernel c"
  by (auto simp: try_package_def split: if_splits sum.splits)

lemma load_nro_frame:
  "load_nro h wild path data c = Inr (r, c') \<Longrightarrow>
     ec_running c' = ec_running c \<and> ec_kernel c' = ec_kernel c \<and> ec_game_path c' = (if r = Success then path else ec_game_path c)"
  by (auto simp: load_nro_def Let_def split: option.splits nro_end.splits if_splits prod.splits)

lemma LoadGame_frame:
  assumes "LoadGame h wild fuel files path c = Inr (r, c')"
  shows "ec_running c' = ec_running c \<and> ec_kernel c' = ec_kernel c \<and> ec_game_path c' = (if r = Success then path else ec_game_path c)"
  using assms unfolding LoadGame_def
  by (auto split: option.splits sum.splits prod.splits if_splits dest!: try_executable_frame try_package_frame load_nro_frame)

lemma Run_starts:
  assumes "ec_game_path c \<noteq> []" "\<not> ec_running c"
  shows "Run h c = (Success, (with_mem (clear_tls h (ec_mem c)) c)\<lparr>ec_running := True, ec_paused := False,
        ec_kernel := snd (ht_Create (ec_kernel c) (KThread ((main_thread c)\<lparr>started := True, running := True\<rparr>)))\<rparr>,
      Some \<lparr>start_pc = entry_point (main_thread c), start_sp = kt_stack_top (main_thread c), start_tls = CORE_TLS_SLOTS_BASE,
        start_args = (0, ucast (fst (ht_Create (ec_kernel c) (KThread ((main_thread c)\<lparr>started := True, running := True\<rparr>)))), 0)\<rparr>)"
  using assms by (simp add: Run_def Let_def main_thread_def split_beta)

text \<open>Where every loader puts the entry point: at the base of the image, in NSO files (bare or from a package) as in NRO files.\<close>

lemma segments_not_success: "map_segments h buf base segs s \<noteq> (Some (Done Success), s')"
  by (induction h buf base segs s rule: map_segments.induct) (auto simp: segment_not_success split: prod.splits option.splits)

lemma nso_load_entry: "nso_LoadFromBuffer h buf base n = (Done r, n', info) \<Longrightarrow> \<not> Failed r \<Longrightarrow> nso_entry_point info = base"
  by (auto simp: nso_LoadFromBuffer_def DecompressAndMap_def segments_not_success bss_not_success Failed_def
      split: option.splits prod.splits)

lemma load_nso_entry: "load_nso h data p = Inr (True, p') \<Longrightarrow> nso_entry_point (p_info p') = NSO_BASE_ADDRESS"
  by (auto simp: load_nso_def split: load_end.splits prod.splits dest: nso_load_entry)

lemma load_main_entry: "load_main h buf a info p = Inr (True, p') \<Longrightarrow> nso_entry_point (p_info p') = NSO_BASE_ADDRESS"
  by (auto simp: load_main_def bind_sum_def Let_def split: sum.splits option.splits prod.splits if_splits dest: load_nso_entry)

lemma member_entry:
  "nsp_member h fuel buf e name p = Inr (True, p') \<Longrightarrow> nso_entry_point (p_info p') = NSO_BASE_ADDRESS"
  "xci_member h fuel buf off e name p = Inr (True, p') \<Longrightarrow> nso_entry_point (p_info p') = NSO_BASE_ADDRESS"
  by (auto simp: nsp_member_def xci_member_def bind_sum_def Let_def split: sum.splits prod.splits if_splits dest: load_main_entry)

lemma first_success_entry:
  assumes "\<And>e name p p'. f e name p = Inr (True, p') \<Longrightarrow> nso_entry_point (p_info p') = NSO_BASE_ADDRESS"
  shows "first_success f es p = Inr (True, p') \<Longrightarrow> nso_entry_point (p_info p') = NSO_BASE_ADDRESS"
  by (induction es arbitrary: p) (auto simp: bind_sum_def split: sum.splits prod.splits if_splits dest: assms)

lemma LoadExecutable_entry: "Loader_LoadExecutable h fuel buf p = Inr (True, p') \<Longrightarrow> nso_entry_point (p_info p') = NSO_BASE_ADDRESS"
  using first_success_entry [of "nsp_member h fuel buf"] first_success_entry [of "xci_member h fuel buf (le64 buf 0x150)"] member_entry
  by (auto simp: Loader_LoadExecutable_def bind_sum_def Let_def split: sum.splits option.splits prod.splits if_splits dest: load_nso_entry)

lemma nro_map_entry: "nro_map nh wild buf h d n info = (r, n', info') \<Longrightarrow> \<not> Failed r \<Longrightarrow> nro_entry_point info' = NRO_TEXT_BASE"
  by (auto simp: nro_map_def nro_layout_def Let_def split: prod.splits if_splits)

lemma nro_load_entry:
  assumes "nro_LoadFromBuffer nh wild buf n = Some (NroDone r, n', info)" "\<not> Failed r"
  shows "nro_entry_point info = NRO_TEXT_BASE"
proof (cases "nro_ParseHeader wild buf")
  case (Some h)
  then obtain buf' d i where "nro_map nh wild buf' h d n i = (r, n', info)"
    using assms(1) by (auto simp: nro_LoadFromBuffer_def Let_def bind_eq_Some_conv split_beta split: option.splits) (metis prod.collapse)
  then show ?thesis
    using assms(2) by (rule nro_map_entry)
qed (use assms in \<open>auto simp: nro_LoadFromBuffer_def Failed_def\<close>)

lemma LoadGame_entry:
  assumes "LoadGame h wild fuel files path c = Inr (Success, c')"
  shows "nro_entry_point (ec_load_info c') = 0x40000000"
proof -
  have exe: "nso_entry_point info = 0x40000000" if "try_executable h fuel data c0 = Inr (True, info, c1)" for data c0 info c1
    using that by (auto simp: try_executable_def split: if_splits sum.splits dest!: LoadExecutable_entry simp: NSO_BASE_ADDRESS_def)
  have nro: "nro_entry_point (ec_load_info c1) = 0x40000000" if "load_nro h wild path data c0 = Inr (Success, c1)" for data c0 c1
    using that by (auto simp: load_nro_def Let_def NRO_TEXT_BASE_def split: option.splits nro_end.splits if_splits prod.splits dest!: nro_load_entry)
  show ?thesis
    using assms unfolding LoadGame_def
    by (auto split: option.splits sum.splits prod.splits if_splits simp: take_nso_info_def exe dest!: nro)
qed

text \<open>
  Property C18. A game that was loaded runs: whatever the format of the file, \<^verbatim>\<open>Run\<close> then starts the guest at the address \<open>0x40000000\<close> of its
  address space, the base at which all loaders place the image, on the guest stack and
  with the handle of the main thread as its second argument; the system calls find that thread, started and running, under the handle; a
  second \<^verbatim>\<open>Run\<close> starts nothing. When the guest returns, in whatever state it has brought the emulator to, with the thread still under the handle,
  then the thread is finished, so that waiting for it succeeds, no other handle is affected, and the emulator no longer runs.
\<close>

theorem loaded_game_runs:
  assumes "LoadGame h wild fuel files path c = Inr (Success, c1)" "path \<noteq> []" "\<not> ec_running c"
  shows "\<exists>c2 handle.
    Run h c1 = (Success, c2, Some \<lparr>start_pc = base_addr (ec_mem c1) + 0x40000000,
      start_sp = base_addr (ec_mem c1) + stack_top (ec_mem c1), start_tls = CORE_TLS_SLOTS_BASE, start_args = (0, ucast handle, 0)\<rparr>) \<and>
    get_thread (ec_kernel c2) handle = Some ((main_thread c1)\<lparr>started := True, running := True\<rparr>) \<and>
    (\<forall>h'. h' \<noteq> handle \<longrightarrow> ht_Get (ec_kernel c2) h' = ht_Get (ec_kernel c1) h') \<and>
    Run h c2 = (Success, c2, None) \<and>
    (\<forall>c3 t. get_thread (ec_kernel c3) handle = Some t \<longrightarrow>
      (\<exists>c4. main_guest_exited handle c3 = Some c4 \<and> \<not> ec_running c4 \<and>
        (\<exists>ob. ht_Get (ec_kernel c4) handle = Some ob \<and> IsSignaled ob) \<and>
        (\<forall>h'. h' \<noteq> handle \<longrightarrow> ht_Get (ec_kernel c4) h' = ht_Get (ec_kernel c3) h')))"
proof -
  have c1: "ec_game_path c1 \<noteq> []" "\<not> ec_running c1"
    using LoadGame_frame [OF assms(1)] assms(2,3) by simp_all
  let ?t = "(main_thread c1)\<lparr>started := True, running := True\<rparr>"
  let ?new = "ht_Create (ec_kernel c1) (KThread ?t)"
  define c2 where "c2 = (with_mem (clear_tls h (ec_mem c1)) c1)\<lparr>ec_running := True, ec_paused := False, ec_kernel := snd ?new\<rparr>"
  have "get_thread (ec_kernel c2) (fst ?new) = Some ?t"
    by (simp add: c2_def Create_get_thread)
  moreover have "ht_Get (ec_kernel c2) h' = ht_Get (ec_kernel c1) h'" if "h' \<noteq> fst ?new" for h'
    using that by (simp add: c2_def ht_Create_def ht_Get_def Let_def)
  moreover have "Run h c2 = (Success, c2, None)"
    using c1 by (simp add: Run_def c2_def with_mem_def)
  moreover have "Run h c1 = (Success, c2, Some \<lparr>start_pc = base_addr (ec_mem c1) + 0x40000000,
      start_sp = base_addr (ec_mem c1) + stack_top (ec_mem c1), start_tls = CORE_TLS_SLOTS_BASE, start_args = (0, ucast (fst ?new), 0)\<rparr>)"
    using Run_starts [OF c1, of h] by (simp add: c2_def main_thread_def LoadGame_entry [OF assms(1)])
  moreover have "\<exists>c4. main_guest_exited (fst ?new) c3 = Some c4 \<and> \<not> ec_running c4 \<and>
      (\<exists>ob. ht_Get (ec_kernel c4) (fst ?new) = Some ob \<and> IsSignaled ob) \<and>
      (\<forall>h'. h' \<noteq> fst ?new \<longrightarrow> ht_Get (ec_kernel c4) h' = ht_Get (ec_kernel c3) h')"
    if "get_thread (ec_kernel c3) (fst ?new) = Some t" for c3 t
    using that by (simp add: main_guest_exited_def MarkFinished_def)
  ultimately show ?thesis
    by (intro exI [of _ c2] exI [of _ "fst ?new"]) blast
qed

text \<open>
  A load that fails leaves the emulator half changed: when a file that is no game is loaded after a game, \<^verbatim>\<open>LoadGame\<close> reports
  the error, but the entry point is reset while the path of the game stays, and \<^verbatim>\<open>Run\<close> starts the guest at the first byte of the address space.
\<close>

theorem failed_load_then_run:
  assumes "LoadGame h wild fuel files path c = Inr (InvalidArgument, c1)" "files path = Some data" "nro_ParseHeader wild data = None"
    and "ec_game_path c \<noteq> []" "\<not> ec_running c"
  shows "\<exists>c2 s. Run h c1 = (Success, c2, Some s) \<and> start_pc s = base_addr (ec_mem c1)"
proof -
  obtain ok info ce where e: "try_executable h fuel data c = Inr (ok, info, ce)" and ok: "\<not> ok"
    using assms(1,2) by (auto simp: LoadGame_def split: sum.splits prod.splits if_splits)
  then obtain cp where p: "try_package fuel data ce = Inr cp" and n: "load_nro h wild path data cp = Inr (InvalidArgument, c1)"
    using assms(1,2) by (auto simp: LoadGame_def split: sum.splits)
  have "ec_load_info c1 = NroLoadInfo_init"
    using n assms(3) by (auto simp: load_nro_def nro_LoadFromBuffer_def)
  then show ?thesis
    using LoadGame_frame [OF assms(1)] assms(4,5) Run_starts [of c1 h] by (simp add: main_thread_def NroLoadInfo_init_def)
qed

text \<open>The segments of an NSO are added to those of what was loaded before.\<close>

lemma nso_segments_accumulate:
  assumes "try_executable h fuel data c = Inr (True, nso, c1)" "files path = Some data"
  shows "\<exists>c2. LoadGame h wild fuel files path c = Inr (Success, c2) \<and>
    nro_segments (ec_load_info c2) = nro_segments (ec_load_info c) @ map nro_segment (nso_segments nso)"
  using assms try_executable_frame [OF assms(1)] by (simp add: LoadGame_def take_nso_info_def)

text \<open>\<^verbatim>\<open>Stop\<close> closes the handles of the table that nothing uses; the main thread stays in the kernel's table.\<close>

lemma Stop_keeps_kernel_handles: "EmulatorCore_Stop c = Some c' \<Longrightarrow> ec_kernel c' = ec_kernel c"
  by (auto simp: EmulatorCore_Stop_def)

lemma Stop_returns: "\<exists>c'. EmulatorCore_Stop (new_emulator n s) = Some c'"
  by (simp add: EmulatorCore_Stop_def new_emulator_def new_scheduler_def stop_request_def stop_join_def stop_core_def new_core_def)

theorem failed_load_then_run_witness:
  "\<exists>c2 s. Run sample_host ((new_emulator sample_native fs_init)\<lparr>ec_game_path := ''game''\<rparr>) = (Success, c2, Some s) \<and>
    start_pc s = base_addr (n_mem sample_native)"
proof -
  let ?c = "(new_emulator sample_native fs_init)\<lparr>ec_game_path := ''game''\<rparr>"
  have "nro_LoadFromBuffer sample_host (\<lambda>_. 0) [] n = Some (NroDone InvalidArgument, n, NroLoadInfo_init)" for n
    by (simp add: nro_LoadFromBuffer_def nro_ParseHeader_def)
  then have "LoadGame sample_host (\<lambda>_. 0) 0 [''empty'' \<mapsto> []] ''empty'' ?c = Inr (InvalidArgument, ?c)"
    by (simp add: LoadGame_def try_executable_def try_package_def load_nro_def Loader_LoadExecutable_def Loader_LoadPackage_def new_emulator_def)
  then show ?thesis
    using failed_load_then_run [of sample_host "\<lambda>_. 0" 0 "[''empty'' \<mapsto> []]" "''empty''" ?c ?c "[]"]
    by (simp add: nro_ParseHeader_def new_emulator_def)
qed

theorem loaded_game_runs_witness:
  "\<exists>c1 c2 handle. LoadGame sample_host (\<lambda>_. 0) 0 [''game'' \<mapsto> nso_file small_segs 0 [1, 2, 3, 4]] ''game'' (new_emulator sample_native fs_init) = Inr (Success, c1) \<and>
    Run sample_host c1 = (Success, c2, Some \<lparr>start_pc = base_addr (ec_mem c1) + 0x40000000,
      start_sp = base_addr (ec_mem c1) + stack_top (ec_mem c1), start_tls = CORE_TLS_SLOTS_BASE, start_args = (0, ucast (handle :: u32), 0)\<rparr>)"
proof -
  let ?f = "nso_file small_segs 0 [1, 2, 3, 4]" and ?c = "new_emulator sample_native fs_init"
  have "fst (nso_LoadFromBuffer sample_host ?f NSO_BASE_ADDRESS sample_native) = Done Success"
    by code_simp
  then obtain n info where load: "nso_LoadFromBuffer sample_host ?f NSO_BASE_ADDRESS sample_native = (Done Success, n, info)"
    by (metis prod.collapse)
  have "length ?f \<ge> 4 \<and> word_at ?f 0 = NSO0_MAGIC \<and> probe_magic ?f = NSO0_MAGIC"
    by code_simp
  then have "\<exists>c1. LoadGame sample_host (\<lambda>_. 0) 0 [''game'' \<mapsto> ?f] ''game'' ?c = Inr (Success, c1)"
    using load by (simp add: LoadGame_def try_executable_def Loader_LoadExecutable_def load_nso_def new_emulator_def NSO0_MAGIC_def NRO0_FILE_def
        PFS0_MAGIC_def XCI_MAGIC_def)
  then obtain c1 where c1: "LoadGame sample_host (\<lambda>_. 0) 0 [''game'' \<mapsto> ?f] ''game'' ?c = Inr (Success, c1)" ..
  have "\<not> ec_running ?c" "''game'' \<noteq> []"
    by (simp_all add: new_emulator_def)
  then show ?thesis
    using loaded_game_runs [OF c1] c1 by blast
qed

end
