(* ===== verification/GameLibrary.thy ===== *)
theory GameLibrary
  imports TextFormat "HOL-Library.Multiset"
begin

text \<open>
  The game library: \<^verbatim>\<open>src/src/frontend/Library/GameModel.cpp\<close> and \<^verbatim>\<open>GameModel.h\<close>. A library is the list of its entries. The file system is
  a parameter: \<open>files path\<close> is the contents of a file that can be opened, \<open>writable path\<close> tells whether it can be written.
\<close>

section \<open>Entries\<close>

record GameEntry =
  ge_path :: string
  ge_title :: string
  ge_author :: string
  ge_version :: string
  ge_build_id :: string
  ge_file_size :: u64
  ge_added_time :: u64
  ge_last_played :: u64
  ge_play_count :: u32
  ge_is_favorite :: bool
  ge_has_icon :: bool

definition GameEntry_ToJSON :: "GameEntry \<Rightarrow> string" where
  "GameEntry_ToJSON e =
     ''{'' @ [nl] @
     js ''  `path`: `'' @ ge_path e @ js ''`,'' @ [nl] @
     js ''  `title`: `'' @ ge_title e @ js ''`,'' @ [nl] @
     js ''  `author`: `'' @ ge_author e @ js ''`,'' @ [nl] @
     js ''  `version`: `'' @ ge_version e @ js ''`,'' @ [nl] @
     js ''  `build_id`: `'' @ ge_build_id e @ js ''`,'' @ [nl] @
     js ''  `file_size`: '' @ dec_str (ge_file_size e) @ '','' @ [nl] @
     js ''  `added_time`: '' @ dec_str (ge_added_time e) @ '','' @ [nl] @
     js ''  `last_played`: '' @ dec_str (ge_last_played e) @ '','' @ [nl] @
     js ''  `play_count`: '' @ dec_str (ge_play_count e) @ '','' @ [nl] @
     js ''  `is_favorite`: '' @ bool_str (ge_is_favorite e) @ '','' @ [nl] @
     js ''  `has_icon`: '' @ bool_str (ge_has_icon e) @ [nl] @
     ''}''"

text \<open>
  The value of a key: the text behind the colon that follows the quoted key. (The code looks for the colon from
  the start of the quoted key on; no key has one.)
\<close>

definition json_value :: "string \<Rightarrow> string" where
  "json_value s =
     (case after '':'' s of
        None \<Rightarrow> []
      | Some r \<Rightarrow> takeWhile (\<lambda>c. c \<notin> {dq, CHR '','', nl, CHR ''}''}) (dropWhile (\<lambda>c. c = CHR '' '' \<or> c = dq) r))"

definition json_find :: "string \<Rightarrow> string \<Rightarrow> string" where
  "json_find json key = (case after (dq # key @ [dq]) json of None \<Rightarrow> [] | Some r \<Rightarrow> json_value r)"

text \<open>
  \<^verbatim>\<open>std::stoull\<close> and \<^verbatim>\<open>std::stoul\<close> read 64 bits; a minus sign negates modulo \<open>2 ^ 64\<close>; a number out of range
  throws, which is caught.
\<close>

definition safe_stoull :: "string \<Rightarrow> u64" where
  "safe_stoull s =
     (case parse_number 0 s of
        None \<Rightarrow> 0
      | Some (neg, n) \<Rightarrow> if n \<ge> 2 ^ 64 then 0 else if neg then - of_nat n else of_nat n)"

definition safe_stoul :: "string \<Rightarrow> u32" where
  "safe_stoul s = ucast (safe_stoull s)"

definition GameEntry_FromJSON :: "string \<Rightarrow> GameEntry" where
  "GameEntry_FromJSON json =
     (let title = json_find json ''title''; path = json_find json ''path'' in
      \<lparr>ge_path = path,
       ge_title = (if title = [] then path else title),
       ge_author = json_find json ''author'',
       ge_version = json_find json ''version'',
       ge_build_id = json_find json ''build_id'',
       ge_file_size = safe_stoull (json_find json ''file_size''),
       ge_added_time = safe_stoull (json_find json ''added_time''),
       ge_last_played = safe_stoull (json_find json ''last_played''),
       ge_play_count = safe_stoul (json_find json ''play_count''),
       ge_is_favorite = (json_find json ''is_favorite'' = ''true''),
       ge_has_icon = (json_find json ''has_icon'' = ''true'')\<rparr>)"

section \<open>The library\<close>

fun AddOrUpdate :: "GameEntry \<Rightarrow> GameEntry list \<Rightarrow> GameEntry list" where
  "AddOrUpdate entry [] = [entry]"
| "AddOrUpdate entry (g # gs) = (if ge_path g = ge_path entry then entry # gs else g # AddOrUpdate entry gs)"

fun GameLibrary_Remove :: "string \<Rightarrow> GameEntry list \<Rightarrow> bool \<times> GameEntry list" where
  "GameLibrary_Remove path [] = (False, [])"
| "GameLibrary_Remove path (g # gs) =
     (if ge_path g = path then (True, gs) else let (found, gs') = GameLibrary_Remove path gs in (found, g # gs'))"

fun GameLibrary_Find :: "string \<Rightarrow> GameEntry list \<Rightarrow> GameEntry option" where
  "GameLibrary_Find path [] = None"
| "GameLibrary_Find path (g # gs) = (if ge_path g = path then Some g else GameLibrary_Find path gs)"

definition tolower :: "char \<Rightarrow> char" where
  "tolower c = (let n = of_char c :: nat in if 65 \<le> n \<and> n \<le> 90 then char_of (n + 32) else c)"

definition GameLibrary_Search :: "string \<Rightarrow> GameEntry list \<Rightarrow> GameEntry list" where
  "GameLibrary_Search query gs = filter (\<lambda>g. after (map tolower query) (map tolower (ge_title g)) \<noteq> None) gs"

datatype SortBy = Title | Added | LastPlayed | FileSize

text \<open>\<^verbatim>\<open>std::string::compare\<close> compares bytes as unsigned numbers.\<close>

fun compare_str :: "string \<Rightarrow> string \<Rightarrow> int" where
  "compare_str [] [] = 0"
| "compare_str [] (b # bs) = - 1"
| "compare_str (a # as) [] = 1"
| "compare_str (a # as) (b # bs) =
     (if (of_char a :: nat) < of_char b then - 1 else if (of_char a :: nat) > of_char b then 1 else compare_str as bs)"

definition compare_num :: "u64 \<Rightarrow> u64 \<Rightarrow> int" where
  "compare_num a b = (if a < b then - 1 else if a > b then 1 else 0)"

fun entry_cmp :: "SortBy \<Rightarrow> GameEntry \<Rightarrow> GameEntry \<Rightarrow> int" where
  "entry_cmp Title a b = compare_str (ge_title a) (ge_title b)"
| "entry_cmp Added a b = compare_num (ge_added_time a) (ge_added_time b)"
| "entry_cmp LastPlayed a b = compare_num (ge_last_played a) (ge_last_played b)"
| "entry_cmp FileSize a b = compare_num (ge_file_size a) (ge_file_size b)"

definition entry_before :: "SortBy \<Rightarrow> bool \<Rightarrow> GameEntry \<Rightarrow> GameEntry \<Rightarrow> bool" where
  "entry_before s ascending a b = (if ascending then entry_cmp s a b < 0 else entry_cmp s a b > 0)"

text \<open>
  \<^verbatim>\<open>std::sort\<close> leaves some rearrangement in which no later entry comes before an earlier one; which one of
  several is not specified, so the operation is the relation between a library and its possible results.
\<close>

definition Sort_result :: "SortBy \<Rightarrow> bool \<Rightarrow> GameEntry list \<Rightarrow> GameEntry list \<Rightarrow> bool" where
  "Sort_result s ascending gs gs' \<longleftrightarrow> mset gs' = mset gs \<and> sorted_wrt (\<lambda>a b. \<not> entry_before s ascending b a) gs'"

fun ToggleFavorite :: "string \<Rightarrow> GameEntry list \<Rightarrow> GameEntry list" where
  "ToggleFavorite path [] = []"
| "ToggleFavorite path (g # gs) =
     (if ge_path g = path then g\<lparr>ge_is_favorite := \<not> ge_is_favorite g\<rparr> # gs else g # ToggleFavorite path gs)"

section \<open>Library files\<close>

text \<open>
  \<open>load_scan\<close> is the loop of \<^verbatim>\<open>GameLibrary::Load\<close>: the text from index \<open>i\<close> on, the depth and the entry read so
  far. \<open>skip_entry\<close> is the inner loop with the step back that makes an opening brace be read again.
\<close>

definition skip_entry :: "string \<Rightarrow> string" where
  "skip_entry s =
     (case dropWhile (\<lambda>c. c \<noteq> CHR ''{'' \<and> c \<noteq> CHR '']'') s of
        [] \<Rightarrow> []
      | c # cs \<Rightarrow> if c = CHR ''{'' then c # cs else cs)"

definition depth_after :: "char \<Rightarrow> int \<Rightarrow> int" where
  "depth_after c d = (if c = CHR ''{'' then d + 1 else if c = CHR ''}'' then d - 1 else d)"

lemma skip_entry_le: "length (skip_entry s) \<le> length s"
  using length_dropWhile_le [of "\<lambda>c. c \<noteq> CHR ''{'' \<and> c \<noteq> CHR '']''" s]
  by (auto simp: skip_entry_def split: list.split)

lemma skip_entry_Cons: "c \<noteq> CHR ''{'' \<Longrightarrow> length (skip_entry (c # cs)) < Suc (length cs)"
  using skip_entry_le [of cs] by (cases "c = CHR '']''") (auto simp: skip_entry_def less_Suc_eq_le)

function load_scan :: "string \<Rightarrow> int \<Rightarrow> string \<Rightarrow> GameEntry list" where
  "load_scan [] d entry = []"
| "load_scan (c # cs) d entry =
     (if depth_after c d = 0
      then GameEntry_FromJSON (entry @ [c]) # load_scan (skip_entry (c # cs)) 0 []
      else load_scan cs (depth_after c d) (entry @ [c]))"
  by pat_completeness auto
termination
proof (relation "measures [\<lambda>(s, d, entry). length s, \<lambda>(s, d, entry). if d < 0 then 1 else 0]", goal_cases)
  case (2 c cs d entry)
  show ?case
  proof (cases "c = CHR ''{''")
    case True
    then show ?thesis
      using 2 by (simp add: skip_entry_def depth_after_def)
  next
    case False
    then show ?thesis
      using skip_entry_Cons [of c cs] by simp
  qed
qed simp_all

definition load_text :: "string \<Rightarrow> GameEntry list \<Rightarrow> bool \<times> GameEntry list" where
  "load_text text gs =
     (case after ''['' (concat (map (\<lambda>l. l @ [nl]) (file_lines text))) of
        None \<Rightarrow> (False, gs)
      | Some s \<Rightarrow> (True, load_scan s 0 []))"

definition GameLibrary_Load :: "(string \<rightharpoonup> string) \<Rightarrow> string \<Rightarrow> GameEntry list \<Rightarrow> bool \<times> GameEntry list" where
  "GameLibrary_Load files path gs = (case files path of None \<Rightarrow> (False, gs) | Some text \<Rightarrow> load_text text gs)"

fun save_entries :: "GameEntry list \<Rightarrow> string" where
  "save_entries [] = []"
| "save_entries [g] = GameEntry_ToJSON g @ [nl]"
| "save_entries (g # h # gs) = GameEntry_ToJSON g @ '','' @ [nl] @ save_entries (h # gs)"

definition save_text :: "GameEntry list \<Rightarrow> string" where
  "save_text gs = ''['' @ [nl] @ save_entries gs @ '']'' @ [nl]"

definition GameLibrary_Save :: "(string \<Rightarrow> bool) \<Rightarrow> string \<Rightarrow> GameEntry list \<Rightarrow> (string \<rightharpoonup> string) \<Rightarrow> bool \<times> (string \<rightharpoonup> string)" where
  "GameLibrary_Save writable path gs files =
     (if writable path then (True, files(path \<mapsto> save_text gs)) else (False, files))"

section \<open>The library is a map from paths to entries\<close>

definition paths_distinct :: "GameEntry list \<Rightarrow> bool" where
  "paths_distinct gs \<longleftrightarrow> distinct (map ge_path gs)"

definition library_map :: "GameEntry list \<Rightarrow> string \<rightharpoonup> GameEntry" where
  "library_map gs = map_of (map (\<lambda>g. (ge_path g, g)) gs)"

lemma Find_map: "GameLibrary_Find p gs = library_map gs p"
  by (induction gs) (simp_all add: library_map_def)

lemma library_map_simps [simp]:
  "library_map [] = Map.empty" "library_map (g # gs) = (library_map gs)(ge_path g \<mapsto> g)"
  by (simp_all add: library_map_def)

lemma library_map_None: "library_map gs p = None \<longleftrightarrow> p \<notin> ge_path ` set gs"
  by (induction gs) auto

lemma AddOrUpdate_paths: "ge_path ` set (AddOrUpdate e gs) = insert (ge_path e) (ge_path ` set gs)"
  by (induction gs) auto

lemma AddOrUpdate_map: "library_map (AddOrUpdate e gs) = (library_map gs)(ge_path e \<mapsto> e)"
  by (induction gs) (auto simp: fun_upd_twist)

lemma AddOrUpdate_distinct: "paths_distinct gs \<Longrightarrow> paths_distinct (AddOrUpdate e gs)"
  using AddOrUpdate_paths by (induction gs) (auto simp: paths_distinct_def)

lemma Remove_paths: "ge_path ` set (snd (GameLibrary_Remove p gs)) \<subseteq> ge_path ` set gs"
  by (induction gs) (simp_all add: split_beta, blast)

lemma Remove_distinct: "paths_distinct gs \<Longrightarrow> paths_distinct (snd (GameLibrary_Remove p gs))"
proof (induction gs)
  case (Cons g gs)
  then show ?case
    using Remove_paths [of p gs] by (auto simp: paths_distinct_def split_beta)
qed (simp add: paths_distinct_def)

lemma Remove_map:
  "paths_distinct gs \<Longrightarrow> fst (GameLibrary_Remove p gs) = (library_map gs p \<noteq> None) \<and>
     library_map (snd (GameLibrary_Remove p gs)) = (library_map gs)(p := None)"
proof (induction gs)
  case (Cons g gs)
  have "library_map gs p = None" if "ge_path g = p"
    using Cons.prems that by (auto simp: library_map_None paths_distinct_def)
  then show ?case
    using Cons by (auto simp: paths_distinct_def fun_eq_iff split: prod.splits)
qed simp

lemma Toggle_paths: "map ge_path (ToggleFavorite p gs) = map ge_path gs"
  by (induction gs) auto

lemma Toggle_map:
  "library_map (ToggleFavorite p gs) =
    (case library_map gs p of
       None \<Rightarrow> library_map gs
     | Some g \<Rightarrow> (library_map gs)(p \<mapsto> g\<lparr>ge_is_favorite := \<not> ge_is_favorite g\<rparr>))"
  by (induction gs) (auto simp: fun_eq_iff split: option.splits)

text \<open>
  Property C39. The library behaves as a map from paths to entries with no path twice: adding replaces or inserts under the path of
  the entry, removing deletes and tells whether there was one, toggling flips the mark of one entry, sorting in any of the
  results it may have changes nothing of the map, and a lookup is the lookup of the map.
\<close>

theorem library_refines_map:
  assumes "paths_distinct gs"
  shows "GameLibrary_Find p gs = library_map gs p \<and>
    paths_distinct (AddOrUpdate e gs) \<and> library_map (AddOrUpdate e gs) = (library_map gs)(ge_path e \<mapsto> e) \<and>
    paths_distinct (snd (GameLibrary_Remove p gs)) \<and> library_map (snd (GameLibrary_Remove p gs)) = (library_map gs)(p := None) \<and>
    fst (GameLibrary_Remove p gs) = (library_map gs p \<noteq> None) \<and>
    paths_distinct (ToggleFavorite p gs) \<and>
    library_map (ToggleFavorite p gs) = (library_map gs)(p := map_option (\<lambda>g. g\<lparr>ge_is_favorite := \<not> ge_is_favorite g\<rparr>) (library_map gs p)) \<and>
    (\<forall>gs'. Sort_result s asc gs gs' \<longrightarrow> paths_distinct gs' \<and> library_map gs' = library_map gs)"
proof -
  have sort: "paths_distinct gs' \<and> library_map gs' = library_map gs" if "Sort_result s asc gs gs'" for gs'
  proof -
    have m: "mset gs' = mset gs"
      using that by (simp add: Sort_result_def)
    then have d: "paths_distinct gs'"
      using assms unfolding paths_distinct_def by (metis mset_map mset_eq_imp_distinct_iff)
    have keys: "map fst (map (\<lambda>g. (ge_path g, g)) xs) = map ge_path xs" for xs
      by simp
    have "map_of (map (\<lambda>g. (ge_path g, g)) gs') = map_of (map (\<lambda>g. (ge_path g, g)) gs)"
      using assms d mset_eq_setD [OF m] by (intro map_of_inject_set [THEN iffD2]) (simp_all only: keys paths_distinct_def set_map)
    then show ?thesis
      using d by (simp add: library_map_def)
  qed
  have "paths_distinct (ToggleFavorite p gs)"
    using assms by (simp add: paths_distinct_def Toggle_paths)
  moreover have "library_map (ToggleFavorite p gs) = (library_map gs)(p := map_option (\<lambda>g. g\<lparr>ge_is_favorite := \<not> ge_is_favorite g\<rparr>) (library_map gs p))"
    by (auto simp: Toggle_map fun_eq_iff split: option.split)
  ultimately show ?thesis
    using assms sort by (simp add: Find_map AddOrUpdate_map AddOrUpdate_distinct Remove_distinct Remove_map)
qed

section \<open>Sorting\<close>

text \<open>
  What \<^verbatim>\<open>std::sort\<close> asks of a comparison: a strict weak order. Every comparison compares keys of a linear order.
\<close>

lemma compare_str_swap: "compare_str b a = - compare_str a b"
  by (induction a b rule: compare_str.induct) auto

lemma compare_str_Cons_le:
  "compare_str (x # xs) (y # ys) \<le> 0 \<longleftrightarrow> (of_char x :: nat) < of_char y \<or> (of_char x :: nat) = of_char y \<and> compare_str xs ys \<le> 0"
  by (cases "(of_char x :: nat)" "of_char y :: nat" rule: linorder_cases) auto

lemma compare_str_trans: "compare_str a b \<le> 0 \<Longrightarrow> compare_str b c \<le> 0 \<Longrightarrow> compare_str a c \<le> 0"
proof (induction a b arbitrary: c rule: compare_str.induct)
  case (4 x xs y ys)
  show ?case
  proof (cases c)
    case (Cons z zs)
    let ?x = "of_char x :: nat" and ?y = "of_char y :: nat" and ?z = "of_char z :: nat"
    have "?x < ?y \<or> ?x = ?y \<and> compare_str xs ys \<le> 0" "?y < ?z \<or> ?y = ?z \<and> compare_str ys zs \<le> 0"
      using "4.prems" unfolding Cons compare_str_Cons_le .
    moreover have "compare_str xs zs \<le> 0" if "?x = ?y" "compare_str xs ys \<le> 0" "compare_str ys zs \<le> 0"
      using "4.IH" [of zs] that by (simp only: less_irrefl not_False_eq_True simp_thms)
    ultimately show ?thesis
      unfolding Cons compare_str_Cons_le by linarith
  qed (use "4.prems" in simp)
next
  case (1 c)
  then show ?case
    by (cases c) simp_all
next
  case (2 b bs c)
  then show ?case
    by (cases c) simp_all
qed simp

lemma entry_cmp_swap: "entry_cmp s b a = - entry_cmp s a b"
  using compare_str_swap [of "ge_title b" "ge_title a"] by (cases s) (auto simp: compare_num_def)

lemma entry_cmp_trans: "entry_cmp s a b \<le> 0 \<Longrightarrow> entry_cmp s b c \<le> 0 \<Longrightarrow> entry_cmp s a c \<le> 0"
  by (cases s) (auto simp: compare_num_def intro: compare_str_trans split: if_splits)

definition entry_le :: "SortBy \<Rightarrow> bool \<Rightarrow> GameEntry \<Rightarrow> GameEntry \<Rightarrow> bool" where
  "entry_le s asc a b \<longleftrightarrow> \<not> entry_before s asc b a"

lemma entry_le_cmp: "entry_le s asc a b \<longleftrightarrow> (if asc then entry_cmp s a b \<le> 0 else entry_cmp s b a \<le> 0)"
  using entry_cmp_swap [of s a b] by (auto simp: entry_le_def entry_before_def)

lemma entry_le_linear: "entry_le s asc a b \<or> entry_le s asc b a"
  using entry_cmp_swap [of s a b] by (auto simp: entry_le_cmp)

lemma entry_le_trans: "entry_le s asc a b \<Longrightarrow> entry_le s asc b c \<Longrightarrow> entry_le s asc a c"
  using entry_cmp_trans [of s a b c] entry_cmp_trans [of s c b a] by (cases asc) (simp_all add: entry_le_cmp)

lemma sort_possible: "\<exists>gs'. Sort_result s asc gs gs'"
proof (induction gs)
  case (Cons g gs)
  then obtain xs where xs: "mset xs = mset gs" "sorted_wrt (entry_le s asc) xs"
    by (auto simp: Sort_result_def entry_le_def [abs_def])
  let ?small = "filter (\<lambda>x. entry_le s asc x g) xs" and ?large = "filter (\<lambda>x. \<not> entry_le s asc x g) xs"
  have "sorted_wrt (entry_le s asc) (?small @ g # ?large)"
    using xs(2) entry_le_linear [of s asc g] entry_le_trans [of s asc _ g]
    unfolding sorted_wrt_append by (auto intro: sorted_wrt_filter)
  moreover have "mset (?small @ g # ?large) = mset (g # gs)"
    using xs(1) by (simp add: mset_filter)
  ultimately show ?case
    unfolding Sort_result_def entry_le_def [symmetric] by blast
qed (simp add: Sort_result_def)

section \<open>Entries are read back\<close>

text \<open>\<open>joinq\<close> is the text of which double quotes separate the parts.\<close>

fun joinq :: "string list \<Rightarrow> string" where
  "joinq [] = []"
| "joinq [t] = t"
| "joinq (t # u # ts) = t @ dq # joinq (u # ts)"

definition field_names :: "string list" where
  "field_names = [''path'', ''title'', ''author'', ''version'', ''build_id'', ''file_size'', ''added_time'', ''last_played'',
     ''play_count'', ''is_favorite'', ''has_icon'']"

definition plain_value :: "string \<Rightarrow> bool" where
  "plain_value v \<longleftrightarrow> v \<notin> set field_names \<and> (\<forall>c \<in> set v. c \<notin> {dq, CHR '','', nl, CHR ''{'', CHR ''}''}) \<and> (v \<noteq> [] \<longrightarrow> hd v \<noteq> CHR '' '')"

definition plain_entry :: "GameEntry \<Rightarrow> bool" where
  "plain_entry e \<longleftrightarrow> ge_title e \<noteq> [] \<and> list_all plain_value [ge_path e, ge_title e, ge_author e, ge_version e, ge_build_id e]"

definition number_part :: "string \<Rightarrow> string" where
  "number_part v = '': '' @ v @ '','' @ [nl] @ ''  ''"

definition entry_parts :: "GameEntry \<Rightarrow> string list" where
  "entry_parts e =
     (let sep = '','' @ [nl] @ ''  '' in
      [''{'' @ [nl] @ ''  '', ''path'', '': '', ge_path e, sep, ''title'', '': '', ge_title e, sep, ''author'', '': '', ge_author e, sep,
       ''version'', '': '', ge_version e, sep, ''build_id'', '': '', ge_build_id e, sep,
       ''file_size'', number_part (dec_str (ge_file_size e)), ''added_time'', number_part (dec_str (ge_added_time e)),
       ''last_played'', number_part (dec_str (ge_last_played e)), ''play_count'', number_part (dec_str (ge_play_count e)),
       ''is_favorite'', number_part (bool_str (ge_is_favorite e)), ''has_icon'', '': '' @ bool_str (ge_has_icon e) @ [nl] @ ''}''])"

lemma ToJSON_parts: "GameEntry_ToJSON e = joinq (entry_parts e)"
  by (simp add: GameEntry_ToJSON_def entry_parts_def js_def number_part_def Let_def)

lemma after_joinq:
  assumes "dq \<notin> set t" "dq \<notin> set k"
  shows "after (dq # k @ [dq]) (joinq (t # n # ts)) = after (dq # k @ [dq]) (dq # joinq (n # ts))"
  using assms after_skip [of dq t "k @ [dq]"] by simp

lemma after_quoted:
  assumes "dq \<notin> set n" "dq \<notin> set k"
  shows "after (dq # k @ [dq]) (dq # joinq (n # m # ts)) =
    (if n = k then Some (joinq (m # ts)) else after (dq # k @ [dq]) (dq # joinq (m # ts)))"
  using after_token [OF assms, of "joinq (m # ts)"] by simp

lemma json_value_colon: "json_value (CHR '':'' # r) = takeWhile (\<lambda>c. c \<notin> {dq, CHR '','', nl, CHR ''}''}) (dropWhile (\<lambda>c. c = CHR '' '' \<or> c = dq) r)"
  by (simp add: json_value_def)

lemma json_value_text:
  assumes "plain_value v"
  shows "json_value (joinq ('': '' # v # (CHR '','' # t) # ts)) = v"
proof -
  obtain rest where rest: "joinq ((CHR '','' # t) # ts) = CHR '','' # rest"
    by (cases ts) simp_all
  have v: "takeWhile (\<lambda>c. c \<notin> {dq, CHR '','', nl, CHR ''}''}) (v @ dq # CHR '','' # rest) = v"
    using assms by (subst takeWhile_append2) (auto simp: plain_value_def)
  show ?thesis
  proof (cases v)
    case Nil
    then show ?thesis
      using rest by (simp add: json_value_colon)
  next
    case (Cons c cs)
    then show ?thesis
      using assms rest v by (simp add: json_value_colon plain_value_def)
  qed
qed

text \<open>Numbers and truth values stand without quotes.\<close>

definition bare_value :: "string \<Rightarrow> bool" where
  "bare_value v \<longleftrightarrow> v \<noteq> [] \<and> list_all (\<lambda>c. c \<notin> {dq, CHR '','', nl, CHR ''{'', CHR ''}'', CHR '' ''}) v"

lemma json_value_bare:
  assumes "bare_value v" "e \<in> {CHR '','', nl}"
  shows "json_value ('': '' @ v @ e # r) = v"
proof -
  have "takeWhile (\<lambda>c. c \<notin> {dq, CHR '','', nl, CHR ''}''}) (v @ e # r) = v"
    using assms by (subst takeWhile_append2) (auto simp: bare_value_def list_all_iff)
  then show ?thesis
    using assms by (cases v) (auto simp: json_value_colon bare_value_def)
qed

lemma digits_chars: "2 \<le> base \<Longrightarrow> base \<le> 16 \<Longrightarrow> c \<in> set (digits base n) \<Longrightarrow> \<exists>d < base. c = digit d"
proof (induction base n rule: digits.induct)
  case (1 base n)
  show ?case
  proof (cases "n < base")
    case True
    then show ?thesis
      using "1.prems" by (subst (asm) digits.simps) auto
  next
    case False
    have "n mod base < base"
      using "1.prems"(1) by simp
    then have "\<exists>d < base. digit (n mod base) = digit d"
      by blast
    then show ?thesis
      using 1 False digits.simps [of base n] by auto
  qed
qed

lemma digits_head: "0 < n \<Longrightarrow> 2 \<le> base \<Longrightarrow> \<exists>d ds. digits base n = digit d # ds \<and> 0 < d \<and> d < base"
proof (induction base n rule: digits.induct)
  case (1 base n)
  show ?case
  proof (cases "n < base")
    case True
    then show ?thesis
      using "1.prems" digits.simps [of base n] by auto
  next
    case False
    then have "0 < n div base"
      using "1.prems"(2) by (simp add: div_greater_zero_iff)
    then show ?thesis
      using 1 False digits.simps [of base n] by fastforce
  qed
qed

lemma number_of_digits: "2 \<le> base \<Longrightarrow> base \<le> 16 \<Longrightarrow> number_of base (digits base n) = n"
proof (induction base n rule: digits.induct)
  case (1 base n)
  show ?case
  proof (cases "n < base")
    case True
    then show ?thesis
      using "1.prems" digits.simps [of base n] by (simp add: number_of_def digit_facts)
  next
    case False
    have "n mod base < base"
      using "1.prems"(1) by simp
    then have "digit_value (digit (n mod base)) = Some (n mod base)"
      using "1.prems"(2) by (intro digit_facts) simp
    then show ?thesis
      using 1 False digits.simps [of base n] by (simp add: number_of_def)
  qed
qed

lemma parse_decimal: "parse_number 0 (digits 10 n) = Some (False, n)"
proof (cases "n = 0")
  case True
  have "parse_number 0 ''0'' = Some (False, 0)"
    by code_simp
  then show ?thesis
    using True digits.simps [of 10 0] by (simp add: digit_def)
next
  case False
  then obtain d ds where ds: "digits 10 n = digit d # ds" "0 < d" "d < 10"
    using digits_head [of n 10] by auto
  have "list_all (\<lambda>d. digit d \<noteq> CHR ''0'') [1..<10]"
    by code_simp
  then have d0: "digit d \<noteq> CHR ''0''"
    using ds(2,3) by (auto simp: list_all_iff)
  have "\<forall>c \<in> set (digits 10 n). digit_in 10 c"
    using digits_chars [of 10 _ n] digit_facts(1) by (fastforce simp: digit_in_def)
  then have "takeWhile (digit_in 10) (digits 10 n) = digits 10 n"
    by (simp add: takeWhile_eq_all_conv)
  moreover have "pick_base 0 (digits 10 n) = (10, digits 10 n)"
    using d0 ds(1) by (simp add: pick_base_def hex_prefix_def)
  moreover have "dropWhile is_space (digits 10 n) = digits 10 n" "\<not> starts ''-'' (digits 10 n)" "\<not> starts ''+'' (digits 10 n)" "digits 10 n \<noteq> []"
    using ds digit_facts [of d] by (auto simp: starts_def)
  ultimately show ?thesis
    by (simp add: parse_number_def number_of_digits Let_def takeWhile_eq_all_conv [THEN iffD2])
qed

lemma safe_stoull_dec: "safe_stoull (dec_str (w :: u64)) = w" "safe_stoul (dec_str (v :: u32)) = v"
proof -
  have "safe_stoull (dec_str (w :: u64)) = w" for w
    using unsigned_less [of w, where ?'a = nat] by (simp add: safe_stoull_def dec_str_def parse_decimal)
  moreover have "safe_stoull (dec_str (v :: u32)) = ucast v"
    using unsigned_less [of v, where ?'a = nat] by (simp add: safe_stoull_def dec_str_def parse_decimal)
  moreover have "(ucast (ucast v :: u64) :: u32) = v"
    by (rule bit_word_eqI) (auto simp: bit_simps)
  ultimately show "safe_stoull (dec_str (w :: u64)) = w" "safe_stoul (dec_str (v :: u32)) = v"
    by (simp_all add: safe_stoul_def)
qed


fun parts_find :: "string \<Rightarrow> string list \<Rightarrow> string list" where
  "parts_find k (n # m # ts) = (if n = k then m # ts else parts_find k (m # ts))"
| "parts_find k _ = []"

lemma json_find_parts:
  assumes "dq \<notin> set t" "\<forall>n \<in> set ts. dq \<notin> set n" "dq \<notin> set k" "ts \<noteq> []"
  shows "json_find (joinq (t # ts)) k = json_value (joinq (parts_find k ts))"
proof -
  have last: "after (dq # k @ [dq]) (dq # n) = None" if "dq \<notin> set n" for n
    using that after_skip [of dq n "k @ [dq]" "[]"] by (auto simp: starts_def) (metis append_eq_conv_conj in_set_conv_decomp set_take_subset subsetD take_all_iff append_take_drop_id)+
  have "(case after (dq # k @ [dq]) (dq # joinq ts) of None \<Rightarrow> [] | Some r \<Rightarrow> json_value r) = json_value (joinq (parts_find k ts))"
    using assms(2,4)
  proof (induction ts)
    case (Cons n ts)
    show ?case
    proof (cases ts)
      case Nil
      then show ?thesis
        using last [of n] Cons.prems by (simp add: json_value_def del: after.simps(2))
    next
      case ts: (Cons m ts')
      have "after (dq # k @ [dq]) (dq # joinq (n # m # ts')) =
          (if n = k then Some (joinq (m # ts')) else after (dq # k @ [dq]) (dq # joinq (m # ts')))"
        using Cons.prems assms(3) by (intro after_quoted) simp_all
      then show ?thesis
        using Cons by (cases "n = k") (simp_all add: ts del: after.simps joinq.simps)
    qed
  qed simp
  then show ?thesis
    using assms(4) after_joinq [OF assms(1,3), of "hd ts" "tl ts"] by (simp add: json_find_def del: after.simps joinq.simps)
qed

lemma number_part_name: "number_part v \<notin> set field_names"
  by (simp add: number_part_def field_names_def)

lemma plain_no_quote: "plain_value v \<Longrightarrow> dq \<notin> set v"
  unfolding plain_value_def by blast

lemma bare_value_dec: "bare_value (dec_str w)"
proof -
  let ?P = "\<lambda>c. c \<notin> {dq, CHR '','', nl, CHR ''{'', CHR ''}'', CHR '' ''}"
  have all: "list_all (\<lambda>d. ?P (digit d)) [0..<10]"
    by code_simp
  have "?P c" if c: "c \<in> set (dec_str w)" for c
  proof -
    obtain d where d: "d < 10" "c = digit d"
      using digits_chars [of 10 c "unat w"] c unfolding dec_str_def by auto
    have "d \<in> set [0..<10]"
      using d(1) by simp
    then show ?thesis
      using all unfolding d(2) list_all_iff by (rule bspec [rotated])
  qed
  moreover have "dec_str w \<noteq> []"
    unfolding dec_str_def by (subst digits.simps) simp
  ultimately show ?thesis
    unfolding bare_value_def list_all_iff by blast
qed

lemma bare_value_bool: "bare_value (bool_str b)"
  by (simp add: bare_value_def bool_str_def)

lemma number_part_facts:
  assumes "bare_value v"
  shows "json_value (joinq (number_part v # m # ts)) = v" "dq \<notin> set (number_part v)"
proof -
  show "json_value (joinq (number_part v # m # ts)) = v"
    using json_value_bare [OF assms, of "CHR '',''"] by (simp add: number_part_def)
  show "dq \<notin> set (number_part v)"
    using assms by (auto simp: number_part_def bare_value_def list_all_iff)
qed

lemma json_find_entry:
  assumes "plain_entry e"
  shows "json_find (GameEntry_ToJSON e) ''path'' = ge_path e" "json_find (GameEntry_ToJSON e) ''title'' = ge_title e"
    "json_find (GameEntry_ToJSON e) ''author'' = ge_author e" "json_find (GameEntry_ToJSON e) ''version'' = ge_version e"
    "json_find (GameEntry_ToJSON e) ''build_id'' = ge_build_id e"
    "json_find (GameEntry_ToJSON e) ''file_size'' = dec_str (ge_file_size e)" "json_find (GameEntry_ToJSON e) ''added_time'' = dec_str (ge_added_time e)"
    "json_find (GameEntry_ToJSON e) ''last_played'' = dec_str (ge_last_played e)" "json_find (GameEntry_ToJSON e) ''play_count'' = dec_str (ge_play_count e)"
    "json_find (GameEntry_ToJSON e) ''is_favorite'' = bool_str (ge_is_favorite e)" "json_find (GameEntry_ToJSON e) ''has_icon'' = bool_str (ge_has_icon e)"
proof -
  have plain: "plain_value (ge_path e)" "plain_value (ge_title e)" "plain_value (ge_author e)" "plain_value (ge_version e)" "plain_value (ge_build_id e)"
    using assms by (simp_all add: plain_entry_def)
  note quotes = plain [THEN plain_no_quote] number_part_facts(2) [OF bare_value_dec] number_part_facts(2) [OF bare_value_bool]
  have names: "v \<notin> set field_names" if "plain_value v" for v
    using that unfolding plain_value_def by (rule conjunct1)
  have "dq \<notin> set ('': '' @ bool_str (ge_has_icon e) @ [nl] @ ''}'')"
    by (simp add: bool_str_def)
  then have "\<forall>t \<in> set (tl (entry_parts e)). dq \<notin> set t"
    by (simp add: entry_parts_def Let_def quotes)
  then have find: "json_find (GameEntry_ToJSON e) k = json_value (joinq (parts_find k (tl (entry_parts e))))" if "dq \<notin> set k" for k
  proof -
    have "entry_parts e = hd (entry_parts e) # tl (entry_parts e)" "dq \<notin> set (hd (entry_parts e))" "tl (entry_parts e) \<noteq> []"
      by (simp_all add: entry_parts_def Let_def)
    then show ?thesis
      using json_find_parts [of "hd (entry_parts e)" "tl (entry_parts e)" k] that \<open>\<forall>t \<in> set (tl (entry_parts e)). dq \<notin> set t\<close>
      by (simp add: ToJSON_parts del: joinq.simps)
  qed
  note rules = find entry_parts_def Let_def plain [THEN names, unfolded field_names_def, simplified] number_part_name [unfolded field_names_def, simplified]
    plain [THEN json_value_text] number_part_facts(1) [OF bare_value_dec] number_part_facts(1) [OF bare_value_bool]
  show "json_find (GameEntry_ToJSON e) ''path'' = ge_path e" "json_find (GameEntry_ToJSON e) ''title'' = ge_title e"
    "json_find (GameEntry_ToJSON e) ''author'' = ge_author e" "json_find (GameEntry_ToJSON e) ''version'' = ge_version e"
    "json_find (GameEntry_ToJSON e) ''build_id'' = ge_build_id e"
    by (simp_all add: rules del: joinq.simps(3))
  show "json_find (GameEntry_ToJSON e) ''file_size'' = dec_str (ge_file_size e)" "json_find (GameEntry_ToJSON e) ''added_time'' = dec_str (ge_added_time e)"
    "json_find (GameEntry_ToJSON e) ''last_played'' = dec_str (ge_last_played e)" "json_find (GameEntry_ToJSON e) ''play_count'' = dec_str (ge_play_count e)"
    "json_find (GameEntry_ToJSON e) ''is_favorite'' = bool_str (ge_is_favorite e)"
    by (simp_all add: rules del: joinq.simps(3))
  show "json_find (GameEntry_ToJSON e) ''has_icon'' = bool_str (ge_has_icon e)"
    using json_value_bare [OF bare_value_bool, of nl "ge_has_icon e" "''}''"] by (simp add: rules)
qed

lemma entry_roundtrip: "plain_entry e \<Longrightarrow> GameEntry_FromJSON (GameEntry_ToJSON e) = e"
  by (simp add: GameEntry_FromJSON_def json_find_entry safe_stoull_dec Let_def bool_str_def plain_entry_def)

section \<open>Library files are read back with two entries too many\<close>

text \<open>The entry that \<^verbatim>\<open>FromJSON\<close> makes of a line feed.\<close>

definition empty_entry :: GameEntry where
  "empty_entry = \<lparr>ge_path = [], ge_title = [], ge_author = [], ge_version = [], ge_build_id = [], ge_file_size = 0, ge_added_time = 0,
     ge_last_played = 0, ge_play_count = 0, ge_is_favorite = False, ge_has_icon = False\<rparr>"

lemma FromJSON_line_feed: "GameEntry_FromJSON [nl] = empty_entry"
proof -
  have "parse_number 0 [] = None"
    by code_simp
  moreover have "json_find [nl] k = []" for k
    by (simp add: json_find_def)
  ultimately show ?thesis
    by (simp add: GameEntry_FromJSON_def empty_entry_def Let_def safe_stoull_def safe_stoul_def)
qed

lemma plain_no_brace: "plain_value v \<Longrightarrow> CHR ''{'' \<notin> set v \<and> CHR ''}'' \<notin> set v"
  unfolding plain_value_def by blast

lemma bare_no_brace: "bare_value v \<Longrightarrow> CHR ''{'' \<notin> set v \<and> CHR ''}'' \<notin> set v"
  unfolding bare_value_def list_all_iff by blast

lemma ToJSON_braces:
  assumes "plain_entry e"
  obtains mid where "GameEntry_ToJSON e = CHR ''{'' # mid @ [CHR ''}'']" "CHR ''{'' \<notin> set mid" "CHR ''}'' \<notin> set mid"
proof -
  define mid where "mid = butlast (tl (GameEntry_ToJSON e))"
  have plain: "plain_value (ge_path e)" "plain_value (ge_title e)" "plain_value (ge_author e)" "plain_value (ge_version e)" "plain_value (ge_build_id e)"
    using assms by (simp_all add: plain_entry_def)
  note braces = plain [THEN plain_no_brace] bare_no_brace [OF bare_value_dec] bare_no_brace [OF bare_value_bool]
  show ?thesis
  proof
    show "GameEntry_ToJSON e = CHR ''{'' # mid @ [CHR ''}'']" "CHR ''{'' \<notin> set mid" "CHR ''}'' \<notin> set mid"
      by (simp_all add: mid_def GameEntry_ToJSON_def js_def braces butlast_append)
  qed
qed

lemma load_scan_inside:
  assumes "CHR ''{'' \<notin> set mid" "CHR ''}'' \<notin> set mid"
  shows "load_scan (mid @ CHR ''}'' # r) 1 acc = GameEntry_FromJSON (acc @ mid @ ''}'') # load_scan (skip_entry (CHR ''}'' # r)) 0 []"
  using assms by (induction mid arbitrary: acc) (auto simp: depth_after_def)

lemma load_scan_entry:
  assumes "plain_entry e"
  shows "load_scan (GameEntry_ToJSON e @ r) 0 [] = e # load_scan (skip_entry (CHR ''}'' # r)) 0 []"
proof -
  obtain mid where mid: "GameEntry_ToJSON e = CHR ''{'' # mid @ [CHR ''}'']" "CHR ''{'' \<notin> set mid" "CHR ''}'' \<notin> set mid"
    using assms by (rule ToJSON_braces)
  have "load_scan (GameEntry_ToJSON e @ r) 0 [] = load_scan (mid @ CHR ''}'' # r) 1 ''{''"
    by (simp add: mid(1) depth_after_def)
  also have "\<dots> = GameEntry_FromJSON (GameEntry_ToJSON e) # load_scan (skip_entry (CHR ''}'' # r)) 0 []"
    using load_scan_inside [OF mid(2,3)] by (simp add: mid(1))
  finally show ?thesis
    using assms by (simp add: entry_roundtrip)
qed

lemma skip_to_entry:
  assumes "CHR ''{'' \<notin> set x" "CHR '']'' \<notin> set x" "plain_entry e"
  shows "skip_entry (x @ GameEntry_ToJSON e @ r) = GameEntry_ToJSON e @ r"
proof -
  obtain mid where "GameEntry_ToJSON e = CHR ''{'' # mid @ [CHR ''}'']"
    using assms(3) by (rule ToJSON_braces)
  moreover have "dropWhile (\<lambda>c. c \<noteq> CHR ''{'' \<and> c \<noteq> CHR '']'') (x @ y) = dropWhile (\<lambda>c. c \<noteq> CHR ''{'' \<and> c \<noteq> CHR '']'') y" for y
    using assms(1,2) by (induction x) auto
  ultimately show ?thesis
    by (simp add: skip_entry_def)
qed

lemma load_scan_entries:
  assumes "\<forall>e \<in> set gs. plain_entry e" "gs \<noteq> []"
  shows "load_scan (save_entries gs @ '']'' @ [nl]) 0 [] = gs @ [empty_entry]"
  using assms
proof (induction gs rule: save_entries.induct)
  case (2 g)
  have "skip_entry (CHR ''}'' # nl # CHR '']'' # [nl]) = [nl]" "skip_entry [nl] = []"
    by (simp_all add: skip_entry_def)
  then show ?case
    using 2 load_scan_entry [of g "nl # CHR '']'' # [nl]"] by (simp add: depth_after_def FromJSON_line_feed)
next
  case (3 g h gs)
  have h: "save_entries (h # gs) @ '']'' @ [nl] = GameEntry_ToJSON h @ drop (length (GameEntry_ToJSON h)) (save_entries (h # gs)) @ '']'' @ [nl]"
    by (cases gs) simp_all
  have "skip_entry ((CHR ''}'' # '','' @ [nl]) @ save_entries (h # gs) @ '']'' @ [nl]) = save_entries (h # gs) @ '']'' @ [nl]"
    unfolding h using 3 by (intro skip_to_entry) simp_all
  then show ?case
    using 3 load_scan_entry [of g "'','' @ [nl] @ save_entries (h # gs) @ '']'' @ [nl]"] by simp
qed simp

lemma concat_file_lines: "s = [] \<or> last s = nl \<Longrightarrow> concat (map (\<lambda>l. l @ [nl]) (file_lines s)) = s"
proof (induction s rule: file_lines.induct)
  case (1 s)
  show ?case
  proof (cases "s = []")
    case True
    then show ?thesis
      by (simp add: file_lines.simps)
  next
    case False
    then have "nl \<in> set s"
      using "1.prems" last_in_set by metis
    then obtain x r where s: "s = x @ nl # r" "nl \<notin> set x"
      by (meson split_list_first)
    then show ?thesis
      using 1 False file_lines_Cons [of x r] by (simp add: dropWhile_before split: if_splits)
  qed
qed

text \<open>
  Property C34. A saved library is loaded back with every entry as it was and in order, provided that the texts contain no quotes, commas,
  braces or line feeds, start with no blank and are no field names; but an empty entry stands before the first and after the last one: the
  line feeds behind the brackets are taken for entries. So a saved library never is what is loaded, and the paths of the loaded one
  are not distinct.
\<close>

theorem library_reload:
  assumes "\<forall>e \<in> set gs. plain_entry e" "GameLibrary_Save writable path gs files = (True, files')"
  shows "GameLibrary_Load files' path old = (True, empty_entry # gs @ [empty_entry]) \<and> \<not> paths_distinct (empty_entry # gs @ [empty_entry])"
proof -
  have "load_scan (nl # save_entries gs @ '']'' @ [nl]) 0 [] = empty_entry # gs @ [empty_entry]"
  proof (cases gs)
    case Nil
    then show ?thesis
      by (simp add: depth_after_def FromJSON_line_feed skip_entry_def)
  next
    case (Cons g hs)
    have g: "save_entries gs @ '']'' @ [nl] = GameEntry_ToJSON g @ drop (length (GameEntry_ToJSON g)) (save_entries gs) @ '']'' @ [nl]"
      unfolding Cons by (cases hs) simp_all
    have "skip_entry ([nl] @ save_entries gs @ '']'' @ [nl]) = save_entries gs @ '']'' @ [nl]"
      unfolding g using assms(1) Cons by (intro skip_to_entry) simp_all
    then show ?thesis
      using load_scan_entries [OF assms(1)] Cons by (simp add: depth_after_def FromJSON_line_feed)
  qed
  moreover have "concat (map (\<lambda>l. l @ [nl]) (file_lines (save_text gs))) = save_text gs"
    by (rule concat_file_lines) (simp add: save_text_def)
  ultimately show ?thesis
    using assms(2) by (auto simp: GameLibrary_Save_def GameLibrary_Load_def load_text_def save_text_def paths_distinct_def split: if_splits)
qed

definition sample_game :: GameEntry where
  "sample_game = empty_entry\<lparr>ge_path := ''games/demo.nro'', ge_title := ''Demo'', ge_file_size := 4096, ge_is_favorite := True\<rparr>"

theorem library_reload_witness:
  "GameLibrary_Load [''lib'' \<mapsto> save_text [sample_game]] ''lib'' [] = (True, [empty_entry, sample_game, empty_entry])"
proof -
  have "plain_entry sample_game"
    by code_simp
  then show ?thesis
    using library_reload [of "[sample_game]" "\<lambda>_. True" "''lib''" Map.empty "[''lib'' \<mapsto> save_text [sample_game]]" "[]"]
    by (simp add: GameLibrary_Save_def)
qed

theorem library_refines_map_witness:
  "paths_distinct (AddOrUpdate (sample_game\<lparr>ge_title := ''Other''\<rparr>) [sample_game]) \<and>
   library_map (AddOrUpdate (sample_game\<lparr>ge_title := ''Other''\<rparr>) [sample_game]) ''games/demo.nro'' = Some (sample_game\<lparr>ge_title := ''Other''\<rparr>)"
  using library_refines_map [of "[sample_game]" "''x''" "sample_game\<lparr>ge_title := ''Other''\<rparr>" Title True]
  by (simp add: paths_distinct_def sample_game_def)

section \<open>Scanning directories\<close>

text \<open>
  \<^verbatim>\<open>src/src/frontend/Library/GameScanner.cpp\<close>. The name, extension and stem of a path as \<^verbatim>\<open>std::filesystem\<close> defines them: a leading dot starts no extension.
\<close>

definition file_name :: "string \<Rightarrow> string" where
  "file_name p = rev (takeWhile (\<lambda>c. c \<noteq> CHR ''/'') (rev p))"

definition extension :: "string \<Rightarrow> string" where
  "extension p =
     (let f = file_name p; back = takeWhile (\<lambda>c. c \<noteq> CHR ''.'') (rev f) in
      if f = ''.'' \<or> f = ''..'' \<or> length f \<le> length back + 1 then [] else CHR ''.'' # rev back)"

definition stem :: "string \<Rightarrow> string" where
  "stem p = take (length (file_name p) - length (extension p)) (file_name p)"

definition IsSupportedFile :: "string \<Rightarrow> bool" where
  "IsSupportedFile path = (map tolower (extension path) \<in> {''.nro'', ''.xci'', ''.nsp''})"

definition header_word :: "u8 list \<Rightarrow> nat \<Rightarrow> u32" where
  "header_word header off = (if off + 4 > length header then 0 else of_le_bytes (get_bytes header off 4))"

definition NRO0_WORD :: u32 where "NRO0_WORD = 0x304F524E"

definition nro_offset :: "u8 list \<Rightarrow> nat" where
  "nro_offset header =
     (case find (\<lambda>i. header_word header i = NRO0_WORD) (map (\<lambda>k. 4 * k) [0..<length header div 4]) of Some i \<Rightarrow> i | None \<Rightarrow> 0)"

definition untitled_entry :: GameEntry where
  "untitled_entry = \<lparr>ge_path = [], ge_title = [], ge_author = [], ge_version = [], ge_build_id = [], ge_file_size = 0, ge_added_time = 0,
     ge_last_played = 0, ge_play_count = 0, ge_is_favorite = False, ge_has_icon = False\<rparr>"

text \<open>The contents of the file, \<open>None\<close> when it cannot be opened, and the time.\<close>

definition ExtractMetadata :: "u8 list option \<Rightarrow> u64 \<Rightarrow> string \<Rightarrow> GameEntry" where
  "ExtractMetadata content now path =
     (let entry = untitled_entry\<lparr>ge_path := path, ge_added_time := now\<rparr> in
      case content of
        None \<Rightarrow> entry
      | Some data \<Rightarrow>
          let entry = entry\<lparr>ge_file_size := of_nat (length data)\<rparr> in
          if length data < 0x200 then entry
          else
            let header = take 0x200 data; nro_off = nro_offset header in
            if nro_off = 0 then entry
            else entry\<lparr>ge_build_id := concat (map hex2 (take 0x20 (drop (nro_off + 0x30) header))), ge_title := stem path\<rparr>)"

definition scan_file :: "(string \<rightharpoonup> u8 list) \<Rightarrow> u64 \<Rightarrow> string \<Rightarrow> nat \<times> GameEntry list \<Rightarrow> nat \<times> GameEntry list" where
  "scan_file files now path s =
     (case s of (found, lib) \<Rightarrow>
        let entry = ExtractMetadata (files path) now path
        in if ge_title entry \<noteq> [] then (Suc found, AddOrUpdate entry lib) else (found, lib))"

text \<open>\<open>listing dir\<close> are the regular files below a directory in the order of the iterator, \<open>None\<close> when it is no directory.\<close>

definition ScanDirectory ::
    "(string \<rightharpoonup> string list) \<Rightarrow> (string \<rightharpoonup> u8 list) \<Rightarrow> u64 \<Rightarrow> string \<Rightarrow> GameEntry list \<Rightarrow> nat \<times> GameEntry list" where
  "ScanDirectory listing files now dir lib =
     (case listing dir of
        None \<Rightarrow> (0, lib)
      | Some paths \<Rightarrow> fold (scan_file files now) (filter IsSupportedFile paths) (0, lib))"

fun ScanDirectories ::
    "(string \<rightharpoonup> string list) \<Rightarrow> (string \<rightharpoonup> u8 list) \<Rightarrow> u64 \<Rightarrow> string list \<Rightarrow> GameEntry list \<Rightarrow> nat \<times> GameEntry list" where
  "ScanDirectories listing files now [] lib = (0, lib)"
| "ScanDirectories listing files now (d # ds) lib =
     (let (n, lib') = ScanDirectory listing files now d lib; (m, lib'') = ScanDirectories listing files now ds lib' in (n + m, lib''))"

subsection \<open>What a scan finds\<close>

lemma ExtractMetadata_path [simp]: "ge_path (ExtractMetadata content now path) = path"
  by (simp add: ExtractMetadata_def untitled_entry_def Let_def split: option.split)

definition listable :: "(string \<rightharpoonup> u8 list) \<Rightarrow> u64 \<Rightarrow> string \<Rightarrow> bool" where
  "listable files now path \<longleftrightarrow> IsSupportedFile path \<and> ge_title (ExtractMetadata (files path) now path) \<noteq> []"

lemma scan_files:
  "paths_distinct lib \<Longrightarrow>
   (let (n', lib') = fold (scan_file files now) ps (n, lib) in
     paths_distinct lib' \<and> n' = n + length (filter (\<lambda>p. ge_title (ExtractMetadata (files p) now p) \<noteq> []) ps) \<and>
     library_map lib' = (\<lambda>p. if p \<in> set ps \<and> ge_title (ExtractMetadata (files p) now p) \<noteq> [] then Some (ExtractMetadata (files p) now p) else library_map lib p))"
proof (induction ps arbitrary: n lib)
  case (Cons q ps)
  show ?case
  proof (cases "ge_title (ExtractMetadata (files q) now q) = []")
    case True
    then show ?thesis
      using Cons.IH [OF Cons.prems, of n] by (auto simp: scan_file_def Let_def fun_eq_iff split: prod.splits)
  next
    case False
    then show ?thesis
      using Cons.IH [OF AddOrUpdate_distinct [OF Cons.prems, of "ExtractMetadata (files q) now q"], of "Suc n"]
      by (auto simp: scan_file_def Let_def fun_eq_iff AddOrUpdate_map split: prod.splits)
  qed
qed simp

text \<open>
  Scanning a directory keeps the paths of the library distinct, puts in exactly one entry for every supported file that yields a
  title, with the data of that file, leaves the other entries alone, and counts the files it has put in.
\<close>

theorem scan_directory_correct:
  assumes "paths_distinct lib" "listing dir = Some paths" "ScanDirectory listing files now dir lib = (n, lib')"
  shows "paths_distinct lib' \<and> n = length (filter (listable files now) paths) \<and>
    library_map lib' = (\<lambda>p. if p \<in> set paths \<and> listable files now p then Some (ExtractMetadata (files p) now p) else library_map lib p)"
  using scan_files [OF assms(1), of files now "filter IsSupportedFile paths" 0] assms(2,3)
  by (auto simp: ScanDirectory_def listable_def [abs_def] fun_eq_iff conj_commute)

text \<open>A package (XCI or NSP), whose header has no NRO word, is supported but never listed: only NRO files get a title.\<close>

lemma packages_not_listed:
  assumes "\<forall>i. header_word (take 0x200 data) i \<noteq> NRO0_WORD" "files path = Some data"
  shows "\<not> listable files now path"
proof -
  have "find (\<lambda>i. header_word (take 0x200 data) i = NRO0_WORD) xs = None" for xs
    using assms(1) by (simp add: find_None_iff)
  then have "nro_offset (take 0x200 data) = 0"
    by (simp add: nro_offset_def)
  then show ?thesis
    using assms(2) by (simp add: listable_def ExtractMetadata_def untitled_entry_def Let_def)
qed

theorem scan_directory_correct_witness:
  "let data = replicate 16 0 @ le_bytes 4 NRO0_WORD @ replicate 0x1F0 (7 :: u8); files = [''games/demo.nro'' \<mapsto> data];
       listing = [''games'' \<mapsto> [''games/demo.nro'', ''games/read.txt'']]
   in snd (ScanDirectory listing files 5 ''games'' []) = [ExtractMetadata (Some data) 5 ''games/demo.nro''] \<and>
      fst (ScanDirectory listing files 5 ''games'' []) = 1"
proof -
  define data where "data = replicate 16 0 @ le_bytes 4 NRO0_WORD @ replicate 0x1F0 (7 :: u8)"
  define files where "files = [''games/demo.nro'' \<mapsto> data]"
  define listing where "listing = [''games'' \<mapsto> [''games/demo.nro'', ''games/read.txt'']]"
  have "ge_title (ExtractMetadata (Some data) 5 ''games/demo.nro'') = ''demo''"
    unfolding data_def by code_simp
  moreover have "IsSupportedFile ''games/demo.nro'' \<and> \<not> IsSupportedFile ''games/read.txt''"
    by code_simp
  ultimately have run: "ScanDirectory listing files 5 ''games'' [] = (1, [ExtractMetadata (Some data) 5 ''games/demo.nro''])"
    and "filter (listable files 5) [''games/demo.nro'', ''games/read.txt''] = [''games/demo.nro'']"
    by (simp_all add: ScanDirectory_def listing_def files_def scan_file_def listable_def Let_def)
  then show ?thesis
    using scan_directory_correct [of "[]" listing "''games''" "[''games/demo.nro'', ''games/read.txt'']" files 5]
    by (simp add: data_def [symmetric] files_def [symmetric] listing_def [symmetric] paths_distinct_def Let_def)
qed

section \<open>Searching\<close>

lemma starts_iff: "starts pat s \<longleftrightarrow> (\<exists>y. s = pat @ y)"
  unfolding starts_def by (metis append_eq_conv_conj append_take_drop_id)

lemma after_iff: "after pat s \<noteq> None \<longleftrightarrow> (\<exists>x y. s = x @ pat @ y)"
proof (induction s)
  case (Cons c cs)
  have "(\<exists>x y. c # cs = x @ pat @ y) \<longleftrightarrow> (\<exists>y. c # cs = pat @ y) \<or> (\<exists>x y. cs = x @ pat @ y)"
    by (metis append_Cons append_Nil list.sel(3) neq_Nil_conv)
  then show ?case
    using Cons starts_iff [of pat "c # cs"] by auto
qed simp

text \<open>A search finds the entries whose title contains the text, upper and lower case alike, in the order of the library.\<close>

lemma Search_finds:
  "GameLibrary_Search q gs = filter (\<lambda>g. \<exists>x y. map tolower (ge_title g) = x @ map tolower q @ y) gs"
  unfolding GameLibrary_Search_def after_iff ..

text \<open>A title with a comma is cut at it, one reason for the conditions on the texts.\<close>

lemma title_cut_at_comma:
  "ge_title (GameEntry_FromJSON ([dq] @ ''title'' @ [dq] @ '': '' @ [dq] @ ''A, B'' @ [dq])) = ''A''"
  by code_simp

end
