(* ===== verification/ShaderCache.thy ===== *)
theory ShaderCache
  imports ShaderIr
begin

text \<open>
  The caches of shaders: \<^verbatim>\<open>src/src/gpu/shader/ShaderCache.cpp\<close> and \<^verbatim>\<open>ShaderCache.h\<close>. Every operation holds the mutex of the cache, so they are
  functions on its state. Pointers of the graphics library are numbers, 0 for none.
\<close>

section \<open>State and operations\<close>

record CompiledShader =
  cs_hash :: u64
  cs_stage :: ShaderStage
  cs_valid :: bool
  msl_source :: string
  spirv_binary :: "u32 list"
  vertex_function :: u64
  fragment_function :: u64
  debug_disassembly :: string

record DecodedEntry =
  de_program :: ShaderProgram
  de_decoded :: bool

record ShaderCache =
  decoded_programs :: "u64 \<rightharpoonup> DecodedEntry"
  compiled_shaders :: "u64 \<rightharpoonup> CompiledShader"
  pipelines :: "u64 \<rightharpoonup> u64"

definition ShaderCache_init :: ShaderCache where
  "ShaderCache_init = \<lparr>decoded_programs = Map.empty, compiled_shaders = Map.empty, pipelines = Map.empty\<rparr>"

definition FindDecoded :: "u64 \<Rightarrow> ShaderCache \<Rightarrow> ShaderProgram option" where
  "FindDecoded hash c = (case decoded_programs c hash of Some e \<Rightarrow> if de_decoded e then Some (de_program e) else None | None \<Rightarrow> None)"

definition FindCompiled :: "u64 \<Rightarrow> ShaderCache \<Rightarrow> CompiledShader option" where
  "FindCompiled hash c = (case compiled_shaders c hash of Some s \<Rightarrow> if cs_valid s then Some s else None | None \<Rightarrow> None)"

definition StoreDecoded :: "ShaderProgram \<Rightarrow> ShaderCache \<Rightarrow> ShaderCache" where
  "StoreDecoded p c = c\<lparr>decoded_programs := (decoded_programs c)(sp_hash p \<mapsto> \<lparr>de_program = p, de_decoded = True\<rparr>)\<rparr>"

definition StoreCompiled :: "u64 \<Rightarrow> CompiledShader \<Rightarrow> ShaderCache \<Rightarrow> ShaderCache" where
  "StoreCompiled hash s c = c\<lparr>compiled_shaders := (compiled_shaders c)(hash \<mapsto> s)\<rparr>"

definition StorePipeline :: "u64 \<Rightarrow> u64 \<Rightarrow> ShaderCache \<Rightarrow> ShaderCache" where
  "StorePipeline hash p c = c\<lparr>pipelines := (pipelines c)(hash \<mapsto> p)\<rparr>"

definition FindPipeline :: "u64 \<Rightarrow> ShaderCache \<Rightarrow> u64" where
  "FindPipeline hash c = (case pipelines c hash of Some p \<Rightarrow> p | None \<Rightarrow> 0)"

definition ShaderCache_Clear :: "ShaderCache \<Rightarrow> ShaderCache" where
  "ShaderCache_Clear c = c\<lparr>decoded_programs := Map.empty, compiled_shaders := Map.empty, pipelines := Map.empty\<rparr>"

section \<open>Contract\<close>

text \<open>
  A cache answers with what was stored last under the key: \<open>val\<close> is what can be found of an entry, \<open>none\<close> the answer when nothing was
  stored. The lemma holds for any sequence of stores.
\<close>

locale last_store =
  fixes put :: "'e \<Rightarrow> 's \<Rightarrow> 's" and key :: "'e \<Rightarrow> 'k" and val :: "'e \<Rightarrow> 'v" and get :: "'k \<Rightarrow> 's \<Rightarrow> 'v"
  assumes get_put: "get k (put e s) = (if k = key e then val e else get k s)"
begin

lemma find_in_append: "find P (xs @ ys) = (case find P xs of Some x \<Rightarrow> Some x | None \<Rightarrow> find P ys)"
  by (induction xs) simp_all

lemma get_fold: "get k (fold put es s) = (case find (\<lambda>e. key e = k) (rev es) of Some e \<Rightarrow> val e | None \<Rightarrow> get k s)"
proof (induction es arbitrary: s)
  case (Cons e es)
  then show ?case
    by (auto simp: get_put find_in_append split: option.split)
qed simp

end

interpretation decoded_cache: last_store StoreDecoded sp_hash Some FindDecoded
  by unfold_locales (simp add: FindDecoded_def StoreDecoded_def)

interpretation compiled_cache: last_store "\<lambda>(h, s). StoreCompiled h s" fst "\<lambda>(h, s). if cs_valid s then Some s else None" FindCompiled
  by unfold_locales (auto simp: FindCompiled_def StoreCompiled_def)

interpretation pipeline_cache: last_store "\<lambda>(h, p). StorePipeline h p" fst snd FindPipeline
  by unfold_locales (auto simp: FindPipeline_def StorePipeline_def)

text \<open>
  After clearing, whatever was stored before: the caches answer with what has been stored since, and with nothing else; storing a
  shader that is not valid hides an earlier one.
\<close>

lemma cleared_cache:
  "FindDecoded h (fold StoreDecoded ps (ShaderCache_Clear c)) = find (\<lambda>p. sp_hash p = h) (rev ps)"
  "FindPipeline h (ShaderCache_Clear c) = 0" "FindCompiled h (ShaderCache_Clear c) = None"
  "\<not> cs_valid s \<Longrightarrow> FindCompiled h (StoreCompiled h s c) = None"
proof -
  have "FindDecoded h (ShaderCache_Clear c) = None"
    by (simp add: FindDecoded_def ShaderCache_Clear_def)
  then show "FindDecoded h (fold StoreDecoded ps (ShaderCache_Clear c)) = find (\<lambda>p. sp_hash p = h) (rev ps)"
    by (simp add: decoded_cache.get_fold split: option.split)
qed (simp_all add: FindPipeline_def FindCompiled_def ShaderCache_Clear_def StoreCompiled_def)

text \<open>The three caches do not disturb each other.\<close>

lemma caches_independent:
  "FindCompiled h (StoreDecoded p c) = FindCompiled h c" "FindPipeline h (StoreDecoded p c) = FindPipeline h c"
  "FindDecoded h (StoreCompiled k s c) = FindDecoded h c" "FindPipeline h (StoreCompiled k s c) = FindPipeline h c"
  "FindDecoded h (StorePipeline k q c) = FindDecoded h c" "FindCompiled h (StorePipeline k q c) = FindCompiled h c"
  by (simp_all add: FindDecoded_def FindCompiled_def FindPipeline_def StoreDecoded_def StoreCompiled_def StorePipeline_def)

end
