(* ===== verification/Spec2Isabelle.thy ===== *)
theory Spec2Isabelle
  imports WaitProtocol TrapHandler TraceEngine MaxwellDecoder NroLoader ServiceBoard PackageLoader SpirvValidity SpirvSemantics
    DebugServer KeyManager AesCrypto EmulatorCore GameLibrary ShaderCache
begin

text \<open>
  Verification development of m1switch, an emulator that runs Switch programs natively on Apple silicon.

  \<^bold>\<open>The program and its parts.\<close> A loader places a program into the guest address space (class
  \<open>Memory\<close>) and rewrites its system calls into breakpoint instructions. Guest code runs on host threads; a
  system call traps into a signal handler, which looks the address up in a cache and calls the handler of the
  system call with the trapped registers. Handlers work on the guest memory, on the kernel's handle table
  (threads, events, sessions, shared memory) and on the IPC manager, which decodes the request in
  the thread's buffer, calls a service object and writes the response back. Graphics services hand command
  buffers to the GPU front end: a parser splits them into method calls, the 3D engine records register writes,
  and the state tracker turns draw methods into queued draws with a snapshot of the state. Shader binaries are
  extracted from guest memory, decoded into an intermediate representation and translated to SPIR-V. A debugger
  patches breakpoints into guest code, a trace engine records events in a ring, snapshots keep registers and recent
  system calls, and a debug server makes all of that available to a client. The emulator core ties the parts
  together: it loads a game, makes the main thread and runs it.

  \<^bold>\<open>Theories, in the order of their imports\<close> (sources are under \<^verbatim>\<open>src/src/\<close>).

  \<^item> \<open>Prelude\<close>: \<^verbatim>\<open>common/Types.h\<close> (result codes, alignment, bit fields), the little-endian byte codec,
    the register file, and transition systems with the locale \<open>safe_system\<close> (an invariant that every step keeps
    holds of every reachable state).
  \<^item> \<open>GuestMemory\<close>: \<^verbatim>\<open>memory/Memory.h, Memory.cpp\<close>. The record \<open>memory\<close> is class \<open>Memory\<close>; one definition per
    method. Host calls are the parameter \<open>host_vm\<close>. Lemmas: read after write, the page-table invariant, heap
    resizing, region queries. Locale \<open>byte_store\<close>, interpreted on \<open>Read\<close> and \<open>Write\<close>.
  \<^item> \<open>KernelObjects\<close>: \<^verbatim>\<open>kernel/Kernel.h\<close>: kernel objects as a datatype, the handle table. Locale
    \<open>handle_store\<close> (what create, get and close promise), interpreted here on the handle table and in \<open>Ipc\<close>
    on the session list.
  \<^item> \<open>WaitProtocol\<close>: \<open>KEvent::Wait\<close>, \<open>Signal\<close>, and the wait loop of \<open>WaitSynchronization\<close> as step relations with
    one step per lock acquisition or blocking point: no lost wakeup for \<open>KEvent\<close>, the lost wakeup of the
    multi-object wait, safety of its answer, progress of timed waits.
  \<^item> \<open>Gpfifo\<close>, \<open>Engine3D\<close>, \<open>StateTracker\<close>: \<^verbatim>\<open>gpu/engine\<close>, \<^verbatim>\<open>gpu/maxwell\<close>, \<^verbatim>\<open>gpu/StateTracker.*\<close>. The parser makes
    the calls that commands stand for when they are laid out bit by bit (\<open>IncreaseOnce\<close> is left out of the commands: comment and code differ,
    \<open>Process_increase_once\<close> shows what the code does); register
    writes stay inside the arrays; a command buffer queues its draws in order, with the registers each one sees. Locale \<open>call_consumer\<close>
    (what the parser's client keeps and counts), interpreted on the state tracker.
  \<^item> \<open>Ipc\<close>, \<open>Services\<close>: \<^verbatim>\<open>services/Ipc.*, Sm.cpp, Set.cpp\<close>: sessions, request parsing, response layout, the service
    manager and the settings, performance and time services. Locale \<open>service_contract\<close> (what every service
    keeps of the session table), interpreted on the built-in services.
  \<^item> \<open>SvcHandlers\<close>: \<^verbatim>\<open>kernel/SvcHandlers.cpp, SvcTable.cpp\<close>: all handlers, the registration table, the dispatcher.
    Every system call keeps the calling convention and the invariants of the tables.
  \<^item> \<open>CodePatch\<close>, \<open>Debugger\<close>, \<open>TrapHandler\<close>: \<^verbatim>\<open>cpu/NativeExec.cpp, Debugger.*, ExceptionHandler.cpp\<close>. The patch
    loop against a per-word specification; breakpoints as a refinement (the code with the saved
    instructions put back never changes, \<open>safe_system\<close> interpreted on the debugger); a trap at a
    patched address dispatches that system call, which composes patcher, handler and dispatcher.
  \<^item> \<open>TraceEngine\<close>: \<^verbatim>\<open>debug/TraceEngine.*\<close>. The ring refines a log since the last clear (locale \<open>event_log\<close>), for records
    without extra data.
  \<^item> \<open>ShaderIr\<close>, \<open>MaxwellDecoder\<close>: \<^verbatim>\<open>gpu/shader/ShaderIr.*, MaxwellDecoder.*\<close>. The decode loop ends, the operands it
    gives an instruction have a fixed shape per opcode, branch displacements are decoded as signed numbers, extraction stays in bounds.

  \<^item> \<open>SpirvModule\<close>, \<open>SpirvContract\<close>, \<open>SpirvEmitter\<close>, \<open>SpirvCorrect\<close>, \<open>SpirvValidity\<close>, \<open>SpirvSemantics\<close>:
    \<^verbatim>\<open>gpu/shader/SpirvEmitter.*\<close>. The module builder in a state monad; what a sequence of emissions keeps of the module (whole
    instructions, ids below the bound and defined once); every instruction case, the control-flow annotation and
    the whole of \<^verbatim>\<open>Emit\<close>; the translation of every decoded shader is well formed; the code of straight-line shaders,
    executed, leaves in the variables what the instructions leave in the registers; forward branches dangle.
  \<^item> \<open>ShaderCache\<close>: \<^verbatim>\<open>gpu/shader/ShaderCache.*\<close>. Locale \<open>last_store\<close> (a lookup gives what was stored last), interpreted
    on the three caches.
  \<^item> \<open>Lz4\<close>, \<open>NsoLoader\<close>, \<open>NroLoader\<close>, \<open>PackageLoader\<close>: \<^verbatim>\<open>loader/*.cpp\<close>. Decompression inverts an encoder; segments, bss and
    relocations end up in guest memory; page-relative addresses are patched as the architecture reads them, also when the data
    moves down; loading an NRO ends; the executable of a package is looked for in the wrong place.
  \<^item> \<open>AesCrypto\<close>, \<open>KeyManager\<close>: \<^verbatim>\<open>loader/AesCrypto.cpp, KeyManager.*\<close>. Block modes over any cipher (counter mode undoes itself and
    can start at any position, up to a lost carry), key files.
  \<^item> \<open>ServiceIo\<close>, \<open>Vi\<close>, \<open>Nv\<close>, \<open>RomFs\<close>, \<open>Fs\<close>, \<open>MiscServices\<close>, \<open>Am\<close>, \<open>Hid\<close>, \<open>ServiceBoard\<close>: \<^verbatim>\<open>services/*.cpp, loader/RomFs.*\<close>. Argument and answer conventions
    (locale \<open>handler_contract\<close>), the display queue as a refinement of an abstract buffer queue, GPU memory objects that do not
    overlap, submissions that execute their commands, RomFS images read back, files opened and read, applet and input services.
    \<open>ServiceBoard\<close> puts all services on one board (locale \<open>registry_contract\<close>, an extension of \<open>service_contract\<close>) and shows that
    session ids and connections survive every request.
  \<^item> \<open>Scheduler\<close>: \<^verbatim>\<open>core/Scheduler.*\<close>. The loop of a guest core, step by step, against queueing and stopping from other
    threads (\<open>safe_system\<close> interpreted on it): guests run in the order in which they were queued, a guest queued on a waiting core, or one
    queued since, starts whatever is queued in between, one queued on a busy core is lost.
  \<^item> \<open>Snapshot\<close>, \<open>TextFormat\<close>, \<open>DebugServer\<close>: \<^verbatim>\<open>debug/SnapshotManager.*, DebugServer.*\<close>. The history is a window (a second interpretation of
    \<open>event_log\<close>); \<open>TextFormat\<close> has the text functions of the C++ library; requests are read back, chunks of a connection do not
    matter, memory written through the server is read back through it.
  \<^item> \<open>EmulatorCore\<close>: \<^verbatim>\<open>core/Core.*\<close>. \<^verbatim>\<open>LoadGame\<close> as the composition of the loaders, \<^verbatim>\<open>Run\<close>, the end of the guest, \<^verbatim>\<open>Stop\<close>:
    every loaded game starts at the base of its image.
  \<^item> \<open>GameLibrary\<close>: \<^verbatim>\<open>frontend/Library/GameModel.*, GameScanner.cpp\<close>. The library as a map from paths, its files, sorting, searching and
    scanning.

  \<^bold>\<open>Modelling choices.\<close> Integers keep their width wherever the code relies on it; addresses and sizes wrap.
  Memory is a total function from host addresses to bytes, so that aliasing between components is
  visible. Errors are \<open>Result\<close> values, and behaviour the language leaves undefined (out-of-bounds
  access, double free) is an error constructor of the component, never a default value. A C++ container whose
  iteration order is unspecified is a map together with an order parameter.

  \<^bold>\<open>Bounds and fuel.\<close> Loops are structural or have a measure, except two. The 32-bit offsets of the shader decoder and of the
  scans of the NRO loader can wrap, so these loops are partial functions; the bounds on the size of the file in their theorems are
  the largest for which no offset wraps. The table loops of a RomFS
  advance by lengths that the image contains: they have fuel, and one round more than the image has bytes is enough for every
  image below 4 GiB. Counters of the trace
  ring are unbounded numbers (64 bits are not exhausted in practice), as are the lengths of files and texts.

  \<^bold>\<open>Not modelled.\<close> Objective-C++ around system frameworks: the Metal renderer, device, shader compiler and texture cache, audio
  and input devices, and the user interface; their code is calls whose effects are the framework's. Of the C++ code: opening
  and accepting sockets, the assembly trampoline and the installation of signal stacks, the wiring in \<^verbatim>\<open>EmulatorCore::Initialize\<close> (pointers
  handed to components), the entry points, which parse arguments and print, the configuration file, which is written and never
  read, logging, and the table of method names for log output. Ciphers, files, directory listings, clocks and the host's mapping calls are parameters.
\<close>

end
